(* ===== verification/RavPrelude.thy ===== *)
theory RavPrelude
  imports Main "HOL-Library.AList" "HOL-Library.Char_ord"
begin

text \<open>
  Shared vocabulary of the development: the parts of the C++ language and of its standard
  library the components use (byte strings, \<open>std::string::find\<close>, \<open>substr\<close>,
  \<open>std::stoi\<close>, \<open>std::to_string\<close>, the C-locale character classes, integer
  division, durations, hash maps), the lemmas about them, and the interface locales
  (\<open>keyed_store\<close>, \<open>defaulted_store\<close>, \<open>enum_codec\<close>, \<open>guarded_machine\<close>,
  \<open>deny_first\<close>) that the component theories interpret on their own operations.
\<close>

section \<open>Hint collections\<close>

named_theorems str_simps \<open>facts about the byte-string operations\<close>
named_theorems store_simps \<open>facts about hash maps as association lists\<close>

section \<open>Integers and time\<close>

text \<open>C++ integer division truncates towards zero.\<close>

definition cdiv :: "int \<Rightarrow> int \<Rightarrow> int" where
  "cdiv a b = sgn a * sgn b * (\<bar>a\<bar> div \<bar>b\<bar>)"

definition INT_MAX :: int where "INT_MAX = 2147483647"

definition INT_MIN :: int where "INT_MIN = - 2147483648"

definition in_int32 :: "int \<Rightarrow> bool" where
  "in_int32 i \<longleftrightarrow> INT_MIN \<le> i \<and> i \<le> INT_MAX"

text \<open>
  A \<open>time_point\<close> or a \<open>duration\<close> of \<open>std::chrono\<close> is a count of nanoseconds;
  \<open>duration_cast\<close> to a coarser unit divides with truncation.
\<close>

type_synonym time = int

definition secs :: "int \<Rightarrow> time" where "secs n = n * 1000000000"

definition msecs :: "int \<Rightarrow> time" where "msecs n = n * 1000000"

definition hours :: "int \<Rightarrow> time" where "hours n = n * 3600000000000"

definition to_secs :: "time \<Rightarrow> int" where "to_secs t = cdiv t 1000000000"

definition to_msecs :: "time \<Rightarrow> int" where "to_msecs t = cdiv t 1000000"

lemma cdiv_nonneg: "0 \<le> a \<Longrightarrow> 0 < b \<Longrightarrow> cdiv a b = a div b"
  by (cases "a = 0") (auto simp: cdiv_def)

lemma to_secs_secs [simp]: "to_secs (secs n) = n"
  by (auto simp: to_secs_def secs_def cdiv_def abs_mult sgn_mult mult_sgn_abs mult.commute [of "sgn n"])

lemma to_msecs_msecs [simp]: "to_msecs (msecs n) = n"
  by (auto simp: to_msecs_def msecs_def cdiv_def abs_mult sgn_mult mult_sgn_abs mult.commute [of "sgn n"])

lemma secs_mono [simp]: "secs a \<le> secs b \<longleftrightarrow> a \<le> b"
  by (simp add: secs_def)

lemma secs_less [simp]: "secs a < secs b \<longleftrightarrow> a < b"
  by (simp add: secs_def)

section \<open>Optional members\<close>

text \<open>\<open>j.value(key, d)\<close>: the member, or the default when there is none.\<close>

definition value_or :: "'a option \<Rightarrow> 'a \<Rightarrow> 'a" where
  "value_or v d = (case v of None \<Rightarrow> d | Some x \<Rightarrow> x)"

lemma value_or_simps [simp]: "value_or None d = d" "value_or (Some x) d = x"
  by (simp_all add: value_or_def)

section \<open>Byte strings\<close>

text \<open>A \<open>std::string\<close> is a list of bytes; \<open>npos\<close> results are \<open>None\<close>.\<close>

fun is_prefix :: "string \<Rightarrow> string \<Rightarrow> bool" where
  "is_prefix [] s = True"
| "is_prefix (p # ps) [] = False"
| "is_prefix (p # ps) (c # cs) = (p = c \<and> is_prefix ps cs)"

fun str_find :: "string \<Rightarrow> string \<Rightarrow> nat option" where
  "str_find n [] = (if n = [] then Some 0 else None)"
| "str_find n (c # cs) =
     (if is_prefix n (c # cs) then Some 0 else map_option Suc (str_find n cs))"

text \<open>\<open>s.find(n, pos)\<close>: the first occurrence at or after \<open>pos\<close>.\<close>

definition str_find_from :: "string \<Rightarrow> string \<Rightarrow> nat \<Rightarrow> nat option" where
  "str_find_from n s pos =
     (if pos \<le> length s then map_option ((+) pos) (str_find n (drop pos s)) else None)"

definition str_contains :: "string \<Rightarrow> string \<Rightarrow> bool" where
  "str_contains n s \<longleftrightarrow> str_find n s \<noteq> None"

text \<open>\<open>s.substr(pos, n)\<close> throws \<open>out_of_range\<close> (here \<open>None\<close>) past the end.\<close>

definition str_substr :: "string \<Rightarrow> nat \<Rightarrow> nat \<Rightarrow> string option" where
  "str_substr s pos n = (if length s < pos then None else Some (take n (drop pos s)))"

lemma is_prefix_iff [str_simps]: "is_prefix p s \<longleftrightarrow> (\<exists>r. s = p @ r)"
  by (induction p s rule: is_prefix.induct) auto

lemma is_prefix_append [simp]: "is_prefix p (p @ r)"
  by (auto simp: is_prefix_iff)

lemma str_find_Some: "str_find n s = Some i \<Longrightarrow> i + length n \<le> length s \<and> take (length n) (drop i s) = n"
proof (induction s arbitrary: i)
  case Nil
  then show ?case by (auto split: if_splits)
next
  case (Cons c cs)
  show ?case
  proof (cases "is_prefix n (c # cs)")
    case True
    then obtain r where "c # cs = n @ r" by (auto simp: is_prefix_iff)
    with True Cons.prems show ?thesis
      by (metis append_eq_conv_conj drop_0 le_add1 length_append option.inject add_0 str_find.simps(2))
  next
    case False
    with Cons show ?thesis by auto
  qed
qed

lemma str_find_append: "str_find n (a @ n @ b) \<noteq> None"
proof (induction a)
  case Nil
  have "is_prefix n (n @ b)" by simp
  then show ?case by (cases "n @ b") auto
next
  case (Cons c a)
  then show ?case by auto
qed

lemma str_contains_iff [str_simps]: "str_contains n s \<longleftrightarrow> (\<exists>a b. s = a @ n @ b)"
proof
  assume "str_contains n s"
  then obtain i where "str_find n s = Some i" by (auto simp: str_contains_def)
  then have "take (length n) (drop i s) = n" by (simp add: str_find_Some)
  then have "s = take i s @ n @ drop (length n) (drop i s)"
    by (metis append_take_drop_id)
  then show "\<exists>a b. s = a @ n @ b" by blast
next
  assume "\<exists>a b. s = a @ n @ b"
  then show "str_contains n s"
    unfolding str_contains_def using str_find_append by blast
qed

text \<open>Texts joined with a separator.\<close>

fun str_join :: "string \<Rightarrow> string list \<Rightarrow> string" where
  "str_join sep [] = []"
| "str_join sep [x] = x"
| "str_join sep (x # y # rest) = x @ sep @ str_join sep (y # rest)"

lemma str_join_Cons: "str_join sep (x # xs) = x @ concat (map (\<lambda>y. sep @ y) xs)"
proof (induction xs arbitrary: x)
  case (Cons y ys)
  show ?case using Cons.IH [of y] by simp
qed simp

subsection \<open>Characters of the C locale\<close>

definition byte :: "char \<Rightarrow> nat" where "byte c = of_char c"

definition is_space :: "char \<Rightarrow> bool" where
  "is_space c \<longleftrightarrow> byte c = 32 \<or> (9 \<le> byte c \<and> byte c \<le> 13)"

definition is_digit :: "char \<Rightarrow> bool" where
  "is_digit c \<longleftrightarrow> 48 \<le> byte c \<and> byte c \<le> 57"

definition to_lower :: "char \<Rightarrow> char" where
  "to_lower c = (if 65 \<le> byte c \<and> byte c \<le> 90 then char_of (byte c + 32) else c)"

definition to_upper :: "char \<Rightarrow> char" where
  "to_upper c = (if 97 \<le> byte c \<and> byte c \<le> 122 then char_of (byte c - 32) else c)"

text \<open>The same on the bits of a character, for evaluation.\<close>

lemma byte_Char: "byte (Char b0 b1 b2 b3 b4 b5 b6 b7) = horner_sum of_bool 2 [b0, b1, b2, b3, b4, b5, b6, b7]"
  by (simp add: byte_def)

lemma is_space_code [code]:
  "is_space (Char b0 b1 b2 b3 b4 b5 b6 b7) \<longleftrightarrow> \<not> b7 \<and> \<not> b6 \<and>
     (b5 \<and> \<not> b4 \<and> \<not> b3 \<and> \<not> b2 \<and> \<not> b1 \<and> \<not> b0 \<or>
      \<not> b5 \<and> \<not> b4 \<and> b3 \<and> (if b2 then \<not> b1 else b1 \<or> b0))"
  unfolding is_space_def byte_Char
  by (cases b0; cases b1; cases b2; cases b3; cases b4; cases b5; cases b6; cases b7; simp)

lemma to_lower_code [code]:
  "to_lower (Char b0 b1 b2 b3 b4 b5 b6 b7) =
     (if \<not> b7 \<and> b6 \<and> \<not> b5 \<and> (b0 \<or> b1 \<or> b2 \<or> b3 \<or> b4) \<and> \<not> (b4 \<and> b3 \<and> (b2 \<or> b1 \<and> b0))
      then Char b0 b1 b2 b3 b4 True b6 b7 else Char b0 b1 b2 b3 b4 b5 b6 b7)"
  unfolding to_lower_def byte_Char
  by (cases b0; cases b1; cases b2; cases b3; cases b4; cases b5; cases b6; cases b7; simp add: char_of_def bit_iff_odd)

lemma byte_less: "byte c < 256"
  by (simp add: byte_def)

lemma byte_char_of: "n < 256 \<Longrightarrow> byte (char_of n) = n"
  by (simp add: byte_def)

lemma to_lower_idem [simp]: "to_lower (to_lower c) = to_lower c"
  by (auto simp: to_lower_def byte_char_of)

subsection \<open>Numbers as text\<close>

fun nat_digits :: "nat \<Rightarrow> string" where
  "nat_digits n =
     (if n < 10 then [char_of (48 + n)] else nat_digits (n div 10) @ [char_of (48 + n mod 10)])"

declare nat_digits.simps [simp del]

definition to_string :: "int \<Rightarrow> string" where
  "to_string i = (if i < 0 then ''-'' @ nat_digits (nat (- i)) else nat_digits (nat i))"

definition digits_value :: "string \<Rightarrow> int" where
  "digits_value ds = foldl (\<lambda>v d. 10 * v + (int (byte d) - 48)) 0 ds"

text \<open>
  \<open>std::stoi\<close>: white space, an optional sign, at least one digit; what follows the
  digits is ignored. Both \<open>invalid_argument\<close> and \<open>out_of_range\<close> are \<open>None\<close>.
\<close>

definition stoi :: "string \<Rightarrow> int option" where
  "stoi s =
     (let t = dropWhile is_space s;
          neg = (t \<noteq> [] \<and> hd t = CHR ''-'');
          u = (if t \<noteq> [] \<and> (hd t = CHR ''-'' \<or> hd t = CHR ''+'') then tl t else t);
          ds = takeWhile is_digit u;
          v = (if neg then - digits_value ds else digits_value ds)
      in if ds = [] \<or> \<not> in_int32 v then None else Some v)"

lemma nat_digits_is_digit: "\<forall>d \<in> set (nat_digits n). is_digit d"
proof (induction n rule: nat_digits.induct)
  case (1 n)
  then show ?case
    by (subst nat_digits.simps) (auto simp: is_digit_def byte_char_of)
qed

lemma nat_digits_nonempty [simp]: "nat_digits n \<noteq> []"
  by (subst nat_digits.simps) simp

lemma digits_value_nat_digits: "digits_value (nat_digits n) = int n"
proof (induction n rule: nat_digits.induct)
  case (1 n)
  show ?case
  proof (cases "n < 10")
    case True
    then show ?thesis
      by (subst nat_digits.simps) (simp add: digits_value_def byte_char_of)
  next
    case False
    with 1 have "digits_value (nat_digits (n div 10)) = int (n div 10)" by simp
    with False show ?thesis
      by (subst nat_digits.simps) (simp add: digits_value_def byte_char_of zdiv_int zmod_int)
  qed
qed

lemma nat_digits_hd: "nat_digits n \<noteq> [] \<and> is_digit (hd (nat_digits n))"
  using nat_digits_is_digit [of n] nat_digits_nonempty [of n]
  by (metis list.set_sel(1))

lemma is_digit_not_sign: "is_digit c \<Longrightarrow> \<not> is_space c \<and> c \<noteq> CHR ''-'' \<and> c \<noteq> CHR ''+''"
  by (auto simp: is_digit_def is_space_def byte_def)

text \<open>What \<open>to_string\<close> prints, followed by a non-digit, \<open>stoi\<close> reads back.\<close>

lemma stoi_nat_digits:
  assumes "int n \<le> INT_MAX" and "rest = [] \<or> \<not> is_digit (hd rest)"
  shows "stoi (nat_digits n @ rest) = Some (int n)"
proof -
  let ?s = "nat_digits n @ rest"
  have hd: "?s \<noteq> []" "is_digit (hd ?s)"
    using nat_digits_hd [of n] by auto
  then have sgn: "\<not> is_space (hd ?s)" "hd ?s \<noteq> CHR ''-''" "hd ?s \<noteq> CHR ''+''"
    using is_digit_not_sign by blast+
  have dw: "dropWhile is_space ?s = ?s"
    using hd(1) sgn(1) by (cases ?s) auto
  have tw: "takeWhile is_digit ?s = nat_digits n"
    using assms(2) nat_digits_is_digit [of n]
    by (cases rest) (auto simp: takeWhile_append)
  show ?thesis
    using assms(1) sgn dw tw
    by (simp add: stoi_def Let_def digits_value_nat_digits in_int32_def INT_MIN_def)
qed

section \<open>Hash maps\<close>

text \<open>
  A \<open>std::unordered_map\<close> is an association list with distinct keys, in the order in
  which the container happens to iterate. \<open>m[k] = v\<close> is \<open>AList.update\<close>,
  \<open>erase(k)\<close> is \<open>AList.delete\<close>, \<open>find\<close> is \<open>map_of\<close>; \<open>m[k]\<close> read on
  a missing key default-constructs the value, which is \<open>um_at\<close>.
\<close>

type_synonym ('k, 'v) umap = "('k \<times> 'v) list"

definition um_ok :: "('k, 'v) umap \<Rightarrow> bool" where
  "um_ok m \<longleftrightarrow> distinct (map fst m)"

definition um_at :: "('k, 'v) umap \<Rightarrow> 'k \<Rightarrow> 'v \<Rightarrow> 'v" where
  "um_at m k d = (case map_of m k of None \<Rightarrow> d | Some v \<Rightarrow> v)"

lemma map_of_update [store_simps]:
  "map_of (AList.update k v m) k' = (if k' = k then Some v else map_of m k')"
  by (simp add: update_conv)

lemma map_of_delete [store_simps]:
  "map_of (AList.delete k m) k' = (if k' = k then None else map_of m k')"
  by (simp add: delete_conv)

lemma um_ok_empty [simp]: "um_ok []"
  by (simp add: um_ok_def)

lemma um_ok_update [simp]: "um_ok m \<Longrightarrow> um_ok (AList.update k v m)"
  by (simp add: um_ok_def distinct_update)

lemma um_ok_delete [simp]: "um_ok m \<Longrightarrow> um_ok (AList.delete k m)"
  by (simp add: um_ok_def distinct_delete)

lemma um_ok_mem: "um_ok m \<Longrightarrow> (k, v) \<in> set m \<longleftrightarrow> map_of m k = Some v"
  by (auto simp: um_ok_def dest: map_of_SomeD)

lemma update_fresh: "k \<notin> fst ` set m \<Longrightarrow> AList.update k v m = m @ [(k, v)]"
  by (induction m) auto

lemma delete_fresh: "k \<notin> fst ` set m \<Longrightarrow> AList.delete k m = m"
  by (induction m) auto

lemma delete_append: "AList.delete k (m @ m') = AList.delete k m @ AList.delete k m'"
  by (simp add: AList.delete_eq)

text \<open>Adding to one counter of a map of counters adds to the sum of all of them.\<close>

lemma um_sum_update_aux:
  "map_of m k = Some v \<Longrightarrow> um_ok m \<Longrightarrow>
     sum_list (map snd (AList.update k (w::int) m)) = sum_list (map snd m) - v + w"
  by (induction m) (auto simp: um_ok_def)

lemma um_sum_update:
  fixes d :: int
  assumes "um_ok m"
  shows "sum_list (map snd (AList.update k (um_at m k 0 + d) m)) = sum_list (map snd m) + d"
proof (cases "map_of m k")
  case None
  then have "AList.update k d m = m @ [(k, d)]"
    by (induction m) (auto split: if_splits)
  with None show ?thesis by (simp add: um_at_def)
next
  case (Some v)
  with assms show ?thesis by (simp add: um_at_def um_sum_update_aux)
qed

section \<open>Interfaces\<close>

text \<open>
  The contract of an exact key-value container: what a lookup returns after a write, an
  erase and on the empty container, and that every operation keeps the container's
  well-formedness.
\<close>

locale keyed_store =
  fixes find :: "'m \<Rightarrow> 'k \<Rightarrow> 'v option"
    and put :: "'k \<Rightarrow> 'v \<Rightarrow> 'm \<Rightarrow> 'm"
    and erase :: "'k \<Rightarrow> 'm \<Rightarrow> 'm"
    and ok :: "'m \<Rightarrow> bool"
  assumes find_put: "find (put k v m) k' = (if k' = k then Some v else find m k')"
    and find_erase: "find (erase k m) k' = (if k' = k then None else find m k')"
    and ok_put: "ok m \<Longrightarrow> ok (put k v m)"
    and ok_erase: "ok m \<Longrightarrow> ok (erase k m)"
begin

lemma find_put_same: "find (put k v m) k = Some v"
  by (simp add: find_put)

lemma find_put_other: "k' \<noteq> k \<Longrightarrow> find (put k v m) k' = find m k'"
  by (simp add: find_put)

lemma last_put_wins: "find (put k v (put k w m)) k' = find (put k v m) k'"
  by (simp add: find_put)

lemma put_commute: "k \<noteq> l \<Longrightarrow> find (put k v (put l w m)) = find (put l w (put k v m))"
  by (rule ext) (simp add: find_put)

lemma erase_put_same: "find (erase k (put k v m)) = find (erase k m)"
  by (rule ext) (simp add: find_put find_erase)

end

text \<open>
  A setting that can be read for every key, with a default where it was never set.
\<close>

locale defaulted_store =
  fixes get :: "'m \<Rightarrow> 'k \<Rightarrow> 'v" and set_to :: "'k \<Rightarrow> 'v \<Rightarrow> 'm \<Rightarrow> 'm"
  assumes get_set: "get (set_to k v m) k' = (if k' = k then v else get m k')"
begin

lemma get_set_same: "get (set_to k v m) k = v"
  by (simp add: get_set)

lemma set_idem: "get (set_to k v (set_to k w m)) = get (set_to k v m)"
  by (rule ext) (simp add: get_set)

text \<open>After any sequence of writes a key holds the last value written to it.\<close>

lemma get_fold:
  "get (fold (\<lambda>(k, v). set_to k v) kvs m) k =
     (case map_of (rev kvs) k of None \<Rightarrow> get m k | Some v \<Rightarrow> v)"
proof (induction kvs arbitrary: m)
  case Nil
  show ?case by simp
next
  case (Cons kv kvs)
  show ?case
    by (cases kv) (simp add: Cons.IH get_set map_add_def split: option.splits)
qed

end

text \<open>An enumeration with its text form; unknown text is read as a default.\<close>

locale enum_codec =
  fixes to_text :: "'e \<Rightarrow> string" and of_text :: "string \<Rightarrow> 'e" and dflt :: 'e
  assumes of_to: "of_text (to_text e) = e"
    and of_unknown: "(\<forall>e. to_text e \<noteq> s) \<Longrightarrow> of_text s = dflt"
begin

lemma to_text_inject: "to_text a = to_text b \<longleftrightarrow> a = b"
  using of_to by metis

lemma of_text_iff: "e \<noteq> dflt \<Longrightarrow> of_text s = e \<longleftrightarrow> s = to_text e"
  using of_to of_unknown by metis

lemma to_of_text: "to_text (of_text s) = s \<or> of_text s = dflt"
  using of_to of_unknown by metis

end

text \<open>
  A deterministic machine with an invariant: what holds at the start and is kept by every
  enabled event holds after every run of enabled events.
\<close>

locale guarded_machine =
  fixes start :: "'s \<Rightarrow> bool" and enabled :: "'s \<Rightarrow> 'e \<Rightarrow> bool"
    and next_state :: "'s \<Rightarrow> 'e \<Rightarrow> 's" and inv :: "'s \<Rightarrow> bool"
  assumes inv_start: "start s \<Longrightarrow> inv s"
    and inv_next: "inv s \<Longrightarrow> enabled s e \<Longrightarrow> inv (next_state s e)"
begin

fun enabled_run :: "'s \<Rightarrow> 'e list \<Rightarrow> bool" where
  "enabled_run s [] = True"
| "enabled_run s (e # es) = (enabled s e \<and> enabled_run (next_state s e) es)"

lemma inv_run: "inv s \<Longrightarrow> enabled_run s es \<Longrightarrow> inv (foldl next_state s es)"
  by (induction es arbitrary: s) (auto intro: inv_next)

lemma inv_from_start: "start s \<Longrightarrow> enabled_run s es \<Longrightarrow> inv (foldl next_state s es)"
  by (blast intro: inv_run inv_start)

end

text \<open>An access decision in which a matching deny entry always wins.\<close>

locale deny_first =
  fixes denied :: "'c \<Rightarrow> 'x \<Rightarrow> bool" and granted :: "'c \<Rightarrow> 'x \<Rightarrow> bool"
    and decide :: "'c \<Rightarrow> 'x \<Rightarrow> bool"
  assumes decide_iff: "decide c x \<longleftrightarrow> \<not> denied c x \<and> granted c x"
begin

lemma deny_wins: "denied c x \<Longrightarrow> \<not> decide c x"
  by (simp add: decide_iff)

lemma needs_grant: "decide c x \<Longrightarrow> granted c x"
  by (simp add: decide_iff)

lemma more_denials:
  "(\<And>x. denied c x \<Longrightarrow> denied c' x) \<Longrightarrow> (\<And>x. granted c' x = granted c x) \<Longrightarrow> decide c' x \<Longrightarrow> decide c x"
  by (auto simp: decide_iff)

end

end
