(* ===== verification/Cooldown.thy ===== *)
theory Cooldown
  imports RavPrelude
begin

text \<open>
  Provider error classification (\<open>src/providers/provider_error.cpp\<close>) and the per-key
  cooldown tracker (\<open>src/providers/cooldown_tracker.cpp\<close>): error kinds, exponential
  backoff, the failure/success/probe operations and the status queries. The clock
  \<open>steady_clock::now()\<close> is an argument of each operation; the mutex only serialises
  them, so every operation is one atomic state transformer.
\<close>

section \<open>Error kinds\<close>

datatype ProviderErrorKind =
  kRateLimit | kAuthError | kBillingError | kTransient | kModelNotFound | kTimeout
| kContextOverflow | kUnknown

fun ProviderErrorKindToString :: "ProviderErrorKind \<Rightarrow> string" where
  "ProviderErrorKindToString kRateLimit = ''rate_limit''"
| "ProviderErrorKindToString kAuthError = ''auth_error''"
| "ProviderErrorKindToString kBillingError = ''billing_error''"
| "ProviderErrorKindToString kTransient = ''transient''"
| "ProviderErrorKindToString kModelNotFound = ''model_not_found''"
| "ProviderErrorKindToString kTimeout = ''timeout''"
| "ProviderErrorKindToString kContextOverflow = ''context_overflow''"
| "ProviderErrorKindToString kUnknown = ''unknown''"

definition ClassifyHttpError :: "int \<Rightarrow> string \<Rightarrow> ProviderErrorKind" where
  "ClassifyHttpError http_status body =
     (if body \<noteq> [] \<and> (str_contains ''Improperly formed request'' body
                     \<or> str_contains ''400 (Bad Request'' body) then kUnknown
      else if http_status = 429 then kRateLimit
      else if http_status = 401 \<or> http_status = 403 then kAuthError
      else if http_status = 402 then kBillingError
      else if http_status = 404 then kModelNotFound
      else if http_status = 500 \<or> http_status = 502 \<or> http_status = 503 \<or> http_status = 504
        then kTransient
      else if body \<noteq> [] \<and> (str_contains ''insufficient_credits'' body
                          \<or> str_contains ''insufficient_quota'' body
                          \<or> str_contains ''billing'' body) then kBillingError
      else if body \<noteq> [] \<and> (str_contains ''context_length'' body
                          \<or> str_contains ''context_window'' body
                          \<or> str_contains ''token limit'' body
                          \<or> str_contains ''maximum context length'' body
                          \<or> str_contains ''max_tokens'' body) then kContextOverflow
      else if 400 \<le> http_status \<and> http_status < 500 then kUnknown
      else if 500 \<le> http_status then kTransient
      else kUnknown)"

section \<open>Backoff\<close>

text \<open>The loop \<open>for (int i = 1; i < failure_count && i < 5; ++i) multiplier *= 5;\<close>\<close>

function backoff_loop :: "int \<Rightarrow> int \<Rightarrow> int \<Rightarrow> int" where
  "backoff_loop i failure_count multiplier =
     (if i < failure_count \<and> i < 5 then backoff_loop (i + 1) failure_count (multiplier * 5)
      else multiplier)"
  by pat_completeness auto
termination
  by (relation "measure (\<lambda>(i, failure_count, multiplier). nat (5 - i))") auto

declare backoff_loop.simps [simp del]

text \<open>The \<open>switch\<close>: base and cap in seconds; \<open>Inl\<close> is an early return.\<close>

fun backoff_params :: "ProviderErrorKind \<Rightarrow> int + int \<times> int" where
  "backoff_params kRateLimit = Inr (60, 3600)"
| "backoff_params kAuthError = Inl 3600"
| "backoff_params kBillingError = Inr (18000, 86400)"
| "backoff_params kTransient = Inr (60, 3600)"
| "backoff_params kModelNotFound = Inl 0"
| "backoff_params kTimeout = Inr (30, 300)"
| "backoff_params kUnknown = Inr (60, 600)"
| "backoff_params kContextOverflow = Inr (0, 0)"

definition ComputeCooldown :: "ProviderErrorKind \<Rightarrow> int \<Rightarrow> int" where
  "ComputeCooldown kind failure_count =
     (case backoff_params kind of
        Inl s \<Rightarrow> s
      | Inr (base_s, cap_s) \<Rightarrow>
          if base_s = 0 then 0
          else min (base_s * backoff_loop 1 failure_count 1) cap_s)"

section \<open>The tracker\<close>

record CooldownState =
  consecutive_failures :: int
  last_error :: ProviderErrorKind
  cooldown_until :: time
  last_failure_at :: time
  last_probe_at :: time

definition CooldownState_init :: CooldownState where
  "CooldownState_init =
     \<lparr>consecutive_failures = 0, last_error = kUnknown, cooldown_until = 0,
      last_failure_at = 0, last_probe_at = 0\<rparr>"

type_synonym tracker = "(string, CooldownState) umap"

definition kProbeInterval :: time where "kProbeInterval = secs 30"

definition kFailureWindowDecay :: time where "kFailureWindowDecay = hours 24"

definition IsInCooldown :: "time \<Rightarrow> tracker \<Rightarrow> string \<Rightarrow> bool" where
  "IsInCooldown now states key =
     (case map_of states key of None \<Rightarrow> False | Some st \<Rightarrow> now < cooldown_until st)"

definition next_failures :: "time \<Rightarrow> CooldownState \<Rightarrow> int" where
  "next_failures now st =
     (if 0 < consecutive_failures st \<and> kFailureWindowDecay < now - last_failure_at st
      then 0 else consecutive_failures st) + 1"

definition cooldown_length :: "ProviderErrorKind \<Rightarrow> int \<Rightarrow> int \<Rightarrow> int" where
  "cooldown_length kind failures retry_after =
     (if 0 < retry_after then retry_after else ComputeCooldown kind failures)"

definition RecordFailure ::
  "time \<Rightarrow> string \<Rightarrow> ProviderErrorKind \<Rightarrow> int \<Rightarrow> tracker \<Rightarrow> tracker" where
  "RecordFailure now key kind retry_after states =
     (let n = next_failures now (um_at states key CooldownState_init)
      in AList.update key
           \<lparr>consecutive_failures = n, last_error = kind,
            cooldown_until = now + secs (cooldown_length kind n retry_after),
            last_failure_at = now, last_probe_at = now\<rparr> states)"

definition RecordSuccess :: "string \<Rightarrow> tracker \<Rightarrow> tracker" where
  "RecordSuccess key states = AList.delete key states"

definition CooldownRemaining :: "time \<Rightarrow> tracker \<Rightarrow> string \<Rightarrow> int" where
  "CooldownRemaining now states key =
     (case map_of states key of
        None \<Rightarrow> 0
      | Some st \<Rightarrow> if cooldown_until st \<le> now then 0 else to_secs (cooldown_until st - now))"

definition ResetTracker :: "tracker \<Rightarrow> tracker" where
  "ResetTracker states = []"

definition FailureCount :: "tracker \<Rightarrow> string \<Rightarrow> int" where
  "FailureCount states key =
     (case map_of states key of None \<Rightarrow> 0 | Some st \<Rightarrow> consecutive_failures st)"

definition TryProbe :: "time \<Rightarrow> string \<Rightarrow> tracker \<Rightarrow> tracker \<times> bool" where
  "TryProbe now key states =
     (case map_of states key of
        None \<Rightarrow> (states, False)
      | Some st \<Rightarrow>
          if cooldown_until st \<le> now then (states, False)
          else if now - last_probe_at st < kProbeInterval then (states, False)
          else (AList.update key (st\<lparr>last_probe_at := now\<rparr>) states, True))"

fun GetAllStates :: "time \<Rightarrow> tracker \<Rightarrow> (string \<times> int) list" where
  "GetAllStates now [] = []"
| "GetAllStates now ((key, st) # rest) =
     (if now < cooldown_until st
      then (key, to_secs (cooldown_until st - now)) # GetAllStates now rest
      else GetAllStates now rest)"

record CooldownStats =
  total_cooldowns :: int
  active_cooldowns :: int
  total_cooldown_time_sec :: int
  cooldowns_by_error_type :: "(ProviderErrorKind, int) umap"

definition stats_step :: "time \<Rightarrow> string \<times> CooldownState \<Rightarrow> CooldownStats \<Rightarrow> CooldownStats" where
  "stats_step now entry s0 =
     (let st = snd entry;
          s1 = (if 0 < consecutive_failures st
                then s0\<lparr>total_cooldowns := total_cooldowns s0 + consecutive_failures st\<rparr> else s0);
          s2 = (if now < cooldown_until st
                then s1\<lparr>active_cooldowns := active_cooldowns s1 + 1,
                        total_cooldown_time_sec :=
                          total_cooldown_time_sec s1 + to_secs (cooldown_until st - now)\<rparr>
                else s1)
      in if last_error st \<noteq> kUnknown
         then s2\<lparr>cooldowns_by_error_type :=
                AList.update (last_error st)
                  (um_at (cooldowns_by_error_type s2) (last_error st) 0 + 1)
                  (cooldowns_by_error_type s2)\<rparr>
         else s2)"

definition GetStats :: "time \<Rightarrow> tracker \<Rightarrow> CooldownStats" where
  "GetStats now states =
     fold (stats_step now) states
       \<lparr>total_cooldowns = 0, active_cooldowns = 0, total_cooldown_time_sec = 0,
        cooldowns_by_error_type = []\<rparr>"

section \<open>Backoff: closed form and bounds\<close>

lemma backoff_loop_closed:
  "1 \<le> i \<Longrightarrow> i \<le> 5 \<Longrightarrow> backoff_loop i fc m = m * 5 ^ nat (min fc 5 - i)"
proof (induction i fc m rule: backoff_loop.induct)
  case (1 i fc m)
  show ?case
  proof (cases "i < fc \<and> i < 5")
    case True
    with 1 have "backoff_loop (i + 1) fc (m * 5) = m * 5 * 5 ^ nat (min fc 5 - (i + 1))"
      by simp
    moreover have "nat (min fc 5 - i) = Suc (nat (min fc 5 - (i + 1)))"
      using True by (simp add: nat_eq_iff Suc_nat_eq_nat_zadd1 min_def)
    ultimately show ?thesis
      using True by (simp add: backoff_loop.simps [of i fc m])
  next
    case False
    with 1 show ?thesis by (auto simp: backoff_loop.simps [of i fc m] min_def)
  qed
qed

lemma backoff_loop_1: "backoff_loop 1 fc 1 = 5 ^ nat (min (fc - 1) 4)"
  by (simp add: backoff_loop_closed min_def)

lemma backoff_loop_bounds: "1 \<le> backoff_loop 1 fc 1" "backoff_loop 1 fc 1 \<le> 625"
proof -
  have "(5::int) ^ nat (min (fc - 1) 4) \<le> 5 ^ 4"
    by (rule power_increasing) auto
  then show "backoff_loop 1 fc 1 \<le> 625" by (simp add: backoff_loop_1)
  show "1 \<le> backoff_loop 1 fc 1" by (simp add: backoff_loop_1)
qed

lemma backoff_loop_mono: "a \<le> b \<Longrightarrow> backoff_loop 1 a 1 \<le> backoff_loop 1 b 1"
  by (simp add: backoff_loop_1 power_increasing)

lemma ComputeCooldown_range: "0 \<le> ComputeCooldown kind fc \<and> ComputeCooldown kind fc \<le> 86400"
  using backoff_loop_bounds [of fc] by (cases kind) (auto simp: ComputeCooldown_def)

lemma ComputeCooldown_mono: "a \<le> b \<Longrightarrow> ComputeCooldown kind a \<le> ComputeCooldown kind b"
  using backoff_loop_mono [of a b] by (cases kind) (auto simp: ComputeCooldown_def min_def)

text \<open>
  The backoff is monotone in the number of consecutive failures, stays between
  zero and one day, and the product \<open>base_s * multiplier\<close> that the code forms in a 32-bit
  \<open>int\<close> before capping never overflows, whatever the failure count.
\<close>

theorem backoff_bounded:
  "0 \<le> ComputeCooldown kind n
   \<and> ComputeCooldown kind n \<le> 86400
   \<and> ComputeCooldown kind n \<le> ComputeCooldown kind (n + 1)
   \<and> (case backoff_params kind of Inl s \<Rightarrow> in_int32 s
      | Inr (base_s, cap_s) \<Rightarrow> in_int32 (base_s * backoff_loop 1 n 1))"
  using ComputeCooldown_range [of kind n] ComputeCooldown_mono [of n "n + 1" kind]
    backoff_loop_bounds [of n]
  by (cases kind) (auto simp: in_int32_def INT_MAX_def INT_MIN_def)

section \<open>Failures, successes and probes of one key\<close>

lemma RecordFailure_find [store_simps]:
  "map_of (RecordFailure now key kind ra m) k =
     (if k = key then Some
        \<lparr>consecutive_failures = next_failures now (um_at m key CooldownState_init),
         last_error = kind,
         cooldown_until = now + secs (cooldown_length kind
           (next_failures now (um_at m key CooldownState_init)) ra),
         last_failure_at = now, last_probe_at = now\<rparr>
      else map_of m k)"
  by (simp add: RecordFailure_def Let_def store_simps)

lemma RecordSuccess_find [store_simps]:
  "map_of (RecordSuccess key m) k = (if k = key then None else map_of m k)"
  by (simp add: RecordSuccess_def store_simps)

lemma TryProbe_find [store_simps]:
  "map_of (fst (TryProbe now key m)) k =
     (if k = key \<and> snd (TryProbe now key m)
      then map_option (\<lambda>st. st\<lparr>last_probe_at := now\<rparr>) (map_of m k) else map_of m k)"
  by (auto simp: TryProbe_def store_simps split: option.splits)

lemma TryProbe_granted:
  "snd (TryProbe now key m) \<longleftrightarrow>
     (\<exists>st. map_of m key = Some st \<and> now < cooldown_until st
           \<and> last_probe_at st + kProbeInterval \<le> now)"
  by (auto simp: TryProbe_def split: option.splits)

lemma tracker_ok_ops:
  assumes "um_ok m"
  shows "um_ok (RecordFailure now key kind ra m)" "um_ok (RecordSuccess key m)"
    "um_ok (fst (TryProbe now key m))" "um_ok (ResetTracker m)"
  using assms
  by (auto simp: RecordFailure_def RecordSuccess_def TryProbe_def ResetTracker_def Let_def
      split: option.splits)

text \<open>The documented backoff: \<open>base * 5 ^ (failures - 1)\<close>, at most four steps, capped.\<close>

definition backoff_spec :: "ProviderErrorKind \<Rightarrow> nat \<Rightarrow> int" where
  "backoff_spec kind n =
     (let capped = (\<lambda>base cap. min (base * 5 ^ min (n - 1) 4) cap)
      in case kind of
           kRateLimit \<Rightarrow> capped 60 3600
         | kAuthError \<Rightarrow> 3600
         | kBillingError \<Rightarrow> capped 18000 86400
         | kTransient \<Rightarrow> capped 60 3600
         | kModelNotFound \<Rightarrow> 0
         | kTimeout \<Rightarrow> capped 30 300
         | kContextOverflow \<Rightarrow> 0
         | kUnknown \<Rightarrow> capped 60 600)"

lemma ComputeCooldown_spec:
  assumes "0 < n"
  shows "ComputeCooldown kind (int n) = backoff_spec kind n"
proof -
  have "nat (min (int n - 1) 4) = min (n - 1) 4"
    using assms by (auto simp: min_def)
  then show ?thesis
    by (cases kind) (simp_all add: ComputeCooldown_def backoff_spec_def backoff_loop_1)
qed

text \<open>A run of failures of one key.\<close>

definition fail_run ::
  "string \<Rightarrow> (time \<times> ProviderErrorKind \<times> int) list \<Rightarrow> tracker \<Rightarrow> tracker" where
  "fail_run key evs m = fold (\<lambda>(t, kind, ra). RecordFailure t key kind ra) evs m"

lemma fail_run_state:
  assumes "map_of m key = None" and "successively (\<lambda>a b. b - a \<le> kFailureWindowDecay) (map fst evs)"
    and "evs \<noteq> []"
  shows "\<exists>st. map_of (fail_run key evs m) key = Some st
      \<and> consecutive_failures st = int (length evs)
      \<and> last_failure_at st = fst (last evs)
      \<and> cooldown_until st = fst (last evs) +
          secs (cooldown_length (fst (snd (last evs))) (int (length evs)) (snd (snd (last evs))))"
  using assms(2,3)
proof (induction evs rule: rev_induct)
  case Nil
  then show ?case by simp
next
  case (snoc e evs)
  show ?case
  proof (cases "evs = []")
    case True
    then show ?thesis
      using assms(1)
      by (cases e) (simp add: fail_run_def store_simps um_at_def next_failures_def
          CooldownState_init_def)
  next
    case False
    with snoc obtain st where st: "map_of (fail_run key evs m) key = Some st"
      "consecutive_failures st = int (length evs)" "last_failure_at st = fst (last evs)"
      by (auto simp: successively_append_iff)
    from snoc.prems False have "fst e - fst (last evs) \<le> kFailureWindowDecay"
      by (auto simp: successively_append_iff last_map)
    with st have "next_failures (fst e) (um_at (fail_run key evs m) key CooldownState_init)
        = int (length evs) + 1"
      by (simp add: next_failures_def um_at_def)
    then show ?thesis
      by (cases e) (simp add: fail_run_def store_simps add.commute)
  qed
qed

text \<open>
  Failures of a key at most 24 hours apart accumulate: after \<open>n\<close> of them on a
  fresh key the failure count is \<open>n\<close>, and the key is in cooldown exactly until the last
  failure plus the server's Retry-After, or plus the capped exponential backoff
  \<open>base * 5 ^ min (n - 1) 4\<close> of the last error kind when there is none.
\<close>

theorem failures_accumulate:
  assumes "map_of m key = None" and "evs \<noteq> []"
    and "successively (\<lambda>a b. b - a \<le> kFailureWindowDecay) (map fst evs)"
    and "last evs = (t, kind, retry_after)"
  shows "FailureCount (fail_run key evs m) key = int (length evs)
    \<and> (IsInCooldown now (fail_run key evs m) key \<longleftrightarrow>
        now < t + secs (if 0 < retry_after then retry_after else backoff_spec kind (length evs)))"
proof -
  obtain st where "map_of (fail_run key evs m) key = Some st"
    "consecutive_failures st = int (length evs)"
    "cooldown_until st = t + secs (cooldown_length kind (int (length evs)) retry_after)"
    using fail_run_state [OF assms(1,3,2)] assms(4) by auto
  then show ?thesis
    using assms(2)
    by (simp add: FailureCount_def IsInCooldown_def cooldown_length_def ComputeCooldown_spec)
qed

theorem failures_accumulate_witness:
  "FailureCount (fail_run ''k'' [(0, kRateLimit, 0), (secs 100, kRateLimit, 0)] []) ''k'' = 2
   \<and> IsInCooldown (secs 399) (fail_run ''k'' [(0, kRateLimit, 0), (secs 100, kRateLimit, 0)] []) ''k''"
  using failures_accumulate [of "[]" "''k''" "[(0, kRateLimit, 0), (secs 100, kRateLimit, 0)]"
      "secs 100" kRateLimit 0 "secs 399"]
  by (simp add: kFailureWindowDecay_def secs_def hours_def backoff_spec_def)

section \<open>Probe throttling over a whole run\<close>

datatype tracker_op =
  OpFailure string ProviderErrorKind int
| OpSuccess string
| OpProbe string
| OpReset

text \<open>One call; the flag is the answer of a probe.\<close>

fun tracker_step :: "tracker \<Rightarrow> time \<times> tracker_op \<Rightarrow> tracker \<times> bool" where
  "tracker_step m (t, OpFailure key kind ra) = (RecordFailure t key kind ra m, False)"
| "tracker_step m (t, OpSuccess key) = (RecordSuccess key m, False)"
| "tracker_step m (t, OpProbe key) = TryProbe t key m"
| "tracker_step m (t, OpReset) = (ResetTracker m, False)"

text \<open>The times at which probes of one key were granted in a run of calls.\<close>

fun granted_probes :: "string \<Rightarrow> tracker \<Rightarrow> (time \<times> tracker_op) list \<Rightarrow> time list" where
  "granted_probes k m [] = []"
| "granted_probes k m (e # es) =
     (if snd e = OpProbe k \<and> snd (tracker_step m e)
      then fst e # granted_probes k (fst (tracker_step m e)) es
      else granted_probes k (fst (tracker_step m e)) es)"

text \<open>The probe timer of \<open>k\<close>, if the key is tracked, is not earlier than \<open>g\<close>.\<close>

definition timer_from :: "string \<Rightarrow> time \<Rightarrow> tracker \<Rightarrow> bool" where
  "timer_from k g m \<longleftrightarrow> (\<forall>st. map_of m k = Some st \<longrightarrow> g \<le> last_probe_at st)"

lemma timer_from_step:
  assumes "timer_from k g m" and "g \<le> t"
  shows "timer_from k g (fst (tracker_step m (t, a)))"
  using assms
  by (cases a) (auto simp: timer_from_def store_simps ResetTracker_def split: if_splits)

lemma granted_probes_later:
  assumes "timer_from k g m" and "sorted (map fst es)" and "\<forall>e \<in> set es. g \<le> fst e"
  shows "\<forall>t \<in> set (granted_probes k m es). g + kProbeInterval \<le> t"
  using assms
proof (induction es arbitrary: m)
  case Nil
  then show ?case by simp
next
  case (Cons e es)
  obtain t a where e: "e = (t, a)" by (cases e)
  have "timer_from k g (fst (tracker_step m e))"
    using Cons.prems e by (auto intro: timer_from_step)
  then have rest: "\<forall>t \<in> set (granted_probes k (fst (tracker_step m e)) es). g + kProbeInterval \<le> t"
    using Cons by auto
  have "g + kProbeInterval \<le> t" if "a = OpProbe k" "snd (tracker_step m e)"
    using that Cons.prems(1) e by (auto simp: TryProbe_granted timer_from_def)
  with rest e show ?case by auto
qed

text \<open>
  In any run of failures, successes, resets and probes of any keys with a
  non-decreasing clock, two granted probes of the same key are at least 30 seconds apart:
  a success or a reset in between does not shorten the interval, because the next failure
  restarts the probe timer.
\<close>

theorem probes_spaced:
  assumes "sorted (map fst es)"
  shows "sorted_wrt (\<lambda>a b. a + secs 30 \<le> b) (granted_probes k m es)"
  using assms
proof (induction es arbitrary: m)
  case Nil
  then show ?case by simp
next
  case (Cons e es)
  obtain t a where e: "e = (t, a)" by (cases e)
  have "timer_from k t (fst (tracker_step m e))" if "a = OpProbe k" "snd (tracker_step m e)"
    using that e by (auto simp: timer_from_def store_simps)
  with Cons.prems e have "\<forall>u \<in> set (granted_probes k (fst (tracker_step m e)) es). t + kProbeInterval \<le> u"
    if "a = OpProbe k" "snd (tracker_step m e)"
    using that by (intro granted_probes_later) auto
  then show ?case
    using Cons e by (auto simp: kProbeInterval_def)
qed

theorem probes_spaced_witness:
  "granted_probes ''k'' []
     [(0, OpFailure ''k'' kAuthError 0), (secs 30, OpProbe ''k''), (secs 40, OpProbe ''k''),
      (secs 60, OpProbe ''k'')] = [secs 30, secs 60]
   \<and> sorted_wrt (\<lambda>a b. a + secs 30 \<le> b) [secs 30, secs 60]"
proof -
  let ?es = "[(0, OpFailure ''k'' kAuthError 0), (secs 30, OpProbe ''k''),
    (secs 40, OpProbe ''k''), (secs 60, OpProbe ''k'')]"
  have run: "granted_probes ''k'' [] ?es = [secs 30, secs 60]"
    by (simp add: RecordFailure_def Let_def TryProbe_def cooldown_length_def ComputeCooldown_def
        next_failures_def um_at_def CooldownState_init_def kProbeInterval_def secs_def)
  have "sorted (map fst ?es)" by (simp add: secs_def)
  from probes_spaced [OF this, of "''k''" "[]"] run show ?thesis by simp
qed

section \<open>Status queries\<close>

lemma GetAllStates_eq:
  "GetAllStates now m =
     map (\<lambda>(k, st). (k, to_secs (cooldown_until st - now)))
       (List.filter (\<lambda>(k, st). now < cooldown_until st) m)"
  by (induction m) auto

lemma GetStats_fold:
  "active_cooldowns (fold (stats_step now) m s) = active_cooldowns s + int (length (GetAllStates now m))
   \<and> total_cooldown_time_sec (fold (stats_step now) m s) =
       total_cooldown_time_sec s + sum_list (map snd (GetAllStates now m))"
proof (induction m arbitrary: s)
  case Nil
  show ?case by simp
next
  case (Cons e m)
  show ?case
    by (cases e) (simp add: Cons.IH, simp add: stats_step_def Let_def)
qed

text \<open>
  The three status views agree: \<open>GetAllStates\<close> lists exactly the keys that
  \<open>IsInCooldown\<close> reports, each with the value of \<open>CooldownRemaining\<close>, and the
  active count and total time of \<open>GetStats\<close> are the length and the sum of that list.
\<close>

theorem status_views_agree:
  assumes "um_ok m"
  shows "((key, r) \<in> set (GetAllStates now m) \<longleftrightarrow>
           IsInCooldown now m key \<and> r = CooldownRemaining now m key)
     \<and> active_cooldowns (GetStats now m) = int (length (GetAllStates now m))
     \<and> total_cooldown_time_sec (GetStats now m) = sum_list (map snd (GetAllStates now m))"
proof -
  have "(key, r) \<in> set (GetAllStates now m) \<longleftrightarrow>
      (\<exists>st. (key, st) \<in> set m \<and> now < cooldown_until st \<and> r = to_secs (cooldown_until st - now))"
    by (force simp: GetAllStates_eq)
  also have "\<dots> \<longleftrightarrow> IsInCooldown now m key \<and> r = CooldownRemaining now m key"
    using assms by (auto simp: um_ok_mem IsInCooldown_def CooldownRemaining_def split: option.splits)
  finally show ?thesis by (simp add: GetStats_def GetStats_fold)
qed

theorem status_views_agree_witness:
  "um_ok (RecordFailure 0 ''a'' kUnknown 0 []) \<and>
   active_cooldowns (GetStats (secs 1) (RecordFailure 0 ''a'' kUnknown 0 [])) =
     int (length (GetAllStates (secs 1) (RecordFailure 0 ''a'' kUnknown 0 [])))"
  using status_views_agree [of "RecordFailure 0 ''a'' kUnknown 0 []" "''a''" 59 "secs 1"]
    tracker_ok_ops(1) [of "[]"] by simp

section \<open>The interface the failover resolver uses\<close>

text \<open>
  Keys are open or closed at a time; a success opens its key and no other; a probe is
  granted only for a closed key and does not open or close anything.
\<close>

locale key_gate =
  fixes closed :: "time \<Rightarrow> 'm \<Rightarrow> 'k \<Rightarrow> bool"
    and reopen :: "'k \<Rightarrow> 'm \<Rightarrow> 'm"
    and probe :: "time \<Rightarrow> 'k \<Rightarrow> 'm \<Rightarrow> 'm \<times> bool"
  assumes reopen_open: "\<not> closed t (reopen k m) k"
    and reopen_other: "k' \<noteq> k \<Longrightarrow> closed t (reopen k m) k' = closed t m k'"
    and probe_closed: "snd (probe t k m) \<Longrightarrow> closed t m k"
    and probe_keeps: "closed u (fst (probe t k m)) k' = closed u m k'"
begin

lemma reopen_closed: "closed t (reopen k m) k' \<Longrightarrow> k' \<noteq> k \<and> closed t m k'"
  using reopen_open reopen_other by (cases "k' = k") auto

lemma no_probe_when_open: "\<not> closed t m k \<Longrightarrow> \<not> snd (probe t k m)"
  using probe_closed by blast

lemma reopen_after_probe: "closed t (reopen k (fst (probe u l m))) k' = closed t (reopen k m) k'"
  by (cases "k' = k") (simp_all add: reopen_open reopen_other probe_keeps)

end

interpretation gate: key_gate IsInCooldown RecordSuccess TryProbe
proof unfold_locales
  show "IsInCooldown u (fst (TryProbe t k m)) k' = IsInCooldown u m k'" for u t k m k'
    by (auto simp: IsInCooldown_def TryProbe_def store_simps split: option.splits)
qed (auto simp: IsInCooldown_def TryProbe_def store_simps split: option.splits if_splits)

end
