(* ===== verification/Registry.thy ===== *)
theory Registry
  imports RavPrelude
begin

text \<open>
  The provider registry of \<open>src/providers/provider_registry.cpp\<close>: model references,
  aliases, provider entries, factories, the cache of provider instances and the API key
  resolution. \<open>getenv\<close> is an argument (\<open>env\<close>); a provider object is modelled by the
  constructor the factory calls and its arguments.
\<close>

section \<open>Model references\<close>

record ModelRef =
  ref_provider :: string
  ref_model :: string

definition ModelRef_parse :: "string \<Rightarrow> string \<Rightarrow> ModelRef" where
  "ModelRef_parse raw default_provider =
     (case str_find ''/'' raw of
        Some slash \<Rightarrow> \<lparr>ref_provider = take slash raw, ref_model = drop (slash + 1) raw\<rparr>
      | None \<Rightarrow> \<lparr>ref_provider = default_provider, ref_model = raw\<rparr>)"

definition ModelRef_to_string :: "ModelRef \<Rightarrow> string" where
  "ModelRef_to_string ref = ref_provider ref @ ''/'' @ ref_model ref"

section \<open>Entries, factories, registry\<close>

text \<open>Cost figures are kept as opaque values of type \<open>'c\<close>, \<open>extra\<close> JSON as \<open>'j\<close>.\<close>

record 'c ModelDefinition =
  md_id :: string
  md_name :: string
  md_reasoning :: bool
  md_input :: "string list"
  md_cost :: 'c
  md_context_window :: int
  md_max_tokens :: int

record ('c, 'j) ProviderEntry =
  pe_id :: string
  pe_display_name :: string
  pe_base_url :: string
  pe_api_key :: string
  pe_api_key_env :: string
  pe_api :: string
  pe_timeout :: int
  pe_extra :: "'j option"
  pe_models :: "'c ModelDefinition list"

definition ProviderEntry_init :: "string \<Rightarrow> ('c, 'j) ProviderEntry" where
  "ProviderEntry_init provider_id =
     \<lparr>pe_id = provider_id, pe_display_name = [], pe_base_url = [], pe_api_key = [],
      pe_api_key_env = [], pe_api = [], pe_timeout = 30, pe_extra = None, pe_models = []\<rparr>"

text \<open>Constructor arguments: API key, base URL, timeout.\<close>

datatype LLMProvider =
  OpenAIProvider string string int
| AnthropicProvider string string int
| GoogleProvider string string int
| QwenProvider string string int

type_synonym ('c, 'j) ProviderFactory = "('c, 'j) ProviderEntry \<Rightarrow> LLMProvider option"

record ('c, 'j) ProviderRegistry =
  factories :: "(string, ('c, 'j) ProviderFactory) umap"
  entries :: "(string, ('c, 'j) ProviderEntry) umap"
  instances :: "(string, LLMProvider option) umap"
  alias_map :: "(string, string) umap"

definition RegisterFactory ::
  "string \<Rightarrow> ('c, 'j) ProviderFactory \<Rightarrow> ('c, 'j) ProviderRegistry \<Rightarrow> ('c, 'j) ProviderRegistry" where
  "RegisterFactory provider_id factory reg =
     reg\<lparr>factories := AList.update provider_id factory (factories reg)\<rparr>"

definition url_factory ::
  "(string \<Rightarrow> string \<Rightarrow> int \<Rightarrow> LLMProvider) \<Rightarrow> string \<Rightarrow> ('c, 'j) ProviderFactory" where
  "url_factory mk default_url entry =
     Some (mk (pe_api_key entry)
             (if pe_base_url entry = [] then default_url else pe_base_url entry)
             (pe_timeout entry))"

definition builtin_factories :: "(string \<times> ('c, 'j) ProviderFactory) list" where
  "builtin_factories =
     [(''openai'', url_factory OpenAIProvider ''https://api.openai.com/v1''),
      (''anthropic'', url_factory AnthropicProvider ''https://api.anthropic.com''),
      (''ollama'', url_factory OpenAIProvider ''http://localhost:11434/v1''),
      (''gemini'', url_factory GoogleProvider ''https://generativelanguage.googleapis.com/v1beta''),
      (''google'', url_factory GoogleProvider ''https://generativelanguage.googleapis.com/v1beta''),
      (''qwen'', url_factory QwenProvider ''https://dashscope.aliyuncs.com/compatible-mode/v1''),
      (''bedrock'', url_factory OpenAIProvider ''http://localhost:8080/v1''),
      (''openrouter'', url_factory OpenAIProvider ''https://openrouter.ai/api/v1''),
      (''together'', url_factory OpenAIProvider ''https://api.together.xyz/v1''),
      (''github-copilot'', url_factory OpenAIProvider ''https://api.githubcopilot.com/v1''),
      (''kilocode'', url_factory OpenAIProvider ''https://api.kilocode.ai/v1'')]"

definition RegisterBuiltinFactories ::
  "('c, 'j) ProviderRegistry \<Rightarrow> ('c, 'j) ProviderRegistry" where
  "RegisterBuiltinFactories reg =
     fold (\<lambda>(provider_id, factory). RegisterFactory provider_id factory) builtin_factories reg"

definition AddProvider ::
  "('c, 'j) ProviderEntry \<Rightarrow> ('c, 'j) ProviderRegistry \<Rightarrow> ('c, 'j) ProviderRegistry" where
  "AddProvider entry reg = reg\<lparr>entries := AList.update (pe_id entry) entry (entries reg)\<rparr>"

definition AddAlias ::
  "string \<Rightarrow> string \<Rightarrow> ('c, 'j) ProviderRegistry \<Rightarrow> ('c, 'j) ProviderRegistry" where
  "AddAlias al target reg = reg\<lparr>alias_map := AList.update al target (alias_map reg)\<rparr>"

definition ResolveModel :: "('c, 'j) ProviderRegistry \<Rightarrow> string \<Rightarrow> string \<Rightarrow> ModelRef" where
  "ResolveModel reg raw default_provider =
     (case map_of (alias_map reg) raw of
        Some target \<Rightarrow> ModelRef_parse target default_provider
      | None \<Rightarrow> ModelRef_parse raw default_provider)"

text \<open>\<open>resolve_api_key\<close>: direct value, explicit variable, then the two conventions.\<close>

definition resolve_api_key :: "(string \<Rightarrow> string option) \<Rightarrow> ('c, 'j) ProviderEntry \<Rightarrow> string" where
  "resolve_api_key env entry =
     (if pe_api_key entry \<noteq> [] then pe_api_key entry
      else case (if pe_api_key_env entry \<noteq> [] then env (pe_api_key_env entry) else None) of
             Some v \<Rightarrow> v
           | None \<Rightarrow>
               (let upper_id = List.map to_upper (pe_id entry)
                in case env (upper_id @ ''_API_KEY'') of
                     Some v \<Rightarrow> v
                   | None \<Rightarrow>
                       (case env (upper_id @ ''_KEY'') of Some v \<Rightarrow> v | None \<Rightarrow> [])))"

definition GetProvider ::
  "(string \<Rightarrow> string option) \<Rightarrow> string \<Rightarrow> ('c, 'j) ProviderRegistry
     \<Rightarrow> ('c, 'j) ProviderRegistry \<times> LLMProvider option" where
  "GetProvider env provider_id reg =
     (case map_of (instances reg) provider_id of
        Some inst \<Rightarrow> (reg, inst)
      | None \<Rightarrow>
          (case map_of (factories reg) provider_id of
             None \<Rightarrow> (reg, None)
           | Some factory \<Rightarrow>
               (let fresh = ProviderEntry_init provider_id;
                    reg1 = (case map_of (entries reg) provider_id of
                              Some e \<Rightarrow> reg
                            | None \<Rightarrow> reg\<lparr>entries := AList.update provider_id
                                (fresh\<lparr>pe_api_key := resolve_api_key env fresh\<rparr>) (entries reg)\<rparr>);
                    inst = factory (um_at (entries reg1) provider_id fresh)
                in (reg1\<lparr>instances := AList.update provider_id inst (instances reg1)\<rparr>, inst))))"

definition GetProviderWithKey ::
  "('c, 'j) ProviderRegistry \<Rightarrow> string \<Rightarrow> string \<Rightarrow> LLMProvider option" where
  "GetProviderWithKey reg provider_id api_key =
     (case map_of (factories reg) provider_id of
        None \<Rightarrow> None
      | Some factory \<Rightarrow>
          factory ((um_at (entries reg) provider_id (ProviderEntry_init provider_id))
                     \<lparr>pe_api_key := api_key\<rparr>))"

definition HasProvider :: "('c, 'j) ProviderRegistry \<Rightarrow> string \<Rightarrow> bool" where
  "HasProvider reg provider_id \<longleftrightarrow>
     map_of (factories reg) provider_id \<noteq> None \<or> map_of (entries reg) provider_id \<noteq> None"

record 'c ProviderConfig =
  pc_api_key :: string
  pc_base_url :: string
  pc_api :: string
  pc_timeout :: int
  pc_models :: "'c ModelDefinition list"

definition load_model_provider ::
  "(string \<Rightarrow> string option) \<Rightarrow> string \<times> 'c ProviderConfig
     \<Rightarrow> ('c, 'j) ProviderRegistry \<Rightarrow> ('c, 'j) ProviderRegistry" where
  "load_model_provider env p reg =
     (let pid = fst p; prov = snd p in
      case map_of (entries reg) pid of
        Some e \<Rightarrow>
          reg\<lparr>entries := AList.update pid
                (e\<lparr>pe_models := pe_models e @ pc_models prov,
                   pe_api := (if pc_api prov \<noteq> [] then pc_api prov else pe_api e)\<rparr>) (entries reg)\<rparr>
      | None \<Rightarrow>
          (let e = (ProviderEntry_init pid)\<lparr>pe_display_name := pid, pe_api_key := pc_api_key prov,
                     pe_base_url := pc_base_url prov, pe_api := pc_api prov,
                     pe_timeout := pc_timeout prov, pe_models := pc_models prov\<rparr>;
               e' = (if pe_api_key e = [] then e\<lparr>pe_api_key := resolve_api_key env e\<rparr> else e)
           in reg\<lparr>entries := AList.update pid e' (entries reg)\<rparr>))"

definition LoadModelProviders ::
  "(string \<Rightarrow> string option) \<Rightarrow> (string, 'c ProviderConfig) umap
     \<Rightarrow> ('c, 'j) ProviderRegistry \<Rightarrow> ('c, 'j) ProviderRegistry" where
  "LoadModelProviders env model_providers reg = fold (load_model_provider env) model_providers reg"

record 'c ModelCatalogEntry =
  ce_id :: string
  ce_name :: string
  ce_provider :: string
  ce_context_window :: int
  ce_reasoning :: bool
  ce_input :: "string list"
  ce_cost :: 'c
  ce_max_tokens :: int

definition GetModelCatalog :: "('c, 'j) ProviderRegistry \<Rightarrow> 'c ModelCatalogEntry list" where
  "GetModelCatalog reg =
     concat (List.map (\<lambda>(pid, entry).
       List.map (\<lambda>m. \<lparr>ce_id = md_id m, ce_name = md_name m, ce_provider = pid,
                  ce_context_window = md_context_window m, ce_reasoning = md_reasoning m,
                  ce_input = md_input m, ce_cost = md_cost m, ce_max_tokens = md_max_tokens m\<rparr>)
         (pe_models entry)) (entries reg))"

section \<open>Properties\<close>

lemma str_find_char_None: "str_find [c] s = None \<longleftrightarrow> c \<notin> set s"
  by (induction s) auto

lemma str_find_char_split: "c \<notin> set a \<Longrightarrow> str_find [c] (a @ c # b) = Some (length a)"
  by (induction a) auto

text \<open>
  Printing a model reference and parsing it again gives the reference back
  exactly when the provider id has no slash; the model name may contain slashes, as
  \<open>openrouter/meta/llama\<close> does.
\<close>

theorem ModelRef_roundtrip:
  "ModelRef_parse (ModelRef_to_string ref) dflt = ref \<longleftrightarrow> CHR ''/'' \<notin> set (ref_provider ref)"
proof (cases "CHR ''/'' \<in> set (ref_provider ref)")
  case False
  then show ?thesis
    by (simp add: ModelRef_parse_def ModelRef_to_string_def str_find_char_split)
next
  case True
  then obtain a b where "ref_provider ref = a @ CHR ''/'' # b" "CHR ''/'' \<notin> set a"
    by (auto dest: split_list_first)
  then have "ref_provider (ModelRef_parse (ModelRef_to_string ref) dflt) = a"
    by (simp add: ModelRef_parse_def ModelRef_to_string_def str_find_char_split)
  with \<open>ref_provider ref = a @ CHR ''/'' # b\<close> True show ?thesis by force
qed

lemma GetProvider_instance:
  "GetProvider env pid reg = (reg', r) \<Longrightarrow> map_of (factories reg) pid \<noteq> None \<Longrightarrow>
     map_of (instances reg') pid = Some r"
  by (auto simp: GetProvider_def Let_def store_simps split: option.splits)

lemma GetProvider_frame:
  "GetProvider env pid reg = (reg', r) \<Longrightarrow>
     factories reg' = factories reg \<and> alias_map reg' = alias_map reg"
  by (auto simp: GetProvider_def Let_def split: option.splits)

lemma ResolveModel_frame:
  "alias_map reg' = alias_map reg \<Longrightarrow> ResolveModel reg' = ResolveModel reg"
  by (rule ext)+ (simp add: ResolveModel_def)

lemma GetProviderWithKey_factory:
  "GetProviderWithKey reg pid key = Some p \<Longrightarrow> map_of (factories reg) pid \<noteq> None"
  by (auto simp: GetProviderWithKey_def split: option.splits)

text \<open>
  A provider instance is created once: after \<open>GetProvider\<close> answered, every later
  \<open>GetProvider\<close> for the same id gives the same instance and changes nothing, whatever
  the environment says then, and it does not touch the instances of other providers.
\<close>

theorem GetProvider_cached:
  assumes "GetProvider env pid reg = (reg', r)"
  shows "snd (GetProvider env' pid reg') = r
    \<and> fst (GetProvider env' pid reg') = reg'
    \<and> (\<forall>pid'. pid' \<noteq> pid \<longrightarrow> map_of (instances reg') pid' = map_of (instances reg) pid')"
proof (cases "map_of (factories reg) pid")
  case None
  with assms show ?thesis by (auto simp: GetProvider_def split: option.splits)
next
  case (Some f)
  then have "map_of (instances reg') pid = Some r"
    using assms GetProvider_instance by fastforce
  moreover have "map_of (instances reg') pid' = map_of (instances reg) pid'" if "pid' \<noteq> pid" for pid'
    using that assms by (auto simp: GetProvider_def Let_def store_simps split: option.splits)
  ultimately show ?thesis by (simp add: GetProvider_def)
qed

definition empty_registry :: "('c, 'j) ProviderRegistry" where
  "empty_registry = \<lparr>factories = [], entries = [], instances = [], alias_map = []\<rparr>"

theorem GetProvider_cached_witness:
  "snd (GetProvider (\<lambda>_. None) ''qwen''
      (fst (GetProvider (\<lambda>v. if v = ''QWEN_API_KEY'' then Some ''sk'' else None) ''qwen''
         (RegisterBuiltinFactories (empty_registry :: (nat, nat) ProviderRegistry)))))
   = Some (QwenProvider ''sk'' ''https://dashscope.aliyuncs.com/compatible-mode/v1'' 30)"
proof -
  let ?env = "\<lambda>v. if v = ''QWEN_API_KEY'' then Some ''sk'' else None"
  let ?reg = "RegisterBuiltinFactories (empty_registry :: (nat, nat) ProviderRegistry)"
  have up: "to_upper CHR ''q'' = CHR ''Q''" "to_upper CHR ''w'' = CHR ''W''"
    "to_upper CHR ''e'' = CHR ''E''" "to_upper CHR ''n'' = CHR ''N''"
    by code_simp+
  have "snd (GetProvider ?env ''qwen'' ?reg)
      = Some (QwenProvider ''sk'' ''https://dashscope.aliyuncs.com/compatible-mode/v1'' 30)"
    by (simp add: GetProvider_def RegisterBuiltinFactories_def builtin_factories_def Let_def
        RegisterFactory_def empty_registry_def ProviderEntry_init_def resolve_api_key_def
        url_factory_def um_at_def up)
  moreover obtain reg' r where g: "GetProvider ?env ''qwen'' ?reg = (reg', r)"
    by fastforce
  ultimately show ?thesis
    using GetProvider_cached [OF g, of "\<lambda>_. None"] by simp
qed

end
