(* ===== verification/Failover.thy ===== *)
theory Failover
  imports Cooldown Registry "HOL-Library.Word"
begin

text \<open>
  Key rotation and model fallback (\<open>src/providers/failover_resolver.cpp\<close>): auth profiles,
  session pins, the probe of a cooled-down profile, the fallback chain and the counters.
  Every call reads one clock value \<open>now\<close>. The resolver's \<open>std::mutex\<close> is not
  recursive: locking it again in the thread that holds it never returns, which the
  result type \<open>call\<close> makes a value of its own.
\<close>

section \<open>State\<close>

text \<open>The double \<open>backoff_multiplier\<close> is only stored; it is kept as its 64 bits.\<close>

record RetryConfig =
  max_retries :: int
  initial_backoff_ms :: int
  backoff_multiplier :: "64 word"
  max_backoff_ms :: int

record AuthProfile =
  ap_id :: string
  ap_api_key :: string
  ap_api_key_env :: string

record FailoverStats =
  total_requests :: int
  successful_requests :: int
  failed_requests :: int
  failover_count :: int
  provider_usage :: "(string, int) umap"
  profile_usage :: "(string, int) umap"

record ResolvedProvider =
  rp_provider :: LLMProvider
  rp_provider_id :: string
  rp_profile_id :: string
  rp_model :: string
  rp_is_fallback :: bool

record SessionPin =
  pin_provider_id :: string
  pin_profile_id :: string

record ('c, 'j) FailoverResolver =
  registry :: "('c, 'j) ProviderRegistry"
  cooldown :: tracker
  fallback_chain :: "string list"
  profiles :: "(string, AuthProfile list) umap"
  session_pins :: "(string, SessionPin) umap"
  stats :: FailoverStats
  retry_config :: RetryConfig

datatype 'a call = Returns 'a | SelfDeadlock

text \<open>\<open>mu_.lock()\<close> by the thread for which \<open>held\<close> says whether it owns \<open>mu_\<close>.\<close>

definition mutex_lock :: "bool \<Rightarrow> unit call" where
  "mutex_lock held = (if held then SelfDeadlock else Returns ())"

section \<open>Operations\<close>

definition SetFallbackChain :: "string list \<Rightarrow> ('c, 'j) FailoverResolver \<Rightarrow> ('c, 'j) FailoverResolver" where
  "SetFallbackChain models st = st\<lparr>fallback_chain := models\<rparr>"

definition SetProfiles ::
  "string \<Rightarrow> AuthProfile list \<Rightarrow> ('c, 'j) FailoverResolver \<Rightarrow> ('c, 'j) FailoverResolver" where
  "SetProfiles provider_id ps st = st\<lparr>profiles := AList.update provider_id ps (profiles st)\<rparr>"

definition cooldown_key :: "string \<Rightarrow> string \<Rightarrow> string" where
  "cooldown_key provider_id profile_id =
     (if profile_id = [] then provider_id else provider_id @ '':'' @ profile_id)"

text \<open>The loop over the profiles for the pinned one.\<close>

fun pinned_provider ::
  "('c, 'j) ProviderRegistry \<Rightarrow> string \<Rightarrow> string \<Rightarrow> AuthProfile list \<Rightarrow> LLMProvider option" where
  "pinned_provider reg provider_id pinned [] = None"
| "pinned_provider reg provider_id pinned (p # ps) =
     (if ap_id p = pinned
      then (case GetProviderWithKey reg provider_id (ap_api_key p) of
              Some provider \<Rightarrow> Some provider
            | None \<Rightarrow> pinned_provider reg provider_id pinned ps)
      else pinned_provider reg provider_id pinned ps)"

text \<open>The loop over the profiles for the first usable one.\<close>

fun first_healthy ::
  "('c, 'j) ProviderRegistry \<Rightarrow> time \<Rightarrow> tracker \<Rightarrow> string \<Rightarrow> AuthProfile list
     \<Rightarrow> (LLMProvider \<times> string) option" where
  "first_healthy reg now cd provider_id [] = None"
| "first_healthy reg now cd provider_id (p # ps) =
     (if IsInCooldown now cd (cooldown_key provider_id (ap_id p))
      then first_healthy reg now cd provider_id ps
      else (case GetProviderWithKey reg provider_id (ap_api_key p) of
              Some provider \<Rightarrow> Some (provider, ap_id p)
            | None \<Rightarrow> first_healthy reg now cd provider_id ps))"

definition mk_resolved :: "LLMProvider \<Rightarrow> string \<Rightarrow> string \<Rightarrow> string \<Rightarrow> ResolvedProvider" where
  "mk_resolved provider provider_id profile_id model =
     \<lparr>rp_provider = provider, rp_provider_id = provider_id, rp_profile_id = profile_id,
      rp_model = model, rp_is_fallback = False\<rparr>"

text \<open>The session pin: the pinned provider, or the state without the pin.\<close>

definition check_pin ::
  "time \<Rightarrow> ModelRef \<Rightarrow> string \<Rightarrow> ('c, 'j) FailoverResolver
     \<Rightarrow> ResolvedProvider option \<times> ('c, 'j) FailoverResolver" where
  "check_pin now ref session_key st =
     (if session_key = [] then (None, st)
      else case map_of (session_pins st) session_key of
        None \<Rightarrow> (None, st)
      | Some pin \<Rightarrow>
          if pin_provider_id pin \<noteq> ref_provider ref then (None, st)
          else
            (let found =
               (if IsInCooldown now (cooldown st) (cooldown_key (ref_provider ref) (pin_profile_id pin))
                then None
                else case map_of (profiles st) (ref_provider ref) of
                       None \<Rightarrow> None
                     | Some ps \<Rightarrow> pinned_provider (registry st) (ref_provider ref) (pin_profile_id pin) ps)
             in case found of
                  Some provider \<Rightarrow>
                    (Some (mk_resolved provider (ref_provider ref) (pin_profile_id pin) (ref_model ref)), st)
                | None \<Rightarrow> (None, st\<lparr>session_pins := AList.delete session_key (session_pins st)\<rparr>)))"

text \<open>The branch for a provider with auth profiles.\<close>

definition resolve_profiles ::
  "time \<Rightarrow> ModelRef \<Rightarrow> AuthProfile \<Rightarrow> AuthProfile list \<Rightarrow> ('c, 'j) FailoverResolver
     \<Rightarrow> ResolvedProvider option \<times> ('c, 'j) FailoverResolver" where
  "resolve_profiles now ref p ps st =
     (case first_healthy (registry st) now (cooldown st) (ref_provider ref) (p # ps) of
        Some (provider, profile_id) \<Rightarrow>
          (Some (mk_resolved provider (ref_provider ref) profile_id (ref_model ref)), st)
      | None \<Rightarrow>
          (let probe = TryProbe now (cooldown_key (ref_provider ref) (ap_id p)) (cooldown st);
               st1 = st\<lparr>cooldown := fst probe\<rparr>
           in if snd probe
              then (case GetProviderWithKey (registry st) (ref_provider ref) (ap_api_key p) of
                      Some provider \<Rightarrow>
                        (Some (mk_resolved provider (ref_provider ref) (ap_id p) (ref_model ref)), st1)
                    | None \<Rightarrow> (None, st1))
              else (None, st1)))"

text \<open>The branch for a provider without auth profiles.\<close>

definition resolve_default ::
  "(string \<Rightarrow> string option) \<Rightarrow> time \<Rightarrow> ModelRef \<Rightarrow> ('c, 'j) FailoverResolver
     \<Rightarrow> ResolvedProvider option \<times> ('c, 'j) FailoverResolver" where
  "resolve_default env now ref st =
     (let pid = ref_provider ref;
          key = cooldown_key pid [];
          get = (\<lambda>s. let g = GetProvider env pid (registry s)
                     in (map_option (\<lambda>provider. mk_resolved provider pid [] (ref_model ref)) (snd g),
                         s\<lparr>registry := fst g\<rparr>))
      in if IsInCooldown now (cooldown st) key
         then (let probe = TryProbe now key (cooldown st);
                   st1 = st\<lparr>cooldown := fst probe\<rparr>
               in if snd probe then get st1 else (None, st1))
         else get st)"

definition try_resolve_model ::
  "(string \<Rightarrow> string option) \<Rightarrow> time \<Rightarrow> string \<Rightarrow> string \<Rightarrow> ('c, 'j) FailoverResolver
     \<Rightarrow> ResolvedProvider option \<times> ('c, 'j) FailoverResolver" where
  "try_resolve_model env now model session_key st =
     (let ref = ResolveModel (registry st) model ''openai''
      in case check_pin now ref session_key st of
           (Some r, st1) \<Rightarrow> (Some r, st1)
         | (None, st1) \<Rightarrow>
             (case map_of (profiles st1) (ref_provider ref) of
                Some (p # ps) \<Rightarrow> resolve_profiles now ref p ps st1
              | _ \<Rightarrow> resolve_default env now ref st1))"

text \<open>
  The fallback walk. The \<open>lock_guard\<close> holds \<open>mu_\<close> at the head of every iteration; the
  body unlocks it around \<open>try_resolve_model\<close> and locks it again; on success the counter
  update locks \<open>mu_\<close> once more.
\<close>

fun fallback_walk ::
  "(string \<Rightarrow> string option) \<Rightarrow> time \<Rightarrow> string \<Rightarrow> string \<Rightarrow> string list
     \<Rightarrow> ('c, 'j) FailoverResolver
     \<Rightarrow> (ResolvedProvider option \<times> ('c, 'j) FailoverResolver) call" where
  "fallback_walk env now model session_key [] st = Returns (None, st)"
| "fallback_walk env now model session_key (fallback_model # rest) st =
     (if fallback_model = model then fallback_walk env now model session_key rest st
      else case try_resolve_model env now fallback_model session_key st of
             (None, st1) \<Rightarrow> fallback_walk env now model session_key rest st1
           | (Some r, st1) \<Rightarrow>
               (case mutex_lock True of
                  SelfDeadlock \<Rightarrow> SelfDeadlock
                | Returns _ \<Rightarrow>
                    Returns (Some (r\<lparr>rp_is_fallback := True\<rparr>),
                      st1\<lparr>stats := (stats st1)\<lparr>failover_count := failover_count (stats st1) + 1\<rparr>\<rparr>)))"

definition Resolve ::
  "(string \<Rightarrow> string option) \<Rightarrow> time \<Rightarrow> string \<Rightarrow> string \<Rightarrow> ('c, 'j) FailoverResolver
     \<Rightarrow> (ResolvedProvider option \<times> ('c, 'j) FailoverResolver) call" where
  "Resolve env now model session_key st =
     (case try_resolve_model env now model session_key st of
        (Some r, st1) \<Rightarrow> Returns (Some r, st1)
      | (None, st1) \<Rightarrow> fallback_walk env now model session_key (fallback_chain st1) st1)"

definition ResolverRecordSuccess ::
  "string \<Rightarrow> string \<Rightarrow> string \<Rightarrow> ('c, 'j) FailoverResolver \<Rightarrow> ('c, 'j) FailoverResolver" where
  "ResolverRecordSuccess provider_id profile_id session_key st =
     (let s = stats st;
          profile_key = provider_id @ '':'' @ profile_id
      in st\<lparr>cooldown := RecordSuccess (cooldown_key provider_id profile_id) (cooldown st),
            stats := s\<lparr>total_requests := total_requests s + 1,
                       successful_requests := successful_requests s + 1,
                       provider_usage := AList.update provider_id
                         (um_at (provider_usage s) provider_id 0 + 1) (provider_usage s),
                       profile_usage := AList.update profile_key
                         (um_at (profile_usage s) profile_key 0 + 1) (profile_usage s)\<rparr>,
            session_pins :=
              (if session_key = [] then session_pins st
               else AList.update session_key
                      \<lparr>pin_provider_id = provider_id, pin_profile_id = profile_id\<rparr>
                      (session_pins st))\<rparr>)"

definition ResolverRecordFailure ::
  "time \<Rightarrow> string \<Rightarrow> string \<Rightarrow> ProviderErrorKind \<Rightarrow> int
     \<Rightarrow> ('c, 'j) FailoverResolver \<Rightarrow> ('c, 'j) FailoverResolver" where
  "ResolverRecordFailure now provider_id profile_id kind retry_after st =
     st\<lparr>cooldown := RecordFailure now (cooldown_key provider_id profile_id) kind retry_after (cooldown st),
        stats := (stats st)\<lparr>total_requests := total_requests (stats st) + 1,
                             failed_requests := failed_requests (stats st) + 1\<rparr>\<rparr>"

definition ClearSessionPin :: "string \<Rightarrow> ('c, 'j) FailoverResolver \<Rightarrow> ('c, 'j) FailoverResolver" where
  "ClearSessionPin session_key st =
     st\<lparr>session_pins := AList.delete session_key (session_pins st)\<rparr>"

definition GetFailoverStats :: "('c, 'j) FailoverResolver \<Rightarrow> FailoverStats" where
  "GetFailoverStats st = stats st"

definition SetRetryConfig :: "RetryConfig \<Rightarrow> ('c, 'j) FailoverResolver \<Rightarrow> ('c, 'j) FailoverResolver" where
  "SetRetryConfig config st = st\<lparr>retry_config := config\<rparr>"

definition ResetCooldowns :: "('c, 'j) FailoverResolver \<Rightarrow> ('c, 'j) FailoverResolver" where
  "ResetCooldowns st = st\<lparr>cooldown := ResetTracker (cooldown st)\<rparr>"

section \<open>Cooldown keys\<close>

lemma colon_split_unique:
  "a @ CHR '':'' # b = a' @ CHR '':'' # b' \<Longrightarrow> CHR '':'' \<notin> set a \<Longrightarrow> CHR '':'' \<notin> set a' \<Longrightarrow> a = a' \<and> b = b'"
  by (metis append_eq_append_conv str_find_char_split option.inject list.inject)

lemma cooldown_key_inject:
  assumes "CHR '':'' \<notin> set p" and "CHR '':'' \<notin> set p'"
  shows "cooldown_key p q = cooldown_key p' q' \<longleftrightarrow> p = p' \<and> q = q'"
  using assms by (auto simp: cooldown_key_def dest: colon_split_unique)

text \<open>
  A failure is charged to its own profile only: as long as provider ids contain
  no colon, recording a failure of one (provider, profile) pair leaves the cooldown, the
  remaining time and the failure count of every other pair unchanged.
\<close>

theorem failure_isolated:
  assumes "CHR '':'' \<notin> set p" and "CHR '':'' \<notin> set p'" and "(p', q') \<noteq> (p, q)"
  shows "IsInCooldown t (cooldown (ResolverRecordFailure now p q kind ra st)) (cooldown_key p' q')
           = IsInCooldown t (cooldown st) (cooldown_key p' q')
     \<and> CooldownRemaining t (cooldown (ResolverRecordFailure now p q kind ra st)) (cooldown_key p' q')
           = CooldownRemaining t (cooldown st) (cooldown_key p' q')
     \<and> FailureCount (cooldown (ResolverRecordFailure now p q kind ra st)) (cooldown_key p' q')
           = FailureCount (cooldown st) (cooldown_key p' q')"
proof -
  have "cooldown_key p' q' \<noteq> cooldown_key p q"
    using assms by (auto simp: cooldown_key_inject)
  then show ?thesis
    by (simp add: ResolverRecordFailure_def IsInCooldown_def CooldownRemaining_def FailureCount_def
        store_simps)
qed

definition resolver_init :: "('c, 'j) ProviderRegistry \<Rightarrow> ('c, 'j) FailoverResolver" where
  "resolver_init reg =
     \<lparr>registry = reg, cooldown = [], fallback_chain = [], profiles = [], session_pins = [],
      stats = \<lparr>total_requests = 0, successful_requests = 0, failed_requests = 0,
               failover_count = 0, provider_usage = [], profile_usage = []\<rparr>,
      retry_config = \<lparr>max_retries = 3, initial_backoff_ms = 1000,
                      backoff_multiplier = 0x4000000000000000, max_backoff_ms = 60000\<rparr>\<rparr>"

definition demo_resolver :: "(nat, nat) FailoverResolver" where
  "demo_resolver =
     SetFallbackChain [''openai/gpt-4o'']
       (SetProfiles ''anthropic''
         [\<lparr>ap_id = ''prod'', ap_api_key = ''k1'', ap_api_key_env = []\<rparr>,
          \<lparr>ap_id = ''backup'', ap_api_key = ''k2'', ap_api_key_env = []\<rparr>]
         (resolver_init (RegisterBuiltinFactories empty_registry)))"

theorem failure_isolated_witness:
  "FailureCount (cooldown (ResolverRecordFailure 0 ''anthropic'' ''prod'' kRateLimit 0 demo_resolver))
     (cooldown_key ''anthropic'' ''backup'') = 0"
  using failure_isolated [of "''anthropic''" "''anthropic''" "''backup''" "''prod''" 0 0
      kRateLimit 0 demo_resolver]
  by (simp add: demo_resolver_def SetFallbackChain_def SetProfiles_def resolver_init_def
      FailureCount_def)

section \<open>What a resolution may return\<close>

text \<open>A profile is usable now if it is not cooled down, or the throttle grants a probe.\<close>

definition usable_now :: "time \<Rightarrow> tracker \<Rightarrow> string \<Rightarrow> bool" where
  "usable_now now cd key \<longleftrightarrow> \<not> IsInCooldown now cd key \<or> snd (TryProbe now key cd)"

lemma first_healthy_Some:
  "first_healthy reg now cd pid ps = Some (provider, q) \<Longrightarrow>
     \<not> IsInCooldown now cd (cooldown_key pid q)
     \<and> (\<exists>p \<in> set ps. ap_id p = q \<and> GetProviderWithKey reg pid (ap_api_key p) = Some provider)"
  by (induction ps) (auto split: if_splits option.splits)

lemma pinned_provider_Some:
  "pinned_provider reg pid q ps = Some provider \<Longrightarrow>
     \<exists>p \<in> set ps. ap_id p = q \<and> GetProviderWithKey reg pid (ap_api_key p) = Some provider"
  by (induction ps) (auto split: if_splits option.splits)

lemma check_pin_frame:
  "check_pin now ref sk st = (r, st1) \<Longrightarrow>
     registry st1 = registry st \<and> cooldown st1 = cooldown st \<and> fallback_chain st1 = fallback_chain st
     \<and> profiles st1 = profiles st \<and> stats st1 = stats st \<and> retry_config st1 = retry_config st"
  by (auto simp: check_pin_def Let_def split: if_splits option.splits)

lemma check_pin_Some:
  "check_pin now ref sk st = (Some r, st1) \<Longrightarrow>
     st1 = st \<and> rp_provider_id r = ref_provider ref \<and> rp_model r = ref_model ref \<and> \<not> rp_is_fallback r
     \<and> \<not> IsInCooldown now (cooldown st) (cooldown_key (rp_provider_id r) (rp_profile_id r))"
  by (auto simp: check_pin_def Let_def mk_resolved_def split: if_splits option.splits)

lemma resolve_profiles_frame:
  "resolve_profiles now ref p ps st = (r, st1) \<Longrightarrow>
     registry st1 = registry st \<and> fallback_chain st1 = fallback_chain st \<and> profiles st1 = profiles st
     \<and> stats st1 = stats st \<and> session_pins st1 = session_pins st \<and> retry_config st1 = retry_config st"
  by (auto simp: resolve_profiles_def Let_def split: if_splits option.splits)

lemma resolve_profiles_Some:
  assumes "resolve_profiles now ref p ps st = (Some r, st1)"
  shows "rp_provider_id r = ref_provider ref \<and> rp_model r = ref_model ref \<and> \<not> rp_is_fallback r
     \<and> usable_now now (cooldown st) (cooldown_key (rp_provider_id r) (rp_profile_id r))"
proof (cases "first_healthy (registry st) now (cooldown st) (ref_provider ref) (p # ps)")
  case None
  with assms show ?thesis
    by (auto simp: resolve_profiles_def Let_def mk_resolved_def usable_now_def
        simp del: first_healthy.simps split: if_splits option.splits)
next
  case (Some x)
  obtain provider q where x: "x = (provider, q)" by (cases x)
  show ?thesis
    using assms Some first_healthy_Some [OF Some [unfolded x]]
    by (auto simp: x resolve_profiles_def mk_resolved_def usable_now_def simp del: first_healthy.simps)
qed

lemma resolve_default_frame:
  "resolve_default env now ref st = (r, st1) \<Longrightarrow>
     fallback_chain st1 = fallback_chain st \<and> profiles st1 = profiles st
     \<and> stats st1 = stats st \<and> session_pins st1 = session_pins st \<and> retry_config st1 = retry_config st"
  by (auto simp: resolve_default_def Let_def split: if_splits)

lemma resolve_default_Some:
  "resolve_default env now ref st = (Some r, st1) \<Longrightarrow>
     rp_provider_id r = ref_provider ref \<and> rp_model r = ref_model ref \<and> \<not> rp_is_fallback r
     \<and> usable_now now (cooldown st) (cooldown_key (rp_provider_id r) (rp_profile_id r))"
  by (auto simp: resolve_default_def Let_def mk_resolved_def usable_now_def split: if_splits)

lemma try_resolve_model_frame:
  "try_resolve_model env now model sk st = (r, st1) \<Longrightarrow>
     fallback_chain st1 = fallback_chain st \<and> profiles st1 = profiles st \<and> stats st1 = stats st
     \<and> retry_config st1 = retry_config st"
  by (auto simp: try_resolve_model_def Let_def split: prod.splits option.splits list.splits
      dest!: check_pin_frame resolve_profiles_frame resolve_default_frame)

lemma try_resolve_model_Some:
  assumes "try_resolve_model env now model sk st = (Some r, st1)"
  shows "rp_provider_id r = ref_provider (ResolveModel (registry st) model ''openai'')
     \<and> rp_model r = ref_model (ResolveModel (registry st) model ''openai'') \<and> \<not> rp_is_fallback r
     \<and> usable_now now (cooldown st) (cooldown_key (rp_provider_id r) (rp_profile_id r))"
proof -
  let ?ref = "ResolveModel (registry st) model ''openai''"
  obtain o1 st2 where pin: "check_pin now ?ref sk st = (o1, st2)" by fastforce
  show ?thesis
  proof (cases o1)
    case (Some r')
    with assms pin show ?thesis
      by (auto simp: try_resolve_model_def Let_def usable_now_def dest!: check_pin_Some)
  next
    case None
    with assms pin show ?thesis
      using check_pin_frame [OF pin]
      by (auto simp: try_resolve_model_def Let_def split: option.splits list.splits
          dest!: resolve_profiles_Some resolve_default_Some)
  qed
qed

lemma fallback_walk_Returns:
  "fallback_walk env now model sk chain st = Returns (r, st1) \<Longrightarrow> r = None \<and> stats st1 = stats st"
proof (induction chain arbitrary: st)
  case Nil
  then show ?case by simp
next
  case (Cons fm chain)
  then show ?case
    by (cases "try_resolve_model env now fm sk st")
      (auto simp: mutex_lock_def split: if_splits option.splits dest: try_resolve_model_frame)
qed



lemma fallback_walk_append:
  "fallback_walk env now model sk pre st = Returns (None, st2) \<Longrightarrow>
     fallback_walk env now model sk (pre @ rest) st = fallback_walk env now model sk rest st2"
  by (induction pre arbitrary: st)
    (auto simp: mutex_lock_def split: if_splits prod.splits option.splits)

lemma fallback_walk_hit:
  "fallback_walk env now model sk pre st = Returns (None, st2) \<Longrightarrow> fm \<noteq> model \<Longrightarrow>
     try_resolve_model env now fm sk st2 = (Some r, st3) \<Longrightarrow>
     fallback_walk env now model sk (pre @ fm # post) st = SelfDeadlock"
  by (simp add: fallback_walk_append mutex_lock_def)

lemma fallback_walk_deadlock:
  "fallback_walk env now model sk chain st = SelfDeadlock \<Longrightarrow>
     \<exists>pre fm post st2 r st3. chain = pre @ fm # post
        \<and> fallback_walk env now model sk pre st = Returns (None, st2) \<and> fm \<noteq> model
        \<and> try_resolve_model env now fm sk st2 = (Some r, st3)"
proof (induction chain arbitrary: st)
  case Nil
  then show ?case by simp
next
  case (Cons c chain)
  obtain o1 s1 where t: "try_resolve_model env now c sk st = (o1, s1)" by fastforce
  show ?case
  proof (cases "c \<noteq> model \<and> o1 \<noteq> None")
    case True
    with t have "c # chain = [] @ c # chain
        \<and> fallback_walk env now model sk [] st = Returns (None, st) \<and> c \<noteq> model
        \<and> try_resolve_model env now c sk st = (Some (the o1), s1)" by simp
    then show ?thesis by blast
  next
    case False
    define s2 where "s2 = (if c = model then st else s1)"
    have step: "fallback_walk env now model sk (c # rest) st = fallback_walk env now model sk rest s2"
      for rest using False t by (auto simp: s2_def)
    with Cons obtain pre fm post st2 r st3 where
      "chain = pre @ fm # post" "fallback_walk env now model sk pre s2 = Returns (None, st2)"
      "fm \<noteq> model" "try_resolve_model env now fm sk st2 = (Some r, st3)" by metis
    with step have "c # chain = (c # pre) @ fm # post
        \<and> fallback_walk env now model sk (c # pre) st = Returns (None, st2) \<and> fm \<noteq> model
        \<and> try_resolve_model env now fm sk st2 = (Some r, st3)" by simp
    then show ?thesis by blast
  qed
qed

text \<open>
  Claim C13. Fallback never succeeds: as soon as the primary model is unavailable and some
  model of the fallback chain resolves, \<open>Resolve\<close> locks the mutex it already holds and does
  not return. It returns exactly when the primary resolves or no fallback model does, and then
  never with a fallback provider.
\<close>

theorem Resolve_fallback_deadlock:
  "Resolve env now model session_key st = SelfDeadlock \<longleftrightarrow>
     (\<exists>st1 pre fm post st2 r st3.
        try_resolve_model env now model session_key st = (None, st1)
      \<and> fallback_chain st1 = pre @ fm # post
      \<and> fallback_walk env now model session_key pre st1 = Returns (None, st2)
      \<and> fm \<noteq> model
      \<and> try_resolve_model env now fm session_key st2 = (Some r, st3))"
proof (cases "try_resolve_model env now model session_key st")
  case (Pair o1 s1)
  show ?thesis
  proof (cases o1)
    case None
    with Pair have "Resolve env now model session_key st
        = fallback_walk env now model session_key (fallback_chain s1) s1"
      by (simp add: Resolve_def)
    with Pair None show ?thesis
      using fallback_walk_hit [of env now model session_key]
        fallback_walk_deadlock [of env now model session_key "fallback_chain s1" s1]
      by (metis prod.inject)
  next
    case (Some r)
    with Pair show ?thesis by (simp add: Resolve_def)
  qed
qed

text \<open>The scenario of the test \<open>FallbackChain\<close>: the default key of the primary is cooled down.\<close>

lemma fallback_deadlock_example:
  "Resolve (\<lambda>_. None) 1 ''anthropic/claude-sonnet-4-6'' []
     (ResolverRecordFailure 0 ''anthropic'' [] kRateLimit 0
       (SetFallbackChain [''openai/gpt-4o'']
         (resolver_init (RegisterBuiltinFactories (empty_registry :: (nat, nat) ProviderRegistry)))))
   = SelfDeadlock"
  by (simp add: Resolve_def try_resolve_model_def Let_def SetFallbackChain_def mutex_lock_def
      resolver_init_def ResolveModel_def RegisterBuiltinFactories_def ResolverRecordFailure_def
      builtin_factories_def RegisterFactory_def empty_registry_def ModelRef_parse_def check_pin_def
      resolve_default_def IsInCooldown_def RecordFailure_def TryProbe_def url_factory_def um_at_def
      mk_resolved_def ProviderEntry_init_def cooldown_key_def GetProvider_def resolve_api_key_def
      cooldown_length_def ComputeCooldown_def backoff_loop_1 next_failures_def CooldownState_init_def
      secs_def kProbeInterval_def)

section \<open>Session pins\<close>

lemma pinned_provider_mem:
  assumes "p \<in> set ps" and "ap_id p = q" and "map_of (factories reg) pid = Some f"
    and "\<And>e. f e \<noteq> None"
  shows "\<exists>provider. pinned_provider reg pid q ps = Some provider"
  using assms(1,2)
proof (induction ps)
  case Nil
  then show ?case by simp
next
  case (Cons a ps)
  obtain y where "GetProviderWithKey reg pid (ap_api_key a) = Some y"
    using assms(3,4) by (fastforce simp: GetProviderWithKey_def)
  with Cons show ?case by auto
qed

text \<open>
  Sessions are sticky: right after a success of a configured profile was recorded
  for a session, resolving any model of that provider for the session yields this profile
  again, whatever cooldown the profile was in before and whatever profiles precede it; the
  resolver state is not changed by that resolution.
\<close>

theorem session_pin_sticks:
  assumes "session_key \<noteq> []"
    and "ref_provider (ResolveModel (registry st) model ''openai'') = pid"
    and "map_of (profiles st) pid = Some ps" and "p \<in> set ps"
    and "map_of (factories (registry st)) pid = Some f" and "\<And>e. f e \<noteq> None"
  shows "\<exists>r. Resolve env now model session_key
             (ResolverRecordSuccess pid (ap_id p) session_key st)
           = Returns (Some r, ResolverRecordSuccess pid (ap_id p) session_key st)
         \<and> rp_provider_id r = pid \<and> rp_profile_id r = ap_id p"
proof -
  let ?st = "ResolverRecordSuccess pid (ap_id p) session_key st"
  obtain provider where "pinned_provider (registry st) pid (ap_id p) ps = Some provider"
    using pinned_provider_mem [OF assms(4) refl assms(5,6)] by blast
  moreover have "\<not> IsInCooldown now (cooldown ?st) (cooldown_key pid (ap_id p))"
    by (simp add: ResolverRecordSuccess_def Let_def gate.reopen_open)
  ultimately have "check_pin now (ResolveModel (registry st) model ''openai'') session_key ?st
      = (Some (mk_resolved provider pid (ap_id p)
           (ref_model (ResolveModel (registry st) model ''openai''))), ?st)"
    using assms(1,2,3)
    by (simp add: check_pin_def ResolverRecordSuccess_def Let_def store_simps)
  moreover have "registry ?st = registry st"
    by (simp add: ResolverRecordSuccess_def Let_def)
  ultimately show ?thesis
    by (simp add: Resolve_def try_resolve_model_def mk_resolved_def)
qed

theorem session_pin_sticks_witness:
  "\<exists>r. Resolve (\<lambda>_. None) 7 ''anthropic/claude'' ''s1''
         (ResolverRecordSuccess ''anthropic'' ''backup'' ''s1'' demo_resolver)
       = Returns (Some r, ResolverRecordSuccess ''anthropic'' ''backup'' ''s1'' demo_resolver)
     \<and> rp_provider_id r = ''anthropic'' \<and> rp_profile_id r = ''backup''"
  using session_pin_sticks [of "''s1''" demo_resolver "''anthropic/claude''" "''anthropic''"
      "the (map_of (profiles demo_resolver) ''anthropic'')"
      "\<lparr>ap_id = ''backup'', ap_api_key = ''k2'', ap_api_key_env = []\<rparr>"
      "url_factory AnthropicProvider ''https://api.anthropic.com''" "\<lambda>_. None" 7]
  by (simp add: demo_resolver_def SetFallbackChain_def SetProfiles_def resolver_init_def
      ResolveModel_def RegisterBuiltinFactories_def builtin_factories_def RegisterFactory_def
      empty_registry_def ModelRef_parse_def url_factory_def)

section \<open>The counters, over every run of the resolver\<close>

datatype resolver_op =
  RSetChain "string list"
| RSetProfiles string "AuthProfile list"
| RResolve "string \<Rightarrow> string option" time string string
| RSuccess string string string
| RFailure time string string ProviderErrorKind int
| RClearPin string
| RSetRetry RetryConfig
| RResetCooldowns

fun resolver_next :: "('c, 'j) FailoverResolver \<Rightarrow> resolver_op \<Rightarrow> ('c, 'j) FailoverResolver" where
  "resolver_next st (RSetChain ms) = SetFallbackChain ms st"
| "resolver_next st (RSetProfiles pid ps) = SetProfiles pid ps st"
| "resolver_next st (RResolve env now model sk) =
     (case Resolve env now model sk st of Returns (r, st1) \<Rightarrow> st1 | SelfDeadlock \<Rightarrow> st)"
| "resolver_next st (RSuccess pid q sk) = ResolverRecordSuccess pid q sk st"
| "resolver_next st (RFailure now pid q kind ra) = ResolverRecordFailure now pid q kind ra st"
| "resolver_next st (RClearPin sk) = ClearSessionPin sk st"
| "resolver_next st (RSetRetry c) = SetRetryConfig c st"
| "resolver_next st RResetCooldowns = ResetCooldowns st"

fun resolver_enabled :: "('c, 'j) FailoverResolver \<Rightarrow> resolver_op \<Rightarrow> bool" where
  "resolver_enabled st (RResolve env now model sk) = (Resolve env now model sk st \<noteq> SelfDeadlock)"
| "resolver_enabled st _ = True"

definition counters_ok :: "('c, 'j) FailoverResolver \<Rightarrow> bool" where
  "counters_ok st \<longleftrightarrow>
     (let s = stats st in
        total_requests s = successful_requests s + failed_requests s
      \<and> 0 \<le> successful_requests s \<and> 0 \<le> failed_requests s \<and> failover_count s = 0
      \<and> um_ok (provider_usage s) \<and> sum_list (map snd (provider_usage s)) = successful_requests s
      \<and> um_ok (profile_usage s) \<and> sum_list (map snd (profile_usage s)) = successful_requests s)"

lemma Resolve_stats: "Resolve env now model sk st = Returns (r, st1) \<Longrightarrow> stats st1 = stats st"
  by (auto simp: Resolve_def split: prod.splits option.splits
      dest!: fallback_walk_Returns try_resolve_model_frame)

interpretation resolver: guarded_machine
  "\<lambda>st :: ('c, 'j) FailoverResolver. \<exists>reg. st = resolver_init reg" resolver_enabled resolver_next counters_ok
proof unfold_locales
  fix st :: "('c, 'j) FailoverResolver" and op
  assume inv: "counters_ok st" and en: "resolver_enabled st op"
  show "counters_ok (resolver_next st op)"
  proof (cases op)
    case (RResolve env now model sk)
    with inv en show ?thesis
      by (auto simp: counters_ok_def Let_def split: call.splits dest!: Resolve_stats)
  next
    case (RSuccess pid q sk)
    with inv show ?thesis
      by (simp add: counters_ok_def ResolverRecordSuccess_def Let_def um_sum_update)
  qed (use inv in \<open>simp_all add: counters_ok_def Let_def SetFallbackChain_def SetProfiles_def
      ResolverRecordFailure_def ClearSessionPin_def SetRetryConfig_def ResetCooldowns_def\<close>)
qed (auto simp: counters_ok_def resolver_init_def Let_def)

text \<open>
  After any run of resolver calls from a fresh resolver, the totals add up: requests
  are successes plus failures, and the per-provider and per-profile usage counts each sum to
  the number of successes. The failover counter is still zero, because the only call that
  would raise it never returns.
\<close>

theorem resolver_counters:
  fixes reg :: "('c, 'j) ProviderRegistry"
  assumes "resolver.enabled_run (resolver_init reg) ops"
  shows "let s = stats (foldl resolver_next (resolver_init reg) ops) in
     total_requests s = successful_requests s + failed_requests s
     \<and> sum_list (map snd (provider_usage s)) = successful_requests s
     \<and> sum_list (map snd (profile_usage s)) = successful_requests s
     \<and> failover_count s = 0"
  using resolver.inv_from_start [OF _ assms] by (auto simp: counters_ok_def Let_def)

theorem resolver_counters_witness:
  "total_requests (stats (foldl resolver_next (resolver_init (empty_registry :: (nat, nat) ProviderRegistry))
      [RSuccess ''a'' [] ''s'', RFailure 0 ''a'' [] kTimeout 0])) = 2"
proof -
  let ?ops = "[RSuccess ''a'' [] ''s'', RFailure 0 ''a'' [] kTimeout 0]"
  have "resolver.enabled_run (resolver_init (empty_registry :: (nat, nat) ProviderRegistry)) ?ops"
    by simp
  from resolver_counters [OF this] show ?thesis
    by (simp add: Let_def resolver_init_def ResolverRecordSuccess_def ResolverRecordFailure_def)
qed

end
