(* ===== verification/Lanes.thy ===== *)
theory Lanes
  imports RavPrelude "HOL-Library.Multiset" "HOL-Library.Sublist"
begin

text \<open>
  The per-session queue of the gateway (\<open>SessionLane\<close> in
  \<open>src/gateway/command_queue.cpp\<close>): queue modes, drop policies, the queue
  configuration, and every lane operation. The JSON \<open>params\<close> of a command is an opaque
  value of type \<open>'j\<close>.
\<close>

section \<open>Enumerations and configuration\<close>

datatype QueueMode = kCollect | kFollowup | kSteer | kSteerBacklog | kInterrupt

definition QueueModeFromString :: "string \<Rightarrow> QueueMode" where
  "QueueModeFromString s =
     (if s = ''collect'' then kCollect
      else if s = ''followup'' then kFollowup
      else if s = ''steer'' then kSteer
      else if s = ''steer-backlog'' then kSteerBacklog
      else if s = ''interrupt'' then kInterrupt
      else kCollect)"

fun QueueModeToString :: "QueueMode \<Rightarrow> string" where
  "QueueModeToString kCollect = ''collect''"
| "QueueModeToString kFollowup = ''followup''"
| "QueueModeToString kSteer = ''steer''"
| "QueueModeToString kSteerBacklog = ''steer-backlog''"
| "QueueModeToString kInterrupt = ''interrupt''"

datatype DropPolicy = kSummarize | kDropOldest | kReject

definition DropPolicyFromString :: "string \<Rightarrow> DropPolicy" where
  "DropPolicyFromString s =
     (if s = ''summarize'' then kSummarize
      else if s = ''drop-oldest'' then kDropOldest
      else if s = ''reject'' then kReject
      else kSummarize)"

fun DropPolicyToString :: "DropPolicy \<Rightarrow> string" where
  "DropPolicyToString kSummarize = ''summarize''"
| "DropPolicyToString kDropOldest = ''drop-oldest''"
| "DropPolicyToString kReject = ''reject''"

lemma ex_QueueMode: "(\<forall>m. P m) \<longleftrightarrow> P kCollect \<and> P kFollowup \<and> P kSteer \<and> P kSteerBacklog \<and> P kInterrupt"
  by (metis QueueMode.exhaust)

lemma ex_DropPolicy: "(\<forall>d. P d) \<longleftrightarrow> P kSummarize \<and> P kDropOldest \<and> P kReject"
  by (metis DropPolicy.exhaust)

interpretation queue_mode: enum_codec QueueModeToString QueueModeFromString kCollect
proof unfold_locales
  show "QueueModeFromString (QueueModeToString m) = m" for m
    by (cases m) (simp_all add: QueueModeFromString_def)
qed (auto simp: QueueModeFromString_def ex_QueueMode)

interpretation drop_policy: enum_codec DropPolicyToString DropPolicyFromString kSummarize
proof unfold_locales
  show "DropPolicyFromString (DropPolicyToString d) = d" for d
    by (cases d) (simp_all add: DropPolicyFromString_def)
qed (auto simp: DropPolicyFromString_def ex_DropPolicy)

record QueueConfig =
  cfg_max_concurrent :: int
  cfg_debounce_ms :: int
  cfg_cap :: int
  cfg_drop :: DropPolicy
  cfg_default_mode :: QueueMode

definition QueueConfig_default :: QueueConfig where
  "QueueConfig_default =
     \<lparr>cfg_max_concurrent = 4, cfg_debounce_ms = 1000, cfg_cap = 20, cfg_drop = kSummarize,
      cfg_default_mode = kCollect\<rparr>"

section \<open>Commands and lanes\<close>

datatype CommandState = stPending | stDebouncing | stActive | stComplete | stDropped

record 'j QueuedCommand =
  qc_id :: string
  qc_session_key :: string
  qc_message :: string
  qc_params :: 'j
  qc_connection_id :: string
  qc_rpc_request_id :: string
  qc_mode :: QueueMode
  qc_enqueued_at :: time
  qc_state :: CommandState

record 'j SessionLane =
  ln_session_key :: string
  ln_mode :: QueueMode
  ln_debounce_ms :: int
  ln_cap :: int
  ln_drop :: DropPolicy
  ln_pending :: "'j QueuedCommand list"
  ln_active :: "'j QueuedCommand option"

definition SessionLane_init :: "string \<Rightarrow> 'j SessionLane" where
  "SessionLane_init session_key =
     \<lparr>ln_session_key = session_key, ln_mode = kCollect, ln_debounce_ms = 1000, ln_cap = 20,
      ln_drop = kSummarize, ln_pending = [], ln_active = None\<rparr>"

definition Enqueue :: "'j QueuedCommand \<Rightarrow> 'j SessionLane \<Rightarrow> 'j SessionLane" where
  "Enqueue cmd ln = ln\<lparr>ln_pending := ln_pending ln @ [cmd]\<rparr>"

definition HasPending :: "'j SessionLane \<Rightarrow> bool" where
  "HasPending ln \<longleftrightarrow> ln_pending ln \<noteq> []"

definition HasActive :: "'j SessionLane \<Rightarrow> bool" where
  "HasActive ln \<longleftrightarrow> ln_active ln \<noteq> None"

definition TryActivate ::
  "time \<Rightarrow> 'j SessionLane \<Rightarrow> 'j SessionLane \<times> 'j QueuedCommand option" where
  "TryActivate now ln =
     (case ln_pending ln of
        [] \<Rightarrow> (ln, None)
      | front # rest \<Rightarrow>
          if HasActive ln then (ln, None)
          else if to_msecs (now - qc_enqueued_at front) < ln_debounce_ms ln then (ln, None)
          else (let cmd = front\<lparr>qc_state := stActive\<rparr>
                in (ln\<lparr>ln_pending := rest, ln_active := Some cmd\<rparr>, Some cmd)))"

definition CompleteActive :: "'j SessionLane \<Rightarrow> 'j SessionLane \<times> 'j QueuedCommand option" where
  "CompleteActive ln =
     (case ln_active ln of
        None \<Rightarrow> (ln, None)
      | Some cmd \<Rightarrow> (ln\<lparr>ln_active := None\<rparr>, Some (cmd\<lparr>qc_state := stComplete\<rparr>)))"

section \<open>Cap overflow\<close>

definition summary_tag :: string where "summary_tag = ''[Queue summary:''"

text \<open>
  The count read back from an existing summary, \<open>1\<close> when there is none or it does not
  parse. \<open>find(": ") + 2\<close> is \<open>1\<close> when nothing is found (unsigned wrap of \<open>npos + 2\<close>),
  \<open>pos - start\<close> with \<open>pos < start\<close> wraps to a length beyond any string, and a
  \<open>start\<close> past the end makes \<open>substr\<close> throw, which the \<open>catch (...)\<close> swallows.
\<close>

definition collapsed_count :: "string \<Rightarrow> int" where
  "collapsed_count m =
     (if str_find summary_tag m \<noteq> Some 0 then 1
      else case str_find '' messages]'' m of
             None \<Rightarrow> 1
           | Some pos \<Rightarrow>
               (let start = (case str_find '': '' m of None \<Rightarrow> 1 | Some i \<Rightarrow> i + 2);
                    len = (if start \<le> pos then pos - start else length m)
                in case str_substr m start len of
                     None \<Rightarrow> 1
                   | Some t \<Rightarrow> (case stoi t of None \<Rightarrow> 1 | Some n \<Rightarrow> n)))"

definition kept_content :: "string \<Rightarrow> string" where
  "kept_content m =
     (if str_find summary_tag m = Some 0
      then (case str_find ''] '' m of None \<Rightarrow> [] | Some i \<Rightarrow> drop (i + 2) m)
      else take 150 m)"

definition merge_messages :: "string \<Rightarrow> string \<Rightarrow> string" where
  "merge_messages oldest second =
     ''[Queue summary: '' @ to_string (collapsed_count oldest + 1) @ '' messages] ''
       @ kept_content oldest @ '' | '' @ take 150 second"

text \<open>One pass of the \<open>while\<close> body: the new queue and the dropped id, if any.\<close>

fun overflow_step ::
  "DropPolicy \<Rightarrow> 'j QueuedCommand list \<Rightarrow> 'j QueuedCommand list \<times> string list" where
  "overflow_step kSummarize (oldest # second # rest) =
     (oldest\<lparr>qc_message := merge_messages (qc_message oldest) (qc_message second)\<rparr> # rest,
      [qc_id second])"
| "overflow_step kSummarize q = (q, [])"
| "overflow_step kDropOldest (front # rest) = (rest, [qc_id front])"
| "overflow_step kDropOldest [] = ([], [])"
| "overflow_step kReject [] = ([], [])"
| "overflow_step kReject q = (butlast q, [qc_id (last q)])"

lemma overflow_step_length:
  "2 \<le> length q \<Longrightarrow> Suc (length (fst (overflow_step d q))) = length q"
  by (cases "(d, q)" rule: overflow_step.cases) auto

text \<open>
  The loop; with a cap of zero or less it stops after one pass. The callers enqueue first,
  so the queue is never empty here.
\<close>

function overflow_loop ::
  "int \<Rightarrow> DropPolicy \<Rightarrow> 'j QueuedCommand list \<Rightarrow> 'j QueuedCommand list \<times> string list" where
  "overflow_loop cap d q =
     (if int (length q) \<le> cap then (q, [])
      else (let r = overflow_step d q
            in if cap \<le> 0 then r
               else (let r' = overflow_loop cap d (fst r) in (fst r', snd r @ snd r'))))"
  by pat_completeness auto
termination
proof (relation "measure (\<lambda>(cap, d, q). length q)")
  fix cap :: int and d and q :: "'j QueuedCommand list" and x
  assume "\<not> int (length q) \<le> cap" "\<not> cap \<le> 0" "x = overflow_step d q"
  then show "((cap, d, fst x), cap, d, q) \<in> measure (\<lambda>(cap, d, q). length q)"
    using overflow_step_length [of q d] by auto
qed simp

declare overflow_loop.simps [simp del]

definition ApplyCapOverflow :: "'j SessionLane \<Rightarrow> 'j SessionLane \<times> string list" where
  "ApplyCapOverflow ln =
     (let r = overflow_loop (ln_cap ln) (ln_drop ln) (ln_pending ln)
      in (ln\<lparr>ln_pending := fst r\<rparr>, snd r))"

section \<open>Draining, cancelling, interrupting\<close>

fun join_messages :: "string \<Rightarrow> 'j QueuedCommand list \<Rightarrow> string" where
  "join_messages result [] = result"
| "join_messages result (cmd # rest) =
     join_messages ((if result \<noteq> [] then result @ [CHR 0x0A, CHR 0x0A] else result) @ qc_message cmd) rest"

definition DrainPendingAsSteeringText :: "'j SessionLane \<Rightarrow> 'j SessionLane \<times> string" where
  "DrainPendingAsSteeringText ln =
     (if ln_pending ln = [] then (ln, [])
      else (ln\<lparr>ln_pending := []\<rparr>, join_messages [] (ln_pending ln)))"

fun cancel_first :: "string \<Rightarrow> 'j QueuedCommand list \<Rightarrow> 'j QueuedCommand list \<times> bool" where
  "cancel_first command_id [] = ([], False)"
| "cancel_first command_id (cmd # rest) =
     (if qc_id cmd = command_id then (rest, True)
      else (let r = cancel_first command_id rest in (cmd # fst r, snd r)))"

definition CancelPending :: "string \<Rightarrow> 'j SessionLane \<Rightarrow> 'j SessionLane \<times> bool" where
  "CancelPending command_id ln =
     (let r = cancel_first command_id (ln_pending ln) in (ln\<lparr>ln_pending := fst r\<rparr>, snd r))"

text \<open>\<open>while (pending_.size() > 1) pending_.pop_front();\<close>\<close>

fun keep_newest :: "'a list \<Rightarrow> 'a list" where
  "keep_newest (x # y # rest) = keep_newest (y # rest)"
| "keep_newest q = q"

definition InterruptActive :: "'j SessionLane \<Rightarrow> 'j SessionLane \<times> string option" where
  "InterruptActive ln =
     (ln\<lparr>ln_active := None, ln_pending := keep_newest (ln_pending ln)\<rparr>,
      map_option qc_id (ln_active ln))"

definition IsIdle :: "'j SessionLane \<Rightarrow> bool" where
  "IsIdle ln \<longleftrightarrow> \<not> HasActive ln \<and> \<not> HasPending ln"

section \<open>The lane as a serial FIFO\<close>

datatype ('c, 't) lane_op = LEnq 'c | LAct 't | LFin

text \<open>
  What the dispatcher relies on: enqueueing appends, activation hands out the front of an
  idle lane and makes it busy, finishing makes it idle.
\<close>

locale fifo_lane =
  fixes pend :: "'l \<Rightarrow> 'c list" and busy :: "'l \<Rightarrow> bool" and key :: "'c \<Rightarrow> 'k"
    and enq :: "'c \<Rightarrow> 'l \<Rightarrow> 'l" and act :: "'t \<Rightarrow> 'l \<Rightarrow> 'l \<times> 'c option" and fin :: "'l \<Rightarrow> 'l"
  assumes pend_enq: "pend (enq c l) = pend l @ [c]"
    and busy_enq: "busy (enq c l) = busy l"
    and act_None: "snd (act t l) = None \<Longrightarrow> fst (act t l) = l"
    and act_Some: "snd (act t l) = Some c \<Longrightarrow>
      \<not> busy l \<and> busy (fst (act t l)) \<and> map key (pend l) = key c # map key (pend (fst (act t l)))"
    and pend_fin: "pend (fin l) = pend l"
    and busy_fin: "\<not> busy (fin l)"
begin

fun lane_step :: "'l \<Rightarrow> ('c, 't) lane_op \<Rightarrow> 'l \<times> 'c option" where
  "lane_step l (LEnq c) = (enq c l, None)"
| "lane_step l (LAct t) = act t l"
| "lane_step l LFin = (fin l, None)"

fun lane_end :: "'l \<Rightarrow> ('c, 't) lane_op list \<Rightarrow> 'l" where
  "lane_end l [] = l"
| "lane_end l (e # es) = lane_end (fst (lane_step l e)) es"

fun started :: "'l \<Rightarrow> ('c, 't) lane_op list \<Rightarrow> 'c list" where
  "started l [] = []"
| "started l (e # es) =
     (case snd (lane_step l e) of None \<Rightarrow> started (fst (lane_step l e)) es
      | Some c \<Rightarrow> c # started (fst (lane_step l e)) es)"

fun enqueued :: "('c, 't) lane_op list \<Rightarrow> 'c list" where
  "enqueued [] = []"
| "enqueued (LEnq c # es) = c # enqueued es"
| "enqueued (e # es) = enqueued es"

fun finishes :: "('c, 't) lane_op list \<Rightarrow> nat" where
  "finishes [] = 0"
| "finishes (LFin # es) = Suc (finishes es)"
| "finishes (e # es) = finishes es"

lemma fifo_order:
  "map key (started l es) @ map key (pend (lane_end l es)) = map key (pend l) @ map key (enqueued es)"
proof (induction es arbitrary: l)
  case Nil
  show ?case by simp
next
  case (Cons e es)
  show ?case
  proof (cases e)
    case (LEnq c)
    with Cons show ?thesis by (simp add: pend_enq)
  next
    case (LAct t)
    with Cons show ?thesis
      by (cases "snd (act t l)") (simp_all add: act_None act_Some)
  next
    case LFin
    with Cons show ?thesis by (simp add: pend_fin)
  qed
qed

lemma serial_starts: "length (started l es) + (if busy l then 1 else 0) \<le> finishes es + 1"
proof (induction es arbitrary: l)
  case Nil
  show ?case by simp
next
  case (Cons e es)
  note IH = Cons.IH [of "fst (lane_step l e)"]
  show ?case
  proof (cases e)
    case (LEnq c)
    with IH show ?thesis by (simp add: busy_enq)
  next
    case (LAct t)
    with IH show ?thesis
      by (cases "snd (act t l)") (auto simp: act_None dest: act_Some)
  next
    case LFin
    with IH show ?thesis by (auto simp: busy_fin)
  qed
qed

end

interpretation lane: fifo_lane ln_pending HasActive qc_id Enqueue TryActivate "\<lambda>l. fst (CompleteActive l)"
proof unfold_locales
  fix t and l :: "'j SessionLane" and c
  assume "snd (TryActivate t l) = Some c"
  then show "\<not> HasActive l \<and> HasActive (fst (TryActivate t l))
      \<and> map qc_id (ln_pending l) = qc_id c # map qc_id (ln_pending (fst (TryActivate t l)))"
    by (auto simp: TryActivate_def HasActive_def Let_def split: list.splits if_splits)
qed (auto simp: Enqueue_def HasActive_def TryActivate_def CompleteActive_def Let_def
    split: list.splits if_splits option.splits)


section \<open>What the cap overflow keeps and drops\<close>

lemma mset_map_butlast: "q \<noteq> [] \<Longrightarrow> mset (map f q) = mset (map f (butlast q)) + {#f (last q)#}"
  by (cases q rule: rev_cases) auto

lemma overflow_step_ids:
  "mset (map qc_id q) = mset (map qc_id (fst (overflow_step d q))) + mset (snd (overflow_step d q))"
proof (cases "(d, q)" rule: overflow_step.cases)
  case (6 v va)
  then show ?thesis
    using mset_map_butlast [of q qc_id] by simp
qed auto

lemma overflow_loop_ids:
  "mset (map qc_id q) = mset (map qc_id (fst (overflow_loop cap d q))) + mset (snd (overflow_loop cap d q))"
proof (induction cap d q rule: overflow_loop.induct)
  case (1 cap d q)
  show ?case
  proof (cases "int (length q) \<le> cap \<or> cap \<le> 0")
    case True
    then show ?thesis
      using overflow_step_ids [of q d] by (auto simp: overflow_loop.simps [of cap d q] Let_def)
  next
    case False
    with 1 have "mset (map qc_id (fst (overflow_step d q)))
        = mset (map qc_id (fst (overflow_loop cap d (fst (overflow_step d q)))))
          + mset (snd (overflow_loop cap d (fst (overflow_step d q))))" by auto
    with False overflow_step_ids [of q d] show ?thesis
      by (simp add: overflow_loop.simps [of cap d q] Let_def)
  qed
qed

lemma overflow_loop_unfold:
  assumes "0 < cap" and "cap < int (length q)"
  shows "fst (overflow_loop cap d q) = fst (overflow_loop cap d (fst (overflow_step d q)))"
  using assms by (subst overflow_loop.simps) (simp add: Let_def)

lemma overflow_loop_small: "int (length q) \<le> cap \<Longrightarrow> overflow_loop cap d q = (q, [])"
  by (subst overflow_loop.simps) simp

lemma overflow_loop_reject: "0 < cap \<Longrightarrow> fst (overflow_loop cap kReject q) = take (nat cap) q"
proof (induction q rule: length_induct)
  case (1 q)
  show ?case
  proof (cases "int (length q) \<le> cap")
    case True
    then show ?thesis by (simp add: overflow_loop_small)
  next
    case False
    then have q: "q \<noteq> []" "fst (overflow_step kReject q) = butlast q"
      using 1 by (cases q; auto)+
    with False 1 show ?thesis
      by (simp add: overflow_loop_unfold take_butlast)
  qed
qed

lemma overflow_loop_oldest:
  "0 < cap \<Longrightarrow> fst (overflow_loop cap kDropOldest q) = drop (length q - nat cap) q"
proof (induction q)
  case Nil
  then show ?case by (simp add: overflow_loop_small)
next
  case (Cons c q)
  show ?case
  proof (cases "int (length (c # q)) \<le> cap")
    case True
    then show ?thesis by (simp add: overflow_loop_small)
  next
    case False
    with Cons show ?thesis
      by (simp add: overflow_loop_unfold Suc_diff_le)
  qed
qed

lemma overflow_loop_summarize:
  "0 < cap \<Longrightarrow> fst (overflow_loop cap kSummarize (c # q)) =
     (let k = Suc (length q) - nat cap
      in c\<lparr>qc_message := foldl merge_messages (qc_message c) (map qc_message (take k q))\<rparr> # drop k q)"
proof (induction q arbitrary: c)
  case Nil
  then show ?case by (simp add: overflow_loop_small)
next
  case (Cons d q)
  show ?case
  proof (cases "int (length (c # d # q)) \<le> cap")
    case True
    then show ?thesis by (simp add: overflow_loop_small)
  next
    case False
    then have "Suc (length (d # q)) - nat cap = Suc (Suc (length q) - nat cap)" by auto
    with False Cons show ?thesis
      by (simp add: overflow_loop_unfold Let_def)
  qed
qed

subsection \<open>The summary text\<close>

lemma str_find_skip:
  "hd n \<notin> set a \<Longrightarrow> n \<noteq> [] \<Longrightarrow> str_find n (a @ b) = map_option ((+) (length a)) (str_find n b)"
proof (induction a)
  case Nil
  then show ?case by (simp add: option.map_ident)
next
  case (Cons c a)
  then have "\<not> is_prefix n (c # a @ b)" by (cases n) auto
  with Cons show ?case by (simp add: option.map_comp o_def)
qed

lemma str_find_here: "is_prefix n s \<Longrightarrow> str_find n s = Some 0"
  by (cases s) (auto simp: is_prefix_iff)

definition summary_text :: "nat \<Rightarrow> string \<Rightarrow> string" where
  "summary_text n body = ''[Queue summary: '' @ nat_digits n @ '' messages] '' @ body"

lemma digits_no: "\<not> is_digit c \<Longrightarrow> c \<notin> set (nat_digits n)"
  using nat_digits_is_digit by blast

lemma not_digits: "\<not> is_digit CHR '' ''" "\<not> is_digit CHR '']''" "\<not> is_digit CHR ''m''"
  by (simp_all add: is_digit_def byte_def)

lemma summary_text_tag: "str_find summary_tag (summary_text n body) = Some 0"
  by (rule str_find_here) (simp add: summary_text_def summary_tag_def)

lemma summary_text_colon: "str_find '': '' (summary_text n body) = Some 14"
  by (simp add: summary_text_def)

lemma summary_text_end: "str_find '' messages]'' (summary_text n body) = Some (16 + length (nat_digits n))"
proof -
  have "is_prefix ''messages]'' (nat_digits n @ r) = False" for r
    using nat_digits_hd [of n] not_digits(3) by (cases "nat_digits n") auto
  moreover have "str_find '' messages]'' (nat_digits n @ '' messages] '' @ body)
      = Some (length (nat_digits n))"
    using not_digits(1) by (subst str_find_skip) (auto simp: digits_no str_find_here)
  ultimately show ?thesis
    by (simp add: summary_text_def)
qed

lemma summary_text_body: "str_find ''] '' (summary_text n body) = Some (25 + length (nat_digits n))"
proof -
  have "str_find ''] '' (nat_digits n @ '' messages] '' @ body) = Some (length (nat_digits n) + 9)"
    using not_digits(2) by (subst str_find_skip) (auto simp: digits_no)
  then show ?thesis by (simp add: summary_text_def)
qed

lemma collapsed_count_summary:
  assumes "int n \<le> INT_MAX"
  shows "collapsed_count (summary_text n body) = int n"
proof -
  have "str_substr (summary_text n body) 16 (length (nat_digits n)) = Some (nat_digits n)"
    by (simp add: str_substr_def summary_text_def)
  with assms show ?thesis
    using stoi_nat_digits [of n "[]"]
    by (simp add: collapsed_count_def summary_text_tag summary_text_colon summary_text_end Let_def)
qed

lemma kept_content_summary: "kept_content (summary_text n body) = body"
proof -
  let ?head = "''[Queue summary: '' @ nat_digits n @ '' messages] ''"
  have "summary_text n body = ?head @ body" by (simp add: summary_text_def)
  moreover have "length ?head = 27 + length (nat_digits n)" by simp
  ultimately have "drop (27 + length (nat_digits n)) (summary_text n body) = body"
    by (metis append_eq_conv_conj)
  then show ?thesis
    by (simp add: kept_content_def summary_text_tag summary_text_body)
qed

lemma to_string_nat: "to_string (int n) = nat_digits n"
  by (simp add: to_string_def)

lemma merge_summary:
  assumes "int n \<le> INT_MAX"
  shows "merge_messages (summary_text n body) x = summary_text (n + 1) (body @ '' | '' @ take 150 x)"
proof -
  have "to_string (int n + 1) = nat_digits (n + 1)"
    using to_string_nat [of "n + 1"] by (simp add: add.commute)
  then show ?thesis
    unfolding merge_messages_def collapsed_count_summary [OF assms] kept_content_summary
    by (simp add: summary_text_def)
qed

lemma merge_fresh:
  assumes "str_find summary_tag m \<noteq> Some 0"
  shows "merge_messages m x = summary_text 2 (take 150 m @ '' | '' @ take 150 x)"
  using assms to_string_nat [of 2]
  by (simp add: merge_messages_def collapsed_count_def kept_content_def summary_text_def)

lemma foldl_merge:
  assumes "str_find summary_tag m \<noteq> Some 0" and "ms \<noteq> []" and "int (length ms) < INT_MAX"
  shows "foldl merge_messages m ms =
     summary_text (length ms + 1) (take 150 m @ concat (map (\<lambda>x. '' | '' @ take 150 x) ms))"
  using assms(2,3)
proof (induction ms rule: rev_induct)
  case Nil
  then show ?case by simp
next
  case (snoc x ms)
  then show ?case
    using merge_summary [of "length ms + 1"]
    by (cases "ms = []") (simp_all add: merge_fresh [OF assms(1)] numeral_2_eq_2)
qed

text \<open>The queue that each policy leaves when \<open>n\<close> commands meet a cap of \<open>cap \<ge> 1\<close>.\<close>

fun capped_queue :: "nat \<Rightarrow> DropPolicy \<Rightarrow> 'j QueuedCommand list \<Rightarrow> 'j QueuedCommand list" where
  "capped_queue cap kReject q = take cap q"
| "capped_queue cap kDropOldest q = drop (length q - cap) q"
| "capped_queue cap kSummarize [] = []"
| "capped_queue cap kSummarize (c # q) =
     (let k = Suc (length q) - cap
      in c\<lparr>qc_message := foldl merge_messages (qc_message c) (map qc_message (take k q))\<rparr> # drop k q)"

lemma overflow_loop_capped:
  "0 < cap \<Longrightarrow> fst (overflow_loop cap d q) = capped_queue (nat cap) d q"
  by (cases "(nat cap, d, q)" rule: capped_queue.cases)
    (simp_all add: overflow_loop_reject overflow_loop_oldest overflow_loop_summarize
      overflow_loop_small Let_def)

lemma capped_queue_length: "0 < cap \<Longrightarrow> length (capped_queue cap d q) = min cap (length q)"
  by (cases "(cap, d, q)" rule: capped_queue.cases) (auto simp: Let_def)

lemma subseq_take_drop: "subseq (take n xs) xs" "subseq (drop n xs) xs"
  by (auto intro: suffix_imp_subseq suffix_drop prefix_imp_subseq take_is_prefix)

lemma capped_queue_subseq: "subseq (map qc_id (capped_queue cap d q)) (map qc_id q)"
  by (cases "(cap, d, q)" rule: capped_queue.cases)
    (auto simp: Let_def subseq_take_drop simp flip: take_map drop_map)

text \<open>
  With a cap of at least one, the overflow loop terminates with at most \<open>cap\<close>
  pending commands and loses no command id silently: the ids left and the ids reported as
  dropped are together exactly the ids before, and the ones left keep their order. Reject
  keeps the oldest \<open>cap\<close>, drop-oldest the newest \<open>cap\<close>.
\<close>

theorem cap_overflow_conserves:
  assumes "1 \<le> ln_cap ln"
  shows "let r = ApplyCapOverflow ln; q = ln_pending ln; q' = ln_pending (fst r) in
     int (length q') = min (ln_cap ln) (int (length q))
   \<and> mset (map qc_id q) = mset (map qc_id q') + mset (snd r)
   \<and> subseq (map qc_id q') (map qc_id q)
   \<and> (ln_drop ln = kReject \<longrightarrow> q' = take (nat (ln_cap ln)) q)
   \<and> (ln_drop ln = kDropOldest \<longrightarrow> q' = drop (length q - nat (ln_cap ln)) q)"
proof -
  have "0 < ln_cap ln" using assms by simp
  then have cap: "0 < nat (ln_cap ln)" "0 < ln_cap ln" by simp_all
  have "int (length (capped_queue (nat (ln_cap ln)) (ln_drop ln) (ln_pending ln)))
      = min (ln_cap ln) (int (length (ln_pending ln)))"
    using cap by (subst capped_queue_length) (auto simp: min_def)
  then show ?thesis
    using cap overflow_loop_ids [of "ln_pending ln" "ln_cap ln" "ln_drop ln"] capped_queue_subseq
    by (auto simp: ApplyCapOverflow_def Let_def overflow_loop_capped overflow_loop_reject
        overflow_loop_oldest)
qed

definition demo_cmd :: "string \<Rightarrow> string \<Rightarrow> string QueuedCommand" where
  "demo_cmd cid msg =
     \<lparr>qc_id = cid, qc_session_key = ''s'', qc_message = msg, qc_params = [], qc_connection_id = ''c'',
      qc_rpc_request_id = ''r'', qc_mode = kCollect, qc_enqueued_at = 0, qc_state = stPending\<rparr>"

definition demo_lane :: "DropPolicy \<Rightarrow> string SessionLane" where
  "demo_lane d = (SessionLane_init ''s'')\<lparr>ln_cap := 1, ln_drop := d,
     ln_pending := [demo_cmd ''1'' ''one'', demo_cmd ''2'' ''two'', demo_cmd ''3'' ''three'']\<rparr>"

theorem cap_overflow_conserves_witness:
  "length (ln_pending (fst (ApplyCapOverflow (demo_lane kDropOldest)))) = 1
   \<and> map qc_id (ln_pending (fst (ApplyCapOverflow (demo_lane kDropOldest)))) = [''3'']"
  using cap_overflow_conserves [of "demo_lane kDropOldest"]
  by (simp add: demo_lane_def demo_cmd_def SessionLane_init_def Let_def)

text \<open>
  The summarize policy tells the truth: when \<open>k\<close> commands are folded into an oldest
  message that is not itself a summary, the surviving oldest command says
  "[Queue summary: k+1 messages]" and then quotes the first 150 bytes of each folded message
  in order, separated by bars; the newer commands are unchanged.
\<close>

theorem summarize_counts:
  assumes "ln_drop ln = kSummarize" and "1 \<le> ln_cap ln" and "ln_pending ln = c # q"
    and "str_find summary_tag (qc_message c) \<noteq> Some 0"
    and "ln_cap ln \<le> int (length q)" and "int (length q) < INT_MAX"
  shows "ln_pending (fst (ApplyCapOverflow ln)) =
     (let k = Suc (length q) - nat (ln_cap ln) in
      c\<lparr>qc_message := ''[Queue summary: '' @ to_string (int k + 1) @ '' messages] ''
            @ take 150 (qc_message c)
            @ concat (map (\<lambda>x. '' | '' @ take 150 (qc_message x)) (take k q))\<rparr>
      # drop k q)"
proof -
  define k where "k = Suc (length q) - nat (ln_cap ln)"
  have k: "0 < k" "k \<le> length q" using assms(2,5) by (auto simp: k_def)
  then have "take k q \<noteq> []" by (cases q) auto
  moreover have "to_string (int k + 1) = nat_digits (k + 1)"
    using to_string_nat [of "k + 1"] by (simp add: add.commute)
  ultimately show ?thesis
    using assms k foldl_merge [OF assms(4), of "map qc_message (take k q)"]
    by (simp add: ApplyCapOverflow_def overflow_loop_summarize Let_def summary_text_def o_def
        min_def flip: k_def)
qed

theorem summarize_counts_witness:
  "map qc_message (ln_pending (fst (ApplyCapOverflow (demo_lane kSummarize)))) =
     [''[Queue summary: 3 messages] one | two | three'']"
proof -
  have "to_string 3 = ''3''" by code_simp
  then show ?thesis
    using summarize_counts [of "demo_lane kSummarize" "demo_cmd ''1'' ''one''"
        "[demo_cmd ''2'' ''two'', demo_cmd ''3'' ''three'']"]
    by (simp add: demo_lane_def demo_cmd_def SessionLane_init_def Let_def summary_tag_def INT_MAX_def)
qed

end
