(* ===== verification/CmdQueue.thy ===== *)
theory CmdQueue
  imports Lanes
begin

text \<open>
  The central command queue (\<open>CommandQueue\<close> in \<open>src/gateway/command_queue.cpp\<close>):
  submission in the five modes, cancellation, abort, per-session configuration, one round of
  the dispatcher loop, and the workers it detaches. Every operation runs under the queue's
  mutex and is one state transformer; what is sent to clients is an explicit list of
  outputs. A generated command id, the clock and the iteration order of the lane table are
  arguments. The executor callback is a parameter: the events it emits and its result or
  exception text. A worker's callbacks are emitted when it finishes.
\<close>

section \<open>State\<close>

datatype 'j client_output =
  OverflowEvent string string nat string nat \<comment> \<open>connection, session, dropped, policy, pending\<close>
| QueueEvent string string string string \<comment> \<open>connection, event, command, session\<close>
| AgentEvent string string 'j
| RpcResult string string 'j
| RpcError string string string

record 'j CommandQueue =
  cq_config :: QueueConfig
  cq_lanes :: "(string, 'j SessionLane) umap"
  cq_active_count :: int
  cq_command_to_session :: "(string, string) umap"
  cq_running :: bool
  cq_workers :: "'j QueuedCommand list" \<comment> \<open>the detached threads\<close>

definition CommandQueue_init :: "QueueConfig \<Rightarrow> 'j CommandQueue" where
  "CommandQueue_init config =
     \<lparr>cq_config = config, cq_lanes = [], cq_active_count = 0, cq_command_to_session = [],
      cq_running = False, cq_workers = []\<rparr>"

definition new_lane :: "QueueConfig \<Rightarrow> string \<Rightarrow> 'j SessionLane" where
  "new_lane config session_key =
     (SessionLane_init session_key)\<lparr>ln_mode := cfg_default_mode config,
        ln_debounce_ms := cfg_debounce_ms config, ln_cap := cfg_cap config,
        ln_drop := cfg_drop config\<rparr>"

definition get_lane :: "string \<Rightarrow> 'j CommandQueue \<Rightarrow> 'j SessionLane" where
  "get_lane session_key q =
     (case map_of (cq_lanes q) session_key of
        Some lane \<Rightarrow> lane
      | None \<Rightarrow> new_lane (cq_config q) session_key)"

definition put_lane :: "string \<Rightarrow> 'j SessionLane \<Rightarrow> 'j CommandQueue \<Rightarrow> 'j CommandQueue" where
  "put_lane session_key lane q = q\<lparr>cq_lanes := AList.update session_key lane (cq_lanes q)\<rparr>"

section \<open>Submission\<close>

text \<open>The mode a command runs under: the lane's own mode when it asked for the default.\<close>

definition effective_mode :: "QueueMode \<Rightarrow> 'j SessionLane \<Rightarrow> QueueMode" where
  "effective_mode mode lane = (if mode = kCollect then ln_mode lane else mode)"

definition Submit ::
  "string \<Rightarrow> time \<Rightarrow> string \<Rightarrow> string \<Rightarrow> 'j \<Rightarrow> string \<Rightarrow> string \<Rightarrow> QueueMode
     \<Rightarrow> 'j CommandQueue \<Rightarrow> 'j CommandQueue \<times> 'j client_output list" where
  "Submit cmd_id now session_key message params connection_id rpc_request_id mode q =
     (let lane0 = get_lane session_key q;
          md = effective_mode mode lane0;
          cmd = \<lparr>qc_id = cmd_id, qc_session_key = session_key, qc_message = message,
                 qc_params = params, qc_connection_id = connection_id,
                 qc_rpc_request_id = rpc_request_id, qc_mode = md, qc_enqueued_at = now,
                 qc_state = stPending\<rparr>;
          lane1 = (if md = kInterrupt \<and> HasActive lane0 then fst (InterruptActive lane0) else lane0);
          register = (\<lambda>p. p\<lparr>cq_command_to_session :=
                              AList.update cmd_id session_key (cq_command_to_session p)\<rparr>)
      in if (md = kSteer \<or> md = kSteerBacklog) \<and> HasActive lane1
         then (register (put_lane session_key (Enqueue cmd lane1) q), [])
         else
           (let r = ApplyCapOverflow (Enqueue cmd lane1);
                lane2 = fst r;
                dropped = snd r;
                q2 = register (put_lane session_key lane2 q)
            in (q2\<lparr>cq_command_to_session := fold AList.delete dropped (cq_command_to_session q2)\<rparr>,
                if dropped = [] then []
                else [OverflowEvent connection_id session_key (length dropped)
                        (DropPolicyToString (ln_drop lane2)) (length (ln_pending lane2))])))"

definition Cancel :: "string \<Rightarrow> 'j CommandQueue \<Rightarrow> 'j CommandQueue \<times> bool" where
  "Cancel command_id q =
     (case map_of (cq_command_to_session q) command_id of
        None \<Rightarrow> (q, False)
      | Some session_key \<Rightarrow>
          (let r = CancelPending command_id (get_lane session_key q)
           in ((put_lane session_key (fst r) q)
                 \<lparr>cq_command_to_session := AList.delete command_id (cq_command_to_session q)\<rparr>,
               snd r)))"

definition AbortSession :: "string \<Rightarrow> 'j CommandQueue \<Rightarrow> 'j CommandQueue \<times> bool" where
  "AbortSession session_key q =
     (case map_of (cq_lanes q) session_key of
        None \<Rightarrow> (q, False)
      | Some lane \<Rightarrow>
          (let r = InterruptActive lane; q1 = put_lane session_key (fst r) q
           in case snd r of
                None \<Rightarrow> (q1, False)
              | Some aborted_id \<Rightarrow>
                  (q1\<lparr>cq_command_to_session := AList.delete aborted_id (cq_command_to_session q1)\<rparr>,
                   True)))"

definition ConfigureSession ::
  "string \<Rightarrow> QueueMode \<Rightarrow> int \<Rightarrow> int \<Rightarrow> string \<Rightarrow> 'j CommandQueue \<Rightarrow> 'j CommandQueue" where
  "ConfigureSession session_key mode debounce_ms cap drop_policy q =
     (let l0 = get_lane session_key q;
          l1 = l0\<lparr>ln_mode := mode\<rparr>;
          l2 = (if 0 \<le> debounce_ms then l1\<lparr>ln_debounce_ms := debounce_ms\<rparr> else l1);
          l3 = (if 0 \<le> cap then l2\<lparr>ln_cap := cap\<rparr> else l2);
          l4 = (if drop_policy \<noteq> [] then l3\<lparr>ln_drop := DropPolicyFromString drop_policy\<rparr> else l3)
      in put_lane session_key l4 q)"

definition SetConfig :: "QueueConfig \<Rightarrow> 'j CommandQueue \<Rightarrow> 'j CommandQueue" where
  "SetConfig config q = q\<lparr>cq_config := config\<rparr>"

definition StartQueue :: "'j CommandQueue \<Rightarrow> 'j CommandQueue" where
  "StartQueue q = q\<lparr>cq_running := True\<rparr>"

definition StopQueue :: "'j CommandQueue \<Rightarrow> 'j CommandQueue" where
  "StopQueue q = q\<lparr>cq_running := False\<rparr>"

text \<open>\<open>GlobalStatus\<close>: active lanes, active count, total pending, number of lanes.\<close>

definition GlobalStatus :: "'j CommandQueue \<Rightarrow> nat \<times> int \<times> nat \<times> nat" where
  "GlobalStatus q =
     (length (filter (\<lambda>(key, lane). HasActive lane) (cq_lanes q)),
      cq_active_count q,
      sum_list (map (\<lambda>(key, lane). length (ln_pending lane)) (cq_lanes q)),
      length (cq_lanes q))"

section \<open>The dispatcher\<close>

text \<open>
  Batching after an activation: collect mode drains the rest of the queue into the
  parameter \<open>collectedMessages\<close> (\<open>set_param\<close> is the JSON assignment), followup mode
  discards it when more than one command is left.
\<close>

definition batch_command ::
  "(string \<Rightarrow> string \<Rightarrow> 'j \<Rightarrow> 'j) \<Rightarrow> 'j QueuedCommand \<Rightarrow> 'j SessionLane
     \<Rightarrow> 'j QueuedCommand \<times> 'j SessionLane" where
  "batch_command set_param command lane =
     (let r1 = (if qc_mode command = kCollect \<and> HasPending lane
                then (let d = DrainPendingAsSteeringText lane
                      in (if snd d \<noteq> []
                          then command\<lparr>qc_params := set_param ''collectedMessages'' (snd d) (qc_params command)\<rparr>
                          else command, fst d))
                else (command, lane))
      in if qc_mode (fst r1) = kFollowup \<and> 1 < length (ln_pending (snd r1))
         then (fst r1, fst (DrainPendingAsSteeringText (snd r1)))
         else r1)"

text \<open>The loop over the session keys: the queue and the commands to dispatch.\<close>

fun dispatch_lanes ::
  "(string \<Rightarrow> string \<Rightarrow> 'j \<Rightarrow> 'j) \<Rightarrow> time \<Rightarrow> string list \<Rightarrow> 'j CommandQueue
     \<Rightarrow> 'j CommandQueue \<times> 'j QueuedCommand list" where
  "dispatch_lanes set_param now [] q = (q, [])"
| "dispatch_lanes set_param now (key # keys) q =
     (case map_of (cq_lanes q) key of
        None \<Rightarrow> dispatch_lanes set_param now keys q
      | Some lane \<Rightarrow>
          if HasActive lane then dispatch_lanes set_param now keys q
          else if cfg_max_concurrent (cq_config q) \<le> cq_active_count q then (q, [])
          else case TryActivate now lane of
                 (_, None) \<Rightarrow> dispatch_lanes set_param now keys q
               | (lane1, Some cmd) \<Rightarrow>
                   (let b = batch_command set_param cmd lane1;
                        q1 = (put_lane key (snd b) q)
                               \<lparr>cq_active_count := cq_active_count q + 1,
                                cq_command_to_session :=
                                  AList.delete (qc_id (fst b)) (cq_command_to_session q)\<rparr>;
                        r = dispatch_lanes set_param now keys q1
                    in (fst r, fst b # snd r)))"

definition clean_idle :: "'j CommandQueue \<Rightarrow> 'j CommandQueue" where
  "clean_idle q = q\<lparr>cq_lanes := filter (\<lambda>(key, lane). \<not> IsIdle lane) (cq_lanes q)\<rparr>"

text \<open>One pass of \<open>dispatcher_loop\<close>: collect, clean up, detach the workers.\<close>

definition dispatch_round ::
  "(string \<Rightarrow> string \<Rightarrow> 'j \<Rightarrow> 'j) \<Rightarrow> time \<Rightarrow> string list \<Rightarrow> 'j CommandQueue \<Rightarrow> 'j CommandQueue" where
  "dispatch_round set_param now keys q =
     (if \<not> cq_running q then q
      else (let r = dispatch_lanes set_param now keys q; q1 = clean_idle (fst r)
            in q1\<lparr>cq_workers := cq_workers q1 @ snd r\<rparr>))"

section \<open>Workers\<close>

text \<open>What a worker sends: started, the executor's events, the RPC answer, completed.\<close>

definition worker_outputs ::
  "'j QueuedCommand \<Rightarrow> (string \<times> 'j) list \<times> (string + 'j) \<Rightarrow> 'j client_output list" where
  "worker_outputs cmd run =
     QueueEvent (qc_connection_id cmd) ''queue.started'' (qc_id cmd) (qc_session_key cmd)
     # map (\<lambda>(name, payload). AgentEvent (qc_connection_id cmd) name payload) (fst run)
     @ (if qc_rpc_request_id cmd = [] then []
        else case snd run of
               Inr result \<Rightarrow> [RpcResult (qc_connection_id cmd) (qc_rpc_request_id cmd) result]
             | Inl what \<Rightarrow> [RpcError (qc_connection_id cmd) (qc_rpc_request_id cmd) what])
     @ [QueueEvent (qc_connection_id cmd) ''queue.completed'' (qc_id cmd) (qc_session_key cmd)]"

text \<open>\<open>execute_command\<close> of the \<open>i\<close>-th worker, up to its last lock section.\<close>

definition finish_worker ::
  "('j QueuedCommand \<Rightarrow> (string \<times> 'j) list \<times> (string + 'j)) \<Rightarrow> nat \<Rightarrow> 'j CommandQueue
     \<Rightarrow> 'j CommandQueue \<times> 'j client_output list" where
  "finish_worker executor i q =
     (if i < length (cq_workers q)
      then (let cmd = cq_workers q ! i;
                q1 = (case map_of (cq_lanes q) (qc_session_key cmd) of
                        None \<Rightarrow> q
                      | Some lane \<Rightarrow> put_lane (qc_session_key cmd) (fst (CompleteActive lane)) q)
            in (q1\<lparr>cq_active_count := cq_active_count q1 - 1,
                   cq_workers := take i (cq_workers q1) @ drop (Suc i) (cq_workers q1)\<rparr>,
                worker_outputs cmd (executor cmd)))
      else (q, []))"

section \<open>Frame lemmas\<close>

lemma put_lane_simps [simp]:
  "cq_config (put_lane k l q) = cq_config q" "cq_active_count (put_lane k l q) = cq_active_count q"
  "cq_running (put_lane k l q) = cq_running q" "cq_workers (put_lane k l q) = cq_workers q"
  "cq_command_to_session (put_lane k l q) = cq_command_to_session q"
  by (simp_all add: put_lane_def)

lemma put_lane_find [store_simps]:
  "map_of (cq_lanes (put_lane k l q)) k' = (if k' = k then Some l else map_of (cq_lanes q) k')"
  by (simp add: put_lane_def store_simps)

lemma put_lane_ok: "um_ok (cq_lanes q) \<Longrightarrow> um_ok (cq_lanes (put_lane k l q))"
  by (simp add: put_lane_def)

lemma map_of_filter: "um_ok m \<Longrightarrow> map_of (filter (\<lambda>(k, v). P v) m) k =
    (case map_of m k of None \<Rightarrow> None | Some v \<Rightarrow> if P v then Some v else None)"
  by (induction m) (auto simp: um_ok_def map_of_eq_None_iff split: option.splits)

lemma um_ok_filter: "um_ok m \<Longrightarrow> um_ok (filter P m)"
  by (auto simp: um_ok_def distinct_map_filter)

lemma Submit_frame:
  "cq_config (fst (Submit cid now s msg ps conn rpc md q)) = cq_config q"
  "cq_active_count (fst (Submit cid now s msg ps conn rpc md q)) = cq_active_count q"
  "cq_workers (fst (Submit cid now s msg ps conn rpc md q)) = cq_workers q"
  "cq_running (fst (Submit cid now s msg ps conn rpc md q)) = cq_running q"
  by (simp_all add: Submit_def Let_def)

lemma Cancel_frame:
  "cq_config (fst (Cancel cid q)) = cq_config q"
  "cq_active_count (fst (Cancel cid q)) = cq_active_count q"
  "cq_workers (fst (Cancel cid q)) = cq_workers q"
  by (auto simp: Cancel_def Let_def split: option.splits)

lemma AbortSession_frame:
  "cq_config (fst (AbortSession s q)) = cq_config q"
  "cq_active_count (fst (AbortSession s q)) = cq_active_count q"
  "cq_workers (fst (AbortSession s q)) = cq_workers q"
  by (auto simp: AbortSession_def Let_def split: option.splits)

lemma ConfigureSession_frame:
  "cq_config (ConfigureSession s md db cp dp q) = cq_config q"
  "cq_active_count (ConfigureSession s md db cp dp q) = cq_active_count q"
  "cq_workers (ConfigureSession s md db cp dp q) = cq_workers q"
  by (auto simp: ConfigureSession_def Let_def)

lemma dispatch_lanes_frame:
  "dispatch_lanes sp now keys q = (q', cs) \<Longrightarrow>
     cq_config q' = cq_config q \<and> cq_workers q' = cq_workers q \<and> cq_running q' = cq_running q
     \<and> cq_active_count q' = cq_active_count q + int (length cs)
     \<and> (cs = [] \<or> cq_active_count q' \<le> cfg_max_concurrent (cq_config q))"
proof (induction keys arbitrary: q q' cs)
  case Nil
  then show ?case by simp
next
  case (Cons k keys)
  show ?case
  proof (cases "map_of (cq_lanes q) k")
    case None
    with Cons.IH [of q q' cs] Cons.prems show ?thesis by auto
  next
    case (Some lane)
    show ?thesis
    proof (cases "HasActive lane \<or> cfg_max_concurrent (cq_config q) \<le> cq_active_count q
        \<or> snd (TryActivate now lane) = None")
      case True
      with Some Cons.IH [of q q' cs] Cons.prems show ?thesis
        by (auto split: if_splits prod.splits option.splits)
    next
      case False
      then obtain lane1 cmd where act: "TryActivate now lane = (lane1, Some cmd)"
        by (cases "TryActivate now lane") auto
      let ?b = "batch_command sp cmd lane1"
      let ?q1 = "(put_lane k (snd ?b) q)\<lparr>cq_active_count := cq_active_count q + 1,
        cq_command_to_session := AList.delete (qc_id (fst ?b)) (cq_command_to_session q)\<rparr>"
      obtain q2 cs2 where r: "dispatch_lanes sp now keys ?q1 = (q2, cs2)" by fastforce
      with False Some act Cons.prems have "q' = q2" "cs = fst ?b # cs2"
        by (auto simp: Let_def)
      with Cons.IH [OF r] False show ?thesis by auto
    qed
  qed
qed

lemma dispatch_round_config: "cq_config (dispatch_round sp now keys q) = cq_config q"
  using dispatch_lanes_frame [of sp now keys q "fst (dispatch_lanes sp now keys q)"
      "snd (dispatch_lanes sp now keys q)"]
  by (simp add: dispatch_round_def clean_idle_def Let_def)

lemma finish_worker_frame:
  "cq_config (fst (finish_worker ex i q)) = cq_config q"
  "cq_active_count (fst (finish_worker ex i q)) =
     (if i < length (cq_workers q) then cq_active_count q - 1 else cq_active_count q)"
  "cq_workers (fst (finish_worker ex i q)) = take i (cq_workers q) @ drop (Suc i) (cq_workers q)"
  "cq_running (fst (finish_worker ex i q)) = cq_running q"
  by (auto simp: finish_worker_def Let_def split: option.splits)

lemma dispatch_round_frame:
  "\<exists>cs. cq_workers (dispatch_round sp now keys q) = cq_workers q @ cs
     \<and> cq_active_count (dispatch_round sp now keys q) = cq_active_count q + int (length cs)
     \<and> (cs = [] \<or> cq_active_count (dispatch_round sp now keys q) \<le> cfg_max_concurrent (cq_config q))"
  using dispatch_lanes_frame [of sp now keys q "fst (dispatch_lanes sp now keys q)"
      "snd (dispatch_lanes sp now keys q)"]
  by (auto simp: dispatch_round_def clean_idle_def Let_def)

section \<open>Runs of the queue\<close>

datatype 'j queue_op =
  QSubmit string time string string 'j string string QueueMode
| QCancel string
| QAbort string
| QConfigure string QueueMode int int string
| QSetConfig QueueConfig
| QStart
| QStop
| QRound time "string list"
| QFinish nat

fun queue_next ::
  "(string \<Rightarrow> string \<Rightarrow> 'j \<Rightarrow> 'j) \<Rightarrow> 'j CommandQueue \<Rightarrow> 'j queue_op \<Rightarrow> 'j CommandQueue" where
  "queue_next sp q (QSubmit cid now s msg ps conn rpc md) = fst (Submit cid now s msg ps conn rpc md q)"
| "queue_next sp q (QCancel cid) = fst (Cancel cid q)"
| "queue_next sp q (QAbort s) = fst (AbortSession s q)"
| "queue_next sp q (QConfigure s md db cp dp) = ConfigureSession s md db cp dp q"
| "queue_next sp q (QSetConfig c) = SetConfig c q"
| "queue_next sp q QStart = StartQueue q"
| "queue_next sp q QStop = StopQueue q"
| "queue_next sp q (QRound now keys) = dispatch_round sp now keys q"
| "queue_next sp q (QFinish i) = fst (finish_worker (\<lambda>_. ([], Inl [])) i q)"

subsection \<open>The global concurrency limit\<close>

text \<open>The limit may be raised at run time.\<close>

fun limit_not_lowered :: "'j CommandQueue \<Rightarrow> 'j queue_op \<Rightarrow> bool" where
  "limit_not_lowered q (QSetConfig c) = (cfg_max_concurrent (cq_config q) \<le> cfg_max_concurrent c)"
| "limit_not_lowered q _ = True"

definition workers_counted :: "'j CommandQueue \<Rightarrow> bool" where
  "workers_counted q \<longleftrightarrow> cq_active_count q = int (length (cq_workers q))
     \<and> cq_active_count q \<le> max 0 (cfg_max_concurrent (cq_config q))"

interpretation counted: guarded_machine
  "\<lambda>q :: 'j CommandQueue. \<exists>c. q = CommandQueue_init c" limit_not_lowered "queue_next sp" workers_counted
  for sp :: "string \<Rightarrow> string \<Rightarrow> 'j \<Rightarrow> 'j"
proof unfold_locales
  fix q :: "'j CommandQueue" and op
  assume inv: "workers_counted q" and en: "limit_not_lowered q op"
  show "workers_counted (queue_next sp q op)"
  proof (cases op)
    case (QRound now keys)
    obtain cs where "cq_workers (dispatch_round sp now keys q) = cq_workers q @ cs"
      "cq_active_count (dispatch_round sp now keys q) = cq_active_count q + int (length cs)"
      "cs = [] \<or> cq_active_count (dispatch_round sp now keys q) \<le> cfg_max_concurrent (cq_config q)"
      using dispatch_round_frame by blast
    with QRound inv show ?thesis
      by (auto simp: workers_counted_def dispatch_round_config)
  next
    case (QFinish i)
    with inv show ?thesis
      by (auto simp: workers_counted_def finish_worker_frame min_def)
  next
    case (QSetConfig c)
    with inv en show ?thesis by (auto simp: workers_counted_def SetConfig_def max_def split: if_splits)
  qed (use inv en in \<open>simp_all add: workers_counted_def Submit_frame Cancel_frame AbortSession_frame ConfigureSession_frame
      SetConfig_def StartQueue_def StopQueue_def\<close>)
qed (auto simp: workers_counted_def CommandQueue_init_def)


definition demo_run :: "unit queue_op list" where
  "demo_run =
     [QStart, QSubmit ''a1'' 0 ''a'' ''x'' () ''c'' ''r1'' kFollowup,
      QSubmit ''b1'' 0 ''b'' ''y'' () ''c'' ''r2'' kFollowup, QRound (secs 1) [''a'', ''b'']]"


subsection \<open>Per-session serialization\<close>

definition busy_session :: "'j CommandQueue \<Rightarrow> string \<Rightarrow> bool" where
  "busy_session q k \<longleftrightarrow> (\<exists>lane. map_of (cq_lanes q) k = Some lane \<and> HasActive lane)"

text \<open>Lanes hold their own session's commands, and a lane is busy iff a worker runs for it.\<close>

definition serial :: "'j CommandQueue \<Rightarrow> 'j QueuedCommand list \<Rightarrow> bool" where
  "serial q ws \<longleftrightarrow> um_ok (cq_lanes q) \<and> distinct (map qc_session_key ws)
     \<and> (\<forall>k. k \<in> qc_session_key ` set ws \<longleftrightarrow> busy_session q k)
     \<and> (\<forall>k lane c. map_of (cq_lanes q) k = Some lane \<longrightarrow> c \<in> set (ln_pending lane) \<longrightarrow> qc_session_key c = k)"

definition lane_of :: "string \<Rightarrow> 'j SessionLane \<Rightarrow> bool" where
  "lane_of k lane \<longleftrightarrow> (\<forall>c \<in> set (ln_pending lane). qc_session_key c = k)"

lemma get_lane_serial:
  "serial q ws \<Longrightarrow> lane_of k (get_lane k q) \<and> HasActive (get_lane k q) = busy_session q k"
  by (auto simp: serial_def lane_of_def get_lane_def new_lane_def SessionLane_init_def HasActive_def
      busy_session_def split: option.splits)

text \<open>Writing back a lane with the same busy flag.\<close>

lemma put_lane_serial:
  assumes "serial q ws" and "lane_of k l" and "HasActive l = busy_session q k"
    and "cq_lanes q' = cq_lanes (put_lane k l q)"
  shows "serial q' ws"
  using assms
  by (auto simp: serial_def busy_session_def lane_of_def put_lane_def store_simps split: if_splits)

lemma overflow_loop_sessions:
  "\<forall>c \<in> set q. qc_session_key c = k \<Longrightarrow> \<forall>c \<in> set (fst (overflow_loop cap d q)). qc_session_key c = k"
proof (induction cap d q rule: overflow_loop.induct)
  case (1 cap d q)
  have "\<forall>c \<in> set (fst (overflow_step d q)). qc_session_key c = k"
    using "1.prems" by (cases "(d, q)" rule: overflow_step.cases) (auto dest: in_set_butlastD)
  with 1 show ?case by (subst overflow_loop.simps) (auto simp: Let_def)
qed

lemma set_keep_newest: "set (keep_newest q) \<subseteq> set q"
  by (induction q rule: keep_newest.induct) auto

lemma set_cancel_first: "set (fst (cancel_first cid q)) \<subseteq> set q"
  by (induction q) (auto simp: Let_def)

lemma lane_of_ops:
  assumes "lane_of k l"
  shows "qc_session_key c = k \<Longrightarrow> lane_of k (Enqueue c l)"
    "lane_of k (fst (ApplyCapOverflow l))"
    "lane_of k (fst (InterruptActive l))" "lane_of k (fst (CancelPending cid l))"
    "lane_of k (fst (DrainPendingAsSteeringText l))" "lane_of k (fst (CompleteActive l))"
  using assms overflow_loop_sessions [of "ln_pending l" k "ln_cap l" "ln_drop l"]
    set_keep_newest [of "ln_pending l"] set_cancel_first [of cid "ln_pending l"]
  by (auto simp: lane_of_def Enqueue_def ApplyCapOverflow_def InterruptActive_def CancelPending_def
      DrainPendingAsSteeringText_def CompleteActive_def Let_def split: option.splits)

lemma active_ops [simp]:
  "HasActive (Enqueue c l) = HasActive l" "HasActive (fst (ApplyCapOverflow l)) = HasActive l"
  "\<not> HasActive (fst (InterruptActive l))" "HasActive (fst (CancelPending cid l)) = HasActive l"
  "HasActive (fst (DrainPendingAsSteeringText l)) = HasActive l" "\<not> HasActive (fst (CompleteActive l))"
  by (auto simp: HasActive_def Enqueue_def ApplyCapOverflow_def InterruptActive_def CancelPending_def
      DrainPendingAsSteeringText_def CompleteActive_def Let_def split: option.splits)

text \<open>The runs in question: nothing that would interrupt a running command.\<close>

fun no_interrupt :: "'j CommandQueue \<Rightarrow> 'j queue_op \<Rightarrow> bool" where
  "no_interrupt q (QSubmit cid now s msg ps conn rpc md) =
     (\<not> (effective_mode md (get_lane s q) = kInterrupt \<and> busy_session q s))"
| "no_interrupt q (QAbort s) = (\<not> busy_session q s)"
| "no_interrupt q _ = True"

lemma Submit_serial:
  assumes "serial q ws" and "\<not> (effective_mode md (get_lane s q) = kInterrupt \<and> busy_session q s)"
  shows "serial (fst (Submit cid now s msg ps conn rpc md q)) ws"
proof -
  let ?l0 = "get_lane s q"
  have l0: "lane_of s ?l0" "HasActive ?l0 = busy_session q s"
    using get_lane_serial [OF assms(1)] by auto
  then have no: "\<not> (effective_mode md ?l0 = kInterrupt \<and> HasActive ?l0)"
    using assms(2) by simp
  have "\<exists>l. cq_lanes (fst (Submit cid now s msg ps conn rpc md q)) = cq_lanes (put_lane s l q)
      \<and> lane_of s l \<and> HasActive l = HasActive ?l0"
    unfolding Submit_def Let_def if_not_P [OF no]
    by (simp add: put_lane_def) (metis l0(1) lane_of_ops(1,2) active_ops(1,2) QueuedCommand.select_convs(2))
  with l0(2) put_lane_serial [OF assms(1)] show ?thesis by metis
qed

lemma batch_serial:
  assumes "batch_command sp cmd l = (cmd', l')" and "lane_of k l"
  shows "lane_of k l' \<and> HasActive l' = HasActive l \<and> qc_session_key cmd' = qc_session_key cmd"
  using assms by (auto simp: batch_command_def Let_def lane_of_ops split: if_splits)

lemma TryActivate_serial:
  assumes "TryActivate now l = (l', Some cmd)" and "lane_of k l"
  shows "lane_of k l' \<and> HasActive l' \<and> \<not> HasActive l \<and> qc_session_key cmd = k"
  using assms by (auto simp: TryActivate_def lane_of_def HasActive_def Let_def split: list.splits if_splits)

lemma dispatch_lanes_serial:
  "serial q ws \<Longrightarrow> dispatch_lanes sp now keys q = (q', cs) \<Longrightarrow> serial q' (ws @ cs)"
proof (induction keys arbitrary: q q' ws cs)
  case Nil
  then show ?case by simp
next
  case (Cons k keys)
  show ?case
  proof (cases "\<exists>lane lane1 cmd. map_of (cq_lanes q) k = Some lane \<and> \<not> HasActive lane
      \<and> \<not> cfg_max_concurrent (cq_config q) \<le> cq_active_count q \<and> TryActivate now lane = (lane1, Some cmd)")
    case False
    with Cons show ?thesis by (auto split: option.splits if_splits prod.splits)
  next
    case True
    then obtain lane lane1 cmd where act: "map_of (cq_lanes q) k = Some lane"
      "\<not> HasActive lane" "\<not> cfg_max_concurrent (cq_config q) \<le> cq_active_count q"
      "TryActivate now lane = (lane1, Some cmd)" by blast
    obtain cmd2 lane2 where b: "batch_command sp cmd lane1 = (cmd2, lane2)" by fastforce
    let ?q1 = "(put_lane k lane2 q)\<lparr>cq_active_count := cq_active_count q + 1,
        cq_command_to_session := AList.delete (qc_id cmd2) (cq_command_to_session q)\<rparr>"
    obtain q2 cs2 where r: "dispatch_lanes sp now keys ?q1 = (q2, cs2)" by fastforce
    with act b Cons.prems have res: "q' = q2" "cs = cmd2 # cs2" by (auto simp: Let_def)
    have "lane_of k lane" using Cons.prems(1) act(1) by (auto simp: serial_def lane_of_def)
    then have l2: "lane_of k lane2" "HasActive lane2" "qc_session_key cmd2 = k"
      using TryActivate_serial [OF act(4)] batch_serial [OF b] by auto
    have "k \<notin> qc_session_key ` set ws"
      using Cons.prems(1) act(1,2) by (auto simp: serial_def busy_session_def)
    with Cons.prems(1) l2 have "serial ?q1 (ws @ [cmd2])"
      by (auto simp: serial_def busy_session_def lane_of_def put_lane_def store_simps split: if_splits)
    from Cons.IH [OF this r] res show ?thesis by simp
  qed
qed

lemma clean_idle_serial: "serial q ws \<Longrightarrow> serial (clean_idle q) ws"
  by (auto simp: serial_def busy_session_def clean_idle_def map_of_filter um_ok_filter IsIdle_def
      split: option.splits if_splits)

lemma Cancel_serial:
  assumes "serial q ws"
  shows "serial (fst (Cancel cid q)) ws"
proof (cases "map_of (cq_command_to_session q) cid")
  case (Some s)
  let ?l = "fst (CancelPending cid (get_lane s q))"
  have "lane_of s ?l" "HasActive ?l = busy_session q s"
    using get_lane_serial [OF assms, of s] by (simp_all add: lane_of_ops)
  moreover have "cq_lanes (fst (Cancel cid q)) = cq_lanes (put_lane s ?l q)"
    using Some by (simp add: Cancel_def Let_def)
  ultimately show ?thesis by (rule put_lane_serial [OF assms])
qed (use assms in \<open>simp add: Cancel_def\<close>)

lemma Abort_serial: "serial q ws \<Longrightarrow> \<not> busy_session q s \<Longrightarrow> serial (fst (AbortSession s q)) ws"
proof (cases "map_of (cq_lanes q) s")
  case (Some lane)
  assume q: "serial q ws" "\<not> busy_session q s"
  with Some have "lane_of s lane" by (auto simp: serial_def lane_of_def)
  then have "serial (put_lane s (fst (InterruptActive lane)) q) ws"
    using q by (intro put_lane_serial [OF q(1)]) (auto simp: lane_of_ops)
  moreover have "serial (p\<lparr>cq_command_to_session := m\<rparr>) ws = serial p ws" for p m
    by (simp add: serial_def busy_session_def)
  ultimately show ?thesis
    using Some by (auto simp: AbortSession_def Let_def split: option.splits)
qed (simp add: AbortSession_def)

lemma Configure_serial:
  assumes "serial q ws"
  shows "serial (ConfigureSession s md db cp dp q) ws"
proof -
  have "\<exists>l. ConfigureSession s md db cp dp q = put_lane s l q
      \<and> ln_pending l = ln_pending (get_lane s q) \<and> HasActive l = HasActive (get_lane s q)"
    by (rule exI, unfold ConfigureSession_def Let_def, rule conjI [OF refl]) (simp add: HasActive_def)
  with get_lane_serial [OF assms, of s] show ?thesis
    by (metis put_lane_serial [OF assms] lane_of_def)
qed

lemma finish_serial:
  assumes "serial q (cq_workers q)"
  shows "serial (fst (finish_worker ex i q)) (cq_workers (fst (finish_worker ex i q)))"
proof (cases "i < length (cq_workers q)")
  case False
  with assms show ?thesis by (simp add: finish_worker_def)
next
  case True
  let ?ws = "cq_workers q" and ?k = "qc_session_key (cq_workers q ! i)"
  define rest where "rest = take i ?ws @ drop (Suc i) ?ws"
  have ws: "?ws = take i ?ws @ ?ws ! i # drop (Suc i) ?ws" using True by (simp add: id_take_nth_drop)
  then have "distinct (map qc_session_key (take i ?ws @ ?ws ! i # drop (Suc i) ?ws))"
    using assms by (simp add: serial_def)
  then have rest: "distinct (map qc_session_key rest)" "?k \<notin> qc_session_key ` set rest"
    by (auto simp: rest_def)
  have mem: "k \<in> qc_session_key ` set ?ws \<longleftrightarrow> k = ?k \<or> k \<in> qc_session_key ` set rest" for k
    by (subst ws) (auto simp: rest_def)
  obtain lane where lane: "map_of (cq_lanes q) ?k = Some lane" "HasActive lane"
    using assms mem [of ?k] by (auto simp: serial_def busy_session_def)
  then have eq: "cq_lanes (fst (finish_worker ex i q)) = cq_lanes (put_lane ?k (fst (CompleteActive lane)) q)"
    "cq_workers (fst (finish_worker ex i q)) = rest"
    using True by (auto simp: finish_worker_def Let_def rest_def)
  have "lane_of ?k lane" using assms lane(1) by (auto simp: serial_def lane_of_def)
  from lane_of_ops(6) [OF this] show ?thesis
    using assms rest mem
    by (auto simp: serial_def busy_session_def eq lane_of_def put_lane_def store_simps split: if_splits)
qed

lemma dispatch_round_serial:
  assumes "serial q (cq_workers q)"
  shows "serial (dispatch_round sp now keys q) (cq_workers (dispatch_round sp now keys q))"
proof (cases "cq_running q")
  case True
  obtain q1 cs where r: "dispatch_lanes sp now keys q = (q1, cs)" by fastforce
  have "serial (clean_idle q1) (cq_workers q1 @ cs)"
    using clean_idle_serial [OF dispatch_lanes_serial [OF assms r]] dispatch_lanes_frame [OF r] by simp
  with r True show ?thesis
    by (simp add: dispatch_round_def Let_def serial_def busy_session_def clean_idle_def)
qed (use assms in \<open>simp add: dispatch_round_def\<close>)

interpretation serialized: guarded_machine
  "\<lambda>q :: 'j CommandQueue. \<exists>c. q = CommandQueue_init c" no_interrupt "queue_next sp"
  "\<lambda>q. serial q (cq_workers q)"
  for sp :: "string \<Rightarrow> string \<Rightarrow> 'j \<Rightarrow> 'j"
proof unfold_locales
  fix q :: "'j CommandQueue" and op
  assume inv: "serial q (cq_workers q)" and en: "no_interrupt q op"
  show "serial (queue_next sp q op) (cq_workers (queue_next sp q op))"
  proof (cases op)
    case (QSubmit cid now s msg ps conn rpc md)
    with en have "\<not> (effective_mode md (get_lane s q) = kInterrupt \<and> busy_session q s)" by simp
    from Submit_serial [OF inv this] QSubmit show ?thesis by (simp add: Submit_frame)
  next
    case (QAbort s)
    with en Abort_serial [OF inv, of s] show ?thesis by (simp add: AbortSession_frame)
  qed (use inv in \<open>simp_all add: Cancel_serial Cancel_frame Configure_serial ConfigureSession_frame
      finish_serial dispatch_round_serial\<close>, simp_all add: serial_def busy_session_def SetConfig_def
      StartQueue_def StopQueue_def)
qed (auto simp: serial_def busy_session_def CommandQueue_init_def)

text \<open>
  Claim C1. Per-session serialization: in every run in which no running command is interrupted
  or aborted, at most one worker runs for a session, and a lane is marked active exactly while
  its worker runs.
\<close>

theorem session_serialization:
  fixes q :: "'j CommandQueue"
  assumes "serialized.enabled_run sp (CommandQueue_init c) ops"
    and "q = foldl (queue_next sp) (CommandQueue_init c) ops"
  shows "distinct (map qc_session_key (cq_workers q))
     \<and> ((\<exists>w \<in> set (cq_workers q). qc_session_key w = k) \<longleftrightarrow> busy_session q k)"
proof -
  have "serial q (cq_workers q)"
    using serialized.inv_from_start [OF _ assms(1)] assms(2) by blast
  then have "distinct (map qc_session_key (cq_workers q))"
    "k \<in> qc_session_key ` set (cq_workers q) \<longleftrightarrow> busy_session q k"
    by (auto simp: serial_def)
  then show ?thesis by blast
qed

theorem session_serialization_witness:
  "distinct (map qc_session_key (cq_workers (foldl (queue_next (\<lambda>_ _ p. p))
      (CommandQueue_init QueueConfig_default) demo_run)))"
proof -
  have "serialized.enabled_run (\<lambda>_ _ p. p) (CommandQueue_init QueueConfig_default) demo_run"
    by (simp add: demo_run_def effective_mode_def)
  from session_serialization [OF this refl] show ?thesis by simp
qed

section \<open>Collecting, steering, interrupting\<close>

lemma join_messages_intersperse:
  "\<forall>c \<in> set q. qc_message c \<noteq> [] \<Longrightarrow> acc \<noteq> [] \<Longrightarrow>
     join_messages acc q = acc @ concat (map (\<lambda>c. [CHR 0x0A, CHR 0x0A] @ qc_message c) q)"
  by (induction q arbitrary: acc) auto

text \<open>
  Collect mode batches completely: when a command in collect mode is activated and
  more (non-empty) messages wait behind it, it carries all of them, in order and separated by
  blank lines, in \<open>collectedMessages\<close>, and the lane has nothing left to run.
\<close>

theorem collect_batches_all:
  assumes "TryActivate now lane = (lane1, Some cmd)" and "qc_mode cmd = kCollect"
    and "ln_pending lane = front # c # rest" and "\<forall>d \<in> set (c # rest). qc_message d \<noteq> []"
  shows "batch_command set_param cmd lane1 =
     (cmd\<lparr>qc_params := set_param ''collectedMessages''
            (str_join [CHR 0x0A, CHR 0x0A] (map qc_message (c # rest))) (qc_params cmd)\<rparr>,
      lane1\<lparr>ln_pending := []\<rparr>)
     \<and> qc_id cmd = qc_id front"
proof -
  have pend: "ln_pending lane1 = c # rest" "qc_id cmd = qc_id front"
    using assms(1,3) by (auto simp: TryActivate_def Let_def split: if_splits)
  have "join_messages [] (c # rest) = str_join [CHR 0x0A, CHR 0x0A] (map qc_message (c # rest))"
    using assms(4) join_messages_intersperse [of rest "qc_message c"]
    by (simp add: str_join_Cons o_def del: str_join.simps)
  moreover have "join_messages [] (c # rest) \<noteq> []"
    using assms(4) join_messages_intersperse [of rest "qc_message c"] by simp
  ultimately show ?thesis
    using pend assms(2)
    by (simp add: batch_command_def HasPending_def DrainPendingAsSteeringText_def Let_def
        del: join_messages.simps str_join.simps)
qed

theorem collect_batches_all_witness:
  "let r = TryActivate (secs 1) (demo_lane kSummarize) in
     qc_params (fst (batch_command (\<lambda>k v p. v) (the (snd r)) (fst r)))
       = ''two'' @ [CHR 0x0A, CHR 0x0A] @ ''three''"
proof -
  have act: "TryActivate (secs 1) (demo_lane kSummarize) =
     ((demo_lane kSummarize)\<lparr>ln_pending := [demo_cmd ''2'' ''two'', demo_cmd ''3'' ''three''],
        ln_active := Some (demo_cmd ''1'' ''one''\<lparr>qc_state := stActive\<rparr>)\<rparr>,
      Some (demo_cmd ''1'' ''one''\<lparr>qc_state := stActive\<rparr>))"
    by (simp add: TryActivate_def demo_lane_def demo_cmd_def SessionLane_init_def HasActive_def
        secs_def to_msecs_def cdiv_def Let_def)
  have "qc_mode (demo_cmd ''1'' ''one''\<lparr>qc_state := stActive\<rparr>) = kCollect"
    "ln_pending (demo_lane kSummarize)
       = demo_cmd ''1'' ''one'' # demo_cmd ''2'' ''two'' # [demo_cmd ''3'' ''three'']"
    "\<forall>d \<in> set (demo_cmd ''2'' ''two'' # [demo_cmd ''3'' ''three'']). qc_message d \<noteq> []"
    by (simp_all add: demo_cmd_def demo_lane_def)
  from collect_batches_all [OF act this, of "\<lambda>k v p. v"] show ?thesis
    by (simp add: act Let_def) (simp add: demo_cmd_def)
qed

lemma dispatch_lanes_keeps:
  assumes "map_of (cq_lanes q) k = Some lane"
    and "HasActive lane \<or> ln_pending lane = []"
  shows "map_of (cq_lanes (fst (dispatch_lanes sp now keys q))) k = Some lane"
  using assms(1)
proof (induction keys arbitrary: q)
  case Nil
  then show ?case by simp
next
  case (Cons k' keys)
  show ?case
  proof (cases "\<exists>l lane1 cmd. map_of (cq_lanes q) k' = Some l \<and> \<not> HasActive l
      \<and> \<not> cfg_max_concurrent (cq_config q) \<le> cq_active_count q \<and> TryActivate now l = (lane1, Some cmd)")
    case False
    with Cons show ?thesis by (auto split: option.splits prod.splits)
  next
    case True
    then obtain l lane1 cmd where act: "map_of (cq_lanes q) k' = Some l" "\<not> HasActive l"
      "\<not> cfg_max_concurrent (cq_config q) \<le> cq_active_count q" "TryActivate now l = (lane1, Some cmd)"
      by blast
    then have "k' \<noteq> k" using Cons.prems assms(2) by (auto simp: TryActivate_def)
    with act Cons show ?thesis by (auto simp: Let_def put_lane_def store_simps)
  qed
qed

text \<open>
  Steering does not reach a running command: a steer submission to a busy session is
  appended to the lane's pending queue without applying the cap, and no dispatcher round touches
  the lane while its command is active, so the text is only delivered as a later command.
\<close>

theorem steer_only_queues:
  assumes "um_ok (cq_lanes q)" and "map_of (cq_lanes q) s = Some lane" and "HasActive lane"
    and "mode = kSteer \<or> mode = kSteerBacklog"
    and "q' = fst (Submit cid now s msg params conn rpc mode q)"
  shows "\<exists>lane'. map_of (cq_lanes q') s = Some lane'
     \<and> map qc_message (ln_pending lane') = map qc_message (ln_pending lane) @ [msg]
     \<and> ln_active lane' = ln_active lane
     \<and> map_of (cq_lanes (dispatch_round sp later keys q')) s = Some lane'"
proof -
  have "effective_mode mode lane = mode" "get_lane s q = lane"
    using assms(2,4) by (auto simp: effective_mode_def get_lane_def)
  then obtain c where q': "cq_lanes q' = AList.update s (Enqueue c lane) (cq_lanes q)"
      "qc_message c = msg" "cq_running q' = cq_running q"
    using assms(3,4,5) by (auto simp: Submit_def Let_def put_lane_def)
  then have l: "map_of (cq_lanes q') s = Some (Enqueue c lane)" "HasActive (Enqueue c lane)"
    using assms(3) by (simp_all add: store_simps)
  have ok: "um_ok (cq_lanes (fst (dispatch_lanes sp later keys p)))" if "um_ok (cq_lanes p)" for p
    using that
    by (induction keys arbitrary: p)
      (auto simp: Let_def put_lane_def split: option.splits prod.splits)
  have "map_of (cq_lanes (dispatch_round sp later keys q')) s = Some (Enqueue c lane)"
    using l dispatch_lanes_keeps [OF l(1), of sp later keys] ok [of q'] assms(1) q'(1)
    by (auto simp: dispatch_round_def Let_def clean_idle_def map_of_filter IsIdle_def)
  with l q'(2) show ?thesis by (auto simp: Enqueue_def)
qed

theorem steer_only_queues_witness:
  "\<exists>lane'. map_of (cq_lanes (fst (Submit ''9'' 5 ''s'' ''now!'' [] ''c'' [] kSteer
       ((CommandQueue_init QueueConfig_default)\<lparr>cq_lanes :=
          [(''s'', (demo_lane kReject)\<lparr>ln_active := Some (demo_cmd ''0'' ''zero'')\<rparr>)]\<rparr>)))) ''s'' = Some lane'
     \<and> length (ln_pending lane') = 4"
proof -
  let ?l = "(demo_lane kReject)\<lparr>ln_active := Some (demo_cmd ''0'' ''zero'')\<rparr>"
  let ?q = "(CommandQueue_init QueueConfig_default)\<lparr>cq_lanes := [(''s'', ?l)]\<rparr>"
  have "um_ok (cq_lanes ?q)" "map_of (cq_lanes ?q) ''s'' = Some ?l" "HasActive ?l"
    by (simp_all add: um_ok_def HasActive_def)
  from steer_only_queues [OF this disjI1 [OF refl] refl, of "''9''" 5 "''now!''" "[]" "''c''" "[]"]
  obtain lane' where
    "map_of (cq_lanes (fst (Submit ''9'' 5 ''s'' ''now!'' [] ''c'' [] kSteer ?q))) ''s'' = Some lane'"
    "map qc_message (ln_pending lane') = map qc_message (ln_pending ?l) @ [''now!'']" by blast
  moreover from this(2) have "length (ln_pending lane') = 4"
    using length_map [of qc_message "ln_pending lane'"] by (simp add: demo_lane_def)
  ultimately show ?thesis by blast
qed

lemma keep_newest_snoc: "keep_newest (xs @ [p]) = [p]"
  by (induction "xs @ [p]" arbitrary: xs rule: keep_newest.induct) (auto simp: Cons_eq_append_conv)

text \<open>
  What an interrupt does to a busy session with older messages waiting: the running
  command's worker is not stopped, the lane is merely marked idle, the newest older message
  survives, and the interrupting message is queued behind it.
\<close>

theorem interrupt_order:
  assumes "map_of (cq_lanes q) s = Some lane" and "HasActive lane"
    and "ln_pending lane = older @ [p]" and "2 \<le> ln_cap lane"
    and "q' = fst (Submit cid now s msg params conn rpc kInterrupt q)"
  shows "cq_workers q' = cq_workers q
     \<and> (\<exists>lane'. map_of (cq_lanes q') s = Some lane' \<and> \<not> HasActive lane'
          \<and> map qc_id (ln_pending lane') = [qc_id p, cid])"
proof -
  let ?l = "fst (InterruptActive lane)"
  have l: "ln_pending ?l = [p]" "ln_cap ?l = ln_cap lane" "\<not> HasActive ?l"
    using assms(3) by (simp_all add: InterruptActive_def keep_newest_snoc HasActive_def)
  have "effective_mode kInterrupt lane = kInterrupt" "get_lane s q = lane"
    using assms(1) by (simp_all add: effective_mode_def get_lane_def)
  define c where "c = \<lparr>qc_id = cid, qc_session_key = s, qc_message = msg, qc_params = params,
      qc_connection_id = conn, qc_rpc_request_id = rpc, qc_mode = kInterrupt,
      qc_enqueued_at = now, qc_state = stPending\<rparr>"
  with \<open>get_lane s q = lane\<close> \<open>effective_mode kInterrupt lane = kInterrupt\<close> have c: "qc_id c = cid"
      "cq_lanes q' = AList.update s (fst (ApplyCapOverflow (Enqueue c ?l))) (cq_lanes q)"
    using assms(2,5) l(3) by (simp_all add: Submit_def Let_def put_lane_def)
  have "fst (ApplyCapOverflow (Enqueue c ?l)) = Enqueue c ?l"
    using l(1,2) assms(4) by (simp add: ApplyCapOverflow_def Let_def Enqueue_def overflow_loop_small)
  then have "map_of (cq_lanes q') s = Some (Enqueue c ?l)"
    using c(2) by (simp add: store_simps)
  moreover have "map qc_id (ln_pending (Enqueue c ?l)) = [qc_id p, cid]"
    using l(1) c(1) by (simp add: Enqueue_def)
  ultimately show ?thesis
    using l(3) assms(5) by (simp add: Submit_frame)
qed

theorem interrupt_order_witness:
  "\<exists>lane'. map_of (cq_lanes (fst (Submit ''9'' 5 ''s'' ''stop'' [] ''c'' [] kInterrupt
       ((CommandQueue_init QueueConfig_default)\<lparr>cq_lanes :=
          [(''s'', (demo_lane kReject)\<lparr>ln_cap := 20, ln_active := Some (demo_cmd ''0'' ''zero'')\<rparr>)]\<rparr>))))
       ''s'' = Some lane'
     \<and> map qc_id (ln_pending lane') = [''3'', ''9'']"
proof -
  let ?l = "(demo_lane kReject)\<lparr>ln_cap := 20, ln_active := Some (demo_cmd ''0'' ''zero'')\<rparr>"
  let ?q = "(CommandQueue_init QueueConfig_default)\<lparr>cq_lanes := [(''s'', ?l)]\<rparr>"
  have "map_of (cq_lanes ?q) ''s'' = Some ?l" "HasActive ?l"
    "ln_pending ?l = [demo_cmd ''1'' ''one'', demo_cmd ''2'' ''two''] @ [demo_cmd ''3'' ''three'']"
    "2 \<le> ln_cap ?l"
    by (simp_all add: HasActive_def demo_lane_def)
  from interrupt_order [OF this refl, of "''9''" 5 "''stop''" "[]" "''c''" "[]"] show ?thesis
    by (auto simp: demo_cmd_def)
qed

text \<open>A run with one interrupt: two submissions, two dispatcher rounds.\<close>

definition interrupt_run :: "unit queue_op list" where
  "interrupt_run =
     [QStart, QSubmit ''A'' 0 ''s'' ''long job'' () ''c'' ''r1'' kFollowup, QRound (secs 1) [''s''],
      QSubmit ''B'' (secs 1) ''s'' ''stop, do this'' () ''c'' ''r2'' kInterrupt, QRound (secs 2) [''s'']]"

definition keep_params :: "string \<Rightarrow> string \<Rightarrow> unit \<Rightarrow> unit" where
  "keep_params k v p = p"

definition interrupted_queue :: "unit CommandQueue" where
  "interrupted_queue =
     foldl (queue_next keep_params) (CommandQueue_init QueueConfig_default) interrupt_run"

lemma interrupted_queue_eval:
  "map qc_id (cq_workers interrupted_queue) = [''A'', ''B'']
   \<and> map qc_session_key (cq_workers interrupted_queue) = [''s'', ''s'']
   \<and> map_option HasActive (map_of (cq_lanes interrupted_queue) ''s'') = Some True
   \<and> map_option HasActive (map_of (cq_lanes
        (queue_next keep_params interrupted_queue (QFinish 0))) ''s'') = Some False
   \<and> map qc_id (cq_workers (queue_next keep_params interrupted_queue (QFinish 0))) = [''B'']
   \<and> map qc_session_key (cq_workers (queue_next keep_params interrupted_queue (QFinish 0))) = [''s'']"
  by code_simp


text \<open>
  A session's configuration does not survive idleness: after \<open>ConfigureSession\<close> on
  a session with nothing active or pending, one dispatcher round erases the lane, and the next
  command of the session runs under the global defaults again.
\<close>

theorem idle_configuration_lost:
  assumes "um_ok (cq_lanes q)" and "cq_running q"
    and "map_of (cq_lanes q) s = None \<or> (\<exists>lane. map_of (cq_lanes q) s = Some lane \<and> IsIdle lane)"
  shows "get_lane s (dispatch_round sp now keys (ConfigureSession s mode debounce cap drp q))
     = new_lane (cq_config q) s"
proof -
  let ?q = "ConfigureSession s mode debounce cap drp q"
  have "\<exists>l. ?q = put_lane s l q
      \<and> ln_pending l = ln_pending (get_lane s q) \<and> HasActive l = HasActive (get_lane s q)"
    by (rule exI, unfold ConfigureSession_def Let_def, rule conjI [OF refl]) (simp add: HasActive_def)
  moreover have "ln_pending (get_lane s q) = []" "\<not> HasActive (get_lane s q)"
    using assms(3) by (auto simp: get_lane_def new_lane_def SessionLane_init_def HasActive_def
        IsIdle_def HasPending_def)
  ultimately obtain l where l: "?q = put_lane s l q" "ln_pending l = []" "IsIdle l"
    by (auto simp: IsIdle_def HasPending_def)
  then have find: "map_of (cq_lanes ?q) s = Some l" by (simp add: store_simps)
  have ok: "um_ok (cq_lanes (fst (dispatch_lanes sp now keys p)))" if "um_ok (cq_lanes p)" for p
    using that
    by (induction keys arbitrary: p)
      (auto simp: Let_def put_lane_def split: option.splits prod.splits)
  have "um_ok (cq_lanes ?q)" using l(1) assms(1) by (simp add: put_lane_ok)
  then have "map_of (cq_lanes (dispatch_round sp now keys ?q)) s = None"
    using dispatch_lanes_keeps [OF find, of sp now keys] l ok [of ?q] assms(2)
    by (simp add: dispatch_round_def Let_def clean_idle_def map_of_filter)
  then show ?thesis
    by (simp add: get_lane_def dispatch_round_config ConfigureSession_frame)
qed

theorem idle_configuration_lost_witness:
  "ln_mode (get_lane ''s'' (dispatch_round (\<lambda>_ _ p. p) 0 [''s'']
      (ConfigureSession ''s'' kInterrupt 0 5 [] (StartQueue (CommandQueue_init QueueConfig_default :: unit CommandQueue)))))
   = kCollect"
proof -
  let ?q = "StartQueue (CommandQueue_init QueueConfig_default :: unit CommandQueue)"
  have "um_ok (cq_lanes ?q)" "cq_running ?q" "map_of (cq_lanes ?q) ''s'' = None \<or> P" for P
    by (simp_all add: StartQueue_def CommandQueue_init_def)
  from idle_configuration_lost [OF this] show ?thesis
    by (simp add: new_lane_def QueueConfig_default_def StartQueue_def CommandQueue_init_def)
qed

end
