(* ===== verification/RateLimit.thy ===== *)
theory RateLimit
  imports RavPrelude
begin

text \<open>
  The sliding-window rate limiter of \<open>src/security/rate_limiter.cpp\<close>: all operations,
  with the clock as an argument. \<open>Remaining\<close> and \<open>RetryAfter\<close> purge the (mutable)
  window too, so they also return the state.
\<close>

section \<open>State and operations\<close>

record RateConfig =
  rl_max_requests :: int
  rl_window_seconds :: int
  rl_burst_max :: int

definition RateConfig_default :: RateConfig where
  "RateConfig_default = \<lparr>rl_max_requests = 100, rl_window_seconds = 60, rl_burst_max = 20\<rparr>"

record RateLimiter =
  rl_config :: RateConfig
  rl_windows :: "(string, time list) umap"

definition RateLimiter_init :: "RateConfig \<Rightarrow> RateLimiter" where
  "RateLimiter_init config = \<lparr>rl_config = config, rl_windows = []\<rparr>"

definition purge_old :: "RateConfig \<Rightarrow> time \<Rightarrow> time list \<Rightarrow> time list" where
  "purge_old config now timestamps =
     dropWhile (\<lambda>t. t < now - secs (rl_window_seconds config)) timestamps"

text \<open>The backward loop over the last second.\<close>

definition burst_count :: "time \<Rightarrow> time list \<Rightarrow> int" where
  "burst_count now timestamps =
     int (length (takeWhile (\<lambda>t. now - secs 1 \<le> t) (rev timestamps)))"

definition Allow :: "time \<Rightarrow> string \<Rightarrow> RateLimiter \<Rightarrow> RateLimiter \<times> bool" where
  "Allow now key rl =
     (let cfg = rl_config rl;
          ts = purge_old cfg now (um_at (rl_windows rl) key []);
          store = (\<lambda>w. rl\<lparr>rl_windows := AList.update key w (rl_windows rl)\<rparr>)
      in if rl_max_requests cfg \<le> int (length ts) then (store ts, False)
         else if 0 < rl_burst_max cfg \<and> rl_burst_max cfg \<le> burst_count now ts then (store ts, False)
         else (store (ts @ [now]), True))"

definition Remaining :: "time \<Rightarrow> string \<Rightarrow> RateLimiter \<Rightarrow> RateLimiter \<times> int" where
  "Remaining now key rl =
     (case map_of (rl_windows rl) key of
        None \<Rightarrow> (rl, rl_max_requests (rl_config rl))
      | Some w \<Rightarrow>
          (let ts = purge_old (rl_config rl) now w
           in (rl\<lparr>rl_windows := AList.update key ts (rl_windows rl)\<rparr>,
               max 0 (rl_max_requests (rl_config rl) - int (length ts)))))"

definition RetryAfter :: "time \<Rightarrow> string \<Rightarrow> RateLimiter \<Rightarrow> RateLimiter \<times> int" where
  "RetryAfter now key rl =
     (case map_of (rl_windows rl) key of
        None \<Rightarrow> (rl, 0)
      | Some w \<Rightarrow>
          if w = [] then (rl, 0)
          else
            (let ts = purge_old (rl_config rl) now w;
                 rl' = rl\<lparr>rl_windows := AList.update key ts (rl_windows rl)\<rparr>;
                 expires_at = hd ts + secs (rl_window_seconds (rl_config rl))
             in if int (length ts) < rl_max_requests (rl_config rl) then (rl', 0)
                else if expires_at \<le> now then (rl', 0)
                else (rl', to_secs (expires_at - now) + 1)))"

definition ResetLimiter :: "RateLimiter \<Rightarrow> RateLimiter" where
  "ResetLimiter rl = rl\<lparr>rl_windows := []\<rparr>"

definition ResetKey :: "string \<Rightarrow> RateLimiter \<Rightarrow> RateLimiter" where
  "ResetKey key rl = rl\<lparr>rl_windows := AList.delete key (rl_windows rl)\<rparr>"

fun prune_windows :: "RateConfig \<Rightarrow> time \<Rightarrow> (string, time list) umap \<Rightarrow> (string, time list) umap" where
  "prune_windows cfg now [] = []"
| "prune_windows cfg now ((key, w) # rest) =
     (let ts = purge_old cfg now w
      in if ts = [] then prune_windows cfg now rest else (key, ts) # prune_windows cfg now rest)"

definition PruneLimiter :: "time \<Rightarrow> RateLimiter \<Rightarrow> RateLimiter" where
  "PruneLimiter now rl = rl\<lparr>rl_windows := prune_windows (rl_config rl) now (rl_windows rl)\<rparr>"

definition ConfigureLimiter :: "RateConfig \<Rightarrow> RateLimiter \<Rightarrow> RateLimiter" where
  "ConfigureLimiter config rl = rl\<lparr>rl_config := config\<rparr>"

section \<open>Runs\<close>

datatype limiter_op = LAllow string | LRemaining string | LRetryAfter string | LPrune | LResetKey string

fun limiter_step :: "RateLimiter \<Rightarrow> time \<times> limiter_op \<Rightarrow> RateLimiter \<times> bool" where
  "limiter_step rl (now, LAllow key) = Allow now key rl"
| "limiter_step rl (now, LRemaining key) = (fst (Remaining now key rl), False)"
| "limiter_step rl (now, LRetryAfter key) = (fst (RetryAfter now key rl), False)"
| "limiter_step rl (now, LPrune) = (PruneLimiter now rl, False)"
| "limiter_step rl (now, LResetKey key) = (ResetKey key rl, False)"

text \<open>The times at which requests of key \<open>k\<close> were allowed.\<close>

fun granted :: "string \<Rightarrow> RateLimiter \<Rightarrow> (time \<times> limiter_op) list \<Rightarrow> time list" where
  "granted k rl [] = []"
| "granted k rl (e # es) =
     (if snd e = LAllow k \<and> snd (limiter_step rl e)
      then fst e # granted k (fst (limiter_step rl e)) es
      else granted k (fst (limiter_step rl e)) es)"

definition window_of :: "RateLimiter \<Rightarrow> string \<Rightarrow> time list" where
  "window_of rl k = um_at (rl_windows rl) k []"

lemma prune_windows_keys: "fst ` set (prune_windows cfg now w) \<subseteq> fst ` set w"
proof (induction w)
  case (Cons a w)
  obtain key ts where a: "a = (key, ts)" by (cases a)
  show ?case
  proof (cases "purge_old cfg now ts = []")
    case True
    then have "prune_windows cfg now (a # w) = prune_windows cfg now w" by (simp add: a Let_def)
    with Cons.IH show ?thesis by auto
  next
    case False
    then have "prune_windows cfg now (a # w) = (key, purge_old cfg now ts) # prune_windows cfg now w"
      by (simp add: a Let_def)
    with Cons.IH show ?thesis by (auto simp: a)
  qed
qed simp

lemma um_ok_prune: "um_ok w \<Longrightarrow> um_ok (prune_windows cfg now w)"
proof (induction w)
  case (Cons a w)
  obtain key ts where a: "a = (key, ts)" by (cases a)
  with Cons prune_windows_keys [of cfg now w] show ?case by (auto simp: um_ok_def Let_def)
qed simp

lemma prune_windows_find:
  "um_ok w \<Longrightarrow> map_of (prune_windows cfg now w) k =
     (case map_of w k of None \<Rightarrow> None
      | Some ts \<Rightarrow> if purge_old cfg now ts = [] then None else Some (purge_old cfg now ts))"
proof (induction w)
  case (Cons a w)
  obtain key ts where a: "a = (key, ts)" by (cases a)
  have "key \<notin> fst ` set (prune_windows cfg now w)"
    using Cons.prems a prune_windows_keys [of cfg now w] by (auto simp: um_ok_def)
  then have "map_of (prune_windows cfg now w) key = None" by (simp add: map_of_eq_None_iff)
  with Cons a show ?case by (auto simp: um_ok_def Let_def)
qed simp

lemma limiter_step_ok: "um_ok (rl_windows rl) \<Longrightarrow> um_ok (rl_windows (fst (limiter_step rl e)))"
  by (cases "(rl, e)" rule: limiter_step.cases)
    (auto simp: Allow_def Remaining_def RetryAfter_def PruneLimiter_def ResetKey_def um_ok_prune Let_def
      split: option.splits)

lemma limiter_step_config: "rl_config (fst (limiter_step rl e)) = rl_config rl"
  by (cases "(rl, e)" rule: limiter_step.cases)
    (auto simp: Allow_def Remaining_def RetryAfter_def PruneLimiter_def ResetKey_def Let_def split: option.splits)

text \<open>A step either leaves the window of \<open>k\<close>, purges it, or (a grant) appends to the purged one.\<close>

lemma limiter_step_window:
  assumes "um_ok (rl_windows rl)" and "a \<noteq> LResetKey k"
  shows "(let w = window_of rl k; w' = window_of (fst (limiter_step rl (now, a))) k;
              p = purge_old (rl_config rl) now w
          in if a = LAllow k \<and> snd (limiter_step rl (now, a))
             then w' = p @ [now] \<and> int (length p) < rl_max_requests (rl_config rl)
             else w' = w \<or> w' = p)"
  using assms
  by (cases a) (auto simp: window_of_def um_at_def Allow_def Remaining_def RetryAfter_def PruneLimiter_def
      ResetKey_def prune_windows_find Let_def store_simps split: option.splits if_splits)

section \<open>The window and burst limits\<close>

text \<open>The \<open>m\<close>-th next grant comes more than \<open>W\<close> later.\<close>

definition spaced :: "nat \<Rightarrow> time \<Rightarrow> time list \<Rightarrow> bool" where
  "spaced m W g \<longleftrightarrow> (\<forall>i. i + m < length g \<longrightarrow> g ! i + W < g ! (i + m))"

lemma spaced_snoc:
  assumes "spaced m W (d @ p)" and "length p < m" and "\<forall>x \<in> set d. x < now - W"
  shows "spaced m W (d @ p @ [now])"
  unfolding spaced_def
proof (intro allI impI)
  fix i assume i: "i + m < length (d @ p @ [now])"
  show "(d @ p @ [now]) ! i + W < (d @ p @ [now]) ! (i + m)"
  proof (cases "i + m < length (d @ p)")
    case True
    then have "(d @ p) ! i + W < (d @ p) ! (i + m)" using assms(1) by (simp add: spaced_def)
    moreover have "(d @ p @ [now]) ! j = (d @ p) ! j" if "j < length (d @ p)" for j
      using that by (metis append.assoc nth_append_left)
    ultimately show ?thesis using True by simp
  next
    case False
    with i assms(2) have "i < length d" "i + m = length (d @ p)" by auto
    then have "(d @ p @ [now]) ! i < now - W" "(d @ p @ [now]) ! (i + m) = now"
      using assms(3) by (auto simp: nth_append)
    then show ?thesis by simp
  qed
qed

lemma granted_spaced:
  assumes "um_ok (rl_windows rl)" and "sorted (map fst es)" and "\<forall>e \<in> set es. t0 \<le> fst e"
    and "LResetKey k \<notin> snd ` set es"
    and "g = d @ window_of rl k" and "\<forall>x \<in> set d. x < t0 - secs (rl_window_seconds (rl_config rl))"
    and "spaced (nat (rl_max_requests (rl_config rl))) (secs (rl_window_seconds (rl_config rl))) g"
  shows "spaced (nat (rl_max_requests (rl_config rl))) (secs (rl_window_seconds (rl_config rl)))
      (g @ granted k rl es)"
  using assms
proof (induction es arbitrary: rl g d t0)
  case Nil
  then show ?case by simp
next
  case (Cons e es)
  obtain now a where e: "e = (now, a)" by (cases e)
  let ?rl = "fst (limiter_step rl e)" and ?W = "secs (rl_window_seconds (rl_config rl))"
  define dw where "dw = takeWhile (\<lambda>t. t < now - ?W) (window_of rl k)"
  define p where "p = purge_old (rl_config rl) now (window_of rl k)"
  have w: "window_of rl k = dw @ p" by (simp add: dw_def p_def purge_old_def)
  have "t0 \<le> now" using Cons.prems(3) e by simp
  then have old: "\<forall>x \<in> set (d @ dw). x < now - ?W" "\<forall>x \<in> set d. x < now - ?W"
    using Cons.prems(6) by (auto simp: dw_def dest: set_takeWhileD)
  have rest: "sorted (map fst es)" "\<forall>e \<in> set es. now \<le> fst e" "LResetKey k \<notin> snd ` set es"
    "um_ok (rl_windows ?rl)"
    using Cons.prems e by (auto simp: limiter_step_ok)
  have "a \<noteq> LResetKey k" using Cons.prems(4) e by auto
  from limiter_step_window [OF Cons.prems(1) this, of now]
  have step: "if a = LAllow k \<and> snd (limiter_step rl e)
       then window_of ?rl k = p @ [now] \<and> int (length p) < rl_max_requests (rl_config rl)
       else window_of ?rl k = window_of rl k \<or> window_of ?rl k = p"
    unfolding p_def e Let_def .
  show ?case
  proof (cases "a = LAllow k \<and> snd (limiter_step rl e)")
    case True
    with step have win: "window_of ?rl k = p @ [now]" "length p < nat (rl_max_requests (rl_config rl))"
      by auto
    have g: "g = (d @ dw) @ p" using Cons.prems(5) w by simp
    have "spaced (nat (rl_max_requests (rl_config rl))) ?W ((d @ dw) @ p)"
      using Cons.prems(7) unfolding g .
    from spaced_snoc [OF this win(2) old(1)]
    have "spaced (nat (rl_max_requests (rl_config rl))) ?W ((d @ dw) @ p @ [now])" .
    then have "spaced (nat (rl_max_requests (rl_config rl))) ?W
        (((d @ dw) @ p @ [now]) @ granted k ?rl es)"
      using Cons.IH [OF rest(4,1,2,3), of "(d @ dw) @ p @ [now]" "d @ dw"] win(1) old(1)
      by (simp add: limiter_step_config)
    moreover have "granted k rl (e # es) = now # granted k ?rl es" using True by (auto simp: e)
    ultimately show ?thesis using w Cons.prems(5) by simp
  next
    case False
    with step have "\<exists>d'. g = d' @ window_of ?rl k \<and> (\<forall>x \<in> set d'. x < now - ?W)"
      using Cons.prems(5) w old by (metis append.assoc)
    then obtain d' where "g = d' @ window_of ?rl k" "\<forall>x \<in> set d'. x < now - ?W" by blast
    then have "spaced (nat (rl_max_requests (rl_config rl))) ?W (g @ granted k ?rl es)"
      using Cons.IH [OF rest(4,1,2,3), of g d'] Cons.prems(7) by (simp add: limiter_step_config)
    then show ?thesis using False e by auto
  qed
qed

text \<open>
  Claim C18. The sliding window holds over every run: whatever requests, queries, prunes and
  resets of other keys are interleaved with a non-decreasing clock, among the allowed requests
  of a key every one is followed by its \<open>max_requests\<close>-th successor only after more than
  the window has passed, so no window contains more than \<open>max_requests\<close> of them.
\<close>

theorem rate_limit_window:
  assumes "sorted (map fst es)" and "LResetKey k \<notin> snd ` set es"
    and "g = granted k (RateLimiter_init cfg) es" and "i + nat (rl_max_requests cfg) < length g"
  shows "g ! i + secs (rl_window_seconds cfg) < g ! (i + nat (rl_max_requests cfg))"
proof (cases es)
  case Nil
  with assms show ?thesis by simp
next
  case (Cons e es')
  have "spaced (nat (rl_max_requests cfg)) (secs (rl_window_seconds cfg)) ([] @ g)"
    using granted_spaced [of "RateLimiter_init cfg" es "fst e" k "[]" "[]"] assms(1,2,3) Cons
    by (auto simp: RateLimiter_init_def window_of_def um_at_def spaced_def)
  with assms(4) show ?thesis by (simp add: spaced_def)
qed

definition demo_limits :: RateConfig where
  "demo_limits = \<lparr>rl_max_requests = 2, rl_window_seconds = 10, rl_burst_max = 0\<rparr>"

definition demo_requests :: "(time \<times> limiter_op) list" where
  "demo_requests = [(0, LAllow ''k''), (secs 1, LAllow ''k''), (secs 2, LAllow ''k''), (secs 11, LAllow ''k'')]"

theorem rate_limit_window_witness:
  "granted ''k'' (RateLimiter_init demo_limits) demo_requests = [0, secs 1, secs 11]
   \<and> 0 + secs 10 < secs 11"
proof -
  have g: "granted ''k'' (RateLimiter_init demo_limits) demo_requests = [0, secs 1, secs 11]"
    by (simp add: demo_requests_def demo_limits_def RateLimiter_init_def Allow_def Let_def um_at_def
        purge_old_def secs_def)
  have s: "sorted (map fst demo_requests)" "LResetKey ''k'' \<notin> snd ` set demo_requests"
    by (simp_all add: demo_requests_def secs_def)
  from rate_limit_window [where cfg = demo_limits and i = 0, OF s refl] g show ?thesis
    by (simp add: demo_limits_def numeral_2_eq_2)
qed

section \<open>What a refusal means\<close>

lemma takeWhile_sorted_filter:
  fixes c :: time
  shows "sorted w \<Longrightarrow> length (takeWhile (\<lambda>t. c \<le> t) (rev w)) = length (List.filter (\<lambda>t. c \<le> t) w)"
proof (induction w rule: rev_induct)
  case (snoc x w)
  have "List.filter (\<lambda>t. c \<le> t) w = []" if "x < c"
    using snoc.prems that by (force simp: sorted_append filter_empty_conv)
  with snoc show ?case by (auto simp: sorted_append)
qed simp

lemma purge_sorted_filter:
  "sorted w \<Longrightarrow> purge_old cfg now w = List.filter (\<lambda>t. now - secs (rl_window_seconds cfg) \<le> t) w"
proof (induction w)
  case (Cons x w)
  show ?case
  proof (cases "x < now - secs (rl_window_seconds cfg)")
    case True
    with Cons show ?thesis by (simp add: purge_old_def)
  next
    case False
    with Cons.prems have "\<forall>t \<in> set w. now - secs (rl_window_seconds cfg) \<le> t" by auto
    then have "List.filter (\<lambda>t. now - secs (rl_window_seconds cfg) \<le> t) w = w"
      by (simp only: filter_id_conv)
    with False show ?thesis by (simp add: purge_old_def)
  qed
qed (simp add: purge_old_def)

text \<open>
  The two loops compute the intended counts: on a window of past request times in
  order, a request is allowed exactly when fewer than \<open>max_requests\<close> of them lie within the
  window and, if a burst limit is set, fewer than \<open>burst_max\<close> of those within the last
  second.
\<close>

theorem Allow_iff_counts:
  assumes "sorted (window_of rl key)"
  shows "snd (Allow now key rl) \<longleftrightarrow>
     int (length (List.filter (\<lambda>t. now - secs (rl_window_seconds (rl_config rl)) \<le> t) (window_of rl key)))
       < rl_max_requests (rl_config rl)
   \<and> (0 < rl_burst_max (rl_config rl) \<longrightarrow>
       int (length (List.filter (\<lambda>t. now - secs (rl_window_seconds (rl_config rl)) \<le> t \<and> now - secs 1 \<le> t)
              (window_of rl key))) < rl_burst_max (rl_config rl))"
proof -
  let ?p = "purge_old (rl_config rl) now (window_of rl key)"
  have "sorted ?p" using assms by (simp add: purge_sorted_filter sorted_filter [where f = id, simplified])
  then have "burst_count now ?p = int (length (List.filter (\<lambda>t. now - secs 1 \<le> t) ?p))"
    by (simp add: burst_count_def takeWhile_sorted_filter)
  moreover have "List.filter (\<lambda>t. now - secs 1 \<le> t) ?p
      = List.filter (\<lambda>t. now - secs (rl_window_seconds (rl_config rl)) \<le> t \<and> now - secs 1 \<le> t) (window_of rl key)"
    using assms by (simp add: purge_sorted_filter conj_commute)
  moreover have "snd (Allow now key rl) \<longleftrightarrow> int (length ?p) < rl_max_requests (rl_config rl)
      \<and> (0 < rl_burst_max (rl_config rl) \<longrightarrow> burst_count now ?p < rl_burst_max (rl_config rl))"
    by (simp add: Allow_def Let_def window_of_def not_le)
  ultimately show ?thesis
    using purge_sorted_filter [OF assms, of "rl_config rl" now] by simp
qed

theorem Allow_iff_counts_witness:
  "\<not> snd (Allow (secs 2) ''k'' (RateLimiter_init demo_limits\<lparr>rl_windows := [(''k'', [0, secs 1])]\<rparr>))"
proof -
  have "sorted (window_of (RateLimiter_init demo_limits\<lparr>rl_windows := [(''k'', [0, secs 1])]\<rparr>) ''k'')"
    by (simp add: window_of_def um_at_def secs_def)
  from Allow_iff_counts [OF this, of "secs 2"] show ?thesis
    by (simp add: window_of_def um_at_def secs_def demo_limits_def RateLimiter_init_def)
qed

text \<open>
  \<open>RetryAfter\<close> is long enough: if it answers \<open>r > 0\<close> for a key whose window is
  not over-full, then \<open>r\<close> seconds later, with no request allowed in between, at least one
  request remains.
\<close>

theorem RetryAfter_sufficient:
  assumes "int (length (window_of rl key)) \<le> rl_max_requests (rl_config rl)"
    and "0 < rl_max_requests (rl_config rl)"
    and "RetryAfter now key rl = (rl', r)" and "0 < r"
  shows "0 < snd (Remaining (now + secs r) key rl')"
proof -
  let ?cfg = "rl_config rl" and ?W = "secs (rl_window_seconds (rl_config rl))"
  obtain w where w: "map_of (rl_windows rl) key = Some w"
    using assms(3,4) by (auto simp: RetryAfter_def split: option.splits)
  define p where "p = purge_old ?cfg now w"
  have r: "rl' = rl\<lparr>rl_windows := AList.update key p (rl_windows rl)\<rparr>"
    "rl_max_requests ?cfg \<le> int (length p)" "now < hd p + ?W" "r = to_secs (hd p + ?W - now) + 1"
    using assms(3,4) w by (auto simp: RetryAfter_def Let_def p_def split: if_splits)
  have "length p \<le> length w" by (simp add: p_def purge_old_def length_dropWhile_le)
  then have len: "int (length p) \<le> rl_max_requests ?cfg"
    using assms(1) w by (simp add: window_of_def um_at_def)
  have "hd p + ?W - now < secs r"
    using r(3) unfolding r(4) by (simp add: to_secs_def secs_def cdiv_nonneg)
  then have drop: "hd p < now + secs r - ?W" by simp
  obtain x xs where p: "p = x # xs" using r(2) assms(2) by (cases p) auto
  have "length (purge_old ?cfg (now + secs r) p) \<le> length xs"
    using drop by (simp add: p purge_old_def length_dropWhile_le)
  then have "int (length (purge_old ?cfg (now + secs r) p)) < rl_max_requests ?cfg"
    using len p by simp
  then show ?thesis
    unfolding r(1) by (simp add: Remaining_def Let_def store_simps)
qed

theorem RetryAfter_sufficient_witness:
  "0 < snd (Remaining (secs 11) ''k'' (RateLimiter_init demo_limits\<lparr>rl_windows := [(''k'', [0, secs 1])]\<rparr>))"
proof -
  let ?rl = "RateLimiter_init demo_limits\<lparr>rl_windows := [(''k'', [0, secs 1])]\<rparr>"
  have a: "int (length (window_of ?rl ''k'')) \<le> rl_max_requests (rl_config ?rl)"
    "0 < rl_max_requests (rl_config ?rl)"
    by (simp_all add: window_of_def um_at_def demo_limits_def RateLimiter_init_def)
  have b: "RetryAfter (secs 2) ''k'' ?rl = (?rl, 9)"
    by (simp add: RetryAfter_def demo_limits_def RateLimiter_init_def Let_def purge_old_def secs_def
        to_secs_def cdiv_def)
  from RetryAfter_sufficient [OF a b] show ?thesis by (simp add: secs_def)
qed

end
