(* ===== verification/Rbac.thy ===== *)
theory Rbac
  imports RavPrelude
begin

text \<open>
  Role-based access control of the gateway methods: \<open>src/security/rbac.cpp\<close> and
  \<open>include/ravbot/security/rbac.hpp\<close>, with the method names of
  \<open>include/ravbot/gateway/protocol.hpp\<close>. The rule table is built by the same sequence of
  assignments as \<open>init_default_rules\<close>.
\<close>

section \<open>Roles and scopes\<close>

datatype Role = Operator | Viewer | Node_role

definition RoleFromString :: "string \<Rightarrow> Role" where
  "RoleFromString s =
     (if s = ''viewer'' then Viewer else if s = ''node'' then Node_role else Operator)"

fun RoleToString :: "Role \<Rightarrow> string" where
  "RoleToString Operator = ''operator''"
| "RoleToString Viewer = ''viewer''"
| "RoleToString Node_role = ''node''"

interpretation role: enum_codec RoleToString RoleFromString Operator
proof
  show "RoleFromString (RoleToString e) = e" for e by (cases e) (simp_all add: RoleFromString_def)
  show "RoleFromString s = Operator" if "\<forall>e. RoleToString e \<noteq> s" for s
    using that [rule_format, of Viewer] that [rule_format, of Node_role]
    by (auto simp: RoleFromString_def)
qed

definition kOperatorRead :: string where "kOperatorRead = ''operator.read''"

definition kOperatorWrite :: string where "kOperatorWrite = ''operator.write''"

definition kOperatorAdmin :: string where "kOperatorAdmin = ''operator.admin''"

definition kNodeExecute :: string where "kNodeExecute = ''node.execute''"

definition kNodeRead :: string where "kNodeRead = ''node.read''"

lemmas scope_names = kOperatorRead_def kOperatorWrite_def kOperatorAdmin_def kNodeExecute_def kNodeRead_def

fun DefaultScopes :: "Role \<Rightarrow> string list" where
  "DefaultScopes Operator = [kOperatorRead, kOperatorWrite, kOperatorAdmin]"
| "DefaultScopes Viewer = [kOperatorRead]"
| "DefaultScopes Node_role = [kNodeExecute, kNodeRead]"

section \<open>The rule table\<close>

type_synonym method_rules = "(string, string list) umap"

definition read_methods :: "string list" where
  "read_methods =
    [''gateway.health'', ''gateway.status'', ''config.get'', ''sessions.list'',
     ''sessions.history'', ''channels.list'', ''channels.status'', ''health'', ''status'',
     ''models.list'', ''sessions.preview'', ''chat.history'', ''skills.status'',
     ''exec.approvals.get'', ''cron.list'', ''cron.runs'', ''memory.status'', ''memory.search'',
     ''plugins.list'', ''plugins.tools'', ''plugins.services'', ''plugins.providers'',
     ''plugins.commands'', ''plugins.gateway'', ''queue.status'']"

definition write_methods :: "string list" where
  "write_methods =
    [''config.set'', ''config.reload'', ''sessions.delete'', ''sessions.reset'',
     ''sessions.patch'', ''sessions.compact'', ''models.set'', ''skills.install'', ''cron.add'',
     ''cron.remove'', ''cron.update'', ''cron.run'', ''exec.approval.request'',
     ''plugins.call_tool'', ''queue.configure'', ''queue.cancel'', ''queue.abort'']"

definition agent_methods :: "string list" where
  "agent_methods =
    [''agent.request'', ''agent.stop'', ''chat.send'', ''chat.abort'', ''chain.execute'']"

definition ui_methods :: "string list" where
  "ui_methods =
    [''agent.identity.get'', ''node.list'', ''device.pair.list'', ''logs.tail'', ''usage.cost'',
     ''sessions.usage'', ''sessions.usage.timeseries'', ''sessions.usage.logs'', ''cron.status'',
     ''config.schema'', ''agents.list'']"

definition read_scopes :: "string list" where
  "read_scopes = [kOperatorRead, kOperatorWrite, kOperatorAdmin, kNodeRead, kNodeExecute]"

definition write_scopes :: "string list" where
  "write_scopes = [kOperatorWrite, kOperatorAdmin]"

definition agent_scopes :: "string list" where
  "agent_scopes = [kOperatorWrite, kOperatorAdmin, kNodeExecute]"

text \<open>One of the assignment loops: \<open>method_scopes_[method] = scopes\<close> for each method.\<close>

definition assign_rules :: "string list \<Rightarrow> string list \<Rightarrow> method_rules \<Rightarrow> method_rules" where
  "assign_rules methods scopes rules = fold (\<lambda>m. AList.update m scopes) methods rules"

definition init_default_rules :: method_rules where
  "init_default_rules =
     AList.update ''tools.catalog'' read_scopes
      (AList.update ''connect'' []
        (AList.update ''connect.hello'' []
          (assign_rules ui_methods read_scopes
            (assign_rules agent_methods agent_scopes
              (assign_rules write_methods write_scopes
                (assign_rules read_methods read_scopes []))))))"

section \<open>Decisions\<close>

definition IsMethodAllowed :: "method_rules \<Rightarrow> string \<Rightarrow> string list \<Rightarrow> bool" where
  "IsMethodAllowed method_scopes method client_scopes =
     (case map_of method_scopes method of
        None \<Rightarrow> list_ex (\<lambda>s. s = kOperatorAdmin) client_scopes
      | Some required \<Rightarrow>
          if required = [] then True else list_ex (\<lambda>s. s \<in> set required) client_scopes)"

definition RequiredScopes :: "method_rules \<Rightarrow> string \<Rightarrow> string list" where
  "RequiredScopes method_scopes method =
     (case map_of method_scopes method of None \<Rightarrow> [kOperatorAdmin] | Some required \<Rightarrow> required)"

text \<open>What a client of a role with its default scopes may call.\<close>

definition role_may :: "Role \<Rightarrow> string \<Rightarrow> bool" where
  "role_may r m = IsMethodAllowed init_default_rules m (DefaultScopes r)"

lemma map_of_assign_rules [store_simps]:
  "map_of (assign_rules ms ss rules) m = (if m \<in> set ms then Some ss else map_of rules m)"
proof -
  have "map_of (fold (\<lambda>m. AList.update m ss) ms rules) m = (if m \<in> set ms then Some ss else map_of rules m)"
    for rules by (induction ms arbitrary: rules) (auto simp: store_simps)
  then show ?thesis by (simp add: assign_rules_def)
qed

lemma IsMethodAllowed_iff:
  "IsMethodAllowed rules m cs \<longleftrightarrow> RequiredScopes rules m = [] \<or> (\<exists>s \<in> set cs. s \<in> set (RequiredScopes rules m))"
  by (auto simp: IsMethodAllowed_def RequiredScopes_def list_ex_iff split: option.splits)

lemma RequiredScopes_default:
  "RequiredScopes init_default_rules m =
     (if m = ''tools.catalog'' then read_scopes else if m = ''connect'' \<or> m = ''connect.hello'' then []
      else if m \<in> set ui_methods then read_scopes else if m \<in> set agent_methods then agent_scopes
      else if m \<in> set write_methods then write_scopes else if m \<in> set read_methods then read_scopes
      else [kOperatorAdmin])"
  unfolding RequiredScopes_def init_default_rules_def by (simp add: store_simps)

text \<open>
  Claim C20. The default rules form the intended hierarchy of roles: a viewer may call exactly
  the handshake and the read-only methods, a node those and the agent methods, an operator
  every method, so that every method outside the tables (unknown or simply not listed) is
  closed to viewers and nodes.
\<close>

theorem role_hierarchy:
  "(role_may Viewer m \<longleftrightarrow> m \<in> {''connect'', ''connect.hello'', ''tools.catalog''} \<union> set read_methods \<union> set ui_methods) \<and>
    (role_may Node_role m \<longleftrightarrow> role_may Viewer m \<or> m \<in> set agent_methods) \<and>
    (role_may Operator m)"
proof (intro conjI impI)
  have mem: "kOperatorRead \<in> set read_scopes" "kOperatorRead \<notin> set agent_scopes"
    "kOperatorRead \<notin> set write_scopes" "kNodeRead \<in> set read_scopes" "kNodeExecute \<in> set agent_scopes"
    "kNodeExecute \<notin> set write_scopes" "kNodeRead \<notin> set write_scopes" "kOperatorRead \<noteq> kOperatorAdmin"
    "kNodeExecute \<noteq> kOperatorAdmin" "kNodeRead \<noteq> kOperatorAdmin" "kOperatorAdmin \<in> set read_scopes"
    "kOperatorAdmin \<in> set agent_scopes" "kOperatorAdmin \<in> set write_scopes"
    "read_scopes \<noteq> []" "agent_scopes \<noteq> []" "write_scopes \<noteq> []"
    by (simp_all add: read_scopes_def agent_scopes_def write_scopes_def scope_names)
  have "list_all (\<lambda>x. \<not> List.member read_methods x) write_methods"
    and "list_all (\<lambda>x. \<not> List.member (''connect'' # ''connect.hello'' # ''tools.catalog''
            # read_methods @ ui_methods) x) agent_methods"
    by code_simp+
  then have disj: "m \<in> set write_methods \<Longrightarrow> m \<notin> set read_methods"
    "m \<in> set agent_methods \<Longrightarrow> m \<notin> set read_methods" "m \<in> set agent_methods \<Longrightarrow> m \<notin> set ui_methods"
    "m \<in> set agent_methods \<Longrightarrow> m \<noteq> ''connect'' \<and> m \<noteq> ''connect.hello'' \<and> m \<noteq> ''tools.catalog''"
    by (auto simp: list_all_iff)
  show v: "role_may Viewer m \<longleftrightarrow>
      m \<in> {''connect'', ''connect.hello'', ''tools.catalog''} \<union> set read_methods \<union> set ui_methods"
    using mem disj by (auto simp: role_may_def IsMethodAllowed_iff RequiredScopes_default split: if_splits)
  show "role_may Node_role m \<longleftrightarrow> role_may Viewer m \<or> m \<in> set agent_methods"
    unfolding v using mem disj
    by (auto simp: role_may_def IsMethodAllowed_iff RequiredScopes_default split: if_splits)
  show "role_may Operator m"
    using mem by (auto simp: role_may_def IsMethodAllowed_iff RequiredScopes_default split: if_splits)
qed

text \<open>
  A role name the gateway does not know is read as the most powerful role: whatever
  text other than \<open>viewer\<close> and \<open>node\<close> a client sends (also \<open>Viewer\<close> or the empty
  text), its default scopes open every method.
\<close>

theorem unknown_role_opens_everything:
  assumes "s \<noteq> ''viewer''" and "s \<noteq> ''node''"
  shows "IsMethodAllowed init_default_rules m (DefaultScopes (RoleFromString s))"
proof -
  have "RoleFromString s = Operator"
    using assms by (simp add: RoleFromString_def)
  then show ?thesis
    by (auto simp: IsMethodAllowed_iff RequiredScopes_default read_scopes_def agent_scopes_def write_scopes_def)
qed

theorem unknown_role_opens_everything_witness:
  "IsMethodAllowed init_default_rules ''config.set'' (DefaultScopes (RoleFromString ''Viewer''))"
  by (rule unknown_role_opens_everything) simp_all

end
