(* ===== verification/ToolPerms.thy ===== *)
theory ToolPerms
  imports RavPrelude
begin

text \<open>
  The tool permission checker of \<open>src/security/tool_permissions.cpp\<close>: the constructor that
  parses the allow and deny entries, and the two decisions. Logging is left out.
\<close>

section \<open>Construction\<close>

record ToolPermissionConfig =
  tp_allow :: "string list"
  tp_deny :: "string list"

record ToolPermissionChecker =
  allowed_tools :: "string set"
  denied_tools :: "string set"
  allowed_mcp :: "string set"
  denied_mcp :: "string set"
  allow_all :: bool
  mcp_allow_all :: bool

definition Checker_empty :: ToolPermissionChecker where
  "Checker_empty = \<lparr>allowed_tools = {}, denied_tools = {}, allowed_mcp = {}, denied_mcp = {},
     allow_all = False, mcp_allow_all = False\<rparr>"

definition kGroups :: "(string \<times> string list) list" where
  "kGroups =
     [(''fs'', [''read'', ''write'', ''edit'']),
      (''runtime'', [''exec'']),
      (''memory'', [''memory_search'', ''memory_get'', ''memory_write'']),
      (''all'', [''read'', ''write'', ''edit'', ''exec'', ''message'', ''apply_patch'', ''process'',
         ''web_search'', ''web_fetch'', ''memory_search'', ''memory_get'', ''memory_write'',
         ''github_search_repos'', ''github_search_code'', ''github_get_repo''])]"

definition group_tools :: "string \<Rightarrow> string list" where
  "group_tools g = (case map_of kGroups g of None \<Rightarrow> [] | Some tools \<Rightarrow> tools)"

definition allow_entry :: "string \<Rightarrow> ToolPermissionChecker \<Rightarrow> ToolPermissionChecker" where
  "allow_entry entry c =
     (if entry = ''*'' then c\<lparr>allow_all := True, mcp_allow_all := True\<rparr>
      else if take 6 entry = ''group:'' then
        (let group_name = drop 6 entry;
             c1 = (if group_name = ''all'' then c\<lparr>allow_all := True\<rparr> else c)
         in c1\<lparr>allowed_tools := set (group_tools group_name) \<union> allowed_tools c1\<rparr>)
      else if take 5 entry = ''tool:'' then c\<lparr>allowed_tools := insert (drop 5 entry) (allowed_tools c)\<rparr>
      else if take 4 entry = ''mcp:'' then
        (let mcp_spec = drop 4 entry
         in if mcp_spec = ''*'' then c\<lparr>mcp_allow_all := True\<rparr>
            else c\<lparr>allowed_mcp := insert mcp_spec (allowed_mcp c)\<rparr>)
      else c)"

definition deny_entry :: "string \<Rightarrow> ToolPermissionChecker \<Rightarrow> ToolPermissionChecker" where
  "deny_entry entry c =
     (if take 6 entry = ''group:'' then
        c\<lparr>denied_tools := set (group_tools (drop 6 entry)) \<union> denied_tools c\<rparr>
      else if take 5 entry = ''tool:'' then c\<lparr>denied_tools := insert (drop 5 entry) (denied_tools c)\<rparr>
      else if take 4 entry = ''mcp:'' then c\<lparr>denied_mcp := insert (drop 4 entry) (denied_mcp c)\<rparr>
      else c)"

definition ToolPermissionChecker_init :: "ToolPermissionConfig \<Rightarrow> ToolPermissionChecker" where
  "ToolPermissionChecker_init config =
     (let c1 = fold allow_entry (tp_allow config) Checker_empty;
          c2 = fold deny_entry (tp_deny config) c1
      in if tp_allow config = [] then c2\<lparr>allow_all := True, mcp_allow_all := True\<rparr> else c2)"

section \<open>Decisions\<close>

definition IsToolAllowed :: "ToolPermissionChecker \<Rightarrow> string \<Rightarrow> bool" where
  "IsToolAllowed c tool_name =
     (if tool_name \<in> denied_tools c then False
      else if allow_all c \<or> tool_name \<in> allowed_tools c then True
      else False)"

definition IsMcpToolAllowed :: "ToolPermissionChecker \<Rightarrow> string \<Rightarrow> string \<Rightarrow> bool" where
  "IsMcpToolAllowed c server_name tool_name =
     (let exact = server_name @ '':'' @ tool_name; wildcard = server_name @ '':*''
      in if exact \<in> denied_mcp c \<or> wildcard \<in> denied_mcp c then False
         else if mcp_allow_all c \<or> exact \<in> allowed_mcp c \<or> wildcard \<in> allowed_mcp c then True
         else False)"

interpretation tools: deny_first
  "\<lambda>c t. t \<in> denied_tools c" "\<lambda>c t. allow_all c \<or> t \<in> allowed_tools c" IsToolAllowed
  by unfold_locales (auto simp: IsToolAllowed_def)

interpretation mcp: deny_first
  "\<lambda>c (s, t). s @ '':'' @ t \<in> denied_mcp c \<or> s @ '':*'' \<in> denied_mcp c"
  "\<lambda>c (s, t). mcp_allow_all c \<or> s @ '':'' @ t \<in> allowed_mcp c \<or> s @ '':*'' \<in> allowed_mcp c"
  "\<lambda>c (s, t). IsMcpToolAllowed c s t"
  by unfold_locales (auto simp: IsMcpToolAllowed_def Let_def)

section \<open>What the configuration means\<close>

text \<open>An entry names a built-in tool directly or through a group.\<close>

definition entry_names :: "string \<Rightarrow> string \<Rightarrow> bool" where
  "entry_names entry t \<longleftrightarrow>
     entry = ''tool:'' @ t \<or> (\<exists>g. entry = ''group:'' @ g \<and> t \<in> set (group_tools g))"

lemma take_prefix: "take (length p) e = p \<longleftrightarrow> (\<exists>r. e = p @ r)"
  by (metis append_eq_conv_conj append_take_drop_id)

lemma entry_forms:
  "take 6 e = ''group:'' \<longleftrightarrow> (\<exists>g. e = ''group:'' @ g)"
  "take 5 e = ''tool:'' \<longleftrightarrow> (\<exists>g. e = ''tool:'' @ g)"
  "take 4 e = ''mcp:'' \<longleftrightarrow> (\<exists>g. e = ''mcp:'' @ g)"
  using take_prefix [of "''group:''" e] take_prefix [of "''tool:''" e] take_prefix [of "''mcp:''" e]
  by (simp_all add: eval_nat_numeral)

lemma allow_entry_effect:
  "t \<in> allowed_tools (allow_entry e c) \<longleftrightarrow> entry_names e t \<or> t \<in> allowed_tools c"
  "denied_tools (allow_entry e c) = denied_tools c" "denied_mcp (allow_entry e c) = denied_mcp c"
  "allow_all (allow_entry e c) \<longleftrightarrow> e = ''*'' \<or> e = ''group:all'' \<or> allow_all c"
  "mcp_allow_all (allow_entry e c) \<longleftrightarrow> e = ''*'' \<or> e = ''mcp:*'' \<or> mcp_allow_all c"
  "m \<in> allowed_mcp (allow_entry e c) \<longleftrightarrow> (e = ''mcp:'' @ m \<and> m \<noteq> ''*'') \<or> m \<in> allowed_mcp c"
  unfolding allow_entry_def entry_forms
  by (auto simp: entry_names_def Let_def)

lemma deny_entry_effect:
  "t \<in> denied_tools (deny_entry e c) \<longleftrightarrow> entry_names e t \<or> t \<in> denied_tools c"
  "m \<in> denied_mcp (deny_entry e c) \<longleftrightarrow> e = ''mcp:'' @ m \<or> m \<in> denied_mcp c"
  "allowed_tools (deny_entry e c) = allowed_tools c" "allowed_mcp (deny_entry e c) = allowed_mcp c"
  "allow_all (deny_entry e c) = allow_all c" "mcp_allow_all (deny_entry e c) = mcp_allow_all c"
  unfolding deny_entry_def entry_forms
  by (auto simp: entry_names_def)

lemma allow_entries_effect:
  "t \<in> allowed_tools (fold allow_entry es c) \<longleftrightarrow> (\<exists>e \<in> set es. entry_names e t) \<or> t \<in> allowed_tools c"
  "denied_tools (fold allow_entry es c) = denied_tools c"
  "denied_mcp (fold allow_entry es c) = denied_mcp c"
  "allow_all (fold allow_entry es c) \<longleftrightarrow> ''*'' \<in> set es \<or> ''group:all'' \<in> set es \<or> allow_all c"
  "mcp_allow_all (fold allow_entry es c) \<longleftrightarrow> ''*'' \<in> set es \<or> ''mcp:*'' \<in> set es \<or> mcp_allow_all c"
  "m \<in> allowed_mcp (fold allow_entry es c) \<longleftrightarrow> (''mcp:'' @ m \<in> set es \<and> m \<noteq> ''*'') \<or> m \<in> allowed_mcp c"
proof (induction es arbitrary: c)
  case (Cons e es)
  {
    case 1 show ?case by (simp add: Cons.IH(1) allow_entry_effect) blast
  next
    case 2 show ?case by (simp add: Cons.IH(2) allow_entry_effect)
  next
    case 3 show ?case by (simp add: Cons.IH(3) allow_entry_effect)
  next
    case 4 show ?case by (simp add: Cons.IH(4) allow_entry_effect) blast
  next
    case 5 show ?case by (simp add: Cons.IH(5) allow_entry_effect) blast
  next
    case 6 show ?case by (simp add: Cons.IH(6) allow_entry_effect) blast
  }
qed simp_all

lemma deny_entries_effect:
  "t \<in> denied_tools (fold deny_entry es c) \<longleftrightarrow> (\<exists>e \<in> set es. entry_names e t) \<or> t \<in> denied_tools c"
  "m \<in> denied_mcp (fold deny_entry es c) \<longleftrightarrow> ''mcp:'' @ m \<in> set es \<or> m \<in> denied_mcp c"
  "allowed_tools (fold deny_entry es c) = allowed_tools c"
  "allowed_mcp (fold deny_entry es c) = allowed_mcp c"
  "allow_all (fold deny_entry es c) = allow_all c"
  "mcp_allow_all (fold deny_entry es c) = mcp_allow_all c"
proof (induction es arbitrary: c)
  case (Cons e es)
  {
    case 1 show ?case by (simp add: Cons.IH(1) deny_entry_effect) blast
  next
    case 2 show ?case by (simp add: Cons.IH(2) deny_entry_effect) blast
  next
    case 3 show ?case by (simp add: Cons.IH(3) deny_entry_effect)
  next
    case 4 show ?case by (simp add: Cons.IH(4) deny_entry_effect)
  next
    case 5 show ?case by (simp add: Cons.IH(5) deny_entry_effect)
  next
    case 6 show ?case by (simp add: Cons.IH(6) deny_entry_effect)
  }
qed simp_all

lemma checker_fields:
  "t \<in> denied_tools (ToolPermissionChecker_init cfg) \<longleftrightarrow> (\<exists>e \<in> set (tp_deny cfg). entry_names e t)"
  "t \<in> allowed_tools (ToolPermissionChecker_init cfg) \<longleftrightarrow> (\<exists>e \<in> set (tp_allow cfg). entry_names e t)"
  "m \<in> denied_mcp (ToolPermissionChecker_init cfg) \<longleftrightarrow> ''mcp:'' @ m \<in> set (tp_deny cfg)"
  "m \<in> allowed_mcp (ToolPermissionChecker_init cfg) \<longleftrightarrow> ''mcp:'' @ m \<in> set (tp_allow cfg) \<and> m \<noteq> ''*''"
  "allow_all (ToolPermissionChecker_init cfg) \<longleftrightarrow>
     tp_allow cfg = [] \<or> ''*'' \<in> set (tp_allow cfg) \<or> ''group:all'' \<in> set (tp_allow cfg)"
  "mcp_allow_all (ToolPermissionChecker_init cfg) \<longleftrightarrow>
     tp_allow cfg = [] \<or> ''*'' \<in> set (tp_allow cfg) \<or> ''mcp:*'' \<in> set (tp_allow cfg)"
  by (simp_all add: ToolPermissionChecker_init_def Let_def allow_entries_effect deny_entries_effect
      Checker_empty_def)

text \<open>
  Claim C19. The parsed checker decides exactly as the entries read: a built-in tool is allowed
  when no deny entry names it and the allow list is empty, holds \<open>*\<close> or \<open>group:all\<close>, or
  has an entry that names it; an MCP tool when neither it nor its server's wildcard is denied
  and the allow list is empty, holds \<open>*\<close> or \<open>mcp:*\<close>, or has the tool or the wildcard.
  The order and repetition of the entries do not matter, and deny always wins.
\<close>

theorem permissions_as_written:
  "(IsToolAllowed (ToolPermissionChecker_init cfg) t \<longleftrightarrow>
     \<not> (\<exists>e \<in> set (tp_deny cfg). entry_names e t) \<and>
     (tp_allow cfg = [] \<or> ''*'' \<in> set (tp_allow cfg) \<or> ''group:all'' \<in> set (tp_allow cfg)
      \<or> (\<exists>e \<in> set (tp_allow cfg). entry_names e t))) \<and>
    (IsMcpToolAllowed (ToolPermissionChecker_init cfg) s t \<longleftrightarrow>
     ''mcp:'' @ s @ '':'' @ t \<notin> set (tp_deny cfg) \<and> ''mcp:'' @ s @ '':*'' \<notin> set (tp_deny cfg) \<and>
     (tp_allow cfg = [] \<or> ''*'' \<in> set (tp_allow cfg) \<or> ''mcp:*'' \<in> set (tp_allow cfg)
      \<or> ''mcp:'' @ s @ '':'' @ t \<in> set (tp_allow cfg) \<or> ''mcp:'' @ s @ '':*'' \<in> set (tp_allow cfg)))"
proof (intro conjI impI)
  show "IsToolAllowed (ToolPermissionChecker_init cfg) t \<longleftrightarrow>
     \<not> (\<exists>e \<in> set (tp_deny cfg). entry_names e t) \<and>
     (tp_allow cfg = [] \<or> ''*'' \<in> set (tp_allow cfg) \<or> ''group:all'' \<in> set (tp_allow cfg)
      \<or> (\<exists>e \<in> set (tp_allow cfg). entry_names e t))"
    unfolding tools.decide_iff checker_fields by blast
  have ne: "s @ '':'' @ t \<noteq> ''*''" "s @ '':*'' \<noteq> ''*''" by (cases s; simp)+
  show "IsMcpToolAllowed (ToolPermissionChecker_init cfg) s t \<longleftrightarrow>
     ''mcp:'' @ s @ '':'' @ t \<notin> set (tp_deny cfg) \<and> ''mcp:'' @ s @ '':*'' \<notin> set (tp_deny cfg) \<and>
     (tp_allow cfg = [] \<or> ''*'' \<in> set (tp_allow cfg) \<or> ''mcp:*'' \<in> set (tp_allow cfg)
      \<or> ''mcp:'' @ s @ '':'' @ t \<in> set (tp_allow cfg) \<or> ''mcp:'' @ s @ '':*'' \<in> set (tp_allow cfg))"
    using mcp.decide_iff [of "ToolPermissionChecker_init cfg" "(s, t)"] ne
    by (simp add: checker_fields)
qed

text \<open>
  The deny list has no wildcard: adding \<open>*\<close> or \<open>mcp:*\<close> to it, which on the
  allow side open everything, changes no decision at all; and a denied \<open>group:all\<close> leaves
  every tool allowed that is not one of the fifteen listed names.
\<close>

theorem deny_wildcards_ignored:
  assumes "e \<in> {''*'', ''mcp:*''}"
  shows "IsToolAllowed (ToolPermissionChecker_init (cfg\<lparr>tp_deny := e # tp_deny cfg\<rparr>)) t
       = IsToolAllowed (ToolPermissionChecker_init cfg) t"
    and "IsMcpToolAllowed (ToolPermissionChecker_init (cfg\<lparr>tp_deny := e # tp_deny cfg\<rparr>)) s t
       = IsMcpToolAllowed (ToolPermissionChecker_init cfg) s t"
    and "t \<notin> set (group_tools ''all'') \<Longrightarrow>
       IsToolAllowed (ToolPermissionChecker_init \<lparr>tp_allow = [], tp_deny = [''group:all'']\<rparr>) t"
proof -
  have en: "\<not> entry_names e x" for x using assms by (auto simp: entry_names_def)
  show "IsToolAllowed (ToolPermissionChecker_init (cfg\<lparr>tp_deny := e # tp_deny cfg\<rparr>)) t
       = IsToolAllowed (ToolPermissionChecker_init cfg) t"
    by (simp add: tools.decide_iff checker_fields en)
  have ne: "e \<noteq> ''mcp:'' @ s @ '':'' @ t" "e \<noteq> ''mcp:'' @ s @ '':*''"
    using assms by (cases s; auto)+
  show "IsMcpToolAllowed (ToolPermissionChecker_init (cfg\<lparr>tp_deny := e # tp_deny cfg\<rparr>)) s t
       = IsMcpToolAllowed (ToolPermissionChecker_init cfg) s t"
    unfolding IsMcpToolAllowed_def Let_def checker_fields using ne by auto
  show "IsToolAllowed (ToolPermissionChecker_init \<lparr>tp_allow = [], tp_deny = [''group:all'']\<rparr>) t"
    if "t \<notin> set (group_tools ''all'')"
    using that by (simp add: tools.decide_iff checker_fields entry_names_def)
qed

theorem deny_wildcards_ignored_witness:
  "IsMcpToolAllowed (ToolPermissionChecker_init \<lparr>tp_allow = [], tp_deny = [''mcp:*'']\<rparr>) ''srv'' ''rm''
   \<and> IsToolAllowed (ToolPermissionChecker_init \<lparr>tp_allow = [], tp_deny = [''group:all'']\<rparr>) ''browser''"
proof
  have w: "''mcp:*'' \<in> {''*'', ''mcp:*''}" by simp
  from deny_wildcards_ignored(2) [OF w, of "\<lparr>tp_allow = [], tp_deny = []\<rparr>" "''srv''" "''rm''"]
  show "IsMcpToolAllowed (ToolPermissionChecker_init \<lparr>tp_allow = [], tp_deny = [''mcp:*'']\<rparr>) ''srv'' ''rm''"
    by (simp add: IsMcpToolAllowed_def Let_def checker_fields)
  show "IsToolAllowed (ToolPermissionChecker_init \<lparr>tp_allow = [], tp_deny = [''group:all'']\<rparr>) ''browser''"
    by (rule deny_wildcards_ignored(3) [OF w]) (simp add: group_tools_def kGroups_def)
qed

end
