(* ===== verification/TrustModel.thy ===== *)
theory TrustModel
  imports RavPrelude "HOL-Library.Word"
begin

text \<open>
  The trust model of \<open>src/security/trust_model.cpp\<close>: levels of sources, tools and senders,
  the policy of each level, and saving and loading. A JSON document is represented by the
  members the code writes and reads; what the JSON library does with the text is an argument
  of the theorems. \<open>size_t\<close> is a 64-bit and \<open>int\<close> a 32-bit word.
\<close>

section \<open>Levels and policies\<close>

datatype TrustLevel = kTrusted | kSemiTrusted | kUntrusted

fun TrustLevelToString :: "TrustLevel \<Rightarrow> string" where
  "TrustLevelToString kTrusted = ''trusted''"
| "TrustLevelToString kSemiTrusted = ''semi_trusted''"
| "TrustLevelToString kUntrusted = ''untrusted''"

text \<open>\<open>None\<close> is the thrown \<open>invalid_argument\<close>.\<close>

definition StringToTrustLevel :: "string \<Rightarrow> TrustLevel option" where
  "StringToTrustLevel str =
     (if str = ''trusted'' then Some kTrusted
      else if str = ''semi_trusted'' then Some kSemiTrusted
      else if str = ''untrusted'' then Some kUntrusted
      else None)"

record SecurityPolicy =
  allow_dangerous_tools :: bool
  require_approval :: bool
  enable_sandboxing :: bool
  max_content_size :: "64 word"
  log_all_actions :: bool

text \<open>The members of a policy object; a missing member is \<open>None\<close>.\<close>

record PolicyJson =
  pj_dangerous :: "bool option"
  pj_approval :: "bool option"
  pj_sandboxing :: "bool option"
  pj_max_content_size :: "64 word option"
  pj_log :: "bool option"

definition Policy_ToJson :: "SecurityPolicy \<Rightarrow> PolicyJson" where
  "Policy_ToJson p = \<lparr>pj_dangerous = Some (allow_dangerous_tools p),
     pj_approval = Some (require_approval p), pj_sandboxing = Some (enable_sandboxing p),
     pj_max_content_size = Some (max_content_size p), pj_log = Some (log_all_actions p)\<rparr>"

text \<open>
  The default \<open>0\<close> of \<open>j.value("max_content_size", 0)\<close> is an \<open>int\<close>, so the stored
  number is converted to \<open>int\<close> and only then widened to \<open>size_t\<close>.
\<close>

definition through_int :: "64 word \<Rightarrow> 64 word" where
  "through_int w = scast (ucast w :: 32 word)"

definition Policy_FromJson :: "PolicyJson \<Rightarrow> SecurityPolicy" where
  "Policy_FromJson j = \<lparr>allow_dangerous_tools = value_or (pj_dangerous j) False,
     require_approval = value_or (pj_approval j) False,
     enable_sandboxing = value_or (pj_sandboxing j) False,
     max_content_size = through_int (value_or (pj_max_content_size j) 0),
     log_all_actions = value_or (pj_log j) False\<rparr>"

section \<open>The manager\<close>

record TrustModelManager =
  default_source_trust :: "(string, TrustLevel) umap"
  tool_trust :: "(string, TrustLevel) umap"
  sender_trust :: "(string, TrustLevel) umap"
  policies :: "(TrustLevel, SecurityPolicy) umap"

definition trusted_policy :: SecurityPolicy where
  "trusted_policy = \<lparr>allow_dangerous_tools = True, require_approval = False,
     enable_sandboxing = False, max_content_size = 0, log_all_actions = False\<rparr>"

definition semi_trusted_policy :: SecurityPolicy where
  "semi_trusted_policy = \<lparr>allow_dangerous_tools = True, require_approval = True,
     enable_sandboxing = False, max_content_size = 10 * 1024 * 1024, log_all_actions = True\<rparr>"

definition untrusted_policy :: SecurityPolicy where
  "untrusted_policy = \<lparr>allow_dangerous_tools = False, require_approval = True,
     enable_sandboxing = True, max_content_size = 1 * 1024 * 1024, log_all_actions = True\<rparr>"

definition InitializeDefaultPolicies :: "TrustModelManager \<Rightarrow> TrustModelManager" where
  "InitializeDefaultPolicies m = m\<lparr>policies :=
     AList.update kUntrusted untrusted_policy
      (AList.update kSemiTrusted semi_trusted_policy
        (AList.update kTrusted trusted_policy (policies m)))\<rparr>"

definition TrustModelManager_init :: TrustModelManager where
  "TrustModelManager_init = InitializeDefaultPolicies
     \<lparr>default_source_trust =
        [(''user_input'', kSemiTrusted), (''web_search'', kUntrusted), (''web_fetch'', kUntrusted),
         (''local_file'', kTrusted), (''system'', kTrusted), (''channel_message'', kSemiTrusted)],
      tool_trust = [], sender_trust = [], policies = []\<rparr>"

definition GetTrustLevel :: "TrustModelManager \<Rightarrow> string \<Rightarrow> TrustLevel" where
  "GetTrustLevel m source_type = um_at (default_source_trust m) source_type kUntrusted"

definition SetToolTrustLevel :: "string \<Rightarrow> TrustLevel \<Rightarrow> TrustModelManager \<Rightarrow> TrustModelManager" where
  "SetToolTrustLevel tool_name level m = m\<lparr>tool_trust := AList.update tool_name level (tool_trust m)\<rparr>"

definition GetToolTrustLevel :: "TrustModelManager \<Rightarrow> string \<Rightarrow> TrustLevel" where
  "GetToolTrustLevel m tool_name = um_at (tool_trust m) tool_name kSemiTrusted"

definition SetSenderTrustLevel :: "string \<Rightarrow> TrustLevel \<Rightarrow> TrustModelManager \<Rightarrow> TrustModelManager" where
  "SetSenderTrustLevel sender_id level m =
     m\<lparr>sender_trust := AList.update sender_id level (sender_trust m)\<rparr>"

definition GetSenderTrustLevel :: "TrustModelManager \<Rightarrow> string \<Rightarrow> TrustLevel" where
  "GetSenderTrustLevel m sender_id = um_at (sender_trust m) sender_id kSemiTrusted"

text \<open>\<open>None\<close> is the \<open>out_of_range\<close> thrown by \<open>policies_.at\<close>.\<close>

definition GetPolicy :: "TrustModelManager \<Rightarrow> TrustLevel \<Rightarrow> SecurityPolicy option" where
  "GetPolicy m level =
     (case map_of (policies m) level of
        Some p \<Rightarrow> Some p
      | None \<Rightarrow> map_of (policies m) kUntrusted)"

definition SetPolicy :: "TrustLevel \<Rightarrow> SecurityPolicy \<Rightarrow> TrustModelManager \<Rightarrow> TrustModelManager" where
  "SetPolicy level policy m = m\<lparr>policies := AList.update level policy (policies m)\<rparr>"

definition ResetTrust :: "TrustModelManager \<Rightarrow> TrustModelManager" where
  "ResetTrust m = InitializeDefaultPolicies (m\<lparr>tool_trust := [], sender_trust := [], policies := []\<rparr>)"

interpretation tool_levels: defaulted_store GetToolTrustLevel SetToolTrustLevel
  by unfold_locales (simp add: GetToolTrustLevel_def SetToolTrustLevel_def um_at_def store_simps)

interpretation sender_levels: defaulted_store GetSenderTrustLevel SetSenderTrustLevel
  by unfold_locales (simp add: GetSenderTrustLevel_def SetSenderTrustLevel_def um_at_def store_simps)

section \<open>Saving and loading\<close>

record TrustDocument =
  td_tool_trust :: "(string \<times> string) list option"
  td_sender_trust :: "(string \<times> string) list option"
  td_policies :: "(string \<times> PolicyJson) list option"

definition SaveTrust :: "TrustModelManager \<Rightarrow> TrustDocument" where
  "SaveTrust m =
     \<lparr>td_tool_trust = Some (map (\<lambda>(tool, level). (tool, TrustLevelToString level)) (tool_trust m)),
      td_sender_trust = Some (map (\<lambda>(sender, level). (sender, TrustLevelToString level)) (sender_trust m)),
      td_policies = Some (map (\<lambda>(level, policy). (TrustLevelToString level, Policy_ToJson policy)) (policies m))\<rparr>"

text \<open>The loading loops; \<open>False\<close> when a level text throws, with what was stored before it.\<close>

fun load_levels :: "(string \<times> string) list \<Rightarrow> (string, TrustLevel) umap
    \<Rightarrow> (string, TrustLevel) umap \<times> bool" where
  "load_levels [] acc = (acc, True)"
| "load_levels ((key, level_str) # rest) acc =
     (case StringToTrustLevel level_str of
        None \<Rightarrow> (acc, False)
      | Some level \<Rightarrow> load_levels rest (AList.update key level acc))"

fun load_policies :: "(string \<times> PolicyJson) list \<Rightarrow> (TrustLevel, SecurityPolicy) umap
    \<Rightarrow> (TrustLevel, SecurityPolicy) umap \<times> bool" where
  "load_policies [] acc = (acc, True)"
| "load_policies ((level_str, policy_json) # rest) acc =
     (case StringToTrustLevel level_str of
        None \<Rightarrow> (acc, False)
      | Some level \<Rightarrow> load_policies rest (AList.update level (Policy_FromJson policy_json) acc))"

definition load_tools :: "TrustDocument \<Rightarrow> TrustModelManager \<Rightarrow> TrustModelManager \<times> bool" where
  "load_tools doc m =
     (case td_tool_trust doc of
        None \<Rightarrow> (m, True)
      | Some items \<Rightarrow> (let (t, ok) = load_levels items [] in (m\<lparr>tool_trust := t\<rparr>, ok)))"

definition load_senders :: "TrustDocument \<Rightarrow> TrustModelManager \<Rightarrow> TrustModelManager \<times> bool" where
  "load_senders doc m =
     (case td_sender_trust doc of
        None \<Rightarrow> (m, True)
      | Some items \<Rightarrow> (let (t, ok) = load_levels items [] in (m\<lparr>sender_trust := t\<rparr>, ok)))"

definition load_policy_part :: "TrustDocument \<Rightarrow> TrustModelManager \<Rightarrow> TrustModelManager \<times> bool" where
  "load_policy_part doc m =
     (case td_policies doc of
        None \<Rightarrow> (m, True)
      | Some items \<Rightarrow> (let (p, ok) = load_policies items (policies m) in (m\<lparr>policies := p\<rparr>, ok)))"

text \<open>\<open>None\<close> is a file that cannot be opened or parsed; the flag tells whether \<open>Load\<close> returns.\<close>

definition LoadTrust :: "TrustDocument option \<Rightarrow> TrustModelManager \<Rightarrow> TrustModelManager \<times> bool" where
  "LoadTrust file m =
     (case file of
        None \<Rightarrow> (m, False)
      | Some doc \<Rightarrow>
          (let (m1, ok1) = load_tools doc m
           in if \<not> ok1 then (m1, False)
              else let (m2, ok2) = load_senders doc m1
                   in if \<not> ok2 then (m2, False)
                      else load_policy_part doc m2))"

section \<open>Policies are always there\<close>

datatype trust_op = TSetTool string TrustLevel | TSetSender string TrustLevel
  | TSetPolicy TrustLevel SecurityPolicy | TLoad "TrustDocument option" | TReset

fun trust_step :: "TrustModelManager \<Rightarrow> trust_op \<Rightarrow> TrustModelManager" where
  "trust_step m (TSetTool t l) = SetToolTrustLevel t l m"
| "trust_step m (TSetSender s l) = SetSenderTrustLevel s l m"
| "trust_step m (TSetPolicy l p) = SetPolicy l p m"
| "trust_step m (TLoad f) = fst (LoadTrust f m)"
| "trust_step m TReset = ResetTrust m"

definition trust_inv :: "TrustModelManager \<Rightarrow> bool" where
  "trust_inv m \<longleftrightarrow> um_ok (tool_trust m) \<and> um_ok (sender_trust m) \<and> um_ok (policies m)
     \<and> map_of (policies m) kTrusted \<noteq> None \<and> map_of (policies m) kSemiTrusted \<noteq> None
     \<and> map_of (policies m) kUntrusted \<noteq> None
     \<and> default_source_trust m = default_source_trust TrustModelManager_init"

lemma load_levels_ok: "um_ok acc \<Longrightarrow> um_ok (fst (load_levels items acc))"
  by (induction items acc rule: load_levels.induct) (auto split: option.splits)

lemma load_policies_ok: "um_ok acc \<Longrightarrow> um_ok (fst (load_policies items acc))"
  by (induction items acc rule: load_policies.induct) (auto split: option.splits)

lemma load_policies_keeps: "map_of acc l \<noteq> None \<Longrightarrow> map_of (fst (load_policies items acc)) l \<noteq> None"
  by (induction items acc rule: load_policies.induct) (auto simp: store_simps split: option.splits)

lemma load_part_inv:
  assumes "trust_inv m"
  shows "trust_inv (fst (load_tools doc m))" and "trust_inv (fst (load_senders doc m))"
    and "trust_inv (fst (load_policy_part doc m))"
  using assms load_policies_keeps [of "policies m"]
  by (auto simp: load_tools_def load_senders_def load_policy_part_def trust_inv_def load_levels_ok
      load_policies_ok split_def Let_def split: option.splits)

lemma LoadTrust_inv: "trust_inv m \<Longrightarrow> trust_inv (fst (LoadTrust f m))"
  using load_part_inv by (auto simp: LoadTrust_def Let_def split_def split: option.splits)

lemma defaults_inv: "um_ok (tool_trust m) \<Longrightarrow> um_ok (sender_trust m) \<Longrightarrow> um_ok (policies m) \<Longrightarrow>
    default_source_trust m = default_source_trust TrustModelManager_init \<Longrightarrow>
    trust_inv (InitializeDefaultPolicies m)"
  by (simp add: trust_inv_def InitializeDefaultPolicies_def store_simps)

interpretation trust: guarded_machine
  "\<lambda>m. m = TrustModelManager_init" "\<lambda>_ _. True" trust_step trust_inv
proof
  show "trust_inv m" if "m = TrustModelManager_init" for m
    unfolding that by (subst TrustModelManager_init_def, rule defaults_inv)
      (simp_all add: TrustModelManager_init_def InitializeDefaultPolicies_def)
  show "trust_inv (trust_step m e)" if "trust_inv m" "True" for m e
  proof (cases e)
    case TReset
    have "default_source_trust m = default_source_trust TrustModelManager_init"
      using that(1) by (simp add: trust_inv_def)
    then have "trust_inv (ResetTrust m)" unfolding ResetTrust_def by (intro defaults_inv) simp_all
    with TReset show ?thesis by simp
  next
    case (TLoad f)
    with that show ?thesis by (simp add: LoadTrust_inv)
  next
    case (TSetPolicy l p)
    with that(1) show ?thesis by (auto simp: trust_inv_def SetPolicy_def store_simps)
  qed (use that in \<open>simp_all add: trust_inv_def SetToolTrustLevel_def SetSenderTrustLevel_def\<close>)
qed

lemma trust_run_enabled: "trust.enabled_run m es"
  by (induction es arbitrary: m) simp_all

text \<open>
  Whatever sequence of settings, resets and loads (failing ones included) a manager
  goes through, \<open>GetPolicy\<close> never throws, an unknown content source is untrusted, and the web
  sources stay untrusted, because no operation writes the source table.
\<close>

theorem policies_always_defined:
  "\<exists>p. GetPolicy (foldl trust_step TrustModelManager_init es) level = Some p"
  "source \<notin> {''user_input'', ''local_file'', ''system'', ''channel_message''} \<longleftrightarrow>
     GetTrustLevel (foldl trust_step TrustModelManager_init es) source = kUntrusted"
proof -
  have i: "trust_inv (foldl trust_step TrustModelManager_init es)"
    using trust.inv_from_start trust_run_enabled by blast
  then show "\<exists>p. GetPolicy (foldl trust_step TrustModelManager_init es) level = Some p"
    by (cases level) (auto simp: trust_inv_def GetPolicy_def)
  from i show "source \<notin> {''user_input'', ''local_file'', ''system'', ''channel_message''} \<longleftrightarrow>
      GetTrustLevel (foldl trust_step TrustModelManager_init es) source = kUntrusted"
    by (auto simp: trust_inv_def GetTrustLevel_def um_at_def TrustModelManager_init_def
        InitializeDefaultPolicies_def split: if_splits)
qed

section \<open>Round trip through a file\<close>

text \<open>
  A document read back has the members that were written, in whatever order: the JSON library
  prints and parses objects without loss and sorts their members.
\<close>

definition same_members :: "('k \<times> 'v) list option \<Rightarrow> ('k \<times> 'v) list option \<Rightarrow> bool" where
  "same_members a b \<longleftrightarrow>
     (case (a, b) of (None, None) \<Rightarrow> True | (Some x, Some y) \<Rightarrow> distinct (map fst y) \<and> set x = set y
      | _ \<Rightarrow> False)"

definition reread :: "TrustDocument \<Rightarrow> TrustDocument \<Rightarrow> bool" where
  "reread d d' \<longleftrightarrow> same_members (td_tool_trust d) (td_tool_trust d')
     \<and> same_members (td_sender_trust d) (td_sender_trust d') \<and> same_members (td_policies d) (td_policies d')"

lemma String_TrustLevel [simp]: "StringToTrustLevel (TrustLevelToString l) = Some l"
  by (cases l) (simp_all add: StringToTrustLevel_def)

lemma String_TrustLevel_iff: "StringToTrustLevel s = Some l \<longleftrightarrow> s = TrustLevelToString l"
  by (cases l) (auto simp: StringToTrustLevel_def split: if_splits)

lemma load_levels_all:
  assumes "\<forall>(k, s) \<in> set items. StringToTrustLevel s \<noteq> None" and "distinct (map fst items)"
  shows "snd (load_levels items acc)"
    and "map_of (fst (load_levels items acc)) k =
      (case map_of items k of None \<Rightarrow> map_of acc k | Some s \<Rightarrow> StringToTrustLevel s)"
proof -
  show "snd (load_levels items acc)"
    using assms by (induction items acc rule: load_levels.induct) (auto split: option.splits)
  show "map_of (fst (load_levels items acc)) k =
      (case map_of items k of None \<Rightarrow> map_of acc k | Some s \<Rightarrow> StringToTrustLevel s)"
    using assms
  proof (induction items acc rule: load_levels.induct)
    case (2 key level_str rest acc)
    have "map_of rest key = None" using 2(3) by (simp add: map_of_eq_None_iff)
    with 2 show ?case by (cases "map_of rest k") (auto simp: store_simps)
  qed simp
qed

lemma load_policies_all:
  assumes "\<forall>(s, j) \<in> set items. StringToTrustLevel s \<noteq> None" and "distinct (map fst items)"
  shows "snd (load_policies items acc)"
    and "map_of (fst (load_policies items acc)) l =
      (case map_of items (TrustLevelToString l) of None \<Rightarrow> map_of acc l | Some j \<Rightarrow> Some (Policy_FromJson j))"
proof -
  show "snd (load_policies items acc)"
    using assms by (induction items acc rule: load_policies.induct) (auto split: option.splits)
  show "map_of (fst (load_policies items acc)) l =
      (case map_of items (TrustLevelToString l) of None \<Rightarrow> map_of acc l | Some j \<Rightarrow> Some (Policy_FromJson j))"
    using assms
  proof (induction items acc rule: load_policies.induct)
    case (2 level_str j rest acc)
    then obtain level where lv: "level_str = TrustLevelToString level"
      by (auto simp: String_TrustLevel_iff)
    have "map_of rest (TrustLevelToString level) = None"
      using 2(3) lv by (force simp: map_of_eq_None_iff)
    moreover have "TrustLevelToString l = TrustLevelToString level \<longleftrightarrow> l = level"
      by (metis String_TrustLevel option.inject)
    ultimately show ?case
      using 2 lv by (cases "map_of rest (TrustLevelToString l)") (auto simp: store_simps)
  qed simp
qed

lemma saved_levels:
  assumes "um_ok m" and "set items = set (map (\<lambda>(k, l). (k, TrustLevelToString l)) m)"
    and "distinct (map fst items)"
  shows "snd (load_levels items acc)"
    and "map_of (fst (load_levels items [])) k = map_of m k"
proof -
  have v: "\<forall>(k, s) \<in> set items. StringToTrustLevel s \<noteq> None" using assms(2) by auto
  show "snd (load_levels items acc)" by (rule load_levels_all(1) [OF v assms(3)])
  have "map_of items k = map_option TrustLevelToString (map_of m k)"
  proof (cases "map_of m k")
    case None
    then have "k \<notin> fst ` set m" by (simp add: map_of_eq_None_iff)
    then have "k \<notin> fst ` set items" using assms(2) by force
    with None show ?thesis by (simp add: map_of_eq_None_iff [symmetric])
  next
    case (Some l)
    then have "(k, TrustLevelToString l) \<in> set items" using assms(2) by (force dest: map_of_SomeD)
    with assms(3) Some show ?thesis by simp
  qed
  then show "map_of (fst (load_levels items [])) k = map_of m k"
    unfolding load_levels_all(2) [OF v assms(3)] by (cases "map_of m k") simp_all
qed

lemma saved_policies:
  assumes "um_ok m" and "set items = set (map (\<lambda>(l, p). (TrustLevelToString l, Policy_ToJson p)) m)"
    and "distinct (map fst items)"
  shows "snd (load_policies items acc)"
    and "map_of m l = Some p \<Longrightarrow>
      map_of (fst (load_policies items acc)) l = Some (Policy_FromJson (Policy_ToJson p))"
proof -
  have v: "\<forall>(s, j) \<in> set items. StringToTrustLevel s \<noteq> None" using assms(2) by auto
  show "snd (load_policies items acc)" by (rule load_policies_all(1) [OF v assms(3)])
  assume "map_of m l = Some p"
  then have "(TrustLevelToString l, Policy_ToJson p) \<in> set items" using assms(2) by (force dest: map_of_SomeD)
  with assms(3) have "map_of items (TrustLevelToString l) = Some (Policy_ToJson p)" by simp
  then show "map_of (fst (load_policies items acc)) l = Some (Policy_FromJson (Policy_ToJson p))"
    by (simp add: load_policies_all(2) [OF v assms(3)])
qed

text \<open>
  Saving the manager of any run and loading the file into any other manager restores
  every tool level and every sender level, and every policy up to the conversion of its size
  limit through \<open>int\<close>.
\<close>

theorem trust_save_load:
  assumes "a = foldl trust_step TrustModelManager_init es" and "reread (SaveTrust a) doc"
  shows "(snd (LoadTrust (Some doc) b)) \<and>
    (GetToolTrustLevel (fst (LoadTrust (Some doc) b)) t = GetToolTrustLevel a t) \<and>
    (GetSenderTrustLevel (fst (LoadTrust (Some doc) b)) t = GetSenderTrustLevel a t) \<and>
    (GetPolicy (fst (LoadTrust (Some doc) b)) l
       = map_option (\<lambda>p. Policy_FromJson (Policy_ToJson p)) (GetPolicy a l))"
proof (intro conjI impI)
  have i: "trust_inv a"
    unfolding assms(1) using trust.inv_from_start trust_run_enabled by blast
  obtain ti si pi where doc: "td_tool_trust doc = Some ti" "td_sender_trust doc = Some si"
      "td_policies doc = Some pi" "distinct (map fst ti)" "distinct (map fst si)" "distinct (map fst pi)"
      "set ti = set (map (\<lambda>(k, l). (k, TrustLevelToString l)) (tool_trust a))"
      "set si = set (map (\<lambda>(k, l). (k, TrustLevelToString l)) (sender_trust a))"
      "set pi = set (map (\<lambda>(l, p). (TrustLevelToString l, Policy_ToJson p)) (policies a))"
    using assms(2) by (auto simp: reread_def same_members_def SaveTrust_def split: option.splits)
  have ok: "um_ok (tool_trust a)" "um_ok (sender_trust a)" "um_ok (policies a)"
    using i by (simp_all add: trust_inv_def)
  note T = saved_levels [OF ok(1) doc(7,4)] and S = saved_levels [OF ok(2) doc(8,5)]
    and P = saved_policies [OF ok(3) doc(9,6)]
  have load: "LoadTrust (Some doc) b = (b\<lparr>tool_trust := fst (load_levels ti []),
      sender_trust := fst (load_levels si []), policies := fst (load_policies pi (policies b))\<rparr>, True)"
    using T(1) S(1) P(1)
    by (simp add: LoadTrust_def load_tools_def load_senders_def load_policy_part_def doc Let_def split_def)
  show "snd (LoadTrust (Some doc) b)" by (simp add: load)
  show "GetToolTrustLevel (fst (LoadTrust (Some doc) b)) t = GetToolTrustLevel a t"
    by (simp add: load GetToolTrustLevel_def um_at_def T(2))
  show "GetSenderTrustLevel (fst (LoadTrust (Some doc) b)) t = GetSenderTrustLevel a t"
    by (simp add: load GetSenderTrustLevel_def um_at_def S(2))
  obtain p where "map_of (policies a) l = Some p" using i by (cases l) (auto simp: trust_inv_def)
  then show "GetPolicy (fst (LoadTrust (Some doc) b)) l
       = map_option (\<lambda>p. Policy_FromJson (Policy_ToJson p)) (GetPolicy a l)"
    by (simp add: load GetPolicy_def P(2))
qed

theorem trust_save_load_witness:
  "GetToolTrustLevel (fst (LoadTrust (Some (SaveTrust (SetToolTrustLevel ''exec'' kUntrusted
     TrustModelManager_init))) TrustModelManager_init)) ''exec'' = kUntrusted"
proof -
  let ?a = "SetToolTrustLevel ''exec'' kUntrusted TrustModelManager_init"
  have a: "?a = foldl trust_step TrustModelManager_init [TSetTool ''exec'' kUntrusted]" by simp
  have "reread (SaveTrust ?a) (SaveTrust ?a)"
    by (simp add: reread_def same_members_def SaveTrust_def SetToolTrustLevel_def
        TrustModelManager_init_def InitializeDefaultPolicies_def)
  from trust_save_load [OF a this, of TrustModelManager_init "''exec''"] show ?thesis
    by (simp add: tool_levels.get_set_same)
qed

lemma sint_through_int: "sint (through_int w) = signed_take_bit 31 (sint w)"
  unfolding through_int_def
  by transfer (simp add: signed_take_bit_take_bit min_def)

lemma through_int_id: "through_int w = w \<longleftrightarrow> - (2 ^ 31) \<le> sint w \<and> sint w < 2 ^ 31"
proof -
  have "through_int w = w \<longleftrightarrow> signed_take_bit 31 (sint w) = sint w"
    using sint_through_int [of w] by (auto intro: signed_word_eqI)
  then show ?thesis using signed_take_bit_int_eq_self_iff [of 31 "sint w"] by simp
qed

text \<open>
  The size limit of a policy survives saving and loading exactly when it is below 2 GiB
  (or so large that it is a small negative number as a signed value); a limit of 4 GiB comes
  back as 0, which means no limit at all, and one of 2 GiB as more than 16 EiB minus 2 GiB.
\<close>

theorem policy_size_limit_roundtrip:
  "(Policy_FromJson (Policy_ToJson p) = p \<longleftrightarrow>
     - (2 ^ 31) \<le> sint (max_content_size p) \<and> sint (max_content_size p) < 2 ^ 31) \<and>
    (max_content_size (Policy_FromJson (Policy_ToJson (p\<lparr>max_content_size := 4294967296\<rparr>))) = 0) \<and>
    (unat (max_content_size (Policy_FromJson (Policy_ToJson (p\<lparr>max_content_size := 2147483648\<rparr>))))
     = 18446744071562067968)"
proof (intro conjI impI)
  show "Policy_FromJson (Policy_ToJson p) = p \<longleftrightarrow>
     - (2 ^ 31) \<le> sint (max_content_size p) \<and> sint (max_content_size p) < 2 ^ 31"
    unfolding through_int_id [symmetric]
    by (cases p) (auto simp: Policy_FromJson_def Policy_ToJson_def value_or_def)
  show "max_content_size (Policy_FromJson (Policy_ToJson (p\<lparr>max_content_size := 4294967296\<rparr>))) = 0"
    by (simp add: Policy_FromJson_def Policy_ToJson_def value_or_def through_int_def)
  show "unat (max_content_size (Policy_FromJson (Policy_ToJson (p\<lparr>max_content_size := 2147483648\<rparr>))))
     = 18446744071562067968"
    by (simp add: Policy_FromJson_def Policy_ToJson_def value_or_def through_int_def)
qed

end
