(* ===== verification/Patterns.thy ===== *)
theory Patterns
  imports RavPrelude "HOL-Library.Sublist"
begin

text \<open>
  The pieces of ECMAScript regular expressions that the fixed patterns of the sources use,
  matched without case: word boundaries, literals, runs of white space, and the search at
  every position that \<open>std::regex_search\<close> makes.
\<close>

definition is_word :: "char \<Rightarrow> bool" where
  "is_word c \<longleftrightarrow> is_digit c \<or> (65 \<le> byte c \<and> byte c \<le> 90) \<or> (97 \<le> byte c \<and> byte c \<le> 122) \<or> c = CHR ''_''"

text \<open>\<open>\b\<close> between a preceding character, if any, and what follows.\<close>

definition word_boundary :: "char option \<Rightarrow> string \<Rightarrow> bool" where
  "word_boundary prev s \<longleftrightarrow>
     (case prev of None \<Rightarrow> False | Some c \<Rightarrow> is_word c) \<noteq> (case s of [] \<Rightarrow> False | c # cs \<Rightarrow> is_word c)"

text \<open>A literal, compared without case; the rest of the text when it matches.\<close>

definition literal :: "string \<Rightarrow> string \<Rightarrow> string option" where
  "literal l s = (if map to_lower (take (length l) s) = l then Some (drop (length l) s) else None)"

definition spaces1 :: "string \<Rightarrow> string option" where
  "spaces1 s = (if s \<noteq> [] \<and> is_space (hd s) then Some (dropWhile is_space s) else None)"

text \<open>\<open>regex_search\<close> tries every position.\<close>

fun search_at :: "(char option \<Rightarrow> string \<Rightarrow> bool) \<Rightarrow> char option \<Rightarrow> string \<Rightarrow> bool" where
  "search_at m prev [] = m prev []"
| "search_at m prev (c # cs) = (m prev (c # cs) \<or> search_at m (Some c) cs)"

lemma search_at_found: "m (if a = [] then prev else Some (last a)) s \<Longrightarrow> search_at m prev (a @ s)"
proof (induction a arbitrary: prev)
  case Nil
  then show ?case by (cases s) auto
next
  case (Cons c a)
  then show ?case by (cases "a = []") auto
qed

lemma dropWhile_spaces: "\<forall>c \<in> set sp. is_space c \<Longrightarrow> \<not> is_space x \<Longrightarrow> dropWhile is_space (sp @ x # r) = x # r"
  by (induction sp) auto

text \<open>
  \<open>regex_replace\<close> with the empty text, for patterns that never match the empty text: at each
  position from the left the match is dropped, or the character is kept. A matcher gets the
  preceding character and the rest of the text and answers what follows the match.
\<close>

function replace_all :: "(char option \<Rightarrow> string \<Rightarrow> string option) \<Rightarrow> char option \<Rightarrow> string \<Rightarrow> string" where
  "replace_all m prev [] = []"
| "replace_all m prev (c # cs) =
     (case m prev (c # cs) of
        Some r \<Rightarrow>
          if length r \<le> length cs then replace_all m (Some ((c # cs) ! (length cs - length r))) r
          else c # replace_all m (Some c) cs
      | None \<Rightarrow> c # replace_all m (Some c) cs)"
  by pat_completeness auto
termination
  by (relation "measure (\<lambda>(m, prev, s). length s)") auto

text \<open>A position where nothing is matched keeps its character.\<close>

lemma replace_all_skip: "m prev (c # cs) = None \<Longrightarrow> replace_all m prev (c # cs) = c # replace_all m (Some c) cs"
  by simp

lemma replace_all_id:
  "(\<And>prev a b. s = a @ b \<Longrightarrow> b \<noteq> [] \<Longrightarrow> m prev b = None) \<Longrightarrow> replace_all m prev s = s"
proof (induction s arbitrary: prev)
  case (Cons c cs)
  have "m prev (c # cs) = None" using Cons.prems [of "[]"] by simp
  moreover have "replace_all m (Some c) cs = cs"
  proof (rule Cons.IH)
    fix p a b assume "cs = a @ b" "b \<noteq> []"
    then show "m p b = None" using Cons.prems [of "c # a" b p] by simp
  qed
  ultimately show ?case by simp
qed simp

lemma dropped_suffix: "(\<And>prev s r. m prev s = Some r \<Longrightarrow> suffix r s) \<Longrightarrow> subseq (replace_all m prev s) s"
proof (induction m prev s rule: replace_all.induct)
  case (2 m prev c cs)
  show ?case
  proof (cases "m prev (c # cs)")
    case None
    with 2 show ?thesis by simp
  next
    case (Some r)
    have suf: "suffix r (c # cs)" by (rule 2(4)) (rule Some)
    show ?thesis
    proof (cases "length r \<le> length cs")
      case True
      with 2 Some have "subseq (replace_all m (Some ((c # cs) ! (length cs - length r))) r) r" by simp
      moreover have "subseq r (c # cs)" using suf by (rule suffix_imp_subseq)
      ultimately show ?thesis using Some True by (simp add: subseq_order.trans)
    next
      case False
      with 2 Some show ?thesis by simp
    qed
  qed
qed simp

lemma literal_suffix: "literal l s = Some r \<Longrightarrow> suffix r s"
  by (auto simp: literal_def suffix_drop split: if_splits)

lemma literal_head: "literal (x # l) (c # cs) = Some r \<Longrightarrow> to_lower c = x"
  by (auto simp: literal_def split: if_splits)

lemma literal_none: "to_lower c \<noteq> x \<Longrightarrow> literal (x # l) (c # cs) = None"
  by (auto simp: literal_def)

end
