(* ===== verification/SandboxPaths.thy ===== *)
theory SandboxPaths
  imports Patterns
begin

text \<open>
  The sandbox checks of \<open>src/security/sandbox.cpp\<close> on paths and shell commands, on a POSIX
  system: \<open>std::filesystem::absolute\<close>, \<open>lexically_normal\<close> and the three fixed regular
  expressions are the standard library's, written out; the configured regular expressions are
  matched by an argument. The resource limits are system calls and not modelled.
\<close>

section \<open>Paths of the standard library\<close>

definition slash :: char where "slash = CHR ''/''"

text \<open>\<open>absolute\<close> of the empty path is an error (\<open>None\<close>).\<close>

definition is_absolute :: "string \<Rightarrow> bool" where
  "is_absolute p \<longleftrightarrow> p \<noteq> [] \<and> hd p = slash"

definition fs_absolute :: "string \<Rightarrow> string \<Rightarrow> string option" where
  "fs_absolute cwd p =
     (if p = [] then None
      else if is_absolute p then Some p
      else if cwd \<noteq> [] \<and> last cwd = slash then Some (cwd @ p)
      else Some (cwd @ slash # p))"

text \<open>The texts between the separators, empty ones included.\<close>

fun segments :: "string \<Rightarrow> string list" where
  "segments [] = [[]]"
| "segments (c # cs) =
     (if c = slash then [] # segments cs
      else case segments cs of s # ss \<Rightarrow> (c # s) # ss | [] \<Rightarrow> [[c]])"

definition dot :: string where "dot = ''.''"

definition dotdot :: string where "dotdot = ''..''"

text \<open>One element of the normalisation; the stack holds the elements kept so far, newest first.\<close>

definition normal_step :: "bool \<Rightarrow> string list \<Rightarrow> string \<Rightarrow> string list" where
  "normal_step rooted stack seg =
     (if seg = [] \<or> seg = dot then stack
      else if seg = dotdot then
        (case stack of
           [] \<Rightarrow> (if rooted then [] else [dotdot])
         | newest # rest \<Rightarrow> if newest = dotdot then dotdot # stack else rest)
      else seg # stack)"

definition lexically_normal :: "string \<Rightarrow> string" where
  "lexically_normal p =
     (if p = [] then []
      else
        (let rooted = is_absolute p;
             segs = segments p;
             stack = foldl (normal_step rooted) [] segs;
             trailing = (stack \<noteq> [] \<and> hd stack \<noteq> dotdot \<and> last segs \<in> {[], dot, dotdot});
             r = (if rooted then [slash] else []) @ str_join [slash] (rev stack)
                   @ (if trailing then [slash] else [])
         in if r = [] then dot else r))"

section \<open>The checks\<close>

record Sandbox =
  sb_workspace_path :: string
  sb_allowed_paths :: "string list"
  sb_denied_paths :: "string list"
  sb_allowed_commands :: "string list"
  sb_denied_commands :: "string list"

text \<open>Whether some entry, made absolute, is found at position 0 of the path.\<close>

fun starts_with_entry :: "string \<Rightarrow> string \<Rightarrow> string list \<Rightarrow> bool option" where
  "starts_with_entry cwd path [] = Some False"
| "starts_with_entry cwd path (e # es) =
     (case fs_absolute cwd e of
        None \<Rightarrow> None
      | Some r \<Rightarrow> if str_find r path = Some 0 then Some True else starts_with_entry cwd path es)"

definition IsPathAllowed :: "string \<Rightarrow> Sandbox \<Rightarrow> string \<Rightarrow> bool option" where
  "IsPathAllowed cwd sb path =
     (case fs_absolute cwd path of
        None \<Rightarrow> None
      | Some resolved \<Rightarrow>
          (case starts_with_entry cwd resolved (sb_denied_paths sb) of
             None \<Rightarrow> None
           | Some True \<Rightarrow> Some False
           | Some False \<Rightarrow>
               if sb_allowed_paths sb \<noteq> [] then starts_with_entry cwd resolved (sb_allowed_paths sb)
               else Some True))"

definition IsCommandAllowed :: "(string \<Rightarrow> string \<Rightarrow> bool) \<Rightarrow> Sandbox \<Rightarrow> string \<Rightarrow> bool" where
  "IsCommandAllowed regex_search_icase sb command \<longleftrightarrow>
     \<not> list_ex (\<lambda>pattern. regex_search_icase pattern command) (sb_denied_commands sb)"

text \<open>\<open>None\<close> is the thrown \<open>runtime_error\<close>.\<close>

definition SanitizePath :: "string \<Rightarrow> string option" where
  "SanitizePath path =
     (let clean_path = lexically_normal path
      in if take 2 clean_path = dotdot then None else Some clean_path)"

definition ValidateFilePath :: "string \<Rightarrow> string \<Rightarrow> bool" where
  "ValidateFilePath path workspace =
     (let path_str = lexically_normal path
      in if str_find dotdot path_str \<noteq> None then False else True)"

subsection \<open>The fixed regular expressions\<close>

definition match_rm :: "char option \<Rightarrow> string \<Rightarrow> bool" where
  "match_rm prev s \<longleftrightarrow> word_boundary prev s \<and>
     (case literal ''rm'' s of None \<Rightarrow> False | Some a \<Rightarrow>
     (case spaces1 a of None \<Rightarrow> False | Some b \<Rightarrow>
     (case literal ''-rf'' b of None \<Rightarrow> False | Some c \<Rightarrow>
     (case spaces1 c of None \<Rightarrow> False | Some d \<Rightarrow> literal ''/'' d \<noteq> None))))"

definition match_mkfs :: "char option \<Rightarrow> string \<Rightarrow> bool" where
  "match_mkfs prev s \<longleftrightarrow> word_boundary prev s \<and>
     (case literal ''mkfs'' s of None \<Rightarrow> False | Some a \<Rightarrow> word_boundary (Some (CHR ''s'')) a)"

definition match_dd :: "char option \<Rightarrow> string \<Rightarrow> bool" where
  "match_dd prev s \<longleftrightarrow> word_boundary prev s \<and>
     (case literal ''dd'' s of None \<Rightarrow> False | Some a \<Rightarrow>
     (case spaces1 a of None \<Rightarrow> False | Some b \<Rightarrow> literal ''if='' b \<noteq> None))"

definition ValidateShellCommand :: "string \<Rightarrow> bool" where
  "ValidateShellCommand command =
     (if list_ex (\<lambda>m. search_at m None command) [match_rm, match_mkfs, match_dd] then False else True)"

section \<open>What the relative-path checks guarantee\<close>

text \<open>
  Following a path from a directory (its names, innermost first): the reading the operating
  system gives to a path without symbolic links.
\<close>

definition enter :: "string list \<Rightarrow> string \<Rightarrow> string list" where
  "enter dir seg = (if seg = [] \<or> seg = dot then dir else if seg = dotdot then tl dir else seg # dir)"

definition walk :: "string list \<Rightarrow> string \<Rightarrow> string list" where
  "walk dir p = foldl enter dir (segments p)"

definition climbs :: "nat \<Rightarrow> string list \<Rightarrow> string list" where
  "climbs k names = names @ replicate k dotdot"

lemma normal_follows_walk:
  "dotdot \<notin> set names \<Longrightarrow>
   \<exists>k' names'. foldl (normal_step False) (climbs k names) segs = climbs k' names'
     \<and> dotdot \<notin> set names' \<and> foldl enter (names @ drop k base) segs = names' @ drop k' base"
proof (induction segs arbitrary: k names)
  case Nil
  then show ?case by auto
next
  case (Cons s segs)
  consider "s = [] \<or> s = dot" | "s = dotdot" "names = []" | n ns where "s = dotdot" "names = n # ns"
    | "s \<noteq> []" "s \<noteq> dot" "s \<noteq> dotdot" by (cases names) auto
  then show ?case
  proof cases
    case 1
    then show ?thesis using Cons.IH [OF Cons.prems, of k] by (simp add: normal_step_def enter_def)
  next
    case 2
    have "normal_step False (climbs k []) dotdot = climbs (Suc k) []"
      by (cases k) (simp_all add: normal_step_def climbs_def dotdot_def dot_def)
    moreover have "enter (drop k base) dotdot = drop (Suc k) base"
      by (simp add: enter_def dotdot_def dot_def drop_Suc drop_tl)
    ultimately show ?thesis using 2 Cons.IH [of "[]" "Suc k"] by simp
  next
    case 3
    then have "normal_step False (climbs k names) s = climbs k ns" "enter (names @ drop k base) s = ns @ drop k base"
      using Cons.prems by (auto simp: normal_step_def climbs_def enter_def dotdot_def dot_def)
    then show ?thesis using 3 Cons.IH [of ns k] Cons.prems by simp
  next
    case 4
    then have "normal_step False (climbs k names) s = climbs k (s # names)"
      "enter (names @ drop k base) s = (s # names) @ drop k base"
      by (simp_all add: normal_step_def climbs_def enter_def)
    then show ?thesis using 4 Cons.IH [of "s # names" k] Cons.prems by simp
  qed
qed

lemma str_join_starts: "\<exists>r. str_join sep (x # xs) = x @ r"
  by (simp add: str_join_Cons)

lemma climbing_normal:
  assumes "\<not> is_absolute p" and "p \<noteq> []"
  shows "take 2 (lexically_normal p) = dotdot \<or> (\<exists>names. walk base p = names @ base)"
proof -
  from normal_follows_walk [of "[]" 0 "segments p" base]
  obtain k names where n: "foldl (normal_step False) [] (segments p) = climbs k names"
    "foldl enter base (segments p) = names @ drop k base" by (auto simp: climbs_def)
  show ?thesis
  proof (cases k)
    case 0
    then show ?thesis using n(2) by (auto simp: walk_def)
  next
    case (Suc j)
    then have "rev (climbs k names) = dotdot # (replicate j dotdot @ rev names)"
      by (simp add: climbs_def rev_replicate flip: replicate_append_same)
    then obtain r where "str_join [slash] (rev (climbs k names)) = dotdot @ r"
      using str_join_starts by metis
    then have "take 2 (lexically_normal p) = dotdot"
      using assms n(1) by (simp add: lexically_normal_def Let_def dotdot_def)
    then show ?thesis ..
  qed
qed

text \<open>
  Claim C11. For relative paths both checks keep a program inside its directory: a relative path
  that \<open>SanitizePath\<close> returns for or \<open>ValidateFilePath\<close> accepts leads, from any working
  directory, to that directory or below it, however its \<open>.\<close>, \<open>..\<close> and empty elements are
  arranged.
\<close>

theorem relative_paths_contained:
  assumes "\<not> is_absolute p" and "SanitizePath p \<noteq> None \<or> ValidateFilePath p workspace"
  shows "\<exists>names. walk base p = names @ base"
proof (cases "p = []")
  case True
  then show ?thesis by (simp add: walk_def enter_def)
next
  case False
  have "take 2 (lexically_normal p) \<noteq> dotdot"
  proof
    assume t: "take 2 (lexically_normal p) = dotdot"
    then have "str_find dotdot ([] @ dotdot @ drop 2 (lexically_normal p)) \<noteq> None"
      by (intro str_find_append)
    moreover have "[] @ dotdot @ drop 2 (lexically_normal p) = lexically_normal p"
      by (metis append_Nil append_take_drop_id t)
    ultimately show False
      using assms(2) t by (auto simp: SanitizePath_def ValidateFilePath_def Let_def split: if_splits)
  qed
  then show ?thesis using climbing_normal [OF assms(1) False] by blast
qed

theorem relative_paths_contained_witness:
  "SanitizePath ''a//./../b/c/'' = Some ''b/c/'' \<and> (\<exists>names. walk [''ws''] ''a//./../b/c/'' = names @ [''ws''])"
proof -
  have s: "SanitizePath ''a//./../b/c/'' = Some ''b/c/''" by code_simp
  have "\<not> is_absolute ''a//./../b/c/''" by code_simp
  from relative_paths_contained [OF this, of _ "[''ws'']"] s show ?thesis by simp
qed

section \<open>What the prefix tests do not guarantee\<close>

lemma str_find_0: "str_find n s = Some 0 \<longleftrightarrow> is_prefix n s"
  by (cases s) (auto simp: is_prefix_iff)

lemma segments_nonempty: "segments s \<noteq> []"
  by (cases s) (auto split: list.splits)

lemma segments_append: "segments (a @ slash # b) = segments a @ segments b"
proof (induction a)
  case (Cons c a)
  show ?case
  proof (cases "c = slash")
    case False
    with Cons segments_nonempty [of a] show ?thesis by (auto split: list.splits)
  qed (use Cons in simp)
qed simp

lemma walk_append: "walk dir (a @ slash # b) = walk (walk dir a) b"
  by (simp add: walk_def segments_append)

lemma walk_parent: "walk dir (''/..'' @ slash # b) = walk (tl dir) b"
proof -
  have "walk dir ''/..'' = tl dir" by (simp add: walk_def enter_def slash_def dot_def dotdot_def)
  then show ?thesis using walk_append [of dir "''/..''" b] by simp
qed

lemma walk_slash: "walk dir (slash # b) = walk dir b"
  using walk_append [of dir "[]" b] by (simp add: walk_def enter_def)

fun climb :: "nat \<Rightarrow> string" where
  "climb 0 = []"
| "climb (Suc n) = ''/..'' @ climb n"

lemma walk_climb: "walk dir (climb n @ slash # b) = walk (drop n dir) b"
proof (induction n arbitrary: dir)
  case 0
  show ?case by (simp add: walk_slash)
next
  case (Suc n)
  obtain r where r: "climb n @ slash # b = slash # r" by (cases n) (auto simp: slash_def)
  have "walk dir (''/..'' @ slash # r) = walk (tl dir) (slash # r)"
    using walk_parent by (simp add: walk_slash)
  then show ?case using Suc.IH [of "tl dir"] r by (simp add: drop_Suc)
qed

text \<open>
  \<open>IsPathAllowed\<close> compares texts and never normalises, so an allow list does not
  confine: for every allowed absolute directory and every target anywhere in the file system
  there is an allowed path that leads to the target.
\<close>

theorem allow_list_escaped:
  assumes "sb_denied_paths sb = []" and "sb_allowed_paths sb = [dir]" and "is_absolute dir"
  shows "\<exists>path. IsPathAllowed cwd sb path = Some True \<and> walk [] path = walk [] (slash # target)"
proof -
  define path where "path = dir @ climb (length (walk [] dir)) @ slash # target"
  obtain r where r: "climb (length (walk [] dir)) @ slash # target = slash # r"
    by (cases "length (walk [] dir)") (auto simp: slash_def)
  have "is_absolute path" using assms(3) by (auto simp: path_def is_absolute_def)
  then have "fs_absolute cwd path = Some path" "fs_absolute cwd dir = Some dir"
    using assms(3) by (auto simp: fs_absolute_def is_absolute_def)
  then have "IsPathAllowed cwd sb path = Some True"
    using assms(1,2) by (simp add: IsPathAllowed_def str_find_0 path_def)
  moreover have "walk [] path = walk (walk [] dir) r"
    using r by (simp add: path_def walk_append)
  moreover have "walk (walk [] dir) r = walk [] target"
    using walk_climb [of "walk [] dir" "length (walk [] dir)" target] by (simp add: r walk_slash)
  moreover have "walk [] (slash # target) = walk [] target" by (rule walk_slash)
  ultimately show ?thesis by metis
qed

theorem allow_list_escaped_witness:
  "\<exists>path. IsPathAllowed ''/'' \<lparr>sb_workspace_path = ''/ws'', sb_allowed_paths = [''/ws''],
      sb_denied_paths = [], sb_allowed_commands = [], sb_denied_commands = []\<rparr> path = Some True
    \<and> walk [] path = [''shadow'', ''etc'']"
proof -
  have w: "walk [] (slash # ''etc/shadow'') = [''shadow'', ''etc'']" by code_simp
  have a: "is_absolute ''/ws''" by (simp add: is_absolute_def slash_def)
  from allow_list_escaped [of "\<lparr>sb_workspace_path = ''/ws'', sb_allowed_paths = [''/ws''],
      sb_denied_paths = [], sb_allowed_commands = [], sb_denied_commands = []\<rparr>", OF _ _ a, of "''/''" "''etc/shadow''"]
  show ?thesis unfolding w by simp
qed

text \<open>
  A deny list does not deny: if no denied entry is the root or begins with a dot, every
  file of the system, the denied ones included, has a spelling that is allowed.
\<close>

theorem deny_list_bypassed:
  assumes "\<forall>d \<in> set (sb_denied_paths sb). is_absolute d \<and> 2 \<le> length d \<and> d ! 1 \<noteq> CHR ''.''"
    and "sb_allowed_paths sb = []"
  shows "\<exists>path. IsPathAllowed cwd sb path = Some True \<and> walk [] path = walk [] (slash # target)"
proof -
  define path where "path = ''/.'' @ slash # target"
  have no: "starts_with_entry cwd path ds = Some False"
    if "\<forall>d \<in> set ds. is_absolute d \<and> 2 \<le> length d \<and> d ! 1 \<noteq> CHR ''.''" for ds
    using that
  proof (induction ds)
    case (Cons d ds)
    then have d: "is_absolute d" "2 \<le> length d" "d ! 1 \<noteq> CHR ''.''" by auto
    then obtain b c r where "d = b # c # r" "c \<noteq> CHR ''.''"
      by (cases d; cases "tl d") auto
    then have "\<not> is_prefix d path" by (simp add: path_def)
    with d(1) Cons show ?case by (simp add: fs_absolute_def is_absolute_def str_find_0)
  qed simp
  have "fs_absolute cwd path = Some path" by (simp add: fs_absolute_def is_absolute_def path_def slash_def)
  then have "IsPathAllowed cwd sb path = Some True"
    using no [OF assms(1)] assms(2) by (simp add: IsPathAllowed_def)
  moreover have "walk [] path = walk [] (slash # target)"
    using walk_append [of "[]" "''/.''" target] walk_append [of "[]" "[]" target]
    by (simp add: path_def walk_def enter_def slash_def dot_def)
  ultimately show ?thesis by blast
qed

theorem deny_list_bypassed_witness:
  "\<exists>path. IsPathAllowed ''/'' \<lparr>sb_workspace_path = ''/ws'', sb_allowed_paths = [],
      sb_denied_paths = [''/etc''], sb_allowed_commands = [], sb_denied_commands = []\<rparr> path = Some True
    \<and> walk [] path = [''shadow'', ''etc'']"
proof -
  let ?sb = "\<lparr>sb_workspace_path = ''/ws'', sb_allowed_paths = [],
      sb_denied_paths = [''/etc''], sb_allowed_commands = [], sb_denied_commands = []\<rparr>"
  have w: "walk [] (slash # ''etc/shadow'') = [''shadow'', ''etc'']" by code_simp
  have d: "\<forall>d \<in> set (sb_denied_paths ?sb). is_absolute d \<and> 2 \<le> length d \<and> d ! 1 \<noteq> CHR ''.''"
    "sb_allowed_paths ?sb = []"
    by (simp_all add: is_absolute_def slash_def)
  from deny_list_bypassed [OF d, of "''/''" "''etc/shadow''"] show ?thesis unfolding w .
qed

section \<open>The shell filter\<close>

text \<open>
  The filter blocks every command in which the word \<open>rm\<close> is followed by white space,
  \<open>-rf\<close>, white space and an absolute path, wherever it stands, but passes the same deletion
  with its two options apart, in the other order, or with a word before the path.
\<close>

theorem shell_filter:
  assumes "a = [] \<or> \<not> is_word (last a)" and "u \<noteq> []" and "v \<noteq> []" and "\<forall>c \<in> set u \<union> set v. is_space c"
  shows "\<not> ValidateShellCommand (a @ ''rm'' @ u @ ''-rf'' @ v @ ''/'' @ b)"
    and "ValidateShellCommand ''rm -r -f /''" and "ValidateShellCommand ''rm -fr /''"
    and "ValidateShellCommand ''rm -rf -- /''"
proof -
  have sp: "\<not> is_space (CHR ''-'')" "\<not> is_space (CHR ''/'')" by (simp_all add: is_space_def byte_def)
  have low: "map to_lower ''rm'' = ''rm''" "map to_lower ''-rf'' = ''-rf''" "map to_lower ''/'' = ''/''"
    by code_simp+
  have u: "is_space (hd u)" "is_space (hd v)" "\<forall>c \<in> set u. is_space c" "\<forall>c \<in> set v. is_space c"
    using assms(2,3,4) by auto
  have "literal ''rm'' (''rm'' @ u @ ''-rf'' @ v @ ''/'' @ b) = Some (u @ ''-rf'' @ v @ ''/'' @ b)"
    "literal ''-rf'' (''-rf'' @ v @ ''/'' @ b) = Some (v @ ''/'' @ b)" "literal ''/'' (''/'' @ b) = Some b"
    using low by (simp_all add: literal_def)
  moreover have "spaces1 (u @ ''-rf'' @ v @ ''/'' @ b) = Some (''-rf'' @ v @ ''/'' @ b)"
    "spaces1 (v @ ''/'' @ b) = Some (''/'' @ b)"
    using u assms(2,3) sp by (simp_all add: spaces1_def dropWhile_spaces)
  moreover have "word_boundary (if a = [] then None else Some (last a)) (''rm'' @ u @ ''-rf'' @ v @ ''/'' @ b)"
    using assms(1) by (auto simp: word_boundary_def is_word_def is_digit_def byte_def)
  ultimately have "match_rm (if a = [] then None else Some (last a)) (''rm'' @ u @ ''-rf'' @ v @ ''/'' @ b)"
    by (simp only: match_rm_def option.simps) simp
  then have "search_at match_rm None (a @ ''rm'' @ u @ ''-rf'' @ v @ ''/'' @ b)"
    by (rule search_at_found)
  then show "\<not> ValidateShellCommand (a @ ''rm'' @ u @ ''-rf'' @ v @ ''/'' @ b)"
    by (simp add: ValidateShellCommand_def)
  show "ValidateShellCommand ''rm -r -f /''" by code_simp
  show "ValidateShellCommand ''rm -fr /''" by code_simp
  show "ValidateShellCommand ''rm -rf -- /''" by code_simp
qed

theorem shell_filter_witness: "\<not> ValidateShellCommand ''cd x; rm -rf /home''"
proof -
  have p: "''cd x; '' = [] \<or> \<not> is_word (last ''cd x; '')" "'' '' \<noteq> ([]::string)"
    "\<forall>c \<in> set '' '' \<union> set '' ''. is_space c"
    by (simp_all add: is_word_def is_digit_def is_space_def byte_def)
  from shell_filter(1) [OF p(1) p(2) p(2) p(3), of "''home''"] show ?thesis by simp
qed

end
