(* ===== verification/ExecApproval.thy ===== *)
theory ExecApproval
  imports RavPrelude
begin

text \<open>
  Approval of shell commands: \<open>src/security/exec_approval.cpp\<close>. The glob matcher is the
  two-pointer loop of the code; the manager's operations are split at its lock sections, so
  that runs interleave them as threads do. The operator's handler, the clock and the random
  request ids are arguments.
\<close>

section \<open>Modes and decisions\<close>

datatype AskMode = AskOff | AskOnMiss | AskAlways

definition AskModeFromString :: "string \<Rightarrow> AskMode" where
  "AskModeFromString s =
     (if s = ''off'' then AskOff else if s = ''always'' then AskAlways else AskOnMiss)"

fun AskModeToString :: "AskMode \<Rightarrow> string" where
  "AskModeToString AskOff = ''off''"
| "AskModeToString AskAlways = ''always''"
| "AskModeToString AskOnMiss = ''on-miss''"

interpretation ask_mode: enum_codec AskModeToString AskModeFromString AskOnMiss
proof
  show "AskModeFromString (AskModeToString e) = e" for e by (cases e) (simp_all add: AskModeFromString_def)
  show "AskModeFromString s = AskOnMiss" if "\<forall>e. AskModeToString e \<noteq> s" for s
    using that [rule_format, of AskOff] that [rule_format, of AskAlways]
    by (auto simp: AskModeFromString_def)
qed

datatype ApprovalDecision = Approved | Denied | TimedOut | StillPending

fun ApprovalDecisionToString :: "ApprovalDecision \<Rightarrow> string" where
  "ApprovalDecisionToString Approved = ''approved''"
| "ApprovalDecisionToString Denied = ''denied''"
| "ApprovalDecisionToString TimedOut = ''timeout''"
| "ApprovalDecisionToString StillPending = ''pending''"

section \<open>The allow list\<close>

text \<open>
  The loop of \<open>glob_match\<close>: positions in pattern and text, and the last star with the text
  position it was tried at. \<open>None\<close> is \<open>return false\<close>, otherwise the final pattern position.
\<close>

function glob_loop :: "string \<Rightarrow> string \<Rightarrow> nat \<Rightarrow> nat \<Rightarrow> (nat \<times> nat) option \<Rightarrow> nat option" where
  "glob_loop p t pi ti star =
     (if ti < length t then
        if pi < length p \<and> (p ! pi = t ! ti \<or> p ! pi = CHR ''?'') then glob_loop p t (Suc pi) (Suc ti) star
        else if pi < length p \<and> p ! pi = CHR ''*'' then glob_loop p t (Suc pi) ti (Some (pi, ti))
        else (case star of
                Some (star_p, star_t) \<Rightarrow>
                  glob_loop p t (Suc star_p) (Suc star_t) (Some (star_p, Suc star_t))
              | None \<Rightarrow> None)
      else Some pi)"
  by pat_completeness auto

termination
  by (relation "measures
       [\<lambda>(p, t, pi, ti, star). case star of None \<Rightarrow> 0 | Some (sp, st) \<Rightarrow> if pi \<le> sp \<or> ti < st then 1 else 0,
        \<lambda>(p, t, pi, ti, star). length p + 1 - (case star of None \<Rightarrow> 0 | Some (sp, st) \<Rightarrow> Suc sp),
        \<lambda>(p, t, pi, ti, star). length t - (case star of None \<Rightarrow> 0 | Some (sp, st) \<Rightarrow> st),
        \<lambda>(p, t, pi, ti, star). (length p - pi) + (length t - ti)]")
    (auto split: option.splits if_splits)

declare glob_loop.simps [simp del]

definition glob_match :: "string \<Rightarrow> string \<Rightarrow> bool" where
  "glob_match pattern text =
     (case glob_loop pattern text 0 0 None of
        None \<Rightarrow> False
      | Some pi \<Rightarrow> pi + length (takeWhile (\<lambda>c. c = CHR ''*'') (drop pi pattern)) = length pattern)"

type_synonym ExecAllowlist = "string list"

definition AddPattern :: "string \<Rightarrow> ExecAllowlist \<Rightarrow> ExecAllowlist" where
  "AddPattern pattern patterns = patterns @ [pattern]"

definition Matches :: "ExecAllowlist \<Rightarrow> string \<Rightarrow> bool" where
  "Matches patterns command = list_ex (\<lambda>pattern. glob_match pattern command) patterns"

subsection \<open>Against the meaning of a glob\<close>

text \<open>A star stands for any text, a question mark for one character.\<close>

fun glob :: "string \<Rightarrow> string \<Rightarrow> bool" where
  "glob [] t = (t = [])"
| "glob (c # p) t =
     (if c = CHR ''*'' then glob p t \<or> (case t of [] \<Rightarrow> False | x # t' \<Rightarrow> glob (c # p) t')
      else (case t of [] \<Rightarrow> False | x # t' \<Rightarrow> (c = x \<or> c = CHR ''?'') \<and> glob p t'))"

lemma glob_star: "glob (CHR ''*'' # p) t \<longleftrightarrow> (\<exists>k. glob p (drop k t))"
proof (induction t)
  case (Cons x t)
  have "(\<exists>k. glob p (drop k (x # t))) \<longleftrightarrow> glob p (x # t) \<or> (\<exists>k. glob p (drop k t))"
    by (metis drop0 drop_Suc_Cons not0_implies_Suc)
  with Cons show ?case by simp
qed simp

lemma glob_step: "c \<noteq> CHR ''*'' \<Longrightarrow> glob (c # p) (x # t) \<longleftrightarrow> (c = x \<or> c = CHR ''?'') \<and> glob p t"
  by simp

lemma glob_plain: "CHR ''*'' \<notin> set q \<Longrightarrow> glob (q @ r) t \<Longrightarrow> length q \<le> length t \<and> glob r (drop (length q) t)"
proof (induction q arbitrary: t)
  case (Cons c q)
  have c: "c \<noteq> CHR ''*''" using Cons.prems(1) by auto
  with Cons.prems(2) obtain x t' where t: "t = x # t'" by (auto split: list.splits)
  with Cons.prems(2) c have "glob (q @ r) t'" by simp
  with Cons.IH [of t'] Cons.prems t show ?case by simp
qed simp

lemma glob_empty: "glob p [] \<longleftrightarrow> takeWhile (\<lambda>c. c = CHR ''*'') p = p"
  by (induction p) auto

lemma drop_nth: "i < length xs \<Longrightarrow> drop i xs = xs ! i # drop (Suc i) xs"
  by (simp add: Cons_nth_drop_Suc)

text \<open>What is left to try from a state of the loop.\<close>

definition viable :: "string \<Rightarrow> string \<Rightarrow> nat \<Rightarrow> nat \<Rightarrow> (nat \<times> nat) option \<Rightarrow> bool" where
  "viable p t pi ti star \<longleftrightarrow> glob (drop pi p) (drop ti t)
     \<or> (\<exists>sp st j. star = Some (sp, st) \<and> st < j \<and> glob (drop (Suc sp) p) (drop j t))"

definition accepts :: "string \<Rightarrow> nat option \<Rightarrow> bool" where
  "accepts p r \<longleftrightarrow>
     (case r of None \<Rightarrow> False | Some pi \<Rightarrow> pi + length (takeWhile (\<lambda>c. c = CHR ''*'') (drop pi p)) = length p)"

lemma accepts_glob: "accepts p (Some pi) \<Longrightarrow> glob (drop pi p) []"
proof -
  assume "accepts p (Some pi)"
  then have "length (takeWhile (\<lambda>c. c = CHR ''*'') (drop pi p)) = length (drop pi p)"
    by (simp add: accepts_def)
  then show "glob (drop pi p) []"
    by (metis glob_empty takeWhile_eq_take take_all_iff order_refl)
qed

lemma glob_accepts: "pi \<le> length p \<Longrightarrow> glob (drop pi p) [] \<Longrightarrow> accepts p (Some pi)"
proof -
  assume pi: "pi \<le> length p" and "glob (drop pi p) []"
  then have "takeWhile (\<lambda>c. c = CHR ''*'') (drop pi p) = drop pi p" by (simp only: glob_empty)
  with pi show "accepts p (Some pi)" by (simp only: accepts_def option.simps) simp
qed

lemma glob_loop_sound: "accepts p (glob_loop p t pi ti star) \<Longrightarrow> viable p t pi ti star"
proof (induction p t pi ti star rule: glob_loop.induct)
  case (1 p t pi ti star)
  show ?case
  proof (cases "ti < length t")
    case False
    with 1(4) have "accepts p (Some pi)" by (simp add: glob_loop.simps)
    with False show ?thesis by (simp add: viable_def accepts_glob)
  next
    case ti: True
    show ?thesis
    proof (cases "pi < length p \<and> (p ! pi = t ! ti \<or> p ! pi = CHR ''?'')")
      case True
      then have "viable p t (Suc pi) (Suc ti) star"
        using 1(1) 1(4) ti by (simp add: glob_loop.simps [of p t pi])
      moreover have "glob (drop pi p) (drop ti t)" if "glob (drop (Suc pi) p) (drop (Suc ti) t)"
      proof (cases "p ! pi = CHR ''*''")
        case star: True
        then have "glob (CHR ''*'' # drop (Suc pi) p) (drop ti t)"
          unfolding glob_star using that by (intro exI [of _ 1]) simp
        with star True show ?thesis by (simp add: drop_nth)
      next
        case False
        with that True ti show ?thesis by (simp add: drop_nth)
      qed
      ultimately show ?thesis by (auto simp: viable_def)
    next
      case nm: False
      show ?thesis
      proof (cases "pi < length p \<and> p ! pi = CHR ''*''")
        case True
        then have "viable p t (Suc pi) ti (Some (pi, ti))"
          using 1(2) 1(4) ti nm by (simp add: glob_loop.simps [of p t pi])
        then obtain j where "ti \<le> j" "glob (drop (Suc pi) p) (drop j t)"
          by (auto simp: viable_def intro: less_imp_le)
        then have "glob (drop (Suc pi) p) (drop (j - ti) (drop ti t))" by simp
        then have "glob (drop pi p) (drop ti t)"
          using True by (metis drop_nth glob_star)
        then show ?thesis by (simp add: viable_def)
      next
        case False
        with 1(4) ti nm obtain sp st where s: "star = Some (sp, st)"
          by (cases star) (auto simp: glob_loop.simps [of p t pi] accepts_def)
        then have "viable p t (Suc sp) (Suc st) (Some (sp, Suc st))"
          using 1(3) 1(4) ti nm False by (simp add: glob_loop.simps [of p t pi])
        then have "\<exists>j > st. glob (drop (Suc sp) p) (drop j t)"
          by (auto simp: viable_def intro: Suc_lessD)
        with s show ?thesis by (auto simp: viable_def)
      qed
    qed
  qed
qed

text \<open>The pattern between the last star and the current position is plain and as long as the text matched since.\<close>

definition loop_inv :: "string \<Rightarrow> nat \<Rightarrow> nat \<Rightarrow> (nat \<times> nat) option \<Rightarrow> bool" where
  "loop_inv p pi ti star \<longleftrightarrow> pi \<le> length p \<and>
     (case star of None \<Rightarrow> True
      | Some (sp, st) \<Rightarrow> \<exists>q. drop (Suc sp) p = q @ drop pi p \<and> CHR ''*'' \<notin> set q \<and> st + length q = ti
          \<and> sp < length p)"

lemma glob_loop_complete:
  "viable p t pi ti star \<Longrightarrow> loop_inv p pi ti star \<Longrightarrow> CHR ''*'' \<notin> set t \<Longrightarrow>
   accepts p (glob_loop p t pi ti star)"
proof (induction p t pi ti star rule: glob_loop.induct)
  case (1 p t pi ti star)
  have pi: "pi \<le> length p" using 1(5) by (simp add: loop_inv_def)
  \<comment> \<open>an alternative of the last star leads past the current position\<close>
  have alt: "length q \<le> length (drop j t) \<and> glob (drop pi p) (drop (j + length q) t)"
    if "drop (Suc sp) p = q @ drop pi p" "CHR ''*'' \<notin> set q" "glob (drop (Suc sp) p) (drop j t)" for sp q j
    using glob_plain [OF that(2), of "drop pi p" "drop j t"] that by (simp add: add.commute)
  show ?case
  proof (cases "ti < length t")
    case False
    have "glob (drop pi p) []"
    proof (cases "glob (drop pi p) (drop ti t)")
      case True
      with False show ?thesis by simp
    next
      case nG: False
      with 1(4) obtain sp st j where a: "star = Some (sp, st)" "st < j" "glob (drop (Suc sp) p) (drop j t)"
        by (auto simp: viable_def)
      with 1(5) obtain q where q: "drop (Suc sp) p = q @ drop pi p" "CHR ''*'' \<notin> set q" "st + length q = ti"
        by (auto simp: loop_inv_def)
      from alt [OF q(1,2) a(3)] have "glob (drop pi p) (drop (j + length q) t)" by simp
      moreover have "drop (j + length q) t = []" using a(2) q(3) False by simp
      ultimately show ?thesis by simp
    qed
    with False pi show ?thesis by (simp add: glob_loop.simps glob_accepts)
  next
    case ti: True
    then have tc: "t ! ti \<noteq> CHR ''*''" using 1(6) by (metis nth_mem)
    show ?thesis
    proof (cases "pi < length p \<and> (p ! pi = t ! ti \<or> p ! pi = CHR ''?'')")
      case True
      then have plain: "p ! pi \<noteq> CHR ''*''" using tc by auto
      then have "viable p t (Suc pi) (Suc ti) star"
        using 1(4) True ti by (auto simp: viable_def drop_nth)
      moreover have "loop_inv p (Suc pi) (Suc ti) star"
      proof (cases star)
        case None
        with True show ?thesis by (simp add: loop_inv_def)
      next
        case (Some s)
        then obtain sp st q where s: "star = Some (sp, st)" "drop (Suc sp) p = q @ drop pi p"
            "CHR ''*'' \<notin> set q" "st + length q = ti" "sp < length p"
          using 1(5) by (cases s) (auto simp: loop_inv_def)
        then have "drop (Suc sp) p = (q @ [p ! pi]) @ drop (Suc pi) p" using True by (simp add: drop_nth)
        then show ?thesis
          using s plain True by (auto simp: loop_inv_def intro!: exI [of _ "q @ [p ! pi]"])
      qed
      ultimately show ?thesis using 1(1) 1(6) True ti by (simp add: glob_loop.simps [of p t pi])
    next
      case nm: False
      show ?thesis
      proof (cases "pi < length p \<and> p ! pi = CHR ''*''")
        case True
        have "glob (drop pi p) (drop ti t)"
        proof (rule ccontr)
          assume nG: "\<not> glob (drop pi p) (drop ti t)"
          with 1(4) obtain sp st j where a: "star = Some (sp, st)" "st < j" "glob (drop (Suc sp) p) (drop j t)"
            by (auto simp: viable_def)
          with 1(5) obtain q where q: "drop (Suc sp) p = q @ drop pi p" "CHR ''*'' \<notin> set q" "st + length q = ti"
            by (auto simp: loop_inv_def)
          from alt [OF q(1,2) a(3)] have "glob (CHR ''*'' # drop (Suc pi) p) (drop (j + length q) t)"
            using True by (metis drop_nth)
          then obtain k where "glob (drop (Suc pi) p) (drop k (drop (j + length q) t))"
            unfolding glob_star by blast
          moreover have "drop k (drop (j + length q) t) = drop (k + j + length q - ti) (drop ti t)"
            using a(2) q(3) by (simp add: add.assoc)
          ultimately have "glob (CHR ''*'' # drop (Suc pi) p) (drop ti t)" unfolding glob_star by metis
          with True nG show False by (metis drop_nth)
        qed
        then obtain k where "glob (drop (Suc pi) p) (drop k (drop ti t))"
          using True by (metis drop_nth glob_star)
        then have "viable p t (Suc pi) ti (Some (pi, ti))"
          by (cases k) (auto simp: viable_def intro!: exI [of _ "ti + k"] simp: add.commute)
        moreover have "loop_inv p (Suc pi) ti (Some (pi, ti))" using True by (simp add: loop_inv_def)
        ultimately show ?thesis using 1(2) 1(6) True ti nm by (simp add: glob_loop.simps [of p t pi])
      next
        case False
        have "\<not> glob (drop pi p) (drop ti t)"
        proof (cases "pi < length p")
          case True
          with nm False ti show ?thesis by (simp add: drop_nth)
        qed (use ti in simp)
        with 1(4) obtain sp st j where a: "star = Some (sp, st)" "st < j" "glob (drop (Suc sp) p) (drop j t)"
          by (auto simp: viable_def)
        have "viable p t (Suc sp) (Suc st) (Some (sp, Suc st))"
          using a by (cases "j = Suc st") (auto simp: viable_def)
        moreover have "loop_inv p (Suc sp) (Suc st) (Some (sp, Suc st))"
          using 1(5) a(1) by (auto simp: loop_inv_def)
        moreover have "glob_loop p t pi ti star = glob_loop p t (Suc sp) (Suc st) (Some (sp, Suc st))"
          using a(1) ti nm False by (subst glob_loop.simps) auto
        ultimately show ?thesis using 1(3) [OF ti nm False a(1) refl] 1(6) by simp
      qed
    qed
  qed
qed

lemma glob_match_accepts: "glob_match p t \<longleftrightarrow> accepts p (glob_loop p t 0 0 None)"
  by (simp add: glob_match_def accepts_def)

text \<open>
  Claim C21. The backtracking loop ends on every input, accepts only commands the pattern means,
  and accepts all of them that contain no star themselves; a command with a star can be missed:
  the pattern \<open>*\<close> alone refuses \<open>*a\<close>, because the literal comparison consumes the star.
\<close>

theorem glob_match_correct:
  "(glob_match p t \<longrightarrow> glob p t) \<and>
    (CHR ''*'' \<notin> set t \<longrightarrow> glob_match p t \<longleftrightarrow> glob p t) \<and>
    (glob ''*'' ''*a'' \<and> \<not> glob_match ''*'' ''*a'')"
proof (intro conjI impI)
  have sound: "glob_match p t \<Longrightarrow> glob p t" for p t
    using glob_loop_sound [of p t 0 0 None] by (simp add: glob_match_accepts viable_def)
  then show "glob_match p t \<Longrightarrow> glob p t" .
  show "CHR ''*'' \<notin> set t \<Longrightarrow> glob_match p t \<longleftrightarrow> glob p t"
    using sound glob_loop_complete [of p t 0 0 None]
    by (auto simp: glob_match_accepts viable_def loop_inv_def)
  show "glob ''*'' ''*a''" and "\<not> glob_match ''*'' ''*a''"
    by (simp_all add: glob_match_accepts glob_loop.simps accepts_def)
qed

theorem glob_match_correct_witness:
  "glob ''git *'' ''git log -p'' \<and> \<not> glob_match ''ls ?'' ''ls ab''"
proof
  have m: "glob_match ''git *'' ''git log -p''" by (simp add: glob_match_accepts glob_loop.simps accepts_def)
  from glob_match_correct [of "''git *''" "''git log -p''"] m show "glob ''git *'' ''git log -p''" by blast
  from glob_match_correct [of "''ls ?''" "''ls ab''"] show "\<not> glob_match ''ls ?'' ''ls ab''" by simp
qed

section \<open>The manager\<close>

record ApprovalRequest =
  ar_id :: string
  ar_command :: string
  ar_cwd :: string
  ar_agent_id :: string
  ar_session_key :: string
  ar_security_note :: string
  ar_created_at :: time
  ar_expires_at :: time

record ApprovalResolved =
  rs_id :: string
  rs_decision :: ApprovalDecision
  rs_resolved_by :: string
  rs_resolved_at :: time

record ExecApprovalConfig =
  ec_ask :: AskMode
  ec_timeout_seconds :: int
  ec_timeout_fallback :: ApprovalDecision
  ec_allowlist :: "string list"
  ec_approval_notice_ms :: int

definition ExecApprovalConfig_default :: ExecApprovalConfig where
  "ExecApprovalConfig_default = \<lparr>ec_ask = AskOnMiss, ec_timeout_seconds = 120,
     ec_timeout_fallback = Denied, ec_allowlist = [], ec_approval_notice_ms = 5000\<rparr>"

text \<open>
  The members \<open>FromJson\<close> reads: texts that are missing or of another type are \<open>None\<close>, an
  element of the allow list that is no text is \<open>None\<close>.
\<close>

record ApprovalJson =
  aj_ask :: "string option"
  aj_approvalTimeout :: "int option"
  aj_askFallback :: "string option"
  aj_allowlist :: "string option list option"
  aj_approvalRunningNoticeMs :: "int option"

definition json_texts :: "string option list \<Rightarrow> string list" where
  "json_texts items = concat (map (\<lambda>item. case item of None \<Rightarrow> [] | Some s \<Rightarrow> [s]) items)"

definition ExecApprovalConfig_FromJson :: "ApprovalJson \<Rightarrow> ExecApprovalConfig" where
  "ExecApprovalConfig_FromJson j =
     (let c = ExecApprovalConfig_default;
          c = (case aj_ask j of None \<Rightarrow> c | Some s \<Rightarrow> c\<lparr>ec_ask := AskModeFromString s\<rparr>);
          c = c\<lparr>ec_timeout_seconds := (case aj_approvalTimeout j of None \<Rightarrow> 120 | Some n \<Rightarrow> n)\<rparr>;
          c = (case aj_askFallback j of None \<Rightarrow> c
               | Some fb \<Rightarrow> c\<lparr>ec_timeout_fallback := (if fb = ''approve'' then Approved else Denied)\<rparr>);
          c = (case aj_allowlist j of None \<Rightarrow> c
               | Some al \<Rightarrow> c\<lparr>ec_allowlist := ec_allowlist c @ json_texts al\<rparr>)
      in c\<lparr>ec_approval_notice_ms := (case aj_approvalRunningNoticeMs j of None \<Rightarrow> 5000 | Some n \<Rightarrow> n)\<rparr>)"

definition LoadFromJson :: "string option list option \<Rightarrow> ExecAllowlist \<Rightarrow> ExecAllowlist" where
  "LoadFromJson j patterns = (case j of None \<Rightarrow> [] | Some items \<Rightarrow> json_texts items)"

text \<open>
  A run of the operator's handler, which the manager calls while it holds its mutex: it returns
  a decision, or it first calls a method of the manager that locks the same mutex.
\<close>

datatype HandlerRun = Returns ApprovalDecision | LocksManager

record ExecApprovalManager =
  am_config :: ExecApprovalConfig
  am_allowlist :: ExecAllowlist
  am_handler :: "(ApprovalRequest \<Rightarrow> HandlerRun) option"
  am_pending :: "(string, ApprovalRequest) umap"
  am_resolved :: "ApprovalResolved list"

definition ExecApprovalManager_init :: ExecApprovalManager where
  "ExecApprovalManager_init = \<lparr>am_config = ExecApprovalConfig_default, am_allowlist = [],
     am_handler = None, am_pending = [], am_resolved = []\<rparr>"

definition ConfigureApproval :: "ExecApprovalConfig \<Rightarrow> ExecApprovalManager \<Rightarrow> ExecApprovalManager" where
  "ConfigureApproval config m =
     m\<lparr>am_config := config, am_allowlist := fold AddPattern (ec_allowlist config) []\<rparr>"

definition SetApprovalHandler ::
  "(ApprovalRequest \<Rightarrow> HandlerRun) option \<Rightarrow> ExecApprovalManager \<Rightarrow> ExecApprovalManager" where
  "SetApprovalHandler handler m = m\<lparr>am_handler := handler\<rparr>"

definition ResolveApproval :: "time \<Rightarrow> string \<Rightarrow> ApprovalDecision \<Rightarrow> string \<Rightarrow> ExecApprovalManager
    \<Rightarrow> ExecApprovalManager \<times> bool" where
  "ResolveApproval now request_id decision resolved_by m =
     (case map_of (am_pending m) request_id of
        None \<Rightarrow> (m, False)
      | Some req \<Rightarrow>
          (m\<lparr>am_resolved := am_resolved m @ [\<lparr>rs_id = request_id, rs_decision = decision,
               rs_resolved_by = resolved_by, rs_resolved_at = now\<rparr>],
             am_pending := AList.delete request_id (am_pending m)\<rparr>, True))"

text \<open>The two checks before a request is made.\<close>

definition auto_approved :: "string \<Rightarrow> ExecApprovalManager \<Rightarrow> bool" where
  "auto_approved command m \<longleftrightarrow>
     ec_ask (am_config m) = AskOff \<or> (ec_ask (am_config m) = AskOnMiss \<and> Matches (am_allowlist m) command)"

definition make_request :: "time \<Rightarrow> string \<Rightarrow> string \<Rightarrow> string \<Rightarrow> string \<Rightarrow> string \<Rightarrow> ExecApprovalConfig
    \<Rightarrow> ApprovalRequest" where
  "make_request now rid command cwd agent_id session_key cfg =
     \<lparr>ar_id = rid, ar_command = command, ar_cwd = cwd, ar_agent_id = agent_id,
      ar_session_key = session_key, ar_security_note = [], ar_created_at = now,
      ar_expires_at = now + secs (ec_timeout_seconds cfg)\<rparr>"

definition register_request :: "ApprovalRequest \<Rightarrow> ExecApprovalManager \<Rightarrow> ExecApprovalManager" where
  "register_request req m = m\<lparr>am_pending := AList.update (ar_id req) req (am_pending m)\<rparr>"

text \<open>The decision of the handler or the fallback; \<open>None\<close> when the handler never comes back.\<close>

definition decide_request :: "ApprovalRequest \<Rightarrow> ExecApprovalManager \<Rightarrow> ApprovalDecision option" where
  "decide_request req m =
     (case (case am_handler m of None \<Rightarrow> Returns StillPending | Some h \<Rightarrow> h req) of
        LocksManager \<Rightarrow> None
      | Returns d \<Rightarrow> Some (if d = StillPending then ec_timeout_fallback (am_config m) else d))"

definition RequestApproval :: "time \<Rightarrow> time \<Rightarrow> string \<Rightarrow> string \<Rightarrow> string \<Rightarrow> string \<Rightarrow> string
    \<Rightarrow> ExecApprovalManager \<Rightarrow> ExecApprovalManager \<times> ApprovalDecision option" where
  "RequestApproval now now' rid command cwd agent_id session_key m =
     (if auto_approved command m then (m, Some Approved)
      else
        (let req = make_request now rid command cwd agent_id session_key (am_config m);
             m1 = register_request req m
         in case decide_request req m1 of
              None \<Rightarrow> (m1, None)
            | Some d \<Rightarrow> (fst (ResolveApproval now' rid d ''auto'' m1), Some d)))"

definition PruneExpiredApprovals :: "time \<Rightarrow> ExecApprovalManager \<Rightarrow> ExecApprovalManager" where
  "PruneExpiredApprovals now m =
     (let expired = map fst (List.filter (\<lambda>(rid, req). ar_expires_at req \<le> now) (am_pending m))
      in m\<lparr>am_resolved := am_resolved m @ map (\<lambda>rid. \<lparr>rs_id = rid, rs_decision = TimedOut,
              rs_resolved_by = ''system'', rs_resolved_at = now\<rparr>) expired,
           am_pending := fold AList.delete expired (am_pending m)\<rparr>)"

section \<open>Outcomes\<close>

text \<open>
  The outcome of a request on every branch: it is approved without asking exactly in
  mode off, or in mode on-miss for a command of the allow list; otherwise the handler's decision
  counts, and when there is no handler or it answers pending, the configured fallback is taken
  at once, whatever the timeout. In both cases the pending requests are as before and the history
  has exactly one more entry, with that decision; a handler that calls back into the manager
  never returns, with the request left pending.
\<close>

theorem RequestApproval_outcome:
  assumes "rid \<notin> fst ` set (am_pending m)"
  shows "(auto_approved cmd m \<longrightarrow> RequestApproval t t' rid cmd cwd ag sk m = (m, Some Approved)) \<and>
    (\<not> auto_approved cmd m \<longrightarrow> am_handler m = None \<longrightarrow>
      RequestApproval t t' rid cmd cwd ag sk m =
        (m\<lparr>am_resolved := am_resolved m @ [\<lparr>rs_id = rid, rs_decision = ec_timeout_fallback (am_config m),
            rs_resolved_by = ''auto'', rs_resolved_at = t'\<rparr>]\<rparr>, Some (ec_timeout_fallback (am_config m)))) \<and>
    (\<not> auto_approved cmd m \<longrightarrow> am_handler m = Some h \<longrightarrow>
      h (make_request t rid cmd cwd ag sk (am_config m)) = Returns d \<longrightarrow>
      RequestApproval t t' rid cmd cwd ag sk m =
        (let d' = (if d = StillPending then ec_timeout_fallback (am_config m) else d)
         in (m\<lparr>am_resolved := am_resolved m @ [\<lparr>rs_id = rid, rs_decision = d',
                rs_resolved_by = ''auto'', rs_resolved_at = t'\<rparr>]\<rparr>, Some d'))) \<and>
    (\<not> auto_approved cmd m \<longrightarrow> am_handler m = Some h \<longrightarrow>
      h (make_request t rid cmd cwd ag sk (am_config m)) = LocksManager \<longrightarrow>
      snd (RequestApproval t t' rid cmd cwd ag sk m) = None
      \<and> rid \<in> fst ` set (am_pending (fst (RequestApproval t t' rid cmd cwd ag sk m))))"
proof (intro conjI impI)
  let ?r = "make_request t rid cmd cwd ag sk (am_config m)"
  have rid: "ar_id ?r = rid" by (simp add: make_request_def)
  have reg: "am_pending (register_request ?r m) = am_pending m @ [(rid, ?r)]"
    using assms by (simp add: register_request_def rid update_fresh)
  have same: "am_handler (register_request ?r m) = am_handler m" "am_config (register_request ?r m) = am_config m"
    by (simp_all add: register_request_def)
  have res: "fst (ResolveApproval t' rid d ''auto'' (register_request ?r m)) =
      m\<lparr>am_resolved := am_resolved m @ [\<lparr>rs_id = rid, rs_decision = d,
            rs_resolved_by = ''auto'', rs_resolved_at = t'\<rparr>]\<rparr>" for d
  proof -
    have "map_of (am_pending (register_request ?r m)) rid = Some ?r"
      by (simp add: register_request_def rid store_simps)
    moreover have "AList.delete rid (am_pending (register_request ?r m)) = am_pending m"
      unfolding reg using assms by (simp add: delete_append delete_fresh)
    ultimately show ?thesis by (simp add: ResolveApproval_def) (simp add: register_request_def)
  qed
  show "auto_approved cmd m \<Longrightarrow> RequestApproval t t' rid cmd cwd ag sk m = (m, Some Approved)"
    by (simp add: RequestApproval_def)
  show "\<not> auto_approved cmd m \<Longrightarrow> am_handler m = None \<Longrightarrow>
      RequestApproval t t' rid cmd cwd ag sk m =
        (m\<lparr>am_resolved := am_resolved m @ [\<lparr>rs_id = rid, rs_decision = ec_timeout_fallback (am_config m),
            rs_resolved_by = ''auto'', rs_resolved_at = t'\<rparr>]\<rparr>, Some (ec_timeout_fallback (am_config m)))"
    by (simp add: RequestApproval_def Let_def decide_request_def res same)
  show "\<not> auto_approved cmd m \<Longrightarrow> am_handler m = Some h \<Longrightarrow> h ?r = Returns d \<Longrightarrow>
      RequestApproval t t' rid cmd cwd ag sk m =
        (let d' = (if d = StillPending then ec_timeout_fallback (am_config m) else d)
         in (m\<lparr>am_resolved := am_resolved m @ [\<lparr>rs_id = rid, rs_decision = d',
                rs_resolved_by = ''auto'', rs_resolved_at = t'\<rparr>]\<rparr>, Some d'))"
    by (simp add: RequestApproval_def Let_def decide_request_def res same)
  show "\<not> auto_approved cmd m \<Longrightarrow> am_handler m = Some h \<Longrightarrow> h ?r = LocksManager \<Longrightarrow>
      snd (RequestApproval t t' rid cmd cwd ag sk m) = None"
    and "\<not> auto_approved cmd m \<Longrightarrow> am_handler m = Some h \<Longrightarrow> h ?r = LocksManager \<Longrightarrow>
      rid \<in> fst ` set (am_pending (fst (RequestApproval t t' rid cmd cwd ag sk m)))"
    using reg by (simp_all add: RequestApproval_def Let_def decide_request_def same)
qed

theorem RequestApproval_outcome_witness:
  "snd (RequestApproval 0 0 ''req_1'' ''ls'' [] [] [] ExecApprovalManager_init) = Some Denied"
proof -
  have "''req_1'' \<notin> fst ` set (am_pending ExecApprovalManager_init)"
    "\<not> auto_approved ''ls'' ExecApprovalManager_init" "am_handler ExecApprovalManager_init = None"
    by (simp_all add: ExecApprovalManager_init_def auto_approved_def ExecApprovalConfig_default_def Matches_def)
  with RequestApproval_outcome [of "''req_1''" ExecApprovalManager_init "''ls''" 0 0 "[]" "[]" "[]"] show ?thesis
    by (simp add: ExecApprovalManager_init_def ExecApprovalConfig_default_def)
qed

section \<open>Interleavings\<close>

text \<open>
  The lock sections of all threads as one sequence: new requests are registered under fresh
  ids, and anyone may resolve any id or prune at any time.
\<close>

datatype approval_event = Register ApprovalRequest | Resolving time string ApprovalDecision string | Pruning time

text \<open>The manager with the ids ever registered.\<close>

type_synonym approval_world = "ExecApprovalManager \<times> string list"

fun approval_enabled :: "approval_world \<Rightarrow> approval_event \<Rightarrow> bool" where
  "approval_enabled (m, ids) (Register req) = (ar_id req \<notin> set ids)"
| "approval_enabled (m, ids) _ = True"

fun approval_step :: "approval_world \<Rightarrow> approval_event \<Rightarrow> approval_world" where
  "approval_step (m, ids) (Register req) = (register_request req m, ids @ [ar_id req])"
| "approval_step (m, ids) (Resolving now rid d who) = (fst (ResolveApproval now rid d who m), ids)"
| "approval_step (m, ids) (Pruning now) = (PruneExpiredApprovals now m, ids)"

definition accounted :: "approval_world \<Rightarrow> bool" where
  "accounted w \<longleftrightarrow> distinct (map fst (am_pending (fst w)) @ map rs_id (am_resolved (fst w)))
     \<and> set (snd w) = set (map fst (am_pending (fst w))) \<union> set (map rs_id (am_resolved (fst w)))"

lemma keys_delete: "map fst (AList.delete k m) = List.filter (\<lambda>x. x \<noteq> k) (map fst m)"
  by (induction m) auto

lemma keys_delete_all: "map fst (fold AList.delete ks m) = List.filter (\<lambda>x. x \<notin> set ks) (map fst m)"
proof (induction ks arbitrary: m)
  case (Cons k ks)
  then show ?case by (simp add: keys_delete conj_commute)
qed simp

lemma Register_accounted:
  assumes "accounted (m, ids)" and "ar_id req \<notin> set ids"
  shows "accounted (register_request req m, ids @ [ar_id req])"
proof -
  have "ar_id req \<notin> fst ` set (am_pending m)" using assms by (auto simp: accounted_def)
  then have "am_pending (register_request req m) = am_pending m @ [(ar_id req, req)]"
    by (simp add: register_request_def update_fresh)
  moreover have "am_resolved (register_request req m) = am_resolved m" by (simp add: register_request_def)
  ultimately show ?thesis using assms by (auto simp: accounted_def)
qed

lemma accounted_move:
  assumes "accounted (m, ids)" and "distinct gone" and "set gone \<subseteq> set (map fst (am_pending m))"
    and "map fst (am_pending m') = List.filter (\<lambda>x. x \<notin> set gone) (map fst (am_pending m))"
    and "map rs_id (am_resolved m') = map rs_id (am_resolved m) @ gone"
  shows "accounted (m', ids)"
  using assms(1-3) unfolding accounted_def fst_conv snd_conv assms(4,5) by auto

lemma Resolving_accounted:
  assumes "accounted (m, ids)"
  shows "accounted (fst (ResolveApproval now rid d who m), ids)"
proof (cases "map_of (am_pending m) rid")
  case None
  with assms show ?thesis by (simp add: ResolveApproval_def)
next
  case (Some req)
  then have "rid \<in> set (map fst (am_pending m))" by (force dest: map_of_SomeD)
  with Some show ?thesis
    by (intro accounted_move [OF assms, of "[rid]"]) (simp_all add: ResolveApproval_def keys_delete)
qed

lemma Pruning_accounted:
  assumes "accounted (m, ids)"
  shows "accounted (PruneExpiredApprovals now m, ids)"
proof (rule accounted_move [OF assms])
  let ?e = "map fst (List.filter (\<lambda>(rid, req). ar_expires_at req \<le> now) (am_pending m))"
  show "distinct ?e" using assms by (auto simp: accounted_def distinct_map_filter)
  show "set ?e \<subseteq> set (map fst (am_pending m))" by auto
  show "map fst (am_pending (PruneExpiredApprovals now m))
      = List.filter (\<lambda>x. x \<notin> set ?e) (map fst (am_pending m))"
  proof -
    have "am_pending (PruneExpiredApprovals now m) = fold AList.delete ?e (am_pending m)"
      by (simp add: PruneExpiredApprovals_def Let_def)
    then show ?thesis by (simp only: keys_delete_all)
  qed
  show "map rs_id (am_resolved (PruneExpiredApprovals now m)) = map rs_id (am_resolved m) @ ?e"
    by (simp add: PruneExpiredApprovals_def Let_def o_def)
qed

interpretation approvals: guarded_machine
  "\<lambda>w. w = (ExecApprovalManager_init, [])" approval_enabled approval_step accounted
proof
  show "accounted w" if "w = (ExecApprovalManager_init, [])" for w
    using that by (simp add: accounted_def ExecApprovalManager_init_def)
  show "accounted (approval_step w e)" if "accounted w" "approval_enabled w e" for w e
    using that Register_accounted Resolving_accounted Pruning_accounted
    by (cases w; cases e) simp_all
qed

text \<open>
  Claim C22. In every interleaving of registrations under fresh ids, resolutions by anyone and
  prunings, no request is lost and none is resolved twice: the registered ids are exactly the
  pending and the resolved ones, an id is never both, and the history has each id once.
\<close>

theorem approvals_resolved_once:
  assumes "approvals.enabled_run (ExecApprovalManager_init, []) es"
    and "(m, ids) = foldl approval_step (ExecApprovalManager_init, []) es"
  shows "(distinct (map rs_id (am_resolved m))) \<and>
    (fst ` set (am_pending m) \<inter> rs_id ` set (am_resolved m) = {}) \<and>
    (set ids = fst ` set (am_pending m) \<union> rs_id ` set (am_resolved m))"
  using approvals.inv_from_start [OF refl assms(1)] unfolding assms(2) [symmetric]
  by (auto simp: accounted_def)

definition demo_request :: ApprovalRequest where
  "demo_request = make_request 0 ''r1'' ''ls'' [] [] [] ExecApprovalConfig_default"

theorem approvals_resolved_once_witness:
  "map rs_decision (am_resolved (fst (foldl approval_step (ExecApprovalManager_init, [])
     [Register demo_request, Pruning (secs 200), Resolving (secs 201) ''r1'' Approved ''operator'']))) = [TimedOut]
   \<and> distinct (map rs_id (am_resolved (fst (foldl approval_step (ExecApprovalManager_init, [])
     [Register demo_request, Pruning (secs 200), Resolving (secs 201) ''r1'' Approved ''operator'']))))"
proof
  let ?es = "[Register demo_request, Pruning (secs 200), Resolving (secs 201) ''r1'' Approved ''operator'']"
  show "map rs_decision (am_resolved (fst (foldl approval_step (ExecApprovalManager_init, []) ?es))) = [TimedOut]"
    by (simp add: demo_request_def make_request_def register_request_def PruneExpiredApprovals_def
        ResolveApproval_def ExecApprovalManager_init_def ExecApprovalConfig_default_def secs_def)
  have en: "approvals.enabled_run (ExecApprovalManager_init, []) ?es" by simp
  obtain m ids where mi: "(m, ids) = foldl approval_step (ExecApprovalManager_init, []) ?es"
    by (metis surj_pair)
  from approvals_resolved_once [OF en mi]
  show "distinct (map rs_id (am_resolved (fst (foldl approval_step (ExecApprovalManager_init, []) ?es))))"
    unfolding mi [symmetric] by simp
qed

end
