(* ===== verification/ChannelPolicy.thy ===== *)
theory ChannelPolicy
  imports RavPrelude
begin

text \<open>
  Channel policies of \<open>src/channels/channel_policy.cpp\<close>: the policy texts, pairing by one-time
  codes, the session key of a sender and the activation of groups. The random code is an
  argument, as is the matcher of the configured mention expressions (\<open>None\<close> when the
  expression is rejected).
\<close>

section \<open>Policies and their texts\<close>

datatype DmPolicy = DmOpen | DmPairing

definition DmPolicyFromString :: "string \<Rightarrow> DmPolicy" where
  "DmPolicyFromString s = (if s = ''pairing'' then DmPairing else DmOpen)"

fun DmPolicyToString :: "DmPolicy \<Rightarrow> string" where
  "DmPolicyToString DmPairing = ''pairing''"
| "DmPolicyToString DmOpen = ''open''"

datatype DmScope = ScopeMain | PerPeer | PerChannelPeer | PerAccountChannelPeer

definition DmScopeFromString :: "string \<Rightarrow> DmScope" where
  "DmScopeFromString s =
     (if s = ''main'' then ScopeMain
      else if s = ''per-peer'' then PerPeer
      else if s = ''per-channel-peer'' then PerChannelPeer
      else if s = ''per-account-channel-peer'' then PerAccountChannelPeer
      else PerChannelPeer)"

fun DmScopeToString :: "DmScope \<Rightarrow> string" where
  "DmScopeToString ScopeMain = ''main''"
| "DmScopeToString PerPeer = ''per-peer''"
| "DmScopeToString PerChannelPeer = ''per-channel-peer''"
| "DmScopeToString PerAccountChannelPeer = ''per-account-channel-peer''"

datatype GroupActivation = OnMention | OnEvery

definition GroupActivationFromString :: "string \<Rightarrow> GroupActivation" where
  "GroupActivationFromString s = (if s = ''always'' then OnEvery else OnMention)"

interpretation dm_policy: enum_codec DmPolicyToString DmPolicyFromString DmOpen
proof
  show "DmPolicyFromString (DmPolicyToString e) = e" for e
    by (cases e) (simp_all add: DmPolicyFromString_def)
  show "DmPolicyFromString s = DmOpen" if "\<forall>e. DmPolicyToString e \<noteq> s" for s
    using that [rule_format, of DmPairing] by (auto simp: DmPolicyFromString_def)
qed

interpretation dm_scope: enum_codec DmScopeToString DmScopeFromString PerChannelPeer
proof
  show "DmScopeFromString (DmScopeToString e) = e" for e
    by (cases e) (simp_all add: DmScopeFromString_def)
  show "DmScopeFromString s = PerChannelPeer" if "\<forall>e. DmScopeToString e \<noteq> s" for s
    using that [rule_format, of ScopeMain] that [rule_format, of PerPeer]
      that [rule_format, of PerAccountChannelPeer] by (auto simp: DmScopeFromString_def)
qed

record ChannelPolicyConfig =
  cp_dm_policy :: DmPolicy
  cp_dm_scope :: DmScope
  cp_group_activation :: GroupActivation
  cp_allow_from :: "string list"
  cp_group_chunk_size :: int
  cp_bot_name :: string

text \<open>The members read from the document; elements of the array that are no texts are \<open>None\<close>.\<close>

record PolicyMembers =
  pm_dmPolicy :: "string option"
  pm_dmScope :: "string option"
  pm_groupActivation :: "string option"
  pm_groupChunkSize :: "int option"
  pm_botName :: "string option"
  pm_allowFrom :: "string option list option"

definition ChannelPolicyConfig_FromJson :: "PolicyMembers \<Rightarrow> ChannelPolicyConfig" where
  "ChannelPolicyConfig_FromJson j =
     \<lparr>cp_dm_policy = DmPolicyFromString (value_or (pm_dmPolicy j) ''open''),
      cp_dm_scope = DmScopeFromString (value_or (pm_dmScope j) ''per-channel-peer''),
      cp_group_activation = GroupActivationFromString (value_or (pm_groupActivation j) ''mention''),
      cp_allow_from =
        (case pm_allowFrom j of
           None \<Rightarrow> []
         | Some ids \<Rightarrow> concat (map (\<lambda>x. case x of None \<Rightarrow> [] | Some s \<Rightarrow> [s]) ids)),
      cp_group_chunk_size = value_or (pm_groupChunkSize j) 2000,
      cp_bot_name = value_or (pm_botName j) []\<rparr>"

section \<open>Pairing\<close>

record PairingManager =
  pr_codes :: "(string, string) umap"
  pr_paired :: "(string, string list) umap"

definition PairingManager_init :: PairingManager where
  "PairingManager_init = \<lparr>pr_codes = [], pr_paired = []\<rparr>"

text \<open>\<open>n\<close> is the random number between 100000 and 999999.\<close>

definition GenerateCode :: "nat \<Rightarrow> string \<Rightarrow> PairingManager \<Rightarrow> PairingManager \<times> string" where
  "GenerateCode n channel_id m =
     (let code = to_string (int n)
      in (m\<lparr>pr_codes := AList.update channel_id code (pr_codes m)\<rparr>, code))"

definition VerifyCode :: "string \<Rightarrow> string \<Rightarrow> string \<Rightarrow> PairingManager \<Rightarrow> PairingManager \<times> bool" where
  "VerifyCode channel_id code sender_id m =
     (case map_of (pr_codes m) channel_id of
        None \<Rightarrow> (m, False)
      | Some c \<Rightarrow>
          if c \<noteq> code then (m, False)
          else (m\<lparr>pr_paired := AList.update channel_id
                    (List.insert sender_id (um_at (pr_paired m) channel_id [])) (pr_paired m),
                  pr_codes := AList.delete channel_id (pr_codes m)\<rparr>, True))"

definition IsPaired :: "PairingManager \<Rightarrow> string \<Rightarrow> string \<Rightarrow> bool" where
  "IsPaired m channel_id sender_id =
     (case map_of (pr_paired m) channel_id of None \<Rightarrow> False | Some s \<Rightarrow> sender_id \<in> set s)"

definition PairedSenders :: "PairingManager \<Rightarrow> string \<Rightarrow> string list" where
  "PairedSenders m channel_id =
     (case map_of (pr_paired m) channel_id of None \<Rightarrow> [] | Some s \<Rightarrow> s)"

definition Unpair :: "string \<Rightarrow> string \<Rightarrow> PairingManager \<Rightarrow> PairingManager" where
  "Unpair channel_id sender_id m =
     (case map_of (pr_paired m) channel_id of
        None \<Rightarrow> m
      | Some s \<Rightarrow> m\<lparr>pr_paired := AList.update channel_id (removeAll sender_id s) (pr_paired m)\<rparr>)"

datatype pairing_op = Generating nat string | Verifying string string string | Unpairing string string

fun pairing_step :: "PairingManager \<Rightarrow> pairing_op \<Rightarrow> PairingManager" where
  "pairing_step m (Generating n ch) = fst (GenerateCode n ch m)"
| "pairing_step m (Verifying ch c s) = fst (VerifyCode ch c s m)"
| "pairing_step m (Unpairing ch s) = Unpair ch s m"

text \<open>The senders paired with channel \<open>ch\<close> in a run, one for each successful verification.\<close>

fun newly_paired :: "string \<Rightarrow> PairingManager \<Rightarrow> pairing_op list \<Rightarrow> string list" where
  "newly_paired ch m [] = []"
| "newly_paired ch m (e # es) =
     (case e of
        Verifying ch' c s \<Rightarrow> if ch' = ch \<and> snd (VerifyCode ch' c s m) then [s] else []
      | _ \<Rightarrow> []) @ newly_paired ch (pairing_step m e) es"

fun codes_made :: "string \<Rightarrow> pairing_op list \<Rightarrow> nat" where
  "codes_made ch [] = 0"
| "codes_made ch (e # es) =
     (case e of Generating n ch' \<Rightarrow> if ch' = ch then 1 else 0 | _ \<Rightarrow> 0) + codes_made ch es"

lemma VerifyCode_code:
  "map_of (pr_codes (fst (VerifyCode ch c s m))) ch' =
     (if snd (VerifyCode ch c s m) \<and> ch' = ch then None else map_of (pr_codes m) ch')"
  by (auto simp: VerifyCode_def store_simps split: option.splits)

lemma VerifyCode_needs: "snd (VerifyCode ch c s m) \<Longrightarrow> map_of (pr_codes m) ch = Some c"
  by (auto simp: VerifyCode_def split: option.splits if_splits)

lemma IsPaired_step:
  "IsPaired (pairing_step m e) ch s \<Longrightarrow> IsPaired m ch s \<or>
     (\<exists>c. e = Verifying ch c s \<and> snd (VerifyCode ch c s m))"
  by (cases e) (auto simp: IsPaired_def GenerateCode_def VerifyCode_def Unpair_def um_at_def Let_def
      store_simps split: option.splits if_splits)

lemma newly_paired_bound:
  "length (newly_paired ch m es) \<le> codes_made ch es + (if map_of (pr_codes m) ch = None then 0 else 1)"
proof (induction es arbitrary: m)
  case (Cons e es)
  show ?case
  proof (cases e)
    case (Generating n ch')
    with Cons.IH [of "pairing_step m e"] show ?thesis
      by (cases "ch' = ch") (auto simp: GenerateCode_def Let_def store_simps split: if_splits)
  next
    case (Verifying ch' c s)
    with Cons.IH [of "pairing_step m e"] show ?thesis
      using VerifyCode_needs [of ch' c s m] by (auto simp: VerifyCode_code split: if_splits)
  next
    case (Unpairing ch' s)
    with Cons.IH [of "pairing_step m e"] show ?thesis
      by (auto simp: Unpair_def split: option.splits if_splits)
  qed
qed simp

lemma paired_verified:
  "IsPaired (foldl pairing_step m es) ch s \<Longrightarrow> IsPaired m ch s \<or> s \<in> set (newly_paired ch m es)"
proof (induction es arbitrary: m)
  case (Cons e es)
  then have "IsPaired (pairing_step m e) ch s \<or> s \<in> set (newly_paired ch (pairing_step m e) es)" by simp
  then show ?case using IsPaired_step [of m e ch s] by auto
qed simp

text \<open>
  A pairing code is good for one sender: in every run from an empty manager a sender
  is paired only if it presented the current code of the channel, and no channel pairs more
  senders than codes were generated for it.
\<close>

theorem pairing_codes_one_shot:
  "(length (newly_paired ch PairingManager_init es) \<le> codes_made ch es) \<and>
    (IsPaired (foldl pairing_step PairingManager_init es) ch s \<longrightarrow>
     s \<in> set (newly_paired ch PairingManager_init es)) \<and>
    (snd (VerifyCode ch c s m) \<longrightarrow> \<not> snd (VerifyCode ch c' s' (fst (VerifyCode ch c s m))))"
proof (intro conjI impI)
  show "length (newly_paired ch PairingManager_init es) \<le> codes_made ch es"
    using newly_paired_bound [of ch PairingManager_init es] by (simp add: PairingManager_init_def)
  show "s \<in> set (newly_paired ch PairingManager_init es)"
    if "IsPaired (foldl pairing_step PairingManager_init es) ch s"
    using that paired_verified [of PairingManager_init es ch s]
    by (auto simp: IsPaired_def PairingManager_init_def)
  show "\<not> snd (VerifyCode ch c' s' (fst (VerifyCode ch c s m)))" if "snd (VerifyCode ch c s m)"
    using that VerifyCode_code [of ch c s m ch] VerifyCode_needs [of ch c' s' "fst (VerifyCode ch c s m)"]
    by (cases "snd (VerifyCode ch c s m)") auto
qed

definition demo_pairing :: "pairing_op list" where
  "demo_pairing = [Generating 123456 ''tg'', Verifying ''tg'' ''123456'' ''ann'', Verifying ''tg'' ''123456'' ''eve'']"

theorem pairing_codes_one_shot_witness:
  "''ann'' \<in> set (newly_paired ''tg'' PairingManager_init demo_pairing)
   \<and> \<not> IsPaired (foldl pairing_step PairingManager_init demo_pairing) ''tg'' ''eve''
   \<and> length (newly_paired ''tg'' PairingManager_init demo_pairing) \<le> 1"
proof -
  have c: "to_string 123456 = ''123456''"
    by (simp add: to_string_def nat_digits.simps char_of_def bit_iff_odd)
  have "IsPaired (foldl pairing_step PairingManager_init demo_pairing) ''tg'' ''ann''"
    "\<not> IsPaired (foldl pairing_step PairingManager_init demo_pairing) ''tg'' ''eve''"
    by (simp_all add: demo_pairing_def PairingManager_init_def GenerateCode_def VerifyCode_def IsPaired_def
        Let_def um_at_def c)
  moreover have "codes_made ''tg'' demo_pairing = 1" by (simp add: demo_pairing_def)
  ultimately show ?thesis
    using pairing_codes_one_shot [of "''tg''" demo_pairing "''ann''"] by simp
qed

section \<open>Session keys\<close>

definition ResolveSessionKey :: "DmScope \<Rightarrow> string \<Rightarrow> string \<Rightarrow> string \<Rightarrow> string \<Rightarrow> string" where
  "ResolveSessionKey scope agent_id channel_id sender_id account_id =
     (case scope of
        ScopeMain \<Rightarrow> ''agent:'' @ agent_id @ '':main''
      | PerPeer \<Rightarrow> ''agent:'' @ agent_id @ '':peer:'' @ sender_id
      | PerChannelPeer \<Rightarrow> ''agent:'' @ agent_id @ '':'' @ channel_id @ '':'' @ sender_id
      | PerAccountChannelPeer \<Rightarrow>
          (let acct = (if account_id = [] then ''default'' else account_id)
           in ''agent:'' @ agent_id @ '':'' @ acct @ '':'' @ channel_id @ '':'' @ sender_id))"

text \<open>What a scope is meant to tell apart.\<close>

definition session_identity :: "DmScope \<Rightarrow> string \<Rightarrow> string \<Rightarrow> string \<Rightarrow> string \<Rightarrow> string list" where
  "session_identity scope agent_id channel_id sender_id account_id =
     (case scope of
        ScopeMain \<Rightarrow> [agent_id]
      | PerPeer \<Rightarrow> [agent_id, sender_id]
      | PerChannelPeer \<Rightarrow> [agent_id, channel_id, sender_id]
      | PerAccountChannelPeer \<Rightarrow>
          [agent_id, if account_id = [] then ''default'' else account_id, channel_id, sender_id])"

lemma colon_split:
  "CHR '':'' \<notin> set a \<Longrightarrow> CHR '':'' \<notin> set b \<Longrightarrow> a @ CHR '':'' # x = b @ CHR '':'' # y \<longleftrightarrow> a = b \<and> x = y"
proof (induction a arbitrary: b)
  case Nil
  then show ?case by (cases b) auto
next
  case (Cons c a)
  then show ?case by (cases b) auto
qed

text \<open>
  Sessions are isolated as their scope promises: when agent, channel and account ids
  contain no colon (the sender id may), two messages get the same key exactly when they agree in
  everything the scope distinguishes. With a colon in a channel id two different senders share a
  session.
\<close>

theorem session_keys_isolate:
  assumes "CHR '':'' \<notin> set ag \<union> set ch \<union> set ac" and "CHR '':'' \<notin> set ag' \<union> set ch' \<union> set ac'"
  shows "(ResolveSessionKey scope ag ch se ac = ResolveSessionKey scope ag' ch' se' ac' \<longleftrightarrow>
      session_identity scope ag ch se ac = session_identity scope ag' ch' se' ac') \<and>
    (ResolveSessionKey PerChannelPeer ag ''x:y'' ''z'' ac = ResolveSessionKey PerChannelPeer ag ''x'' ''y:z'' ac)"
proof (intro conjI impI)
  have d: "CHR '':'' \<notin> set (if ac = [] then ''default'' else ac)"
    "CHR '':'' \<notin> set (if ac' = [] then ''default'' else ac')"
    using assms by auto
  show "ResolveSessionKey scope ag ch se ac = ResolveSessionKey scope ag' ch' se' ac' \<longleftrightarrow>
      session_identity scope ag ch se ac = session_identity scope ag' ch' se' ac'"
  proof (cases scope)
    case PerAccountChannelPeer
    with assms d show ?thesis
      by (simp add: ResolveSessionKey_def session_identity_def colon_split Let_def del: if_split)
  qed (use assms in \<open>simp_all add: ResolveSessionKey_def session_identity_def colon_split\<close>)
  show "ResolveSessionKey PerChannelPeer ag ''x:y'' ''z'' ac = ResolveSessionKey PerChannelPeer ag ''x'' ''y:z'' ac"
    by (simp add: ResolveSessionKey_def)
qed

theorem session_keys_isolate_witness:
  "ResolveSessionKey PerChannelPeer ''main'' ''telegram'' ''7'' [] \<noteq>
   ResolveSessionKey PerChannelPeer ''main'' ''discord'' ''7'' []"
proof -
  have c: "CHR '':'' \<notin> set ''main'' \<union> set ''telegram'' \<union> set []"
    "CHR '':'' \<notin> set ''main'' \<union> set ''discord'' \<union> set []" by simp_all
  from session_keys_isolate [OF c] show ?thesis by (simp add: session_identity_def)
qed

section \<open>Group activation\<close>

definition lower_text :: "string \<Rightarrow> string" where
  "lower_text s = map to_lower s"

fun some_pattern :: "(string \<Rightarrow> string \<Rightarrow> bool option) \<Rightarrow> string \<Rightarrow> string list \<Rightarrow> bool" where
  "some_pattern search message [] = False"
| "some_pattern search message (p # ps) =
     (case search p message of
        Some True \<Rightarrow> True
      | _ \<Rightarrow> some_pattern search message ps)"

definition ShouldActivateGroup ::
  "(string \<Rightarrow> string \<Rightarrow> bool option) \<Rightarrow> GroupActivation \<Rightarrow> string \<Rightarrow> string \<Rightarrow> string list \<Rightarrow> bool" where
  "ShouldActivateGroup search mode message bot_name mention_patterns =
     (if mode = OnEvery then True
      else if bot_name \<noteq> [] \<and> str_find (''@'' @ lower_text bot_name) (lower_text message) \<noteq> None then True
      else some_pattern search message mention_patterns)"

end
