(* ===== verification/ChannelStores.thy ===== *)
theory ChannelStores
  imports RavPrelude
begin

text \<open>
  The two persistent stores of the Telegram channel: the deduplication of updates
  (\<open>src/channels/deduplication_store.cpp\<close>) and the binding of threads to sessions
  (\<open>src/channels/thread_binder.cpp\<close>). A stored document is represented by the members the
  code writes and reads; file errors are the \<open>None\<close> of the loaded document. The timestamp of
  a binding is an argument.
\<close>

section \<open>Deduplication\<close>

record DeduplicationStore =
  dd_watermark :: int
  dd_processed_ids :: "int list"

definition DeduplicationStore_init :: DeduplicationStore where
  "DeduplicationStore_init = \<lparr>dd_watermark = 0, dd_processed_ids = []\<rparr>"

definition IsProcessed :: "DeduplicationStore \<Rightarrow> int \<Rightarrow> bool" where
  "IsProcessed st update_id =
     (if update_id \<le> dd_watermark st then True else update_id \<in> set (dd_processed_ids st))"

text \<open>The \<open>std::set\<close> is the sorted list of its elements.\<close>

definition MarkProcessed :: "int \<Rightarrow> DeduplicationStore \<Rightarrow> DeduplicationStore" where
  "MarkProcessed update_id st =
     (let st = (if update_id > dd_watermark st then st\<lparr>dd_watermark := update_id\<rparr> else st)
      in st\<lparr>dd_processed_ids := insort_insert update_id (dd_processed_ids st)\<rparr>)"

definition SetWatermark :: "int \<Rightarrow> DeduplicationStore \<Rightarrow> DeduplicationStore" where
  "SetWatermark watermark st = st\<lparr>dd_watermark := watermark\<rparr>"

definition CleanupDedup :: "int \<Rightarrow> DeduplicationStore \<Rightarrow> DeduplicationStore" where
  "CleanupDedup retention_hours st =
     (let retention_threshold = dd_watermark st - cdiv retention_hours 24 * 10000
      in st\<lparr>dd_processed_ids := dropWhile (\<lambda>i. i < retention_threshold) (dd_processed_ids st)\<rparr>)"

record DedupDocument =
  ddoc_watermark :: "int option"
  ddoc_processed_ids :: "int list option"

definition SaveDedup :: "DeduplicationStore \<Rightarrow> DedupDocument" where
  "SaveDedup st = \<lparr>ddoc_watermark = Some (dd_watermark st), ddoc_processed_ids = Some (dd_processed_ids st)\<rparr>"

text \<open>The default \<open>0\<close> of \<open>j.value("watermark", 0)\<close> makes the number an \<open>int\<close>.\<close>

definition as_int :: "int \<Rightarrow> int" where
  "as_int n = (n + 2147483648) mod 4294967296 - 2147483648"

definition LoadDedup :: "DedupDocument option \<Rightarrow> DeduplicationStore \<Rightarrow> DeduplicationStore" where
  "LoadDedup file st =
     (case file of
        None \<Rightarrow> st
      | Some j \<Rightarrow>
          \<lparr>dd_watermark = as_int (case ddoc_watermark j of None \<Rightarrow> 0 | Some w \<Rightarrow> w),
           dd_processed_ids =
             (case ddoc_processed_ids j of
                None \<Rightarrow> []
              | Some ids \<Rightarrow> fold insort_insert ids [])\<rparr>)"

datatype dedup_op = DMark int | DCleanup int

fun dedup_step :: "DeduplicationStore \<Rightarrow> dedup_op \<Rightarrow> DeduplicationStore" where
  "dedup_step st (DMark i) = MarkProcessed i st"
| "dedup_step st (DCleanup h) = CleanupDedup h st"

fun marked :: "dedup_op list \<Rightarrow> int list" where
  "marked [] = []"
| "marked (DMark i # es) = i # marked es"
| "marked (DCleanup h # es) = marked es"

definition dedup_inv :: "DeduplicationStore \<Rightarrow> bool" where
  "dedup_inv st \<longleftrightarrow> sorted (dd_processed_ids st) \<and> distinct (dd_processed_ids st)
     \<and> (\<forall>i \<in> set (dd_processed_ids st). i \<le> dd_watermark st)"

lemma dedup_step_inv: "dedup_inv st \<Longrightarrow> dedup_inv (dedup_step st e)"
proof (cases e)
  case (DMark i)
  assume "dedup_inv st"
  with DMark show ?thesis
    by (auto simp: dedup_inv_def MarkProcessed_def Let_def sorted_insort_insert distinct_insort_insert
        set_insort_insert)
next
  case (DCleanup h)
  assume "dedup_inv st"
  with DCleanup show ?thesis
    by (auto simp: dedup_inv_def CleanupDedup_def Let_def sorted_dropWhile dest: set_dropWhileD)
qed

interpretation dedup: guarded_machine
  "\<lambda>st. st = DeduplicationStore_init" "\<lambda>_ _. True" dedup_step dedup_inv
proof
  show "dedup_inv st" if "st = DeduplicationStore_init" for st
    using that by (simp add: dedup_inv_def DeduplicationStore_init_def)
  show "dedup_inv (dedup_step st e)" if "dedup_inv st" for st e
    using that by (rule dedup_step_inv)
qed

lemma dedup_run_inv: "dedup_inv (foldl dedup_step DeduplicationStore_init es)"
proof -
  have "dedup.enabled_run st es" for st by (induction es arbitrary: st) simp_all
  then show ?thesis using dedup.inv_from_start by blast
qed

lemma dedup_watermark:
  "dd_watermark (foldl dedup_step st es) = foldl max (dd_watermark st) (marked es)"
proof (induction es arbitrary: st)
  case (Cons e es)
  then show ?case
    by (cases e) (auto simp: MarkProcessed_def CleanupDedup_def Let_def max_def)
qed simp

lemma le_foldl_max: "(i::int) \<le> foldl max w xs \<longleftrightarrow> i \<le> w \<or> (\<exists>x \<in> set xs. i \<le> x)"
  by (induction xs arbitrary: w) (auto simp: le_max_iff_disj)

text \<open>
  What the store answers in any run of marks and cleanups: an update counts as
  processed exactly when its id is not positive or not above some id that was marked. So no
  marked update is ever processed twice, cleanups never change an answer (the set of ids is
  never needed), and an update that arrives after a later one is dropped although it was never
  processed.
\<close>

theorem dedup_answers:
  "IsProcessed (foldl dedup_step DeduplicationStore_init es) i \<longleftrightarrow> i \<le> 0 \<or> (\<exists>j \<in> set (marked es). i \<le> j)"
proof -
  let ?st = "foldl dedup_step DeduplicationStore_init es"
  have "i \<in> set (dd_processed_ids ?st) \<Longrightarrow> i \<le> dd_watermark ?st"
    using dedup_run_inv [of es] by (auto simp: dedup_inv_def)
  moreover have "i \<le> dd_watermark ?st \<longleftrightarrow> i \<le> 0 \<or> (\<exists>j \<in> set (marked es). i \<le> j)"
    by (simp add: dedup_watermark le_foldl_max DeduplicationStore_init_def)
  ultimately show ?thesis by (auto simp: IsProcessed_def)
qed

lemma fold_insort_set: "set (fold insort_insert ids acc) = set ids \<union> set acc"
  by (induction ids arbitrary: acc) (auto simp: set_insort_insert)

text \<open>
  Saving and loading keeps the watermark only while it fits an \<open>int\<close>: it is read
  back modulo two to the 32nd, so a store whose watermark is two to the 31st answers, after a
  restart, that every unmarked update up to it is new again.
\<close>

theorem dedup_save_load:
  "dd_watermark (LoadDedup (Some (SaveDedup st)) st') = dd_watermark st \<longleftrightarrow> in_int32 (dd_watermark st)"
  "set (dd_processed_ids (LoadDedup (Some (SaveDedup st)) st')) = set (dd_processed_ids st)"
  "\<not> IsProcessed (LoadDedup (Some (SaveDedup \<lparr>dd_watermark = 2147483648, dd_processed_ids = []\<rparr>)) st') 7"
proof -
  show "dd_watermark (LoadDedup (Some (SaveDedup st)) st') = dd_watermark st \<longleftrightarrow> in_int32 (dd_watermark st)"
  proof -
    have "as_int w = w \<longleftrightarrow> in_int32 w" for w
    proof
      assume "as_int w = w"
      then have "w = (w + 2147483648) mod 4294967296 - 2147483648" by (simp add: as_int_def)
      moreover have "0 \<le> (w + 2147483648) mod 4294967296" "(w + 2147483648) mod 4294967296 < 4294967296"
        by simp_all
      ultimately show "in_int32 w" unfolding in_int32_def INT_MIN_def INT_MAX_def by linarith
    next
      assume "in_int32 w"
      then show "as_int w = w" by (simp add: as_int_def in_int32_def INT_MIN_def INT_MAX_def)
    qed
    then show ?thesis by (simp add: LoadDedup_def SaveDedup_def)
  qed
  show "set (dd_processed_ids (LoadDedup (Some (SaveDedup st)) st')) = set (dd_processed_ids st)"
    by (simp add: LoadDedup_def SaveDedup_def fold_insort_set)
  show "\<not> IsProcessed (LoadDedup (Some (SaveDedup \<lparr>dd_watermark = 2147483648, dd_processed_ids = []\<rparr>)) st') 7"
    by (simp add: LoadDedup_def SaveDedup_def IsProcessed_def as_int_def)
qed

section \<open>Thread bindings\<close>

record ThreadBinding =
  tb_chat_id :: string
  tb_thread_id :: string
  tb_session_key :: string
  tb_created_at :: string

type_synonym ThreadBinder = "(string, ThreadBinding) umap"

definition make_key :: "string \<Rightarrow> string \<Rightarrow> string" where
  "make_key chat_id thread_id = chat_id @ '':'' @ thread_id"

text \<open>The accesses to \<open>bindings_\<close> by its composite key.\<close>

definition binding_of :: "ThreadBinder \<Rightarrow> string \<Rightarrow> ThreadBinding option" where
  "binding_of m key = map_of m key"

definition store_binding :: "string \<Rightarrow> ThreadBinding \<Rightarrow> ThreadBinder \<Rightarrow> ThreadBinder" where
  "store_binding key binding m = AList.update key binding m"

definition erase_binding :: "string \<Rightarrow> ThreadBinder \<Rightarrow> ThreadBinder" where
  "erase_binding key m = (if binding_of m key = None then m else AList.delete key m)"

definition GetSessionKey :: "ThreadBinder \<Rightarrow> string \<Rightarrow> string option \<Rightarrow> string" where
  "GetSessionKey m chat_id thread_id =
     (case thread_id of
        None \<Rightarrow> ''agent:main:telegram:'' @ chat_id
      | Some t \<Rightarrow>
          (case binding_of m (make_key chat_id t) of
             Some b \<Rightarrow> tb_session_key b
           | None \<Rightarrow> ''agent:main:telegram:'' @ chat_id @ '':'' @ t))"

definition BindThread :: "string \<Rightarrow> string \<Rightarrow> string \<Rightarrow> string \<Rightarrow> ThreadBinder \<Rightarrow> ThreadBinder" where
  "BindThread timestamp chat_id thread_id session_key m =
     store_binding (make_key chat_id thread_id)
       \<lparr>tb_chat_id = chat_id, tb_thread_id = thread_id, tb_session_key = session_key,
        tb_created_at = timestamp\<rparr> m"

definition UnbindThread :: "string \<Rightarrow> string \<Rightarrow> ThreadBinder \<Rightarrow> ThreadBinder" where
  "UnbindThread chat_id thread_id m = erase_binding (make_key chat_id thread_id) m"

text \<open>The bindings of a chat; the order of the container is not modelled.\<close>

definition ListThreads :: "ThreadBinder \<Rightarrow> string \<Rightarrow> ThreadBinding list" where
  "ListThreads m chat_id = List.filter (\<lambda>b. tb_chat_id b = chat_id) (map snd m)"

definition SaveThreads :: "ThreadBinder \<Rightarrow> ThreadBinding list" where
  "SaveThreads m = map snd m"

fun load_threads :: "ThreadBinding list \<Rightarrow> ThreadBinder \<Rightarrow> ThreadBinder" where
  "load_threads [] acc = acc"
| "load_threads (b # bs) acc =
     load_threads bs
       (if tb_chat_id b \<noteq> [] \<and> tb_thread_id b \<noteq> []
        then store_binding (make_key (tb_chat_id b) (tb_thread_id b)) b acc else acc)"

definition LoadThreads :: "ThreadBinding list option \<Rightarrow> ThreadBinder \<Rightarrow> ThreadBinder" where
  "LoadThreads file m = (case file of None \<Rightarrow> m | Some items \<Rightarrow> load_threads items [])"

interpretation threads: keyed_store binding_of store_binding erase_binding um_ok
  by unfold_locales
    (auto simp: binding_of_def store_binding_def erase_binding_def store_simps)

lemma make_key_inject:
  "CHR '':'' \<notin> set c \<Longrightarrow> CHR '':'' \<notin> set c' \<Longrightarrow> make_key c t = make_key c' t' \<longleftrightarrow> c = c' \<and> t = t'"
proof (induction c arbitrary: c')
  case Nil
  then show ?case by (cases c') (auto simp: make_key_def)
next
  case (Cons x c)
  then show ?case by (cases c') (auto simp: make_key_def)
qed

text \<open>
  For chat ids without a colon (Telegram's are numbers) a binding redirects exactly its
  thread, the last binding wins, and unbinding restores the default key of that thread and
  nothing else.
\<close>

theorem thread_bindings:
  assumes "CHR '':'' \<notin> set c" and "CHR '':'' \<notin> set c'"
  shows "(GetSessionKey (BindThread ts c t s m) c' (Some t') =
      (if c' = c \<and> t' = t then s else GetSessionKey m c' (Some t'))) \<and>
    (GetSessionKey (BindThread ts c t s (BindThread ts' c t s' m)) c' (Some t') =
      GetSessionKey (BindThread ts c t s m) c' (Some t')) \<and>
    (GetSessionKey (UnbindThread c t m) c' (Some t') =
      (if c' = c \<and> t' = t then ''agent:main:telegram:'' @ c @ '':'' @ t else GetSessionKey m c' (Some t')))"
  using make_key_inject [OF assms(2,1), of t' t]
  by (simp_all add: GetSessionKey_def BindThread_def UnbindThread_def threads.find_put threads.find_erase
      threads.last_put_wins)

theorem thread_bindings_witness:
  "GetSessionKey (BindThread [] ''-100'' ''7'' ''work'' []) ''-100'' (Some ''8'') = ''agent:main:telegram:-100:8''"
proof -
  have c: "CHR '':'' \<notin> set ''-100''" by simp
  from thread_bindings [OF c c] show ?thesis by (simp add: GetSessionKey_def binding_of_def)
qed

text \<open>Every binding is stored under the key of its own chat and thread.\<close>

definition binder_inv :: "ThreadBinder \<Rightarrow> bool" where
  "binder_inv m \<longleftrightarrow> um_ok m \<and> (\<forall>k b. map_of m k = Some b \<longrightarrow> k = make_key (tb_chat_id b) (tb_thread_id b))"

lemma BindThread_inv: "binder_inv m \<Longrightarrow> binder_inv (BindThread ts c t s m)"
  by (auto simp: binder_inv_def BindThread_def store_binding_def store_simps)

lemma UnbindThread_inv: "binder_inv m \<Longrightarrow> binder_inv (UnbindThread c t m)"
  by (auto simp: binder_inv_def UnbindThread_def erase_binding_def store_simps)

datatype binder_op = TBind string string string string | TUnbind string string

fun binder_step :: "ThreadBinder \<Rightarrow> binder_op \<Rightarrow> ThreadBinder" where
  "binder_step m (TBind ts c t s) = BindThread ts c t s m"
| "binder_step m (TUnbind c t) = UnbindThread c t m"

lemma binder_run_inv: "binder_inv m \<Longrightarrow> binder_inv (foldl binder_step m es)"
proof (induction es arbitrary: m)
  case (Cons e es)
  then show ?case by (cases e) (simp_all add: BindThread_inv UnbindThread_inv)
qed simp

definition storable :: "ThreadBinding \<Rightarrow> bool" where
  "storable b \<longleftrightarrow> tb_chat_id b \<noteq> [] \<and> tb_thread_id b \<noteq> []"

lemma load_threads_find:
  "\<forall>kb \<in> set m. fst kb = make_key (tb_chat_id (snd kb)) (tb_thread_id (snd kb)) \<Longrightarrow> um_ok m \<Longrightarrow>
   map_of (load_threads (map snd m) acc) k =
     (case map_of m k of Some b \<Rightarrow> if storable b then Some b else map_of acc k | None \<Rightarrow> map_of acc k)"
proof (induction m arbitrary: acc)
  case (Cons kb m)
  obtain key b where kb: "kb = (key, b)" by (cases kb)
  with Cons.prems have key: "key = make_key (tb_chat_id b) (tb_thread_id b)" and ok: "um_ok m"
    and new: "map_of m key = None"
    by (auto simp: um_ok_def map_of_eq_None_iff)
  have "map_of (load_threads (map snd (kb # m)) acc) k =
      map_of (load_threads (map snd m) (if storable b then store_binding key b acc else acc)) k"
    using kb key by (simp add: storable_def)
  with Cons.IH [of "if storable b then store_binding key b acc else acc"] Cons.prems ok new show ?case
    by (cases "k = key") (auto simp: kb store_binding_def store_simps split: option.splits)
qed simp

text \<open>
  A restart keeps the bindings: after any sequence of binds and unbinds, saving and
  loading yields the same session key for every thread, except that a binding with an empty
  chat or thread id is dropped.
\<close>

theorem thread_save_load:
  assumes "m = foldl binder_step [] es"
  shows "GetSessionKey (LoadThreads (Some (SaveThreads m)) m') c (Some t) =
     (case binding_of m (make_key c t) of
        Some b \<Rightarrow> if storable b then tb_session_key b else GetSessionKey [] c (Some t)
      | None \<Rightarrow> GetSessionKey [] c (Some t))"
proof -
  have "binder_inv m" unfolding assms by (rule binder_run_inv) (simp add: binder_inv_def)
  then have "um_ok m" "\<forall>kb \<in> set m. fst kb = make_key (tb_chat_id (snd kb)) (tb_thread_id (snd kb))"
    by (auto simp: binder_inv_def um_ok_mem [symmetric])
  from load_threads_find [OF this(2,1), of "[]"] show ?thesis
    by (simp add: GetSessionKey_def LoadThreads_def SaveThreads_def binding_of_def split: option.splits)
qed

theorem thread_save_load_witness:
  "GetSessionKey (LoadThreads (Some (SaveThreads [(''5:7'', \<lparr>tb_chat_id = ''5'', tb_thread_id = ''7'',
      tb_session_key = ''work'', tb_created_at = []\<rparr>)])) []) ''5'' (Some ''7'') = ''work''"
proof -
  have "[(''5:7'', \<lparr>tb_chat_id = ''5'', tb_thread_id = ''7'', tb_session_key = ''work'', tb_created_at = []\<rparr>)]
      = foldl binder_step [] [TBind [] ''5'' ''7'' ''work'']"
    by (simp add: BindThread_def store_binding_def make_key_def)
  from thread_save_load [OF this, of "[]" "''5''" "''7''"] show ?thesis
    by (simp add: binding_of_def make_key_def storable_def)
qed

end
