(* ===== verification/LaneProc.thy ===== *)
theory LaneProc
  imports Main
begin

text \<open>
  The per-chat worker of \<open>src/channels/lane_processor.cpp\<close> as a step relation between its
  threads: the submitters, the worker and the thread that shuts the processor down, one step
  for every access to shared state. The condition variable forgets a notification that finds
  nobody waiting. One existing lane is modelled; the map of lanes only finds it.
\<close>

section \<open>State\<close>

text \<open>
  Where the worker is: at the loop test, testing the wait predicate with the mutex held, about
  to sleep with the mutex still held, asleep, past the wait with the mutex held, in a handler,
  or at its end.
\<close>

datatype 'h worker_at = AtLoop | Testing | Parking | Asleep | Taking | InHandler 'h | Ended

text \<open>Where \<open>Shutdown\<close> is: before it, after \<open>shutdown_\<close>, after \<open>running\<close>, in the join, returned.\<close>

datatype shutdown_at = NotBegun | Flagged | Stored | Joining | Returned

record 'h Lane =
  ln_queue :: "'h list"
  ln_running :: bool
  ln_worker :: "'h worker_at"
  ln_shutdown :: shutdown_at
  ln_passed :: "'h list"     \<comment> \<open>submissions past the shutdown test\<close>
  ln_notes :: nat            \<comment> \<open>submissions that still have to notify\<close>
  ln_pushed :: "'h list"     \<comment> \<open>all handlers in the order they entered the queue\<close>
  ln_done :: "'h list"       \<comment> \<open>all handlers that ran, in order\<close>

definition Lane_init :: "'h Lane" where
  "Lane_init = \<lparr>ln_queue = [], ln_running = True, ln_worker = AtLoop, ln_shutdown = NotBegun,
     ln_passed = [], ln_notes = 0, ln_pushed = [], ln_done = []\<rparr>"

definition mutex_free :: "'h Lane \<Rightarrow> bool" where
  "mutex_free l \<longleftrightarrow> ln_worker l \<notin> {Testing, Parking, Taking}"

text \<open>\<open>notify_one\<close> wakes a sleeping worker, which then tests the predicate again.\<close>

definition notified :: "'h Lane \<Rightarrow> 'h Lane" where
  "notified l = (if ln_worker l = Asleep then l\<lparr>ln_worker := Testing\<rparr> else l)"

section \<open>Steps\<close>

inductive lane_step :: "'h Lane \<Rightarrow> 'h Lane \<Rightarrow> bool" where
  submit_test:
    "ln_shutdown l = NotBegun \<Longrightarrow> lane_step l (l\<lparr>ln_passed := ln_passed l @ [h]\<rparr>)"
| submit_push:
    "ln_passed l = p @ h # q \<Longrightarrow> mutex_free l \<Longrightarrow>
     lane_step l (l\<lparr>ln_passed := p @ q, ln_queue := ln_queue l @ [h], ln_pushed := ln_pushed l @ [h],
       ln_notes := Suc (ln_notes l)\<rparr>)"
| submit_notify:
    "ln_notes l = Suc n \<Longrightarrow> lane_step l (notified (l\<lparr>ln_notes := n\<rparr>))"
| worker_loop:
    "ln_worker l = AtLoop \<Longrightarrow> ln_running l \<Longrightarrow> lane_step l (l\<lparr>ln_worker := Testing\<rparr>)"
| worker_leave:
    "ln_worker l = AtLoop \<Longrightarrow> \<not> ln_running l \<Longrightarrow> lane_step l (l\<lparr>ln_worker := Ended\<rparr>)"
| worker_ready:
    "ln_worker l = Testing \<Longrightarrow> ln_queue l \<noteq> [] \<or> \<not> ln_running l \<Longrightarrow> lane_step l (l\<lparr>ln_worker := Taking\<rparr>)"
| worker_not_ready:
    "ln_worker l = Testing \<Longrightarrow> ln_queue l = [] \<Longrightarrow> ln_running l \<Longrightarrow> lane_step l (l\<lparr>ln_worker := Parking\<rparr>)"
| worker_sleep:
    "ln_worker l = Parking \<Longrightarrow> lane_step l (l\<lparr>ln_worker := Asleep\<rparr>)"
| worker_break:
    "ln_worker l = Taking \<Longrightarrow> \<not> ln_running l \<Longrightarrow> ln_queue l = [] \<Longrightarrow> lane_step l (l\<lparr>ln_worker := Ended\<rparr>)"
| worker_take:
    "ln_worker l = Taking \<Longrightarrow> ln_queue l = h # q \<Longrightarrow>
     lane_step l (l\<lparr>ln_worker := InHandler h, ln_queue := q\<rparr>)"
| worker_ran:
    "ln_worker l = InHandler h \<Longrightarrow> lane_step l (l\<lparr>ln_worker := AtLoop, ln_done := ln_done l @ [h]\<rparr>)"
| shutdown_flag:
    "ln_shutdown l = NotBegun \<Longrightarrow> lane_step l (l\<lparr>ln_shutdown := Flagged\<rparr>)"
| shutdown_store:
    "ln_shutdown l = Flagged \<Longrightarrow> lane_step l (l\<lparr>ln_shutdown := Stored, ln_running := False\<rparr>)"
| shutdown_notify:
    "ln_shutdown l = Stored \<Longrightarrow> lane_step l (notified (l\<lparr>ln_shutdown := Joining\<rparr>))"
| shutdown_join:
    "ln_shutdown l = Joining \<Longrightarrow> ln_worker l = Ended \<Longrightarrow> lane_step l (l\<lparr>ln_shutdown := Returned\<rparr>)"

definition lane_reachable :: "'h Lane \<Rightarrow> bool" where
  "lane_reachable l \<longleftrightarrow> lane_step\<^sup>*\<^sup>* Lane_init l"

lemma lane_invariant:
  assumes "lane_reachable l" and "P Lane_init" and "\<And>a b. P a \<Longrightarrow> lane_step a b \<Longrightarrow> P b"
  shows "P l"
  using assms(1) unfolding lane_reachable_def
  by (induction rule: rtranclp_induct) (use assms(2,3) in blast)+

section \<open>Order\<close>

definition current :: "'h Lane \<Rightarrow> 'h list" where
  "current l = (case ln_worker l of InHandler h \<Rightarrow> [h] | _ \<Rightarrow> [])"

text \<open>
  Claim C34. A lane is serial and first-in first-out in every interleaving of its threads,
  shutdown included: the handlers that entered the queue are, in order, those that have run,
  the one that is running (at most one), and those still queued.
\<close>

theorem lane_processor_fifo:
  assumes "lane_reachable l"
  shows "ln_pushed l = ln_done l @ current l @ ln_queue l"
  using assms
proof (rule lane_invariant)
  show "ln_pushed Lane_init = ln_done Lane_init @ current Lane_init @ ln_queue Lane_init"
    by (simp add: Lane_init_def current_def)
next
  fix a b :: "'h Lane"
  assume inv: "ln_pushed a = ln_done a @ current a @ ln_queue a" and step: "lane_step a b"
  from step inv show "ln_pushed b = ln_done b @ current b @ ln_queue b"
    by cases (auto simp: current_def notified_def mutex_free_def split: worker_at.splits)
qed

section \<open>Wake-ups\<close>

text \<open>While \<open>Shutdown\<close> has not stored its flag, a queued handler always has somebody who will run it.\<close>

definition awake :: "'h Lane \<Rightarrow> bool" where
  "awake l \<longleftrightarrow> (ln_running l \<longrightarrow> (ln_queue l \<noteq> [] \<longrightarrow>
       ln_worker l \<noteq> Ended \<and> ln_worker l \<noteq> Parking \<and> (ln_worker l = Asleep \<longrightarrow> 0 < ln_notes l)))
     \<and> (ln_running l \<longrightarrow> ln_worker l \<noteq> Ended)
     \<and> (ln_worker l = Taking \<longrightarrow> ln_queue l \<noteq> [] \<or> \<not> ln_running l)"

lemma awake_step: "awake a \<Longrightarrow> lane_step a b \<Longrightarrow> awake b"
  by (erule lane_step.cases) (auto simp: awake_def notified_def mutex_free_def)

text \<open>
  Claim C35. Submissions are never stranded: as long as the lane is running, a queued handler
  means that the worker is on its way to it, or is asleep with a notification still to come;
  so some step of the worker or of a submitter is always enabled.
\<close>

theorem submissions_not_stranded:
  assumes "lane_reachable l" and "ln_running l" and "ln_queue l \<noteq> []"
  shows "(ln_worker l \<in> {AtLoop, Testing, Taking} \<union> range InHandler \<or> (ln_worker l = Asleep \<and> 0 < ln_notes l)) \<and>
    (\<exists>l'. lane_step l l' \<and> (ln_worker l' \<noteq> ln_worker l))"
proof (intro conjI impI)
  have "awake l"
    using assms(1)
  proof (rule lane_invariant)
    show "awake (Lane_init :: 'a Lane)" by (simp add: awake_def Lane_init_def)
    show "awake b" if "awake a" "lane_step a b" for a b :: "'a Lane" using that by (rule awake_step)
  qed
  then show w: "ln_worker l \<in> {AtLoop, Testing, Taking} \<union> range InHandler \<or> (ln_worker l = Asleep \<and> 0 < ln_notes l)"
    using assms(2,3) by (cases "ln_worker l") (auto simp: awake_def)
  obtain h q where q: "ln_queue l = h # q" using assms(3) by (cases "ln_queue l") auto
  from w consider "ln_worker l = AtLoop" | "ln_worker l = Testing" | "ln_worker l = Taking"
    | x where "ln_worker l = InHandler x" | n where "ln_worker l = Asleep" "ln_notes l = Suc n"
    using gr0_implies_Suc by blast
  then show "\<exists>l'. lane_step l l' \<and> (ln_worker l' \<noteq> ln_worker l)"
  proof cases
    case 1
    from worker_loop [OF 1 assms(2)] 1 show ?thesis by (intro exI conjI) auto
  next
    case 2
    from worker_ready [OF 2] assms(3) 2 show ?thesis by (intro exI conjI) auto
  next
    case 3
    from worker_take [OF 3 q] 3 show ?thesis by (intro exI conjI) auto
  next
    case 4
    from worker_ran [OF 4] 4 show ?thesis by (intro exI conjI) auto
  next
    case 5
    from submit_notify [OF 5(2)] 5(1) show ?thesis by (intro exI conjI) (auto simp: notified_def)
  qed
qed

definition busy_lane :: "nat Lane" where
  "busy_lane = Lane_init\<lparr>ln_queue := [1], ln_pushed := [1], ln_notes := 1\<rparr>"

lemma busy_lane_reachable: "lane_reachable busy_lane"
proof -
  have "lane_step Lane_init (Lane_init\<lparr>ln_passed := [1::nat]\<rparr>)"
    using submit_test [of Lane_init "1::nat"] by (simp add: Lane_init_def)
  moreover have "lane_step (Lane_init\<lparr>ln_passed := [1::nat]\<rparr>) busy_lane"
    using submit_push [of "Lane_init\<lparr>ln_passed := [1::nat]\<rparr>" "[]" 1 "[]"]
    by (simp add: Lane_init_def busy_lane_def mutex_free_def)
  ultimately show ?thesis
    unfolding lane_reachable_def by (meson rtranclp.rtrancl_into_rtrancl rtranclp.rtrancl_refl)
qed

theorem lane_processor_fifo_witness: "ln_pushed busy_lane = ln_done busy_lane @ current busy_lane @ ln_queue busy_lane"
  by (rule lane_processor_fifo [OF busy_lane_reachable])

theorem submissions_not_stranded_witness:
  "\<exists>l'. lane_step busy_lane l' \<and> ln_worker l' \<noteq> AtLoop"
  using submissions_not_stranded [OF busy_lane_reachable] by (simp add: busy_lane_def Lane_init_def)

section \<open>Shutdown\<close>

text \<open>
  Claim C36. Shutting down is not safe. The flag is stored and notified without the lane's mutex,
  so the notification can fall between the worker's test of the predicate and its sleep: a
  state is reachable in which the worker sleeps, \<open>Shutdown\<close> waits for it, and no step at all is
  possible. And when it does return, handlers that were accepted may have been dropped.
\<close>

theorem shutdown_hangs_or_drops:
  "(\<exists>l :: nat Lane. lane_reachable l \<and> ln_shutdown l = Joining \<and> ln_worker l = Asleep \<and> (\<nexists>l'. lane_step l l')) \<and>
    (\<exists>l :: nat Lane. lane_reachable l \<and> ln_shutdown l = Returned \<and> ln_queue l \<noteq> [])"
proof (intro conjI impI)
  have go: "lane_reachable a \<Longrightarrow> lane_step a b \<Longrightarrow> lane_reachable b" for a b :: "nat Lane"
    unfolding lane_reachable_def by (rule rtranclp.rtrancl_into_rtrancl)
  have start: "lane_reachable (Lane_init :: nat Lane)" by (simp add: lane_reachable_def)
  let ?i = "Lane_init :: nat Lane"
  have "lane_reachable (?i\<lparr>ln_worker := Testing\<rparr>)"
    using go [OF start worker_loop] by (simp add: Lane_init_def)
  from go [OF this worker_not_ready] have "lane_reachable (?i\<lparr>ln_worker := Parking\<rparr>)"
    by (simp add: Lane_init_def)
  from go [OF this shutdown_flag] have "lane_reachable (?i\<lparr>ln_worker := Parking, ln_shutdown := Flagged\<rparr>)"
    by (simp add: Lane_init_def)
  from go [OF this shutdown_store]
  have "lane_reachable (?i\<lparr>ln_worker := Parking, ln_shutdown := Stored, ln_running := False\<rparr>)"
    by (simp add: Lane_init_def)
  from go [OF this shutdown_notify]
  have "lane_reachable (?i\<lparr>ln_worker := Parking, ln_shutdown := Joining, ln_running := False\<rparr>)"
    by (simp add: Lane_init_def notified_def)
  from go [OF this worker_sleep]
  have r: "lane_reachable (?i\<lparr>ln_worker := Asleep, ln_shutdown := Joining, ln_running := False\<rparr>)"
    by (simp add: Lane_init_def)
  moreover have "\<not> lane_step (?i\<lparr>ln_worker := Asleep, ln_shutdown := Joining, ln_running := False\<rparr>) l'" for l'
    by (auto simp: Lane_init_def elim!: lane_step.cases)
  ultimately show "\<exists>l :: nat Lane. lane_reachable l \<and> ln_shutdown l = Joining \<and> ln_worker l = Asleep
      \<and> (\<nexists>l'. lane_step l l')"
    by (intro exI [of _ "?i\<lparr>ln_worker := Asleep, ln_shutdown := Joining, ln_running := False\<rparr>"])
      (simp add: Lane_init_def)
  from go [OF busy_lane_reachable shutdown_flag]
  have "lane_reachable (busy_lane\<lparr>ln_shutdown := Flagged\<rparr>)" by (simp add: busy_lane_def Lane_init_def)
  from go [OF this shutdown_store]
  have "lane_reachable (busy_lane\<lparr>ln_shutdown := Stored, ln_running := False\<rparr>)"
    by (simp add: busy_lane_def Lane_init_def)
  from go [OF this worker_leave]
  have "lane_reachable (busy_lane\<lparr>ln_shutdown := Stored, ln_running := False, ln_worker := Ended\<rparr>)"
    by (simp add: busy_lane_def Lane_init_def)
  from go [OF this shutdown_notify]
  have "lane_reachable (busy_lane\<lparr>ln_shutdown := Joining, ln_running := False, ln_worker := Ended\<rparr>)"
    by (simp add: busy_lane_def Lane_init_def notified_def)
  from go [OF this shutdown_join]
  have "lane_reachable (busy_lane\<lparr>ln_shutdown := Returned, ln_running := False, ln_worker := Ended\<rparr>)"
    by (simp add: busy_lane_def Lane_init_def)
  then show "\<exists>l :: nat Lane. lane_reachable l \<and> ln_shutdown l = Returned \<and> ln_queue l \<noteq> []"
    by (intro exI [of _ "busy_lane\<lparr>ln_shutdown := Returned, ln_running := False, ln_worker := Ended\<rparr>"])
      (simp add: busy_lane_def)
qed

end
