(* ===== verification/Turns.thy ===== *)
theory Turns
  imports RavPrelude
begin

text \<open>
  Messages and their content blocks (\<open>include/ravbot/core/content_block.hpp\<close>,
  \<open>include/ravbot/providers/llm_provider.hpp\<close>) and the repair of turn sequences for the
  providers, \<open>src/core/turn_validator.cpp\<close>. The JSON input of a tool call is represented by
  its printed text, \<open>None\<close> when it is null.
\<close>

section \<open>Messages\<close>

record ContentBlock =
  cb_type :: string
  cb_text :: string
  cb_id :: string
  cb_name :: string
  cb_input :: "string option"
  cb_tool_use_id :: string
  cb_content :: string

definition ContentBlock_empty :: ContentBlock where
  "ContentBlock_empty = \<lparr>cb_type = [], cb_text = [], cb_id = [], cb_name = [], cb_input = None,
     cb_tool_use_id = [], cb_content = []\<rparr>"

definition MakeText :: "string \<Rightarrow> ContentBlock" where
  "MakeText t = ContentBlock_empty\<lparr>cb_type := ''text'', cb_text := t\<rparr>"

definition MakeToolUse :: "string \<Rightarrow> string \<Rightarrow> string option \<Rightarrow> ContentBlock" where
  "MakeToolUse bid name input =
     ContentBlock_empty\<lparr>cb_type := ''tool_use'', cb_id := bid, cb_name := name, cb_input := input\<rparr>"

definition MakeToolResult :: "string \<Rightarrow> string \<Rightarrow> ContentBlock" where
  "MakeToolResult tool_use_id content =
     ContentBlock_empty\<lparr>cb_type := ''tool_result'', cb_tool_use_id := tool_use_id, cb_content := content\<rparr>"

record Message =
  ms_role :: string
  ms_content :: "ContentBlock list"
  ms_timestamp :: string

definition is_tool_use :: "ContentBlock \<Rightarrow> bool" where
  "is_tool_use b \<longleftrightarrow> cb_type b = ''tool_use''"

definition is_tool_result :: "ContentBlock \<Rightarrow> bool" where
  "is_tool_result b \<longleftrightarrow> cb_type b = ''tool_result''"

section \<open>The validators\<close>

definition valid_tool_use_ids :: "Message \<Rightarrow> string set" where
  "valid_tool_use_ids msg =
     set (map cb_tool_use_id (List.filter (\<lambda>b. cb_type b = ''tool_result'' \<and> cb_tool_use_id b \<noteq> []) (ms_content msg)))"

text \<open>One message of the loop, with the rest of the sequence to look ahead.\<close>

definition strip_message :: "Message \<Rightarrow> Message list \<Rightarrow> Message" where
  "strip_message msg rest =
     (if ms_role msg \<noteq> ''assistant'' then msg
      else if rest = [] \<or> ms_role (hd rest) \<noteq> ''user'' then msg
      else if \<not> list_ex is_tool_use (ms_content msg) then msg
      else
        (let ids = valid_tool_use_ids (hd rest);
             filtered = List.filter (\<lambda>b. cb_type b \<noteq> ''tool_use'' \<or> cb_id b \<in> ids) (ms_content msg)
         in if filtered = [] \<and> ms_content msg \<noteq> []
            then \<lparr>ms_role = ms_role msg, ms_content = [MakeText ''[tool calls omitted]''], ms_timestamp = []\<rparr>
            else \<lparr>ms_role = ms_role msg, ms_content = filtered, ms_timestamp = []\<rparr>))"

fun strip_dangling_tool_uses :: "Message list \<Rightarrow> Message list" where
  "strip_dangling_tool_uses [] = []"
| "strip_dangling_tool_uses (msg # rest) = strip_message msg rest # strip_dangling_tool_uses rest"

text \<open>One iteration of the merging loop on \<open>result\<close>.\<close>

definition merge_step :: "string \<Rightarrow> Message list \<Rightarrow> Message \<Rightarrow> Message list" where
  "merge_step role result msg =
     (if ms_content msg = [] then result
      else if result \<noteq> [] \<and> ms_role (last result) = role \<and> ms_role msg = role then
        butlast result @ [(last result)\<lparr>ms_content := ms_content (last result) @ ms_content msg,
          ms_timestamp := (if ms_timestamp msg \<noteq> [] then ms_timestamp msg else ms_timestamp (last result))\<rparr>]
      else result @ [msg])"

definition merge_consecutive_role :: "Message list \<Rightarrow> string \<Rightarrow> Message list" where
  "merge_consecutive_role messages role = foldl (merge_step role) [] messages"

definition FixAnthropicTurns :: "Message list \<Rightarrow> Message list" where
  "FixAnthropicTurns messages = merge_consecutive_role (strip_dangling_tool_uses messages) ''user''"

definition FixGoogleTurns :: "Message list \<Rightarrow> Message list" where
  "FixGoogleTurns messages = merge_consecutive_role messages ''assistant''"

type_synonym TurnValidator = "(string, Message list \<Rightarrow> Message list) umap"

definition TurnValidator_init :: TurnValidator where
  "TurnValidator_init = [(''anthropic'', FixAnthropicTurns), (''google'', FixGoogleTurns), (''gemini'', FixGoogleTurns)]"

definition ValidateAndFix :: "TurnValidator \<Rightarrow> Message list \<Rightarrow> string \<Rightarrow> Message list" where
  "ValidateAndFix validators messages provider_id =
     (case map_of validators provider_id of None \<Rightarrow> messages | Some f \<Rightarrow> f messages)"

definition RegisterValidator :: "string \<Rightarrow> (Message list \<Rightarrow> Message list) \<Rightarrow> TurnValidator \<Rightarrow> TurnValidator" where
  "RegisterValidator provider_id validator validators = AList.update provider_id validator validators"

section \<open>Merging\<close>

fun no_adjacent :: "string \<Rightarrow> Message list \<Rightarrow> bool" where
  "no_adjacent role (a # b # rest) = (\<not> (ms_role a = role \<and> ms_role b = role) \<and> no_adjacent role (b # rest))"
| "no_adjacent role _ = True"

lemma no_adjacent_snoc:
  "no_adjacent role (xs @ [m]) \<longleftrightarrow>
     no_adjacent role xs \<and> \<not> (xs \<noteq> [] \<and> ms_role (last xs) = role \<and> ms_role m = role)"
  by (induction role xs rule: no_adjacent.induct) auto

lemma no_adjacent_last:
  assumes "ms_role m' = ms_role m"
  shows "no_adjacent role (xs @ [m']) = no_adjacent role (xs @ [m])"
  using assms by (simp add: no_adjacent_snoc)

definition all_blocks :: "Message list \<Rightarrow> ContentBlock list" where
  "all_blocks ms = concat (map ms_content ms)"

definition merged_ok :: "string \<Rightarrow> Message list \<Rightarrow> bool" where
  "merged_ok role ms \<longleftrightarrow> no_adjacent role ms \<and> (\<forall>m \<in> set ms. ms_content m \<noteq> [])"

lemma merge_step_ok: "merged_ok role r \<Longrightarrow> merged_ok role (merge_step role r m)"
proof (cases "r = []")
  case True
  then show ?thesis by (simp add: merge_step_def merged_ok_def)
next
  case False
  assume ok: "merged_ok role r"
  obtain xs x where r: "r = xs @ [x]" using False by (metis append_butlast_last_id)
  with ok no_adjacent_snoc [of role "xs @ [x]" m] show ?thesis
    by (auto simp: merge_step_def merged_ok_def no_adjacent_snoc)
qed

lemma merge_step_blocks: "all_blocks (merge_step role r m) = all_blocks r @ ms_content m"
proof (cases "r = []")
  case True
  then show ?thesis by (simp add: merge_step_def all_blocks_def)
next
  case False
  then obtain xs x where r: "r = xs @ [x]" by (metis append_butlast_last_id)
  show ?thesis by (simp add: merge_step_def all_blocks_def r)
qed

lemma all_blocks_simps [simp]:
  "all_blocks [] = []" "all_blocks (m # ms) = ms_content m @ all_blocks ms"
  by (simp_all add: all_blocks_def)

lemma merge_foldl:
  "merged_ok role r \<Longrightarrow> merged_ok role (foldl (merge_step role) r ms)
     \<and> all_blocks (foldl (merge_step role) r ms) = all_blocks r @ all_blocks ms"
  by (induction ms arbitrary: r) (auto simp: merge_step_ok merge_step_blocks)

text \<open>
  Merging gives a provider the alternation it asks for and loses nothing: in the
  result no two neighbouring messages have the merged role, no message is empty, and the
  content blocks are those of the input in the same order.
\<close>

theorem merge_alternates:
  "(no_adjacent role (merge_consecutive_role ms role)) \<and>
    (\<forall>m \<in> set (merge_consecutive_role ms role). ms_content m \<noteq> []) \<and>
    (all_blocks (merge_consecutive_role ms role) = all_blocks ms)"
  using merge_foldl [of role "[]" ms]
  by (simp_all add: merge_consecutive_role_def merged_ok_def)

definition demo_turns :: "Message list" where
  "demo_turns =
     [\<lparr>ms_role = ''user'', ms_content = [MakeText ''a''], ms_timestamp = ''1''\<rparr>,
      \<lparr>ms_role = ''user'', ms_content = [MakeText ''b''], ms_timestamp = ''2''\<rparr>]"

theorem merge_alternates_witness:
  "length (merge_consecutive_role demo_turns ''user'') = 1
   \<and> ms_content (hd (merge_consecutive_role demo_turns ''user'')) \<noteq> []"
  using merge_alternates [of "''user''" demo_turns]
  by (simp add: merge_consecutive_role_def merge_step_def demo_turns_def MakeText_def)

section \<open>Tool calls and their results\<close>

text \<open>Every tool call of an assistant message that a user message follows is answered in it.\<close>

definition answered :: "Message \<Rightarrow> Message \<Rightarrow> bool" where
  "answered a b \<longleftrightarrow> (ms_role a = ''assistant'' \<and> ms_role b = ''user'' \<longrightarrow>
     (\<forall>c \<in> set (ms_content a). is_tool_use c \<longrightarrow> cb_id c \<in> valid_tool_use_ids b))"

fun all_answered :: "Message list \<Rightarrow> bool" where
  "all_answered (a # b # rest) = (answered a b \<and> all_answered (b # rest))"
| "all_answered _ = True"

lemma all_answered_snoc:
  "all_answered (xs @ [m]) \<longleftrightarrow> all_answered xs \<and> (xs \<noteq> [] \<longrightarrow> answered (last xs) m)"
  by (induction xs rule: all_answered.induct) auto

lemma valid_ids_append:
  "valid_tool_use_ids m \<subseteq> valid_tool_use_ids (m\<lparr>ms_content := ms_content m @ bs, ms_timestamp := ts\<rparr>)"
  by (auto simp: valid_tool_use_ids_def)

lemma strip_role [simp]: "ms_role (strip_message m rest) = ms_role m"
  by (simp add: strip_message_def Let_def)

lemma strip_user [simp]: "ms_role m = ''user'' \<Longrightarrow> strip_message m rest = m"
  by (simp add: strip_message_def)

lemma strip_nonempty: "ms_content m \<noteq> [] \<Longrightarrow> ms_content (strip_message m rest) \<noteq> []"
  by (auto simp: strip_message_def Let_def)

lemma strip_answered: "answered (strip_message m (n # rest)) n"
  by (auto simp: answered_def strip_message_def Let_def list_ex_iff is_tool_use_def MakeText_def
      ContentBlock_empty_def)

lemma strip_all_answered: "all_answered (strip_dangling_tool_uses ms)"
proof (induction ms)
  case (Cons m ms)
  show ?case
  proof (cases ms)
    case (Cons n rest)
    have "answered (strip_message m ms) (strip_message n rest)"
    proof (cases "ms_role n = ''user''")
      case True
      with Cons show ?thesis by (simp add: strip_answered)
    next
      case False
      then show ?thesis by (simp add: answered_def)
    qed
    with Cons.IH Cons show ?thesis by simp
  qed simp
qed simp

lemma strip_all_nonempty:
  "\<forall>m \<in> set ms. ms_content m \<noteq> [] \<Longrightarrow> \<forall>m \<in> set (strip_dangling_tool_uses ms). ms_content m \<noteq> []"
  by (induction ms) (auto simp: strip_nonempty)

lemma merge_step_answered:
  assumes "all_answered r" and "ms_content m \<noteq> []"
    and "r \<noteq> [] \<Longrightarrow> answered (last r) m \<or> ms_role (last r) = ''user''"
  shows "all_answered (merge_step ''user'' r m)"
proof (cases "r = []")
  case True
  with assms show ?thesis by (simp add: merge_step_def)
next
  case False
  then obtain xs x where r: "r = xs @ [x]" by (metis append_butlast_last_id)
  show ?thesis
  proof (cases "ms_role x = ''user'' \<and> ms_role m = ''user''")
    case True
    then have "answered y x \<Longrightarrow> answered y (x\<lparr>ms_content := ms_content x @ ms_content m, ms_timestamp := t\<rparr>)" for y t
      using valid_ids_append [of x _ "ms_content m"] by (auto simp: answered_def)
    with True assms(1,2) r show ?thesis
      by (auto simp: merge_step_def all_answered_snoc)
  next
    case no: False
    then have "answered x m" using assms(3) r by (auto simp: answered_def)
    with no assms(1,2) r all_answered_snoc [of "xs @ [x]" m] show ?thesis by (auto simp: merge_step_def)
  qed
qed

lemma merge_all_answered:
  "all_answered r \<Longrightarrow> all_answered ms \<Longrightarrow> \<forall>m \<in> set ms. ms_content m \<noteq> [] \<Longrightarrow>
   (ms \<noteq> [] \<and> r \<noteq> [] \<Longrightarrow> answered (last r) (hd ms) \<or> ms_role (last r) = ''user'') \<Longrightarrow>
   all_answered (foldl (merge_step ''user'') r ms)"
proof (induction ms arbitrary: r)
  case (Cons m ms)
  let ?r = "merge_step ''user'' r m"
  have a: "all_answered ?r" using Cons.prems merge_step_answered [of r m] by simp
  have next_ok: "answered (last ?r) (hd ms) \<or> ms_role (last ?r) = ''user''" if "ms \<noteq> []"
  proof -
    have "answered m (hd ms)" using Cons.prems(2) that by (cases ms) auto
    then show ?thesis using Cons.prems(3) by (auto simp: merge_step_def)
  qed
  have "all_answered ms" using Cons.prems(2) by (cases ms) auto
  with Cons.IH [OF a] next_ok Cons.prems(3) show ?case by simp
qed simp

text \<open>
  For a history without empty messages the Anthropic repair leaves no dangling tool
  call: in the result every tool call of an assistant message that is followed by a user
  message has its result in that message. With an empty message in between this fails: the
  empty one is dropped only after the calls were checked against it.
\<close>

theorem anthropic_calls_answered:
  assumes "\<forall>m \<in> set ms. ms_content m \<noteq> []"
  shows "(all_answered (FixAnthropicTurns ms)) \<and>
    (\<exists>ms'. \<not> all_answered (FixAnthropicTurns ms'))"
proof (intro conjI impI)
  show "all_answered (FixAnthropicTurns ms)"
    unfolding FixAnthropicTurns_def merge_consecutive_role_def
    using strip_all_nonempty [OF assms] by (intro merge_all_answered) (simp_all add: strip_all_answered)
  let ?bad = "[\<lparr>ms_role = ''assistant'', ms_content = [MakeToolUse ''t1'' ''exec'' None], ms_timestamp = []\<rparr>,
     \<lparr>ms_role = ''assistant'', ms_content = [], ms_timestamp = []\<rparr>,
     \<lparr>ms_role = ''user'', ms_content = [MakeText ''hi''], ms_timestamp = []\<rparr>]"
  have "\<not> all_answered (FixAnthropicTurns ?bad)"
    by (simp add: FixAnthropicTurns_def merge_consecutive_role_def merge_step_def strip_message_def
        answered_def is_tool_use_def MakeToolUse_def MakeText_def ContentBlock_empty_def
        valid_tool_use_ids_def Let_def)
  then show "\<exists>ms'. \<not> all_answered (FixAnthropicTurns ms')" by blast
qed

definition demo_dangling :: "Message list" where
  "demo_dangling =
     [\<lparr>ms_role = ''assistant'', ms_content = [MakeText ''x'', MakeToolUse ''t1'' ''exec'' None], ms_timestamp = []\<rparr>,
      \<lparr>ms_role = ''user'', ms_content = [MakeText ''hi''], ms_timestamp = []\<rparr>]"

theorem anthropic_calls_answered_witness:
  "all_answered (FixAnthropicTurns demo_dangling) \<and> \<not> all_answered demo_dangling"
proof
  have "\<forall>m \<in> set demo_dangling. ms_content m \<noteq> []" by (simp add: demo_dangling_def)
  then show "all_answered (FixAnthropicTurns demo_dangling)" by (rule anthropic_calls_answered [THEN conjunct1])
  show "\<not> all_answered demo_dangling"
    by (simp add: demo_dangling_def answered_def is_tool_use_def MakeToolUse_def MakeText_def
        ContentBlock_empty_def valid_tool_use_ids_def)
qed

end
