(* ===== verification/Pruner.thy ===== *)
theory Pruner
  imports Turns Patterns
begin

text \<open>
  The context pruner of \<open>src/core/context_pruner.cpp\<close>. Its three floating-point computations
  go through the operations of an argument \<open>fp\<close> (conversion, product, quotient, truncation to
  \<open>int\<close>), so every result holds for every rounding. An index outside a vector is undefined
  behaviour, the value \<open>None\<close>. Sizes fit an \<open>int\<close>.
\<close>

section \<open>Options\<close>

record 'd FpOps =
  fp_of_int :: "int \<Rightarrow> 'd"
  fp_mul :: "'d \<Rightarrow> 'd \<Rightarrow> 'd"
  fp_div :: "'d \<Rightarrow> 'd \<Rightarrow> 'd"
  fp_trunc :: "'d \<Rightarrow> int"

record 'd PruneOptions =
  po_protect_recent :: int
  po_soft_prune_lines :: int
  po_hard_prune_after :: int
  po_max_tool_result_chars :: int
  po_context_window :: int
  po_max_tokens :: int
  po_prune_target_ratio :: 'd

record CompressionStrategy =
  cs_preserve_recent :: bool
  cs_preserve_tool_calls :: bool
  cs_preserve_system :: bool
  cs_min_messages :: int

record CompressionStats =
  st_messages_removed :: int
  st_tokens_saved :: int

section \<open>Token estimates\<close>

definition block_chars :: "ContentBlock \<Rightarrow> int" where
  "block_chars b = int (length (cb_text b)) + int (length (cb_content b))
     + (case cb_input b of None \<Rightarrow> 0 | Some d \<Rightarrow> int (length d))"

definition EstimateTokens1 :: "Message \<Rightarrow> int" where
  "EstimateTokens1 msg = cdiv (int (length (ms_role msg)) + sum_list (map block_chars (ms_content msg))) 4"

definition EstimateTokens :: "Message list \<Rightarrow> int" where
  "EstimateTokens msgs = sum_list (map EstimateTokens1 msgs)"

section \<open>Soft pruning\<close>

text \<open>The lines \<open>std::getline\<close> delivers: no line after a final newline.\<close>

definition newline :: char where "newline = CHR 0x0A"

fun getlines :: "string \<Rightarrow> string \<Rightarrow> string list" where
  "getlines acc [] = (if acc = [] then [] else [acc])"
| "getlines acc (c # cs) = (if c = newline then acc # getlines [] cs else getlines (acc @ [c]) cs)"

definition lines_of :: "string \<Rightarrow> string list" where
  "lines_of s = getlines [] s"

definition warn_sign :: string where "warn_sign = [CHR 0xE2, CHR 0x9A, CHR 0xA0]"

definition em_dash :: string where "em_dash = [CHR 0xE2, CHR 0x80, CHR 0x94]"

definition truncation_note :: "nat \<Rightarrow> string" where
  "truncation_note original =
     warn_sign @ '' [Content truncated '' @ em_dash @ '' original was '' @ to_string (int original)
       @ '' chars. Use offset/limit params to read specific sections.]''"

text \<open>The text built from the first and last lines and the number of lines between them.\<close>

definition head_and_tail :: "string \<Rightarrow> int \<Rightarrow> string" where
  "head_and_tail content keep_lines =
     (let ls = lines_of content; total = int (length ls); omitted = total - keep_lines * 2
      in concat (map (\<lambda>l. l @ [newline]) (take (nat keep_lines) ls))
         @ [newline] @ truncation_note (length content) @ [newline] @ ''... ['' @ to_string omitted
         @ '' lines omitted] ...'' @ [newline, newline]
         @ str_join [newline] (drop (nat (total - keep_lines)) ls))"

definition soft_prune :: "string \<Rightarrow> int \<Rightarrow> string" where
  "soft_prune content keep_lines =
     (if int (length (lines_of content)) \<le> keep_lines * 2 then content
      else head_and_tail content keep_lines)"

section \<open>Pruning a history\<close>

definition effective_options :: "'d FpOps \<Rightarrow> Message list \<Rightarrow> 'd PruneOptions \<Rightarrow> 'd PruneOptions" where
  "effective_options fp history opts =
     (if po_context_window opts > 0 then
        (let budget = fp_trunc fp (fp_mul fp (fp_of_int fp (po_context_window opts)) (po_prune_target_ratio opts))
               - po_max_tokens opts
         in if budget > 0 then
              (let current_tokens = EstimateTokens history
               in if current_tokens > budget then
                    (let over_ratio = fp_div fp (fp_of_int fp current_tokens) (fp_of_int fp budget);
                         scaled = (\<lambda>n. fp_trunc fp (fp_div fp (fp_of_int fp n) over_ratio))
                     in opts\<lparr>po_max_tool_result_chars := max 200 (scaled (po_max_tool_result_chars opts)),
                             po_protect_recent := max 1 (scaled (po_protect_recent opts)),
                             po_hard_prune_after := max 3 (scaled (po_hard_prune_after opts))\<rparr>)
                  else opts)
            else opts)
      else opts)"

fun first_user :: "int \<Rightarrow> Message list \<Rightarrow> int" where
  "first_user i [] = -1"
| "first_user i (m # ms) = (if ms_role m = ''user'' then i else first_user (i + 1) ms)"

definition assistant_indices :: "Message list \<Rightarrow> nat list" where
  "assistant_indices history = List.filter (\<lambda>i. ms_role (history ! i) = ''assistant'') [0..<length history]"

text \<open>\<open>assistant_indices[num_assistants - n]\<close> when there are more than \<open>n\<close>, else \<open>-1\<close>.\<close>

definition recency_threshold :: "nat list \<Rightarrow> int \<Rightarrow> int option" where
  "recency_threshold idx n =
     (let num = int (length idx)
      in if num > n \<and> idx \<noteq> [] then
           (if num - n < num then Some (int (idx ! nat (num - n))) else None)
         else Some (-1))"

definition prune_block :: "'d PruneOptions \<Rightarrow> int \<Rightarrow> int \<Rightarrow> ContentBlock \<Rightarrow> ContentBlock" where
  "prune_block effective hard_threshold i block =
     (if cb_type block \<noteq> ''tool_result'' then block
      else if hard_threshold \<ge> 0 \<and> i < hard_threshold then
        MakeToolResult (cb_tool_use_id block) (''[Tool result omitted '' @ em_dash @ '' older context]'')
      else if int (length (cb_content block)) > po_max_tool_result_chars effective then
        MakeToolResult (cb_tool_use_id block) (soft_prune (cb_content block) (po_soft_prune_lines effective))
      else block)"

definition prune_message :: "'d PruneOptions \<Rightarrow> int \<Rightarrow> int \<Rightarrow> int \<Rightarrow> int \<Rightarrow> Message \<Rightarrow> Message" where
  "prune_message effective bootstrap_end protect_threshold hard_threshold i msg =
     (if \<not> list_ex is_tool_result (ms_content msg) \<or> protect_threshold < 0 \<or> i \<ge> protect_threshold
         \<or> i \<le> bootstrap_end then msg
      else \<lparr>ms_role = ms_role msg, ms_content = map (prune_block effective hard_threshold i) (ms_content msg),
            ms_timestamp = []\<rparr>)"

definition Prune :: "'d FpOps \<Rightarrow> 'd PruneOptions \<Rightarrow> Message list \<Rightarrow> Message list option" where
  "Prune fp opts history =
     (if history = [] then Some history
      else
        (let effective = effective_options fp history opts;
             bootstrap_end = first_user 0 history;
             idx = assistant_indices history
         in case (recency_threshold idx (po_protect_recent effective),
                  recency_threshold idx (po_hard_prune_after effective)) of
              (Some protect_threshold, Some hard_threshold) \<Rightarrow>
                Some (map (\<lambda>(i, msg). prune_message effective bootstrap_end protect_threshold hard_threshold (int i) msg)
                       (enumerate 0 history))
            | _ \<Rightarrow> None))"

section \<open>What pruning keeps\<close>

text \<open>A block up to the text of a tool result.\<close>

definition block_shape :: "ContentBlock \<Rightarrow> ContentBlock" where
  "block_shape b = (if is_tool_result b then MakeToolResult (cb_tool_use_id b) [] else b)"

lemma prune_block_shape: "block_shape (prune_block e h i b) = block_shape b"
  by (simp add: prune_block_def block_shape_def is_tool_result_def MakeToolResult_def)

lemma prune_message_shape:
  "ms_role (prune_message e b p h i m) = ms_role m"
  "map block_shape (ms_content (prune_message e b p h i m)) = map block_shape (ms_content m)"
  by (simp_all add: prune_message_def prune_block_shape)

lemma Prune_Some:
  assumes "Prune fp opts history = Some r" and "history \<noteq> []"
  shows "\<exists>p h. recency_threshold (assistant_indices history)
        (po_protect_recent (effective_options fp history opts)) = Some p
      \<and> r = map (\<lambda>(i, msg). prune_message (effective_options fp history opts)
          (first_user 0 history) p h (int i) msg) (enumerate 0 history)"
  using assms by (auto simp: Prune_def Let_def split: option.splits)

lemma Prune_nth:
  fixes opts :: "'d PruneOptions"
  assumes "Prune fp opts history = Some r"
  shows "length r = length history"
    and "i < length history \<Longrightarrow> \<exists>(e :: 'd PruneOptions) b p h. r ! i = prune_message e b p h (int i) (history ! i)"
proof -
  show "length r = length history"
    using assms by (auto simp: Prune_def Let_def split: if_splits option.splits)
  assume i: "i < length history"
  then have "history \<noteq> []" by auto
  then obtain p h where "r = map (\<lambda>(i, msg). prune_message (effective_options fp history opts)
      (first_user 0 history) p h (int i) msg) (enumerate 0 history)"
    using Prune_Some [OF assms] by blast
  with i have "r ! i = prune_message (effective_options fp history opts) (first_user 0 history) p h (int i) (history ! i)"
    by (simp add: nth_enumerate_eq)
  then show "\<exists>(e :: 'd PruneOptions) b p h. r ! i = prune_message e b p h (int i) (history ! i)" by blast
qed

lemma Prune_total:
  assumes "1 \<le> po_protect_recent opts" and "1 \<le> po_hard_prune_after opts"
  shows "Prune fp opts history \<noteq> None"
proof -
  have "1 \<le> po_protect_recent (effective_options fp history opts)"
    "1 \<le> po_hard_prune_after (effective_options fp history opts)"
    using assms by (simp_all add: effective_options_def Let_def le_max_iff_disj)
  then show ?thesis
    by (auto simp: Prune_def Let_def recency_threshold_def split: option.splits)
qed

text \<open>
  Pruning never breaks the conversation's structure: when it returns, the result has
  the same number of messages with the same roles in the same order, every block that is not a
  tool result is there unchanged, and every tool result still stands in its place with the id
  of its call. Pruning is defined whenever the two thresholds are at least one.
\<close>

theorem Prune_structure:
  assumes "Prune fp opts history = Some r"
  shows "(length r = length history) \<and>
    (map ms_role r = map ms_role history) \<and>
    (map (\<lambda>m. map block_shape (ms_content m)) r = map (\<lambda>m. map block_shape (ms_content m)) history) \<and>
    (1 \<le> po_protect_recent opts' \<longrightarrow> 1 \<le> po_hard_prune_after opts' \<longrightarrow> Prune fp opts' history \<noteq> None)"
proof (intro conjI impI)
  show len: "length r = length history" using Prune_nth(1) [OF assms] .
  have n: "ms_role (r ! i) = ms_role (history ! i)"
    "map block_shape (ms_content (r ! i)) = map block_shape (ms_content (history ! i))"
    if "i < length history" for i
    using Prune_nth(2) [OF assms that] prune_message_shape by metis+
  show "map ms_role r = map ms_role history" using len n(1) by (intro nth_equalityI) simp_all
  show "map (\<lambda>m. map block_shape (ms_content m)) r = map (\<lambda>m. map block_shape (ms_content m)) history"
    using len n(2) by (intro nth_equalityI) simp_all
  show "Prune fp opts' history \<noteq> None"
    if "1 \<le> po_protect_recent opts'" "1 \<le> po_hard_prune_after opts'"
    using that by (rule Prune_total)
qed

definition demo_fp :: "int FpOps" where
  "demo_fp = \<lparr>fp_of_int = (\<lambda>n. n), fp_mul = (\<lambda>a b. a * b), fp_div = cdiv, fp_trunc = (\<lambda>n. n)\<rparr>"

definition demo_options :: "int PruneOptions" where
  "demo_options = \<lparr>po_protect_recent = 1, po_soft_prune_lines = 1, po_hard_prune_after = 2,
     po_max_tool_result_chars = 4, po_context_window = 0, po_max_tokens = 0, po_prune_target_ratio = 1\<rparr>"

definition demo_history :: "Message list" where
  "demo_history =
     [\<lparr>ms_role = ''user'', ms_content = [MakeText ''go''], ms_timestamp = []\<rparr>,
      \<lparr>ms_role = ''assistant'', ms_content = [MakeToolUse ''t1'' ''exec'' None], ms_timestamp = []\<rparr>,
      \<lparr>ms_role = ''user'', ms_content = [MakeToolResult ''t1'' ''long output''], ms_timestamp = []\<rparr>,
      \<lparr>ms_role = ''assistant'', ms_content = [MakeText ''ok''], ms_timestamp = []\<rparr>,
      \<lparr>ms_role = ''assistant'', ms_content = [MakeText ''done''], ms_timestamp = []\<rparr>]"

lemma demo_prune:
  "\<exists>r. Prune demo_fp demo_options demo_history = Some r \<and>
     ms_content (r ! 2) = [MakeToolResult ''t1'' (''[Tool result omitted '' @ em_dash @ '' older context]'')]"
  by (simp add: Prune_def demo_options_def demo_history_def demo_fp_def effective_options_def Let_def
      assistant_indices_def recency_threshold_def prune_message_def prune_block_def is_tool_result_def
      MakeToolResult_def MakeToolUse_def MakeText_def ContentBlock_empty_def upt_rec nth_Cons')

theorem Prune_structure_witness:
  "\<exists>r. Prune demo_fp demo_options demo_history = Some r \<and> map ms_role r = map ms_role demo_history"
proof -
  obtain r where "Prune demo_fp demo_options demo_history = Some r" using demo_prune by blast
  with Prune_structure [OF this] show ?thesis by blast
qed

text \<open>The number of assistant messages after position \<open>i\<close>.\<close>

definition assistants_after :: "Message list \<Rightarrow> nat \<Rightarrow> nat" where
  "assistants_after history i = length (List.filter (\<lambda>j. i < j) (assistant_indices history))"

lemma sorted_assistants: "sorted (assistant_indices history)"
  by (simp add: assistant_indices_def sorted_filter [where f = id, simplified])

lemma threshold_recent:
  assumes "recency_threshold (assistant_indices history) k = Some t" and "1 \<le> k"
    and "int (assistants_after history i) < k"
  shows "t < 0 \<or> t \<le> int i"
proof (rule ccontr)
  let ?idx = "assistant_indices history"
  assume "\<not> (t < 0 \<or> t \<le> int i)"
  then have t: "0 \<le> t" "int i < t" by auto
  with assms(1) have k: "k < int (length ?idx)" "t = int (?idx ! nat (int (length ?idx) - k))"
    by (auto simp: recency_threshold_def Let_def split: if_splits)
  let ?s = "nat (int (length ?idx) - k)"
  have s: "?s < length ?idx" "int (length ?idx - ?s) = k" using k(1) assms(2) by auto
  have late: "\<forall>x \<in> set (drop ?s ?idx). i < x"
  proof
    fix x assume "x \<in> set (drop ?s ?idx)"
    then obtain j where "x = ?idx ! (?s + j)" "?s + j < length ?idx"
      by (auto simp: in_set_conv_nth)
    moreover have "?idx ! ?s \<le> ?idx ! (?s + j)"
      using sorted_assistants [of history] calculation(2) by (simp add: sorted_nth_mono)
    ultimately show "i < x" using k(2) t(2) by simp
  qed
  have "List.filter (\<lambda>j. i < j) ?idx = List.filter (\<lambda>j. i < j) (take ?s ?idx) @ drop ?s ?idx"
    using late by (metis append_take_drop_id filter_True filter_append)
  then have "k \<le> int (assistants_after history i)"
    using s(2) by (simp add: assistants_after_def)
  with assms(3) show False by simp
qed

text \<open>
  The recent context is protected: a message with fewer than \<open>protect_recent\<close>
  assistant messages after it comes out unchanged, as does everything up to the first user
  message.
\<close>

theorem Prune_protects:
  assumes "Prune fp opts history = Some r" and "i < length history" and "po_context_window opts \<le> 0"
    and "1 \<le> po_protect_recent opts"
    and "int (assistants_after history i) < po_protect_recent opts \<or> int i \<le> first_user 0 history"
  shows "r ! i = history ! i"
proof -
  have eff: "effective_options fp history opts = opts"
    using assms(3) by (simp add: effective_options_def)
  have "history \<noteq> []" using assms(2) by auto
  then obtain p h where r: "recency_threshold (assistant_indices history) (po_protect_recent opts) = Some p"
      "r = map (\<lambda>(i, msg). prune_message opts (first_user 0 history) p h (int i) msg) (enumerate 0 history)"
    using Prune_Some [OF assms(1)] unfolding eff by blast
  with assms(2) have ph: "recency_threshold (assistant_indices history) (po_protect_recent opts) = Some p"
      "r ! i = prune_message opts (first_user 0 history) p h (int i) (history ! i)"
    by (simp_all add: nth_enumerate_eq)
  from assms(5) have "p < 0 \<or> p \<le> int i \<or> int i \<le> first_user 0 history"
    using threshold_recent [OF ph(1) assms(4)] by blast
  then show ?thesis unfolding ph(2) by (auto simp: prune_message_def)
qed

theorem Prune_protects_witness:
  "\<exists>r. Prune demo_fp demo_options demo_history = Some r \<and> r ! 4 = demo_history ! 4 \<and> r ! 2 \<noteq> demo_history ! 2"
proof -
  obtain r where r: "Prune demo_fp demo_options demo_history = Some r"
    "ms_content (r ! 2) = [MakeToolResult ''t1'' (''[Tool result omitted '' @ em_dash @ '' older context]'')]"
    using demo_prune by blast
  have "r ! 4 = demo_history ! 4"
    by (rule Prune_protects [OF r(1)])
      (simp_all add: demo_history_def demo_options_def assistants_after_def assistant_indices_def upt_rec nth_Cons')
  moreover have "r ! 2 \<noteq> demo_history ! 2"
    using r(2) by (auto simp: demo_history_def MakeToolResult_def ContentBlock_empty_def)
  ultimately show ?thesis using r(1) by blast
qed

section \<open>Compression to a target\<close>

definition compress_options :: "'d FpOps \<Rightarrow> CompressionStrategy \<Rightarrow> int \<Rightarrow> 'd \<Rightarrow> 'd PruneOptions" where
  "compress_options fp strategy target_tokens reduction_ratio =
     (let scaled = (\<lambda>n. fp_trunc fp (fp_mul fp (fp_of_int fp n) reduction_ratio))
      in \<lparr>po_protect_recent = (if cs_preserve_recent strategy then max 3 (scaled 5) else 1),
          po_soft_prune_lines = (if cs_preserve_tool_calls strategy then 5 else 2),
          po_hard_prune_after = max 5 (scaled 10),
          po_max_tool_result_chars = (if cs_preserve_tool_calls strategy then max 500 (scaled 2000) else 200),
          po_context_window = target_tokens * 4,
          po_max_tokens = 0,
          po_prune_target_ratio = fp_of_int fp 1\<rparr>)"

text \<open>The system messages first, if they are to be preserved, then the recent ones.\<close>

definition keep_messages :: "CompressionStrategy \<Rightarrow> int \<Rightarrow> Message list \<Rightarrow> Message list" where
  "keep_messages strategy keep result =
     (let system = (if cs_preserve_system strategy
                    then List.filter (\<lambda>m. ms_role m = ''system'') result else []);
          start_idx = max 0 (int (length result) - keep);
          recent = List.filter (\<lambda>m. \<not> cs_preserve_system strategy \<or> ms_role m \<noteq> ''system'')
                     (drop (nat start_idx) result)
      in system @ recent)"

definition Compress :: "'d FpOps \<Rightarrow> CompressionStrategy \<Rightarrow> int \<Rightarrow> Message list \<Rightarrow> Message list option" where
  "Compress fp strategy target_tokens messages =
     (if messages = [] then Some messages
      else
        (let current_tokens = EstimateTokens messages
         in if current_tokens \<le> target_tokens then Some messages
            else
              (let reduction_ratio = fp_div fp (fp_of_int fp target_tokens) (fp_of_int fp current_tokens)
               in case Prune fp (compress_options fp strategy target_tokens reduction_ratio) messages of
                    None \<Rightarrow> None
                  | Some result \<Rightarrow>
                      if EstimateTokens result > target_tokens \<and> int (length result) > cs_min_messages strategy
                      then Some (keep_messages strategy
                             (max (cs_min_messages strategy)
                               (fp_trunc fp (fp_mul fp (fp_of_int fp (int (length result))) reduction_ratio)))
                             result)
                      else Some result)))"

definition CompressWithStats :: "'d FpOps \<Rightarrow> CompressionStrategy \<Rightarrow> int \<Rightarrow> Message list
    \<Rightarrow> (Message list \<times> CompressionStats) option" where
  "CompressWithStats fp strategy target_tokens messages =
     (let tokens_before = EstimateTokens messages; count_before = int (length messages)
      in case Compress fp strategy target_tokens messages of
           None \<Rightarrow> None
         | Some result \<Rightarrow>
             Some (result, \<lparr>st_messages_removed = count_before - int (length result),
                            st_tokens_saved = tokens_before - EstimateTokens result\<rparr>))"

lemma system_roles:
  "map ms_role xs = map ms_role ys \<Longrightarrow>
   length (List.filter (\<lambda>m. ms_role m = ''system'') xs) = length (List.filter (\<lambda>m. ms_role m = ''system'') ys)"
proof (induction xs arbitrary: ys)
  case (Cons x xs)
  then show ?case by (cases ys) auto
qed simp

lemma keep_messages_all:
  "int (length result) \<le> keep \<Longrightarrow> keep_messages strategy keep result = keep_messages strategy (int (length result)) result"
  by (simp add: keep_messages_def Let_def max_def)

lemma keep_messages_length:
  assumes "0 \<le> keep" and "keep \<le> int (length result)"
  shows "keep \<le> int (length (keep_messages strategy keep result))"
proof -
  let ?late = "drop (nat (int (length result) - keep)) result"
  have late: "int (length ?late) = keep" using assms by simp
  show ?thesis
  proof (cases "cs_preserve_system strategy")
    case False
    then have "keep_messages strategy keep result = ?late"
      using assms by (simp add: keep_messages_def Let_def max_def)
    with late show ?thesis by simp
  next
    case True
    have "length ?late = length (List.filter (\<lambda>m. ms_role m = ''system'') ?late)
        + length (List.filter (\<lambda>m. ms_role m \<noteq> ''system'') ?late)"
      by (simp add: sum_length_filter_compl)
    moreover have "length (List.filter (\<lambda>m. ms_role m = ''system'') ?late)
        \<le> length (List.filter (\<lambda>m. ms_role m = ''system'') result)"
      by (metis (no_types, lifting) append_take_drop_id filter_append le_add2 length_append)
    ultimately show ?thesis
      using True late assms by (simp add: keep_messages_def Let_def max_def)
  qed
qed

text \<open>
  Compression always returns, for every rounding of its ratios; a history within the
  target comes back unchanged; with \<open>preserve_system\<close> no system message is lost, and never
  fewer than the smaller of \<open>min_messages\<close> and the original number of messages remain. The
  reported number of removed messages is exact.
\<close>

theorem Compress_keeps:
  assumes "0 \<le> cs_min_messages strategy"
  shows "\<exists>r. Compress fp strategy target messages = Some r
      \<and> (EstimateTokens messages \<le> target \<longrightarrow> r = messages)
      \<and> (cs_preserve_system strategy \<longrightarrow>
           length (List.filter (\<lambda>m. ms_role m = ''system'') r)
           = length (List.filter (\<lambda>m. ms_role m = ''system'') messages))
      \<and> min (cs_min_messages strategy) (int (length messages)) \<le> int (length r)
      \<and> CompressWithStats fp strategy target messages =
          Some (r, \<lparr>st_messages_removed = int (length messages) - int (length r),
                    st_tokens_saved = EstimateTokens messages - EstimateTokens r\<rparr>)"
proof (cases "messages = [] \<or> EstimateTokens messages \<le> target")
  case True
  then show ?thesis by (auto simp: Compress_def CompressWithStats_def Let_def)
next
  case big: False
  let ?ratio = "fp_div fp (fp_of_int fp target) (fp_of_int fp (EstimateTokens messages))"
  let ?o = "compress_options fp strategy target ?ratio"
  have "1 \<le> po_protect_recent ?o" "1 \<le> po_hard_prune_after ?o"
    by (simp_all add: compress_options_def Let_def le_max_iff_disj)
  then have "Prune fp ?o messages \<noteq> None" by (rule Prune_total)
  then obtain res where p: "Prune fp ?o messages = Some res" by blast
  have len: "length res = length messages" by (rule Prune_nth(1) [OF p])
  have "map ms_role res = map ms_role messages"
  proof (rule nth_equalityI)
    show "map ms_role res ! i = map ms_role messages ! i" if "i < length (map ms_role res)" for i
      using Prune_nth(2) [OF p, of i] that len by (auto simp: prune_message_shape)
  qed (use len in simp)
  then have sys: "length (List.filter (\<lambda>m. ms_role m = ''system'') res)
      = length (List.filter (\<lambda>m. ms_role m = ''system'') messages)" by (rule system_roles)
  let ?k = "max (cs_min_messages strategy) (fp_trunc fp (fp_mul fp (fp_of_int fp (int (length res))) ?ratio))"
  have km: "cs_preserve_system strategy \<longrightarrow>
      List.filter (\<lambda>m. ms_role m = ''system'') (keep_messages strategy ?k res)
      = List.filter (\<lambda>m. ms_role m = ''system'') res"
    by (auto simp: keep_messages_def Let_def filter_id_conv)
  have kl: "min (cs_min_messages strategy) (int (length res)) \<le> int (length (keep_messages strategy ?k res))"
  proof (cases "?k \<le> int (length res)")
    case True
    have "0 \<le> ?k" using assms by simp
    from keep_messages_length [OF this True, of strategy] show ?thesis by linarith
  next
    case False
    then have "keep_messages strategy ?k res = keep_messages strategy (int (length res)) res"
      by (intro keep_messages_all) linarith
    with keep_messages_length [of "int (length res)" res strategy] show ?thesis by simp
  qed
  show ?thesis
  proof (cases "EstimateTokens res > target \<and> int (length res) > cs_min_messages strategy")
    case True
    then have "Compress fp strategy target messages = Some (keep_messages strategy ?k res)"
      using big p by (simp add: Compress_def Let_def)
    then show ?thesis using big km kl sys len by (simp add: CompressWithStats_def Let_def)
  next
    case c: False
    then have "Compress fp strategy target messages = Some res"
      using big p by (auto simp: Compress_def Let_def)
    then show ?thesis using big sys len by (simp add: CompressWithStats_def Let_def)
  qed
qed

definition demo_strategy :: CompressionStrategy where
  "demo_strategy = \<lparr>cs_preserve_recent = True, cs_preserve_tool_calls = True, cs_preserve_system = True,
     cs_min_messages = 5\<rparr>"

theorem Compress_keeps_witness:
  "\<exists>r. Compress demo_fp demo_strategy 3 demo_history = Some r \<and> 5 \<le> length r"
proof -
  have m: "0 \<le> cs_min_messages demo_strategy" by (simp add: demo_strategy_def)
  from Compress_keeps [OF m, of demo_fp 3 demo_history] show ?thesis
    by (auto simp: demo_strategy_def demo_history_def)
qed

section \<open>Truncating one tool result\<close>

definition kHardMaxToolResultChars :: int where "kHardMaxToolResultChars = 400000"

text \<open>\<open>\b w \b\<close> for a word \<open>w\<close>.\<close>

definition match_word :: "string \<Rightarrow> char option \<Rightarrow> string \<Rightarrow> bool" where
  "match_word w prev s \<longleftrightarrow> word_boundary prev s \<and>
     (case literal w s of None \<Rightarrow> False | Some r \<Rightarrow> word_boundary (Some (last w)) r)"

definition match_traceback :: "char option \<Rightarrow> string \<Rightarrow> bool" where
  "match_traceback prev s \<longleftrightarrow>
     (case literal ''traceback'' s of None \<Rightarrow> False
      | Some r \<Rightarrow> literal ''(most recent call last)'' (dropWhile is_space r) \<noteq> None)"

definition match_stack_trace :: "char option \<Rightarrow> string \<Rightarrow> bool" where
  "match_stack_trace prev s \<longleftrightarrow> word_boundary prev s \<and>
     (case literal ''stack'' s of None \<Rightarrow> False | Some a \<Rightarrow>
     (case spaces1 a of None \<Rightarrow> False | Some b \<Rightarrow>
     (case literal ''trace'' b of None \<Rightarrow> False | Some c \<Rightarrow> word_boundary (Some (CHR ''e'')) c)))"

definition match_error_colon :: "char option \<Rightarrow> string \<Rightarrow> bool" where
  "match_error_colon prev s \<longleftrightarrow> literal ''error:'' s \<noteq> None"

text \<open>A closing brace or bracket with only white space after it.\<close>

definition match_json_end :: "char option \<Rightarrow> string \<Rightarrow> bool" where
  "match_json_end prev s \<longleftrightarrow>
     (case s of [] \<Rightarrow> False | c # cs \<Rightarrow> (c = CHR ''}'' \<or> c = CHR '']'') \<and> list_all is_space cs)"

definition has_important_tail :: "string \<Rightarrow> bool" where
  "has_important_tail content =
     (if content = [] then False
      else
        (let tail = drop (length content - 2000) content
         in if list_ex (\<lambda>m. search_at m None tail)
                 [match_word ''error'', match_word ''exception'', match_traceback, match_stack_trace,
                  match_error_colon, match_word ''failed'', match_word ''fatal'', match_word ''panic'']
            then True else search_at match_json_end None tail))"

definition TruncateToolResult :: "string \<Rightarrow> int \<Rightarrow> string" where
  "TruncateToolResult result max_chars =
     (if int (length result) > kHardMaxToolResultChars then
        (let keep_each = nat (cdiv kHardMaxToolResultChars 4)
         in take keep_each result @ [newline, newline] @ truncation_note (length result)
            @ [newline, newline] @ drop (length result - keep_each) result)
      else if int (length result) \<le> max_chars then result
      else
        (let estimated_lines = cdiv max_chars 80;
             keep_lines = max 3 (cdiv estimated_lines 2)
         in if has_important_tail result then
              (if int (length (lines_of result)) \<le> keep_lines * 2 then result
               else head_and_tail result keep_lines)
            else soft_prune result keep_lines))"

lemma getlines_length:
  "sum_list (map (\<lambda>l. Suc (length l)) (getlines acc s)) \<le> Suc (length acc + length s)"
proof (induction acc s rule: getlines.induct)
  case (2 acc c cs)
  then show ?case by (cases "c = newline") auto
qed simp

lemma lines_length: "sum_list (map (\<lambda>l. Suc (length l)) (lines_of s)) \<le> Suc (length s)"
  using getlines_length [of "[]" s] by (simp add: lines_of_def)

lemma unlines_length: "length (concat (map (\<lambda>l. l @ [c]) ls)) = sum_list (map (\<lambda>l. Suc (length l)) ls)"
  by (induction ls) auto

lemma join_length: "length (str_join [c] ls) \<le> sum_list (map (\<lambda>l. Suc (length l)) ls)"
  by (induction "[c]" ls rule: str_join.induct) auto

lemma nat_digits_bound: "n < 10 ^ k \<Longrightarrow> 0 < k \<Longrightarrow> length (nat_digits n) \<le> k"
proof (induction k arbitrary: n)
  case (Suc k)
  show ?case
  proof (cases "n < 10")
    case True
    then show ?thesis by (subst nat_digits.simps) simp
  next
    case False
    then have "0 < k" using Suc.prems(1) by (cases k) auto
    moreover have "n div 10 < 10 ^ k" using Suc.prems(1) by (simp add: less_mult_imp_div_less)
    ultimately have "length (nat_digits (n div 10)) \<le> k" by (rule Suc.IH [rotated])
    with False show ?thesis by (subst nat_digits.simps) simp
  qed
qed simp

lemma note_length: "n < 10 ^ 19 \<Longrightarrow> length (truncation_note n) \<le> 124"
  using nat_digits_bound [of n 19] by (simp add: truncation_note_def warn_sign_def em_dash_def to_string_def)

lemma head_and_tail_length:
  assumes "0 \<le> k" and "k * 2 < int (length (lines_of s))" and "length s < 10 ^ 19"
  shows "length (head_and_tail s k) \<le> length s + 300"
proof -
  let ?ls = "lines_of s" and ?w = "\<lambda>ls. sum_list (map (\<lambda>l. Suc (length l)) ls)"
  let ?t = "nat (int (length ?ls) - k)"
  have le: "nat k \<le> ?t" using assms(1,2) by simp
  have "?w ?ls = ?w (take ?t ?ls) + ?w (drop ?t ?ls)"
    by (metis append_take_drop_id map_append sum_list_append)
  moreover have "?w (take ?t ?ls) = ?w (take (nat k) (take ?t ?ls)) + ?w (drop (nat k) (take ?t ?ls))"
    by (metis append_take_drop_id map_append sum_list_append)
  moreover have "take (nat k) (take ?t ?ls) = take (nat k) ?ls" using le by (simp add: min_def)
  ultimately have split: "?w (take (nat k) ?ls) + ?w (drop ?t ?ls) \<le> Suc (length s)"
    using lines_length [of s] by simp
  have n: "length ?ls \<le> Suc (length s)"
  proof -
    have "length ls \<le> ?w ls" for ls :: "string list" by (induction ls) auto
    then show ?thesis using lines_length [of s] le_trans by blast
  qed
  have "nat (int (length ?ls) - k * 2) < 10 ^ 20"
    using n assms by simp
  then have "length (to_string (int (length ?ls) - k * 2)) \<le> 20"
    using nat_digits_bound [of "nat (int (length ?ls) - k * 2)" 20] assms(2) by (simp add: to_string_def)
  moreover have "length (head_and_tail s k) = ?w (take (nat k) ?ls) + length (truncation_note (length s))
      + length (to_string (int (length ?ls) - k * 2)) + length (str_join [newline] (drop ?t ?ls)) + 28"
    by (simp add: head_and_tail_def Let_def unlines_length)
  ultimately show ?thesis
    using split join_length [of newline "drop ?t ?ls"] note_length [OF assms(3)] by linarith
qed

text \<open>
  Whatever is asked for, a truncated tool result never has more than 400300 bytes
  (the absolute limit and the notice). The requested maximum is no bound: a result of at most
  six lines comes back unchanged however long its lines are.
\<close>

theorem TruncateToolResult_bound:
  assumes "length result < 10 ^ 19"
  shows "(length (TruncateToolResult result max_chars) \<le> 400300) \<and>
    (length result \<le> 400000 \<longrightarrow> length (lines_of result) \<le> 6 \<longrightarrow> TruncateToolResult result max_chars = result)"
proof (intro conjI impI)
  let ?k = "max 3 (cdiv (cdiv max_chars 80) 2)"
  show "length (TruncateToolResult result max_chars) \<le> 400300"
  proof (cases "int (length result) > kHardMaxToolResultChars")
    case True
    then have "length (TruncateToolResult result max_chars) \<le> 100000 + 4 + length (truncation_note (length result)) + 100000"
      by (simp add: TruncateToolResult_def Let_def kHardMaxToolResultChars_def cdiv_def)
    with note_length [OF assms] show ?thesis by linarith
  next
    case False
    then have s: "length result \<le> 400000" by (simp add: kHardMaxToolResultChars_def)
    have "length (head_and_tail result ?k) \<le> length result + 300" if "\<not> int (length (lines_of result)) \<le> ?k * 2"
      using that assms by (intro head_and_tail_length) (auto simp: le_max_iff_disj)
    with s have "length (head_and_tail result ?k) \<le> 400300" if "\<not> int (length (lines_of result)) \<le> ?k * 2"
      using that by fastforce
    with False s show ?thesis
      by (simp add: TruncateToolResult_def Let_def soft_prune_def)
  qed
  show "TruncateToolResult result max_chars = result"
    if "length result \<le> 400000" "length (lines_of result) \<le> 6"
  proof -
    have "int (length (lines_of result)) \<le> ?k * 2" using that(2) by linarith
    with that(1) show ?thesis
      by (simp add: TruncateToolResult_def Let_def soft_prune_def kHardMaxToolResultChars_def)
  qed
qed

theorem TruncateToolResult_bound_witness:
  "TruncateToolResult (replicate 12345 (CHR ''x'')) 10000 = replicate 12345 (CHR ''x'')"
proof -
  have one: "getlines acc (replicate n (CHR ''x'')) = (if acc = [] \<and> n = 0 then [] else [acc @ replicate n (CHR ''x'')])" for acc n
    by (induction n arbitrary: acc) (auto simp: newline_def)
  have "length (lines_of (replicate 12345 (CHR ''x''))) \<le> 6"
    unfolding lines_of_def one by simp
  then show ?thesis
    using TruncateToolResult_bound [of "replicate 12345 (CHR ''x'')" 10000] by simp
qed

end
