(* ===== verification/Compaction.thy ===== *)
theory Compaction
  imports RavPrelude
begin

text \<open>
  Three small services of a session: compaction of its history
  (\<open>src/core/session_compaction.cpp\<close>), token accounting (\<open>src/core/usage_accumulator.cpp\<close>)
  and the slash commands (\<open>src/core/message_commands.cpp\<close>). A history message is a JSON
  object: its role, its content when that is a text, and the metadata the code writes. The
  summariser and the command handlers are arguments.
\<close>

section \<open>Compaction\<close>

datatype NoteKind = Plain | Compacted int | Truncated int

record HistoryMessage =
  hm_role :: string
  hm_content :: "string option"
  hm_note :: NoteKind

record CompactionOptions =
  co_max_messages :: int
  co_keep_recent :: int
  co_max_tokens :: int

definition EstimateHistoryTokens :: "HistoryMessage list \<Rightarrow> int" where
  "EstimateHistoryTokens messages =
     cdiv (foldl (\<lambda>total msg. case hm_content msg of None \<Rightarrow> total | Some c \<Rightarrow> total + int (length c)) 0 messages) 4"

definition NeedsCompaction :: "HistoryMessage list \<Rightarrow> CompactionOptions \<Rightarrow> bool" where
  "NeedsCompaction messages opts =
     (if int (length messages) > co_max_messages opts then True
      else if EstimateHistoryTokens messages > co_max_tokens opts then True
      else False)"

definition TruncateHistory :: "HistoryMessage list \<Rightarrow> CompactionOptions \<Rightarrow> HistoryMessage list" where
  "TruncateHistory messages opts =
     (let total = int (length messages); keep = min (co_keep_recent opts) total
      in if total \<le> keep then messages
         else \<lparr>hm_role = ''system'',
                hm_content = Some (''[Earlier messages truncated. '' @ to_string (total - keep) @ '' messages removed.]''),
                hm_note = Truncated (total - keep)\<rparr>
              # drop (nat (total - keep)) messages)"

text \<open>The summariser may be missing, and it may throw (\<open>None\<close>).\<close>

definition Compact :: "(HistoryMessage list \<Rightarrow> string option) option \<Rightarrow> CompactionOptions
    \<Rightarrow> HistoryMessage list \<Rightarrow> HistoryMessage list" where
  "Compact summary_fn opts messages =
     (if \<not> NeedsCompaction messages opts then messages
      else
        (let total = int (length messages); keep = min (co_keep_recent opts) total; to_summarize = total - keep
         in if to_summarize \<le> 0 then messages
            else
              (let old_msgs = take (nat to_summarize) messages; recent = drop (nat to_summarize) messages
               in case (case summary_fn of None \<Rightarrow> Some [] | Some f \<Rightarrow> f old_msgs) of
                    None \<Rightarrow> TruncateHistory messages opts
                  | Some summary \<Rightarrow>
                      if summary = [] then TruncateHistory messages opts
                      else \<lparr>hm_role = ''system'',
                             hm_content = Some (''[Compacted conversation summary]'' @ [CHR 0x0A] @ summary),
                             hm_note = Compacted to_summarize\<rparr> # recent)))"

text \<open>
  Compaction has only three outcomes, whatever the summariser does (missing, throwing,
  answering nothing): the history itself, or one system note in front of exactly the last
  \<open>keep_recent\<close> messages, and the note counts the messages it replaces. A history that is too
  long always gets the note, one that is within both limits never; but a history of few large
  messages is returned over the token limit.
\<close>

theorem Compact_outcome:
  assumes "0 \<le> co_keep_recent opts"
  shows "(Compact f opts ms = ms \<or>
      (\<exists>note. Compact f opts ms = note # drop (length ms - nat (co_keep_recent opts)) ms
        \<and> hm_role note = ''system''
        \<and> hm_note note \<in> {Compacted (int (length ms) - co_keep_recent opts),
                         Truncated (int (length ms) - co_keep_recent opts)})) \<and>
    (co_keep_recent opts < int (length ms) \<longrightarrow> NeedsCompaction ms opts \<longrightarrow>
      int (length (Compact f opts ms)) = co_keep_recent opts + 1) \<and>
    (\<not> NeedsCompaction ms opts \<longrightarrow> Compact f opts ms = ms) \<and>
    (int (length ms) \<le> co_keep_recent opts \<longrightarrow> Compact f opts ms = ms)"
proof (intro conjI impI)
  let ?k = "co_keep_recent opts" and ?n = "int (length ms)"
  have d: "drop (nat (?n - ?k)) ms = drop (length ms - nat ?k) ms" using assms by (simp add: nat_diff_distrib')
  show three: "\<not> NeedsCompaction ms opts \<Longrightarrow> Compact f opts ms = ms" by (simp add: Compact_def)
  show four: "?n \<le> ?k \<Longrightarrow> Compact f opts ms = ms" by (simp add: Compact_def Let_def)
  have noted: "\<exists>note. Compact f opts ms = note # drop (length ms - nat ?k) ms \<and> hm_role note = ''system''
        \<and> hm_note note \<in> {Compacted (?n - ?k), Truncated (?n - ?k)}"
    if "?k < ?n" "NeedsCompaction ms opts"
    using that d by (auto simp: Compact_def TruncateHistory_def Let_def min_def split: option.splits)
  show "Compact f opts ms = ms \<or>
      (\<exists>note. Compact f opts ms = note # drop (length ms - nat ?k) ms \<and> hm_role note = ''system''
        \<and> hm_note note \<in> {Compacted (?n - ?k), Truncated (?n - ?k)})"
    using noted three four by (metis not_le)
  show "int (length (Compact f opts ms)) = ?k + 1" if "?k < ?n" "NeedsCompaction ms opts"
    using noted [OF that] assms that(1) by auto
qed

definition demo_compaction :: CompactionOptions where
  "demo_compaction = \<lparr>co_max_messages = 2, co_keep_recent = 1, co_max_tokens = 100\<rparr>"

definition demo_messages :: "HistoryMessage list" where
  "demo_messages = map (\<lambda>c. \<lparr>hm_role = ''user'', hm_content = Some c, hm_note = Plain\<rparr>) [''a'', ''b'', ''c'']"

theorem Compact_outcome_witness: "int (length (Compact None demo_compaction demo_messages)) = 2"
proof -
  have k: "0 \<le> co_keep_recent demo_compaction" by (simp add: demo_compaction_def)
  have "co_keep_recent demo_compaction < int (length demo_messages)" "NeedsCompaction demo_messages demo_compaction"
    by (simp_all add: demo_compaction_def demo_messages_def NeedsCompaction_def)
  with Compact_outcome [OF k, of None demo_messages] show ?thesis by (simp add: demo_compaction_def)
qed

section \<open>Token accounting\<close>

record TokenUsage =
  tu_prompt_tokens :: int
  tu_completion_tokens :: int
  tu_total_tokens :: int
  tu_cache_read_input_tokens :: int
  tu_cache_creation_input_tokens :: int

record UsageStats =
  us_input_tokens :: int
  us_output_tokens :: int
  us_cache_read_tokens :: int
  us_cache_write_tokens :: int
  us_total_tokens :: int
  us_turns :: int
  us_last_input_tokens :: int
  us_last_output_tokens :: int
  us_last_cache_read_tokens :: int
  us_last_cache_write_tokens :: int

definition UsageStats_zero :: UsageStats where
  "UsageStats_zero = \<lparr>us_input_tokens = 0, us_output_tokens = 0, us_cache_read_tokens = 0,
     us_cache_write_tokens = 0, us_total_tokens = 0, us_turns = 0, us_last_input_tokens = 0,
     us_last_output_tokens = 0, us_last_cache_read_tokens = 0, us_last_cache_write_tokens = 0\<rparr>"

record UsageAccumulator =
  ua_sessions :: "(string, UsageStats) umap"
  ua_global :: UsageStats

definition UsageAccumulator_init :: UsageAccumulator where
  "UsageAccumulator_init = \<lparr>ua_sessions = [], ua_global = UsageStats_zero\<rparr>"

text \<open>The statements \<open>Record\<close> applies to the session's and to the global statistics.\<close>

definition add_usage :: "TokenUsage \<Rightarrow> UsageStats \<Rightarrow> UsageStats" where
  "add_usage usage s = \<lparr>us_input_tokens = us_input_tokens s + tu_prompt_tokens usage,
     us_output_tokens = us_output_tokens s + tu_completion_tokens usage,
     us_cache_read_tokens = us_cache_read_tokens s + tu_cache_read_input_tokens usage,
     us_cache_write_tokens = us_cache_write_tokens s + tu_cache_creation_input_tokens usage,
     us_total_tokens = us_total_tokens s +
       (if tu_total_tokens usage > 0 then tu_total_tokens usage
        else tu_prompt_tokens usage + tu_completion_tokens usage),
     us_turns = us_turns s + 1,
     us_last_input_tokens = tu_prompt_tokens usage,
     us_last_output_tokens = tu_completion_tokens usage,
     us_last_cache_read_tokens = tu_cache_read_input_tokens usage,
     us_last_cache_write_tokens = tu_cache_creation_input_tokens usage\<rparr>"

definition RecordUsage :: "string \<Rightarrow> TokenUsage \<Rightarrow> UsageAccumulator \<Rightarrow> UsageAccumulator" where
  "RecordUsage session_key usage a =
     a\<lparr>ua_sessions := AList.update session_key
          (add_usage usage (um_at (ua_sessions a) session_key UsageStats_zero)) (ua_sessions a),
       ua_global := add_usage usage (ua_global a)\<rparr>"

definition RecordTokens :: "string \<Rightarrow> int \<Rightarrow> int \<Rightarrow> UsageAccumulator \<Rightarrow> UsageAccumulator" where
  "RecordTokens session_key input_tokens output_tokens a =
     RecordUsage session_key
       \<lparr>tu_prompt_tokens = input_tokens, tu_completion_tokens = output_tokens,
        tu_total_tokens = input_tokens + output_tokens, tu_cache_read_input_tokens = 0,
        tu_cache_creation_input_tokens = 0\<rparr> a"

definition GetSessionUsage :: "UsageAccumulator \<Rightarrow> string \<Rightarrow> UsageStats" where
  "GetSessionUsage a session_key = um_at (ua_sessions a) session_key UsageStats_zero"

definition GetGlobalUsage :: "UsageAccumulator \<Rightarrow> UsageStats" where
  "GetGlobalUsage a = ua_global a"

definition ResetSessionUsage :: "string \<Rightarrow> UsageAccumulator \<Rightarrow> UsageAccumulator" where
  "ResetSessionUsage session_key a = a\<lparr>ua_sessions := AList.delete session_key (ua_sessions a)\<rparr>"

definition ResetAllUsage :: "UsageAccumulator \<Rightarrow> UsageAccumulator" where
  "ResetAllUsage a = a\<lparr>ua_sessions := [], ua_global := UsageStats_zero\<rparr>"

datatype usage_op = URecord string TokenUsage | UTokens string int int | UReset string

fun usage_step :: "UsageAccumulator \<Rightarrow> usage_op \<Rightarrow> UsageAccumulator" where
  "usage_step a (URecord k u) = RecordUsage k u a"
| "usage_step a (UTokens k i n) = RecordTokens k i n a"
| "usage_step a (UReset k) = ResetSessionUsage k a"

text \<open>The counters a recorded call adds to.\<close>

definition usage_counters :: "UsageStats \<Rightarrow> int list" where
  "usage_counters s = [us_input_tokens s, us_output_tokens s, us_cache_read_tokens s,
     us_cache_write_tokens s, us_total_tokens s, us_turns s]"

definition counter_sum :: "nat \<Rightarrow> UsageAccumulator \<Rightarrow> int" where
  "counter_sum i a = sum_list (map (\<lambda>(k, s). usage_counters s ! i) (ua_sessions a))"

definition usage_inv :: "UsageAccumulator \<Rightarrow> bool" where
  "usage_inv a \<longleftrightarrow> um_ok (ua_sessions a)
     \<and> (\<forall>i < 6. usage_counters (ua_global a) ! i = counter_sum i a)"

lemma counter_add:
  "i < 6 \<Longrightarrow> \<exists>d. \<forall>s. usage_counters (add_usage u s) ! i = usage_counters s ! i + d"
proof -
  assume "i < 6"
  then consider "i = 0" | "i = 1" | "i = 2" | "i = 3" | "i = 4" | "i = 5" by linarith
  then show ?thesis by cases (simp_all add: usage_counters_def add_usage_def eval_nat_numeral)
qed

lemma counter_zero: "i < 6 \<Longrightarrow> usage_counters UsageStats_zero ! i = 0"
proof -
  assume "i < 6"
  then consider "i = 0" | "i = 1" | "i = 2" | "i = 3" | "i = 4" | "i = 5" by linarith
  then show ?thesis by cases (simp_all add: usage_counters_def UsageStats_zero_def eval_nat_numeral)
qed

lemma sum_update_map:
  "um_ok m \<Longrightarrow> sum_list (map (\<lambda>(k, s). f s) (AList.update k v m))
     = sum_list (map (\<lambda>(k, s). f s) m) - (case map_of m k of None \<Rightarrow> 0 | Some s \<Rightarrow> f s) + (f v :: int)"
  by (induction m) (auto simp: um_ok_def map_of_eq_None_iff split: option.splits)

lemma RecordUsage_inv:
  assumes "usage_inv a"
  shows "usage_inv (RecordUsage k u a)"
proof -
  have ok: "um_ok (ua_sessions a)" using assms by (simp add: usage_inv_def)
  have "usage_counters (ua_global (RecordUsage k u a)) ! i = counter_sum i (RecordUsage k u a)" if i: "i < 6" for i
  proof -
    obtain d where d: "\<And>s. usage_counters (add_usage u s) ! i = usage_counters s ! i + d"
      using counter_add [OF i] by blast
    have "usage_counters (um_at (ua_sessions a) k UsageStats_zero) ! i
        = (case map_of (ua_sessions a) k of None \<Rightarrow> 0 | Some s \<Rightarrow> usage_counters s ! i)"
      by (simp add: um_at_def counter_zero i split: option.splits)
    moreover have "usage_counters (ua_global a) ! i = counter_sum i a"
      using assms i by (simp add: usage_inv_def)
    ultimately show ?thesis
      by (simp add: RecordUsage_def counter_sum_def sum_update_map [OF ok] d)
  qed
  with ok show ?thesis by (simp add: usage_inv_def) (simp add: RecordUsage_def)
qed

definition no_reset :: "UsageAccumulator \<Rightarrow> usage_op \<Rightarrow> bool" where
  "no_reset a e \<longleftrightarrow> (case e of UReset k \<Rightarrow> False | _ \<Rightarrow> True)"

interpretation usage: guarded_machine "\<lambda>a. a = UsageAccumulator_init" no_reset usage_step usage_inv
proof
  show "usage_inv a" if "a = UsageAccumulator_init" for a
    using that by (simp add: usage_inv_def UsageAccumulator_init_def counter_sum_def counter_zero)
  show "usage_inv (usage_step a e)" if "usage_inv a" "no_reset a e" for a e
    using that by (cases e) (simp_all add: RecordUsage_inv RecordTokens_def no_reset_def)
qed

text \<open>
  The books balance: as long as no session is reset, every global counter (input,
  output, cache reads and writes, totals, turns) is the sum of the sessions' counters; a reset
  of one session leaves the global counters and every other session as they are.
\<close>

theorem usage_books_balance:
  assumes "usage.enabled_run UsageAccumulator_init es" and "i < 6"
  shows "(usage_counters (GetGlobalUsage (foldl usage_step UsageAccumulator_init es)) ! i
      = counter_sum i (foldl usage_step UsageAccumulator_init es)) \<and>
    (GetGlobalUsage (ResetSessionUsage k a) = GetGlobalUsage a) \<and>
    (GetSessionUsage (ResetSessionUsage k a) k' = (if k' = k then UsageStats_zero else GetSessionUsage a k'))"
  using usage.inv_from_start [OF refl assms(1)] assms(2)
  by (simp_all add: usage_inv_def GetGlobalUsage_def GetSessionUsage_def ResetSessionUsage_def um_at_def store_simps)

theorem usage_books_balance_witness:
  "us_turns (GetGlobalUsage (foldl usage_step UsageAccumulator_init [UTokens ''a'' 3 4, UTokens ''b'' 1 1, UTokens ''a'' 2 2])) = 3
   \<and> counter_sum 0 (foldl usage_step UsageAccumulator_init [UTokens ''a'' 3 4, UTokens ''b'' 1 1, UTokens ''a'' 2 2]) = 6"
proof
  let ?es = "[UTokens ''a'' 3 4, UTokens ''b'' 1 1, UTokens ''a'' 2 2]"
  show "us_turns (GetGlobalUsage (foldl usage_step UsageAccumulator_init ?es)) = 3"
    by (simp add: GetGlobalUsage_def RecordTokens_def RecordUsage_def add_usage_def UsageAccumulator_init_def UsageStats_zero_def)
  have r: "usage.enabled_run UsageAccumulator_init ?es" by (simp add: no_reset_def)
  have "usage_counters (GetGlobalUsage (foldl usage_step UsageAccumulator_init ?es)) ! 0 = 6"
    by (simp add: GetGlobalUsage_def RecordTokens_def RecordUsage_def add_usage_def UsageAccumulator_init_def
        UsageStats_zero_def usage_counters_def)
  with usage_books_balance [OF r, of 0]
  show "counter_sum 0 (foldl usage_step UsageAccumulator_init ?es) = 6" by simp
qed

section \<open>Slash commands\<close>

text \<open>What a parsed message does: nothing, or a reply with the handler that is called.\<close>

datatype SlashCall = NoCall | ResetCall | CompactCall | StatusCall

record CommandResult =
  cr_handled :: bool
  cr_reply :: string
  cr_call :: SlashCall

record SlashHandlers =
  sh_reset :: bool
  sh_compact :: bool
  sh_status :: "(string \<Rightarrow> string) option"

definition is_blank :: "char \<Rightarrow> bool" where
  "is_blank c \<longleftrightarrow> c = CHR '' '' \<or> c = CHR 0x09 \<or> c = CHR 0x0D \<or> c = CHR 0x0A"

definition ListCommands :: "(string \<times> string) list" where
  "ListCommands =
     [(''/new'', ''Start a new session (reset history)''),
      (''/reset'', ''Reset the current session''),
      (''/compact'', ''Compact session history to reduce context size''),
      (''/status'', ''Show current session status''),
      (''/help'', ''Show available commands''),
      (''/commands'', ''List all available commands'')]"

definition help_text :: string where
  "help_text = ''Available commands:'' @ [CHR 0x0A] @
     concat (map (\<lambda>(name, desc). ''  '' @ name @ '' '' @ [CHR 0xE2, CHR 0x80, CHR 0x94] @ '' '' @ desc @ [CHR 0x0A])
       ListCommands)"

definition ParseCommand :: "SlashHandlers \<Rightarrow> string \<Rightarrow> string \<Rightarrow> CommandResult" where
  "ParseCommand h message session_key =
     (let unhandled = \<lparr>cr_handled = False, cr_reply = [], cr_call = NoCall\<rparr>;
          m = dropWhile is_blank message
      in if m = [] \<or> hd m \<noteq> CHR ''/'' then unhandled
         else
           (let cmd = map to_lower (takeWhile (\<lambda>c. \<not> is_blank c) (tl m))
            in if cmd = ''new'' \<or> cmd = ''reset'' then
                 \<lparr>cr_handled = True, cr_reply = ''Session reset. Starting fresh conversation.'',
                  cr_call = (if sh_reset h then ResetCall else NoCall)\<rparr>
               else if cmd = ''compact'' then
                 \<lparr>cr_handled = True, cr_reply = ''Session history compacted.'',
                  cr_call = (if sh_compact h then CompactCall else NoCall)\<rparr>
               else if cmd = ''status'' then
                 (case sh_status h of
                    Some f \<Rightarrow> \<lparr>cr_handled = True, cr_reply = f session_key, cr_call = StatusCall\<rparr>
                  | None \<Rightarrow> \<lparr>cr_handled = True, cr_reply = ''Session: '' @ session_key, cr_call = NoCall\<rparr>)
               else if cmd = ''help'' \<or> cmd = ''commands'' then
                 \<lparr>cr_handled = True, cr_reply = help_text, cr_call = NoCall\<rparr>
               else unhandled))"

text \<open>
  The commands the help lists are exactly those the parser intercepts: a message is
  handled when its first word, in any letter case and after any white space, is one of them;
  every other text, unknown commands included, passes through to the model and calls nothing.
\<close>

theorem commands_as_listed:
  "cr_handled (ParseCommand h message key) \<longleftrightarrow>
     map to_lower (takeWhile (\<lambda>c. \<not> is_blank c) (dropWhile is_blank message)) \<in> set (map fst ListCommands)"
  "cr_handled (ParseCommand h message key) \<or> cr_call (ParseCommand h message key) = NoCall"
proof -
  let ?m = "dropWhile is_blank message"
  let ?cmd = "map to_lower (takeWhile (\<lambda>c. \<not> is_blank c) (tl ?m))"
  have sl: "\<not> is_blank (CHR ''/'')" "to_lower (CHR ''/'') = CHR ''/''"
    by (simp_all add: is_blank_def to_lower_def byte_def)
  have slash: "to_lower c = CHR ''/'' \<longleftrightarrow> c = CHR ''/''" for c
    by (auto simp: to_lower_def byte_def split: if_splits dest!: arg_cong [where f = "of_char :: char \<Rightarrow> nat"])
  have names: "set (map fst ListCommands) = (\<lambda>n. CHR ''/'' # n) ` {''new'', ''reset'', ''compact'', ''status'', ''help'', ''commands''}"
    by (auto simp: ListCommands_def)
  have L: "cr_handled (ParseCommand h message key) \<longleftrightarrow> ?m \<noteq> [] \<and> hd ?m = CHR ''/''
      \<and> ?cmd \<in> {''new'', ''reset'', ''compact'', ''status'', ''help'', ''commands''}"
    by (simp add: ParseCommand_def Let_def split: option.splits)
  have head: "hd m = CHR ''/''" if "map to_lower (takeWhile (\<lambda>c. \<not> is_blank c) m) = CHR ''/'' # n" for m n
    using that slash by (cases m) (auto split: if_splits)
  show "cr_handled (ParseCommand h message key) \<longleftrightarrow>
      map to_lower (takeWhile (\<lambda>c. \<not> is_blank c) ?m) \<in> set (map fst ListCommands)"
  proof (cases "?m \<noteq> [] \<and> hd ?m = CHR ''/''")
    case True
    then obtain r where r: "?m = CHR ''/'' # r" by (cases ?m) auto
    then have "map to_lower (takeWhile (\<lambda>c. \<not> is_blank c) ?m) = CHR ''/'' # ?cmd" using sl by simp
    with L True show ?thesis unfolding names by auto
  next
    case False
    have "map to_lower (takeWhile (\<lambda>c. \<not> is_blank c) ?m) \<notin> set (map fst ListCommands)"
    proof
      assume "map to_lower (takeWhile (\<lambda>c. \<not> is_blank c) ?m) \<in> set (map fst ListCommands)"
      then obtain n where n: "map to_lower (takeWhile (\<lambda>c. \<not> is_blank c) ?m) = CHR ''/'' # n"
        unfolding names by (elim imageE) (rule that)
      have "?m \<noteq> []"
      proof
        assume "?m = []"
        with n show False by (simp only: takeWhile.simps list.map) simp
      qed
      with head [OF n] False show False by blast
    qed
    with L False show ?thesis by blast
  qed
  show "cr_handled (ParseCommand h message key) \<or> cr_call (ParseCommand h message key) = NoCall"
    by (simp add: ParseCommand_def Let_def split: option.splits)
qed

end
