(* ===== verification/DevicePairing.thy ===== *)
theory DevicePairing
  imports RavPrelude
begin

text \<open>
  Device pairing of the gateway, \<open>src/gateway/device_pairing.cpp\<close>, and message routes,
  \<open>src/gateway/route_manager.cpp\<close>: all operations, with the clock and the random token as
  arguments.
\<close>

section \<open>Device pairing\<close>

record PairingRequest =
  pq_request_id :: string
  pq_device_id :: string
  pq_device_name :: string
  pq_role :: string
  pq_scopes :: "string list"
  pq_requested_at_ms :: int
  pq_client_info :: string

record DeviceToken =
  dt_role :: string
  dt_token :: string
  dt_scopes :: "string list"
  dt_created_at_ms :: int
  dt_rotated_at_ms :: int

record PairedDevice =
  pd_device_id :: string
  pd_device_name :: string
  pd_role :: string
  pd_approved_scopes :: "string list"
  pd_tokens :: "(string, DeviceToken) umap"
  pd_paired_at_ms :: int

record DevicePairingManager =
  dm_pending :: "PairingRequest list"
  dm_paired :: "PairedDevice list"

definition DevicePairingManager_init :: DevicePairingManager where
  "DevicePairingManager_init = \<lparr>dm_pending = [], dm_paired = []\<rparr>"

definition FindPendingRequest :: "DevicePairingManager \<Rightarrow> string \<Rightarrow> PairingRequest option" where
  "FindPendingRequest m request_id = List.find (\<lambda>req. pq_request_id req = request_id) (dm_pending m)"

definition FindPairedDevice :: "DevicePairingManager \<Rightarrow> string \<Rightarrow> PairedDevice option" where
  "FindPairedDevice m device_id = List.find (\<lambda>dev. pd_device_id dev = device_id) (dm_paired m)"

definition drop_request :: "string \<Rightarrow> PairingRequest list \<Rightarrow> PairingRequest list" where
  "drop_request request_id reqs = List.filter (\<lambda>req. pq_request_id req \<noteq> request_id) reqs"

definition approved_device :: "int \<Rightarrow> string \<Rightarrow> PairingRequest \<Rightarrow> PairedDevice" where
  "approved_device now_ms token request =
     \<lparr>pd_device_id = pq_device_id request, pd_device_name = pq_device_name request,
      pd_role = pq_role request, pd_approved_scopes = pq_scopes request,
      pd_tokens = [(pq_role request,
        \<lparr>dt_role = pq_role request, dt_token = token, dt_scopes = pq_scopes request,
         dt_created_at_ms = now_ms, dt_rotated_at_ms = 0\<rparr>)],
      pd_paired_at_ms = now_ms\<rparr>"

definition ApprovePairing :: "int \<Rightarrow> string \<Rightarrow> string \<Rightarrow> DevicePairingManager
    \<Rightarrow> DevicePairingManager \<times> PairingRequest option" where
  "ApprovePairing now_ms token request_id m =
     (case FindPendingRequest m request_id of
        None \<Rightarrow> (m, None)
      | Some request \<Rightarrow>
          (m\<lparr>dm_paired := dm_paired m @ [approved_device now_ms token request],
             dm_pending := drop_request request_id (dm_pending m)\<rparr>, Some request))"

definition RejectPairing :: "string \<Rightarrow> DevicePairingManager \<Rightarrow> DevicePairingManager \<times> PairingRequest option" where
  "RejectPairing request_id m =
     (case FindPendingRequest m request_id of
        None \<Rightarrow> (m, None)
      | Some request \<Rightarrow> (m\<lparr>dm_pending := drop_request request_id (dm_pending m)\<rparr>, Some request))"

definition RemovePairedDevice :: "string \<Rightarrow> DevicePairingManager \<Rightarrow> DevicePairingManager \<times> PairedDevice option" where
  "RemovePairedDevice device_id m =
     (case FindPairedDevice m device_id of
        None \<Rightarrow> (m, None)
      | Some device \<Rightarrow>
          (m\<lparr>dm_paired := List.filter (\<lambda>dev. pd_device_id dev \<noteq> device_id) (dm_paired m)\<rparr>, Some device))"

text \<open>Changing the device that \<open>FindPairedDevice\<close> points to, the first of its id.\<close>

fun update_device :: "string \<Rightarrow> (PairedDevice \<Rightarrow> PairedDevice) \<Rightarrow> PairedDevice list \<Rightarrow> PairedDevice list" where
  "update_device device_id f [] = []"
| "update_device device_id f (dev # devs) =
     (if pd_device_id dev = device_id then f dev # devs else dev # update_device device_id f devs)"

definition rotated_token :: "int \<Rightarrow> string \<Rightarrow> string \<Rightarrow> string list \<Rightarrow> PairedDevice \<Rightarrow> DeviceToken" where
  "rotated_token now_ms token role scopes device =
     \<lparr>dt_role = role, dt_token = token,
      dt_scopes = (if scopes = [] then pd_approved_scopes device else scopes),
      dt_created_at_ms = (case map_of (pd_tokens device) role of Some t \<Rightarrow> dt_created_at_ms t | None \<Rightarrow> now_ms),
      dt_rotated_at_ms = now_ms\<rparr>"

definition RotateDeviceToken :: "int \<Rightarrow> string \<Rightarrow> string \<Rightarrow> string \<Rightarrow> string list \<Rightarrow> DevicePairingManager
    \<Rightarrow> DevicePairingManager \<times> DeviceToken option" where
  "RotateDeviceToken now_ms token device_id role scopes m =
     (case FindPairedDevice m device_id of
        None \<Rightarrow> (m, None)
      | Some device \<Rightarrow>
          (let new_token = rotated_token now_ms token role scopes device
           in (m\<lparr>dm_paired := update_device device_id
                    (\<lambda>d. d\<lparr>pd_tokens := AList.update role new_token (pd_tokens d)\<rparr>) (dm_paired m)\<rparr>,
               Some new_token)))"

definition RevokeDeviceToken :: "string \<Rightarrow> string \<Rightarrow> DevicePairingManager \<Rightarrow> DevicePairingManager \<times> bool" where
  "RevokeDeviceToken device_id role m =
     (case FindPairedDevice m device_id of
        None \<Rightarrow> (m, False)
      | Some device \<Rightarrow>
          if map_of (pd_tokens device) role = None then (m, False)
          else (m\<lparr>dm_paired := update_device device_id
                    (\<lambda>d. d\<lparr>pd_tokens := AList.delete role (pd_tokens d)\<rparr>) (dm_paired m)\<rparr>, True))"

definition AddPairingRequest :: "PairingRequest \<Rightarrow> DevicePairingManager \<Rightarrow> DevicePairingManager" where
  "AddPairingRequest request m = m\<lparr>dm_pending := dm_pending m @ [request]\<rparr>"

section \<open>Tokens and approvals\<close>

datatype pairing_event = PRequest PairingRequest | PApprove int string string | PReject string
  | PRemove string | PRotate int string string string "string list" | PRevoke string string

fun pairing_next :: "DevicePairingManager \<Rightarrow> pairing_event \<Rightarrow> DevicePairingManager" where
  "pairing_next m (PRequest r) = AddPairingRequest r m"
| "pairing_next m (PApprove now tok r) = fst (ApprovePairing now tok r m)"
| "pairing_next m (PReject r) = fst (RejectPairing r m)"
| "pairing_next m (PRemove d) = fst (RemovePairedDevice d m)"
| "pairing_next m (PRotate now tok d role ss) = fst (RotateDeviceToken now tok d role ss m)"
| "pairing_next m (PRevoke d role) = fst (RevokeDeviceToken d role m)"

text \<open>The live tokens: device id, token.\<close>

definition live_tokens :: "DevicePairingManager \<Rightarrow> (string \<times> DeviceToken) list" where
  "live_tokens m = concat (map (\<lambda>d. map (\<lambda>(r, t). (pd_device_id d, t)) (pd_tokens d)) (dm_paired m))"

fun default_scopes_only :: "DevicePairingManager \<Rightarrow> pairing_event \<Rightarrow> bool" where
  "default_scopes_only m (PRotate now tok d role ss) = (ss = [])"
| "default_scopes_only m e = True"

definition tokens_within :: "PairedDevice \<Rightarrow> bool" where
  "tokens_within d \<longleftrightarrow> (\<forall>(r, t) \<in> set (pd_tokens d). dt_scopes t = pd_approved_scopes d)"

definition pairing_inv :: "DevicePairingManager \<Rightarrow> bool" where
  "pairing_inv m \<longleftrightarrow> (\<forall>d \<in> set (dm_paired m). tokens_within d)"

lemma update_device_mem:
  "d \<in> set (update_device i f ds) \<Longrightarrow> d \<in> set ds \<or> (\<exists>e. List.find (\<lambda>x. pd_device_id x = i) ds = Some e \<and> d = f e)"
  by (induction ds) (auto split: if_splits)

lemma find_mem: "List.find P xs = Some x \<Longrightarrow> x \<in> set xs \<and> P x"
  by (induction xs) (auto split: if_splits)

lemma set_update_subset: "set (AList.update k v m) \<subseteq> insert (k, v) (set m)"
  by (induction m) auto

lemma set_delete_subset: "set (AList.delete k m) \<subseteq> set m"
  by (auto simp: AList.delete_eq)

lemma RotateDeviceToken_inv:
  assumes "pairing_inv m"
  shows "pairing_inv (fst (RotateDeviceToken now tok i role [] m))"
proof (cases "FindPairedDevice m i")
  case (Some dev)
  have "tokens_within d" if d: "d \<in> set (dm_paired (fst (RotateDeviceToken now tok i role [] m)))" for d
  proof -
    from d Some have "d \<in> set (update_device i
        (\<lambda>d. d\<lparr>pd_tokens := AList.update role (rotated_token now tok role [] dev) (pd_tokens d)\<rparr>) (dm_paired m))"
      by (simp add: RotateDeviceToken_def Let_def)
    from update_device_mem [OF this] Some consider "d \<in> set (dm_paired m)"
      | "d = dev\<lparr>pd_tokens := AList.update role (rotated_token now tok role [] dev) (pd_tokens dev)\<rparr>"
      by (auto simp: FindPairedDevice_def)
    then show ?thesis
    proof cases
      case 1
      with assms show ?thesis by (simp add: pairing_inv_def)
    next
      case 2
      have "tokens_within dev"
        using assms find_mem Some by (fastforce simp: pairing_inv_def FindPairedDevice_def)
      with 2 set_update_subset [of role "rotated_token now tok role [] dev" "pd_tokens dev"] show ?thesis
        by (auto simp: tokens_within_def rotated_token_def)
    qed
  qed
  then show ?thesis by (simp add: pairing_inv_def)
qed (use assms in \<open>simp add: RotateDeviceToken_def\<close>)

lemma RevokeDeviceToken_inv:
  assumes "pairing_inv m"
  shows "pairing_inv (fst (RevokeDeviceToken i role m))"
proof -
  have "tokens_within d" if d: "d \<in> set (dm_paired (fst (RevokeDeviceToken i role m)))" for d
  proof -
    from d consider "d \<in> set (dm_paired m)"
      | e where "e \<in> set (dm_paired m)" "d = e\<lparr>pd_tokens := AList.delete role (pd_tokens e)\<rparr>"
      by (auto simp: RevokeDeviceToken_def split: option.splits if_splits dest!: update_device_mem find_mem)
    then show ?thesis
    proof cases
      case 2
      then have "tokens_within e" using assms by (simp add: pairing_inv_def)
      with 2 set_delete_subset [of role "pd_tokens e"] show ?thesis by (auto simp: tokens_within_def)
    qed (use assms in \<open>simp add: pairing_inv_def\<close>)
  qed
  then show ?thesis by (simp add: pairing_inv_def)
qed

interpretation device_pairing: guarded_machine
  "\<lambda>m. m = DevicePairingManager_init" default_scopes_only pairing_next pairing_inv
proof
  show "pairing_inv m" if "m = DevicePairingManager_init" for m
    using that by (simp add: pairing_inv_def DevicePairingManager_init_def)
  show "pairing_inv (pairing_next m e)" if inv: "pairing_inv m" and "default_scopes_only m e" for m e
  proof (cases e)
    case (PRotate now tok d role ss)
    with that show ?thesis by (simp add: RotateDeviceToken_inv)
  next
    case (PRevoke d role)
    with inv show ?thesis by (simp add: RevokeDeviceToken_inv)
  qed (use inv in \<open>auto simp: pairing_inv_def AddPairingRequest_def ApprovePairing_def RejectPairing_def
      RemovePairedDevice_def approved_device_def tokens_within_def split: option.splits\<close>)
qed

text \<open>
  A device's tokens carry the scopes that were approved for it in every run in which
  tokens are rotated without naming scopes; but rotation with explicit scopes is not checked
  against the approval: any scopes and any role at all are granted to a paired device.
\<close>

theorem token_scopes_approved:
  assumes "device_pairing.enabled_run DevicePairingManager_init es"
    and "d \<in> set (dm_paired (foldl pairing_next DevicePairingManager_init es))"
    and "(r, t) \<in> set (pd_tokens d)"
  shows "(dt_scopes t = pd_approved_scopes d) \<and>
    (FindPairedDevice m i = Some dev \<longrightarrow> ss \<noteq> [] \<longrightarrow>
      (\<exists>t. snd (RotateDeviceToken now tok i role ss m) = Some t \<and> dt_scopes t = ss \<and> dt_role t = role))"
proof (intro conjI impI)
  show "dt_scopes t = pd_approved_scopes d"
    using device_pairing.inv_from_start [OF refl assms(1)] assms(2,3)
    by (auto simp: pairing_inv_def tokens_within_def)
  show "\<exists>t. snd (RotateDeviceToken now tok i role ss m) = Some t \<and> dt_scopes t = ss \<and> dt_role t = role"
    if "FindPairedDevice m i = Some dev" "ss \<noteq> []"
    using that by (simp add: RotateDeviceToken_def Let_def rotated_token_def)
qed

definition demo_pairing_request :: PairingRequest where
  "demo_pairing_request = \<lparr>pq_request_id = ''r1'', pq_device_id = ''d1'', pq_device_name = ''phone'',
     pq_role = ''node'', pq_scopes = [''node.read''], pq_requested_at_ms = 0, pq_client_info = []\<rparr>"

definition demo_paired_device :: PairedDevice where
  "demo_paired_device = approved_device 5 ''qc_1'' demo_pairing_request"

theorem token_scopes_approved_witness:
  "dt_scopes (snd (hd (pd_tokens demo_paired_device))) = [''node.read'']"
proof -
  let ?es = "[PRequest demo_pairing_request, PApprove 5 ''qc_1'' ''r1'']"
  have r: "device_pairing.enabled_run DevicePairingManager_init ?es" by simp
  have d: "demo_paired_device \<in> set (dm_paired (foldl pairing_next DevicePairingManager_init ?es))"
    by (simp add: DevicePairingManager_init_def AddPairingRequest_def ApprovePairing_def
        FindPendingRequest_def demo_pairing_request_def demo_paired_device_def)
  have "(''node'', snd (hd (pd_tokens demo_paired_device))) \<in> set (pd_tokens demo_paired_device)"
    by (simp add: demo_paired_device_def approved_device_def demo_pairing_request_def)
  from token_scopes_approved [OF r d this] show ?thesis
    by (simp add: demo_paired_device_def approved_device_def demo_pairing_request_def)
qed

text \<open>
  Removing a device ends all its tokens, even when the same device was approved more
  than once. Revoking one token does not: if a device was approved twice for a role, the second
  record keeps its token alive.
\<close>

theorem removal_and_revocation:
  "i \<notin> fst ` set (live_tokens (fst (RemovePairedDevice i m)))"
  "i \<noteq> j \<longrightarrow> ((j, t) \<in> set (live_tokens (fst (RemovePairedDevice i m))) \<longleftrightarrow> (j, t) \<in> set (live_tokens m))"
  "\<exists>m. snd (RevokeDeviceToken i role m) \<and> (\<exists>t. (i, t) \<in> set (live_tokens (fst (RevokeDeviceToken i role m))) \<and> dt_role t = role)"
proof -
  have gone: "dm_paired (fst (RemovePairedDevice i m)) = List.filter (\<lambda>d. pd_device_id d \<noteq> i) (dm_paired m)"
    by (auto simp: RemovePairedDevice_def FindPairedDevice_def find_None_iff filter_id_conv
        split: option.splits)
  show "i \<notin> fst ` set (live_tokens (fst (RemovePairedDevice i m)))"
    unfolding live_tokens_def gone by auto
  show "i \<noteq> j \<longrightarrow> ((j, t) \<in> set (live_tokens (fst (RemovePairedDevice i m))) \<longleftrightarrow> (j, t) \<in> set (live_tokens m))"
    unfolding live_tokens_def gone by auto
  let ?r = "\<lparr>pq_request_id = [], pq_device_id = i, pq_device_name = [], pq_role = role, pq_scopes = [],
     pq_requested_at_ms = 0, pq_client_info = []\<rparr>"
  let ?m = "\<lparr>dm_pending = [], dm_paired = [approved_device 0 ''a'' ?r, approved_device 1 ''b'' ?r]\<rparr>"
  have "snd (RevokeDeviceToken i role ?m) \<and>
      (\<exists>t. (i, t) \<in> set (live_tokens (fst (RevokeDeviceToken i role ?m))) \<and> dt_role t = role)"
    by (simp add: RevokeDeviceToken_def FindPairedDevice_def approved_device_def live_tokens_def)
  then show "\<exists>m. snd (RevokeDeviceToken i role m) \<and>
      (\<exists>t. (i, t) \<in> set (live_tokens (fst (RevokeDeviceToken i role m))) \<and> dt_role t = role)" by blast
qed

theorem removal_and_revocation_witness:
  "(''d2'', dt) \<in> set (live_tokens (fst (RemovePairedDevice ''d1'' \<lparr>dm_pending = [], dm_paired =
     [demo_paired_device]\<rparr>))) \<longleftrightarrow> (''d2'', dt) \<in> set (live_tokens \<lparr>dm_pending = [], dm_paired = [demo_paired_device]\<rparr>)"
  using removal_and_revocation(2) [of "''d1''" "''d2''"] by simp

section \<open>Message routes\<close>

datatype MessagePriority = PrioLow | PrioNormal | PrioHigh | PrioUrgent

datatype DeliveryStatus = DlvPending | DlvDelivered | DlvFailed

record RouteMetadata =
  rt_message_id :: string
  rt_source_channel :: string
  rt_target_session :: string
  rt_parent_message_id :: string
  rt_timestamp :: time
  rt_priority :: MessagePriority
  rt_status :: DeliveryStatus
  rt_is_external :: bool

record RouteManager =
  rm_routes :: "(string, RouteMetadata) umap"
  rm_session_messages :: "(string, string list) umap"
  rm_message_counter :: nat

definition RouteManager_init :: RouteManager where
  "RouteManager_init = \<lparr>rm_routes = [], rm_session_messages = [], rm_message_counter = 0\<rparr>"

definition generate_message_id :: "time \<Rightarrow> nat \<Rightarrow> string" where
  "generate_message_id now counter = ''msg_'' @ to_string (to_msecs now) @ ''_'' @ to_string (int counter)"

definition save_route :: "RouteMetadata \<Rightarrow> RouteManager \<Rightarrow> RouteManager" where
  "save_route metadata m =
     m\<lparr>rm_routes := AList.update (rt_message_id metadata) metadata (rm_routes m),
       rm_session_messages := AList.update (rt_target_session metadata)
         (um_at (rm_session_messages m) (rt_target_session metadata) [] @ [rt_message_id metadata])
         (rm_session_messages m),
       rm_message_counter := Suc (rm_message_counter m)\<rparr>"

definition AttachMetadata :: "time \<Rightarrow> string \<Rightarrow> string \<Rightarrow> bool \<Rightarrow> RouteManager \<Rightarrow> RouteManager \<times> RouteMetadata" where
  "AttachMetadata now source_channel target_session is_external m =
     (let metadata = \<lparr>rt_message_id = generate_message_id now (rm_message_counter m),
            rt_source_channel = source_channel, rt_target_session = target_session,
            rt_parent_message_id = [], rt_timestamp = now, rt_priority = PrioNormal,
            rt_status = DlvPending, rt_is_external = is_external\<rparr>
      in (save_route metadata m, metadata))"

definition InheritRoute :: "time \<Rightarrow> string \<Rightarrow> string \<Rightarrow> RouteManager \<Rightarrow> RouteManager \<times> RouteMetadata" where
  "InheritRoute now parent_message_id target_session m =
     (let base = \<lparr>rt_message_id = generate_message_id now (rm_message_counter m),
            rt_source_channel = [], rt_target_session = target_session,
            rt_parent_message_id = parent_message_id, rt_timestamp = now, rt_priority = PrioNormal,
            rt_status = DlvPending, rt_is_external = False\<rparr>;
          metadata = (case map_of (rm_routes m) parent_message_id of
             None \<Rightarrow> base
           | Some p \<Rightarrow> base\<lparr>rt_source_channel := rt_source_channel p,
               rt_is_external := rt_is_external p, rt_priority := rt_priority p\<rparr>)
      in (save_route metadata m, metadata))"

definition update_route :: "string \<Rightarrow> (RouteMetadata \<Rightarrow> RouteMetadata) \<Rightarrow> RouteManager \<Rightarrow> RouteManager" where
  "update_route message_id f m =
     (case map_of (rm_routes m) message_id of
        None \<Rightarrow> m
      | Some r \<Rightarrow> m\<lparr>rm_routes := AList.update message_id (f r) (rm_routes m)\<rparr>)"

definition RecordDelivery :: "string \<Rightarrow> DeliveryStatus \<Rightarrow> RouteManager \<Rightarrow> RouteManager" where
  "RecordDelivery message_id status m = update_route message_id (\<lambda>r. r\<lparr>rt_status := status\<rparr>) m"

definition SetRoutePriority :: "string \<Rightarrow> MessagePriority \<Rightarrow> RouteManager \<Rightarrow> RouteManager" where
  "SetRoutePriority message_id priority m = update_route message_id (\<lambda>r. r\<lparr>rt_priority := priority\<rparr>) m"

definition GetDeliveryStatus :: "RouteManager \<Rightarrow> string \<Rightarrow> DeliveryStatus" where
  "GetDeliveryStatus m message_id =
     (case map_of (rm_routes m) message_id of None \<Rightarrow> DlvPending | Some r \<Rightarrow> rt_status r)"

definition GetSessionMessages :: "RouteManager \<Rightarrow> string \<Rightarrow> RouteMetadata list" where
  "GetSessionMessages m session_id =
     (case map_of (rm_session_messages m) session_id of
        None \<Rightarrow> []
      | Some ids \<Rightarrow> List.map_filter (\<lambda>i. map_of (rm_routes m) i) ids)"

section \<open>Routes are kept apart\<close>

datatype route_event = RAttach time string string bool | RInherit time string string
  | RDeliver string DeliveryStatus | RPriority string MessagePriority

fun route_next :: "RouteManager \<Rightarrow> route_event \<Rightarrow> RouteManager" where
  "route_next m (RAttach now src tgt ext) = fst (AttachMetadata now src tgt ext m)"
| "route_next m (RInherit now p tgt) = fst (InheritRoute now p tgt m)"
| "route_next m (RDeliver i st) = RecordDelivery i st m"
| "route_next m (RPriority i pr) = SetRoutePriority i pr m"

lemma nat_digits_inject: "nat_digits a = nat_digits b \<longleftrightarrow> a = b"
  by (metis digits_value_nat_digits of_nat_eq_iff)

lemma message_id_counter: "generate_message_id now c = generate_message_id now' c' \<Longrightarrow> c = c'"
proof -
  assume "generate_message_id now c = generate_message_id now' c'"
  then have e: "to_string (to_msecs now) @ CHR ''_'' # nat_digits c
      = to_string (to_msecs now') @ CHR ''_'' # nat_digits c'"
    by (simp add: generate_message_id_def to_string_def)
  have no: "CHR ''_'' \<notin> set (nat_digits n)" for n
    using nat_digits_is_digit [of n] by (auto simp: is_digit_def byte_def)
  have "takeWhile (\<lambda>x. x \<noteq> CHR ''_'') (rev (nat_digits n) @ CHR ''_'' # r) = rev (nat_digits n)" for n r
    using no [of n] by (simp add: takeWhile_append takeWhile_eq_all_conv [THEN iffD2])
  then have "rev (nat_digits c) = rev (nat_digits c')"
    by (metis e rev_append rev.simps(2) append.assoc append_Cons append_Nil)
  then show "c = c'" by (simp add: nat_digits_inject)
qed

definition route_inv :: "RouteManager \<Rightarrow> bool" where
  "route_inv m \<longleftrightarrow> (\<forall>i r. map_of (rm_routes m) i = Some r \<longrightarrow>
       (\<exists>now c. i = generate_message_id now c \<and> c < rm_message_counter m))"

lemma fresh_message_id:
  assumes "route_inv m"
  shows "map_of (rm_routes m) (generate_message_id now (rm_message_counter m)) = None"
proof (rule ccontr)
  assume "map_of (rm_routes m) (generate_message_id now (rm_message_counter m)) \<noteq> None"
  then obtain now' c where "generate_message_id now (rm_message_counter m) = generate_message_id now' c"
      "c < rm_message_counter m"
    using assms unfolding route_inv_def by blast
  from message_id_counter [OF this(1)] this(2) show False by simp
qed

lemma save_route_inv:
  assumes "route_inv m" and "rt_message_id r = generate_message_id now (rm_message_counter m)"
  shows "route_inv (save_route r m)"
  unfolding route_inv_def
proof (intro allI impI)
  fix i x assume "map_of (rm_routes (save_route r m)) i = Some x"
  then consider "i = generate_message_id now (rm_message_counter m)" | "map_of (rm_routes m) i = Some x"
    using assms(2) by (auto simp: save_route_def store_simps split: if_splits)
  then show "\<exists>now c. i = generate_message_id now c \<and> c < rm_message_counter (save_route r m)"
  proof cases
    case 1
    then show ?thesis by (auto simp: save_route_def)
  next
    case 2
    then obtain now c where "i = generate_message_id now c" "c < rm_message_counter m"
      using assms(1) unfolding route_inv_def by blast
    then show ?thesis by (auto simp: save_route_def intro: less_SucI)
  qed
qed

lemma update_route_inv: "route_inv m \<Longrightarrow> route_inv (update_route i f m)"
  unfolding route_inv_def update_route_def
  by (auto simp: store_simps split: option.splits)

lemma route_next_inv: "route_inv m \<Longrightarrow> route_inv (route_next m e)"
  by (cases e) (auto simp: AttachMetadata_def InheritRoute_def Let_def RecordDelivery_def SetRoutePriority_def
      update_route_inv intro!: save_route_inv split: option.splits)

interpretation routes: guarded_machine "\<lambda>m. m = RouteManager_init" "\<lambda>_ _. True" route_next route_inv
proof
  show "route_inv m" if "m = RouteManager_init" for m
    using that by (simp add: route_inv_def RouteManager_init_def)
  show "route_inv (route_next m e)" if "route_inv m" for m e using that by (rule route_next_inv)
qed

text \<open>
  Message ids never collide, whatever the clock does (standing still or going back):
  a new id is always unused, so no route is overwritten. A reply to a known message inherits
  its channel, its priority and whether it is external; a reply to an unknown one counts as
  internal.
\<close>

theorem routes_kept_apart:
  fixes es
  defines "m \<equiv> foldl route_next RouteManager_init es"
  shows "(map_of (rm_routes m) (generate_message_id now (rm_message_counter m)) = None) \<and>
    (map_of (rm_routes (fst (AttachMetadata now src tgt ext m))) i =
      (if i = generate_message_id now (rm_message_counter m)
       then Some (snd (AttachMetadata now src tgt ext m)) else map_of (rm_routes m) i)) \<and>
    (rt_is_external (snd (InheritRoute now p tgt m)) =
      (case map_of (rm_routes m) p of None \<Rightarrow> False | Some r \<Rightarrow> rt_is_external r))"
proof (intro conjI impI)
  have "routes.enabled_run m' es'" for m' es' by (induction es' arbitrary: m') simp_all
  then have "route_inv m" unfolding m_def using routes.inv_from_start by blast
  then show "map_of (rm_routes m) (generate_message_id now (rm_message_counter m)) = None"
    by (rule fresh_message_id)
  show "map_of (rm_routes (fst (AttachMetadata now src tgt ext m))) i =
      (if i = generate_message_id now (rm_message_counter m)
       then Some (snd (AttachMetadata now src tgt ext m)) else map_of (rm_routes m) i)"
    by (simp add: AttachMetadata_def Let_def save_route_def store_simps)
  show "rt_is_external (snd (InheritRoute now p tgt m)) =
      (case map_of (rm_routes m) p of None \<Rightarrow> False | Some r \<Rightarrow> rt_is_external r)"
    by (simp add: InheritRoute_def Let_def split: option.splits)
qed

end
