(* ===== verification/Sanitizer.thy ===== *)
theory Sanitizer
  imports Patterns
begin

text \<open>
  The message sanitizer of the gateway, \<open>src/gateway/message_sanitizer.cpp\<close>: removal of
  boundary markers and control characters from what clients send, removal of internal tags from
  what is shown, and the checks of attachments and metadata. Texts are byte strings; the
  brackets of the markers are the three UTF-8 bytes of U+27E8 and U+27E9.
\<close>

section \<open>Boundary markers\<close>

definition marker_open :: string where
  "marker_open = [CHR 0xE2, CHR 0x9F, CHR 0xA8, CHR 0xE2, CHR 0x9F, CHR 0xA8]"

definition marker_close :: string where
  "marker_close = [CHR 0xE2, CHR 0x9F, CHR 0xA9, CHR 0xE2, CHR 0x9F, CHR 0xA9]"

definition boundary_markers :: "string list" where
  "boundary_markers =
     map (\<lambda>name. marker_open @ name @ marker_close)
       [''EXTERNAL_CONTENT'', ''/EXTERNAL_CONTENT'', ''UNTRUSTED'', ''/UNTRUSTED'',
        ''WEB_SEARCH'', ''/WEB_SEARCH'', ''WEB_FETCH'', ''/WEB_FETCH'']"

text \<open>
  The loop of one marker: the search goes on at the position of the removal. (An empty marker,
  which the table does not have, would make it endless.)
\<close>

function erase_marker :: "string \<Rightarrow> nat \<Rightarrow> string \<Rightarrow> string" where
  "erase_marker marker pos result =
     (if marker = [] then result
      else case str_find_from marker result pos of
             None \<Rightarrow> result
           | Some p \<Rightarrow> erase_marker marker p (take p result @ drop (p + length marker) result))"
  by pat_completeness auto
termination
proof (relation "measure (\<lambda>(marker, pos, result). length result)")
  fix marker result :: string and pos p
  assume m: "marker \<noteq> []" and f: "str_find_from marker result pos = Some p"
  then obtain k where "str_find marker (drop pos result) = Some k" "p = pos + k"
    by (auto simp: str_find_from_def split: if_splits)
  with str_find_Some [of marker "drop pos result" k] f have "p + length marker \<le> length result"
    by (auto simp: str_find_from_def split: if_splits)
  with m show "((marker, p, take p result @ drop (p + length marker) result), marker, pos, result)
      \<in> measure (\<lambda>(marker, pos, result). length result)" by (cases marker) auto
qed simp

declare erase_marker.simps [simp del]

text \<open>The regular expression for the variants: case, white space and a slash.\<close>

fun first_literal :: "string list \<Rightarrow> string \<Rightarrow> string option" where
  "first_literal [] s = None"
| "first_literal (l # ls) s = (case literal l s of Some r \<Rightarrow> Some r | None \<Rightarrow> first_literal ls s)"

definition marker_names :: "string list" where
  "marker_names = [''external_content'', ''untrusted'', ''web_search'', ''web_fetch'']"

definition match_marker :: "char option \<Rightarrow> string \<Rightarrow> string option" where
  "match_marker prev s =
     (case literal marker_open s of None \<Rightarrow> None | Some a \<Rightarrow>
       (let b = dropWhile is_space a;
            c = (if b \<noteq> [] \<and> hd b = CHR ''/'' then tl b else b)
        in case first_literal marker_names (dropWhile is_space c) of None \<Rightarrow> None
           | Some d \<Rightarrow> literal marker_close (dropWhile is_space d)))"

definition RemoveBoundaryMarkers :: "string \<Rightarrow> string" where
  "RemoveBoundaryMarkers text =
     (let result = fold (\<lambda>marker r. erase_marker marker 0 r) boundary_markers text
      in replace_all match_marker None result)"

section \<open>Input\<close>

definition kMaxMessageSize :: nat where "kMaxMessageSize = 1024 * 1024"

definition kMaxAttachmentSize :: nat where "kMaxAttachmentSize = 10 * 1024 * 1024"

definition removed_control :: "char \<Rightarrow> bool" where
  "removed_control c \<longleftrightarrow> byte c < 32 \<and> c \<noteq> CHR 0x0A \<and> c \<noteq> CHR 0x09 \<and> c \<noteq> CHR 0x0D"

definition SanitizeInput :: "string \<Rightarrow> string" where
  "SanitizeInput input =
     (let sanitized = RemoveBoundaryMarkers input;
          sanitized = (if kMaxMessageSize < length sanitized then take kMaxMessageSize sanitized else sanitized)
      in List.filter (\<lambda>c. \<not> removed_control c) sanitized)"

section \<open>Output\<close>

text \<open>The lazy \<open>[\s\S]*?\<close>: up to the first occurrence of what follows.\<close>

fun skip_to :: "string \<Rightarrow> string \<Rightarrow> string option" where
  "skip_to l [] = literal l []"
| "skip_to l (c # cs) = (case literal l (c # cs) of Some r \<Rightarrow> Some r | None \<Rightarrow> skip_to l cs)"

definition match_tag :: "string \<Rightarrow> char option \<Rightarrow> string \<Rightarrow> string option" where
  "match_tag name prev s =
     (case literal (''<'' @ name @ ''>'') s of None \<Rightarrow> None | Some r \<Rightarrow> skip_to (''</'' @ name @ ''>'') r)"

text \<open>The opening tag with attributes, \<open><name[^>]*>\<close>.\<close>

definition match_tag_with :: "string \<Rightarrow> char option \<Rightarrow> string \<Rightarrow> string option" where
  "match_tag_with name prev s =
     (case literal (''<'' @ name) s of None \<Rightarrow> None
      | Some r \<Rightarrow> (case dropWhile (\<lambda>c. c \<noteq> CHR ''>'') r of
            [] \<Rightarrow> None | _ # b \<Rightarrow> skip_to (''</'' @ name @ ''>'') b))"

definition line_end :: "char \<Rightarrow> bool" where
  "line_end c \<longleftrightarrow> c = CHR 0x0A \<or> c = CHR 0x0D"

text \<open>\<open>^\s*[$#]\s+.*$\<close> over lines.\<close>

definition match_prompt :: "char option \<Rightarrow> string \<Rightarrow> string option" where
  "match_prompt prev s =
     (if (case prev of None \<Rightarrow> True | Some c \<Rightarrow> line_end c) then
        (case dropWhile is_space s of
           [] \<Rightarrow> None
         | c # a \<Rightarrow> if c = CHR ''$'' \<or> c = CHR ''#''
                   then map_option (dropWhile (\<lambda>x. \<not> line_end x)) (spaces1 a) else None)
      else None)"

definition source_suffixes :: "string list" where
  "source_suffixes = [''.cpp:'', ''.hpp:'', ''.h:'', ''.c:'', ''.py:'', ''.js:'', ''.ts:'']"

text \<open>A suffix, a colon and at least one digit.\<close>

definition source_place :: "string \<Rightarrow> string option" where
  "source_place s =
     (case first_literal source_suffixes s of
        Some r \<Rightarrow> if r \<noteq> [] \<and> is_digit (hd r) then Some (dropWhile is_digit r) else None
      | None \<Rightarrow> None)"

text \<open>\<open>\S+\<close> is greedy: the last place in the run of non-space characters, after one at least.\<close>

fun last_place :: "string \<Rightarrow> string option" where
  "last_place [] = None"
| "last_place (c # cs) =
     (if is_space c then None
      else case last_place cs of Some r \<Rightarrow> Some r | None \<Rightarrow> source_place cs)"

definition match_place :: "char option \<Rightarrow> string \<Rightarrow> string option" where
  "match_place prev s = last_place s"

definition match_tool :: "char option \<Rightarrow> string \<Rightarrow> string option" where
  "match_tool prev s =
     (case literal ''tool:'' s of None \<Rightarrow> None
      | Some r \<Rightarrow> (let a = dropWhile is_space r
                  in if a \<noteq> [] \<and> is_word (hd a) then Some (dropWhile is_word a) else None))"

definition match_executing :: "char option \<Rightarrow> string \<Rightarrow> string option" where
  "match_executing prev s =
     map_option (\<lambda>r. dropWhile (\<lambda>x. \<not> line_end x) (dropWhile is_space r)) (literal ''executing:'' s)"

definition system_tag_patterns :: "(char option \<Rightarrow> string \<Rightarrow> string option) list" where
  "system_tag_patterns =
     map match_tag [''system.run'', ''command'', ''thinking'', ''system'', ''internal'', ''debug'',
        ''tool_use'', ''tool_result'', ''function_calls'']
     @ [match_tag_with ''invoke'', match_tag_with ''parameter'', match_tag ''system-reminder'',
        match_prompt, match_place, match_tool, match_executing]"

definition RemoveSystemTags :: "string \<Rightarrow> string" where
  "RemoveSystemTags text = fold (\<lambda>pattern r. replace_all pattern None r) system_tag_patterns text"

definition SanitizeOutput :: "string \<Rightarrow> string" where
  "SanitizeOutput output = RemoveSystemTags (RemoveBoundaryMarkers output)"

section \<open>Attachments, messages and metadata\<close>

text \<open>A member that must be a text: absent, of another type (reading it throws), or the text.\<close>

datatype text_member = NoMember | NotText | TextMember string

record 'v Attachment =
  at_data :: text_member
  at_mime_type :: text_member
  at_rest :: 'v

datatype 'v normalized = Threw | EmptyObject | Normalized "'v Attachment"

definition NormalizeAttachment :: "'v Attachment \<Rightarrow> 'v normalized" where
  "NormalizeAttachment attachment =
     (if at_data attachment = NoMember \<or> at_mime_type attachment = NoMember then EmptyObject
      else case at_data attachment of
             TextMember data \<Rightarrow>
               (if kMaxAttachmentSize < length data then EmptyObject
                else case at_mime_type attachment of
                       TextMember mime_type \<Rightarrow>
                         Normalized (attachment\<lparr>at_mime_type := TextMember (map to_lower mime_type)\<rparr>)
                     | _ \<Rightarrow> Threw)
           | _ \<Rightarrow> Threw)"

record MessageShape =
  sh_content :: bool
  sh_role :: text_member
  sh_attachments :: "text_member list option option"

text \<open>
  \<open>sh_attachments\<close> is \<open>None\<close> without the member, \<open>Some None\<close> when it is no array, and
  otherwise the \<open>data\<close> members of its elements. An exception is \<open>None\<close>.
\<close>

fun attachments_ok :: "text_member list \<Rightarrow> bool option" where
  "attachments_ok [] = Some True"
| "attachments_ok (NoMember # rest) = Some False"
| "attachments_ok (NotText # rest) = None"
| "attachments_ok (TextMember data # rest) =
     (if kMaxAttachmentSize < length data then Some False else attachments_ok rest)"

definition ValidateMessage :: "MessageShape \<Rightarrow> bool option" where
  "ValidateMessage message =
     (if \<not> sh_content message \<and> sh_attachments message = None then Some False
      else if sh_role message = NotText then None
      else if (case sh_role message of TextMember role \<Rightarrow> role \<notin> {''user'', ''assistant'', ''system''} | _ \<Rightarrow> False)
        then Some False
      else case sh_attachments message of Some (Some items) \<Rightarrow> attachments_ok items | _ \<Rightarrow> Some True)"

datatype 'v meta_value = MetaText string | MetaScalar 'v | MetaOther 'v

definition allowed_fields :: "string list" where
  "allowed_fields = [''source'', ''timestamp'', ''type'', ''url'', ''title'', ''author'', ''language'']"

fun sanitize_value :: "'v meta_value \<Rightarrow> 'v meta_value option" where
  "sanitize_value (MetaText s) =
     (let str_value = RemoveBoundaryMarkers s
      in Some (MetaText (if 1000 < length str_value then take 1000 str_value else str_value)))"
| "sanitize_value (MetaScalar v) = Some (MetaScalar v)"
| "sanitize_value (MetaOther v) = None"

text \<open>The members of the object, when the metadata is one.\<close>

definition SanitizeMetadata :: "(string, 'v meta_value) umap option \<Rightarrow> (string, 'v meta_value) umap" where
  "SanitizeMetadata metadata =
     (case metadata of None \<Rightarrow> []
      | Some members \<Rightarrow>
          fold (\<lambda>field sanitized. case map_of members field of
              None \<Rightarrow> sanitized
            | Some value \<Rightarrow> (case sanitize_value value of None \<Rightarrow> sanitized
                | Some v \<Rightarrow> AList.update field v sanitized)) allowed_fields [])"

section \<open>What is removed, and what is not\<close>

lemma erase_marker_subseq: "subseq (erase_marker marker pos result) result"
proof (induction marker pos result rule: erase_marker.induct)
  case (1 marker pos result)
  show ?case
  proof (cases "marker = [] \<or> str_find_from marker result pos = None")
    case True
    then show ?thesis by (auto simp: erase_marker.simps)
  next
    case False
    then obtain p where p: "str_find_from marker result pos = Some p" by auto
    let ?r = "take p result @ drop (p + length marker) result"
    have "subseq (drop (p + length marker) result) (drop p result)"
      by (metis add.commute drop_drop suffix_drop suffix_imp_subseq)
    then have "subseq ?r (take p result @ drop p result)" by (intro list_emb_append_mono) simp_all
    then have "subseq ?r result" by simp
    moreover have "subseq (erase_marker marker p ?r) ?r" using 1 False p by blast
    moreover have "erase_marker marker pos result = erase_marker marker p ?r"
      using False p by (simp add: erase_marker.simps [of marker pos])
    ultimately show ?thesis by (metis subseq_order.trans)
  qed
qed

lemma erase_marker_id: "\<not> str_contains marker result \<Longrightarrow> erase_marker marker 0 result = result"
  by (simp add: erase_marker.simps str_find_from_def str_contains_def)

lemma first_literal_suffix: "first_literal ls s = Some r \<Longrightarrow> suffix r s"
  by (induction ls) (auto simp: literal_suffix split: option.splits)

lemma match_marker_suffix: "match_marker prev s = Some r \<Longrightarrow> suffix r s"
proof -
  assume m: "match_marker prev s = Some r"
  then obtain a where a: "literal marker_open s = Some a" by (auto simp: match_marker_def split: option.splits)
  let ?b = "dropWhile is_space a"
  let ?c = "if ?b \<noteq> [] \<and> hd ?b = CHR ''/'' then tl ?b else ?b"
  from m a obtain d where d: "first_literal marker_names (dropWhile is_space ?c) = Some d"
    and r: "literal marker_close (dropWhile is_space d) = Some r"
    by (auto simp: match_marker_def Let_def split: option.splits)
  have "suffix r (dropWhile is_space d)" by (rule literal_suffix [OF r])
  also have "suffix (dropWhile is_space d) d" by (rule suffix_dropWhile)
  also have "suffix d (dropWhile is_space ?c)" by (rule first_literal_suffix [OF d])
  also have "suffix (dropWhile is_space ?c) ?c" by (rule suffix_dropWhile)
  also have "suffix ?c ?b" by (simp add: suffix_tl)
  also have "suffix ?b a" by (rule suffix_dropWhile)
  also have "suffix a s" by (rule literal_suffix [OF a])
  finally show ?thesis .
qed

lemma RemoveBoundaryMarkers_subseq: "subseq (RemoveBoundaryMarkers text) text"
proof -
  have "subseq (fold (\<lambda>marker r. erase_marker marker 0 r) ms t) t" for ms t
    by (induction ms arbitrary: t) (auto intro: subseq_order.trans [OF _ erase_marker_subseq])
  moreover have "subseq (replace_all match_marker None r) r" for r
    by (rule dropped_suffix) (rule match_marker_suffix)
  ultimately show ?thesis unfolding RemoveBoundaryMarkers_def Let_def by (meson subseq_order.trans)
qed

text \<open>Without two opening brackets side by side there is nothing to remove.\<close>

lemma match_marker_open: "match_marker prev s \<noteq> None \<Longrightarrow> is_prefix marker_open s"
proof -
  assume "match_marker prev s \<noteq> None"
  then obtain a where "literal marker_open s = Some a" by (auto simp: match_marker_def split: option.splits)
  then have "map to_lower (take (length marker_open) s) = marker_open" by (simp add: literal_def split: if_splits)
  then have "map to_lower (take 6 s) = marker_open" by (simp add: marker_open_def eval_nat_numeral)
  then have "map to_lower (take 6 s) = marker_open" "length (take 6 s) = 6"
    by (auto simp: marker_open_def dest: arg_cong [of _ _ length])
  moreover have inj: "to_lower c = x \<Longrightarrow> 122 < byte x \<Longrightarrow> c = x" for c x
    by (auto simp: to_lower_def byte_char_of split: if_splits)
  moreover have "122 < byte (CHR 0xE2)" "122 < byte (CHR 0x9F)" "122 < byte (CHR 0xA8)" by (simp_all add: byte_def)
  ultimately have "take 6 s = marker_open"
    unfolding marker_open_def
    by (auto simp: map_eq_Cons_conv inj)
  then show ?thesis unfolding is_prefix_iff by (metis append_take_drop_id)
qed

lemma RemoveBoundaryMarkers_id:
  assumes "\<not> str_contains marker_open text"
  shows "RemoveBoundaryMarkers text = text"
proof -
  have no: "\<not> str_contains m text" if "m \<in> set boundary_markers" for m
  proof -
    from that obtain rest where "m = marker_open @ rest" by (auto simp: boundary_markers_def)
    with assms show ?thesis by (auto simp: str_contains_iff)
  qed
  have "fold (\<lambda>marker r. erase_marker marker 0 r) ms text = text" if "set ms \<subseteq> set boundary_markers" for ms
    using that by (induction ms) (simp_all add: erase_marker_id no)
  then have f: "fold (\<lambda>marker r. erase_marker marker 0 r) boundary_markers text = text" by simp
  have "replace_all match_marker None text = text"
  proof (rule replace_all_id)
    fix prev a b assume "text = a @ b"
    with assms have "\<not> is_prefix marker_open b" by (auto simp: is_prefix_iff str_contains_iff)
    then show "match_marker prev b = None" using match_marker_open by blast
  qed
  with f show ?thesis by (simp add: RemoveBoundaryMarkers_def)
qed

text \<open>
  What the input check guarantees: the result is the input with characters left out, has no
  control character besides tab and the line ends, and is within the size limit; and a message
  within the limit with nothing to remove is unchanged.
\<close>

theorem sanitized_input:
  "subseq (SanitizeInput s) s \<and> list_all (\<lambda>c. \<not> removed_control c) (SanitizeInput s)
   \<and> length (SanitizeInput s) \<le> kMaxMessageSize
   \<and> (\<not> str_contains marker_open s \<longrightarrow> length s \<le> kMaxMessageSize
        \<longrightarrow> SanitizeInput s = List.filter (\<lambda>c. \<not> removed_control c) s)"
proof (intro conjI impI)
  let ?r = "RemoveBoundaryMarkers s"
  let ?t = "if kMaxMessageSize < length ?r then take kMaxMessageSize ?r else ?r"
  have t: "subseq ?t ?r" by (simp add: take_is_prefix prefix_imp_subseq)
  have "subseq (SanitizeInput s) ?t" by (simp add: SanitizeInput_def Let_def subseq_filter_left)
  with t show "subseq (SanitizeInput s) s"
    by (meson RemoveBoundaryMarkers_subseq subseq_order.trans)
  show "list_all (\<lambda>c. \<not> removed_control c) (SanitizeInput s)"
    by (simp add: SanitizeInput_def list_all_iff Let_def)
  have "length (SanitizeInput s) \<le> length ?t"
    unfolding SanitizeInput_def Let_def by (rule length_filter_le)
  also have "length ?t \<le> kMaxMessageSize" by simp
  finally show "length (SanitizeInput s) \<le> kMaxMessageSize" .
  show "SanitizeInput s = List.filter (\<lambda>c. \<not> removed_control c) s"
    if "\<not> str_contains marker_open s" "length s \<le> kMaxMessageSize"
    using that by (simp add: SanitizeInput_def RemoveBoundaryMarkers_id)
qed

theorem sanitized_input_witness:
  "SanitizeInput ''rm [x]'' = List.filter (\<lambda>c. \<not> removed_control c) ''rm [x]''"
proof -
  have "\<not> str_contains marker_open ''rm [x]''" by (simp add: str_contains_def marker_open_def)
  with sanitized_input [of "''rm [x]''"] show ?thesis by (simp add: kMaxMessageSize_def)
qed

text \<open>A text with a control character after every byte.\<close>

fun spread :: "string \<Rightarrow> string" where
  "spread [] = []"
| "spread (c # cs) = c # CHR 0x01 # spread cs"

lemma spread_no_marker: "\<not> str_contains marker_open (spread s)"
proof -
  have "\<not> is_prefix marker_open (spread s) \<and> \<not> is_prefix marker_open (CHR 0x01 # spread s)" for s
    by (cases s) (auto simp: marker_open_def)
  then have "str_find marker_open (spread s) = None"
    by (induction s) (auto simp: marker_open_def)
  then show ?thesis by (simp add: str_contains_def)
qed

lemma spread_filter:
  "list_all (\<lambda>c. \<not> removed_control c) s \<Longrightarrow> List.filter (\<lambda>c. \<not> removed_control c) (spread s) = s"
  by (induction s) (auto simp: removed_control_def byte_def)

text \<open>
  The markers are removed before the control characters, so a client can still deliver any
  marker: every text of printable characters up to half the limit is the sanitized form of some
  input.
\<close>

theorem markers_smuggled:
  assumes "list_all (\<lambda>c. \<not> removed_control c) s" and "2 * length s \<le> kMaxMessageSize"
  shows "\<exists>input. SanitizeInput input = s"
proof
  have "length (spread s) = 2 * length s" by (induction s) simp_all
  with assms show "SanitizeInput (spread s) = s"
    by (simp add: SanitizeInput_def RemoveBoundaryMarkers_id spread_no_marker spread_filter)
qed

theorem markers_smuggled_witness:
  "\<exists>input. SanitizeInput input = marker_open @ ''/UNTRUSTED'' @ marker_close"
  by (rule markers_smuggled) (simp_all add: marker_open_def marker_close_def removed_control_def byte_def kMaxMessageSize_def)

lemma literal_chars: "literal l s = Some r \<Longrightarrow> set l \<subseteq> to_lower ` set s"
proof -
  assume "literal l s = Some r"
  then have "map to_lower (take (length l) s) = l" by (simp add: literal_def split: if_splits)
  then have "set l = to_lower ` set (take (length l) s)" by (metis set_map)
  then show ?thesis by (auto dest: in_set_takeD)
qed

text \<open>A reference to a source line has a colon.\<close>

lemma source_place_colon: "source_place s \<noteq> None \<Longrightarrow> CHR '':'' \<in> set s"
proof -
  assume "source_place s \<noteq> None"
  then obtain r where "first_literal source_suffixes s = Some r" by (auto simp: source_place_def split: option.splits)
  moreover have "first_literal ls s = Some r \<Longrightarrow> \<exists>l \<in> set ls. literal l s \<noteq> None" for ls r
    by (induction ls) (auto split: option.splits)
  ultimately have "\<exists>l \<in> set source_suffixes. literal l s \<noteq> None" by blast
  then have "CHR '':'' \<in> to_lower ` set s"
    by (auto simp: source_suffixes_def dest!: literal_chars)
  then obtain c where "c \<in> set s" "to_lower c = CHR '':''" by auto
  moreover have "c = CHR '':''" if "to_lower c = CHR '':''" for c
  proof (cases "65 \<le> byte c \<and> byte c \<le> 90")
    case True
    then have "byte (to_lower c) = byte c + 32" by (simp add: to_lower_def byte_char_of)
    moreover have "byte (CHR '':'') = 58" by (simp add: byte_def)
    ultimately show ?thesis using True that by simp
  next
    case False
    then have "to_lower c = c" by (auto simp: to_lower_def)
    with that show ?thesis by simp
  qed
  ultimately show ?thesis by blast
qed

lemma last_place_colon: "last_place s \<noteq> None \<Longrightarrow> CHR '':'' \<in> set s"
  using source_place_colon by (induction s) (auto split: if_splits option.splits)

lemma no_place: "CHR '':'' \<notin> set s \<Longrightarrow> replace_all match_place None s = s"
  by (rule replace_all_id) (auto simp: match_place_def dest: last_place_colon)

text \<open>
  The tags are removed one pattern after the other, once each: removing a later one can put an
  earlier one together again, which is then shown.
\<close>

theorem tags_leak:
  "SanitizeOutput ''<thin<debug></debug>king>key</thinking>'' = ''<thinking>key</thinking>''
   \<and> SanitizeOutput ''<thinking>key</thinking>ok'' = ''ok''"
proof -
  let ?t = "''<thin<debug></debug>king>key</thinking>''" and ?t' = "''<thinking>key</thinking>''"
  let ?before = "map match_tag [''system.run'', ''command'', ''thinking'', ''system'', ''internal'', ''debug'',
        ''tool_use'', ''tool_result'', ''function_calls'']
     @ [match_tag_with ''invoke'', match_tag_with ''parameter'', match_tag ''system-reminder'', match_prompt]"
  have split: "RemoveSystemTags s = replace_all match_executing None (replace_all match_tool None
      (replace_all match_place None (fold (\<lambda>p r. replace_all p None r) ?before s)))" for s
    by (simp add: RemoveSystemTags_def system_tag_patterns_def)
  have "fold (\<lambda>p r. replace_all p None r) ?before ?t = ?t'"
    "fold (\<lambda>p r. replace_all p None r) ?before ''<thinking>key</thinking>ok'' = ''ok''" by code_simp+
  moreover have "replace_all match_place None ?t' = ?t'" "replace_all match_place None ''ok'' = ''ok''"
    by (rule no_place, simp)+
  moreover have "replace_all match_executing None (replace_all match_tool None ?t') = ?t'"
    "replace_all match_executing None (replace_all match_tool None ''ok'') = ''ok''" by code_simp+
  ultimately have "RemoveSystemTags ?t = ?t'" "RemoveSystemTags ''<thinking>key</thinking>ok'' = ''ok''"
    unfolding split by (simp_all only:)
  moreover have "RemoveBoundaryMarkers s = s" if "CHR 0xE2 \<notin> set s" for s
    using that by (intro RemoveBoundaryMarkers_id) (auto simp: str_contains_iff marker_open_def)
  ultimately show ?thesis by (simp add: SanitizeOutput_def)
qed

text \<open>
  Metadata is rebuilt from the whitelist: a field of the result is one of the seven names, with
  the sanitized value of the original; every other field and every nested value is left out, and
  each text has at most a thousand bytes.
\<close>

theorem metadata_whitelisted:
  "map_of (SanitizeMetadata metadata) field =
     (if field \<in> set allowed_fields
      then Option.bind metadata (\<lambda>m. Option.bind (map_of m field) sanitize_value) else None)
   \<and> (map_of (SanitizeMetadata metadata) field = Some (MetaText s) \<longrightarrow> length s \<le> 1000)"
proof (intro conjI impI)
  have step: "map_of (fold (\<lambda>field sanitized. case map_of m field of None \<Rightarrow> sanitized
        | Some value \<Rightarrow> (case sanitize_value value of None \<Rightarrow> sanitized
            | Some v \<Rightarrow> AList.update field v sanitized)) fs acc) field =
      (if field \<in> set fs \<and> Option.bind (map_of m field) sanitize_value \<noteq> None
       then Option.bind (map_of m field) sanitize_value else map_of acc field)" for fs acc and m
    by (induction fs arbitrary: acc) (auto simp: store_simps split: option.splits)
  show all: "map_of (SanitizeMetadata metadata) field =
     (if field \<in> set allowed_fields
      then Option.bind metadata (\<lambda>m. Option.bind (map_of m field) sanitize_value) else None)"
    by (cases metadata) (auto simp: SanitizeMetadata_def step split: option.splits)
  assume "map_of (SanitizeMetadata metadata) field = Some (MetaText s)"
  then obtain m v where "metadata = Some m" "map_of m field = Some v" "sanitize_value v = Some (MetaText s)"
    unfolding all by (auto split: if_splits simp: bind_eq_Some_conv)
  then show "length s \<le> 1000" by (cases v) (auto simp: Let_def split: if_splits)
qed

theorem metadata_whitelisted_witness:
  "map_of (SanitizeMetadata (Some [(''token'', MetaText ''x''), (''type'', MetaScalar True)])) ''token'' = None
   \<and> map_of (SanitizeMetadata (Some [(''token'', MetaText ''x''), (''type'', MetaScalar True)])) ''type'' = Some (MetaScalar True)"
  using metadata_whitelisted [of "Some [(''token'', MetaText ''x''), (''type'', MetaScalar True)]" "''token''"]
    metadata_whitelisted [of "Some [(''token'', MetaText ''x''), (''type'', MetaScalar True)]" "''type''"]
  by (simp add: allowed_fields_def)

end
