(* ===== verification/Gateway.thy ===== *)
theory Gateway
  imports Rbac RateLimit DevicePairing Sanitizer
begin

text \<open>
  The gateway server, \<open>src/gateway/gateway_server.cpp\<close>, with the frames and connections of
  \<open>include/ravbot/gateway/protocol.hpp\<close>: the handshake with its token and lock-out, the gate
  every request passes (method, connection, authentication, roles, rate), pending requests and
  their watchdog, aborts, and the health probe. The JSON parser and the readers of the
  parameters are arguments (\<open>parse\<close>, \<open>hello_of\<close>); registered handlers answer a value or
  throw a text, and do not change the connection. The two maps of connections have the
  same keys and are one field. Clocks are arguments: \<open>now\<close> is the steady clock of the rate
  limiter and \<open>wall\<close> the system clock, both in nanoseconds.
\<close>

section \<open>Frames\<close>

record RpcError =
  er_code :: string
  er_message :: string
  er_retryable :: bool
  er_retry_after_ms :: int

text \<open>The members of an error as JSON; a retry delay of zero is left out.\<close>

record ErrorMembers =
  em_error :: "string option"
  em_code :: "string option"
  em_message :: "string option"
  em_retryable :: "bool option"
  em_retryAfterMs :: "int option"

definition RpcError_ToJson :: "RpcError \<Rightarrow> ErrorMembers" where
  "RpcError_ToJson e = \<lparr>em_error = None, em_code = Some (er_code e), em_message = Some (er_message e),
     em_retryable = Some (er_retryable e),
     em_retryAfterMs = (if 0 < er_retry_after_ms e then Some (er_retry_after_ms e) else None)\<rparr>"

datatype HealthStatus = kHealthy | kDegraded | kUnreachable

fun HealthStatusToString :: "HealthStatus \<Rightarrow> string" where
  "HealthStatusToString kHealthy = ''healthy''"
| "HealthStatusToString kDegraded = ''degraded''"
| "HealthStatusToString kUnreachable = ''unreachable''"

definition HealthStatusFromString :: "string \<Rightarrow> HealthStatus option" where
  "HealthStatusFromString str =
     (if str = ''healthy'' then Some kHealthy
      else if str = ''degraded'' then Some kDegraded
      else if str = ''unreachable'' then Some kUnreachable
      else None)"

section \<open>Connections\<close>

record PendingRequest =
  pr_request_id :: string
  pr_method :: string
  pr_created_at :: int
  pr_expect_final :: bool

record ClientConnection =
  cc_connection_id :: string
  cc_role :: string
  cc_scopes :: "string list"
  cc_device_id :: string
  cc_client_name :: string
  cc_client_version :: string
  cc_connected_at :: int
  cc_authenticated :: bool
  cc_client_type :: string
  cc_pending_requests :: "(string, PendingRequest) umap"

definition ClientConnection_new :: "string \<Rightarrow> int \<Rightarrow> ClientConnection" where
  "ClientConnection_new conn_id connected_at =
     \<lparr>cc_connection_id = conn_id, cc_role = [], cc_scopes = [], cc_device_id = [], cc_client_name = [],
      cc_client_version = [], cc_connected_at = connected_at, cc_authenticated = False,
      cc_client_type = ''ravbot'', cc_pending_requests = []\<rparr>"

text \<open>The members a hello may carry: flat names, or nested in \<open>client\<close>, \<open>auth\<close>, \<open>device\<close>.\<close>

record HelloMembers =
  hj_minProtocol :: "int option"
  hj_maxProtocol :: "int option"
  hj_role :: "string option"
  hj_scopes :: "string list option"
  hj_client :: "(string option \<times> string option) option"
  hj_clientName :: "string option"
  hj_clientVersion :: "string option"
  hj_auth :: "string option option"
  hj_authToken :: "string option"
  hj_device :: "string option option"
  hj_deviceId :: "string option"

record ConnectHelloParams =
  ch_min_protocol :: int
  ch_max_protocol :: int
  ch_client_name :: string
  ch_client_version :: string
  ch_role :: string
  ch_scopes :: "string list"
  ch_auth_token :: string
  ch_device_id :: string

definition ConnectHello_FromJson :: "HelloMembers \<Rightarrow> ConnectHelloParams" where
  "ConnectHello_FromJson j =
     \<lparr>ch_min_protocol = value_or (hj_minProtocol j) 1, ch_max_protocol = value_or (hj_maxProtocol j) 3,
      ch_client_name = (case hj_client j of Some (n, _) \<Rightarrow> value_or n [] | None \<Rightarrow> value_or (hj_clientName j) []),
      ch_client_version = (case hj_client j of Some (_, v) \<Rightarrow> value_or v [] | None \<Rightarrow> value_or (hj_clientVersion j) []),
      ch_role = value_or (hj_role j) ''operator'',
      ch_scopes = value_or (hj_scopes j) [''operator.read'', ''operator.write''],
      ch_auth_token = (case hj_auth j of Some t \<Rightarrow> value_or t [] | None \<Rightarrow> value_or (hj_authToken j) []),
      ch_device_id = (case hj_device j of Some i \<Rightarrow> value_or i [] | None \<Rightarrow> value_or (hj_deviceId j) [])\<rparr>"

section \<open>The server\<close>

type_synonym ('p, 'r) RpcHandler = "'p \<Rightarrow> ClientConnection \<Rightarrow> string + 'r"

record ('p, 'r) GatewayServer =
  gs_running :: bool
  gs_auth_mode :: string
  gs_expected_token :: string
  gs_auth_fail_counts :: "(string, int) umap"
  gs_auth_lockout_until :: "(string, int) umap"
  gs_auth_max_attempts :: int
  gs_auth_lockout_duration_sec :: int
  gs_connections :: "(string, ClientConnection) umap"
  gs_handlers :: "(string, ('p, 'r) RpcHandler) umap"
  gs_rbac_checker :: "method_rules option"
  gs_rate_limiter :: "RateLimiter option"
  gs_route_manager :: RouteManager
  gs_active_requests :: "(string, string) umap"
  gs_request_timeout_ms :: int
  gs_health_status :: HealthStatus
  gs_last_health_check_ms :: int
  gs_degraded_check_count :: int
  gs_health_timeout_threshold_percent :: int
  gs_health_max_timeout_count :: int
  gs_health_degraded_check_count :: int

definition GatewayServer_init :: "('p, 'r) GatewayServer" where
  "GatewayServer_init =
     \<lparr>gs_running = False, gs_auth_mode = ''token'', gs_expected_token = [], gs_auth_fail_counts = [],
      gs_auth_lockout_until = [], gs_auth_max_attempts = 5, gs_auth_lockout_duration_sec = 300,
      gs_connections = [], gs_handlers = [], gs_rbac_checker = None, gs_rate_limiter = None,
      gs_route_manager = RouteManager_init, gs_active_requests = [], gs_request_timeout_ms = 30000,
      gs_health_status = kHealthy, gs_last_health_check_ms = 0, gs_degraded_check_count = 0,
      gs_health_timeout_threshold_percent = 80, gs_health_max_timeout_count = 5,
      gs_health_degraded_check_count = 3\<rparr>"

text \<open>What the server sends; \<open>ErrorResponse\<close> carries the error of a failed response.\<close>

record Snapshot =
  sn_presence :: "ClientConnection list"
  sn_auth_mode :: string

datatype 'r frame =
    SuccessResponse string 'r
  | HelloOk string string bool Snapshot
  | ErrorResponse string RpcError
  | AbortedEvent string

section \<open>Registration and settings\<close>

definition RegisterHandler :: "string \<Rightarrow> ('p, 'r) RpcHandler \<Rightarrow> ('p, 'r) GatewayServer \<Rightarrow> ('p, 'r) GatewayServer" where
  "RegisterHandler method handler g = g\<lparr>gs_handlers := AList.update method handler (gs_handlers g)\<rparr>"

definition SetAuth :: "string \<Rightarrow> string \<Rightarrow> ('p, 'r) GatewayServer \<Rightarrow> ('p, 'r) GatewayServer" where
  "SetAuth mode token g = g\<lparr>gs_auth_mode := mode, gs_expected_token := token\<rparr>"

definition SetAuthLockoutConfig :: "int \<Rightarrow> int \<Rightarrow> ('p, 'r) GatewayServer \<Rightarrow> ('p, 'r) GatewayServer" where
  "SetAuthLockoutConfig max_attempts lockout_duration_sec g =
     g\<lparr>gs_auth_max_attempts := max 1 max_attempts,
       gs_auth_lockout_duration_sec := max 1 lockout_duration_sec\<rparr>"

definition SetRbac :: "method_rules option \<Rightarrow> ('p, 'r) GatewayServer \<Rightarrow> ('p, 'r) GatewayServer" where
  "SetRbac checker g = g\<lparr>gs_rbac_checker := checker\<rparr>"

definition SetRateLimiter :: "RateLimiter option \<Rightarrow> ('p, 'r) GatewayServer \<Rightarrow> ('p, 'r) GatewayServer" where
  "SetRateLimiter limiter g = g\<lparr>gs_rate_limiter := limiter\<rparr>"

definition SetRequestTimeout :: "int \<Rightarrow> ('p, 'r) GatewayServer \<Rightarrow> ('p, 'r) GatewayServer" where
  "SetRequestTimeout timeout_ms g = g\<lparr>gs_request_timeout_ms := max 1000 (min timeout_ms 2147483647)\<rparr>"

definition SetHealthConfig :: "int \<Rightarrow> int \<Rightarrow> int \<Rightarrow> ('p, 'r) GatewayServer \<Rightarrow> ('p, 'r) GatewayServer" where
  "SetHealthConfig timeout_threshold_percent max_timeout_count degraded_check_count g =
     g\<lparr>gs_health_timeout_threshold_percent := max 1 (min timeout_threshold_percent 100),
       gs_health_max_timeout_count := max 1 max_timeout_count,
       gs_health_degraded_check_count := max 1 degraded_check_count\<rparr>"

definition ClearAuthLockout :: "string \<Rightarrow> ('p, 'r) GatewayServer \<Rightarrow> ('p, 'r) GatewayServer" where
  "ClearAuthLockout identifier g =
     (if identifier = [] then g\<lparr>gs_auth_fail_counts := [], gs_auth_lockout_until := []\<rparr>
      else g\<lparr>gs_auth_fail_counts := AList.delete identifier (gs_auth_fail_counts g),
             gs_auth_lockout_until := AList.delete identifier (gs_auth_lockout_until g)\<rparr>)"

definition StopServer :: "('p, 'r) GatewayServer \<Rightarrow> ('p, 'r) GatewayServer" where
  "StopServer g = (if \<not> gs_running g then g else g\<lparr>gs_running := False, gs_connections := []\<rparr>)"

definition BuildSnapshot :: "('p, 'r) GatewayServer \<Rightarrow> Snapshot" where
  "BuildSnapshot g =
     \<lparr>sn_presence = List.filter cc_authenticated (map snd (gs_connections g)), sn_auth_mode = gs_auth_mode g\<rparr>"

section \<open>Sending\<close>

definition SendEventTo :: "string \<Rightarrow> 'r frame \<Rightarrow> ('p, 'r) GatewayServer \<Rightarrow> (string \<times> 'r frame) list" where
  "SendEventTo connection_id event g =
     (if map_of (gs_connections g) connection_id = None then [] else [(connection_id, event)])"

definition BroadcastEvent :: "'r frame \<Rightarrow> ('p, 'r) GatewayServer \<Rightarrow> (string \<times> 'r frame) list" where
  "BroadcastEvent event g = map (\<lambda>(id, _). (id, event)) (gs_connections g)"

text \<open>The error of a failed response is rebuilt from the members of its JSON.\<close>

definition SendResponseTo :: "string \<Rightarrow> string \<Rightarrow> 'r + ErrorMembers \<Rightarrow> ('p, 'r) GatewayServer
    \<Rightarrow> (string \<times> 'r frame) list" where
  "SendResponseTo connection_id rpc_request_id payload_or_error g =
     (let resp = (case payload_or_error of
            Inl payload \<Rightarrow> SuccessResponse rpc_request_id payload
          | Inr j \<Rightarrow> ErrorResponse rpc_request_id
              \<lparr>er_code = value_or (em_code j) ''INTERNAL_ERROR'', er_message = value_or (em_error j) ''unknown error'',
               er_retryable = value_or (em_retryable j) False, er_retry_after_ms = value_or (em_retryAfterMs j) 0\<rparr>)
      in if map_of (gs_connections g) connection_id = None then [] else [(connection_id, resp)])"

definition failure :: "string \<Rightarrow> string \<Rightarrow> string \<Rightarrow> 'r frame" where
  "failure request_id message code =
     ErrorResponse request_id \<lparr>er_code = code, er_message = message, er_retryable = False, er_retry_after_ms = 0\<rparr>"

section \<open>The handshake\<close>

definition authenticate :: "string \<Rightarrow> ConnectHelloParams \<Rightarrow> bool \<Rightarrow> ClientConnection \<Rightarrow> ClientConnection" where
  "authenticate conn_id hello is_openclaw c =
     c\<lparr>cc_role := ch_role hello,
       cc_scopes := (if ch_scopes hello = [] then DefaultScopes (RoleFromString (ch_role hello)) else ch_scopes hello),
       cc_device_id := ch_device_id hello, cc_client_name := ch_client_name hello,
       cc_client_version := ch_client_version hello, cc_authenticated := True,
       cc_client_type := (if is_openclaw then ''openclaw'' else ''ravbot'')\<rparr>"

text \<open>The token check with its lock-out: the new state, and whether the hello goes on.\<close>

definition check_token :: "int \<Rightarrow> string \<Rightarrow> ConnectHelloParams \<Rightarrow> ('p, 'r) GatewayServer
    \<Rightarrow> ('p, 'r) GatewayServer \<times> bool" where
  "check_token now_ms conn_id hello g =
     (if gs_auth_mode g = ''token'' \<and> gs_expected_token g \<noteq> [] then
        (if (case map_of (gs_auth_lockout_until g) conn_id of None \<Rightarrow> False | Some until \<Rightarrow> now_ms < until)
         then (g, False)
         else if ch_auth_token hello \<noteq> gs_expected_token g then
           (let fail_count = um_at (gs_auth_fail_counts g) conn_id 0 + 1;
                g1 = g\<lparr>gs_auth_fail_counts := AList.update conn_id fail_count (gs_auth_fail_counts g)\<rparr>
            in (if gs_auth_max_attempts g \<le> fail_count
                then g1\<lparr>gs_auth_lockout_until := AList.update conn_id
                       (now_ms + gs_auth_lockout_duration_sec g * 1000) (gs_auth_lockout_until g)\<rparr>
                else g1, False))
         else (g\<lparr>gs_auth_fail_counts := AList.delete conn_id (gs_auth_fail_counts g),
                 gs_auth_lockout_until := AList.delete conn_id (gs_auth_lockout_until g)\<rparr>, True))
      else (g, True))"

definition handle_hello :: "int \<Rightarrow> string \<Rightarrow> ConnectHelloParams \<Rightarrow> bool \<Rightarrow> ('p, 'r) GatewayServer
    \<Rightarrow> ('p, 'r) GatewayServer \<times> bool" where
  "handle_hello now_ms conn_id hello is_openclaw g =
     (let (g1, passed) = check_token now_ms conn_id hello g
      in if \<not> passed then (g1, False)
         else (case map_of (gs_connections g1) conn_id of
                 None \<Rightarrow> (g1, False)
               | Some c \<Rightarrow> (g1\<lparr>gs_connections :=
                     AList.update conn_id (authenticate conn_id hello is_openclaw c) (gs_connections g1)\<rparr>, True)))"

section \<open>Requests\<close>

record 'p RpcRequest =
  rq_id :: string
  rq_method :: string
  rq_params :: 'p

datatype ('p, 'r) admission = Refused "'r frame" | Admitted "('p, 'r) RpcHandler" ClientConnection

text \<open>
  The first half of \<open>handle_rpc_request\<close>, up to the entry of the pending request: the request is
  refused with a frame, or admitted with its handler.
\<close>

definition admit_request :: "time \<Rightarrow> time \<Rightarrow> string \<Rightarrow> 'p RpcRequest \<Rightarrow> ('p, 'r) GatewayServer
    \<Rightarrow> ('p, 'r) GatewayServer \<times> ('p, 'r) admission" where
  "admit_request now wall conn_id request g =
     (case map_of (gs_handlers g) (rq_method request) of
        None \<Rightarrow> (g, Refused (failure (rq_id request) (''Unknown method: '' @ rq_method request) ''METHOD_NOT_FOUND''))
      | Some handler \<Rightarrow>
     (case map_of (gs_connections g) conn_id of
        None \<Rightarrow> (g, Refused (failure (rq_id request) ''Connection not found'' ''CONNECTION_NOT_FOUND''))
      | Some client \<Rightarrow>
          if gs_auth_mode g \<noteq> ''none'' \<and> \<not> cc_authenticated client then
            (g, Refused (failure (rq_id request) ''Not authenticated: send connect.hello first'' ''NOT_AUTHENTICATED''))
          else if (case gs_rbac_checker g of None \<Rightarrow> False
              | Some rules \<Rightarrow> cc_authenticated client
                  \<and> \<not> IsMethodAllowed rules (rq_method request) (cc_scopes client)) then
            (g, Refused (failure (rq_id request)
               (''Permission denied: insufficient scope for '' @ rq_method request) ''PERMISSION_DENIED''))
          else
            (let pending = \<lparr>pr_request_id = rq_id request, pr_method = rq_method request,
                   pr_created_at = to_msecs wall,
                   pr_expect_final = (rq_method request = ''agent.request'' \<or> rq_method request = ''chat.send'')\<rparr>;
                 client1 = client\<lparr>cc_pending_requests :=
                   AList.update (rq_id request) pending (cc_pending_requests client)\<rparr>;
                 admit = (\<lambda>g. (g\<lparr>gs_connections := AList.update conn_id client1 (gs_connections g)\<rparr>,
                   Admitted handler client1))
             in case gs_rate_limiter g of
                  None \<Rightarrow> admit g
                | Some rl \<Rightarrow>
                    (case Allow now conn_id rl of
                       (rl1, True) \<Rightarrow> admit (g\<lparr>gs_rate_limiter := Some rl1\<rparr>)
                     | (rl1, False) \<Rightarrow>
                         (case RetryAfter now conn_id rl1 of
                            (rl2, retry) \<Rightarrow> (g\<lparr>gs_rate_limiter := Some rl2\<rparr>,
                              Refused (ErrorResponse (rq_id request)
                                \<lparr>er_code = ''RATE_LIMITED'',
                                 er_message = ''Rate limit exceeded. Retry after '' @ to_string retry @ ''s'',
                                 er_retryable = True, er_retry_after_ms = retry * 1000\<rparr>)))))))"

text \<open>The second half, with what the handler returned (\<open>Inl\<close>: what it threw).\<close>

definition remove_pending :: "string \<Rightarrow> string \<Rightarrow> ('p, 'r) GatewayServer \<Rightarrow> ('p, 'r) GatewayServer" where
  "remove_pending conn_id request_id g =
     (case map_of (gs_connections g) conn_id of
        None \<Rightarrow> g
      | Some c \<Rightarrow> g\<lparr>gs_connections := AList.update conn_id
            (c\<lparr>cc_pending_requests := AList.delete request_id (cc_pending_requests c)\<rparr>) (gs_connections g)\<rparr>)"

definition finish_request :: "string \<Rightarrow> string \<Rightarrow> string + 'r \<Rightarrow> ('p, 'r) GatewayServer
    \<Rightarrow> ('p, 'r) GatewayServer \<times> 'r frame" where
  "finish_request conn_id request_id outcome g =
     (remove_pending conn_id request_id g,
      case outcome of
        Inr result \<Rightarrow> SuccessResponse request_id result
      | Inl what \<Rightarrow> failure request_id what ''HANDLER_ERROR'')"

definition handle_rpc_request :: "time \<Rightarrow> time \<Rightarrow> string \<Rightarrow> 'p RpcRequest \<Rightarrow> ('p, 'r) GatewayServer
    \<Rightarrow> ('p, 'r) GatewayServer \<times> 'r frame" where
  "handle_rpc_request now wall conn_id request g =
     (case admit_request now wall conn_id request g of
        (g1, Refused f) \<Rightarrow> (g1, f)
      | (g1, Admitted handler client) \<Rightarrow>
          finish_request conn_id (rq_id request) (handler (rq_params request) client) g1)"

text \<open>One frame from a client.\<close>

datatype 'p incoming = RequestFrame "'p RpcRequest" | OtherFrame

definition handle_message ::
  "(string \<Rightarrow> 'p incoming option) \<Rightarrow> ('p \<Rightarrow> HelloMembers option) \<Rightarrow> time \<Rightarrow> time \<Rightarrow> string \<Rightarrow> string
     \<Rightarrow> ('p, 'r) GatewayServer \<Rightarrow> ('p, 'r) GatewayServer \<times> 'r frame list" where
  "handle_message parse hello_of now wall conn_id data g =
     (case parse (SanitizeInput data) of
        Some (RequestFrame request) \<Rightarrow>
          (let (routes, metadata) = AttachMetadata wall ''websocket'' conn_id False (gs_route_manager g);
               g1 = g\<lparr>gs_route_manager := routes,
                      gs_active_requests := AList.update (rq_id request) conn_id (gs_active_requests g)\<rparr>;
               deactivate = (\<lambda>g. g\<lparr>gs_active_requests := AList.delete (rq_id request) (gs_active_requests g)\<rparr>);
               is_openclaw = (rq_method request = ''connect'')
           in if rq_method request = ''connect.hello'' \<or> is_openclaw then
                (case hello_of (rq_params request) of
                   None \<Rightarrow> (g1, [])
                 | Some members \<Rightarrow>
                     (case handle_hello (to_msecs wall) conn_id (ConnectHello_FromJson members) is_openclaw g1 of
                        (g2, True) \<Rightarrow>
                          (deactivate (g2\<lparr>gs_route_manager :=
                               RecordDelivery (rt_message_id metadata) DlvDelivered (gs_route_manager g2)\<rparr>),
                           [HelloOk (rq_id request) conn_id is_openclaw (BuildSnapshot g2)])
                      | (g2, False) \<Rightarrow>
                          (deactivate (g2\<lparr>gs_route_manager :=
                               RecordDelivery (rt_message_id metadata) DlvFailed (gs_route_manager g2)\<rparr>),
                           [failure (rq_id request) ''Authentication failed'' ''AUTH_FAILED''])))
              else
                (case handle_rpc_request now wall conn_id request g1 of
                   (g2, response) \<Rightarrow> (deactivate g2, [response])))
      | _ \<Rightarrow> (g, []))"

text \<open>The other events of a connection.\<close>

definition on_open :: "time \<Rightarrow> string \<Rightarrow> ('p, 'r) GatewayServer \<Rightarrow> ('p, 'r) GatewayServer" where
  "on_open wall conn_id g =
     g\<lparr>gs_connections := AList.update conn_id (ClientConnection_new conn_id (to_secs wall)) (gs_connections g)\<rparr>"

definition on_close :: "string \<Rightarrow> ('p, 'r) GatewayServer \<Rightarrow> ('p, 'r) GatewayServer" where
  "on_close conn_id g = g\<lparr>gs_connections := AList.delete conn_id (gs_connections g)\<rparr>"

section \<open>Watchdog, aborts and health\<close>

definition timed_out :: "int \<Rightarrow> ('p, 'r) GatewayServer \<Rightarrow> PendingRequest \<Rightarrow> bool" where
  "timed_out now_ms g pending \<longleftrightarrow>
     \<not> pr_expect_final pending \<and> gs_request_timeout_ms g < now_ms - pr_created_at pending"

definition watchdog_tick :: "int \<Rightarrow> ('p, 'r) GatewayServer \<Rightarrow> ('p, 'r) GatewayServer \<times> (string \<times> 'r frame) list" where
  "watchdog_tick now_ms g =
     (let late = concat (map (\<lambda>(conn_id, c). map (\<lambda>(req_id, _). (conn_id, req_id))
            (List.filter (\<lambda>(_, p). timed_out now_ms g p) (cc_pending_requests c))) (gs_connections g));
          g1 = g\<lparr>gs_connections := map (\<lambda>(conn_id, c). (conn_id, c\<lparr>cc_pending_requests :=
            List.filter (\<lambda>(_, p). \<not> timed_out now_ms g p) (cc_pending_requests c)\<rparr>)) (gs_connections g)\<rparr>
      in (g1, concat (map (\<lambda>(conn_id, req_id).
            SendResponseTo conn_id req_id (Inr (RpcError_ToJson
              \<lparr>er_code = ''REQUEST_TIMEOUT'',
               er_message = ''Request timed out after '' @ to_string (gs_request_timeout_ms g) @ ''ms'',
               er_retryable = True, er_retry_after_ms = 1000\<rparr>)) g1) late)))"

definition AbortRequest :: "string \<Rightarrow> string \<Rightarrow> ('p, 'r) GatewayServer
    \<Rightarrow> ('p, 'r) GatewayServer \<times> (string \<times> 'r frame) list \<times> bool" where
  "AbortRequest connection_id request_id g =
     (case map_of (gs_active_requests g) request_id of
        None \<Rightarrow> (g, [], False)
      | Some owner \<Rightarrow>
          if owner \<noteq> connection_id then (g, [], False)
          else (g\<lparr>gs_active_requests := AList.delete request_id (gs_active_requests g)\<rparr>,
                SendEventTo connection_id (AbortedEvent request_id) g, True))"

definition slow_requests :: "int \<Rightarrow> ('p, 'r) GatewayServer \<Rightarrow> int" where
  "slow_requests now_ms g =
     int (length (List.filter (\<lambda>p. \<not> pr_expect_final p
        \<and> cdiv (gs_request_timeout_ms g * gs_health_timeout_threshold_percent g) 100 < now_ms - pr_created_at p)
       (concat (map (\<lambda>(_, c). map snd (cc_pending_requests c)) (gs_connections g)))))"

definition ProbeHealth :: "int \<Rightarrow> ('p, 'r) GatewayServer \<Rightarrow> ('p, 'r) GatewayServer \<times> HealthStatus" where
  "ProbeHealth now_ms g0 =
     (let g = g0\<lparr>gs_last_health_check_ms := now_ms\<rparr>
      in if \<not> gs_running g then
           (g\<lparr>gs_health_status := kUnreachable, gs_degraded_check_count := 0\<rparr>, kUnreachable)
         else if gs_health_max_timeout_count g < slow_requests now_ms g then
           (let g1 = g\<lparr>gs_degraded_check_count := gs_degraded_check_count g + 1\<rparr>
            in if gs_health_degraded_check_count g1 \<le> gs_degraded_check_count g1
               then (g1\<lparr>gs_health_status := kDegraded\<rparr>, kDegraded)
               else (g1, gs_health_status g1))
         else
           (let g1 = (if 0 < gs_degraded_check_count g
                      then g\<lparr>gs_degraded_check_count := gs_degraded_check_count g - 1\<rparr> else g);
                g2 = (if gs_health_status g1 = kDegraded \<and> gs_degraded_check_count g1 = 0
                      then g1\<lparr>gs_health_status := kHealthy\<rparr> else g1)
            in (g2, gs_health_status g2)))"

section \<open>Runs\<close>

datatype gateway_event =
    GOpen time string
  | GClose string
  | GMessage time time string string
  | GTick int
  | GAbort string string
  | GProbe int
  | GClear string

fun gateway_next ::
  "(string \<Rightarrow> 'p incoming option) \<Rightarrow> ('p \<Rightarrow> HelloMembers option)
     \<Rightarrow> ('p, 'r) GatewayServer \<Rightarrow> gateway_event \<Rightarrow> ('p, 'r) GatewayServer" where
  "gateway_next parse hello_of g (GOpen wall c) = on_open wall c g"
| "gateway_next parse hello_of g (GClose c) = on_close c g"
| "gateway_next parse hello_of g (GMessage now wall c data) = fst (handle_message parse hello_of now wall c data g)"
| "gateway_next parse hello_of g (GTick now_ms) = fst (watchdog_tick now_ms g)"
| "gateway_next parse hello_of g (GAbort c i) = fst (AbortRequest c i g)"
| "gateway_next parse hello_of g (GProbe now_ms) = fst (ProbeHealth now_ms g)"
| "gateway_next parse hello_of g (GClear i) = ClearAuthLockout i g"

text \<open>Whether a message is a hello with the given token.\<close>

definition presents_token ::
  "(string \<Rightarrow> 'p incoming option) \<Rightarrow> ('p \<Rightarrow> HelloMembers option) \<Rightarrow> string \<Rightarrow> string \<Rightarrow> bool" where
  "presents_token parse hello_of tok data =
     (case parse (SanitizeInput data) of
        Some (RequestFrame r) \<Rightarrow>
          (rq_method r = ''connect.hello'' \<or> rq_method r = ''connect'') \<and>
          (case hello_of (rq_params r) of
             None \<Rightarrow> False
           | Some m \<Rightarrow> ch_auth_token (ConnectHello_FromJson m) = tok)
      | _ \<Rightarrow> False)"

text \<open>The connections that have shown the token since they were opened.\<close>

fun shown ::
  "(string \<Rightarrow> 'p incoming option) \<Rightarrow> ('p \<Rightarrow> HelloMembers option) \<Rightarrow> string
     \<Rightarrow> string set \<Rightarrow> gateway_event \<Rightarrow> string set" where
  "shown parse hello_of tok S (GOpen wall c) = S - {c}"
| "shown parse hello_of tok S (GMessage now wall c data) =
     (if presents_token parse hello_of tok data then insert c S else S)"
| "shown parse hello_of tok S _ = S"

text \<open>What the operations leave alone.\<close>

lemma check_token_frame:
  "check_token t c h g = (g1, b) \<Longrightarrow> gs_connections g1 = gs_connections g \<and> gs_auth_mode g1 = gs_auth_mode g
     \<and> gs_expected_token g1 = gs_expected_token g \<and> gs_handlers g1 = gs_handlers g
     \<and> gs_rbac_checker g1 = gs_rbac_checker g \<and> gs_rate_limiter g1 = gs_rate_limiter g"
  by (auto simp: check_token_def Let_def split: if_splits)

lemma check_token_passed:
  "check_token t c h g = (g1, b) \<Longrightarrow> b \<Longrightarrow> gs_auth_mode g = ''token'' \<Longrightarrow> gs_expected_token g \<noteq> []
     \<Longrightarrow> ch_auth_token h = gs_expected_token g"
  by (auto simp: check_token_def Let_def split: if_splits)

lemma handle_hello_cases:
  assumes "handle_hello t c h oc g = (g1, b)"
  shows "gs_auth_mode g1 = gs_auth_mode g \<and> gs_expected_token g1 = gs_expected_token g \<and> gs_handlers g1 = gs_handlers g
     \<and> gs_rbac_checker g1 = gs_rbac_checker g \<and> gs_rate_limiter g1 = gs_rate_limiter g
     \<and> (if b then (\<exists>cl. map_of (gs_connections g) c = Some cl
            \<and> gs_connections g1 = AList.update c (authenticate c h oc cl) (gs_connections g)
            \<and> (gs_auth_mode g = ''token'' \<longrightarrow> gs_expected_token g \<noteq> [] \<longrightarrow> ch_auth_token h = gs_expected_token g))
        else gs_connections g1 = gs_connections g)"
proof -
  obtain g0 p where ct: "check_token t c h g = (g0, p)" by fastforce
  note frame = check_token_frame [OF ct]
  show ?thesis
  proof (cases p)
    case False
    with assms ct frame show ?thesis by (auto simp: handle_hello_def)
  next
    case True
    with ct have tok: "gs_auth_mode g = ''token'' \<Longrightarrow> gs_expected_token g \<noteq> [] \<Longrightarrow> ch_auth_token h = gs_expected_token g"
      using check_token_passed by blast
    show ?thesis
      using assms ct True frame tok by (auto simp: handle_hello_def split: option.splits)
  qed
qed

text \<open>How a request changes the connections: at most the pending requests of its own.\<close>

definition same_clients :: "(string, ClientConnection) umap \<Rightarrow> (string, ClientConnection) umap \<Rightarrow> bool" where
  "same_clients m m' \<longleftrightarrow> (\<forall>k. map_option (\<lambda>c. c\<lparr>cc_pending_requests := []\<rparr>) (map_of m' k)
      = map_option (\<lambda>c. c\<lparr>cc_pending_requests := []\<rparr>) (map_of m k))"

lemma same_clients_refl [simp]: "same_clients m m"
  by (simp add: same_clients_def)

lemma same_clients_trans: "same_clients a b \<Longrightarrow> same_clients b c \<Longrightarrow> same_clients a c"
  by (simp add: same_clients_def)

lemma same_clients_update:
  "map_of m k = Some c \<Longrightarrow> same_clients m (AList.update k (c\<lparr>cc_pending_requests := p\<rparr>) m)"
  by (simp add: same_clients_def store_simps)

lemma same_clients_find:
  assumes "same_clients m m'" and "map_of m' k = Some c'"
  shows "\<exists>c. map_of m k = Some c \<and> cc_authenticated c' = cc_authenticated c \<and> cc_scopes c' = cc_scopes c"
proof -
  have "map_option (\<lambda>c. c\<lparr>cc_pending_requests := []\<rparr>) (map_of m k) = Some (c'\<lparr>cc_pending_requests := []\<rparr>)"
    using assms(1,2) unfolding same_clients_def by (metis option.simps(9))
  then obtain c where "map_of m k = Some c" "c\<lparr>cc_pending_requests := []\<rparr> = c'\<lparr>cc_pending_requests := []\<rparr>"
    by auto
  then show ?thesis
    by (metis (no_types) ClientConnection.select_convs(3,8) ClientConnection.surjective ClientConnection.update_convs(10))
qed

text \<open>The settings a request, a tick, an abort or a probe never touches.\<close>

definition same_settings :: "('p, 'r) GatewayServer \<Rightarrow> ('p, 'r) GatewayServer \<Rightarrow> bool" where
  "same_settings g g' \<longleftrightarrow> gs_auth_mode g' = gs_auth_mode g \<and> gs_expected_token g' = gs_expected_token g
     \<and> gs_handlers g' = gs_handlers g \<and> gs_rbac_checker g' = gs_rbac_checker g"

lemma same_settings_refl [simp]: "same_settings g g"
  by (simp add: same_settings_def)

lemma same_settings_trans: "same_settings a b \<Longrightarrow> same_settings b c \<Longrightarrow> same_settings a c"
  by (simp add: same_settings_def)

lemma admit_request_frame:
  assumes "admit_request now wall c r g = (g1, a)"
  shows "same_settings g g1" and "same_clients (gs_connections g) (gs_connections g1)"
  using assms
  by (auto simp: admit_request_def same_settings_def Let_def same_clients_update
      split: option.splits if_splits prod.splits bool.splits)

lemma remove_pending_frame:
  "same_settings g (remove_pending c i g)" "same_clients (gs_connections g) (gs_connections (remove_pending c i g))"
  "gs_rate_limiter (remove_pending c i g) = gs_rate_limiter g"
  by (auto simp: remove_pending_def same_settings_def same_clients_update split: option.splits)

lemma handle_rpc_request_frame:
  assumes "handle_rpc_request now wall c r g = (g1, f)"
  shows "same_settings g g1" and "same_clients (gs_connections g) (gs_connections g1)"
proof -
  obtain g2 a where ad: "admit_request now wall c r g = (g2, a)" by fastforce
  note fr = admit_request_frame [OF ad]
  from assms ad consider "g1 = g2" | "g1 = remove_pending c (rq_id r) g2"
    by (cases a) (auto simp: handle_rpc_request_def finish_request_def)
  then have "same_settings g g1 \<and> same_clients (gs_connections g) (gs_connections g1)"
  proof cases
    case 2
    with fr show ?thesis
      using remove_pending_frame(1,2) same_settings_trans same_clients_trans by blast
  qed (use fr in simp)
  then show "same_settings g g1" "same_clients (gs_connections g) (gs_connections g1)" by simp_all
qed

text \<open>A request is answered with an error unless its connection may make it.\<close>

fun is_error :: "'r frame \<Rightarrow> bool" where
  "is_error (ErrorResponse i e) = True"
| "is_error f = False"

lemma admitted_conditions:
  assumes "admit_request now wall c r g = (g1, Admitted h cl)"
  shows "map_of (gs_handlers g) (rq_method r) = Some h
     \<and> (\<exists>cl0. map_of (gs_connections g) c = Some cl0
          \<and> (gs_auth_mode g = ''none'' \<or> cc_authenticated cl0)
          \<and> (\<forall>rules. gs_rbac_checker g = Some rules \<longrightarrow> cc_authenticated cl0
                \<longrightarrow> IsMethodAllowed rules (rq_method r) (cc_scopes cl0)))
     \<and> (\<forall>rl. gs_rate_limiter g = Some rl \<longrightarrow> snd (Allow now c rl))"
  using assms
  by (auto simp: admit_request_def Let_def split: option.splits if_splits prod.splits bool.splits)

lemma refused_error:
  "admit_request now wall c r g = (g1, Refused f) \<Longrightarrow> is_error f"
  by (auto simp: admit_request_def failure_def Let_def split: option.splits if_splits prod.splits bool.splits)

section \<open>Authentication\<close>

definition token_inv :: "string \<Rightarrow> ('p, 'r) GatewayServer \<times> string set \<Rightarrow> bool" where
  "token_inv tok st \<longleftrightarrow> gs_auth_mode (fst st) = ''token'' \<and> gs_expected_token (fst st) = tok
     \<and> (\<forall>c cl. map_of (gs_connections (fst st)) c = Some cl \<longrightarrow> cc_authenticated cl \<longrightarrow> c \<in> snd st)"

definition watched_next ::
  "(string \<Rightarrow> 'p incoming option) \<Rightarrow> ('p \<Rightarrow> HelloMembers option) \<Rightarrow> string
     \<Rightarrow> ('p, 'r) GatewayServer \<times> string set \<Rightarrow> gateway_event \<Rightarrow> ('p, 'r) GatewayServer \<times> string set" where
  "watched_next parse hello_of tok st e =
     (gateway_next parse hello_of (fst st) e, shown parse hello_of tok (snd st) e)"

lemma token_inv_same:
  assumes "token_inv tok (g, S)" and "same_settings g g'" and "same_clients (gs_connections g) (gs_connections g')"
    and "S \<subseteq> S'"
  shows "token_inv tok (g', S')"
proof -
  have "c \<in> S'" if f: "map_of (gs_connections g') c = Some cl" and a: "cc_authenticated cl" for c cl
  proof -
    from same_clients_find [OF assms(3) f] obtain cl0 where
      "map_of (gs_connections g) c = Some cl0" "cc_authenticated cl0 = cc_authenticated cl" by auto
    with a assms(1,4) show ?thesis by (auto simp: token_inv_def)
  qed
  with assms(1,2) show ?thesis by (simp add: token_inv_def same_settings_def)
qed

lemma watchdog_clients: "same_clients (gs_connections g) (gs_connections (fst (watchdog_tick t g)))"
proof -
  have "map_of (map (\<lambda>(k, c). (k, f c)) m) k = map_option f (map_of m k)" for f :: "ClientConnection \<Rightarrow> ClientConnection" and m and k :: string
    by (induction m) auto
  then show ?thesis by (simp add: same_clients_def watchdog_tick_def Let_def option.map_comp comp_def)
qed

text \<open>The request in a message, when it is one that goes through the gate.\<close>

definition gated_request :: "(string \<Rightarrow> 'p incoming option) \<Rightarrow> string \<Rightarrow> 'p RpcRequest option" where
  "gated_request parse data =
     (case parse (SanitizeInput data) of
        Some (RequestFrame r) \<Rightarrow>
          if rq_method r = ''connect.hello'' \<or> rq_method r = ''connect'' then None else Some r
      | _ \<Rightarrow> None)"

text \<open>The cases of a message: nothing, a hello, or a request.\<close>

lemma handle_message_cases:
  assumes "handle_message parse hello_of now wall c data g = (g', fs)"
  obtains (ignored) "gated_request parse data = None" "fs = []" "same_settings g g'" "gs_connections g' = gs_connections g"
      "gs_rate_limiter g' = gs_rate_limiter g"
  | (refused) i where "gated_request parse data = None" "fs = [failure i ''Authentication failed'' ''AUTH_FAILED'']" "same_settings g g'"
      "gs_connections g' = gs_connections g" "gs_rate_limiter g' = gs_rate_limiter g"
  | (hello) r m cl oc i sn where "gated_request parse data = None" "parse (SanitizeInput data) = Some (RequestFrame r)"
      "rq_method r = ''connect.hello'' \<or> rq_method r = ''connect''" "hello_of (rq_params r) = Some m"
      "map_of (gs_connections g) c = Some cl" "same_settings g g'" "gs_rate_limiter g' = gs_rate_limiter g"
      "gs_connections g' = AList.update c (authenticate c (ConnectHello_FromJson m) oc cl) (gs_connections g)"
      "gs_auth_mode g = ''token'' \<longrightarrow> gs_expected_token g \<noteq> [] \<longrightarrow>
         ch_auth_token (ConnectHello_FromJson m) = gs_expected_token g"
      "fs = [HelloOk i c oc sn]"
  | (request) r g1 g2 f where "gated_request parse data = Some r"
      "handle_rpc_request now wall c r g1 = (g2, f)" "fs = [f]" "same_settings g g1" "same_settings g2 g'"
      "gs_connections g1 = gs_connections g" "gs_connections g' = gs_connections g2"
      "gs_rate_limiter g1 = gs_rate_limiter g" "gs_rate_limiter g' = gs_rate_limiter g2"
proof -
  consider "parse (SanitizeInput data) = None \<or> parse (SanitizeInput data) = Some OtherFrame"
    | r where "parse (SanitizeInput data) = Some (RequestFrame r)"
    by (metis incoming.exhaust option.exhaust)
  then show ?thesis
  proof cases
    case 1
    with assms have "g' = g" "fs = []" "gated_request parse data = None"
      by (auto simp: handle_message_def gated_request_def)
    then show ?thesis by (intro ignored) (simp_all add: same_settings_def)
  next
    case (2 r)
    obtain routes md where am: "AttachMetadata wall ''websocket'' c False (gs_route_manager g) = (routes, md)" by fastforce
    let ?g1 = "g\<lparr>gs_route_manager := routes,
        gs_active_requests := AList.update (rq_id r) c (gs_active_requests g)\<rparr>"
    show ?thesis
    proof (cases "rq_method r = ''connect.hello'' \<or> rq_method r = ''connect''")
      case False
      obtain g2 f where rr: "handle_rpc_request now wall c r ?g1 = (g2, f)" by fastforce
      with assms 2 am False have g': "g' = g2\<lparr>gs_active_requests := AList.delete (rq_id r) (gs_active_requests g2)\<rparr>"
        and fs: "fs = [f]" by (auto simp: handle_message_def Let_def)
      show ?thesis
        by (rule request [OF _ rr fs]) (use 2 False g' in \<open>simp_all add: same_settings_def gated_request_def\<close>)
    next
      case True
      with 2 have gr: "gated_request parse data = None" by (simp add: gated_request_def)
      show ?thesis
      proof (cases "hello_of (rq_params r)")
        case None
        with assms 2 am True have "g' = ?g1" "fs = []" by (auto simp: handle_message_def Let_def)
        then show ?thesis by (intro ignored) (simp_all add: same_settings_def gr)
      next
        case (Some m)
        let ?oc = "rq_method r = ''connect''" and ?h = "ConnectHello_FromJson m"
        obtain g2 b where hh: "handle_hello (to_msecs wall) c ?h ?oc ?g1 = (g2, b)" by fastforce
        note hc = handle_hello_cases [OF hh]
        show ?thesis
        proof (cases b)
          case False
          with assms 2 am True Some hh have "fs = [failure (rq_id r) ''Authentication failed'' ''AUTH_FAILED'']"
            and "gs_connections g' = gs_connections g2" "same_settings g2 g'" "gs_rate_limiter g' = gs_rate_limiter g2"
            by (auto simp: handle_message_def Let_def same_settings_def)
          with False hc gr show ?thesis by (intro refused) (auto simp: same_settings_def)
        next
          case True': True
          with assms 2 am True Some hh have fs: "fs = [HelloOk (rq_id r) c ?oc (BuildSnapshot g2)]"
            and g': "gs_connections g' = gs_connections g2" "same_settings g2 g'" "gs_rate_limiter g' = gs_rate_limiter g2"
            by (auto simp: handle_message_def Let_def same_settings_def)
          from hc True' obtain cl where "map_of (gs_connections g) c = Some cl"
            "gs_connections g2 = AList.update c (authenticate c ?h ?oc cl) (gs_connections g)"
            "gs_auth_mode g = ''token'' \<longrightarrow> gs_expected_token g \<noteq> [] \<longrightarrow> ch_auth_token ?h = gs_expected_token g"
            "same_settings g g2" "gs_rate_limiter g2 = gs_rate_limiter g"
            by (auto simp: same_settings_def)
          with g' show ?thesis
            by (intro hello [OF gr 2 True Some _ _ _ _ _ fs]) (auto simp: same_settings_def)
        qed
      qed
    qed
  qed
qed

lemma watched_message:
  assumes inv: "token_inv tok (g, S)" and tok: "tok \<noteq> []"
    and m: "handle_message parse hello_of now wall c data g = (g', fs)"
  shows "token_inv tok (g', shown parse hello_of tok S (GMessage now wall c data))"
proof -
  let ?S = "shown parse hello_of tok S (GMessage now wall c data)"
  have S: "S \<subseteq> ?S" by auto
  from m show ?thesis
  proof (cases rule: handle_message_cases)
    case ignored
    with token_inv_same [OF inv _ _ S] show ?thesis by simp
  next
    case refused
    with token_inv_same [OF inv _ _ S] show ?thesis by simp
  next
    case (hello r m cl oc i sn)
    have set: "gs_auth_mode g = ''token''" "gs_expected_token g = tok" using inv by (simp_all add: token_inv_def)
    with hello tok have "presents_token parse hello_of tok data" by (simp add: presents_token_def)
    with inv hello set show ?thesis
      by (auto simp: token_inv_def same_settings_def store_simps split: if_splits)
  next
    case (request r g1 g2 f)
    have "same_settings g g'"
      using request handle_rpc_request_frame(1) [OF request(2)] same_settings_trans by metis
    moreover have "same_clients (gs_connections g) (gs_connections g')"
      using request handle_rpc_request_frame(2) [OF request(2)] by simp
    ultimately show ?thesis using token_inv_same [OF inv _ _ S] by blast
  qed
qed

lemma watched_inv:
  assumes "token_inv tok st" and "tok \<noteq> []"
  shows "token_inv tok (watched_next parse hello_of tok st e)"
proof -
  obtain g S where st: "st = (g, S)" by fastforce
  have inv: "token_inv tok (g, S)" using assms(1) st by simp
  show ?thesis
  proof (cases e)
    case (GMessage now wall c data)
    obtain g' fs where m: "handle_message parse hello_of now wall c data g = (g', fs)" by fastforce
    from watched_message [OF inv assms(2) m] m show ?thesis
      by (simp add: watched_next_def st GMessage)
  next
    case (GTick t)
    have "same_settings g (fst (watchdog_tick t g))"
      by (simp add: same_settings_def watchdog_tick_def Let_def)
    with token_inv_same [OF inv _ watchdog_clients order_refl] show ?thesis
      by (simp add: watched_next_def st GTick)
  next
    case (GAbort c i)
    have "same_settings g (fst (AbortRequest c i g)) \<and> gs_connections (fst (AbortRequest c i g)) = gs_connections g"
      by (simp add: same_settings_def AbortRequest_def split: option.splits)
    with token_inv_same [OF inv _ _ order_refl] show ?thesis by (simp add: watched_next_def st GAbort)
  next
    case (GProbe t)
    have "same_settings g (fst (ProbeHealth t g)) \<and> gs_connections (fst (ProbeHealth t g)) = gs_connections g"
      by (simp add: same_settings_def ProbeHealth_def Let_def)
    with token_inv_same [OF inv _ _ order_refl] show ?thesis by (simp add: watched_next_def st GProbe)
  qed (use inv in \<open>auto simp: st watched_next_def token_inv_def on_open_def on_close_def
      ClientConnection_new_def ClearAuthLockout_def store_simps split: if_splits\<close>)
qed

interpretation gateway: guarded_machine
  "\<lambda>st. gs_auth_mode (fst st) = ''token'' \<and> gs_expected_token (fst st) = tok \<and> tok \<noteq> []
     \<and> gs_connections (fst st) = [] \<and> snd st = {}"
  "\<lambda>_ _. True" "watched_next parse hello_of tok" "\<lambda>st. token_inv tok st \<and> tok \<noteq> []"
  for parse hello_of tok
proof
  show "token_inv tok st \<and> tok \<noteq> []"
    if "gs_auth_mode (fst st) = ''token'' \<and> gs_expected_token (fst st) = tok \<and> tok \<noteq> []
      \<and> gs_connections (fst st) = [] \<and> snd st = {}" for st
    using that by (simp add: token_inv_def)
qed (simp add: watched_inv)

lemma watched_run:
  "foldl (watched_next parse hello_of tok) (g, S) es =
     (foldl (gateway_next parse hello_of) g es, foldl (shown parse hello_of tok) S es)"
  by (induction es arbitrary: g S) (simp_all add: watched_next_def)

text \<open>
  Claim C4. With a token configured, and in every run of connections, messages, watchdog ticks, aborts,
  probes and lock-out resets: a message on a connection that has not shown the token since it
  was opened is answered with nothing but errors. No handler is called for it.
\<close>

theorem authentication_required:
  assumes "gs_auth_mode g0 = ''token''" and "gs_expected_token g0 = tok" and "tok \<noteq> []" and "gs_connections g0 = []"
    and "c \<notin> foldl (shown parse hello_of tok) {} (es @ [GMessage now wall c data])"
  shows "list_all is_error (snd (handle_message parse hello_of now wall c data
     (foldl (gateway_next parse hello_of) g0 es)))"
proof -
  let ?g = "foldl (gateway_next parse hello_of) g0 es" and ?S = "foldl (shown parse hello_of tok) {} es"
  have "gateway.enabled_run parse hello_of tok st es'" for st es' by (induction es' arbitrary: st) simp_all
  from gateway.inv_from_start [OF _ this] assms(1-4)
  have inv: "token_inv tok (?g, ?S)"
    by (metis (no_types, lifting) fst_conv snd_conv watched_run)
  have no: "c \<notin> ?S" "\<not> presents_token parse hello_of tok data" using assms(5) by (auto split: if_splits)
  obtain g' fs where m: "handle_message parse hello_of now wall c data ?g = (g', fs)" by fastforce
  from m have "list_all is_error fs"
  proof (cases rule: handle_message_cases)
    case (hello r m cl oc i sn)
    have "gs_auth_mode ?g = ''token''" "gs_expected_token ?g = tok" using inv by (simp_all add: token_inv_def)
    with hello assms(3) have "presents_token parse hello_of tok data" by (simp add: presents_token_def)
    with no show ?thesis by simp
  next
    case (request r g1 g2 f)
    have "\<nexists>g3 h cl. admit_request now wall c r g1 = (g3, Admitted h cl)"
    proof (intro notI, elim exE)
      fix g3 h cl assume "admit_request now wall c r g1 = (g3, Admitted h cl)"
      from admitted_conditions [OF this] request(4,6) inv
      obtain cl0 where "map_of (gs_connections ?g) c = Some cl0" "cc_authenticated cl0"
        by (auto simp: token_inv_def same_settings_def)
      with inv no(1) show False by (auto simp: token_inv_def)
    qed
    then obtain g3 where "admit_request now wall c r g1 = (g3, Refused f)"
      using request(2) by (auto simp: handle_rpc_request_def split: prod.splits admission.splits)
    with request(3) refused_error show ?thesis by fastforce
  qed (simp_all add: failure_def)
  with m show ?thesis by simp
qed

section \<open>The gate of the requests and the rate limiter\<close>

text \<open>The checks before the limiter.\<close>

definition passes_gate :: "string \<Rightarrow> 'p RpcRequest \<Rightarrow> ('p, 'r) GatewayServer \<Rightarrow> bool" where
  "passes_gate c r g \<longleftrightarrow> map_of (gs_handlers g) (rq_method r) \<noteq> None \<and>
     (case map_of (gs_connections g) c of None \<Rightarrow> False
      | Some cl \<Rightarrow> (gs_auth_mode g = ''none'' \<or> cc_authenticated cl) \<and>
          (case gs_rbac_checker g of None \<Rightarrow> True
           | Some rules \<Rightarrow> \<not> cc_authenticated cl \<or> IsMethodAllowed rules (rq_method r) (cc_scopes cl)))"

definition request_ops :: "time \<Rightarrow> string \<Rightarrow> RateLimiter \<Rightarrow> (time \<times> limiter_op) list" where
  "request_ops now c rl = (if snd (Allow now c rl) then [(now, LAllow c)] else [(now, LAllow c), (now, LRetryAfter c)])"

lemma admit_request_limiter:
  assumes "gs_rate_limiter g = Some rl" and "admit_request now wall c r g = (g1, a)"
  shows "if passes_gate c r g
     then gs_rate_limiter g1 = Some (foldl (\<lambda>s e. fst (limiter_step s e)) rl (request_ops now c rl))
        \<and> ((\<exists>h cl. a = Admitted h cl) \<longleftrightarrow> snd (Allow now c rl))
     else gs_rate_limiter g1 = Some rl \<and> (\<nexists>h cl. a = Admitted h cl)"
  using assms
  by (auto simp: admit_request_def passes_gate_def request_ops_def Let_def
      split: option.splits if_splits prod.splits bool.splits)

fun event_ops :: "(string \<Rightarrow> 'p incoming option) \<Rightarrow> ('p, 'r) GatewayServer \<Rightarrow> gateway_event \<Rightarrow> (time \<times> limiter_op) list" where
  "event_ops parse g (GMessage now wall c data) =
     (case (gated_request parse data, gs_rate_limiter g) of
        (Some r, Some rl) \<Rightarrow> if passes_gate c r g then request_ops now c rl else []
      | _ \<Rightarrow> [])"
| "event_ops parse g _ = []"

fun event_time :: "gateway_event \<Rightarrow> time option" where
  "event_time (GMessage now wall c data) = Some now"
| "event_time _ = None"

text \<open>The requests of a connection whose handler was called, by their time.\<close>

definition handled :: "(string \<Rightarrow> 'p incoming option) \<Rightarrow> string \<Rightarrow> ('p, 'r) GatewayServer \<Rightarrow> gateway_event \<Rightarrow> time list" where
  "handled parse c g e =
     (case e of
        GMessage now wall c' data \<Rightarrow>
          (case gated_request parse data of
             Some r \<Rightarrow> (case snd (admit_request now wall c' r g) of
                          Admitted h cl \<Rightarrow> if c' = c then [now] else [] | Refused f \<Rightarrow> [])
           | None \<Rightarrow> [])
      | _ \<Rightarrow> [])"

fun handled_times ::
  "(string \<Rightarrow> 'p incoming option) \<Rightarrow> ('p \<Rightarrow> HelloMembers option) \<Rightarrow> string
     \<Rightarrow> ('p, 'r) GatewayServer \<Rightarrow> gateway_event list \<Rightarrow> time list" where
  "handled_times parse hello_of c g [] = []"
| "handled_times parse hello_of c g (e # es) =
     handled parse c g e @ handled_times parse hello_of c (gateway_next parse hello_of g e) es"

fun run_ops ::
  "(string \<Rightarrow> 'p incoming option) \<Rightarrow> ('p \<Rightarrow> HelloMembers option)
     \<Rightarrow> ('p, 'r) GatewayServer \<Rightarrow> gateway_event list \<Rightarrow> (time \<times> limiter_op) list" where
  "run_ops parse hello_of g [] = []"
| "run_ops parse hello_of g (e # es) =
     event_ops parse g e @ run_ops parse hello_of (gateway_next parse hello_of g e) es"

lemma handle_rpc_request_limiter:
  assumes "gs_rate_limiter g = Some rl"
  shows "gs_rate_limiter (fst (handle_rpc_request now wall c r g)) =
     Some (if passes_gate c r g then foldl (\<lambda>s e. fst (limiter_step s e)) rl (request_ops now c rl) else rl)"
proof -
  obtain g1 a where ad: "admit_request now wall c r g = (g1, a)" by fastforce
  have "gs_rate_limiter (fst (handle_rpc_request now wall c r g)) = gs_rate_limiter g1"
    by (cases a) (simp_all add: handle_rpc_request_def ad finish_request_def remove_pending_frame(3))
  then show ?thesis using admit_request_limiter [OF assms ad] by (auto split: if_splits)
qed

lemma event_limiter:
  assumes "gs_rate_limiter g = Some rl"
  shows "gs_rate_limiter (gateway_next parse hello_of g e)
     = Some (foldl (\<lambda>s e. fst (limiter_step s e)) rl (event_ops parse g e))"
proof (cases e)
  case (GMessage now wall c data)
  obtain g' fs where m: "handle_message parse hello_of now wall c data g = (g', fs)" by fastforce
  from m have "gs_rate_limiter g' = Some (foldl (\<lambda>s e. fst (limiter_step s e)) rl (event_ops parse g e))"
  proof (cases rule: handle_message_cases)
    case ignored
    with ignored assms show ?thesis by (simp add: GMessage)
  next
    case refused
    with refused assms show ?thesis by (simp add: GMessage)
  next
    case hello
    with hello assms show ?thesis by (simp add: GMessage)
  next
    case (request r g1 g2 f)
    then have "passes_gate c r g1 = passes_gate c r g"
      unfolding passes_gate_def same_settings_def by (elim conjE) (simp only:)
    with request assms handle_rpc_request_limiter [of g1 rl now wall c r] show ?thesis by (simp add: GMessage)
  qed
  with m show ?thesis by (simp add: GMessage)
qed (use assms in \<open>simp_all add: on_open_def on_close_def watchdog_tick_def AbortRequest_def ProbeHealth_def
      ClearAuthLockout_def Let_def split: option.splits\<close>)

lemma event_ops_times: "(t, a) \<in> set (event_ops parse g e) \<Longrightarrow> event_time e = Some t \<and> (\<forall>k. a \<noteq> LResetKey k)"
  by (cases e) (auto simp: request_ops_def split: option.splits if_splits)

lemma admit_same:
  assumes "gs_connections g1 = gs_connections g" and "same_settings g g1" and "gs_rate_limiter g1 = gs_rate_limiter g"
  shows "snd (admit_request now wall c r g1) = snd (admit_request now wall c r g)"
proof -
  have "gs_auth_mode g1 = gs_auth_mode g" "gs_handlers g1 = gs_handlers g" "gs_rbac_checker g1 = gs_rbac_checker g"
    using assms(2) by (simp_all add: same_settings_def)
  with assms(1,3) show ?thesis
    by (simp add: admit_request_def Let_def split: option.splits prod.splits bool.splits)
qed

lemma granted_append: "granted k rl (xs @ ys) = granted k rl xs @ granted k (foldl (\<lambda>s e. fst (limiter_step s e)) rl xs) ys"
  by (induction xs arbitrary: rl) auto

lemma handled_granted:
  assumes "gs_rate_limiter g = Some rl"
  shows "handled parse c g e = granted c rl (event_ops parse g e)"
proof (cases e)
  case (GMessage now wall c' data)
  show ?thesis
  proof (cases "gated_request parse data")
    case None
    then show ?thesis by (simp add: GMessage handled_def)
  next
    case (Some r)
    obtain g1 a where ad: "admit_request now wall c' r g = (g1, a)" by fastforce
    from admit_request_limiter [OF assms ad] have
      "(\<exists>h cl. a = Admitted h cl) \<longleftrightarrow> passes_gate c' r g \<and> snd (Allow now c' rl)" by (auto split: if_splits)
    then show ?thesis
      using assms Some ad
      by (cases a) (auto simp: GMessage handled_def request_ops_def)
  qed
qed (simp_all add: handled_def)

lemma handled_times_granted:
  assumes "gs_rate_limiter g = Some rl"
  shows "handled_times parse hello_of c g es = granted c rl (run_ops parse hello_of g es)"
  using assms
proof (induction es arbitrary: g rl)
  case (Cons e es)
  from Cons.IH [OF event_limiter [OF Cons.prems]] handled_granted [OF Cons.prems] show ?case
    by (simp add: granted_append)
qed simp

lemma run_ops_times: "set (map fst (run_ops parse hello_of g es)) \<subseteq> set (List.map_filter event_time es)"
proof (induction es arbitrary: g)
  case (Cons e es)
  have "fst ` set (event_ops parse g e) \<subseteq> set (List.map_filter event_time [e])"
    using event_ops_times [of _ _ parse g e] by (auto simp: List.map_filter_simps)
  with Cons.IH [of "gateway_next parse hello_of g e"] show ?case
    by (auto simp: List.map_filter_simps split: option.splits)
qed simp

lemma run_ops_sorted:
  "sorted (List.map_filter event_time es) \<Longrightarrow> sorted (map fst (run_ops parse hello_of g es))"
proof (induction es arbitrary: g)
  case (Cons e es)
  let ?r = "run_ops parse hello_of (gateway_next parse hello_of g e) es"
  have rest: "sorted (map fst ?r)" using Cons by (simp add: List.map_filter_simps split: option.splits)
  show ?case
  proof (cases "event_time e")
    case None
    then have "event_ops parse g e = []" by (cases e) auto
    with rest show ?thesis by simp
  next
    case (Some t)
    have "set (map fst (event_ops parse g e)) \<subseteq> {t}"
      using event_ops_times [of _ _ parse g e] Some by auto
    moreover have "\<forall>u \<in> set (map fst ?r). t \<le> u"
      using Cons.prems Some run_ops_times [of parse hello_of "gateway_next parse hello_of g e" es]
      by (auto simp: List.map_filter_simps)
    moreover have "sorted (map fst (event_ops parse g e))"
      by (cases e) (auto simp: request_ops_def split: option.splits)
    ultimately show ?thesis using rest by (auto simp: sorted_append)
  qed
qed simp

lemma run_ops_no_reset: "LResetKey k \<notin> snd ` set (run_ops parse hello_of g es)"
proof (induction es arbitrary: g)
  case (Cons e es)
  have "(t, LResetKey k) \<notin> set (event_ops parse g e)" for t using event_ops_times by blast
  then have "LResetKey k \<notin> snd ` set (event_ops parse g e)" by force
  with Cons show ?case by (simp add: image_Un)
qed simp

text \<open>
  Claim C15. The rate limit holds for the gateway as a whole: with a fresh limiter and a clock that does
  not go back, in every run of events, the requests of one connection that reach a handler are
  so spaced that every window contains at most \<open>max_requests\<close> of them, whatever other
  connections do and however often refused requests are repeated.
\<close>

theorem gateway_rate_limited:
  assumes "gs_rate_limiter g = Some (RateLimiter_init cfg)" and "sorted (List.map_filter event_time es)"
    and "ts = handled_times parse hello_of c g es" and "i + nat (rl_max_requests cfg) < length ts"
  shows "ts ! i + secs (rl_window_seconds cfg) < ts ! (i + nat (rl_max_requests cfg))"
proof -
  let ?ops = "run_ops parse hello_of g es"
  have ts: "ts = granted c (RateLimiter_init cfg) ?ops" using assms(1,3) handled_times_granted by blast
  have noreset: "LResetKey c \<notin> snd ` set ?ops"
    using run_ops_no_reset by blast
  have srt: "sorted (map fst ?ops)" by (rule run_ops_sorted [OF assms(2)])
  then obtain t0 where t0: "\<forall>e \<in> set ?ops. t0 \<le> fst e" by (cases ?ops) auto
  have "spaced (nat (rl_max_requests cfg)) (secs (rl_window_seconds cfg)) ([] @ granted c (RateLimiter_init cfg) ?ops)"
    using granted_spaced [of "RateLimiter_init cfg" ?ops t0 c "[]" "[]"] noreset t0 srt
    by (auto simp: RateLimiter_init_def window_of_def um_at_def spaced_def)
  with assms(4) ts show ?thesis by (simp add: spaced_def)
qed

end
