(* ===== verification/GatewayChecks.thy ===== *)
theory GatewayChecks
  imports Gateway
begin

text \<open>
  Further guarantees of the gateway server, and where they end: the scopes of a connection, the
  lock-out after failed hellos, requests that time out, and the health status.
\<close>

section \<open>Scopes\<close>

text \<open>
  The scopes of a connection are the ones its hello names, unchecked: the named ones, the
  defaults of the role when the list is empty, and read and write when there is no list. So a
  viewer that sends no list may change the configuration, and a client that names
  the administration scope may call every method.
\<close>

theorem scopes_self_chosen:
  assumes "handle_hello t c (ConnectHello_FromJson m) oc g = (g1, True)"
  shows "\<exists>cl. map_of (gs_connections g1) c = Some cl \<and> cc_authenticated cl
     \<and> cc_scopes cl = (case hj_scopes m of None \<Rightarrow> [kOperatorRead, kOperatorWrite]
          | Some ss \<Rightarrow> if ss = [] then DefaultScopes (RoleFromString (value_or (hj_role m) ''operator'')) else ss)
     \<and> (hj_scopes m = None \<longrightarrow> IsMethodAllowed init_default_rules ''config.set'' (cc_scopes cl))
     \<and> (hj_scopes m = Some [kOperatorAdmin] \<longrightarrow> IsMethodAllowed init_default_rules method (cc_scopes cl))"
proof -
  from handle_hello_cases [OF assms] obtain cl where
    "gs_connections g1 = AList.update c (authenticate c (ConnectHello_FromJson m) oc cl) (gs_connections g)"
    by auto
  then have "map_of (gs_connections g1) c = Some (authenticate c (ConnectHello_FromJson m) oc cl)"
    by (simp add: store_simps)
  moreover have "cc_scopes (authenticate c (ConnectHello_FromJson m) oc cl) =
      (case hj_scopes m of None \<Rightarrow> [kOperatorRead, kOperatorWrite]
        | Some ss \<Rightarrow> if ss = [] then DefaultScopes (RoleFromString (value_or (hj_role m) ''operator'')) else ss)"
    "cc_authenticated (authenticate c (ConnectHello_FromJson m) oc cl)"
    by (simp_all add: authenticate_def ConnectHello_FromJson_def value_or_def scope_names split: option.splits)
  moreover have "IsMethodAllowed init_default_rules ''config.set'' [kOperatorRead, kOperatorWrite]" by code_simp
  moreover have "IsMethodAllowed init_default_rules method [kOperatorAdmin]"
    by (auto simp: IsMethodAllowed_iff RequiredScopes_default read_scopes_def agent_scopes_def write_scopes_def)
  ultimately show ?thesis by auto
qed

definition demo_hello :: HelloMembers where
  "demo_hello = \<lparr>hj_minProtocol = None, hj_maxProtocol = None, hj_role = Some ''viewer'', hj_scopes = None,
     hj_client = None, hj_clientName = None, hj_clientVersion = None, hj_auth = Some (Some ''key''),
     hj_authToken = None, hj_device = None, hj_deviceId = None\<rparr>"

definition demo_server :: "(unit, unit) GatewayServer" where
  "demo_server = on_open 0 ''c1'' (SetRateLimiter (Some (RateLimiter_init demo_limits))
     (SetRbac (Some init_default_rules) (SetAuth ''token'' ''key''
       (RegisterHandler ''config.set'' (\<lambda>_ _. Inr ()) GatewayServer_init))))"

lemma demo_hello_accepted:
  "handle_hello 5 ''c1'' (ConnectHello_FromJson demo_hello) False demo_server
     = (fst (handle_hello 5 ''c1'' (ConnectHello_FromJson demo_hello) False demo_server), True)"
  by (simp add: handle_hello_def check_token_def demo_server_def demo_hello_def ConnectHello_FromJson_def
      value_or_def on_open_def SetRateLimiter_def SetRbac_def SetAuth_def RegisterHandler_def GatewayServer_init_def)

theorem scopes_self_chosen_witness:
  "\<exists>cl. map_of (gs_connections (fst (handle_hello 5 ''c1'' (ConnectHello_FromJson demo_hello) False demo_server))) ''c1'' = Some cl
     \<and> IsMethodAllowed init_default_rules ''config.set'' (cc_scopes cl)"
  using scopes_self_chosen [OF demo_hello_accepted] by (auto simp: demo_hello_def)

section \<open>Lock-out\<close>

definition failed_hellos :: "string \<Rightarrow> ConnectHelloParams \<Rightarrow> int list \<Rightarrow> ('p, 'r) GatewayServer \<Rightarrow> ('p, 'r) GatewayServer" where
  "failed_hellos c h ts g = foldl (\<lambda>g t. fst (check_token t c h g)) g ts"

lemma failed_hello_step:
  assumes "gs_auth_mode g = ''token''" and "gs_expected_token g \<noteq> []" and "ch_auth_token h \<noteq> gs_expected_token g"
    and "case map_of (gs_auth_lockout_until g) c of None \<Rightarrow> True | Some u \<Rightarrow> u \<le> t"
  shows "check_token t c h g =
     (g\<lparr>gs_auth_fail_counts := AList.update c (um_at (gs_auth_fail_counts g) c 0 + 1) (gs_auth_fail_counts g),
        gs_auth_lockout_until := (if gs_auth_max_attempts g \<le> um_at (gs_auth_fail_counts g) c 0 + 1
          then AList.update c (t + gs_auth_lockout_duration_sec g * 1000) (gs_auth_lockout_until g)
          else gs_auth_lockout_until g)\<rparr>, False)"
  using assms by (auto simp: check_token_def Let_def split: option.splits)

text \<open>The state after some failed hellos of a connection, fewer than the maximum.\<close>

lemma failed_hellos_below:
  assumes "gs_auth_mode g = ''token''" and "gs_expected_token g \<noteq> []" and "ch_auth_token h \<noteq> gs_expected_token g"
    and "map_of (gs_auth_fail_counts g) c = None" and "map_of (gs_auth_lockout_until g) c = None"
    and "int (length ts) < gs_auth_max_attempts g"
  shows "\<exists>counts. failed_hellos c h ts g = g\<lparr>gs_auth_fail_counts := counts\<rparr> \<and> um_at counts c 0 = int (length ts)
     \<and> (\<forall>c'. c' \<noteq> c \<longrightarrow> map_of counts c' = map_of (gs_auth_fail_counts g) c')"
  using assms(6)
proof (induction ts rule: rev_induct)
  case Nil
  have "g = g\<lparr>gs_auth_fail_counts := gs_auth_fail_counts g\<rparr>" by simp
  moreover have "um_at (gs_auth_fail_counts g) c 0 = 0" using assms(4) by (simp add: um_at_def)
  ultimately show ?case by (intro exI [of _ "gs_auth_fail_counts g"]) (simp add: failed_hellos_def)
next
  case (snoc t ts)
  then obtain counts where f: "failed_hellos c h ts g = g\<lparr>gs_auth_fail_counts := counts\<rparr>"
    and n: "um_at counts c 0 = int (length ts)" and o: "\<forall>c'. c' \<noteq> c \<longrightarrow> map_of counts c' = map_of (gs_auth_fail_counts g) c'"
    by auto
  have "failed_hellos c h (ts @ [t]) g = fst (check_token t c h (failed_hellos c h ts g))"
    by (simp add: failed_hellos_def)
  also have "\<dots> = g\<lparr>gs_auth_fail_counts := AList.update c (int (length ts) + 1) counts\<rparr>"
    unfolding f using assms(1-3,5) snoc.prems n by (subst failed_hello_step) simp_all
  finally show ?case using o by (auto simp: um_at_def store_simps)
qed

text \<open>
  After as many failed hellos as allowed the connection is locked: until the lock ends even the
  right token is refused and nothing changes; from then on the right token is accepted, and a
  single wrong one locks again at once. The failures of one connection never count against
  another, in particular not against a new connection of the same client.
\<close>

theorem auth_lockout:
  assumes "gs_auth_mode g = ''token''" and "gs_expected_token g \<noteq> []"
    and "ch_auth_token h \<noteq> gs_expected_token g" and "ch_auth_token ok = gs_expected_token g"
    and "map_of (gs_auth_fail_counts g) c = None" and "map_of (gs_auth_lockout_until g) c = None"
    and "int (length ts) + 1 = gs_auth_max_attempts g"
    and "g1 = failed_hellos c h (ts @ [t]) g" and "until = t + gs_auth_lockout_duration_sec g * 1000"
  shows "snd (check_token t c ok (failed_hellos c h ts g))
     \<and> (t' < until \<longrightarrow> check_token t' c ok g1 = (g1, False))
     \<and> (until \<le> t' \<longrightarrow> snd (check_token t' c ok g1)
          \<and> map_of (gs_auth_lockout_until (fst (check_token t' c h g1))) c
             = Some (t' + gs_auth_lockout_duration_sec g * 1000))
     \<and> (c' \<noteq> c \<longrightarrow> snd (check_token t' c' ok g1) = snd (check_token t' c' ok g))"
proof -
  obtain counts where f: "failed_hellos c h ts g = g\<lparr>gs_auth_fail_counts := counts\<rparr>"
    and n: "um_at counts c 0 = int (length ts)"
    and o: "\<forall>c'. c' \<noteq> c \<longrightarrow> map_of counts c' = map_of (gs_auth_fail_counts g) c'"
    using failed_hellos_below [OF assms(1-3,5,6), of ts] assms(7) by auto
  have "g1 = fst (check_token t c h (failed_hellos c h ts g))" using assms(8) by (simp add: failed_hellos_def)
  also have "\<dots> = g\<lparr>gs_auth_fail_counts := AList.update c (gs_auth_max_attempts g) counts,
      gs_auth_lockout_until := AList.update c until (gs_auth_lockout_until g)\<rparr>"
    unfolding f using assms(1-3,6,7,9) n by (subst failed_hello_step) simp_all
  finally have g1: "g1 = g\<lparr>gs_auth_fail_counts := AList.update c (gs_auth_max_attempts g) counts,
      gs_auth_lockout_until := AList.update c until (gs_auth_lockout_until g)\<rparr>" .
  show ?thesis
  proof (intro conjI impI)
    show "snd (check_token t c ok (failed_hellos c h ts g))"
      unfolding f using assms(1,2,4,6) by (simp add: check_token_def)
    show "check_token t' c ok g1 = (g1, False)" if "t' < until"
      using that assms(1,2) by (simp add: g1 check_token_def store_simps)
    show "snd (check_token t' c ok g1)" if "until \<le> t'"
      using that assms(1,2,4) by (simp add: g1 check_token_def store_simps)
    show "map_of (gs_auth_lockout_until (fst (check_token t' c h g1))) c = Some (t' + gs_auth_lockout_duration_sec g * 1000)"
      if "until \<le> t'"
      using that assms(1-3) by (subst failed_hello_step) (simp_all add: g1 store_simps um_at_def)
    show "snd (check_token t' c' ok g1) = snd (check_token t' c' ok g)" if "c' \<noteq> c"
      using that assms(1,2,4) by (simp add: g1 check_token_def store_simps Let_def split: option.splits)
  qed
qed

definition demo_params :: "string \<Rightarrow> ConnectHelloParams" where
  "demo_params tok = (ConnectHello_FromJson demo_hello)\<lparr>ch_auth_token := tok\<rparr>"

theorem auth_lockout_witness:
  "\<not> snd (check_token 200000 ''c1'' (demo_params ''key'')
      (failed_hellos ''c1'' (demo_params ''bad'') [1, 2, 3, 4, 5] demo_server))
   \<and> snd (check_token 200000 ''c2'' (demo_params ''key'')
      (failed_hellos ''c1'' (demo_params ''bad'') [1, 2, 3, 4, 5] demo_server))"
proof -
  have d: "gs_auth_mode demo_server = ''token''" "gs_expected_token demo_server \<noteq> []"
    "ch_auth_token (demo_params ''bad'') \<noteq> gs_expected_token demo_server"
    "ch_auth_token (demo_params ''key'') = gs_expected_token demo_server"
    "map_of (gs_auth_fail_counts demo_server) ''c1'' = None" "map_of (gs_auth_lockout_until demo_server) ''c1'' = None"
    "int (length [1, 2, 3, 4 :: int]) + 1 = gs_auth_max_attempts demo_server"
    "gs_auth_lockout_duration_sec demo_server = 300" "gs_auth_lockout_until demo_server = []"
    by (simp_all add: demo_server_def demo_params_def on_open_def SetRateLimiter_def SetRbac_def SetAuth_def
        RegisterHandler_def GatewayServer_init_def)
  have "snd (check_token 200000 ''c2'' (demo_params ''key'') demo_server)"
    using d(1,2,4,9) by (simp add: check_token_def)
  with auth_lockout [OF d(1-7) refl refl, of 5 200000 "''c2''"] d(8) show ?thesis by simp
qed

section \<open>Requests that time out\<close>

lemma map_of_clients: "map_of (map (\<lambda>(k, c). (k, f c)) m) k = map_option f (map_of m k)"
  by (induction m) auto

text \<open>
  The watchdog ends a request that has waited longer than the timeout, unless it is one of the
  two long-running methods: it is removed from its connection and answered with
  \<open>REQUEST_TIMEOUT\<close>. The text of the error is lost on the way (the response is
  built from a member the error does not have), and the handler is not stopped: when it
  ends, a second response to the same request is sent.
\<close>

theorem timeout_answers_twice:
  assumes "admit_request now wall c r g = (g1, Admitted h cl)"
    and "rq_method r \<noteq> ''agent.request''" and "rq_method r \<noteq> ''chat.send''"
    and "gs_request_timeout_ms g < t - to_msecs wall"
  shows "(c, ErrorResponse (rq_id r) \<lparr>er_code = ''REQUEST_TIMEOUT'', er_message = ''unknown error'',
            er_retryable = True, er_retry_after_ms = 1000\<rparr>) \<in> set (snd (watchdog_tick t g1))
     \<and> (case map_of (gs_connections (fst (watchdog_tick t g1))) c of None \<Rightarrow> False
         | Some cl' \<Rightarrow> list_all (\<lambda>(i, p). \<not> timed_out t g1 p) (cc_pending_requests cl'))
     \<and> snd (finish_request c (rq_id r) (Inr v) (fst (watchdog_tick t g1))) = SuccessResponse (rq_id r) v"
proof -
  let ?p = "\<lparr>pr_request_id = rq_id r, pr_method = rq_method r, pr_created_at = to_msecs wall, pr_expect_final = False\<rparr>"
  obtain cl0 where cl: "map_of (gs_connections g1) c = Some cl"
    "cl = cl0\<lparr>cc_pending_requests := AList.update (rq_id r) ?p (cc_pending_requests cl0)\<rparr>"
    "gs_request_timeout_ms g1 = gs_request_timeout_ms g"
    using assms(1,2,3)
    by (auto simp: admit_request_def Let_def store_simps split: option.splits if_splits prod.splits bool.splits)
  have pend: "map_of (cc_pending_requests cl) (rq_id r) = Some ?p" using cl(2) by (simp add: store_simps)
  have late: "timed_out t g1 ?p" using assms(4) cl(3) by (simp add: timed_out_def)
  let ?g2 = "fst (watchdog_tick t g1)"
  let ?cl2 = "cl\<lparr>cc_pending_requests := List.filter (\<lambda>(_, p). \<not> timed_out t g1 p) (cc_pending_requests cl)\<rparr>"
  have g2: "map_of (gs_connections ?g2) c = Some ?cl2"
    using cl(1) by (simp add: watchdog_tick_def Let_def map_of_clients)
  have "(rq_id r, ?p) \<in> set (cc_pending_requests cl)" using pend by (rule map_of_SomeD)
  moreover have "(c, cl) \<in> set (gs_connections g1)" using cl(1) by (rule map_of_SomeD)
  ultimately have "(c, rq_id r) \<in> set (concat (map (\<lambda>(conn_id, c). map (\<lambda>(req_id, _). (conn_id, req_id))
      (List.filter (\<lambda>(_, p). timed_out t g1 p) (cc_pending_requests c))) (gs_connections g1)))"
    using late by force
  with g2 have "(c, ErrorResponse (rq_id r) \<lparr>er_code = ''REQUEST_TIMEOUT'', er_message = ''unknown error'',
            er_retryable = True, er_retry_after_ms = 1000\<rparr>) \<in> set (snd (watchdog_tick t g1))"
    by (force simp: watchdog_tick_def Let_def SendResponseTo_def RpcError_ToJson_def value_or_def)
  with g2 show ?thesis by (auto simp: list_all_iff finish_request_def)
qed

theorem timeout_answers_twice_witness:
  "(''c1'', ErrorResponse ''r7'' \<lparr>er_code = ''REQUEST_TIMEOUT'', er_message = ''unknown error'',
      er_retryable = True, er_retry_after_ms = 1000\<rparr>) \<in> set (snd (watchdog_tick 40000
        (fst (admit_request 0 0 ''c1'' \<lparr>rq_id = ''r7'', rq_method = ''config.set'', rq_params = ()\<rparr>
           (SetAuth ''none'' [] demo_server)))))"
proof -
  let ?g = "SetAuth ''none'' [] demo_server"
  let ?r = "\<lparr>rq_id = ''r7'', rq_method = ''config.set'', rq_params = ()\<rparr>"
  obtain g1 a where ad: "admit_request 0 0 ''c1'' ?r ?g = (g1, a)" by fastforce
  have "snd (admit_request 0 0 ''c1'' ?r ?g) \<noteq> Refused f" for f
    by (simp add: demo_server_def on_open_def SetRateLimiter_def SetRbac_def SetAuth_def RegisterHandler_def
        GatewayServer_init_def admit_request_def ClientConnection_new_def Allow_def RateLimiter_init_def
        demo_limits_def Let_def um_at_def purge_old_def)
  with ad obtain h cl where "admit_request 0 0 ''c1'' ?r ?g = (g1, Admitted h cl)"
    by (cases a) auto
  from timeout_answers_twice [OF this, of 40000] show ?thesis
    unfolding \<open>admit_request 0 0 ''c1'' ?r ?g = (g1, Admitted h cl)\<close>
    by (simp add: demo_server_def on_open_def SetRateLimiter_def SetRbac_def SetAuth_def RegisterHandler_def
        GatewayServer_init_def to_msecs_def cdiv_def)
qed

section \<open>Health\<close>

text \<open>Probes, each with the connections of its moment.\<close>

type_synonym probe = "int \<times> (string, ClientConnection) umap"

definition probe_next :: "('p, 'r) GatewayServer \<Rightarrow> probe \<Rightarrow> ('p, 'r) GatewayServer" where
  "probe_next g p = fst (ProbeHealth (fst p) (g\<lparr>gs_connections := snd p\<rparr>))"

definition over_limit :: "('p, 'r) GatewayServer \<Rightarrow> probe \<Rightarrow> bool" where
  "over_limit g p \<longleftrightarrow> gs_health_max_timeout_count g < slow_requests (fst p) (g\<lparr>gs_connections := snd p\<rparr>)"

text \<open>The settings the probes read.\<close>

definition health_settings :: "('p, 'r) GatewayServer \<Rightarrow> int \<times> int \<times> int \<times> int \<times> bool" where
  "health_settings g = (gs_request_timeout_ms g, gs_health_timeout_threshold_percent g,
     gs_health_max_timeout_count g, gs_health_degraded_check_count g, gs_running g)"

text \<open>The counter and the status on their own.\<close>

fun health_machine :: "int \<Rightarrow> int \<times> HealthStatus \<Rightarrow> bool \<Rightarrow> int \<times> HealthStatus" where
  "health_machine k (n, st) True = (n + 1, if k \<le> n + 1 then kDegraded else st)"
| "health_machine k (n, st) False =
     (let n' = (if 0 < n then n - 1 else n) in (n', if st = kDegraded \<and> n' = 0 then kHealthy else st))"

lemma slow_requests_settings:
  "health_settings g' = health_settings g \<Longrightarrow> slow_requests t (g'\<lparr>gs_connections := cs\<rparr>) = slow_requests t (g\<lparr>gs_connections := cs\<rparr>)"
  by (simp add: slow_requests_def health_settings_def)

lemma probe_next_refines:
  assumes "gs_running g"
  shows "health_settings (probe_next g p) = health_settings g"
    and "(gs_degraded_check_count (probe_next g p), gs_health_status (probe_next g p)) =
      health_machine (gs_health_degraded_check_count g) (gs_degraded_check_count g, gs_health_status g) (over_limit g p)"
proof -
  have "slow_requests t (g\<lparr>gs_connections := cs, gs_last_health_check_ms := t\<rparr>) = slow_requests t (g\<lparr>gs_connections := cs\<rparr>)" for t cs
    by (simp add: slow_requests_def)
  then show "health_settings (probe_next g p) = health_settings g"
    and "(gs_degraded_check_count (probe_next g p), gs_health_status (probe_next g p)) =
      health_machine (gs_health_degraded_check_count g) (gs_degraded_check_count g, gs_health_status g) (over_limit g p)"
    using assms by (auto simp: probe_next_def ProbeHealth_def health_settings_def over_limit_def Let_def)
qed

lemma probes_refine:
  assumes "gs_running g"
  shows "(gs_degraded_check_count (foldl probe_next g ps), gs_health_status (foldl probe_next g ps)) =
      foldl (health_machine (gs_health_degraded_check_count g)) (gs_degraded_check_count g, gs_health_status g)
        (map (over_limit g) ps)"
  using assms
proof (induction ps arbitrary: g)
  case (Cons p ps)
  note n = probe_next_refines [OF Cons.prems, of p]
  have run: "gs_running (probe_next g p)" and k: "gs_health_degraded_check_count (probe_next g p) = gs_health_degraded_check_count g"
    and o: "over_limit (probe_next g p) q = over_limit g q" for q
    using n(1) Cons.prems slow_requests_settings [OF n(1)] by (auto simp: over_limit_def health_settings_def)
  show ?case using Cons.IH [OF run] n(2) by (simp add: k o)
qed simp

lemma machine_bad:
  assumes "st = kDegraded \<or> b = 0 \<or> n < k"
  shows "foldl (health_machine k) (n, st) (replicate b True)
     = (n + int b, if b \<noteq> 0 \<and> k \<le> n + int b then kDegraded else st)"
  using assms
proof (induction b arbitrary: n st)
  case (Suc b)
  show ?case
    by (cases "k \<le> n + 1") (use Suc in \<open>auto simp: algebra_simps\<close>)
qed simp

lemma machine_good:
  "foldl (health_machine k) (int n, st) (replicate b False) =
     (int (n - b), if b \<noteq> 0 \<and> st = kDegraded \<and> n \<le> b then kHealthy else st)"
proof (induction b arbitrary: n st)
  case (Suc b)
  have "health_machine k (int n, st) False = (int (n - 1), if st = kDegraded \<and> n \<le> 1 then kHealthy else st)"
    by (cases n) (auto simp: Let_def)
  then show ?case using Suc [of "n - 1"] by auto
qed simp

text \<open>
  The health status follows the probes with hysteresis: from a healthy server, after \<open>b\<close>
  overloaded probes and then \<open>n\<close> others it is degraded exactly when \<open>b\<close> reached the
  configured count and fewer than \<open>b\<close> good probes followed. The counter is not capped: a long
  overload takes as many good probes to forget. And a server that was once seen
  stopped stays unreachable through every number of good probes after its restart.
\<close>

theorem health_hysteresis:
  assumes "gs_running g" and "gs_degraded_check_count g = 0" and "1 \<le> gs_health_degraded_check_count g"
    and "list_all (over_limit g) bads" and "list_all (\<lambda>p. \<not> over_limit g p) goods"
  shows "(gs_health_status g = kHealthy \<longrightarrow>
        (gs_health_status (foldl probe_next g (bads @ goods)) = kDegraded \<longleftrightarrow>
           gs_health_degraded_check_count g \<le> int (length bads) \<and> length goods < length bads))
     \<and> (gs_health_status g = kUnreachable \<longrightarrow> gs_health_status (foldl probe_next g goods) = kUnreachable)"
proof -
  let ?k = "gs_health_degraded_check_count g"
  have b: "map (over_limit g) bads = replicate (length bads) True" and
    gd: "map (over_limit g) goods = replicate (length goods) False"
    using assms(4,5) by (auto simp: list_all_iff intro!: replicate_eqI)
  have "gs_health_status (foldl probe_next g (bads @ goods)) =
      snd (foldl (health_machine ?k) (0, gs_health_status g) (replicate (length bads) True @ replicate (length goods) False))"
    using probes_refine [OF assms(1), of "bads @ goods"] assms(2) b gd by (metis map_append snd_conv)
  also have "foldl (health_machine ?k) (0, gs_health_status g) (replicate (length bads) True @ replicate (length goods) False)
      = foldl (health_machine ?k) (int (length bads), if length bads \<noteq> 0 \<and> ?k \<le> int (length bads) then kDegraded else gs_health_status g)
          (replicate (length goods) False)"
    using machine_bad [of "gs_health_status g" "length bads" 0 ?k] assms(3) by simp
  finally have "gs_health_status (foldl probe_next g (bads @ goods)) =
      (if length goods \<noteq> 0 \<and> (if length bads \<noteq> 0 \<and> ?k \<le> int (length bads) then kDegraded else gs_health_status g) = kDegraded
          \<and> length bads \<le> length goods then kHealthy
       else if length bads \<noteq> 0 \<and> ?k \<le> int (length bads) then kDegraded else gs_health_status g)"
    by (simp add: machine_good)
  moreover have "gs_health_status (foldl probe_next g goods) = kUnreachable" if "gs_health_status g = kUnreachable"
    using probes_refine [OF assms(1), of goods] machine_good [of ?k 0 kUnreachable "length goods"] assms(2) gd that by simp
  ultimately show ?thesis using assms(3) by auto
qed

definition busy_probe :: probe where
  "busy_probe = (100000, [(''c1'', (ClientConnection_new ''c1'' 0)\<lparr>cc_pending_requests :=
     [(''a'', \<lparr>pr_request_id = ''a'', pr_method = ''config.get'', pr_created_at = 0, pr_expect_final = False\<rparr>),
      (''b'', \<lparr>pr_request_id = ''b'', pr_method = ''config.get'', pr_created_at = 0, pr_expect_final = False\<rparr>)]\<rparr>)])"

theorem health_hysteresis_witness:
  "gs_health_status (foldl probe_next ((SetHealthConfig 80 1 2 demo_server)\<lparr>gs_running := True\<rparr>)
      ([busy_probe, busy_probe, busy_probe] @ [(100001, []), (100002, [])])) = kDegraded"
proof -
  let ?g = "(SetHealthConfig 80 1 2 demo_server)\<lparr>gs_running := True\<rparr>"
  have s: "gs_running ?g" "gs_degraded_check_count ?g = 0" "1 \<le> gs_health_degraded_check_count ?g"
    "gs_health_status ?g = kHealthy" "gs_health_degraded_check_count ?g = 2"
    by (simp_all add: SetHealthConfig_def demo_server_def on_open_def SetRateLimiter_def SetRbac_def SetAuth_def
        RegisterHandler_def GatewayServer_init_def)
  have "over_limit ?g busy_probe" "\<not> over_limit ?g (t, [])" for t
    by (simp_all add: over_limit_def slow_requests_def busy_probe_def SetHealthConfig_def demo_server_def on_open_def
        SetRateLimiter_def SetRbac_def SetAuth_def RegisterHandler_def GatewayServer_init_def cdiv_def)
  then have "list_all (over_limit ?g) [busy_probe, busy_probe, busy_probe]"
    "list_all (\<lambda>p. \<not> over_limit ?g p) [(100001, []), (100002, [])]" by simp_all
  from health_hysteresis [OF s(1-3) this] s(4,5) show ?thesis by simp
qed

section \<open>Witnesses on a small server\<close>

definition demo_call :: "unit RpcRequest" where
  "demo_call = \<lparr>rq_id = ''r1'', rq_method = ''config.set'', rq_params = ()\<rparr>"

definition demo_parse :: "string \<Rightarrow> unit incoming option" where
  "demo_parse s = Some (RequestFrame demo_call)"

definition no_hello :: "unit \<Rightarrow> HelloMembers option" where
  "no_hello u = None"

theorem authentication_required_witness:
  "list_all is_error (snd (handle_message demo_parse no_hello 0 0 ''c1'' ''x''
     (foldl (gateway_next demo_parse no_hello)
        (SetAuth ''token'' ''key'' (RegisterHandler ''config.set'' (\<lambda>_ _. Inr ()) GatewayServer_init))
        [GOpen 0 ''c1''])))"
proof (rule authentication_required [where tok = "''key''"])
  show "''c1'' \<notin> foldl (shown demo_parse no_hello ''key'') {} ([GOpen 0 ''c1''] @ [GMessage 0 0 ''c1'' ''x''])"
    by (simp add: presents_token_def demo_parse_def demo_call_def)
qed (simp_all add: SetAuth_def RegisterHandler_def GatewayServer_init_def)

definition open_server :: "(unit, unit) GatewayServer" where
  "open_server = SetRateLimiter (Some (RateLimiter_init demo_limits)) (SetAuth ''none'' []
     (RegisterHandler ''config.set'' (\<lambda>_ _. Inr ()) GatewayServer_init))"

definition demo_traffic :: "gateway_event list" where
  "demo_traffic = GOpen 0 ''c1'' # map (\<lambda>t. GMessage t t ''c1'' ''x'') [0, secs 1, secs 2, secs 11]"

theorem gateway_rate_limited_witness:
  "handled_times demo_parse no_hello ''c1'' open_server demo_traffic = [0, secs 1, secs 11] \<and> secs 10 < secs 11"
proof -
  have ts: "handled_times demo_parse no_hello ''c1'' open_server demo_traffic = [0, secs 1, secs 11]"
    by (simp add: demo_traffic_def open_server_def handled_def gated_request_def demo_parse_def demo_call_def
        admit_request_def on_open_def handle_message_def handle_rpc_request_def finish_request_def remove_pending_def
        AttachMetadata_def SetRateLimiter_def SetAuth_def RegisterHandler_def GatewayServer_init_def Let_def
        ClientConnection_new_def Allow_def RetryAfter_def RateLimiter_init_def demo_limits_def um_at_def purge_old_def
        secs_def save_route_def RouteManager_init_def)
  have "sorted (List.map_filter event_time demo_traffic)"
    by (simp add: demo_traffic_def List.map_filter_simps secs_def)
  from gateway_rate_limited [OF _ this ts [symmetric], of demo_limits 0] have "0 + secs 10 < secs 11"
    by (simp add: open_server_def SetRateLimiter_def demo_limits_def numeral_2_eq_2)
  with ts show ?thesis by simp
qed

end
