(* ===== verification/ToolChain.thy ===== *)
theory ToolChain
  imports RavPrelude
begin

text \<open>
  Chains of tool calls, \<open>src/tools/tool_chain.cpp\<close>: the template engine that fills results
  of earlier steps into the arguments, and the executor with its three error policies. A JSON
  value is what the engine distinguishes of it: a text, an object, an array, or any other value.
  The tool behind a step is an argument that threads a state \<open>'w\<close> and answers a text or throws
  one (\<open>Inl\<close>).
\<close>

datatype 'n json = JString string | JObject "(string \<times> 'n json) list" | JArray "'n json list" | JOther 'n

datatype ChainErrorPolicy = kStopOnError | kContinueOnError | kRetry

record 'n ChainStep =
  cs_tool_name :: string
  cs_arguments :: "'n json"

record 'n ToolChainDef =
  tc_name :: string
  tc_description :: string
  tc_steps :: "'n ChainStep list"
  tc_error_policy :: ChainErrorPolicy
  tc_max_retries :: int

record ChainStepResult =
  sr_step_index :: int
  sr_tool_name :: string
  sr_result :: string
  sr_error :: string
  sr_success :: bool

record ChainResult =
  cr_chain_name :: string
  cr_step_results :: "ChainStepResult list"
  cr_success :: bool
  cr_final_result :: string

section \<open>Templates\<close>

definition prev_token :: string where "prev_token = ''{{prev.result}}''"

text \<open>The loop over the occurrences of the token; the search goes on behind the replacement.\<close>

function replace_prev :: "string \<Rightarrow> nat \<Rightarrow> string \<Rightarrow> string" where
  "replace_prev replacement pos result =
     (case str_find_from prev_token result pos of
        None \<Rightarrow> result
      | Some p \<Rightarrow> replace_prev replacement (p + length replacement)
          (take p result @ replacement @ drop (p + length prev_token) result))"
  by pat_completeness auto
termination
proof (relation "measure (\<lambda>(replacement, pos, result). length result - pos)")
  fix replacement result :: string and pos p
  assume f: "str_find_from prev_token result pos = Some p"
  then obtain k where "str_find prev_token (drop pos result) = Some k" "p = pos + k"
    by (auto simp: str_find_from_def split: if_splits)
  with str_find_Some [of prev_token "drop pos result" k] f have "p + length prev_token \<le> length result" "pos \<le> p"
    by (auto simp: str_find_from_def split: if_splits)
  moreover have "length prev_token = 15" by (simp add: prev_token_def)
  ultimately show "((replacement, p + length replacement,
        take p result @ replacement @ drop (p + length prev_token) result), replacement, pos, result)
      \<in> measure (\<lambda>(replacement, pos, result). length result - pos)" by auto
qed simp

declare replace_prev.simps [simp del]

text \<open>\<open>\{\{steps\[(\d+)\]\.result\}\}\<close>: the digits, and what follows the match.\<close>

definition match_step :: "string \<Rightarrow> (string \<times> string) option" where
  "match_step s =
     (if is_prefix ''{{steps['' s then
        (let a = drop 8 s; digits = takeWhile is_digit a; b = dropWhile is_digit a
         in if digits \<noteq> [] \<and> is_prefix ''].result}}'' b then Some (digits, drop 10 b) else None)
      else None)"

text \<open>
  The search loop: matches from the left, each replaced by the result it names or by nothing; a
  number that is no \<open>int\<close> throws (\<open>None\<close>).
\<close>

definition step_value :: "ChainStepResult list \<Rightarrow> int \<Rightarrow> string" where
  "step_value previous_results index =
     (if 0 \<le> index \<and> index < int (length previous_results)
      then sr_result (previous_results ! nat index) else [])"

lemma match_step_length: "match_step s = Some (d, r) \<Longrightarrow> length r < length s"
proof -
  assume "match_step s = Some (d, r)"
  then have "is_prefix ''{{steps['' s" "r = drop 10 (dropWhile is_digit (drop 8 s))"
    by (auto simp: match_step_def Let_def split: if_splits)
  moreover have "length (dropWhile is_digit (drop 8 s)) \<le> length (drop 8 s)" by (rule length_dropWhile_le)
  ultimately show ?thesis by (auto simp: is_prefix_iff)
qed

function replace_steps :: "ChainStepResult list \<Rightarrow> string \<Rightarrow> string option" where
  "replace_steps previous_results [] = Some []"
| "replace_steps previous_results (c # cs) =
     (case match_step (c # cs) of
        None \<Rightarrow> map_option ((#) c) (replace_steps previous_results cs)
      | Some (digits, suffix) \<Rightarrow>
          (case stoi digits of
             None \<Rightarrow> None
           | Some index \<Rightarrow>
               map_option ((@) (step_value previous_results index)) (replace_steps previous_results suffix)))"
  by pat_completeness auto
termination
  by (relation "measure (\<lambda>(rs, s). length s)") (auto dest: match_step_length)

definition resolve_string :: "string \<Rightarrow> ChainStepResult list \<Rightarrow> string option" where
  "resolve_string tmpl previous_results =
     (let replacement = (if previous_results = [] then [] else sr_result (last previous_results))
      in replace_steps previous_results (replace_prev replacement 0 tmpl))"

fun all_some :: "'a option list \<Rightarrow> 'a list option" where
  "all_some [] = Some []"
| "all_some (None # xs) = None"
| "all_some (Some x # xs) = map_option ((#) x) (all_some xs)"

fun resolve :: "ChainStepResult list \<Rightarrow> 'n json \<Rightarrow> 'n json option" where
  "resolve rs (JString s) = map_option JString (resolve_string s rs)"
| "resolve rs (JObject members) =
     map_option (\<lambda>vs. JObject (zip (map fst members) vs)) (all_some (map (\<lambda>(key, val). resolve rs val) members))"
| "resolve rs (JArray items) = map_option JArray (all_some (map (\<lambda>item. resolve rs item) items))"
| "resolve rs (JOther v) = Some (JOther v)"

section \<open>The executor\<close>

type_synonym ('w, 'n) tool_fn = "'w \<Rightarrow> string \<Rightarrow> 'n json \<Rightarrow> 'w \<times> (string + string)"

text \<open>The attempts at one step; \<open>n\<close> counts the ones left.\<close>

fun attempt :: "('w, 'n) tool_fn \<Rightarrow> nat \<Rightarrow> 'w \<Rightarrow> 'n json \<Rightarrow> ChainStepResult \<Rightarrow> 'w \<times> ChainStepResult" where
  "attempt executor 0 w args sr = (w, sr)"
| "attempt executor (Suc n) w args sr =
     (case executor w (sr_tool_name sr) args of
        (w1, Inr r) \<Rightarrow> (w1, sr\<lparr>sr_result := r, sr_success := True, sr_error := []\<rparr>)
      | (w1, Inl e) \<Rightarrow> attempt executor n w1 args (sr\<lparr>sr_error := e\<rparr>))"

definition max_attempts :: "'n ToolChainDef \<Rightarrow> nat" where
  "max_attempts chain = nat (if tc_error_policy chain = kRetry then tc_max_retries chain else 1)"

definition last_success :: "ChainStepResult list \<Rightarrow> string" where
  "last_success rs = (case find sr_success (rev rs) of None \<Rightarrow> [] | Some r \<Rightarrow> sr_result r)"

text \<open>
  The loop over the steps from index \<open>i\<close>; the second component is \<open>None\<close> when a template
  threw, which ends the whole execution.
\<close>

fun run_steps ::
  "('w, 'n) tool_fn \<Rightarrow> 'n ToolChainDef \<Rightarrow> int \<Rightarrow> 'n ChainStep list \<Rightarrow> 'w \<Rightarrow> ChainResult
     \<Rightarrow> 'w \<times> ChainResult option" where
  "run_steps executor chain i [] w result =
     (w, Some (result\<lparr>cr_final_result := last_success (cr_step_results result)\<rparr>))"
| "run_steps executor chain i (step # steps) w result =
     (case resolve (cr_step_results result) (cs_arguments step) of
        None \<Rightarrow> (w, None)
      | Some args \<Rightarrow>
          (let (w1, sr) = attempt executor (max_attempts chain) w args
                 \<lparr>sr_step_index = i, sr_tool_name = cs_tool_name step, sr_result = [], sr_error = [], sr_success = False\<rparr>;
               result1 = result\<lparr>cr_step_results := cr_step_results result @ [sr]\<rparr>
           in if \<not> sr_success sr then
                (if tc_error_policy chain = kStopOnError \<or> tc_error_policy chain = kRetry then
                   (w1, Some (result1\<lparr>cr_success := False,
                      cr_final_result := ''Chain stopped at step '' @ to_string i @ '': '' @ sr_error sr\<rparr>))
                 else run_steps executor chain (i + 1) steps w1 (result1\<lparr>cr_success := False\<rparr>))
              else run_steps executor chain (i + 1) steps w1 result1))"

definition Execute :: "('w, 'n) tool_fn \<Rightarrow> 'n ToolChainDef \<Rightarrow> 'w \<Rightarrow> 'w \<times> ChainResult option" where
  "Execute executor chain w =
     run_steps executor chain 0 (tc_steps chain) w
       \<lparr>cr_chain_name = tc_name chain, cr_step_results = [], cr_success = True, cr_final_result = []\<rparr>"

section \<open>Reading and writing\<close>

text \<open>The members a chain document may have; \<open>cm_steps\<close> is \<open>None\<close> without an array.\<close>

record 'n ChainMembers =
  cm_name :: "string option"
  cm_description :: "string option"
  cm_error_policy :: "string option"
  cm_max_retries :: "int option"
  cm_steps :: "(string option \<times> 'n json option) list option"

definition ParseChain :: "'n ChainMembers \<Rightarrow> 'n ToolChainDef" where
  "ParseChain j =
     (let policy_str = value_or (cm_error_policy j) ''stop_on_error''
      in \<lparr>tc_name = value_or (cm_name j) ''unnamed-chain'', tc_description = value_or (cm_description j) [],
          tc_steps = (case cm_steps j of None \<Rightarrow> []
            | Some steps \<Rightarrow> map (\<lambda>(tool, arguments). \<lparr>cs_tool_name = value_or tool [],
                cs_arguments = value_or arguments (JObject [])\<rparr>) steps),
          tc_error_policy = (if policy_str = ''continue_on_error'' then kContinueOnError
            else if policy_str = ''retry'' then kRetry else kStopOnError),
          tc_max_retries = value_or (cm_max_retries j) 1\<rparr>)"

section \<open>What templates do\<close>

text \<open>No template begins in a text without two opening braces side by side.\<close>

definition braces :: string where "braces = ''{{''"

lemma no_braces_prev: "\<not> str_contains braces s \<Longrightarrow> replace_prev r 0 s = s"
proof -
  assume "\<not> str_contains braces s"
  then have "\<not> str_contains prev_token s"
    by (auto simp: str_contains_iff braces_def prev_token_def)
  then show ?thesis by (simp add: replace_prev.simps str_find_from_def str_contains_def)
qed

lemma no_braces_steps: "\<not> str_contains braces s \<Longrightarrow> replace_steps rs s = Some s"
proof (induction s)
  case (Cons c cs)
  have "\<not> is_prefix ''{{steps['' (c # cs)"
  proof
    assume "is_prefix ''{{steps['' (c # cs)"
    then obtain r where "c # cs = [] @ braces @ ''steps['' @ r" by (auto simp: is_prefix_iff braces_def)
    with Cons.prems show False unfolding str_contains_iff by blast
  qed
  then have "match_step (c # cs) = None" unfolding match_step_def by (simp only: if_False)
  moreover have "\<not> str_contains braces cs"
    using Cons.prems unfolding str_contains_iff by (metis append_Cons)
  ultimately show ?case using Cons.IH by simp
qed simp

fun texts :: "'n json \<Rightarrow> string list" where
  "texts (JString s) = [s]"
| "texts (JObject members) = concat (map (\<lambda>(key, val). texts val) members)"
| "texts (JArray items) = concat (map texts items)"
| "texts (JOther v) = []"

lemma all_some_map: "(\<And>x. x \<in> set xs \<Longrightarrow> f x = Some (g x)) \<Longrightarrow> all_some (map f xs) = Some (map g xs)"
  by (induction xs) auto

lemma resolve_id: "\<forall>s \<in> set (texts v). \<not> str_contains braces s \<Longrightarrow> resolve rs v = Some v"
proof (induction rs v rule: resolve.induct)
  case (1 rs s)
  then show ?case by (simp add: resolve_string_def no_braces_prev no_braces_steps)
next
  case (2 rs members)
  have "all_some (map (\<lambda>(key, val). resolve rs val) members) = Some (map snd members)"
  proof (rule all_some_map)
    fix m assume m: "m \<in> set members"
    obtain k v where kv: "m = (k, v)" by (cases m)
    have "\<forall>s \<in> set (texts v). \<not> str_contains braces s"
    proof
      fix s assume "s \<in> set (texts v)"
      then have "s \<in> set (texts (JObject members))" using m kv by force
      with 2(2) show "\<not> str_contains braces s" by blast
    qed
    with 2(1) [OF m kv [symmetric]] show "(case m of (key, val) \<Rightarrow> resolve rs val) = Some (snd m)" by (simp add: kv)
  qed
  then show ?case by (simp add: zip_map_fst_snd)
next
  case (3 rs items)
  have "all_some (map (\<lambda>item. resolve rs item) items) = Some (map (\<lambda>x. x) items)"
  proof (rule all_some_map)
    fix v assume v: "v \<in> set items"
    then have "\<forall>s \<in> set (texts v). \<not> str_contains braces s" using 3(2) by auto
    with 3(1) [OF v] show "resolve rs v = Some v" by simp
  qed
  then show ?case by simp
qed simp

lemma replace_prev_token: "replace_prev r 0 prev_token = r"
proof -
  have f: "str_find_from prev_token prev_token 0 = Some 0" by (simp add: str_find_from_def prev_token_def)
  have "str_find prev_token [] = None" by (simp add: prev_token_def)
  then have "str_find_from prev_token r (length r) = None" by (simp add: str_find_from_def)
  then have "replace_prev r (length r) r = r" by (simp add: replace_prev.simps)
  with f show ?thesis by (simp add: replace_prev.simps [of r 0])
qed

text \<open>
  Arguments without template braces reach the tool unchanged. But the result of a tool that
  replaces \<open>{{prev.result}}\<close> is itself read as a template: what it says about earlier steps is
  expanded, so a result can name any earlier result, and one with a step number that is no
  \<open>int\<close> makes the whole execution throw.
\<close>

theorem templates:
  "((\<forall>s \<in> set (texts v). \<not> str_contains braces s) \<longrightarrow> resolve rs v = Some v)
   \<and> (rs \<noteq> [] \<longrightarrow> resolve rs (JString prev_token) = map_option JString (replace_steps rs (sr_result (last rs))))
   \<and> (rs \<noteq> [] \<longrightarrow> sr_result (last rs) = ''{{steps[0].result}}'' \<longrightarrow>
        resolve rs (JString prev_token) = Some (JString (sr_result (hd rs))))
   \<and> (rs \<noteq> [] \<longrightarrow> sr_result (last rs) = ''{{steps[9999999999].result}}'' \<longrightarrow>
        resolve rs (JString prev_token) = None)"
proof (intro conjI impI)
  show "resolve rs v = Some v" if "\<forall>s \<in> set (texts v). \<not> str_contains braces s"
    using that by (rule resolve_id)
  show prev: "resolve rs (JString prev_token) = map_option JString (replace_steps rs (sr_result (last rs)))" if "rs \<noteq> []"
    using that by (simp add: resolve_string_def replace_prev_token)
  show "resolve rs (JString prev_token) = Some (JString (sr_result (hd rs)))"
    if "rs \<noteq> []" "sr_result (last rs) = ''{{steps[0].result}}''"
  proof -
    have m: "match_step ''{{steps[0].result}}'' = Some (''0'', [])" by code_simp
    have z: "stoi ''0'' = Some 0" by code_simp
    have "replace_steps rs ''{{steps[0].result}}'' = Some (step_value rs 0)"
      by (subst replace_steps.simps(2)) (simp add: m z)
    then show ?thesis using that prev [OF that(1)] by (simp add: step_value_def hd_conv_nth)
  qed
  show "resolve rs (JString prev_token) = None"
    if "rs \<noteq> []" "sr_result (last rs) = ''{{steps[9999999999].result}}''"
  proof -
    have m: "match_step ''{{steps[9999999999].result}}'' = Some (''9999999999'', [])" by code_simp
    have z: "stoi ''9999999999'' = None" by code_simp
    have "replace_steps rs ''{{steps[9999999999].result}}'' = None"
      by (subst replace_steps.simps(2)) (simp add: m z)
    then show ?thesis using that prev [OF that(1)] by simp
  qed
qed

section \<open>What an execution does\<close>

lemma attempt_fields:
  "sr_step_index (snd (attempt ex n w args sr)) = sr_step_index sr"
  "sr_tool_name (snd (attempt ex n w args sr)) = sr_tool_name sr"
  by (induction n arbitrary: w sr) (auto split: prod.splits sum.splits)

text \<open>What holds of the results while the loop runs.\<close>

definition chain_inv :: "'n ToolChainDef \<Rightarrow> int \<Rightarrow> ChainResult \<Rightarrow> bool" where
  "chain_inv chain i r \<longleftrightarrow> i = int (length (cr_step_results r))
     \<and> cr_success r = list_all sr_success (cr_step_results r)
     \<and> (tc_error_policy chain \<noteq> kContinueOnError \<longrightarrow> list_all sr_success (cr_step_results r))"

definition chain_outcome :: "'n ToolChainDef \<Rightarrow> nat \<Rightarrow> ChainResult \<Rightarrow> bool" where
  "chain_outcome chain n r \<longleftrightarrow> cr_success r = list_all sr_success (cr_step_results r)
     \<and> length (cr_step_results r) \<le> n
     \<and> (if length (cr_step_results r) = n \<and> (cr_success r \<or> tc_error_policy chain = kContinueOnError)
        then cr_final_result r = last_success (cr_step_results r)
        else tc_error_policy chain \<noteq> kContinueOnError \<and> cr_step_results r \<noteq> []
          \<and> list_all sr_success (butlast (cr_step_results r)) \<and> \<not> sr_success (last (cr_step_results r))
          \<and> cr_final_result r = ''Chain stopped at step '' @ to_string (int (length (cr_step_results r)) - 1) @ '': ''
              @ sr_error (last (cr_step_results r)))"

lemma run_steps_outcome:
  assumes "chain_inv chain i r" and "run_steps ex chain i steps w r = (w', Some r')"
  shows "chain_outcome chain (length (cr_step_results r) + length steps) r'"
  using assms
proof (induction steps arbitrary: i w r)
  case Nil
  then show ?case by (auto simp: chain_inv_def chain_outcome_def)
next
  case (Cons step steps)
  then obtain args where args: "resolve (cr_step_results r) (cs_arguments step) = Some args"
    by (auto split: option.splits)
  obtain w1 sr where at: "attempt ex (max_attempts chain) w args
      \<lparr>sr_step_index = i, sr_tool_name = cs_tool_name step, sr_result = [], sr_error = [], sr_success = False\<rparr> = (w1, sr)"
    by fastforce
  let ?r1 = "r\<lparr>cr_step_results := cr_step_results r @ [sr]\<rparr>"
  show ?case
  proof (cases "sr_success sr \<or> tc_error_policy chain = kContinueOnError")
    case True
    let ?r2 = "if sr_success sr then ?r1 else ?r1\<lparr>cr_success := False\<rparr>"
    have "run_steps ex chain (i + 1) steps w1 ?r2 = (w', Some r')"
      using Cons.prems(2) args at True by (cases "tc_error_policy chain") (auto simp: Let_def)
    moreover have "chain_inv chain (i + 1) ?r2"
      using Cons.prems(1) True by (auto simp: chain_inv_def)
    ultimately have "chain_outcome chain (length (cr_step_results ?r2) + length steps) r'" by (rule Cons.IH [rotated])
    then show ?thesis by (simp split: if_splits)
  next
    case False
    then have pol: "tc_error_policy chain = kStopOnError \<or> tc_error_policy chain = kRetry"
      by (cases "tc_error_policy chain") auto
    then have "r' = ?r1\<lparr>cr_success := False, cr_final_result := ''Chain stopped at step '' @ to_string i @ '': '' @ sr_error sr\<rparr>"
      using Cons.prems(2) args at False by (auto simp: Let_def)
    with Cons.prems(1) False pol show ?thesis by (auto simp: chain_inv_def chain_outcome_def)
  qed
qed

text \<open>The results are those of a prefix of the steps, in order.\<close>

lemma run_steps_trace:
  assumes "run_steps ex chain (int (length (cr_step_results r))) steps w r = (w', Some r')"
    and "map sr_step_index (cr_step_results r) = map int [0..<length (cr_step_results r)]"
  shows "map sr_step_index (cr_step_results r') = map int [0..<length (cr_step_results r')]
     \<and> (\<exists>n. map sr_tool_name (cr_step_results r') = map sr_tool_name (cr_step_results r) @ take n (map cs_tool_name steps))"
  using assms
proof (induction steps arbitrary: w r)
  case Nil
  then show ?case by auto
next
  case (Cons step steps)
  let ?i = "int (length (cr_step_results r))"
  obtain args where args: "resolve (cr_step_results r) (cs_arguments step) = Some args"
    using Cons.prems(1) by (auto split: option.splits)
  let ?sr0 = "\<lparr>sr_step_index = ?i, sr_tool_name = cs_tool_name step, sr_result = [], sr_error = [], sr_success = False\<rparr>"
  obtain w1 sr where at: "attempt ex (max_attempts chain) w args ?sr0 = (w1, sr)" by fastforce
  have sr: "sr_step_index sr = ?i" "sr_tool_name sr = cs_tool_name step"
    using attempt_fields [of ex "max_attempts chain" w args ?sr0] at by simp_all
  let ?r1 = "r\<lparr>cr_step_results := cr_step_results r @ [sr]\<rparr>"
  have idx: "map sr_step_index (cr_step_results ?r1) = map int [0..<length (cr_step_results ?r1)]"
    using Cons.prems(2) sr by simp
  consider (stop) "cr_step_results r' = cr_step_results r @ [sr]"
    | (go) r2 where "cr_step_results r2 = cr_step_results r @ [sr]"
        "run_steps ex chain (int (length (cr_step_results r2))) steps w1 r2 = (w', Some r')"
  proof (cases "sr_success sr \<or> tc_error_policy chain = kContinueOnError")
    case True
    let ?r2 = "if sr_success sr then ?r1 else ?r1\<lparr>cr_success := False\<rparr>"
    have "run_steps ex chain (?i + 1) steps w1 ?r2 = (w', Some r')"
      using Cons.prems(1) args at True by (cases "tc_error_policy chain") (auto simp: Let_def)
    then show ?thesis by (intro go [of ?r2]) (auto simp: add.commute split: if_splits)
  next
    case False
    then have "cr_step_results r' = cr_step_results r @ [sr]"
      using Cons.prems(1) args at by (cases "tc_error_policy chain") (auto simp: Let_def)
    then show ?thesis by (rule stop)
  qed
  then show ?case
  proof cases
    case stop
    with idx sr show ?thesis by (auto intro: exI [of _ "Suc 0"])
  next
    case go
    with idx Cons.IH [OF go(2)] obtain n where
      "map sr_step_index (cr_step_results r') = map int [0..<length (cr_step_results r')]"
      "map sr_tool_name (cr_step_results r') = map sr_tool_name (cr_step_results r2) @ take n (map cs_tool_name steps)"
      by auto
    with go(1) sr show ?thesis by (auto intro: exI [of _ "Suc n"])
  qed
qed

text \<open>
  Claim C38. The contract of the policies: the indices count the steps that ran, the chain succeeds
  exactly when every one of them did, and the final result is that of the last successful step
  unless the chain was stopped. A chain that continues on errors runs all its steps; under the
  other policies a failed step is the last one, and the final result names it and its error.
\<close>

theorem chain_policies:
  assumes "Execute executor chain w = (w', Some r)"
  shows "chain_outcome chain (length (tc_steps chain)) r
     \<and> map sr_step_index (cr_step_results r) = map int [0..<length (cr_step_results r)]
     \<and> map sr_tool_name (cr_step_results r) = take (length (cr_step_results r)) (map cs_tool_name (tc_steps chain))
     \<and> (tc_error_policy chain = kContinueOnError \<longrightarrow> length (cr_step_results r) = length (tc_steps chain))"
proof -
  let ?r0 = "\<lparr>cr_chain_name = tc_name chain, cr_step_results = [], cr_success = True, cr_final_result = []\<rparr>"
  have ex: "run_steps executor chain 0 (tc_steps chain) w ?r0 = (w', Some r)" using assms by (simp add: Execute_def)
  have "chain_inv chain 0 ?r0" by (simp add: chain_inv_def)
  from run_steps_outcome [OF this ex] have out: "chain_outcome chain (length (tc_steps chain)) r" by simp
  obtain n where "map sr_step_index (cr_step_results r) = map int [0..<length (cr_step_results r)]"
    "map sr_tool_name (cr_step_results r) = take n (map cs_tool_name (tc_steps chain))"
    using run_steps_trace [of executor chain ?r0 "tc_steps chain" w w' r] ex by auto
  moreover from this(2) have "map sr_tool_name (cr_step_results r) = take (length (cr_step_results r)) (map cs_tool_name (tc_steps chain))"
    by (metis append_eq_conv_conj append_take_drop_id length_map)
  ultimately show ?thesis using out by (auto simp: chain_outcome_def split: if_splits)
qed

section \<open>Retries\<close>

text \<open>An executor that also counts its calls.\<close>

definition counting :: "('w, 'n) tool_fn \<Rightarrow> ('w \<times> nat, 'n) tool_fn" where
  "counting executor = (\<lambda>(w, k) tool args. (case executor w tool args of (w1, r) \<Rightarrow> ((w1, Suc k), r)))"

lemma attempt_calls:
  "snd (fst (attempt (counting ex) n (w, k) args sr)) \<le> k + n
   \<and> (0 < n \<longrightarrow> k < snd (fst (attempt (counting ex) n (w, k) args sr)))"
proof (induction n arbitrary: w k sr)
  case (Suc n)
  obtain w1 x where x: "ex w (sr_tool_name sr) args = (w1, x)" by fastforce
  show ?case
  proof (cases x)
    case (Inl e)
    with x Suc [of w1 "Suc k" "sr\<lparr>sr_error := e\<rparr>"] show ?thesis
      by (cases n) (auto simp: counting_def)
  qed (use x in \<open>simp add: counting_def\<close>)
qed simp

lemma run_steps_calls:
  "snd (fst (run_steps (counting ex) chain i steps (w, k) r)) \<le> k + max_attempts chain * length steps"
proof (induction steps arbitrary: i w k r)
  case (Cons step steps)
  show ?case
  proof (cases "resolve (cr_step_results r) (cs_arguments step)")
    case (Some args)
    let ?sr0 = "\<lparr>sr_step_index = i, sr_tool_name = cs_tool_name step, sr_result = [], sr_error = [], sr_success = False\<rparr>"
    obtain w1 k1 sr where at: "attempt (counting ex) (max_attempts chain) (w, k) args ?sr0 = ((w1, k1), sr)"
      by (metis prod.exhaust)
    have k1: "k1 \<le> k + max_attempts chain" using attempt_calls [of ex "max_attempts chain" w k args ?sr0] at by simp
    show ?thesis
      using Cons [of "i + 1" w1 k1 "r\<lparr>cr_step_results := cr_step_results r @ [sr]\<rparr>"]
        Cons [of "i + 1" w1 k1 "r\<lparr>cr_step_results := cr_step_results r @ [sr], cr_success := False\<rparr>"] k1
      by (cases "tc_error_policy chain") (auto simp: Some at Let_def)
  qed simp
qed simp

text \<open>
  An execution always ends, after at most \<open>max_retries\<close> calls for each step (one, without
  the retry policy). A retry policy that allows no attempt stops at the first step without
  calling its tool, with an empty error.
\<close>

theorem retries_bounded:
  "snd (fst (Execute (counting executor) chain (w, 0))) \<le> max_attempts chain * length (tc_steps chain)
   \<and> (tc_error_policy chain = kRetry \<and> tc_max_retries chain \<le> 0 \<and> tc_steps chain = step # steps
        \<and> resolve [] (cs_arguments step) = Some args \<longrightarrow>
      fst (Execute (counting executor) chain (w, 0)) = (w, 0)
      \<and> map_option cr_final_result (snd (Execute (counting executor) chain (w, 0))) = Some ''Chain stopped at step 0: '')"
proof (intro conjI impI)
  show "snd (fst (Execute (counting executor) chain (w, 0))) \<le> max_attempts chain * length (tc_steps chain)"
    unfolding Execute_def using run_steps_calls [of executor chain 0 "tc_steps chain" w 0] by simp
  assume a: "tc_error_policy chain = kRetry \<and> tc_max_retries chain \<le> 0 \<and> tc_steps chain = step # steps
        \<and> resolve [] (cs_arguments step) = Some args"
  then have m: "max_attempts chain = 0" by (simp add: max_attempts_def)
  have z: "to_string 0 = ''0''" by code_simp
  from a m z show "fst (Execute (counting executor) chain (w, 0)) = (w, 0)"
    and "map_option cr_final_result (snd (Execute (counting executor) chain (w, 0))) = Some ''Chain stopped at step 0: ''"
    by (simp_all add: Execute_def)
qed

section \<open>Witnesses\<close>

definition demo_chain :: "unit ToolChainDef" where
  "demo_chain = \<lparr>tc_name = ''c'', tc_description = [], tc_steps =
     [\<lparr>cs_tool_name = ''a'', cs_arguments = JObject []\<rparr>, \<lparr>cs_tool_name = ''b'', cs_arguments = JString prev_token\<rparr>],
     tc_error_policy = kRetry, tc_max_retries = 2\<rparr>"

text \<open>A tool that answers its text argument, and fails on its first call.\<close>

definition demo_tool :: "(nat, unit) tool_fn" where
  "demo_tool k tool args = (Suc k, if k = 0 then Inl ''busy'' else case args of JString s \<Rightarrow> Inr s | _ \<Rightarrow> Inr tool)"

lemma demo_run: "Execute demo_tool demo_chain 0 = (3, Some \<lparr>cr_chain_name = ''c'',
     cr_step_results = [\<lparr>sr_step_index = 0, sr_tool_name = ''a'', sr_result = ''a'', sr_error = [], sr_success = True\<rparr>,
       \<lparr>sr_step_index = 1, sr_tool_name = ''b'', sr_result = ''a'', sr_error = [], sr_success = True\<rparr>],
     cr_success = True, cr_final_result = ''a''\<rparr>)"
proof -
  have "resolve_string prev_token [\<lparr>sr_step_index = 0, sr_tool_name = ''a'', sr_result = ''a'', sr_error = [], sr_success = True\<rparr>]
      = Some ''a''"
    by (simp add: resolve_string_def replace_prev_token match_step_def)
  then show ?thesis
    by (simp add: Execute_def demo_chain_def demo_tool_def max_attempts_def numeral_2_eq_2 last_success_def)
qed

theorem templates_witness:
  "resolve rs (JArray [JString ''ls'', JOther ()]) = Some (JArray [JString ''ls'', JOther ()])"
proof -
  have "\<forall>s \<in> set (texts (JArray [JString ''ls'', JOther ()])). \<not> str_contains braces s"
    by (simp add: str_contains_def braces_def)
  with templates [of "JArray [JString ''ls'', JOther ()]" rs] show ?thesis by blast
qed

theorem chain_policies_witness:
  "chain_outcome demo_chain 2 (the (snd (Execute demo_tool demo_chain 0)))"
proof -
  have "length (tc_steps demo_chain) = 2" by (simp add: demo_chain_def)
  with chain_policies [OF demo_run] show ?thesis unfolding demo_run by simp
qed

theorem retries_bounded_witness:
  "snd (fst (Execute (counting demo_tool) (demo_chain\<lparr>tc_max_retries := 0\<rparr>) (0, 0))) = 0"
proof -
  have "resolve [] (JObject [] :: unit json) = Some (JObject [])" by simp
  with retries_bounded [of demo_tool "demo_chain\<lparr>tc_max_retries := 0\<rparr>" 0 "\<lparr>cs_tool_name = ''a'', cs_arguments = JObject []\<rparr>"
      "[\<lparr>cs_tool_name = ''b'', cs_arguments = JString prev_token\<rparr>]" "JObject []"]
  show ?thesis by (simp add: demo_chain_def)
qed

end
