(* ===== verification/StringUtil.thy ===== *)
theory StringUtil
  imports RavPrelude
begin

text \<open>
  The string helpers of \<open>common/string_util.hpp\<close> and the checked number parsing of
  \<open>common/parse_util.hpp\<close>, and the pieces of \<open>iostream\<close> that several components read
  text with: \<open>std::getline\<close> with a delimiter, extraction of words, hexadecimal output.
  The main facts are that splitting and joining are inverse to each other, that trimming
  is idempotent and removes exactly the outer white space, and that parsing accepts exactly the
  numerals of the type within the bounds.
\<close>

section \<open>Trimming and case\<close>

definition TrimLeft :: "string \<Rightarrow> string" where "TrimLeft s = dropWhile is_space s"

definition TrimRight :: "string \<Rightarrow> string" where "TrimRight s = rev (dropWhile is_space (rev s))"

definition Trim :: "string \<Rightarrow> string" where "Trim s = TrimLeft (TrimRight s)"

definition ToLower :: "string \<Rightarrow> string" where "ToLower s = map to_lower s"

definition ToUpper :: "string \<Rightarrow> string" where "ToUpper s = map to_upper s"

definition Iequals :: "string \<Rightarrow> string \<Rightarrow> bool" where
  "Iequals a b = (if length a \<noteq> length b then False else list_all2 (\<lambda>x y. to_lower x = to_lower y) a b)"

definition StartsWith :: "string \<Rightarrow> string \<Rightarrow> bool" where
  "StartsWith s p = (length p \<le> length s \<and> take (length p) s = p)"

definition EndsWith :: "string \<Rightarrow> string \<Rightarrow> bool" where
  "EndsWith s p = (length p \<le> length s \<and> drop (length s - length p) s = p)"

lemma Iequals_ToLower: "Iequals a b \<longleftrightarrow> ToLower a = ToLower b"
  by (auto simp: Iequals_def ToLower_def list_all2_conv_all_nth list_eq_iff_nth_eq)

lemma StartsWith_iff: "StartsWith s p \<longleftrightarrow> (\<exists>r. s = p @ r)"
  by (auto simp: StartsWith_def) (metis append_take_drop_id)

lemma EndsWith_iff: "EndsWith s p \<longleftrightarrow> (\<exists>r. s = r @ p)"
  by (auto simp: EndsWith_def) (metis append_take_drop_id)

lemma dropWhile_head: "dropWhile P s = [] \<or> \<not> P (hd (dropWhile P s))"
  by (induction s) auto

lemma TrimRight_last: "TrimRight s = [] \<or> \<not> is_space (last (TrimRight s))"
  using dropWhile_head [of is_space "rev s"] by (auto simp: TrimRight_def last_rev)

lemma TrimLeft_last: "TrimLeft s \<noteq> [] \<Longrightarrow> last (TrimLeft s) = last s"
  by (metis TrimLeft_def dropWhile_append1 last_appendR takeWhile_dropWhile_id)

lemma TrimRight_id: "s = [] \<or> \<not> is_space (last s) \<Longrightarrow> TrimRight s = s"
  by (cases s rule: rev_cases) (auto simp: TrimRight_def)

lemma TrimLeft_id: "s = [] \<or> \<not> is_space (hd s) \<Longrightarrow> TrimLeft s = s"
  by (cases s) (auto simp: TrimLeft_def)

lemma Trim_ends: "Trim s = [] \<or> \<not> is_space (hd (Trim s)) \<and> \<not> is_space (last (Trim s))"
proof (cases "Trim s = []")
  case False
  then have "last (Trim s) = last (TrimRight s)" "TrimRight s \<noteq> []"
    using TrimLeft_last by (auto simp: Trim_def TrimLeft_def)
  with TrimRight_last [of s] dropWhile_head [of is_space "TrimRight s"] False
  show ?thesis by (simp add: Trim_def TrimLeft_def)
qed simp

lemma Trim_id: "s = [] \<or> \<not> is_space (hd s) \<and> \<not> is_space (last s) \<Longrightarrow> Trim s = s"
  by (auto simp: Trim_def TrimRight_id TrimLeft_id)

lemma Trim_idem [simp]: "Trim (Trim s) = Trim s"
  using Trim_ends [of s] by (intro Trim_id) auto

text \<open>The trimmed text is the original between two runs of white space.\<close>

lemma Trim_surrounded: "\<exists>a b. s = a @ Trim s @ b \<and> list_all is_space a \<and> list_all is_space b"
proof -
  have "s = TrimRight s @ rev (takeWhile is_space (rev s))"
    unfolding TrimRight_def by (metis rev_append rev_rev_ident takeWhile_dropWhile_id)
  moreover have "TrimRight s = takeWhile is_space (TrimRight s) @ Trim s"
    by (simp add: Trim_def TrimLeft_def)
  moreover have "list_all is_space (takeWhile is_space t)" for t
    by (induction t) auto
  ultimately show ?thesis by (metis append_assoc list_all_rev)
qed

section \<open>Splitting and joining\<close>

text \<open>The loop of \<open>Split\<close>: the token begun so far, and the rest of the text.\<close>

fun split_loop :: "char \<Rightarrow> string \<Rightarrow> string \<Rightarrow> string list" where
  "split_loop delim tok [] = [tok]"
| "split_loop delim tok (c # cs) =
     (if c = delim then tok # split_loop delim [] cs else split_loop delim (tok @ [c]) cs)"

definition Split :: "string \<Rightarrow> char \<Rightarrow> string list" where "Split s delim = split_loop delim [] s"

definition JoinWith :: "'a list \<Rightarrow> string \<Rightarrow> ('a \<Rightarrow> string) \<Rightarrow> string" where
  "JoinWith c sep transform =
     fst (foldl (\<lambda>(out, first) v. (if first then out @ transform v else out @ sep @ transform v, False)) ([], True) c)"

definition Join :: "string list \<Rightarrow> string \<Rightarrow> string" where "Join c sep = JoinWith c sep (\<lambda>v. v)"

lemma JoinWith_simps:
  "JoinWith [] sep f = []"
  "JoinWith (x # xs) sep f = f x @ concat (map (\<lambda>y. sep @ f y) xs)"
proof -
  have "foldl (\<lambda>(out, first) v. (if first then out @ f v else out @ sep @ f v, False)) (out, False) xs
      = (out @ concat (map (\<lambda>y. sep @ f y) xs), False)" for out
    by (induction xs arbitrary: out) auto
  then show "JoinWith (x # xs) sep f = f x @ concat (map (\<lambda>y. sep @ f y) xs)" by (simp add: JoinWith_def)
qed (simp add: JoinWith_def)

lemma Join_simps [simp]:
  "Join [] sep = []" "Join (x # xs) sep = x @ concat (map (\<lambda>y. sep @ y) xs)"
  by (simp_all add: Join_def JoinWith_simps)

lemma split_loop_nonempty [simp]: "split_loop d tok s \<noteq> []"
  by (induction d tok s rule: split_loop.induct) auto

lemma split_loop_Join: "Join (split_loop d tok s) [d] = tok @ s"
proof (induction d tok s rule: split_loop.induct)
  case (2 delim tok c cs)
  then show ?case by (cases "split_loop delim [] cs") auto
qed simp

lemma split_loop_tokens: "d \<notin> set tok \<Longrightarrow> \<forall>t \<in> set (split_loop d tok s). d \<notin> set t"
  by (induction d tok s rule: split_loop.induct) auto

lemma split_loop_plain: "d \<notin> set s \<Longrightarrow> split_loop d tok (s @ r) = split_loop d (tok @ s) r"
  by (induction s arbitrary: tok) auto

lemma split_loop_concat:
  "\<forall>x \<in> set xs. d \<notin> set x \<Longrightarrow> split_loop d tok (concat (map (\<lambda>y. d # y) xs)) = tok # xs"
proof (induction xs arbitrary: tok)
  case (Cons x xs)
  then have "split_loop d [] (x @ concat (map (\<lambda>y. d # y) xs)) = x # xs"
    by (simp add: split_loop_plain)
  then show ?case by simp
qed simp

text \<open>Splitting and joining with the same delimiter are inverse to each other.\<close>

lemma split_join:
  "Join (Split s d) [d] = s"
  "xs \<noteq> [] \<Longrightarrow> \<forall>x \<in> set xs. d \<notin> set x \<Longrightarrow> Split (Join xs [d]) d = xs"
proof -
  show "Join (Split s d) [d] = s" by (simp add: Split_def split_loop_Join)
  assume "xs \<noteq> []" "\<forall>x \<in> set xs. d \<notin> set x"
  then show "Split (Join xs [d]) d = xs"
    by (cases xs) (simp_all add: Split_def split_loop_plain split_loop_concat)
qed

section \<open>Reading with streams\<close>

text \<open>
  The tokens that \<open>while (std::getline(ss, token, delim))\<close> yields: as \<open>Split\<close>, but an
  empty last token is not seen.
\<close>

definition getline_tokens :: "char \<Rightarrow> string \<Rightarrow> string list" where
  "getline_tokens delim s =
     (let ts = split_loop delim [] s in if last ts = [] then butlast ts else ts)"

lemma dropWhile_shorter: "\<not> is_space (hd t) \<Longrightarrow> t \<noteq> [] \<Longrightarrow> length (dropWhile (\<lambda>c. \<not> is_space c) t) < length t"
  by (cases t) (auto simp: le_imp_less_Suc length_dropWhile_le)

text \<open>The words that \<open>ss >> field\<close> extracts one after the other.\<close>

function stream_words :: "string \<Rightarrow> string list" where
  "stream_words s =
     (let t = dropWhile is_space s
      in if t = [] then [] else takeWhile (\<lambda>c. \<not> is_space c) t # stream_words (dropWhile (\<lambda>c. \<not> is_space c) t))"
  by auto

termination
proof (relation "measure length")
  fix s t assume t: "t = dropWhile is_space s" "t \<noteq> []"
  with dropWhile_head [of is_space s] have "\<not> is_space (hd t)" by (simp only: simp_thms)
  from dropWhile_shorter [OF this t(2)] t(1)
  show "(dropWhile (\<lambda>c. \<not> is_space c) t, s) \<in> measure length"
    using length_dropWhile_le [of is_space s] by simp
qed simp

declare stream_words.simps [simp del]

text \<open>Lower-case hexadecimal digits, as \<open>std::hex\<close> prints an unsigned number.\<close>

definition hex_char :: "nat \<Rightarrow> char" where
  "hex_char n = char_of (if n < 10 then 48 + n else 87 + n)"

fun hex_digits :: "nat \<Rightarrow> string" where
  "hex_digits n = (if n < 16 then [hex_char n] else hex_digits (n div 16) @ [hex_char (n mod 16)])"

declare hex_digits.simps [simp del]

lemma hex_digits_nonempty [simp]: "hex_digits n \<noteq> []"
  by (subst hex_digits.simps) simp

definition pad_left :: "char \<Rightarrow> nat \<Rightarrow> string \<Rightarrow> string" where
  "pad_left c w s = replicate (w - length s) c @ s"

section \<open>Checked numbers\<close>

text \<open>
  \<open>std::from_chars\<close> on the whole text: a minus sign for a signed type only, digits, nothing
  else; a value outside the type is an error.
\<close>

definition from_chars :: "bool \<Rightarrow> int \<Rightarrow> int \<Rightarrow> string \<Rightarrow> int option" where
  "from_chars signed tmin tmax s =
     (let neg = (signed \<and> s \<noteq> [] \<and> hd s = CHR ''-'');
          ds = (if neg then tl s else s);
          v = (if neg then - digits_value ds else digits_value ds)
      in if ds = [] \<or> \<not> list_all is_digit ds \<or> v < tmin \<or> tmax < v then None else Some v)"

definition ParseInt :: "bool \<Rightarrow> int \<Rightarrow> int \<Rightarrow> string \<Rightarrow> int \<Rightarrow> int \<Rightarrow> int option" where
  "ParseInt signed tmin tmax s min_val max_val =
     (if s = [] then None
      else case from_chars signed tmin tmax s of
        None \<Rightarrow> None
      | Some value \<Rightarrow> if value < min_val \<or> max_val < value then None else Some value)"

definition ParsePort :: "string \<Rightarrow> int option" where
  "ParsePort s = ParseInt False 0 65535 s 1 65535"

definition ParsePositiveInt :: "string \<Rightarrow> int option" where
  "ParsePositiveInt s = ParseInt True INT_MIN INT_MAX s 1 INT_MAX"

definition ParseNonNegativeInt :: "string \<Rightarrow> int option" where
  "ParseNonNegativeInt s = ParseInt True INT_MIN INT_MAX s 0 INT_MAX"

definition ParseMilliseconds :: "string \<Rightarrow> int option" where
  "ParseMilliseconds s = ParseInt True INT_MIN INT_MAX s 0 86400000"

lemma nat_digits_no_minus: "nat_digits n \<noteq> [] \<and> hd (nat_digits n) \<noteq> CHR ''-''"
  using nat_digits_hd [of n] is_digit_not_sign by blast

lemma nat_digits_all: "list_all is_digit (nat_digits n)"
  using nat_digits_is_digit [of n] by (simp add: list_all_iff)

lemma ParseInt_to_string:
  assumes "tmin \<le> i" and "i \<le> tmax" and "lo \<le> i" and "i \<le> hi" and "signed \<or> 0 \<le> i"
  shows "ParseInt signed tmin tmax (to_string i) lo hi = Some i"
  using assms nat_digits_no_minus [of "nat i"] nat_digits_all [of "nat i"] nat_digits_all [of "nat (- i)"]
  by (auto simp: ParseInt_def from_chars_def to_string_def digits_value_nat_digits Let_def)

lemma ParseInt_Some:
  assumes "ParseInt signed tmin tmax s lo hi = Some v"
  shows "lo \<le> v \<and> v \<le> hi \<and> tmin \<le> v \<and> v \<le> tmax"
  using assms by (auto simp: ParseInt_def from_chars_def Let_def split: if_splits option.splits)

text \<open>
  The parsers return a value exactly in their bounds, and read back every number in them that
  \<open>std::to_string\<close> prints; signs, white space or anything after the digits is refused.
\<close>

theorem checked_numbers:
  "(\<forall>v. ParsePort s = Some v \<longrightarrow> 1 \<le> v \<and> v \<le> 65535 \<and> list_all is_digit s)
   \<and> (1 \<le> i \<and> i \<le> 65535 \<longrightarrow> ParsePort (to_string i) = Some i)
   \<and> (0 \<le> i \<and> i \<le> INT_MAX \<longrightarrow> ParseNonNegativeInt (to_string i) = Some i)
   \<and> ParsePositiveInt (to_string i) = (if 1 \<le> i \<and> i \<le> INT_MAX then Some i else None)
   \<and> ParseMilliseconds (to_string i) = (if 0 \<le> i \<and> i \<le> 86400000 then Some i else None)"
proof -
  have any: "ParseInt True INT_MIN INT_MAX (to_string i) lo hi =
      (if INT_MIN \<le> i \<and> i \<le> INT_MAX \<and> lo \<le> i \<and> i \<le> hi then Some i else None)" for lo hi
    using nat_digits_no_minus [of "nat i"] nat_digits_all [of "nat i"] nat_digits_all [of "nat (- i)"]
    by (auto simp: ParseInt_def from_chars_def to_string_def digits_value_nat_digits Let_def)
  have "ParsePort (to_string i) = Some i" if "1 \<le> i \<and> i \<le> 65535"
    using that ParseInt_to_string [of 0 i 65535 1 65535 False] by (simp add: ParsePort_def)
  moreover have "list_all is_digit s" if "ParsePort s = Some v" for v
    using that by (auto simp: ParsePort_def ParseInt_def from_chars_def Let_def split: if_splits option.splits)
  moreover have "1 \<le> v \<and> v \<le> 65535" if "ParsePort s = Some v" for v
    using that ParseInt_Some [of False 0 65535 s 1 65535 v] by (simp add: ParsePort_def)
  ultimately show ?thesis
    unfolding ParsePositiveInt_def ParseNonNegativeInt_def ParseMilliseconds_def any
    by (auto simp: INT_MIN_def INT_MAX_def)
qed

theorem checked_numbers_witness:
  "ParsePort ''8080'' = Some 8080 \<and> ParsePort ''65536'' = None \<and> ParsePort (to_string 443) = Some 443"
proof -
  have "ParsePort (to_string 443) = Some 443" using checked_numbers [of "''''" 443] by simp
  moreover have "ParsePort ''8080'' = Some 8080 \<and> ParsePort ''65536'' = None" by code_simp
  ultimately show ?thesis by simp
qed

end
