(* ===== verification/Calendar.thy ===== *)
theory Calendar
  imports StringUtil
begin

text \<open>
  The calendar functions of the C library that the cron scheduler and the audit log use:
  \<open>gmtime\<close>, \<open>timegm\<close>, and the formatting and parsing of timestamps with
  \<open>put_time\<close> and \<open>get_time\<close>. Years and months are counted off one after the other from
  the epoch, so the functions are defined for times from 1970 on.
\<close>

definition leap :: "int \<Rightarrow> bool" where
  "leap y \<longleftrightarrow> y mod 4 = 0 \<and> (y mod 100 \<noteq> 0 \<or> y mod 400 = 0)"

definition year_len :: "int \<Rightarrow> int" where "year_len y = (if leap y then 366 else 365)"

definition month_lens :: "int \<Rightarrow> int list" where
  "month_lens y = [31, if leap y then 29 else 28, 31, 30, 31, 30, 31, 31, 30, 31, 30, 31]"

lemma year_len_pos: "0 < year_len y" by (simp add: year_len_def)

lemma sum_month_lens: "sum_list (month_lens y) = year_len y"
  by (simp add: month_lens_def year_len_def)

function year_day :: "int \<Rightarrow> int \<Rightarrow> int \<times> int" where
  "year_day y d = (if d < year_len y then (y, d) else year_day (y + 1) (d - year_len y))"
  by auto

termination
  by (relation "measure (\<lambda>(y, d). nat d)") (auto simp: year_len_def split: if_splits)

declare year_day.simps [simp del]

fun month_day :: "int \<Rightarrow> int list \<Rightarrow> int \<Rightarrow> int \<times> int" where
  "month_day m [] d = (m, d)"
| "month_day m (l # ls) d = (if d < l then (m, d) else month_day (m + 1) ls (d - l))"

text \<open>Broken-down time; \<open>tm_mon\<close> counts from 0 and \<open>tm_year\<close> is the full year.\<close>

record tm =
  tm_sec :: int
  tm_min :: int
  tm_hour :: int
  tm_mday :: int
  tm_mon :: int
  tm_year :: int
  tm_wday :: int

definition gmtime :: "int \<Rightarrow> tm" where
  "gmtime t =
     (let days = t div 86400; (y, yd) = year_day 1970 days; (m, md) = month_day 0 (month_lens y) yd
      in \<lparr>tm_sec = t mod 60, tm_min = t div 60 mod 60, tm_hour = t div 3600 mod 24,
          tm_mday = md + 1, tm_mon = m, tm_year = y, tm_wday = (4 + days) mod 7\<rparr>)"

function days_before_year :: "int \<Rightarrow> int" where
  "days_before_year y = (if y \<le> 1970 then 0 else days_before_year (y - 1) + year_len (y - 1))"
  by auto

termination
  by (relation "measure (\<lambda>y. nat (y - 1970))") auto

declare days_before_year.simps [simp del]

definition timegm :: "tm \<Rightarrow> int" where
  "timegm tm = (days_before_year (tm_year tm) + sum_list (take (nat (tm_mon tm)) (month_lens (tm_year tm)))
       + tm_mday tm - 1) * 86400 + tm_hour tm * 3600 + tm_min tm * 60 + tm_sec tm"

section \<open>Counting days\<close>

lemma year_day_spec:
  "0 \<le> d \<Longrightarrow> 1970 \<le> y \<Longrightarrow> year_day y d = (y', r) \<Longrightarrow>
     days_before_year y + d = days_before_year y' + r \<and> 0 \<le> r \<and> r < year_len y' \<and> y \<le> y'"
proof (induction y d arbitrary: y' r rule: year_day.induct)
  case (1 y d)
  show ?case
  proof (cases "d < year_len y")
    case False
    with 1(4) have "year_day (y + 1) (d - year_len y) = (y', r)" by (simp add: year_day.simps [of y d])
    with 1(1) [OF False, of y' r] 1(2,3) False
    have "days_before_year (y + 1) + (d - year_len y) = days_before_year y' + r \<and> 0 \<le> r \<and> r < year_len y' \<and> y + 1 \<le> y'"
      by simp
    moreover have "days_before_year (y + 1) = days_before_year y + year_len y"
      using 1(3) by (subst days_before_year.simps) simp
    ultimately show ?thesis by simp
  next
    case True
    with 1(4) have "y' = y" "r = d" by (simp_all add: year_day.simps [of y d])
    with 1(2) True show ?thesis by simp
  qed
qed

lemma month_day_spec:
  "0 \<le> d \<Longrightarrow> d < sum_list ls \<Longrightarrow> month_day m ls d = (m', r) \<Longrightarrow>
     m \<le> m' \<and> nat (m' - m) < length ls \<and> d = sum_list (take (nat (m' - m)) ls) + r
     \<and> 0 \<le> r \<and> r < ls ! nat (m' - m)"
proof (induction m ls d arbitrary: m' r rule: month_day.induct)
  case (2 m l ls d)
  show ?case
  proof (cases "d < l")
    case False
    with 2 have IH: "m + 1 \<le> m' \<and> nat (m' - (m + 1)) < length ls \<and> d - l = sum_list (take (nat (m' - (m + 1))) ls) + r
        \<and> 0 \<le> r \<and> r < ls ! nat (m' - (m + 1))" by auto
    then have "m + 1 \<le> m'" by simp
    then have "nat (m' - m) = Suc (nat (m' - (m + 1)))" by (simp add: Suc_nat_eq_nat_zadd1)
    with IH show ?thesis by auto
  qed (use 2 in auto)
qed simp

lemma month_lens_length [simp]: "length (month_lens y) = 12" by (simp add: month_lens_def)

lemma month_len_le: "i < 12 \<Longrightarrow> month_lens y ! i \<le> 31"
  by (auto simp: month_lens_def nth_Cons' split: if_splits)

lemma february: "m = (1::int) \<Longrightarrow> month_lens y ! nat m = (if leap y then 29 else 28)"
  by (simp add: month_lens_def)

text \<open>The fields are in range, and \<open>timegm\<close> inverts \<open>gmtime\<close>.\<close>

lemma gmtime_fields:
  assumes "0 \<le> t"
  shows "let tm = gmtime t in 0 \<le> tm_sec tm \<and> tm_sec tm < 60 \<and> 0 \<le> tm_min tm \<and> tm_min tm < 60
     \<and> 0 \<le> tm_hour tm \<and> tm_hour tm < 24 \<and> 0 \<le> tm_mon tm \<and> tm_mon tm < 12
     \<and> 1 \<le> tm_mday tm \<and> tm_mday tm \<le> month_lens (tm_year tm) ! nat (tm_mon tm) \<and> 1970 \<le> tm_year tm
     \<and> 0 \<le> tm_wday tm \<and> tm_wday tm < 7 \<and> timegm tm = t"
proof -
  obtain y yd where y: "year_day 1970 (t div 86400) = (y, yd)" by fastforce
  obtain m md where m: "month_day 0 (month_lens y) yd = (m, md)" by fastforce
  have ys: "days_before_year 1970 + t div 86400 = days_before_year y + yd" "0 \<le> yd" "yd < year_len y" "1970 \<le> y"
    using year_day_spec [OF _ _ y] assms by (auto simp: pos_imp_zdiv_nonneg_iff)
  have ms: "0 \<le> m" "nat m < 12" "yd = sum_list (take (nat m) (month_lens y)) + md" "0 \<le> md" "md < month_lens y ! nat m"
    using month_day_spec [OF ys(2) _ m] ys(3) by (auto simp: sum_month_lens)
  have "days_before_year 1970 = 0" by (simp add: days_before_year.simps)
  with ys(1) ms(3) have d: "days_before_year y + sum_list (take (nat m) (month_lens y)) + md = t div 86400" by simp
  have "timegm (gmtime t) = t div 86400 * 86400 + t div 3600 mod 24 * 3600 + t div 60 mod 60 * 60 + t mod 60"
    using d by (simp add: timegm_def gmtime_def y m)
  also have "\<dots> = t"
  proof -
    have hour: "t div 3600 = t div 60 div 60" using zdiv_zmult2_eq [of 60 t 60] by simp
    have day: "t div 86400 = t div 3600 div 24" using zdiv_zmult2_eq [of 24 t 3600] by simp
    note mult_div_mod_eq [of 60 t] mult_div_mod_eq [of 60 "t div 60"] mult_div_mod_eq [of 24 "t div 3600"]
    with hour day show ?thesis by linarith
  qed
  finally have inv: "timegm (gmtime t) = t" .
  have g: "gmtime t = \<lparr>tm_sec = t mod 60, tm_min = t div 60 mod 60, tm_hour = t div 3600 mod 24,
      tm_mday = md + 1, tm_mon = m, tm_year = y, tm_wday = (4 + t div 86400) mod 7\<rparr>"
    by (simp add: gmtime_def y m)
  show ?thesis unfolding Let_def inv unfolding g using ms(1,2,4,5) ys(4) by simp
qed

lemmas gmtime_bounds = gmtime_fields [unfolded Let_def]

section \<open>Timestamps\<close>

definition two_digits :: "int \<Rightarrow> string" where "two_digits n = pad_left CHR ''0'' 2 (to_string n)"

definition four_digits :: "int \<Rightarrow> string" where "four_digits n = pad_left CHR ''0'' 4 (to_string n)"

text \<open>\<open>put_time\<close> with the format \<open>%Y-%m-%dT%H:%M:%SZ\<close>, and with \<open>%Y-%m-%d\<close>.\<close>

definition put_date :: "tm \<Rightarrow> string" where
  "put_date tm = four_digits (tm_year tm) @ ''-'' @ two_digits (tm_mon tm + 1) @ ''-'' @ two_digits (tm_mday tm)"

definition put_iso :: "tm \<Rightarrow> string" where
  "put_iso tm = put_date tm @ ''T'' @ two_digits (tm_hour tm) @ '':'' @ two_digits (tm_min tm) @ '':''
     @ two_digits (tm_sec tm) @ ''Z''"

text \<open>
  \<open>get_time\<close>: a number of at most \<open>w\<close> digits in a range, then literal characters. The
  fields are \<open>None\<close> when the stream fails.
\<close>

definition get_num :: "nat \<Rightarrow> int \<Rightarrow> int \<Rightarrow> string \<Rightarrow> (int \<times> string) option" where
  "get_num w lo hi s =
     (let ds = takeWhile is_digit (take w s)
      in if ds = [] \<or> digits_value ds < lo \<or> hi < digits_value ds then None
         else Some (digits_value ds, drop (length ds) s))"

fun get_lit :: "char \<Rightarrow> string \<Rightarrow> string option" where
  "get_lit c (x # xs) = (if x = c then Some xs else None)"
| "get_lit c [] = None"

definition get_iso :: "string \<Rightarrow> tm option" where
  "get_iso s =
     Option.bind (get_num 4 0 9999 s) (\<lambda>(y, s). Option.bind (get_lit CHR ''-'' s) (\<lambda>s.
     Option.bind (get_num 2 1 12 s) (\<lambda>(mo, s). Option.bind (get_lit CHR ''-'' s) (\<lambda>s.
     Option.bind (get_num 2 1 31 s) (\<lambda>(d, s). Option.bind (get_lit CHR ''T'' s) (\<lambda>s.
     Option.bind (get_num 2 0 23 s) (\<lambda>(h, s). Option.bind (get_lit CHR '':'' s) (\<lambda>s.
     Option.bind (get_num 2 0 59 s) (\<lambda>(mi, s). Option.bind (get_lit CHR '':'' s) (\<lambda>s.
     Option.bind (get_num 2 0 60 s) (\<lambda>(sc, s). Option.bind (get_lit CHR ''Z'' s) (\<lambda>s.
       Some \<lparr>tm_sec = sc, tm_min = mi, tm_hour = h, tm_mday = d, tm_mon = mo - 1, tm_year = y, tm_wday = 0\<rparr>))))))))))))"

lemma digits_value_append: "digits_value (a @ [d]) = 10 * digits_value a + (int (byte d) - 48)"
  by (simp add: digits_value_def)

lemma digits_value_zeros: "digits_value (replicate n CHR ''0'' @ ds) = digits_value ds"
proof -
  have "foldl (\<lambda>v d. 10 * v + (int (byte d) - 48)) 0 (replicate n CHR ''0'') = 0"
    by (induction n) (auto simp: byte_def)
  then show ?thesis by (simp add: digits_value_def)
qed

lemma nat_digits_length: "n < 10 ^ Suc k \<Longrightarrow> length (nat_digits n) \<le> Suc k"
proof (induction k arbitrary: n)
  case (Suc k)
  then have "n div 10 < 10 ^ Suc k" by simp
  from Suc.IH [OF this] show ?case by (subst nat_digits.simps) simp
qed (simp add: nat_digits.simps)

lemma get_num_padded:
  assumes "0 \<le> n" and "n < 10 ^ Suc k" and "lo \<le> n" and "n \<le> hi"
  shows "get_num (Suc k) lo hi (pad_left CHR ''0'' (Suc k) (to_string n) @ r) = Some (n, r)"
proof -
  let ?p = "pad_left CHR ''0'' (Suc k) (to_string n)"
  have "nat n < 10 ^ Suc k" using assms(1,2) by (simp add: nat_less_iff)
  then have "length (nat_digits (nat n)) \<le> Suc k" by (rule nat_digits_length)
  then have len: "length ?p = Suc k" using assms(1) by (simp add: pad_left_def to_string_def)
  have dig: "list_all is_digit ?p"
    using assms(1) nat_digits_all [of "nat n"] by (simp add: pad_left_def to_string_def list_all_iff del: replicate_Suc) (auto simp: is_digit_def byte_def)
  have val: "digits_value ?p = n"
    using assms(1) by (simp add: pad_left_def digits_value_zeros to_string_def digits_value_nat_digits)
  have tw: "takeWhile is_digit (take (Suc k) (?p @ r)) = ?p" using len dig by (simp add: list_all_iff)
  have ne: "?p \<noteq> []" and dr: "drop (length ?p) (?p @ r) = r" using len by auto
  show ?thesis unfolding get_num_def Let_def tw val dr using ne assms(3,4) by simp
qed

lemma get_two_digits: "0 \<le> n \<Longrightarrow> n \<le> 99 \<Longrightarrow> lo \<le> n \<Longrightarrow> n \<le> hi \<Longrightarrow> get_num 2 lo hi (two_digits n @ r) = Some (n, r)"
  using get_num_padded [of n 1 lo hi r] by (simp add: two_digits_def numeral_2_eq_2)

lemma get_four_digits: "0 \<le> n \<Longrightarrow> n \<le> 9999 \<Longrightarrow> get_num 4 0 9999 (four_digits n @ r) = Some (n, r)"
  using get_num_padded [of n 3 0 9999 r] by (simp add: four_digits_def eval_nat_numeral)

text \<open>A timestamp that was printed for a time before the year 10000 reads back as that time.\<close>

lemma iso_roundtrip:
  assumes "0 \<le> t" and "tm_year (gmtime t) \<le> 9999"
  shows "map_option timegm (get_iso (put_iso (gmtime t))) = Some t"
proof -
  note b = gmtime_bounds [OF assms(1)]
  have d: "tm_mday (gmtime t) \<le> 31" using b month_len_le [of "nat (tm_mon (gmtime t))" "tm_year (gmtime t)"] by linarith
  have "get_iso (put_iso (gmtime t)) = Some (gmtime t\<lparr>tm_wday := 0\<rparr>)"
    using b d assms(2)
    by (simp add: get_iso_def put_iso_def put_date_def get_four_digits get_two_digits)
  moreover have "timegm (gmtime t\<lparr>tm_wday := 0\<rparr>) = t" using b by (simp add: timegm_def)
  ultimately show ?thesis by simp
qed

end
