(* ===== verification/Cron.thy ===== *)
theory Cron
  imports Calendar
begin

text \<open>
  The cron scheduler (\<open>core/cron_scheduler.cpp\<close>): parsing of the five fields, the search for
  the next matching minute, the stored job list, and the loop that runs the due jobs. The local
  time zone is a constant offset \<open>off\<close> in seconds from UTC during one search; the file of the
  jobs is a value of type \<open>cron_file\<close>; a handler does not touch the scheduler.
\<close>

section \<open>Cron expressions\<close>

text \<open>A field is the list of its values; the empty list is the wildcard.\<close>

record CronExpression =
  ce_minute :: "int list"
  ce_hour :: "int list"
  ce_day_of_month :: "int list"
  ce_month :: "int list"
  ce_day_of_week :: "int list"

text \<open>
  The values of a step. The counter of the source is an \<open>int\<close>, which a step close to its
  limit would overflow; the integers here are unbounded.
\<close>

function step_values :: "int \<Rightarrow> int \<Rightarrow> int \<Rightarrow> int list" where
  "step_values i mx step = (if 0 < step \<and> i \<le> mx then i # step_values (i + step) mx step else [])"
  by auto

termination
  by (relation "measure (\<lambda>(i, mx, step). nat (mx - i + 1))") auto

declare step_values.simps [simp del]

text \<open>One token between commas; \<open>None\<close> is an exception of \<open>std::stoi\<close>.\<close>

definition token_values :: "int \<Rightarrow> string \<Rightarrow> int list option" where
  "token_values mx token =
     (case str_find ''-'' token of
        Some dash \<Rightarrow>
          Option.bind (stoi (take dash token)) (\<lambda>lo.
          Option.bind (stoi (drop (dash + 1) token)) (\<lambda>hi. Some [lo .. min hi mx]))
      | None \<Rightarrow> Option.bind (stoi token) (\<lambda>v. Some [v]))"

fun tokens_values :: "int \<Rightarrow> string list \<Rightarrow> int list option" where
  "tokens_values mx [] = Some []"
| "tokens_values mx (t # ts) =
     Option.bind (token_values mx t) (\<lambda>vs. Option.bind (tokens_values mx ts) (\<lambda>ws. Some (vs @ ws)))"

definition parse_field :: "string \<Rightarrow> int \<Rightarrow> int \<Rightarrow> int list option" where
  "parse_field field mn mx =
     (if field = ''*'' then Some []
      else if 2 < length field \<and> take 2 field = ''*/'' then
        Option.bind (stoi (drop 2 field)) (\<lambda>step. Some (if 0 < step then step_values mn mx step else []))
      else tokens_values mx (getline_tokens CHR '','' field))"

definition nth_field :: "string list \<Rightarrow> nat \<Rightarrow> string" where
  "nth_field ws i = (if i < length ws then ws ! i else ''*'')"

definition CronExpression_init :: "string \<Rightarrow> CronExpression option" where
  "CronExpression_init expr =
     (let ws = stream_words expr in
      Option.bind (parse_field (nth_field ws 0) 0 59) (\<lambda>mi.
      Option.bind (parse_field (nth_field ws 1) 0 23) (\<lambda>h.
      Option.bind (parse_field (nth_field ws 2) 1 31) (\<lambda>dom.
      Option.bind (parse_field (nth_field ws 3) 1 12) (\<lambda>mo.
      Option.bind (parse_field (nth_field ws 4) 0 6) (\<lambda>dow.
        Some \<lparr>ce_minute = mi, ce_hour = h, ce_day_of_month = dom, ce_month = mo, ce_day_of_week = dow\<rparr>))))))"

definition field_matches :: "int list \<Rightarrow> int \<Rightarrow> bool" where
  "field_matches f v = (if f = [] then True else v \<in> set f)"

definition CronMatches :: "CronExpression \<Rightarrow> tm \<Rightarrow> bool" where
  "CronMatches e tm = (field_matches (ce_minute e) (tm_min tm) \<and> field_matches (ce_hour e) (tm_hour tm)
     \<and> field_matches (ce_day_of_month e) (tm_mday tm) \<and> field_matches (ce_month e) (tm_mon tm + 1)
     \<and> field_matches (ce_day_of_week e) (tm_wday tm))"

text \<open>The search goes on by minutes of local time, here counted from the epoch.\<close>

fun search_minutes :: "CronExpression \<Rightarrow> nat \<Rightarrow> int \<Rightarrow> int option" where
  "search_minutes e 0 m = None"
| "search_minutes e (Suc n) m = (if CronMatches e (gmtime (60 * m)) then Some m else search_minutes e n (m + 1))"

definition search_limit :: nat where "search_limit = 525960"

definition local_minute :: "int \<Rightarrow> time \<Rightarrow> int" where
  "local_minute off t = (to_secs t + off) div 60"

definition NextAfter :: "int \<Rightarrow> CronExpression \<Rightarrow> time \<Rightarrow> time" where
  "NextAfter off e after =
     (case search_minutes e search_limit (local_minute off after + 1) of
        Some m \<Rightarrow> secs (60 * m - off)
      | None \<Rightarrow> after + hours 1)"

section \<open>Jobs\<close>

record CronJob =
  cj_id :: string
  cj_name :: string
  cj_schedule :: string
  cj_message :: string
  cj_session_key :: string
  cj_enabled :: bool
  cj_last_run :: time
  cj_next_run :: time

text \<open>The JSON object of a job: the members it has.\<close>

record cron_json =
  jj_id :: "string option"
  jj_name :: "string option"
  jj_schedule :: "string option"
  jj_message :: "string option"
  jj_session_key :: "string option"
  jj_enabled :: "bool option"
  jj_last_run :: "string option"
  jj_next_run :: "string option"

definition to_iso :: "time \<Rightarrow> string" where "to_iso tp = put_iso (gmtime (to_secs tp))"

definition CronJob_ToJson :: "CronJob \<Rightarrow> cron_json" where
  "CronJob_ToJson j = \<lparr>jj_id = Some (cj_id j), jj_name = Some (cj_name j), jj_schedule = Some (cj_schedule j),
     jj_message = Some (cj_message j), jj_session_key = Some (cj_session_key j), jj_enabled = Some (cj_enabled j),
     jj_last_run = (if 0 < cj_last_run j then Some (to_iso (cj_last_run j)) else None),
     jj_next_run = (if 0 < cj_next_run j then Some (to_iso (cj_next_run j)) else None)\<rparr>"

definition CronJob_FromJson :: "cron_json \<Rightarrow> CronJob" where
  "CronJob_FromJson j = \<lparr>cj_id = value_or (jj_id j) [], cj_name = value_or (jj_name j) [],
     cj_schedule = value_or (jj_schedule j) [], cj_message = value_or (jj_message j) [],
     cj_session_key = value_or (jj_session_key j) ''agent:main:main'', cj_enabled = value_or (jj_enabled j) True,
     cj_last_run = 0, cj_next_run = 0\<rparr>"

text \<open>
  What a file holds: text that is no JSON, a JSON value that is no array, or an array. An item
  that is no object, or has a member of the wrong type, makes \<open>FromJson\<close> throw: \<open>None\<close>.
\<close>

datatype cron_file = NoJson | NoArray | JobArray "cron_json option list"

type_synonym disk = "(string, cron_file) umap"

record CronScheduler =
  cs_jobs :: "CronJob list"
  cs_storage_path :: string

definition CronScheduler_init :: CronScheduler where
  "CronScheduler_init = \<lparr>cs_jobs = [], cs_storage_path = []\<rparr>"

text \<open>The items of the array, up to the first one that throws.\<close>

fun load_items :: "int \<Rightarrow> time \<Rightarrow> cron_json option list \<Rightarrow> CronJob list" where
  "load_items off now [] = []"
| "load_items off now (None # items) = []"
| "load_items off now (Some item # items) =
     (let job = CronJob_FromJson item
      in if cj_id job \<noteq> [] \<and> cj_schedule job \<noteq> [] then
           (case CronExpression_init (cj_schedule job) of
              None \<Rightarrow> []
            | Some e \<Rightarrow> job\<lparr>cj_next_run := NextAfter off e now\<rparr> # load_items off now items)
         else load_items off now items)"

definition LoadJobs :: "int \<Rightarrow> time \<Rightarrow> disk \<Rightarrow> string \<Rightarrow> CronScheduler \<Rightarrow> CronScheduler" where
  "LoadJobs off now d filepath s =
     (let s = s\<lparr>cs_storage_path := filepath\<rparr>
      in case map_of d filepath of
           None \<Rightarrow> s
         | Some NoJson \<Rightarrow> s
         | Some NoArray \<Rightarrow> s\<lparr>cs_jobs := []\<rparr>
         | Some (JobArray items) \<Rightarrow> s\<lparr>cs_jobs := load_items off now items\<rparr>)"

definition SaveJobs :: "string \<Rightarrow> CronScheduler \<Rightarrow> disk \<Rightarrow> disk" where
  "SaveJobs filepath s d = AList.update filepath (JobArray (map (\<lambda>j. Some (CronJob_ToJson j)) (cs_jobs s))) d"

definition save_if_stored :: "CronScheduler \<Rightarrow> disk \<Rightarrow> disk" where
  "save_if_stored s d = (if cs_storage_path s \<noteq> [] then SaveJobs (cs_storage_path s) s d else d)"

text \<open>Identifiers are the first twelve hexadecimal digits of two random 32-bit numbers.\<close>

definition generate_job_id :: "nat \<times> nat \<Rightarrow> string" where
  "generate_job_id r = take 12 (hex_digits (fst r) @ hex_digits (snd r))"

definition AddJob :: "int \<Rightarrow> time \<Rightarrow> nat \<times> nat \<Rightarrow> string \<Rightarrow> string \<Rightarrow> string \<Rightarrow> string \<Rightarrow> CronScheduler \<Rightarrow> disk
    \<Rightarrow> (CronScheduler \<times> disk \<times> string) option" where
  "AddJob off now r name schedule message session_key s d =
     (case CronExpression_init schedule of
        None \<Rightarrow> None
      | Some e \<Rightarrow>
          let job = \<lparr>cj_id = generate_job_id r, cj_name = name, cj_schedule = schedule, cj_message = message,
                cj_session_key = session_key, cj_enabled = True, cj_last_run = 0, cj_next_run = NextAfter off e now\<rparr>;
              s1 = s\<lparr>cs_jobs := cs_jobs s @ [job]\<rparr>
          in Some (s1, save_if_stored s1 d, cj_id job))"

definition erase_at :: "nat \<Rightarrow> 'a list \<Rightarrow> 'a list" where
  "erase_at i xs = take i xs @ drop (Suc i) xs"

text \<open>The scan of \<open>RemoveJob\<close>: the index of an exact match, or those of all longer identifiers.\<close>

fun scan_jobs :: "string \<Rightarrow> CronJob list \<Rightarrow> nat \<Rightarrow> nat list \<Rightarrow> nat + nat list" where
  "scan_jobs job_id [] i matches = Inr matches"
| "scan_jobs job_id (j # js) i matches =
     (if cj_id j = job_id then Inl i
      else scan_jobs job_id js (Suc i)
        (if length job_id < length (cj_id j) \<and> take (length job_id) (cj_id j) = job_id then matches @ [i] else matches))"

definition RemoveJob :: "string \<Rightarrow> CronScheduler \<Rightarrow> disk \<Rightarrow> CronScheduler \<times> disk \<times> bool" where
  "RemoveJob job_id s d =
     (if job_id = [] then (s, d, False)
      else case scan_jobs job_id (cs_jobs s) 0 [] of
        Inl i \<Rightarrow> (let s1 = s\<lparr>cs_jobs := erase_at i (cs_jobs s)\<rparr> in (s1, save_if_stored s1 d, True))
      | Inr matches \<Rightarrow>
          if length matches \<noteq> 1 then (s, d, False)
          else (let s1 = s\<lparr>cs_jobs := erase_at (hd matches) (cs_jobs s)\<rparr> in (s1, save_if_stored s1 d, True)))"

section \<open>The loop\<close>

definition job_due :: "time \<Rightarrow> CronJob \<Rightarrow> bool" where
  "job_due now job = (cj_enabled job \<and> cj_next_run job \<le> now)"

text \<open>The due jobs are handed to the handler and rescheduled; \<open>None\<close> ends the process.\<close>

fun run_due :: "int \<Rightarrow> time \<Rightarrow> CronJob list \<Rightarrow> (CronJob list \<times> CronJob list) option" where
  "run_due off now [] = Some ([], [])"
| "run_due off now (j # js) =
     (if job_due now j then
        Option.bind (CronExpression_init (cj_schedule j)) (\<lambda>e.
        Option.bind (run_due off now js) (\<lambda>(handled, js').
          Some (j # handled, j\<lparr>cj_last_run := now, cj_next_run := NextAfter off e now\<rparr> # js')))
      else Option.bind (run_due off now js) (\<lambda>(handled, js'). Some (handled, j # js')))"

definition scheduler_tick :: "int \<Rightarrow> time \<Rightarrow> CronScheduler \<Rightarrow> disk
    \<Rightarrow> (CronScheduler \<times> disk \<times> CronJob list) option" where
  "scheduler_tick off now s d =
     (case run_due off now (cs_jobs s) of
        None \<Rightarrow> None
      | Some (handled, js) \<Rightarrow>
          let s1 = s\<lparr>cs_jobs := js\<rparr>
          in Some (s1, if handled \<noteq> [] then save_if_stored s1 d else d, handled))"

section \<open>What the fields mean\<close>

lemma set_step_values:
  "0 < step \<Longrightarrow> set (step_values i mx step) = {v. i \<le> v \<and> v \<le> mx \<and> (v - i) mod step = 0}"
proof (induction i mx step rule: step_values.induct)
  case (1 i mx step)
  show ?case
  proof (cases "i \<le> mx")
    case True
    have m: "(v - (i + step)) mod step = (v - i) mod step" for v
      by (metis diff_diff_eq minus_mod_self2)
    have "v = i \<or> i + step \<le> v" if "i \<le> v" "step dvd v - i" for v
    proof -
      have "\<not> (0 < v - i \<and> v - i < step)" using that(2) mod_pos_pos_trivial [of "v - i" step] by auto
      with that(1) show ?thesis by linarith
    qed
    then have "{v. i \<le> v \<and> v \<le> mx \<and> (v - i) mod step = 0}
        = insert i {v. i + step \<le> v \<and> v \<le> mx \<and> (v - (i + step)) mod step = 0}"
      using True 1(2) by (auto simp: m)
    with 1 True show ?thesis by (simp add: step_values.simps [of i])
  qed (auto simp: step_values.simps [of i])
qed

datatype cron_item = One nat | Range nat nat

fun show_item :: "cron_item \<Rightarrow> string" where
  "show_item (One n) = nat_digits n"
| "show_item (Range a b) = nat_digits a @ ''-'' @ nat_digits b"

fun item_values :: "int \<Rightarrow> cron_item \<Rightarrow> int list" where
  "item_values mx (One n) = [int n]"
| "item_values mx (Range a b) = [int a .. min (int b) mx]"

fun item_fits :: "cron_item \<Rightarrow> bool" where
  "item_fits (One n) = (int n \<le> INT_MAX)"
| "item_fits (Range a b) = (int a \<le> INT_MAX \<and> int b \<le> INT_MAX)"

lemma digit_chars: "is_digit c \<Longrightarrow> c \<noteq> CHR ''-'' \<and> c \<noteq> CHR '','' \<and> c \<noteq> CHR ''*''"
  by (auto simp: is_digit_def byte_def)

lemma digits_no_char: "x \<in> {CHR ''-'', CHR '','', CHR ''*''} \<Longrightarrow> x \<notin> set (nat_digits n)"
  using nat_digits_is_digit [of n] digit_chars by blast

lemma str_find_char: "c \<notin> set s \<Longrightarrow> str_find [c] (s @ c # r) = Some (length s)"
  by (induction s) auto

lemma str_find_no_char: "c \<notin> set s \<Longrightarrow> str_find [c] s = None"
  by (induction s) auto

lemma stoi_digits: "int n \<le> INT_MAX \<Longrightarrow> stoi (nat_digits n) = Some (int n)"
  using stoi_nat_digits [of n "[]"] by simp

lemma token_item: "item_fits it \<Longrightarrow> token_values mx (show_item it) = Some (item_values mx it)"
  by (cases it) (simp_all add: token_values_def str_find_no_char str_find_char digits_no_char stoi_digits)

lemma tokens_items: "list_all item_fits its \<Longrightarrow> tokens_values mx (map show_item its) = Some (concat (map (item_values mx) its))"
  by (induction its) (simp_all add: token_item)

lemma show_item_chars: "CHR '','' \<notin> set (show_item it) \<and> CHR ''*'' \<notin> set (show_item it) \<and> show_item it \<noteq> []"
  by (cases it) (simp_all add: digits_no_char)

lemma getline_items:
  assumes "its \<noteq> []"
  shows "getline_tokens CHR '','' (Join (map show_item its) '','') = map show_item its"
proof -
  have "split_loop CHR '','' [] (Join (map show_item its) '','') = map show_item its"
    using split_join(2) [of "map show_item its" "CHR '',''"] assms show_item_chars by (simp add: Split_def)
  moreover have "last (map show_item its) \<noteq> []" using assms show_item_chars by (simp add: last_map)
  ultimately show ?thesis by (simp add: getline_tokens_def)
qed

text \<open>
  The meaning of a field: a star and its step are all values from the minimum on in steps, and a
  list of numbers and ranges, as the documentation writes it, is the values of its parts, with
  ranges cut at the maximum.
\<close>

theorem field_meaning:
  "parse_field ''*'' mn mx = Some []
   \<and> (0 < n \<and> int n \<le> INT_MAX \<longrightarrow> (\<exists>vs. parse_field (''*/'' @ nat_digits n) mn mx = Some vs
        \<and> set vs = {v. mn \<le> v \<and> v \<le> mx \<and> (v - mn) mod int n = 0}))
   \<and> (its \<noteq> [] \<and> list_all item_fits its \<longrightarrow>
        parse_field (Join (map show_item its) '','') mn mx = Some (concat (map (item_values mx) its)))"
proof (intro conjI impI)
  show "parse_field ''*'' mn mx = Some []" by (simp add: parse_field_def)
  assume "0 < n \<and> int n \<le> INT_MAX"
  then show "\<exists>vs. parse_field (''*/'' @ nat_digits n) mn mx = Some vs
        \<and> set vs = {v. mn \<le> v \<and> v \<le> mx \<and> (v - mn) mod int n = 0}"
    by (simp add: parse_field_def stoi_digits set_step_values)
next
  assume its: "its \<noteq> [] \<and> list_all item_fits its"
  let ?f = "Join (map show_item its) '',''"
  have "CHR ''*'' \<notin> set ?f" using show_item_chars by (cases its) auto
  then have "?f \<noteq> ''*''" "take 2 ?f \<noteq> ''*/''" by (auto dest: in_set_takeD) (metis in_set_takeD list.set_intros(1))
  then show "parse_field ?f mn mx = Some (concat (map (item_values mx) its))"
    using its by (simp add: parse_field_def getline_items tokens_items del: Join_simps)
qed

theorem field_meaning_witness:
  "parse_field ''*/15'' 0 59 = Some [0, 15, 30, 45] \<and> parse_field ''1-5,10'' 0 59 = Some [1, 2, 3, 4, 5, 10]"
proof -
  have "Join (map show_item [Range 1 5, One 10]) '','' = ''1-5,10''" by code_simp
  moreover have "parse_field (Join (map show_item [Range 1 5, One 10]) '','') 0 59
      = Some (concat (map (item_values 59) [Range 1 5, One 10]))"
    using field_meaning [where n = 1 and mn = 0 and mx = 59 and its = "[Range 1 5, One 10]"] by (simp add: INT_MAX_def)
  moreover have "parse_field ''*/15'' 0 59 = Some [0, 15, 30, 45]" by code_simp
  moreover have "concat (map (item_values 59) [Range 1 5, One 10]) = [1, 2, 3, 4, 5, 10]" by code_simp
  ultimately show ?thesis by metis
qed

section \<open>The next run\<close>

lemma search_minutes_spec:
  "case search_minutes e n m of
     Some k \<Rightarrow> m \<le> k \<and> k < m + int n \<and> CronMatches e (gmtime (60 * k)) \<and> (\<forall>j. m \<le> j \<and> j < k \<longrightarrow> \<not> CronMatches e (gmtime (60 * j)))
   | None \<Rightarrow> \<forall>j. m \<le> j \<and> j < m + int n \<longrightarrow> \<not> CronMatches e (gmtime (60 * j))"
proof (induction e n m rule: search_minutes.induct)
  case (2 e n m)
  have step: "m \<le> j \<longleftrightarrow> j = m \<or> m + 1 \<le> j" for j by linarith
  show ?case
  proof (cases "CronMatches e (gmtime (60 * m))")
    case False
    with 2 [OF False] show ?thesis by (auto simp: step split: option.splits)
  qed auto
qed auto

lemma cdiv_bounds: "0 < b \<Longrightarrow> a < b * (cdiv a b + 1)"
proof (cases "0 \<le> a")
  case False
  assume b: "0 < b"
  have "b * (\<bar>a\<bar> div b) \<le> \<bar>a\<bar>" using b mult_div_mod_eq [of b "\<bar>a\<bar>"] pos_mod_sign [of b "\<bar>a\<bar>"] by linarith
  with b False show ?thesis by (simp add: cdiv_def algebra_simps)
next
  case True
  assume b: "0 < b"
  have "b * (a div b + 1) = b * (a div b) + b" by (simp add: algebra_simps)
  then have "a < b * (a div b + 1)" using pos_mod_bound [OF b, of a] mult_div_mod_eq [of b a] by linarith
  with b True show ?thesis by (simp add: cdiv_nonneg)
qed

lemma to_secs_bound: "t < secs (to_secs t + 1)"
  using cdiv_bounds [of 1000000000 t] by (simp add: secs_def to_secs_def mult.commute)

lemma to_secs_mono: "s \<le> t \<Longrightarrow> to_secs s \<le> to_secs t"
proof -
  assume "s \<le> t"
  moreover have "sgn s * (\<bar>s\<bar> div 1000000000) \<le> sgn t * (\<bar>t\<bar> div 1000000000)" if "s \<le> t"
    using that zdiv_mono1 [of s t 1000000000] zdiv_mono1 [of "- t" "- s" 1000000000]
      pos_imp_zdiv_nonneg_iff [of 1000000000 "- s"] pos_imp_zdiv_nonneg_iff [of 1000000000 t]
    by (auto simp: sgn_if abs_if)
  ultimately show ?thesis by (simp add: to_secs_def cdiv_def)
qed

lemma local_minute_mono: "s \<le> t \<Longrightarrow> local_minute off s \<le> local_minute off t"
  using to_secs_mono by (auto simp: local_minute_def intro: zdiv_mono1)

lemma minute_after: "local_minute off t < m \<Longrightarrow> t < secs (60 * m - off)"
proof -
  assume "local_minute off t < m"
  then have "to_secs t + off < 60 * m" by (auto simp: local_minute_def)
  then have "secs (to_secs t + 1) \<le> secs (60 * m - off)" by simp
  with to_secs_bound [of t] show ?thesis by linarith
qed

lemma local_minute_secs: "local_minute off (secs (60 * m - off)) = m"
  by (simp add: local_minute_def)


section \<open>Schedules that never match\<close>

lemma NextAfter_never:
  assumes "\<And>k. local_minute off after < k \<Longrightarrow> k \<le> local_minute off after + 525960 \<Longrightarrow> \<not> CronMatches e (gmtime (60 * k))"
  shows "NextAfter off e after = after + hours 1"
proof (cases "search_minutes e search_limit (local_minute off after + 1)")
  case (Some m)
  with assms show ?thesis
    using search_minutes_spec [where e = e and n = search_limit and m = "local_minute off after + 1"]
    by (auto simp: search_limit_def)
qed (simp add: NextAfter_def)

definition out_of_range :: "CronExpression \<Rightarrow> bool" where
  "out_of_range e \<longleftrightarrow>
     (ce_minute e \<noteq> [] \<and> set (ce_minute e) \<inter> {0..59} = {}) \<or> (ce_hour e \<noteq> [] \<and> set (ce_hour e) \<inter> {0..23} = {})
     \<or> (ce_day_of_month e \<noteq> [] \<and> set (ce_day_of_month e) \<inter> {1..31} = {})
     \<or> (ce_month e \<noteq> [] \<and> set (ce_month e) \<inter> {1..12} = {})
     \<or> (ce_day_of_week e \<noteq> [] \<and> set (ce_day_of_week e) \<inter> {0..6} = {})"

lemma field_matches_iff: "field_matches f v \<longleftrightarrow> f = [] \<or> v \<in> set f"
  by (simp add: field_matches_def)

lemma out_of_range_never: "out_of_range e \<Longrightarrow> 0 \<le> t \<Longrightarrow> \<not> CronMatches e (gmtime t)"
proof
  assume o: "out_of_range e" and t: "0 \<le> t" and m: "CronMatches e (gmtime t)"
  have "tm_mday (gmtime t) \<le> 31"
    using gmtime_bounds [OF t] month_len_le [of "nat (tm_mon (gmtime t))" "tm_year (gmtime t)"] by linarith
  with m gmtime_bounds [OF t] have
    "ce_minute e = [] \<or> tm_min (gmtime t) \<in> set (ce_minute e) \<inter> {0..59}"
    "ce_hour e = [] \<or> tm_hour (gmtime t) \<in> set (ce_hour e) \<inter> {0..23}"
    "ce_day_of_month e = [] \<or> tm_mday (gmtime t) \<in> set (ce_day_of_month e) \<inter> {1..31}"
    "ce_month e = [] \<or> tm_mon (gmtime t) + 1 \<in> set (ce_month e) \<inter> {1..12}"
    "ce_day_of_week e = [] \<or> tm_wday (gmtime t) \<in> set (ce_day_of_week e) \<inter> {0..6}"
    by (auto simp: CronMatches_def field_matches_iff)
  with o show False unfolding out_of_range_def by blast
qed

lemma year_day_leq:
  assumes "0 \<le> d" and "year_day 1970 d = (y, r)"
  shows "days_before_year y \<le> d \<and> d < days_before_year (y + 1)"
proof -
  have "days_before_year 1970 = 0" by (simp add: days_before_year.simps)
  with year_day_spec [OF assms(1) _ assms(2)]
  have "d = days_before_year y + r" "0 \<le> r" "r < year_len y" "1970 \<le> y" by auto
  moreover from this have "days_before_year (y + 1) = days_before_year y + year_len y"
    by (simp add: days_before_year.simps [of "y + 1"])
  ultimately show ?thesis by simp
qed

lemma days_before_year_mono: "y \<le> z \<Longrightarrow> days_before_year y \<le> days_before_year z"
proof (induction z rule: days_before_year.induct)
  case (1 z)
  show ?case
  proof (cases "z \<le> 1970 \<or> y = z")
    case True
    then show ?thesis using 1(2) by (auto simp: days_before_year.simps [of y] days_before_year.simps [of z])
  next
    case False
    with 1 have "days_before_year y \<le> days_before_year (z - 1)" by simp
    with False year_len_pos [of "z - 1"] show ?thesis by (simp add: days_before_year.simps [of z])
  qed
qed

lemma gmtime_year:
  assumes "0 \<le> t" and "days_before_year a \<le> t div 86400" and "t div 86400 < days_before_year (b + 1)"
  shows "a \<le> tm_year (gmtime t) \<and> tm_year (gmtime t) \<le> b"
proof -
  obtain y r where y: "year_day 1970 (t div 86400) = (y, r)" by fastforce
  have yr: "tm_year (gmtime t) = y" by (simp add: gmtime_def y split: prod.splits)
  have b: "days_before_year y \<le> t div 86400" "t div 86400 < days_before_year (y + 1)"
    using year_day_leq [OF _ y] assms(1) by (auto simp: pos_imp_zdiv_nonneg_iff)
  show ?thesis unfolding yr
    using b assms(2,3) days_before_year_mono [of "y + 1" a] days_before_year_mono [of "b + 1" y] by linarith
qed

lemma leap_day_only: "0 \<le> t \<Longrightarrow> tm_mon (gmtime t) = 1 \<Longrightarrow> tm_mday (gmtime t) = 29 \<Longrightarrow> leap (tm_year (gmtime t))"
  using gmtime_bounds [of t] february [of "tm_mon (gmtime t)" "tm_year (gmtime t)"] by (auto split: if_splits)

definition leap_day_expr :: CronExpression where
  "leap_day_expr = \<lparr>ce_minute = [0], ce_hour = [0], ce_day_of_month = [29], ce_month = [2], ce_day_of_week = []\<rparr>"

lemma leap_day_expr: "CronExpression_init ''0 0 29 2 *'' = Some leap_day_expr"
  unfolding leap_day_expr_def by code_simp

lemma leap_day_after_2025: "NextAfter 0 leap_day_expr (secs 1740787200) = secs 1740787200 + hours 1"
proof (rule NextAfter_never)
  fix k :: int
  assume "local_minute 0 (secs 1740787200) < k" "k \<le> local_minute 0 (secs 1740787200) + 525960"
  then have k: "29013120 < k" "k \<le> 29539080" by (simp_all add: local_minute_def)
  have "days_before_year 2025 = 20089" "days_before_year 2027 = 20819" by code_simp+
  moreover have "20148 \<le> 60 * k div 86400" "60 * k div 86400 \<le> 20513" using k by linarith+
  ultimately have "2025 \<le> tm_year (gmtime (60 * k))" "tm_year (gmtime (60 * k)) \<le> 2026"
    using gmtime_year [of "60 * k" 2025 2026] k(1) by simp_all
  then have "tm_year (gmtime (60 * k)) \<in> {2025, 2026}" by auto
  then have "\<not> leap (tm_year (gmtime (60 * k)))" by (auto simp: leap_def)
  with k(1) leap_day_only [of "60 * k"] show "\<not> CronMatches leap_day_expr (gmtime (60 * k))"
    by (auto simp: CronMatches_def field_matches_def leap_day_expr_def)
qed

text \<open>
  A schedule that asks for a time that does not exist is accepted, and then runs every hour: any
  field whose values are all outside its range does this (the usual 7 for Sunday is one), and so does
  a schedule for the 29th of February when the next one is more than 366 days away. A step of
  0, and a range whose end is before its start, on the other hand, mean every value.
\<close>

theorem senseless_schedules:
  "(out_of_range e \<and> 0 \<le> local_minute off after \<longrightarrow> NextAfter off e after = after + hours 1)
   \<and> (\<exists>e7. CronExpression_init ''30 9 * * 7'' = Some e7 \<and> out_of_range e7)
   \<and> (\<exists>e29. CronExpression_init ''0 0 29 2 *'' = Some e29
        \<and> NextAfter 0 e29 (secs 1740787200) = secs 1740787200 + hours 1)
   \<and> CronExpression_init ''*/0 5-3 * * *'' = CronExpression_init ''* * * * *''"
proof (intro conjI impI)
  assume e: "out_of_range e \<and> 0 \<le> local_minute off after"
  then show "NextAfter off e after = after + hours 1"
    by (intro NextAfter_never out_of_range_never) auto
next
  have "CronExpression_init ''30 9 * * 7''
      = Some \<lparr>ce_minute = [30], ce_hour = [9], ce_day_of_month = [], ce_month = [], ce_day_of_week = [7]\<rparr>" by code_simp
  then show "\<exists>e7. CronExpression_init ''30 9 * * 7'' = Some e7 \<and> out_of_range e7" by (simp add: out_of_range_def)
  show "\<exists>e29. CronExpression_init ''0 0 29 2 *'' = Some e29
        \<and> NextAfter 0 e29 (secs 1740787200) = secs 1740787200 + hours 1"
    using leap_day_expr leap_day_after_2025 by blast
  show "CronExpression_init ''*/0 5-3 * * *'' = CronExpression_init ''* * * * *''" by code_simp
qed

theorem senseless_schedules_witness:
  "NextAfter 0 \<lparr>ce_minute = [75], ce_hour = [], ce_day_of_month = [], ce_month = [], ce_day_of_week = []\<rparr> (secs 60)
     = secs 60 + hours 1"
  using senseless_schedules [of "\<lparr>ce_minute = [75], ce_hour = [], ce_day_of_month = [], ce_month = [], ce_day_of_week = []\<rparr>" 0 "secs 60"]
  by (simp add: out_of_range_def local_minute_def)

definition at_five_past :: CronExpression where
  "at_five_past = \<lparr>ce_minute = [5], ce_hour = [], ce_day_of_month = [], ce_month = [], ce_day_of_week = []\<rparr>"


end
