(* ===== verification/CronJobs.thy ===== *)
theory CronJobs
  imports Cron
begin

text \<open>
  Properties of the scheduler's job list: every job has a schedule that parses, so the loop
  never ends the process; a job runs at most once per minute; removal by prefix;
  and what is kept by the file.
\<close>

section \<open>Well-formed job lists\<close>

definition job_ok :: "CronJob \<Rightarrow> bool" where
  "job_ok j \<longleftrightarrow> cj_id j \<noteq> [] \<and> CronExpression_init (cj_schedule j) \<noteq> None"

definition jobs_ok :: "CronScheduler \<times> disk \<Rightarrow> bool" where
  "jobs_ok sd \<longleftrightarrow> list_all job_ok (cs_jobs (fst sd))"

datatype cron_event =
    CLoad time string
  | CAdd time "nat \<times> nat" string string string string
  | CRemove string
  | CTick time
  | CDisk disk

text \<open>
  One event: an operation, one round of the loop, or a change of the disk by others. A refused
  addition changes nothing; a round that ends the process is \<open>None\<close> in \<open>scheduler_tick\<close>.
\<close>

fun cron_next :: "int \<Rightarrow> CronScheduler \<times> disk \<Rightarrow> cron_event \<Rightarrow> CronScheduler \<times> disk" where
  "cron_next off (s, d) (CLoad now p) = (LoadJobs off now d p s, d)"
| "cron_next off (s, d) (CAdd now r name schedule message key) =
     (case AddJob off now r name schedule message key s d of None \<Rightarrow> (s, d) | Some (s1, d1, _) \<Rightarrow> (s1, d1))"
| "cron_next off (s, d) (CRemove job_id) = (case RemoveJob job_id s d of (s1, d1, _) \<Rightarrow> (s1, d1))"
| "cron_next off (s, d) (CTick now) = (case scheduler_tick off now s d of None \<Rightarrow> (s, d) | Some (s1, d1, _) \<Rightarrow> (s1, d1))"
| "cron_next off (s, d) (CDisk d') = (s, d')"

lemma load_items_ok: "list_all job_ok (load_items off now items)"
  by (induction off now items rule: load_items.induct) (auto simp: job_ok_def Let_def split: option.splits)

lemma set_erase_at: "set (erase_at i xs) \<subseteq> set xs"
  by (auto simp: erase_at_def dest: in_set_takeD in_set_dropD)

lemma generate_job_id_nonempty: "generate_job_id r \<noteq> []"
  by (simp add: generate_job_id_def)

lemma run_due_ok: "list_all job_ok js \<Longrightarrow> \<exists>h js'. run_due off now js = Some (h, js') \<and> list_all job_ok js'"
  by (induction js) (auto simp: job_ok_def)

interpretation cron: guarded_machine "\<lambda>sd. cs_jobs (fst sd) = []" "\<lambda>_ _. True" "cron_next off" jobs_ok
proof (unfold_locales, goal_cases)
  case (1 s)
  then show ?case by (simp add: jobs_ok_def)
next
  case (2 sd e)
  obtain s d where sd: "sd = (s, d)" by fastforce
  with 2 have ok: "list_all job_ok (cs_jobs s)" by (simp add: jobs_ok_def)
  then have erase: "list_all job_ok (erase_at i (cs_jobs s))" for i
    using set_erase_at by (fastforce simp: list_all_iff)
  show ?case
  proof (cases e)
    case (CLoad now p)
    then show ?thesis using ok load_items_ok
      by (auto simp: sd jobs_ok_def LoadJobs_def Let_def split: option.splits cron_file.splits)
  next
    case (CAdd now r n sch m k)
    then show ?thesis using ok generate_job_id_nonempty
      by (auto simp: sd jobs_ok_def AddJob_def Let_def job_ok_def split: option.splits)
  next
    case (CRemove i)
    then show ?thesis using ok erase
      by (auto simp: sd jobs_ok_def RemoveJob_def Let_def split: sum.splits)
  next
    case (CTick now)
    obtain h js' where "run_due off now (cs_jobs s) = Some (h, js')" "list_all job_ok js'"
      using run_due_ok [OF ok] by blast
    with CTick show ?thesis by (auto simp: sd jobs_ok_def scheduler_tick_def Let_def)
  qed (use ok in \<open>simp add: sd jobs_ok_def\<close>)
qed



section \<open>At most one run per minute\<close>

text \<open>The times at which a job was handed to the handler, in rounds at the given times.\<close>

fun handled_at :: "int \<Rightarrow> string \<Rightarrow> CronScheduler \<Rightarrow> disk \<Rightarrow> time list \<Rightarrow> time list" where
  "handled_at off job_id s d [] = []"
| "handled_at off job_id s d (t # ts) =
     (case scheduler_tick off t s d of
        None \<Rightarrow> []
      | Some (s1, d1, handled) \<Rightarrow>
          (if job_id \<in> cj_id ` set handled then [t] else []) @ handled_at off job_id s1 d1 ts)"

lemma cdiv_minus: "cdiv (- a) b = - cdiv a b"
  by (simp add: cdiv_def sgn_minus)

lemma hour_later: "local_minute off now < local_minute off (now + hours 1)"
proof -
  have "secs (to_secs now - 1) < now"
    using cdiv_bounds [of 1000000000 "- now"] by (simp add: secs_def to_secs_def cdiv_minus algebra_simps)
  then have "secs (to_secs now + 3599) \<le> now + hours 1" by (simp add: secs_def hours_def)
  then have "to_secs now + 3599 \<le> to_secs (now + hours 1)" using to_secs_mono by fastforce
  then show ?thesis unfolding local_minute_def by linarith
qed

lemma NextAfter_later: "now < NextAfter off e now \<and> local_minute off now < local_minute off (NextAfter off e now)"
proof (cases "search_minutes e search_limit (local_minute off now + 1)")
  case None
  then show ?thesis using hour_later by (simp add: NextAfter_def hours_def)
next
  case (Some m)
  then have "local_minute off now < m"
    using search_minutes_spec [where e = e and n = search_limit and m = "local_minute off now + 1"] by simp
  with Some minute_after show ?thesis by (simp add: NextAfter_def local_minute_secs)
qed

text \<open>What a round does to a job: reschedule it when it is due, nothing otherwise.\<close>

definition after_round :: "int \<Rightarrow> time \<Rightarrow> CronJob \<Rightarrow> CronJob \<Rightarrow> bool" where
  "after_round off now j j' \<longleftrightarrow> cj_id j' = cj_id j \<and>
     (if job_due now j then now < cj_next_run j' \<and> local_minute off now < local_minute off (cj_next_run j') else j' = j)"

lemma run_due_handled:
  "run_due off now js = Some (h, js') \<Longrightarrow>
     h = List.filter (job_due now) js \<and> list_all2 (after_round off now) js js'"
  using NextAfter_later [of now off]
  by (induction js arbitrary: h js') (auto simp: after_round_def bind_eq_Some_conv split: if_splits)

lemma after_round_ids: "list_all2 (after_round off now) js js' \<Longrightarrow> map cj_id js' = map cj_id js"
  by (induction js js' rule: list_all2_induct) (auto simp: after_round_def)

lemma after_round_member: "list_all2 (after_round off now) js js' \<Longrightarrow> j \<in> set js \<Longrightarrow> \<exists>j' \<in> set js'. after_round off now j j'"
  by (induction js js' rule: list_all2_induct) auto

lemma scheduler_tick_cases:
  assumes "scheduler_tick off t s d = Some (s1, d1, h)"
  shows "h = List.filter (job_due t) (cs_jobs s) \<and> list_all2 (after_round off t) (cs_jobs s) (cs_jobs s1)"
  using assms run_due_handled by (auto simp: scheduler_tick_def Let_def split: option.splits)

lemma handled_at_spaced:
  assumes "distinct (map cj_id (cs_jobs s))" and "j \<in> set (cs_jobs s)"
  shows "(\<forall>t \<in> set (handled_at off (cj_id j) s d ts). cj_next_run j \<le> t)
     \<and> sorted_wrt (\<lambda>a b. local_minute off a < local_minute off b) (handled_at off (cj_id j) s d ts)"
  using assms
proof (induction ts arbitrary: s d j)
  case (Cons t ts)
  show ?case
  proof (cases "scheduler_tick off t s d")
    case (Some r)
    obtain s1 d1 h where r: "r = (s1, d1, h)" by (cases r)
    with Some scheduler_tick_cases
    have h: "h = List.filter (job_due t) (cs_jobs s)" and l: "list_all2 (after_round off t) (cs_jobs s) (cs_jobs s1)" by blast+
    from after_round_member [OF l Cons.prems(2)] obtain j' where
      j': "j' \<in> set (cs_jobs s1)" "after_round off t j j'" by blast
    then have ids: "cj_id j' = cj_id j" by (simp add: after_round_def)
    have "distinct (map cj_id (cs_jobs s1))" using after_round_ids [OF l] Cons.prems(1) by simp
    from Cons.IH [OF this j'(1)] have IH:
      "\<forall>u \<in> set (handled_at off (cj_id j) s1 d1 ts). cj_next_run j' \<le> u"
      "sorted_wrt (\<lambda>a b. local_minute off a < local_minute off b) (handled_at off (cj_id j) s1 d1 ts)" by (simp_all add: ids)
    have due: "cj_id j \<in> cj_id ` set h \<longleftrightarrow> job_due t j"
      using Cons.prems by (auto simp: h distinct_map inj_on_def)
    show ?thesis
    proof (cases "job_due t j")
      case True
      with j' have n: "t < cj_next_run j'" "local_minute off t < local_minute off (cj_next_run j')"
        by (simp_all add: after_round_def)
      have "\<forall>u \<in> set (handled_at off (cj_id j) s1 d1 ts). t < u \<and> local_minute off t < local_minute off u"
        using IH(1) n local_minute_mono [of "cj_next_run j'" _ off] by fastforce
      with IH True show ?thesis by (auto simp: Some r due job_due_def less_imp_le)
    next
      case False
      with j' have "j' = j" by (simp add: after_round_def)
      with IH False show ?thesis by (simp add: Some r due)
    qed
  qed simp
qed simp

text \<open>
  Claim C14. However often the loop looks, and however the clock is set meanwhile: two runs of a job never
  fall into the same minute of local time, and each run's minute is later than that of the one
  before.
\<close>

theorem once_per_minute:
  assumes "distinct (map cj_id (cs_jobs s))"
  shows "sorted_wrt (\<lambda>a b. local_minute off a < local_minute off b) (handled_at off job_id s d ts)"
proof (cases "job_id \<in> cj_id ` set (cs_jobs s)")
  case True
  then obtain j where "j \<in> set (cs_jobs s)" "job_id = cj_id j" by blast
  with handled_at_spaced [OF assms] show ?thesis by simp
next
  case False
  then have "handled_at off job_id s d ts = []"
  proof (induction ts arbitrary: s d)
    case (Cons t ts)
    show ?case
    proof (cases "scheduler_tick off t s d")
      case (Some r)
      obtain s1 d1 h where r: "r = (s1, d1, h)" by (cases r)
      with Some scheduler_tick_cases
      have h: "h = List.filter (job_due t) (cs_jobs s)" and l: "list_all2 (after_round off t) (cs_jobs s) (cs_jobs s1)" by blast+
      from arg_cong [OF after_round_ids [OF l], of set] Cons.prems have "job_id \<notin> cj_id ` set (cs_jobs s1)" by simp
      from Cons.IH [OF this] Cons.prems show ?thesis by (auto simp: Some r h)
    qed simp
  qed simp
  then show ?thesis by simp
qed

section \<open>Removal\<close>

definition extends_id :: "string \<Rightarrow> CronJob \<Rightarrow> bool" where
  "extends_id job_id j \<longleftrightarrow> length job_id < length (cj_id j) \<and> take (length job_id) (cj_id j) = job_id"

lemma scan_jobs_exact:
  "cj_id j = job_id \<Longrightarrow> job_id \<notin> cj_id ` set pre \<Longrightarrow> scan_jobs job_id (pre @ j # post) i ms = Inl (i + length pre)"
  by (induction pre arbitrary: i ms) auto

lemma scan_jobs_prefix:
  "job_id \<notin> cj_id ` set js \<Longrightarrow>
     scan_jobs job_id js i ms = Inr (ms @ map fst (List.filter (\<lambda>(_, j). extends_id job_id j) (enumerate i js)))"
  by (induction js arbitrary: i ms) (auto simp: extends_id_def)

lemma filter_enumerate: "length (List.filter (\<lambda>(_, j). P j) (enumerate i js)) = length (List.filter P js)"
  by (induction js arbitrary: i) auto

lemma erase_unique:
  "length (List.filter P js) = 1 \<Longrightarrow>
     erase_at (hd (map fst (List.filter (\<lambda>(_, j). P j) (enumerate i js))) - i) js = List.filter (\<lambda>j. \<not> P j) js"
proof (induction js arbitrary: i)
  case (Cons j js)
  show ?case
  proof (cases "P j")
    case True
    with Cons.prems have "List.filter P js = []" by simp
    then have "List.filter (\<lambda>j. \<not> P j) js = js" by (auto simp: filter_empty_conv filter_id_conv)
    with True show ?thesis by (simp add: erase_at_def)
  next
    case False
    let ?ms = "List.filter (\<lambda>(_, j). P j) (enumerate (Suc i) js)"
    have one: "length (List.filter P js) = 1" using False Cons.prems by simp
    then obtain m ms where ms: "?ms = m # ms" using filter_enumerate [of P "Suc i" js] by (cases ?ms) auto
    then have "m \<in> set ?ms" by simp
    then have "m \<in> set (enumerate (Suc i) js)" by simp
    then have "Suc i \<le> fst m" by (auto simp: in_set_enumerate_eq)
    then have "fst m - i = Suc (fst m - Suc i)" by simp
    with False Cons.IH [OF one, of "Suc i"] ms show ?thesis by (simp add: erase_at_def)
  qed
qed simp

text \<open>
  What a removal removes: the first job with exactly the given identifier; without one, the only
  job whose identifier the given text begins; otherwise nothing.
\<close>

theorem removal:
  assumes "RemoveJob job_id s d = (s1, d1, removed)"
  shows "(removed \<longrightarrow> job_id \<noteq> [] \<and> (if job_id \<in> cj_id ` set (cs_jobs s)
            then \<exists>pre j post. cs_jobs s = pre @ j # post \<and> cj_id j = job_id \<and> job_id \<notin> cj_id ` set pre \<and> cs_jobs s1 = pre @ post
            else length (List.filter (extends_id job_id) (cs_jobs s)) = 1
              \<and> cs_jobs s1 = List.filter (\<lambda>j. \<not> extends_id job_id j) (cs_jobs s)))
     \<and> (\<not> removed \<longrightarrow> s1 = s \<and> d1 = d \<and> (job_id = [] \<or> job_id \<notin> cj_id ` set (cs_jobs s)
            \<and> length (List.filter (extends_id job_id) (cs_jobs s)) \<noteq> 1))"
proof (cases "job_id = []")
  case ne: False
  show ?thesis
  proof (cases "job_id \<in> cj_id ` set (cs_jobs s)")
    case True
    then obtain pre j post where js: "cs_jobs s = pre @ j # post" "cj_id j = job_id" "job_id \<notin> cj_id ` set pre"
      using split_list_first_prop [of "cs_jobs s" "\<lambda>j. cj_id j = job_id"] by fastforce
    from scan_jobs_exact [OF js(2,3), of post 0 "[]"]
    have "removed" "cs_jobs s1 = pre @ post" using assms ne js(1) by (auto simp: RemoveJob_def Let_def erase_at_def)
    with js ne True show ?thesis by auto
  next
    case False
    let ?ms = "map fst (List.filter (\<lambda>(_, j). extends_id job_id j) (enumerate 0 (cs_jobs s)))"
    have n: "length ?ms = length (List.filter (extends_id job_id) (cs_jobs s))" using filter_enumerate by simp
    show ?thesis
    proof (cases "length (List.filter (extends_id job_id) (cs_jobs s)) = 1")
      case True
      from erase_unique [OF this, of 0] have
        "erase_at (hd ?ms) (cs_jobs s) = List.filter (\<lambda>j. \<not> extends_id job_id j) (cs_jobs s)" by simp
      then show ?thesis using assms ne False True n by (auto simp: RemoveJob_def scan_jobs_prefix Let_def)
    qed (use assms ne False n in \<open>auto simp: RemoveJob_def scan_jobs_prefix Let_def\<close>)
  qed
qed (use assms in \<open>simp add: RemoveJob_def\<close>)

section \<open>The file of the jobs\<close>

definition reloaded :: "int \<Rightarrow> time \<Rightarrow> CronJob \<Rightarrow> CronJob" where
  "reloaded off now j = j\<lparr>cj_last_run := 0,
     cj_next_run := (case CronExpression_init (cj_schedule j) of None \<Rightarrow> 0 | Some e \<Rightarrow> NextAfter off e now)\<rparr>"

lemma load_saved:
  "list_all (\<lambda>j. job_ok j \<and> cj_schedule j \<noteq> []) js \<Longrightarrow>
     load_items off now (map (\<lambda>j. Some (CronJob_ToJson j)) js @ rest) = map (reloaded off now) js @ load_items off now rest"
  by (induction js)
    (auto simp: job_ok_def reloaded_def CronJob_ToJson_def CronJob_FromJson_def Let_def split: option.splits)

text \<open>
  Saving and loading keeps every job with its identifier, schedule, message and session; the time
  of the last run is lost, and the next run is computed anew, so a run missed in between is not
  made up for. But an entry that does not parse ends the loading: it and all entries after
  it are dropped, and the next addition or removal writes the shortened list over the file.
\<close>

theorem saved_jobs:
  assumes "list_all (\<lambda>j. job_ok j \<and> cj_schedule j \<noteq> []) (cs_jobs s)"
    and "CronExpression_init (cj_schedule bad) = None" and "cj_id bad \<noteq> []" and "cj_schedule bad \<noteq> []"
  shows "cs_jobs (LoadJobs off now (SaveJobs p s d) p s0) = map (reloaded off now) (cs_jobs s)
     \<and> cs_jobs (LoadJobs off now (AList.update p (JobArray
          (map (\<lambda>j. Some (CronJob_ToJson j)) (cs_jobs s) @ Some (CronJob_ToJson bad) # rest)) d) p s0)
       = map (reloaded off now) (cs_jobs s)"
proof -
  have "load_items off now (Some (CronJob_ToJson bad) # rest) = []"
    using assms(2-4) by (simp add: CronJob_FromJson_def CronJob_ToJson_def)
  with load_saved [OF assms(1), of off now] load_saved [OF assms(1), of off now "[]"] show ?thesis
    by (simp add: LoadJobs_def SaveJobs_def store_simps)
qed

section \<open>Witnesses\<close>

definition demo_job :: CronJob where
  "demo_job = \<lparr>cj_id = ''abc1'', cj_name = [], cj_schedule = ''75 * * * *'', cj_message = [],
     cj_session_key = [], cj_enabled = True, cj_last_run = 0, cj_next_run = secs 60\<rparr>"

definition demo_scheduler :: CronScheduler where
  "demo_scheduler = \<lparr>cs_jobs = [demo_job, demo_job\<lparr>cj_id := ''abd2'', cj_enabled := False\<rparr>], cs_storage_path = []\<rparr>"

lemma demo_schedule: "CronExpression_init ''75 * * * *''
    = Some \<lparr>ce_minute = [75], ce_hour = [], ce_day_of_month = [], ce_month = [], ce_day_of_week = []\<rparr>" by code_simp

lemma demo_next: "0 \<le> local_minute 0 t \<Longrightarrow> NextAfter 0
    \<lparr>ce_minute = [75], ce_hour = [], ce_day_of_month = [], ce_month = [], ce_day_of_week = []\<rparr> t = t + hours 1"
  by (intro NextAfter_never out_of_range_never) (auto simp: out_of_range_def)

theorem once_per_minute_witness:
  "handled_at 0 ''abc1'' demo_scheduler [] [secs 60, secs 90, secs 3700] = [secs 60, secs 3700]
   \<and> sorted_wrt (\<lambda>a b. local_minute 0 a < local_minute 0 b) [secs 60, secs 3700]"
proof -
  have "handled_at 0 ''abc1'' demo_scheduler [] [secs 60, secs 90, secs 3700] = [secs 60, secs 3700]"
    by (simp add: demo_scheduler_def demo_job_def scheduler_tick_def job_due_def demo_schedule
        demo_next local_minute_def Let_def save_if_stored_def) (simp add: secs_def hours_def)
  moreover have "distinct (map cj_id (cs_jobs demo_scheduler))" by (simp add: demo_scheduler_def demo_job_def)
  ultimately show ?thesis
    using once_per_minute [of demo_scheduler 0 "''abc1''" "[]" "[secs 60, secs 90, secs 3700]"] by simp
qed

theorem removal_witness:
  "case RemoveJob ''abd'' demo_scheduler [] of (s1, d1, removed) \<Rightarrow> removed \<and> map cj_id (cs_jobs s1) = [''abc1'']"
proof -
  obtain s1 d1 removed where r: "RemoveJob ''abd'' demo_scheduler [] = (s1, d1, removed)" by (cases "RemoveJob ''abd'' demo_scheduler []")
  from removal [OF this] show ?thesis
    by (simp add: r) (auto simp: demo_scheduler_def demo_job_def extends_id_def split: if_splits)
qed

theorem saved_jobs_witness:
  "map cj_id (cs_jobs (LoadJobs 0 0 (SaveJobs ''f'' demo_scheduler []) ''f'' CronScheduler_init)) = [''abc1'', ''abd2'']"
proof -
  have "CronExpression_init ''-5'' = None" by code_simp
  then show ?thesis
    using saved_jobs [of demo_scheduler "demo_job\<lparr>cj_schedule := ''-5''\<rparr>" 0 0 "''f''" "[]" CronScheduler_init "[]"]
    by (simp add: demo_scheduler_def demo_job_def job_ok_def demo_schedule reloaded_def)
qed

end
