(* ===== verification/Hooks.thy ===== *)
theory Hooks
  imports RavPrelude "HOL-Library.Multiset" "HOL-Library.List_Lexorder"
begin

text \<open>
  The hook manager (\<open>plugins/hook_manager.cpp\<close>): the table of modes, registration in
  order of priority, the three ways of firing a hook, and the forwarding to the sidecar
  process. \<open>merge_patch\<close> of the JSON library, \<open>std::sort\<close>, the order in which
  parallel handlers finish and the sidecar are arguments. The measured times are left out of
  the statistics.
\<close>

section \<open>Hooks and their modes\<close>

datatype hjson = HNull | HBool bool | HObject "(string \<times> hjson) list" | HOther string

datatype HookMode = kVoid | kModifying | kSync

definition modifying_hooks :: "string list" where
  "modifying_hooks = [''before_model_resolve'', ''before_prompt_build'', ''before_agent_start'', ''message_sending'',
     ''before_tool_call'', ''subagent_spawning'', ''subagent_delivery_target'']"

definition sync_hooks :: "string list" where
  "sync_hooks = [''tool_result_persist'', ''before_message_write'']"

definition void_hooks :: "string list" where
  "void_hooks = [''llm_input'', ''llm_output'', ''agent_end'', ''before_compaction'', ''after_compaction'',
     ''before_reset'', ''message_received'', ''message_sent'', ''after_tool_call'', ''session_start'', ''session_end'',
     ''subagent_spawned'', ''subagent_ended'', ''gateway_start'', ''gateway_stop'']"

definition kHookModes :: "(string, HookMode) umap" where
  "kHookModes = map (\<lambda>h. (h, kModifying)) modifying_hooks @ map (\<lambda>h. (h, kSync)) sync_hooks
     @ map (\<lambda>h. (h, kVoid)) void_hooks"

definition GetHookMode :: "string \<Rightarrow> HookMode" where
  "GetHookMode hook_name = (case map_of kHookModes hook_name of Some m \<Rightarrow> m | None \<Rightarrow> kVoid)"

text \<open>A handler returns a value or throws an exception with a message.\<close>

type_synonym hook_handler = "hjson \<Rightarrow> string + hjson"

record HookRegistration =
  hr_plugin_id :: string
  hr_hook_name :: string
  hr_handler :: hook_handler
  hr_priority :: int

record HookStats =
  hs_hook_name :: string
  hs_plugin_id :: string
  hs_success :: bool
  hs_error :: string

text \<open>The sidecar: whether a call was answered, and with what, for a method time limit.\<close>

record sidecar_response =
  sc_ok :: bool
  sc_result :: hjson

type_synonym sidecar = "string \<Rightarrow> hjson \<Rightarrow> int \<Rightarrow> sidecar_response"

record HookManager =
  hm_hooks :: "(string, HookRegistration list) umap"
  hm_sidecar :: "sidecar option"
  hm_stats :: "HookStats list"

definition HookManager_init :: HookManager where
  "HookManager_init = \<lparr>hm_hooks = [], hm_sidecar = None, hm_stats = []\<rparr>"

section \<open>Registration\<close>

definition RegisterHook :: "(HookRegistration list \<Rightarrow> HookRegistration list) \<Rightarrow> string \<Rightarrow> string \<Rightarrow> hook_handler \<Rightarrow> int
    \<Rightarrow> HookManager \<Rightarrow> HookManager" where
  "RegisterHook std_sort hook_name plugin_id handler priority m =
     m\<lparr>hm_hooks := AList.update hook_name
        (std_sort (um_at (hm_hooks m) hook_name []
           @ [\<lparr>hr_plugin_id = plugin_id, hr_hook_name = hook_name, hr_handler = handler, hr_priority = priority\<rparr>]))
        (hm_hooks m)\<rparr>"

definition SetSidecar :: "sidecar option \<Rightarrow> HookManager \<Rightarrow> HookManager" where
  "SetSidecar sc m = m\<lparr>hm_sidecar := sc\<rparr>"

text \<open>
  The result of \<open>UnregisterHook\<close> is read off the handler list. When that list became empty
  it has just been erased with its entry: the read is undefined, \<open>None\<close>.
\<close>

definition UnregisterHook :: "string \<Rightarrow> string \<Rightarrow> HookManager \<Rightarrow> HookManager \<times> bool option" where
  "UnregisterHook hook_name plugin_id m =
     (case map_of (hm_hooks m) hook_name of
        None \<Rightarrow> (m, Some False)
      | Some handlers \<Rightarrow>
          let rest = List.filter (\<lambda>r. hr_plugin_id r \<noteq> plugin_id) handlers
          in if rest = [] then (m\<lparr>hm_hooks := AList.delete hook_name (hm_hooks m)\<rparr>, None)
             else (m\<lparr>hm_hooks := AList.update hook_name rest (hm_hooks m)\<rparr>, Some (length rest < length handlers)))"

definition ClearHooks :: "HookManager \<Rightarrow> HookManager" where
  "ClearHooks m = m\<lparr>hm_hooks := []\<rparr>"

definition RegisteredHooks :: "HookManager \<Rightarrow> string list" where
  "RegisteredHooks m = sort (map fst (hm_hooks m))"

definition HandlerCount :: "string \<Rightarrow> HookManager \<Rightarrow> nat" where
  "HandlerCount hook_name m = (case map_of (hm_hooks m) hook_name of None \<Rightarrow> 0 | Some hs \<Rightarrow> length hs)"

definition GetHookStats :: "HookManager \<Rightarrow> HookStats list" where "GetHookStats m = hm_stats m"

definition ClearHookStats :: "HookManager \<Rightarrow> HookManager" where "ClearHookStats m = m\<lparr>hm_stats := []\<rparr>"

section \<open>Firing\<close>

definition hook_stat :: "HookRegistration \<Rightarrow> string \<Rightarrow> hjson \<Rightarrow> HookStats" where
  "hook_stat reg hook_name event =
     (case hr_handler reg event of
        Inl e \<Rightarrow> \<lparr>hs_hook_name = hook_name, hs_plugin_id = hr_plugin_id reg, hs_success = False, hs_error = e\<rparr>
      | Inr _ \<Rightarrow> \<lparr>hs_hook_name = hook_name, hs_plugin_id = hr_plugin_id reg, hs_success = True, hs_error = []\<rparr>)"

definition ForwardToSidecar :: "string \<Rightarrow> hjson \<Rightarrow> HookManager \<Rightarrow> hjson" where
  "ForwardToSidecar hook_name event m =
     (case hm_sidecar m of
        None \<Rightarrow> HObject []
      | Some sc \<Rightarrow>
          let params = HObject [(''hookName'', HOther hook_name), (''event'', event)];
              timeout_ms = (if GetHookMode hook_name = kSync then 5000 else 30000);
              resp = sc ''plugin.hooks'' params timeout_ms
          in if sc_ok resp then (case sc_result resp of HObject r \<Rightarrow> HObject r | _ \<Rightarrow> HObject []) else HObject [])"

text \<open>All handlers run; \<open>order\<close> is the order in which they finish.\<close>

definition FireVoid :: "(HookRegistration list \<Rightarrow> HookRegistration list) \<Rightarrow> string \<Rightarrow> HookRegistration list \<Rightarrow> hjson
    \<Rightarrow> HookManager \<Rightarrow> HookManager \<times> hjson" where
  "FireVoid order hook_name handlers event m =
     (m\<lparr>hm_stats := hm_stats m @ map (\<lambda>reg. hook_stat reg hook_name event) (order handlers)\<rparr>, HObject [])"

definition stop_key :: string where "stop_key = ''stop_propagation''"

definition wants_stop :: "(string \<times> hjson) list \<Rightarrow> bool" where
  "wants_stop obj = (map_of obj stop_key = Some (HBool True))"

text \<open>The loop over the handlers: the merged result, the statistics, and whether it was stopped.\<close>

fun run_modifying :: "(hjson \<Rightarrow> hjson \<Rightarrow> hjson) \<Rightarrow> string \<Rightarrow> hjson \<Rightarrow> HookRegistration list \<Rightarrow> hjson \<Rightarrow> HookStats list
    \<Rightarrow> hjson \<times> HookStats list \<times> bool" where
  "run_modifying merge_patch hook_name event [] merged stats = (merged, stats, False)"
| "run_modifying merge_patch hook_name event (reg # regs) merged stats =
     (let stats1 = stats @ [hook_stat reg hook_name event]
      in case hr_handler reg event of
           Inr (HObject obj) \<Rightarrow>
             if wants_stop obj then (merge_patch merged (HObject (AList.delete stop_key obj)), stats1, True)
             else run_modifying merge_patch hook_name event regs (merge_patch merged (HObject obj)) stats1
         | _ \<Rightarrow> run_modifying merge_patch hook_name event regs merged stats1)"

definition FireModifying :: "(hjson \<Rightarrow> hjson \<Rightarrow> hjson) \<Rightarrow> string \<Rightarrow> HookRegistration list \<Rightarrow> hjson
    \<Rightarrow> HookManager \<Rightarrow> HookManager \<times> hjson" where
  "FireModifying merge_patch hook_name handlers event m =
     (case run_modifying merge_patch hook_name event handlers (HObject []) (hm_stats m) of
        (merged, stats, stopped) \<Rightarrow>
          (m\<lparr>hm_stats := stats\<rparr>, if stopped then merged else merge_patch merged (ForwardToSidecar hook_name event m)))"

fun run_sync :: "(hjson \<Rightarrow> hjson \<Rightarrow> hjson) \<Rightarrow> string \<Rightarrow> hjson \<Rightarrow> HookRegistration list \<Rightarrow> hjson \<Rightarrow> HookStats list
    \<Rightarrow> hjson \<times> HookStats list" where
  "run_sync merge_patch hook_name event [] merged stats = (merged, stats)"
| "run_sync merge_patch hook_name event (reg # regs) merged stats =
     (let stats1 = stats @ [hook_stat reg hook_name event]
      in case hr_handler reg event of
           Inr (HObject obj) \<Rightarrow> run_sync merge_patch hook_name event regs (merge_patch merged (HObject obj)) stats1
         | _ \<Rightarrow> run_sync merge_patch hook_name event regs merged stats1)"

definition FireSync :: "(hjson \<Rightarrow> hjson \<Rightarrow> hjson) \<Rightarrow> string \<Rightarrow> HookRegistration list \<Rightarrow> hjson
    \<Rightarrow> HookManager \<Rightarrow> HookManager \<times> hjson" where
  "FireSync merge_patch hook_name handlers event m =
     (case run_sync merge_patch hook_name event handlers (HObject []) (hm_stats m) of
        (merged, stats) \<Rightarrow> (m\<lparr>hm_stats := stats\<rparr>, merge_patch merged (ForwardToSidecar hook_name event m)))"

definition Fire :: "(hjson \<Rightarrow> hjson \<Rightarrow> hjson) \<Rightarrow> (HookRegistration list \<Rightarrow> HookRegistration list) \<Rightarrow> string \<Rightarrow> hjson
    \<Rightarrow> HookManager \<Rightarrow> HookManager \<times> hjson" where
  "Fire merge_patch order hook_name event m =
     (let handlers = um_at (hm_hooks m) hook_name []
      in case GetHookMode hook_name of
           kVoid \<Rightarrow> FireVoid order hook_name handlers event m
         | kModifying \<Rightarrow> FireModifying merge_patch hook_name handlers event m
         | kSync \<Rightarrow> FireSync merge_patch hook_name handlers event m)"

section \<open>Handlers are kept in order of priority\<close>

definition sorts :: "(HookRegistration list \<Rightarrow> HookRegistration list) \<Rightarrow> bool" where
  "sorts f \<longleftrightarrow> (\<forall>xs. mset (f xs) = mset xs \<and> sorted_wrt (\<lambda>a b. hr_priority b \<le> hr_priority a) (f xs))"

text \<open>Each entry has at least one handler, all of its own hook, by descending priority.\<close>

definition entry_ok :: "string \<times> HookRegistration list \<Rightarrow> bool" where
  "entry_ok e \<longleftrightarrow> snd e \<noteq> [] \<and> list_all (\<lambda>r. hr_hook_name r = fst e) (snd e)
     \<and> sorted_wrt (\<lambda>a b. hr_priority b \<le> hr_priority a) (snd e)"

definition hooks_ok :: "HookManager \<Rightarrow> bool" where
  "hooks_ok m \<longleftrightarrow> um_ok (hm_hooks m) \<and> list_all entry_ok (hm_hooks m)"

datatype hook_event =
    HRegister string string hook_handler int
  | HUnregister string string
  | HFire string hjson
  | HSidecar "sidecar option"
  | HClear

fun hook_next :: "(HookRegistration list \<Rightarrow> HookRegistration list) \<Rightarrow> (hjson \<Rightarrow> hjson \<Rightarrow> hjson)
    \<Rightarrow> (HookRegistration list \<Rightarrow> HookRegistration list) \<Rightarrow> HookManager \<Rightarrow> hook_event \<Rightarrow> HookManager" where
  "hook_next std_sort mp order m (HRegister h p f k) = RegisterHook std_sort h p f k m"
| "hook_next std_sort mp order m (HUnregister h p) = fst (UnregisterHook h p m)"
| "hook_next std_sort mp order m (HFire h e) = fst (Fire mp order h e m)"
| "hook_next std_sort mp order m (HSidecar sc) = SetSidecar sc m"
| "hook_next std_sort mp order m HClear = ClearHooks m"

lemma entries_update:
  "list_all entry_ok es \<Longrightarrow> entry_ok (k, v) \<Longrightarrow> list_all entry_ok (AList.update k v es)"
  by (induction es) auto

lemma entries_delete: "list_all entry_ok es \<Longrightarrow> list_all entry_ok (AList.delete k es)"
  by (auto simp: list_all_iff AList.delete_eq)

lemma Fire_hooks [simp]: "hm_hooks (fst (Fire mp order h e m)) = hm_hooks m"
  by (simp add: Fire_def Let_def FireVoid_def FireModifying_def FireSync_def split: HookMode.splits prod.splits)

lemma entry_at: "list_all entry_ok es \<Longrightarrow> map_of es h = Some hs \<Longrightarrow> entry_ok (h, hs)"
  by (auto simp: list_all_iff dest: map_of_SomeD)

lemma hook_next_ok:
  assumes "sorts std_sort" and "hooks_ok m"
  shows "hooks_ok (hook_next std_sort mp order m e)"
proof (cases e)
  case (HRegister h p f k)
  let ?r = "\<lparr>hr_plugin_id = p, hr_hook_name = h, hr_handler = f, hr_priority = k\<rparr>"
  let ?hs = "um_at (hm_hooks m) h []"
  have s: "mset (std_sort (?hs @ [?r])) = mset (?hs @ [?r])" using assms(1) by (simp add: sorts_def)
  have "list_all (\<lambda>r. hr_hook_name r = h) ?hs"
    using assms(2) entry_at [of "hm_hooks m" h] by (auto simp: hooks_ok_def um_at_def entry_ok_def split: option.splits)
  then have "list_all (\<lambda>r. hr_hook_name r = h) (std_sort (?hs @ [?r]))"
    using mset_eq_setD [OF s] by (simp add: list_all_iff)
  moreover have "std_sort (?hs @ [?r]) \<noteq> []" using s by (metis append_is_Nil_conv list.distinct(1) mset_zero_iff)
  ultimately have "entry_ok (h, std_sort (?hs @ [?r]))" using assms(1) by (simp add: entry_ok_def sorts_def)
  with HRegister assms(2) show ?thesis by (simp add: hooks_ok_def RegisterHook_def entries_update)
next
  case (HUnregister h p)
  have "entry_ok (h, List.filter (\<lambda>r. hr_plugin_id r \<noteq> p) hs)"
    if "map_of (hm_hooks m) h = Some hs" "List.filter (\<lambda>r. hr_plugin_id r \<noteq> p) hs \<noteq> []" for hs
    using entry_at [OF _ that(1)] assms(2) that(2)
    by (auto simp: hooks_ok_def entry_ok_def list_all_iff sorted_wrt_filter)
  with HUnregister assms(2) show ?thesis
    by (auto simp: hooks_ok_def UnregisterHook_def Let_def entries_update entries_delete split: option.splits)
qed (use assms(2) in \<open>simp_all add: hooks_ok_def SetSidecar_def ClearHooks_def\<close>)

definition machine_start :: "(HookRegistration list \<Rightarrow> HookRegistration list) \<times> HookManager \<Rightarrow> bool" where
  "machine_start fm \<longleftrightarrow> sorts (fst fm) \<and> snd fm = HookManager_init"

definition machine_next :: "(hjson \<Rightarrow> hjson \<Rightarrow> hjson) \<Rightarrow> (HookRegistration list \<Rightarrow> HookRegistration list)
    \<Rightarrow> (HookRegistration list \<Rightarrow> HookRegistration list) \<times> HookManager \<Rightarrow> hook_event
    \<Rightarrow> (HookRegistration list \<Rightarrow> HookRegistration list) \<times> HookManager" where
  "machine_next mp order fm e = (fst fm, hook_next (fst fm) mp order (snd fm) e)"

definition machine_inv :: "(HookRegistration list \<Rightarrow> HookRegistration list) \<times> HookManager \<Rightarrow> bool" where
  "machine_inv fm \<longleftrightarrow> sorts (fst fm) \<and> hooks_ok (snd fm)"

interpretation hook_machine: guarded_machine machine_start "\<lambda>_ _. True" "machine_next mp order" machine_inv
proof (unfold_locales, goal_cases)
  case (1 m)
  then show ?case by (simp add: machine_start_def machine_inv_def hooks_ok_def HookManager_init_def)
next
  case (2 m e)
  then show ?case by (simp add: machine_inv_def machine_next_def hook_next_ok)
qed

lemma machine_run: "foldl (machine_next mp order) (f, m) es = (f, foldl (hook_next f mp order) m es)"
  by (induction es arbitrary: m) (simp_all add: machine_next_def)

lemma hooks_ok_run: "sorts f \<Longrightarrow> hooks_ok (foldl (hook_next f mp order) HookManager_init es)"
proof -
  assume "sorts f"
  moreover have "hook_machine.enabled_run mp order fm es" for fm by (induction es arbitrary: fm) simp_all
  ultimately have "machine_inv (foldl (machine_next mp order) (f, HookManager_init) es)"
    by (intro hook_machine.inv_from_start) (simp_all add: machine_start_def)
  then show ?thesis by (simp add: machine_run machine_inv_def)
qed

text \<open>The abstract contract of the table: for each hook the bag of the live registrations.\<close>

fun live_next :: "string \<Rightarrow> HookRegistration multiset \<Rightarrow> hook_event \<Rightarrow> HookRegistration multiset" where
  "live_next h M (HRegister h' p f k) =
     (if h' = h then add_mset \<lparr>hr_plugin_id = p, hr_hook_name = h, hr_handler = f, hr_priority = k\<rparr> M else M)"
| "live_next h M (HUnregister h' p) = (if h' = h then filter_mset (\<lambda>r. hr_plugin_id r \<noteq> p) M else M)"
| "live_next h M (HFire _ _) = M"
| "live_next h M (HSidecar _) = M"
| "live_next h M HClear = {#}"

lemma hook_next_live:
  assumes "sorts f"
  shows "mset (um_at (hm_hooks (hook_next f mp order m e)) h []) = live_next h (mset (um_at (hm_hooks m) h [])) e"
proof (cases e)
  case (HUnregister h' p)
  have e: "List.filter P hs = [] \<Longrightarrow> filter_mset P (mset hs) = {#}" for P and hs :: "HookRegistration list"
    by (metis mset_filter mset.simps(1))
  show ?thesis
    by (auto simp: HUnregister UnregisterHook_def Let_def um_at_def store_simps e
        filter_empty_conv simp flip: mset_filter split: option.splits)
qed (use assms in \<open>simp_all add: RegisterHook_def SetSidecar_def ClearHooks_def um_at_def store_simps sorts_def\<close>)

lemma run_live:
  "sorts f \<Longrightarrow> mset (um_at (hm_hooks (foldl (hook_next f mp order) m es)) h [])
     = foldl (live_next h) (mset (um_at (hm_hooks m) h [])) es"
  by (induction es arbitrary: m) (simp_all add: hook_next_live)

text \<open>
  Claim C16. In every run, and for any sorting that sorts, the handlers of a hook are by descending
  priority, and they are exactly the registrations not yet revoked: registrations for other
  hooks, firing, and other plugins' revocations do not touch them.
\<close>

theorem handlers_by_priority:
  assumes "sorts f" and "m = foldl (hook_next f mp order) HookManager_init es"
  shows "sorted_wrt (\<lambda>a b. hr_priority b \<le> hr_priority a) (um_at (hm_hooks m) h [])
     \<and> mset (um_at (hm_hooks m) h []) = foldl (live_next h) {#} es
     \<and> HandlerCount h m = size (foldl (live_next h) {#} es)"
proof -
  have ok: "hooks_ok m" unfolding assms(2) by (rule hooks_ok_run [OF assms(1)])
  have live: "mset (um_at (hm_hooks m) h []) = foldl (live_next h) {#} es"
    unfolding assms(2) using run_live [OF assms(1), where h = h and m = HookManager_init]
    by (simp add: HookManager_init_def um_at_def)
  moreover have "HandlerCount h m = size (mset (um_at (hm_hooks m) h []))"
    by (simp add: HandlerCount_def um_at_def split: option.splits)
  moreover have "sorted_wrt (\<lambda>a b. hr_priority b \<le> hr_priority a) (um_at (hm_hooks m) h [])"
    using ok entry_at [of "hm_hooks m" h] by (auto simp: hooks_ok_def um_at_def entry_ok_def split: option.splits)
  ultimately show ?thesis by simp
qed

section \<open>Results of modifying hooks\<close>

text \<open>The objects a run of the handlers merges, up to a handler that stops the propagation.\<close>

fun patches :: "hjson \<Rightarrow> HookRegistration list \<Rightarrow> (string \<times> hjson) list list \<times> bool" where
  "patches event [] = ([], False)"
| "patches event (reg # regs) =
     (case hr_handler reg event of
        Inr (HObject obj) \<Rightarrow>
          if wants_stop obj then ([AList.delete stop_key obj], True)
          else (case patches event regs of (ps, stopped) \<Rightarrow> (obj # ps, stopped))
      | _ \<Rightarrow> patches event regs)"

lemma run_modifying_patches:
  "(fst (run_modifying mp h event regs merged stats), snd (snd (run_modifying mp h event regs merged stats)))
     = (foldl mp merged (map HObject (fst (patches event regs))), snd (patches event regs))"
  by (induction regs arbitrary: merged stats)
    (auto simp: Let_def split: sum.splits hjson.splits prod.splits)

text \<open>The handlers that run: all of them up to the first that stops the propagation.\<close>

fun reached :: "hjson \<Rightarrow> HookRegistration list \<Rightarrow> HookRegistration list" where
  "reached event [] = []"
| "reached event (reg # regs) =
     reg # (case hr_handler reg event of Inr (HObject obj) \<Rightarrow> if wants_stop obj then [] else reached event regs
            | _ \<Rightarrow> reached event regs)"

lemma run_modifying_stats:
  "fst (snd (run_modifying mp h event regs merged stats)) = stats @ map (\<lambda>r. hook_stat r h event) (reached event regs)"
  by (induction regs arbitrary: merged stats) (auto simp: Let_def split: sum.splits hjson.splits)

text \<open>
  What the documentation of the JSON library says of \<open>merge_patch\<close> for members that are not
  objects themselves: a member of the patch replaces or, if it is null, removes the member
  of the same name, and the others stay.
\<close>

fun member :: "hjson \<Rightarrow> string \<Rightarrow> hjson option" where
  "member (HObject obj) k = map_of obj k"
| "member _ k = None"

definition patch_law :: "(hjson \<Rightarrow> hjson \<Rightarrow> hjson) \<Rightarrow> bool" where
  "patch_law mp \<longleftrightarrow> (\<forall>t obj k.
     (map_of obj k = None \<longrightarrow> member (mp t (HObject obj)) k = member t k)
     \<and> (map_of obj k = Some HNull \<longrightarrow> member (mp t (HObject obj)) k = None)
     \<and> (\<forall>v. map_of obj k = Some v \<and> v \<noteq> HNull \<and> (\<forall>o'. v \<noteq> HObject o') \<longrightarrow> member (mp t (HObject obj)) k = Some v))"

definition scalar :: "hjson \<Rightarrow> bool" where
  "scalar v \<longleftrightarrow> (case v of HObject _ \<Rightarrow> False | _ \<Rightarrow> True)"

text \<open>The value that the last of several objects gives to a member.\<close>

fun last_says :: "string \<Rightarrow> (string \<times> hjson) list list \<Rightarrow> hjson option" where
  "last_says k [] = None"
| "last_says k (obj # objs) =
     (case last_says k objs of
        Some v \<Rightarrow> Some v
      | None \<Rightarrow> map_of obj k)"

definition known :: "hjson option \<Rightarrow> hjson option" where
  "known v = (case v of Some HNull \<Rightarrow> None | _ \<Rightarrow> v)"

lemma merged_member:
  assumes "patch_law mp" and "\<forall>obj \<in> set objs. \<forall>v. map_of obj k = Some v \<longrightarrow> scalar v"
  shows "member (foldl mp t (map HObject objs)) k
     = (case last_says k objs of None \<Rightarrow> member t k | Some v \<Rightarrow> known (Some v))"
  using assms(2)
proof (induction objs arbitrary: t)
  case (Cons obj objs)
  have law: "member (mp t (HObject obj)) k = (case map_of obj k of None \<Rightarrow> member t k | Some v \<Rightarrow> known (Some v))"
  proof (cases "map_of obj k")
    case (Some v)
    with Cons.prems have "scalar v" by simp
    with Some assms(1) show ?thesis by (cases v) (auto simp: patch_law_def known_def scalar_def)
  qed (use assms(1) in \<open>simp add: patch_law_def\<close>)
  from Cons show ?case by (auto simp: law split: option.splits)
qed simp

text \<open>
  The result of a modifying hook: for each member that only gets plain values, the value is the one
  given by the last object merged, where the sidecar comes after the handlers in their order of priority; a
  handler that throws, or returns no object, contributes nothing; and after one that asks to stop,
  no other handler runs and the sidecar is not asked. So of two plugins that set the same member
  the one with the lower priority wins.
\<close>

theorem modifying_result:
  assumes "patch_law mp" and "patches event handlers = (ps, stopped)"
    and "objs = ps @ (case ForwardToSidecar h event m of HObject r \<Rightarrow> if stopped then [] else [r] | _ \<Rightarrow> [])"
    and "\<forall>obj \<in> set objs. \<forall>v. map_of obj k = Some v \<longrightarrow> scalar v"
  shows "member (snd (FireModifying mp h handlers event m)) k = known (last_says k objs)
     \<and> hm_stats (fst (FireModifying mp h handlers event m))
         = hm_stats m @ map (\<lambda>r. hook_stat r h event) (reached event handlers)"
proof -
  have "\<exists>sc. ForwardToSidecar h event m = HObject sc"
    by (simp add: ForwardToSidecar_def Let_def split: option.splits hjson.splits)
  then obtain sc where sc: "ForwardToSidecar h event m = HObject sc" by blast
  obtain merged stats st where r: "run_modifying mp h event handlers (HObject []) (hm_stats m) = (merged, stats, st)"
    using prod_cases3 by blast
  with run_modifying_patches [of mp h event handlers "HObject []" "hm_stats m"] assms(2)
  have mg: "merged = foldl mp (HObject []) (map HObject ps)" and st: "st = stopped" by simp_all
  have "snd (FireModifying mp h handlers event m) = foldl mp (HObject []) (map HObject objs)"
    using assms(3) by (simp add: FireModifying_def r mg st sc)
  moreover have "member (foldl mp (HObject []) (map HObject objs)) k = known (last_says k objs)"
    using merged_member [OF assms(1,4), of "HObject []"] by (auto simp: known_def split: option.splits hjson.splits)
  ultimately show ?thesis
    using run_modifying_stats [of mp h event handlers "HObject []" "hm_stats m"] by (simp add: FireModifying_def r)
qed

text \<open>
  Revoking the last handlers of a hook reads its handler list after it was erased, so the answer is
  undefined exactly then; the table itself is as it should be.
\<close>

theorem unregister_answer:
  assumes "map_of (hm_hooks m) h = Some handlers"
  shows "(snd (UnregisterHook h p m) = None \<longleftrightarrow> list_all (\<lambda>r. hr_plugin_id r = p) handlers)
     \<and> (snd (UnregisterHook h p m) \<noteq> None \<longrightarrow>
          snd (UnregisterHook h p m) = Some (\<not> list_all (\<lambda>r. hr_plugin_id r \<noteq> p) handlers))
     \<and> um_at (hm_hooks (fst (UnregisterHook h p m))) h [] = List.filter (\<lambda>r. hr_plugin_id r \<noteq> p) handlers"
proof -
  have "length (List.filter Q xs) < length xs \<longleftrightarrow> \<not> list_all Q xs" for Q and xs :: "HookRegistration list"
    by (metis length_filter_less filter_id_conv list_all_iff nless_le order_less_irrefl)
  moreover have "List.filter (\<lambda>r. hr_plugin_id r \<noteq> p) handlers = [] \<longleftrightarrow> list_all (\<lambda>r. hr_plugin_id r = p) handlers"
    by (auto simp: filter_empty_conv list_all_iff)
  ultimately show ?thesis
    using assms by (auto simp: UnregisterHook_def Let_def um_at_def store_simps)
qed

section \<open>Witnesses\<close>

definition by_priority :: "HookRegistration list \<Rightarrow> HookRegistration list" where
  "by_priority = sort_key (\<lambda>r. - hr_priority r)"

lemma by_priority_sorts: "sorts by_priority"
proof -
  have "sorted_wrt (\<lambda>a b. hr_priority b \<le> hr_priority a) (by_priority xs)" for xs
    using sorted_sort_key [of "\<lambda>r. - hr_priority r" xs] by (simp add: by_priority_def sorted_map)
  then show ?thesis by (simp add: sorts_def by_priority_def)
qed

text \<open>A merge of the outermost members, enough for values that are not objects.\<close>

fun merge_flat :: "hjson \<Rightarrow> hjson \<Rightarrow> hjson" where
  "merge_flat t (HObject p) = HObject (List.filter (\<lambda>(k, _). map_of p k \<noteq> Some HNull) p
     @ (case t of HObject obj \<Rightarrow> List.filter (\<lambda>(k, _). k \<notin> fst ` set p) obj | _ \<Rightarrow> []))"
| "merge_flat t v = v"

lemma map_of_filter_key: "map_of (List.filter (\<lambda>(k, _). P k) xs) k = (if P k then map_of xs k else None)"
  by (induction xs) auto

lemma merge_flat_law: "patch_law merge_flat"
proof -
  have "member (merge_flat t (HObject obj)) k = (case map_of obj k of None \<Rightarrow> member t k
      | Some v \<Rightarrow> if v = HNull then None else Some v)" for t obj k
    using map_of_eq_None_iff [of obj k]
    by (cases t; cases "map_of obj k") (auto simp: map_add_def map_of_filter_key)
  then show ?thesis by (auto simp: patch_law_def)
qed

definition says :: "string \<Rightarrow> hjson \<Rightarrow> hook_handler" where "says k v = (\<lambda>_. Inr (HObject [(k, v)]))"

definition demo_run :: "hook_event list" where
  "demo_run = [HRegister ''message_sending'' ''low'' (says ''text'' (HOther ''b'')) 1,
     HRegister ''message_sending'' ''high'' (says ''text'' (HOther ''a'')) 5]"

definition demo_hooks :: HookManager where
  "demo_hooks = foldl (hook_next by_priority merge_flat (\<lambda>x. x)) HookManager_init demo_run"

theorem handlers_by_priority_witness:
  "map hr_plugin_id (um_at (hm_hooks demo_hooks) ''message_sending'' []) = [''high'', ''low'']
   \<and> HandlerCount ''message_sending'' demo_hooks = 2"
proof -
  have "HandlerCount ''message_sending'' demo_hooks = 2"
    using handlers_by_priority [OF by_priority_sorts demo_hooks_def, of "''message_sending''"]
    by (simp add: demo_run_def)
  moreover have "map hr_plugin_id (um_at (hm_hooks demo_hooks) ''message_sending'' []) = [''high'', ''low'']"
    by (simp add: demo_hooks_def demo_run_def RegisterHook_def um_at_def HookManager_init_def by_priority_def)
  ultimately show ?thesis by simp
qed

text \<open>Two handlers set the same member: the one with the lower priority comes last and wins.\<close>

theorem modifying_result_witness:
  "member (snd (FireModifying merge_flat ''message_sending''
     (um_at (hm_hooks demo_hooks) ''message_sending'' []) (HObject []) demo_hooks)) ''text'' = Some (HOther ''b'')"
proof -
  let ?hs = "um_at (hm_hooks demo_hooks) ''message_sending'' []"
  have hs: "map hr_handler ?hs = [says ''text'' (HOther ''a''), says ''text'' (HOther ''b'')]" "hm_sidecar demo_hooks = None"
    by (simp_all add: demo_hooks_def demo_run_def RegisterHook_def um_at_def HookManager_init_def by_priority_def)
  then obtain r1 r2 where r: "?hs = [r1, r2]" "hr_handler r1 = says ''text'' (HOther ''a'')" "hr_handler r2 = says ''text'' (HOther ''b'')"
    by auto
  have "patches (HObject []) ?hs = ([[(''text'', HOther ''a'')], [(''text'', HOther ''b'')]], False)"
    by (simp add: r says_def wants_stop_def stop_key_def)
  moreover have "ForwardToSidecar ''message_sending'' (HObject []) demo_hooks = HObject []"
    by (simp add: ForwardToSidecar_def hs)
  ultimately show ?thesis
    using modifying_result [OF merge_flat_law, of "HObject []" ?hs _ False _ "''message_sending''" demo_hooks "''text''"]
    by (simp add: scalar_def known_def)
qed

theorem unregister_answer_witness:
  "snd (UnregisterHook ''message_sending'' ''low'' demo_hooks) = Some True"
proof -
  let ?hs = "um_at (hm_hooks demo_hooks) ''message_sending'' []"
  have hs: "map hr_plugin_id ?hs = [''high'', ''low'']" "map_of (hm_hooks demo_hooks) ''message_sending'' = Some ?hs"
    by (simp_all add: demo_hooks_def demo_run_def RegisterHook_def um_at_def HookManager_init_def by_priority_def)
  then obtain r1 r2 where "?hs = [r1, r2]" "hr_plugin_id r1 = ''high''" "hr_plugin_id r2 = ''low''" by auto
  then show ?thesis using unregister_answer [OF hs(2), of "''low''"] by auto
qed

end
