(* ===== verification/Subagents.thy ===== *)
theory Subagents
  imports StringUtil
begin

text \<open>
  The sub-agent manager (\<open>core/subagent.cpp\<close>): spawning under the limits of the
  configuration, the states of a run, the lists of children, and the clean-up. The function that
  runs an agent is an argument, which may itself change the manager (a child that spawns); the
  random numbers of the identifiers are arguments too.
\<close>

section \<open>State\<close>

datatype SpawnMode = kRun | kSession

fun spawn_mode_to_string :: "SpawnMode \<Rightarrow> string" where
  "spawn_mode_to_string kRun = ''run''"
| "spawn_mode_to_string kSession = ''session''"

definition spawn_mode_from_string :: "string \<Rightarrow> SpawnMode" where
  "spawn_mode_from_string s = (if s = ''session'' then kSession else kRun)"

record SpawnParams =
  sp_task :: string
  sp_label :: string
  sp_agent_id :: string
  sp_model :: string
  sp_mode :: SpawnMode
  sp_cleanup :: bool

datatype SpawnStatus = kAccepted | kForbidden | kError

record SpawnResult =
  sres_status :: SpawnStatus
  sres_child_session_key :: string
  sres_run_id :: string
  sres_mode :: SpawnMode
  sres_note :: string
  sres_error :: string

datatype RunState = kRunning | kCompleted | kFailed | kCancelled

record SubagentRun =
  ru_run_id :: string
  ru_child_session_key :: string
  ru_parent_session_key :: string
  ru_label :: string
  ru_model :: string
  ru_mode :: SpawnMode
  ru_cleanup :: bool
  ru_state :: RunState
  ru_result_summary :: string

record SubagentConfig =
  sg_max_depth :: int
  sg_max_children :: int
  sg_allowed_agents :: "string list"

text \<open>The JSON of the configuration: a list item that is no string is \<open>None\<close>.\<close>

record subagent_json =
  sj_max_depth :: "int option"
  sj_max_children :: "int option"
  sj_allowed_agents :: "string option list option"

definition SubagentConfig_FromJson :: "subagent_json \<Rightarrow> SubagentConfig" where
  "SubagentConfig_FromJson j = \<lparr>sg_max_depth = value_or (sj_max_depth j) 5, sg_max_children = value_or (sj_max_children j) 5,
     sg_allowed_agents = (case sj_allowed_agents j of None \<Rightarrow> [] | Some items \<Rightarrow> List.map_filter (\<lambda>x. x) items)\<rparr>"

record SubagentManager =
  sm_config :: SubagentConfig
  sm_runs :: "(string, SubagentRun) umap"
  sm_parent_children :: "(string, string list) umap"

definition SubagentManager_init :: SubagentManager where
  "SubagentManager_init = \<lparr>sm_config = \<lparr>sg_max_depth = 5, sg_max_children = 5, sg_allowed_agents = []\<rparr>,
     sm_runs = [], sm_parent_children = []\<rparr>"

definition Configure :: "SubagentConfig \<Rightarrow> SubagentManager \<Rightarrow> SubagentManager" where
  "Configure c m = m\<lparr>sm_config := c\<rparr>"

section \<open>Runs\<close>

definition set_state :: "string \<Rightarrow> RunState \<Rightarrow> string \<Rightarrow> SubagentManager \<Rightarrow> SubagentManager" where
  "set_state run_id st summary m =
     (case map_of (sm_runs m) run_id of
        None \<Rightarrow> m
      | Some run \<Rightarrow> m\<lparr>sm_runs := AList.update run_id (run\<lparr>ru_state := st, ru_result_summary := summary\<rparr>) (sm_runs m)\<rparr>)"

definition CompleteRun :: "string \<Rightarrow> string \<Rightarrow> SubagentManager \<Rightarrow> SubagentManager" where
  "CompleteRun run_id result_summary m = set_state run_id kCompleted result_summary m"

definition FailRun :: "string \<Rightarrow> string \<Rightarrow> SubagentManager \<Rightarrow> SubagentManager" where
  "FailRun run_id error m = set_state run_id kFailed (''Error: '' @ error) m"

definition CancelRun :: "string \<Rightarrow> SubagentManager \<Rightarrow> SubagentManager \<times> bool" where
  "CancelRun run_id m =
     (case map_of (sm_runs m) run_id of
        None \<Rightarrow> (m, False)
      | Some run \<Rightarrow> if ru_state run \<noteq> kRunning then (m, False)
          else (m\<lparr>sm_runs := AList.update run_id (run\<lparr>ru_state := kCancelled\<rparr>) (sm_runs m)\<rparr>, True))"

definition ActiveChildren :: "string \<Rightarrow> SubagentManager \<Rightarrow> SubagentRun list" where
  "ActiveChildren parent m =
     (case map_of (sm_parent_children m) parent of
        None \<Rightarrow> []
      | Some rids \<Rightarrow> List.filter (\<lambda>run. ru_state run = kRunning) (List.map_filter (map_of (sm_runs m)) rids))"

definition AllRuns :: "SubagentManager \<Rightarrow> SubagentRun list" where
  "AllRuns m = map snd (sm_runs m)"

definition GetRun :: "string \<Rightarrow> SubagentManager \<Rightarrow> SubagentRun option" where
  "GetRun run_id m = map_of (sm_runs m) run_id"

definition removable :: "SubagentRun \<Rightarrow> bool" where
  "removable run \<longleftrightarrow> ru_cleanup run \<and> (ru_state run = kCompleted \<or> ru_state run = kFailed \<or> ru_state run = kCancelled)"

definition remove_run :: "string \<Rightarrow> SubagentManager \<Rightarrow> SubagentManager" where
  "remove_run run_id m =
     (case map_of (sm_runs m) run_id of
        None \<Rightarrow> m
      | Some run \<Rightarrow>
          (case map_of (sm_parent_children m) (ru_parent_session_key run) of
             None \<Rightarrow> m
           | Some children \<Rightarrow> m\<lparr>sm_parent_children :=
               AList.update (ru_parent_session_key run) (List.filter (\<lambda>c. c \<noteq> run_id) children) (sm_parent_children m)\<rparr>)
          \<lparr>sm_runs := AList.delete run_id (sm_runs m)\<rparr>)"

definition CleanupCompleted :: "SubagentManager \<Rightarrow> SubagentManager \<times> int" where
  "CleanupCompleted m =
     (let to_remove = map fst (List.filter (\<lambda>(_, run). removable run) (sm_runs m))
      in (fold remove_run to_remove m, int (length to_remove)))"

section \<open>Spawning\<close>

definition generate_run_id :: "nat \<Rightarrow> string" where
  "generate_run_id r = ''sub_'' @ hex_digits r"

definition generate_session_key :: "string \<Rightarrow> nat \<Rightarrow> string" where
  "generate_session_key agent_id r = ''agent:'' @ agent_id @ '':subagent:'' @ hex_digits r"

definition refused :: "string \<Rightarrow> SpawnResult" where
  "refused e = \<lparr>sres_status = kForbidden, sres_child_session_key = [], sres_run_id = [], sres_mode = kRun,
     sres_note = [], sres_error = e\<rparr>"

definition target_agent :: "SpawnParams \<Rightarrow> string" where
  "target_agent params = (if sp_agent_id params = [] then ''default'' else sp_agent_id params)"

text \<open>The checks of \<open>Spawn\<close>; the lock is released after them.\<close>

definition spawn_check :: "SpawnParams \<Rightarrow> string \<Rightarrow> int \<Rightarrow> SubagentManager \<Rightarrow> SpawnResult option" where
  "spawn_check params parent depth m =
     (let cfg = sm_config m in
      if sg_max_depth cfg \<le> depth then
        Some (refused (''Max spawn depth ('' @ to_string (sg_max_depth cfg) @ '') exceeded''))
      else if (case map_of (sm_parent_children m) parent of
                 None \<Rightarrow> False
               | Some rids \<Rightarrow> sg_max_children cfg \<le> int (length (List.filter (\<lambda>rid.
                   case map_of (sm_runs m) rid of None \<Rightarrow> False | Some run \<Rightarrow> ru_state run = kRunning) rids))) then
        Some (refused (''Max active children ('' @ to_string (sg_max_children cfg) @ '') exceeded''))
      else if sg_allowed_agents cfg \<noteq> [] \<and> target_agent params \<notin> set (sg_allowed_agents cfg) then
        Some (refused (''Agent '' @ [CHR 0x27] @ target_agent params @ [CHR 0x27] @ '' not in allowed list''))
      else None)"

definition spawn_insert :: "SpawnParams \<Rightarrow> string \<Rightarrow> nat \<times> nat \<Rightarrow> SubagentManager \<Rightarrow> SubagentManager" where
  "spawn_insert params parent r m =
     (let run_id = generate_run_id (fst r);
          run = \<lparr>ru_run_id = run_id, ru_child_session_key = generate_session_key (target_agent params) (snd r),
            ru_parent_session_key = parent,
            ru_label = (if sp_label params = [] then take 50 (sp_task params) else sp_label params),
            ru_model = sp_model params, ru_mode = sp_mode params, ru_cleanup = sp_cleanup params,
            ru_state = kRunning, ru_result_summary = []\<rparr>
      in m\<lparr>sm_runs := AList.update run_id run (sm_runs m),
           sm_parent_children := AList.update parent (um_at (sm_parent_children m) parent [] @ [run_id]) (sm_parent_children m)\<rparr>)"

definition accepted :: "SpawnParams \<Rightarrow> nat \<times> nat \<Rightarrow> SpawnResult" where
  "accepted params r = \<lparr>sres_status = kAccepted, sres_child_session_key = generate_session_key (target_agent params) (snd r),
     sres_run_id = generate_run_id (fst r), sres_mode = sp_mode params, sres_note = ''Subagent spawned successfully'',
     sres_error = []\<rparr>"

definition extra_prompt :: "SpawnParams \<Rightarrow> int \<Rightarrow> SubagentManager \<Rightarrow> string" where
  "extra_prompt params depth m = ''You are a subagent (depth '' @ to_string (depth + 1) @ ''/''
     @ to_string (sg_max_depth (sm_config m)) @ ''). '' @ ''Your task: '' @ sp_task params"

text \<open>The runner: session key, task, model, prompt; it returns a text or throws (\<open>Inl\<close>).\<close>

type_synonym agent_runner =
  "string \<Rightarrow> string \<Rightarrow> string \<Rightarrow> string \<Rightarrow> SubagentManager \<Rightarrow> SubagentManager \<times> (string + string)"

definition Spawn :: "agent_runner option \<Rightarrow> nat \<times> nat \<Rightarrow> SpawnParams \<Rightarrow> string \<Rightarrow> int \<Rightarrow> SubagentManager
    \<Rightarrow> SubagentManager \<times> SpawnResult" where
  "Spawn runner r params parent depth m =
     (case spawn_check params parent depth m of
        Some rejection \<Rightarrow> (m, rejection)
      | None \<Rightarrow>
          let m1 = spawn_insert params parent r m; run_id = generate_run_id (fst r)
          in case runner of
               None \<Rightarrow> (m1, accepted params r)
             | Some run \<Rightarrow>
                 (case run (generate_session_key (target_agent params) (snd r)) (sp_task params) (sp_model params)
                     (extra_prompt params depth m) m1 of
                    (m2, Inr res) \<Rightarrow> (if res \<noteq> [] then CompleteRun run_id res m2 else m2, accepted params r)
                  | (m2, Inl err) \<Rightarrow> (FailRun run_id err m2,
                      \<lparr>sres_status = kError, sres_child_session_key = [], sres_run_id = [], sres_mode = kRun,
                       sres_note = [], sres_error = err\<rparr>)))"

section \<open>The lists of children\<close>

text \<open>
  The lists name exactly the known runs, each once and under its parent, and a run is stored
  under its own identifier.
\<close>

definition children_of :: "SubagentManager \<Rightarrow> string \<Rightarrow> string list" where
  "children_of m parent = um_at (sm_parent_children m) parent []"

definition parent_of :: "SubagentManager \<Rightarrow> string \<Rightarrow> string option" where
  "parent_of m i = map_option ru_parent_session_key (map_of (sm_runs m) i)"

definition books_ok :: "SubagentManager \<Rightarrow> bool" where
  "books_ok m \<longleftrightarrow> um_ok (sm_runs m) \<and> (\<forall>p. distinct (children_of m p))
     \<and> (\<forall>p i. i \<in> set (children_of m p) \<longleftrightarrow> parent_of m i = Some p)
     \<and> (\<forall>i run. map_of (sm_runs m) i = Some run \<longrightarrow> ru_run_id run = i)"

definition active_count :: "SubagentManager \<Rightarrow> string \<Rightarrow> nat" where
  "active_count m parent = length (ActiveChildren parent m)"

definition running :: "SubagentManager \<Rightarrow> string \<Rightarrow> bool" where
  "running m rid = (case map_of (sm_runs m) rid of None \<Rightarrow> False | Some run \<Rightarrow> ru_state run = kRunning)"

lemma active_count_alt: "active_count m p = length (List.filter (running m) (children_of m p))"
proof -
  have "length (List.filter (\<lambda>run. ru_state run = kRunning) (List.map_filter (map_of (sm_runs m)) rids))
      = length (List.filter (running m) rids)" for rids
    by (induction rids) (auto simp: map_filter_simps running_def split: option.splits)
  then show ?thesis by (auto simp: active_count_def ActiveChildren_def children_of_def um_at_def split: option.splits)
qed

lemma filter_length_mono: "(\<And>x. P x \<Longrightarrow> Q x) \<Longrightarrow> length (List.filter P xs) \<le> length (List.filter Q xs)"
  by (induction xs) auto

lemma spawn_check_active:
  assumes "spawn_check params p d m = None"
  shows "map_of (sm_parent_children m) p = None \<or> int (active_count m p) < sg_max_children (sm_config m)"
proof -
  have "active_count m p = length (List.filter (\<lambda>rid. case map_of (sm_runs m) rid of None \<Rightarrow> False
      | Some run \<Rightarrow> ru_state run = kRunning) (children_of m p))" by (simp add: active_count_alt running_def [abs_def])
  with assms show ?thesis
    by (auto simp: spawn_check_def Let_def children_of_def um_at_def split: if_splits option.splits)
qed

lemma books_child: "books_ok m \<Longrightarrow> i \<in> set (children_of m p) \<longleftrightarrow> parent_of m i = Some p"
  by (simp add: books_ok_def)

lemma books_new: "books_ok m \<Longrightarrow> map_of (sm_runs m) i = None \<Longrightarrow> i \<notin> set (children_of m p)"
  by (simp add: books_child parent_of_def)

lemma spawn_insert_books:
  assumes "books_ok m" and "map_of (sm_runs m) (generate_run_id (fst r)) = None"
  shows "books_ok (spawn_insert params parent r m)"
proof -
  let ?m = "spawn_insert params parent r m" and ?i = "generate_run_id (fst r)"
  have ch: "children_of ?m p = children_of m p @ (if p = parent then [?i] else [])" for p
    by (simp add: children_of_def spawn_insert_def Let_def um_at_def store_simps)
  have po: "parent_of ?m j = (if j = ?i then Some parent else parent_of m j)" for j
    by (simp add: parent_of_def spawn_insert_def Let_def store_simps)
  have id: "map_of (sm_runs ?m) j = Some run \<Longrightarrow> ru_run_id run = j" for j run
    using assms(1) by (auto simp: books_ok_def spawn_insert_def Let_def store_simps split: if_splits)
  have "um_ok (sm_runs ?m)" using assms(1) by (simp add: books_ok_def spawn_insert_def Let_def)
  moreover have "distinct (children_of ?m p)" for p
    using assms(1) books_new [OF assms] by (simp add: ch books_ok_def)
  moreover have "j \<in> set (children_of ?m p) \<longleftrightarrow> parent_of ?m j = Some p" for j p
    using books_new [OF assms, of p] books_child [OF assms(1), of j p] by (auto simp: ch po)
  ultimately show ?thesis using id unfolding books_ok_def by blast
qed

lemma spawn_insert_active:
  assumes "books_ok m" and "map_of (sm_runs m) (generate_run_id (fst r)) = None"
  shows "active_count (spawn_insert params parent r m) p = active_count m p + (if p = parent then 1 else 0)"
proof -
  note new = books_new [OF assms]
  have "List.filter (running (spawn_insert params parent r m)) (children_of m q) = List.filter (running m) (children_of m q)" for q
    using new [of q] by (intro filter_cong) (auto simp: running_def spawn_insert_def Let_def store_simps)
  moreover have "children_of (spawn_insert params parent r m) p
      = children_of m p @ (if p = parent then [generate_run_id (fst r)] else [])"
    by (simp add: children_of_def spawn_insert_def Let_def um_at_def store_simps)
  moreover have "running (spawn_insert params parent r m) (generate_run_id (fst r))"
    by (simp add: running_def spawn_insert_def Let_def store_simps)
  ultimately show ?thesis by (simp add: active_count_alt)
qed

text \<open>A change of the state of a known run that does not make it run again.\<close>

lemma update_run:
  assumes "books_ok m" and "map_of (sm_runs m) i = Some run" and "st \<noteq> kRunning"
    and "m' = m\<lparr>sm_runs := AList.update i (run\<lparr>ru_state := st, ru_result_summary := summary\<rparr>) (sm_runs m)\<rparr>"
  shows "books_ok m' \<and> active_count m' p \<le> active_count m p \<and> sm_config m' = sm_config m"
proof -
  have ch: "children_of m' p = children_of m p" for p by (simp add: assms(4) children_of_def)
  have po: "parent_of m' j = parent_of m j" for j by (simp add: parent_of_def assms(2,4) store_simps)
  have "books_ok m'" using assms(1,2) unfolding books_ok_def ch po by (auto simp: assms(4) store_simps split: if_splits)
  moreover have "active_count m' p \<le> active_count m p"
    unfolding active_count_alt ch using assms(3)
    by (intro filter_length_mono) (auto simp: running_def assms(4) store_simps split: option.splits if_splits)
  ultimately show ?thesis by (simp add: assms(4))
qed

lemma set_state_ok:
  "books_ok m \<Longrightarrow> st \<noteq> kRunning \<Longrightarrow>
     books_ok (set_state i st s m) \<and> active_count (set_state i st s m) p \<le> active_count m p
     \<and> sm_config (set_state i st s m) = sm_config m"
  using update_run [of m i _ st _ s] by (auto simp: set_state_def split: option.splits)

lemma CancelRun_set_state: "fst (CancelRun i m) = (case map_of (sm_runs m) i of
     Some run \<Rightarrow> if ru_state run = kRunning then set_state i kCancelled (ru_result_summary run) m else m | None \<Rightarrow> m)"
  by (auto simp: CancelRun_def set_state_def split: option.splits)

lemma remove_run_ok:
  assumes "books_ok m" and "map_of (sm_runs m) i = Some run" and "ru_state run \<noteq> kRunning"
  shows "books_ok (remove_run i m) \<and> active_count (remove_run i m) p = active_count m p
     \<and> sm_config (remove_run i m) = sm_config m \<and> sm_runs (remove_run i m) = AList.delete i (sm_runs m)"
proof -
  let ?m = "remove_run i m" and ?p = "ru_parent_session_key run"
  have runs: "sm_runs ?m = AList.delete i (sm_runs m)" and cfg: "sm_config ?m = sm_config m"
    using assms(2) by (simp_all add: remove_run_def split: option.splits)
  have ch: "children_of ?m q = List.filter (\<lambda>c. c \<noteq> i) (children_of m q)" for q
  proof (cases "q = ?p")
    case True
    then show ?thesis using assms(2) by (simp add: remove_run_def children_of_def um_at_def store_simps split: option.splits)
  next
    case False
    then have "i \<notin> set (children_of m q)" using assms(2) by (simp add: books_child [OF assms(1)] parent_of_def)
    then have "List.filter (\<lambda>c. c \<noteq> i) (children_of m q) = children_of m q" by (auto simp: filter_id_conv)
    with False show ?thesis using assms(2)
      by (simp add: remove_run_def children_of_def um_at_def store_simps split: option.splits)
  qed
  have po: "parent_of ?m j = (if j = i then None else parent_of m j)" for j by (simp add: parent_of_def runs store_simps)
  have "books_ok ?m" using assms(1) unfolding books_ok_def ch po by (auto simp: runs store_simps split: if_splits)
  moreover have "active_count ?m p = active_count m p"
  proof -
    have "running (remove_run i m) rid \<and> rid \<noteq> i \<longleftrightarrow> running m rid" for rid
      using assms(2,3) by (auto simp: running_def runs store_simps)
    then have "List.filter (running (remove_run i m)) (children_of (remove_run i m) p) = List.filter (running m) (children_of m p)"
      unfolding ch filter_filter by (intro filter_cong) auto
    then show ?thesis by (simp add: active_count_alt)
  qed
  ultimately show ?thesis by (simp add: runs cfg)
qed

lemma cleanup_ok:
  assumes "books_ok m" and "\<forall>i \<in> set is. \<exists>run. map_of (sm_runs m) i = Some run \<and> ru_state run \<noteq> kRunning" and "distinct is"
  shows "books_ok (fold remove_run is m) \<and> active_count (fold remove_run is m) p = active_count m p
     \<and> sm_config (fold remove_run is m) = sm_config m
     \<and> map_of (sm_runs (fold remove_run is m)) = (\<lambda>j. if j \<in> set is then None else map_of (sm_runs m) j)"
  using assms
proof (induction "is" arbitrary: m)
  case (Cons i "is")
  then obtain run where run: "map_of (sm_runs m) i = Some run" "ru_state run \<noteq> kRunning" by auto
  note r = remove_run_ok [OF Cons.prems(1) run]
  from r Cons.prems(2,3) have "\<forall>j \<in> set is. \<exists>run. map_of (sm_runs (remove_run i m)) j = Some run \<and> ru_state run \<noteq> kRunning"
    by (auto simp: store_simps)
  with Cons.IH [of "remove_run i m"] Cons.prems(3) r show ?case by (auto simp: store_simps fun_eq_iff)
qed simp

lemma CleanupCompleted_ok:
  assumes "books_ok m"
  shows "books_ok (fst (CleanupCompleted m)) \<and> active_count (fst (CleanupCompleted m)) p = active_count m p
     \<and> sm_config (fst (CleanupCompleted m)) = sm_config m
     \<and> map_of (sm_runs (fst (CleanupCompleted m))) i
         = (case map_of (sm_runs m) i of Some run \<Rightarrow> if removable run then None else Some run | None \<Rightarrow> None)"
proof -
  let ?is = "map fst (List.filter (\<lambda>(_, run). removable run) (sm_runs m))"
  have ok: "um_ok (sm_runs m)" using assms by (simp add: books_ok_def)
  have mem: "j \<in> set ?is \<longleftrightarrow> (\<exists>run. map_of (sm_runs m) j = Some run \<and> removable run)" for j
    using um_ok_mem [OF ok] by force
  have dist: "distinct ?is" using ok by (simp add: um_ok_def distinct_map_filter)
  have fin: "\<forall>j \<in> set ?is. \<exists>run. map_of (sm_runs m) j = Some run \<and> ru_state run \<noteq> kRunning"
  proof
    fix j
    assume "j \<in> set ?is"
    then obtain run where "map_of (sm_runs m) j = Some run" "removable run" using mem [of j] by blast
    then show "\<exists>run. map_of (sm_runs m) j = Some run \<and> ru_state run \<noteq> kRunning" by (auto simp: removable_def)
  qed
  have c: "fst (CleanupCompleted m) = fold remove_run ?is m" by (simp add: CleanupCompleted_def Let_def)
  note k = cleanup_ok [OF assms fin dist, of p]
  have "map_of (sm_runs (fst (CleanupCompleted m))) i
      = (case map_of (sm_runs m) i of Some run \<Rightarrow> if removable run then None else Some run | None \<Rightarrow> None)"
    using k unfolding c mem by (simp split: option.splits)
  with k show ?thesis unfolding c by blast
qed

section \<open>The limit on children\<close>

datatype subagent_event =
    SSpawn "nat \<times> nat" SpawnParams string int
  | SComplete string string
  | SFail string string
  | SCancel string
  | SCleanup

fun subagent_next :: "SubagentManager \<Rightarrow> subagent_event \<Rightarrow> SubagentManager" where
  "subagent_next m (SSpawn r params parent depth) = fst (Spawn None r params parent depth m)"
| "subagent_next m (SComplete i s) = CompleteRun i s m"
| "subagent_next m (SFail i e) = FailRun i e m"
| "subagent_next m (SCancel i) = fst (CancelRun i m)"
| "subagent_next m SCleanup = fst (CleanupCompleted m)"

text \<open>The random identifiers are new.\<close>

fun fresh_id :: "SubagentManager \<Rightarrow> subagent_event \<Rightarrow> bool" where
  "fresh_id m (SSpawn r params parent depth) = (map_of (sm_runs m) (generate_run_id (fst r)) = None)"
| "fresh_id m _ = True"

definition limited_books :: "SubagentManager \<Rightarrow> bool" where
  "limited_books m \<longleftrightarrow> books_ok m \<and> (\<forall>p. int (active_count m p) \<le> max 1 (sg_max_children (sm_config m)))"

lemma spawn_limited:
  assumes "limited_books m" and "spawn_check params parent d m = None"
    and "map_of (sm_runs m) (generate_run_id (fst r)) = None"
  shows "limited_books (spawn_insert params parent r m)"
proof -
  have ok: "books_ok m" using assms(1) by (simp add: limited_books_def)
  have zero: "map_of (sm_parent_children m) parent = None \<Longrightarrow> active_count m parent = 0"
    by (simp add: active_count_def ActiveChildren_def)
  have cfg: "sm_config (spawn_insert params parent r m) = sm_config m" by (simp add: spawn_insert_def Let_def)
  have "int (active_count (spawn_insert params parent r m) p) \<le> max 1 (sg_max_children (sm_config m))" for p
    using spawn_check_active [OF assms(2)] zero assms(1) spawn_insert_active [OF ok assms(3), of params parent p]
    by (auto simp: limited_books_def)
  with spawn_insert_books [OF ok assms(3)] cfg show ?thesis by (simp add: limited_books_def)
qed

interpretation subagents: guarded_machine "\<lambda>m. sm_runs m = [] \<and> sm_parent_children m = []" fresh_id subagent_next limited_books
proof (unfold_locales, goal_cases)
  case (1 m)
  then show ?case
    by (simp add: limited_books_def books_ok_def parent_of_def children_of_def um_at_def active_count_def ActiveChildren_def)
next
  case (2 m e)
  then have ok: "books_ok m" and lim: "int (active_count m p) \<le> max 1 (sg_max_children (sm_config m))" for p
    by (simp_all add: limited_books_def)
  have keep: "limited_books m'" if "\<And>p. books_ok m' \<and> active_count m' p \<le> active_count m p \<and> sm_config m' = sm_config m" for m'
    using that lim unfolding limited_books_def by (metis of_nat_mono order_trans)
  have st: "limited_books (set_state i st s m)" if "st \<noteq> kRunning" for i st s
    by (rule keep) (use set_state_ok [OF ok that] in blast)
  show ?case
  proof (cases e)
    case (SSpawn r params parent depth)
    then show ?thesis using 2 spawn_limited by (auto simp: Spawn_def Let_def split: option.splits)
  next
    case (SCancel i)
    then show ?thesis using 2(1) st by (auto simp: CancelRun_set_state split: option.splits)
  next
    case SCleanup
    then show ?thesis using keep CleanupCompleted_ok [OF ok] by (metis order_refl subagent_next.simps(5))
  qed (simp_all add: CompleteRun_def FailRun_def st)
qed


text \<open>
  The check and the insertion of a spawn are two critical sections: when one child is missing to
  the limit, two threads both pass the check, and the parent ends up with one child too many.
\<close>

theorem spawn_race:
  assumes "books_ok m" and "int (active_count m parent) + 1 = sg_max_children (sm_config m)"
    and "sg_allowed_agents (sm_config m) = []" and "depth < sg_max_depth (sm_config m)"
    and "generate_run_id (fst r1) \<noteq> generate_run_id (fst r2)"
    and "map_of (sm_runs m) (generate_run_id (fst r1)) = None" and "map_of (sm_runs m) (generate_run_id (fst r2)) = None"
  shows "spawn_check p1 parent depth m = None \<and> spawn_check p2 parent depth m = None
     \<and> int (length (ActiveChildren parent (spawn_insert p2 parent r2 (spawn_insert p1 parent r1 m))))
         = sg_max_children (sm_config m) + 1"
proof -
  let ?m1 = "spawn_insert p1 parent r1 m"
  have "map_of (sm_runs ?m1) (generate_run_id (fst r2)) = None"
    using assms(5,7) by (simp add: spawn_insert_def Let_def store_simps)
  from spawn_insert_active [OF spawn_insert_books [OF assms(1,6)] this, of p2 parent parent]
    spawn_insert_active [OF assms(1,6), of p1 parent parent]
  have "active_count (spawn_insert p2 parent r2 ?m1) parent = active_count m parent + 2" by simp
  moreover have "spawn_check p parent depth m = None" for p
    using assms(2-4)
    by (auto simp: spawn_check_def Let_def active_count_alt running_def [abs_def] children_of_def um_at_def split: option.splits)
  ultimately show ?thesis using assms(2) by (simp add: active_count_def)
qed

text \<open>
  The clean-up removes exactly the finished runs that ask for it and counts them; running
  children are not touched. A cancelled run is not final: when its runner ends it is completed.
\<close>

theorem cleanup_and_cancel:
  assumes "books_ok m"
  shows "GetRun i (fst (CleanupCompleted m)) = (case GetRun i m of
           Some run \<Rightarrow> if ru_cleanup run \<and> ru_state run \<noteq> kRunning then None else Some run | None \<Rightarrow> None)
     \<and> snd (CleanupCompleted m) = int (length (List.filter (\<lambda>run. ru_cleanup run \<and> ru_state run \<noteq> kRunning) (AllRuns m)))
     \<and> length (ActiveChildren p (fst (CleanupCompleted m))) = length (ActiveChildren p m)
     \<and> (snd (CancelRun i m) \<longrightarrow> map_option ru_state (GetRun i (fst (CancelRun i m))) = Some kCancelled
          \<and> map_option ru_state (GetRun i (CompleteRun i s (fst (CancelRun i m)))) = Some kCompleted)"
proof -
  have rm: "removable run \<longleftrightarrow> ru_cleanup run \<and> ru_state run \<noteq> kRunning" for run
    by (cases "ru_state run") (auto simp: removable_def)
  have "length (List.filter (\<lambda>(_, run). P run) xs) = length (List.filter P (map snd xs))" for P and xs :: "(string, SubagentRun) umap"
    by (induction xs) auto
  then show ?thesis
    using CleanupCompleted_ok [OF assms, of p i]
    by (auto simp: GetRun_def AllRuns_def rm active_count_def CleanupCompleted_def Let_def CancelRun_def CompleteRun_def
        set_state_def store_simps split: option.splits if_splits)
qed

section \<open>Witnesses\<close>

definition demo_params :: SpawnParams where
  "demo_params = \<lparr>sp_task = ''t'', sp_label = [], sp_agent_id = [], sp_model = [], sp_mode = kRun, sp_cleanup = True\<rparr>"

definition demo_manager :: SubagentManager where
  "demo_manager = SubagentManager_init\<lparr>sm_config := \<lparr>sg_max_depth = 5, sg_max_children = 1, sg_allowed_agents = []\<rparr>\<rparr>"

definition demo_spawns :: "subagent_event list" where
  "demo_spawns = [SSpawn (1, 1) demo_params ''p'' 0, SSpawn (2, 2) demo_params ''p'' 0]"

lemma demo_ids: "generate_run_id (Suc 0) = ''sub_1''" "generate_run_id 2 = ''sub_2''" by code_simp+


theorem spawn_race_witness:
  "length (ActiveChildren ''p'' (spawn_insert demo_params ''p'' (2, 2) (spawn_insert demo_params ''p'' (1, 1) demo_manager))) = 2"
proof -
  have "books_ok demo_manager" "active_count demo_manager ''p'' = 0"
    by (simp_all add: demo_manager_def SubagentManager_init_def books_ok_def parent_of_def children_of_def um_at_def
        active_count_def ActiveChildren_def)
  then show ?thesis
    using spawn_race [of demo_manager "''p''" 0 "(1, 1)" "(2, 2)" demo_params demo_params]
    by (simp add: demo_ids) (simp add: demo_manager_def SubagentManager_init_def)
qed

theorem cleanup_and_cancel_witness:
  "snd (CleanupCompleted (CompleteRun ''sub_1'' ''ok'' (spawn_insert demo_params ''p'' (1, 1) demo_manager))) = 1"
proof -
  let ?m = "spawn_insert demo_params ''p'' (1, 1) demo_manager"
  have "books_ok demo_manager"
    by (simp add: demo_manager_def SubagentManager_init_def books_ok_def parent_of_def children_of_def um_at_def)
  then have "books_ok ?m" by (rule spawn_insert_books) (simp add: demo_manager_def SubagentManager_init_def)
  then have "books_ok (CompleteRun ''sub_1'' ''ok'' ?m)" using set_state_ok by (simp add: CompleteRun_def)
  from cleanup_and_cancel [OF this] show ?thesis
    by (simp add: AllRuns_def CompleteRun_def set_state_def spawn_insert_def Let_def demo_ids demo_params_def
        demo_manager_def SubagentManager_init_def)
qed

end
