(* ===== verification/SessionKeys.thy ===== *)
theory SessionKeys
  imports StringUtil
begin

text \<open>
  Session keys (\<open>session/session_manager.cpp\<close>): parsing of \<open>agent:<agentId>:<rest>\<close> and
  normalization. The central fact is when normalization is idempotent, since the operations of the
  session manager normalize keys that may be normalized already.
\<close>

record ParsedSessionKey =
  pk_agent_id :: string
  pk_rest :: string

text \<open>The splitting loop yields the same parts as reading with \<open>getline\<close>: no empty last part.\<close>

definition key_parts :: "string \<Rightarrow> string list" where
  "key_parts key = getline_tokens CHR '':'' key"

definition ParseAgentSessionKey :: "string \<Rightarrow> ParsedSessionKey option" where
  "ParseAgentSessionKey key =
     (if key = [] then None
      else let parts = key_parts key in
        if length parts < 3 then None
        else if parts ! 0 \<noteq> ''agent'' then None
        else let agent_id = parts ! 1; rest = Join (drop 2 parts) '':'' in
          if agent_id = [] then None
          else if rest = [] then None
          else Some \<lparr>pk_agent_id = agent_id, pk_rest = rest\<rparr>)"

definition NormalizeSessionKey :: "string \<Rightarrow> string \<Rightarrow> string" where
  "NormalizeSessionKey key default_agent_id =
     (let trimmed = TrimRight (TrimLeft key) in
      if trimmed = [] then ''agent:'' @ ToLower default_agent_id @ '':main''
      else case ParseAgentSessionKey trimmed of
        Some p \<Rightarrow> ''agent:'' @ ToLower (pk_agent_id p) @ '':'' @ ToLower (pk_rest p)
      | None \<Rightarrow> ''agent:'' @ ToLower default_agent_id @ '':'' @ ToLower trimmed)"

definition BuildMainSessionKey :: "string \<Rightarrow> string" where
  "BuildMainSessionKey agent_id = ''agent:'' @ ToLower agent_id @ '':main''"

text \<open>The key under which the session manager looks a session up.\<close>

definition norm :: "string \<Rightarrow> string" where "norm key = NormalizeSessionKey key ''main''"

section \<open>Parsing\<close>

lemma ToLower_simps [simp]:
  "ToLower [] = []" "ToLower (c # s) = to_lower c # ToLower s" "ToLower (a @ b) = ToLower a @ ToLower b"
  "ToLower (ToLower s) = ToLower s" "ToLower s = [] \<longleftrightarrow> s = []"
  by (simp_all add: ToLower_def)

lemma is_space_to_lower [simp]: "is_space (to_lower c) = is_space c"
  by (cases c) (auto simp: is_space_def to_lower_def byte_def)

lemma byte_inj: "byte c = byte d \<longleftrightarrow> c = d"
  by (simp add: byte_def)

lemma to_lower_colon: "to_lower c = CHR '':'' \<longleftrightarrow> c = CHR '':''"
proof -
  have "byte (to_lower c) = byte CHR '':'' \<longleftrightarrow> byte c = byte CHR '':''"
    by (auto simp: to_lower_def byte_char_of) (auto simp: byte_def)
  then show ?thesis by (simp only: byte_inj)
qed

lemma key_parts_exact:
  assumes "s \<noteq> []" and "last s \<noteq> CHR '':''"
  shows "key_parts s = Split s CHR '':''"
proof -
  have "last (split_loop CHR '':'' tok t) \<noteq> []" if "tok @ t \<noteq> []" "last (tok @ t) \<noteq> CHR '':''" for tok t
    using that by (induction "CHR '':''" tok t rule: split_loop.induct) (auto split: if_splits)
  from this [of "[]" s] assms show ?thesis by (simp add: key_parts_def getline_tokens_def Split_def Let_def)
qed

lemma Split_agent: "Split (''agent:'' @ s) CHR '':'' = ''agent'' # Split s CHR '':''"
  by (simp add: Split_def)

lemma Split_plain: "CHR '':'' \<notin> set a \<Longrightarrow> Split (a @ CHR '':'' # s) CHR '':'' = a # Split s CHR '':''"
  by (simp add: Split_def split_loop_plain)

lemma Split_nonempty [simp]: "Split s d \<noteq> []"
  by (simp add: Split_def)

text \<open>A key of the format parses into its parts, when it does not end in a colon.\<close>

lemma parse_format:
  assumes "a \<noteq> []" and "CHR '':'' \<notin> set a" and "r \<noteq> []" and "last r \<noteq> CHR '':''"
  shows "ParseAgentSessionKey (''agent:'' @ a @ '':'' @ r) = Some \<lparr>pk_agent_id = a, pk_rest = r\<rparr>"
proof -
  have "key_parts (''agent:'' @ a @ '':'' @ r) = ''agent'' # a # Split r CHR '':''"
    using assms by (subst key_parts_exact) (simp_all add: Split_agent [simplified] Split_plain)
  moreover have "Join (Split r CHR '':'') '':'' = r" using split_join(1) [of r "CHR '':''"] by simp
  moreover have "Suc 0 \<le> length (Split r CHR '':'')" by (cases "Split r CHR '':''") simp_all
  ultimately show ?thesis using assms by (simp add: ParseAgentSessionKey_def Let_def)
qed

lemma parse_Some:
  assumes "ParseAgentSessionKey s = Some p" and "last s \<noteq> CHR '':''"
  shows "s = ''agent:'' @ pk_agent_id p @ '':'' @ pk_rest p \<and> pk_agent_id p \<noteq> [] \<and> CHR '':'' \<notin> set (pk_agent_id p) \<and> pk_rest p \<noteq> []"
proof -
  have s: "s \<noteq> []" using assms(1) by (auto simp: ParseAgentSessionKey_def)
  have parts: "key_parts s = Split s CHR '':''" by (rule key_parts_exact [OF s assms(2)])
  from assms(1) s obtain x y z zs where sp: "Split s CHR '':'' = x # y # z # zs"
    by (cases "Split s CHR '':''" rule: list.exhaust; cases "tl (Split s CHR '':'')"; cases "tl (tl (Split s CHR '':''))")
      (auto simp: ParseAgentSessionKey_def parts Let_def split: if_splits)
  with assms(1) s have "x = ''agent''" "y \<noteq> []" "pk_agent_id p = y" "pk_rest p = Join (z # zs) '':''" "pk_rest p \<noteq> []"
    by (auto simp: ParseAgentSessionKey_def parts Let_def split: if_splits)
  moreover have "s = x @ '':'' @ y @ '':'' @ Join (z # zs) '':''"
    using split_join(1) [of s "CHR '':''"] unfolding sp by simp
  moreover have "CHR '':'' \<notin> set y"
    using split_loop_tokens [of "CHR '':''" "[]" s] sp by (simp add: Split_def)
  ultimately show ?thesis by simp
qed

section \<open>Normalization\<close>

definition trimmed_key :: "string \<Rightarrow> string" where "trimmed_key key = TrimRight (TrimLeft key)"

lemma TrimRight_append_id: "b \<noteq> [] \<Longrightarrow> \<not> is_space (last b) \<Longrightarrow> TrimRight (a @ b) = a @ b"
  by (rule TrimRight_id) simp

lemma norm_trimmed:
  assumes "r \<noteq> []" and "\<not> is_space (last r)"
  shows "trimmed_key (''agent:'' @ a @ '':'' @ r) = ''agent:'' @ a @ '':'' @ r"
proof -
  have "TrimLeft (''agent:'' @ a @ '':'' @ r) = ''agent:'' @ a @ '':'' @ r"
    by (rule TrimLeft_id) (simp add: is_space_def byte_def)
  moreover have "TrimRight (''agent:'' @ a @ '':'' @ r) = ''agent:'' @ a @ '':'' @ r"
    using TrimRight_append_id [OF assms, of "''agent:'' @ a @ '':''"] by simp
  ultimately show ?thesis by (simp add: trimmed_key_def)
qed

lemma norm_format:
  assumes "a \<noteq> []" and "CHR '':'' \<notin> set a" and "r \<noteq> []" and "last r \<noteq> CHR '':''" and "\<not> is_space (last r)"
  shows "norm (''agent:'' @ a @ '':'' @ r) = ''agent:'' @ ToLower a @ '':'' @ ToLower r"
  using norm_trimmed [OF assms(3,5), of a] parse_format [OF assms(1-4)]
  by (simp add: norm_def NormalizeSessionKey_def trimmed_key_def Let_def)

lemma last_ToLower: "s \<noteq> [] \<Longrightarrow> last (ToLower s) = to_lower (last s)"
  by (simp add: ToLower_def last_map)

lemma norm_shape:
  assumes "trimmed_key key \<noteq> [] \<longrightarrow> last (trimmed_key key) \<noteq> CHR '':''"
  shows "\<exists>a r. norm key = ''agent:'' @ ToLower a @ '':'' @ ToLower r \<and> a \<noteq> [] \<and> CHR '':'' \<notin> set a
     \<and> r \<noteq> [] \<and> last r \<noteq> CHR '':'' \<and> \<not> is_space (last r)"
proof (cases "trimmed_key key = []")
  case True
  then have "norm key = ''agent:'' @ ToLower ''main'' @ '':'' @ ToLower ''main''"
    by (simp add: norm_def NormalizeSessionKey_def trimmed_key_def Let_def to_lower_def byte_def)
  then show ?thesis by (intro exI [of _ "''main''"] conjI) (simp_all add: is_space_def byte_def)
next
  case False
  let ?t = "trimmed_key key"
  have ns: "\<not> is_space (last ?t)" using False TrimRight_last [of "TrimLeft key"] by (simp add: trimmed_key_def)
  have lc: "last ?t \<noteq> CHR '':''" using assms False by simp
  show ?thesis
  proof (cases "ParseAgentSessionKey ?t")
    case None
    then have "norm key = ''agent:'' @ ToLower ''main'' @ '':'' @ ToLower ?t"
      using False by (simp add: norm_def NormalizeSessionKey_def trimmed_key_def Let_def)
    with ns lc False show ?thesis by (intro exI [of _ "''main''"] exI [of _ ?t]) simp
  next
    case (Some p)
    from parse_Some [OF Some lc] have p: "?t = ''agent:'' @ pk_agent_id p @ '':'' @ pk_rest p" "pk_agent_id p \<noteq> []"
      "CHR '':'' \<notin> set (pk_agent_id p)" "pk_rest p \<noteq> []" by simp_all
    then have "last ?t = last (pk_rest p)" by simp
    moreover have "norm key = ''agent:'' @ ToLower (pk_agent_id p) @ '':'' @ ToLower (pk_rest p)"
      using Some False by (simp add: norm_def NormalizeSessionKey_def trimmed_key_def Let_def)
    ultimately show ?thesis using p ns lc by metis
  qed
qed

text \<open>Keys that do not end in a colon normalize once and for all.\<close>

lemma norm_idem:
  assumes "trimmed_key key \<noteq> [] \<longrightarrow> last (trimmed_key key) \<noteq> CHR '':''"
  shows "norm (norm key) = norm key"
proof -
  from norm_shape [OF assms] obtain a r where
    n: "norm key = ''agent:'' @ ToLower a @ '':'' @ ToLower r" and a: "a \<noteq> []" "CHR '':'' \<notin> set a"
    and r: "r \<noteq> []" "last r \<noteq> CHR '':''" "\<not> is_space (last r)" by blast
  have "CHR '':'' \<notin> set (ToLower a)" using a(2) by (metis ToLower_def imageE list.set_map to_lower_colon)
  moreover have "last (ToLower r) \<noteq> CHR '':''" "\<not> is_space (last (ToLower r))"
    using r by (simp_all add: last_ToLower to_lower_colon)
  moreover have "ToLower a \<noteq> []" "ToLower r \<noteq> []" using a(1) r(1) by simp_all
  ultimately have "norm (''agent:'' @ ToLower a @ '':'' @ ToLower r) = ''agent:'' @ ToLower (ToLower a) @ '':'' @ ToLower (ToLower r)"
    by (intro norm_format)
  then show ?thesis unfolding n by (simp only: ToLower_simps(4))
qed

end
