(* ===== verification/Sessions.thy ===== *)
theory Sessions
  imports SessionKeys Turns Calendar
begin

text \<open>
  The session manager (\<open>session/session_manager.cpp\<close>): messages as lines of the transcript
  files, the store of sessions and its file, policies and subscribers. The directory of
  sessions is the record \<open>sessions_dir\<close>: the transcript files by name and \<open>sessions.json\<close>.
  Writing to it is taken to succeed. Session identifiers are an argument (twelve
  random hexadecimal digits), so is the time; a callback is represented by its name, and an operation
  that emits an event returns the deliveries.
\<close>

section \<open>Messages as JSON lines\<close>

record UsageInfo =
  us_input_tokens :: int
  us_output_tokens :: int
  us_cache_creation_input_tokens :: int
  us_cache_read_input_tokens :: int

record usage_json =
  uj_input :: "int option"
  uj_output :: "int option"
  uj_cache_creation :: "int option"
  uj_cache_read :: "int option"

definition UsageInfo_ToJson :: "UsageInfo \<Rightarrow> usage_json" where
  "UsageInfo_ToJson u = \<lparr>uj_input = Some (us_input_tokens u), uj_output = Some (us_output_tokens u),
     uj_cache_creation = (if 0 < us_cache_creation_input_tokens u then Some (us_cache_creation_input_tokens u) else None),
     uj_cache_read = (if 0 < us_cache_read_input_tokens u then Some (us_cache_read_input_tokens u) else None)\<rparr>"

definition UsageInfo_FromJson :: "usage_json \<Rightarrow> UsageInfo" where
  "UsageInfo_FromJson j = \<lparr>us_input_tokens = value_or (uj_input j) 0, us_output_tokens = value_or (uj_output j) 0,
     us_cache_creation_input_tokens = value_or (uj_cache_creation j) 0,
     us_cache_read_input_tokens = value_or (uj_cache_read j) 0\<rparr>"

text \<open>A block as a JSON object; the input of a tool call may be absent, null or a value.\<close>

record block_json =
  bj_type :: "string option"
  bj_text :: "string option"
  bj_id :: "string option"
  bj_name :: "string option"
  bj_input :: "string option option"
  bj_tool_use_id :: "string option"
  bj_content :: "string option"

definition block_json_empty :: block_json where
  "block_json_empty = \<lparr>bj_type = None, bj_text = None, bj_id = None, bj_name = None, bj_input = None,
     bj_tool_use_id = None, bj_content = None\<rparr>"

definition ContentBlock_ToJson :: "ContentBlock \<Rightarrow> block_json" where
  "ContentBlock_ToJson b =
     (let j = block_json_empty\<lparr>bj_type := Some (cb_type b)\<rparr> in
      if cb_type b = ''text'' \<or> cb_type b = ''thinking'' then j\<lparr>bj_text := Some (cb_text b)\<rparr>
      else if cb_type b = ''tool_use'' then
        j\<lparr>bj_id := Some (cb_id b), bj_name := Some (cb_name b), bj_input := Some (cb_input b)\<rparr>
      else if cb_type b = ''tool_result'' then
        j\<lparr>bj_tool_use_id := Some (cb_tool_use_id b), bj_content := Some (cb_content b)\<rparr>
      else j)"

definition ContentBlock_FromJson :: "block_json \<Rightarrow> ContentBlock" where
  "ContentBlock_FromJson j =
     (let cb = ContentBlock_empty\<lparr>cb_type := value_or (bj_type j) ''text''\<rparr> in
      if cb_type cb = ''text'' \<or> cb_type cb = ''thinking'' then cb\<lparr>cb_text := value_or (bj_text j) []\<rparr>
      else if cb_type cb = ''tool_use'' then
        cb\<lparr>cb_id := value_or (bj_id j) [], cb_name := value_or (bj_name j) [], cb_input := value_or (bj_input j) (Some ''{}'')\<rparr>
      else if cb_type cb = ''tool_result'' then
        cb\<lparr>cb_tool_use_id := value_or (bj_tool_use_id j) [], cb_content := value_or (bj_content j) []\<rparr>
      else cb)"

record SessionMessage =
  se_role :: string
  se_content :: "ContentBlock list"
  se_timestamp :: string
  se_usage :: "UsageInfo option"

datatype content_json = ContentBlocks "block_json list" | ContentText string | ContentElse

record message_json =
  mj_role :: "string option"
  mj_content :: "content_json option"
  mj_usage :: "usage_json option"

text \<open>A parsed line of type message: its timestamp and the object under \<open>message\<close>.\<close>

record line_json =
  lj_timestamp :: "string option"
  lj_message :: "message_json option"

definition ToJsonl :: "SessionMessage \<Rightarrow> line_json" where
  "ToJsonl msg = \<lparr>lj_timestamp = Some (se_timestamp msg), lj_message = Some
     \<lparr>mj_role = Some (se_role msg), mj_content = Some (ContentBlocks (map ContentBlock_ToJson (se_content msg))),
      mj_usage = map_option UsageInfo_ToJson (se_usage msg)\<rparr>\<rparr>"

definition FromJsonl :: "line_json \<Rightarrow> SessionMessage" where
  "FromJsonl j =
     (let msg = \<lparr>se_role = [], se_content = [], se_timestamp = value_or (lj_timestamp j) [], se_usage = None\<rparr>
      in case lj_message j of
           None \<Rightarrow> msg
         | Some m \<Rightarrow> msg\<lparr>se_role := value_or (mj_role m) [],
             se_content := (case mj_content m of
                 Some (ContentBlocks bs) \<Rightarrow> map ContentBlock_FromJson bs
               | Some (ContentText t) \<Rightarrow> [MakeText t]
               | _ \<Rightarrow> []),
             se_usage := map_option UsageInfo_FromJson (mj_usage m)\<rparr>)"

text \<open>A line of a transcript; a line that does not parse, or throws while read, is broken.\<close>

datatype transcript_line =
    LMessage line_json
  | LThinking string string
  | LCustom string string string string string
  | LForeign
  | LBroken

section \<open>State\<close>

record SessionInfo =
  si_session_key :: string
  si_session_id :: string
  si_updated_at :: string
  si_created_at :: string
  si_display_name :: string
  si_channel :: string
  si_compaction_count :: int

record info_json =
  ij_session_id :: "string option"
  ij_updated_at :: "string option"
  ij_created_at :: "string option"
  ij_display_name :: "string option"
  ij_channel :: "string option"
  ij_compaction_count :: "int option"

text \<open>The file of the store: missing, unreadable, or entries, where one that throws is \<open>None\<close>.\<close>

datatype store_file = NoStore | BrokenStore | StoreEntries "(string \<times> info_json option) list"

record sessions_dir =
  sd_transcripts :: "(string, transcript_line list) umap"
  sd_store :: store_file

record SessionPolicy =
  po_model_override :: "string option"
  po_tool_whitelist :: "string list"
  po_output_format :: "string option"
  po_rate_limit :: "int option"
  po_custom_settings :: "(string \<times> string) list"

definition SessionPolicy_default :: SessionPolicy where
  "SessionPolicy_default = \<lparr>po_model_override = None, po_tool_whitelist = [], po_output_format = None,
     po_rate_limit = None, po_custom_settings = []\<rparr>"

record policy_json =
  poj_model_override :: "string option"
  poj_tool_whitelist :: "string list option"
  poj_output_format :: "string option"
  poj_rate_limit :: "int option"
  poj_custom_settings :: "(string \<times> string) list option"

definition SessionPolicy_ToJson :: "SessionPolicy \<Rightarrow> policy_json" where
  "SessionPolicy_ToJson p = \<lparr>poj_model_override = po_model_override p,
     poj_tool_whitelist = (if po_tool_whitelist p \<noteq> [] then Some (po_tool_whitelist p) else None),
     poj_output_format = po_output_format p, poj_rate_limit = po_rate_limit p,
     poj_custom_settings = (if po_custom_settings p \<noteq> [] then Some (po_custom_settings p) else None)\<rparr>"

definition SessionPolicy_FromJson :: "policy_json \<Rightarrow> SessionPolicy" where
  "SessionPolicy_FromJson j = \<lparr>po_model_override = poj_model_override j,
     po_tool_whitelist = value_or (poj_tool_whitelist j) [], po_output_format = poj_output_format j,
     po_rate_limit = poj_rate_limit j, po_custom_settings = value_or (poj_custom_settings j) []\<rparr>"

datatype event_data = MessageData line_json | PolicyData policy_json

record TranscriptEvent =
  te_event_type :: string
  te_session_key :: string
  te_timestamp :: string
  te_data :: event_data

record TranscriptSubscription =
  ts_subscription_id :: string
  ts_callback :: string

record SessionManager =
  sn_store :: "(string, SessionInfo) umap"
  sn_policies :: "(string, SessionPolicy) umap"
  sn_subscribers :: "(string, TranscriptSubscription list) umap"
  sn_subscription_counter :: nat

type_synonym sessions = "SessionManager \<times> sessions_dir"

type_synonym delivery = "string \<times> TranscriptEvent"

definition get_timestamp :: "time \<Rightarrow> string" where
  "get_timestamp now = put_iso (gmtime (to_secs now))"

definition generate_session_id :: "nat list \<Rightarrow> string" where
  "generate_session_id ds = map hex_char ds"

definition transcript_path :: "string \<Rightarrow> string" where
  "transcript_path session_id = session_id @ ''.jsonl''"

section \<open>The store\<close>

definition SessionInfo_ToJson :: "SessionInfo \<Rightarrow> info_json" where
  "SessionInfo_ToJson i = \<lparr>ij_session_id = Some (si_session_id i), ij_updated_at = Some (si_updated_at i),
     ij_created_at = Some (si_created_at i), ij_display_name = Some (si_display_name i),
     ij_channel = Some (si_channel i), ij_compaction_count = Some (si_compaction_count i)\<rparr>"

definition SaveStore :: "sessions \<Rightarrow> sessions" where
  "SaveStore sd = (case sd of (s, d) \<Rightarrow>
     (s, d\<lparr>sd_store := StoreEntries (map (\<lambda>(key, info). (key, Some (SessionInfo_ToJson info))) (sn_store s))\<rparr>))"

definition SessionInfo_FromJson :: "string \<Rightarrow> info_json \<Rightarrow> SessionInfo" where
  "SessionInfo_FromJson key j = \<lparr>si_session_key = key, si_session_id = value_or (ij_session_id j) [],
     si_updated_at = value_or (ij_updated_at j) [], si_created_at = value_or (ij_created_at j) [],
     si_display_name = value_or (ij_display_name j) [], si_channel = value_or (ij_channel j) ''cli'',
     si_compaction_count = value_or (ij_compaction_count j) 0\<rparr>"

fun load_entries :: "(string \<times> info_json option) list \<Rightarrow> (string, SessionInfo) umap \<Rightarrow> (string, SessionInfo) umap" where
  "load_entries [] store = store"
| "load_entries ((key, None) # es) store = store"
| "load_entries ((key, Some j) # es) store = load_entries es (AList.update key (SessionInfo_FromJson key j) store)"

definition LoadStore :: "sessions \<Rightarrow> sessions" where
  "LoadStore sd = (case sd of (s, d) \<Rightarrow>
     (case sd_store d of
        StoreEntries es \<Rightarrow> (s\<lparr>sn_store := load_entries es (sn_store s)\<rparr>, d)
      | _ \<Rightarrow> (s, d)))"

definition SessionManager_init :: "sessions_dir \<Rightarrow> sessions" where
  "SessionManager_init d = LoadStore (\<lparr>sn_store = [], sn_policies = [], sn_subscribers = [], sn_subscription_counter = 0\<rparr>, d)"

section \<open>Operations on sessions\<close>

record SessionHandle =
  sh_session_key :: string
  sh_session_id :: string
  sh_transcript_path :: string

definition GetOrCreate :: "time \<Rightarrow> string \<Rightarrow> string \<Rightarrow> string \<Rightarrow> string \<Rightarrow> sessions \<Rightarrow> sessions \<times> SessionHandle" where
  "GetOrCreate now sid session_key display_name channel sd = (case sd of (s, d) \<Rightarrow>
     (let normalized = norm session_key in
      case map_of (sn_store s) normalized of
        Some info \<Rightarrow> (sd, \<lparr>sh_session_key = normalized, sh_session_id = si_session_id info,
          sh_transcript_path = transcript_path (si_session_id info)\<rparr>)
      | None \<Rightarrow>
          let info = \<lparr>si_session_key = normalized, si_session_id = sid, si_updated_at = get_timestamp now,
                si_created_at = get_timestamp now, si_display_name = (if display_name = [] then normalized else display_name),
                si_channel = channel, si_compaction_count = 0\<rparr>
          in (SaveStore (s\<lparr>sn_store := AList.update normalized info (sn_store s)\<rparr>, d),
              \<lparr>sh_session_key = normalized, sh_session_id = sid, sh_transcript_path = transcript_path sid\<rparr>)))"

definition emit_event :: "string \<Rightarrow> TranscriptEvent \<Rightarrow> SessionManager \<Rightarrow> delivery list" where
  "emit_event session_key event s =
     (case map_of (sn_subscribers s) session_key of
        None \<Rightarrow> []
      | Some subs \<Rightarrow> map (\<lambda>sub. (ts_callback sub, event)) subs)"

text \<open>Appending a line to the transcript of a session, and touching the session.\<close>

definition append_line :: "time \<Rightarrow> string \<Rightarrow> SessionInfo \<Rightarrow> transcript_line \<Rightarrow> sessions \<Rightarrow> sessions" where
  "append_line now normalized info line sd = (case sd of (s, d) \<Rightarrow>
     (let path = transcript_path (si_session_id info) in
      SaveStore (s\<lparr>sn_store := AList.update normalized (info\<lparr>si_updated_at := get_timestamp now\<rparr>) (sn_store s)\<rparr>,
        d\<lparr>sd_transcripts := AList.update path (um_at (sd_transcripts d) path [] @ [line]) (sd_transcripts d)\<rparr>)))"

definition AppendSessionMessage :: "time \<Rightarrow> string \<Rightarrow> SessionMessage \<Rightarrow> sessions \<Rightarrow> sessions \<times> delivery list" where
  "AppendSessionMessage now session_key msg sd =
     (let normalized = norm session_key in
      case map_of (sn_store (fst sd)) normalized of
        None \<Rightarrow> (sd, [])
      | Some info \<Rightarrow>
          let sd1 = append_line now normalized info (LMessage (ToJsonl msg)) sd
          in (sd1, emit_event normalized \<lparr>te_event_type = ''message_added'', te_session_key = normalized,
                te_timestamp = se_timestamp msg, te_data = MessageData (ToJsonl msg)\<rparr> (fst sd1)))"

definition AppendText :: "time \<Rightarrow> string \<Rightarrow> string \<Rightarrow> string \<Rightarrow> UsageInfo option \<Rightarrow> sessions \<Rightarrow> sessions \<times> delivery list" where
  "AppendText now session_key role text_content usage sd =
     AppendSessionMessage now (norm session_key) \<lparr>se_role = role, se_content = [MakeText text_content],
       se_timestamp = get_timestamp now, se_usage = usage\<rparr> sd"

definition AppendTranscriptEntry :: "time \<Rightarrow> string \<Rightarrow> transcript_line \<Rightarrow> sessions \<Rightarrow> sessions \<times> bool" where
  "AppendTranscriptEntry now session_key entry sd =
     (let normalized = norm session_key in
      case map_of (sn_store (fst sd)) normalized of
        None \<Rightarrow> (sd, False)
      | Some info \<Rightarrow> (append_line now normalized info entry sd, True))"

definition AppendThinkingLevelChange :: "time \<Rightarrow> string \<Rightarrow> string \<Rightarrow> sessions \<Rightarrow> sessions" where
  "AppendThinkingLevelChange now session_key thinking_level sd =
     fst (AppendTranscriptEntry now session_key (LThinking (get_timestamp now) thinking_level) sd)"

definition AppendCustomMessage :: "time \<Rightarrow> string \<Rightarrow> string \<Rightarrow> string \<Rightarrow> string \<Rightarrow> string \<Rightarrow> sessions \<Rightarrow> sessions" where
  "AppendCustomMessage now session_key custom_type content display details sd =
     fst (AppendTranscriptEntry now session_key (LCustom (get_timestamp now) custom_type content display details) sd)"

definition line_message :: "transcript_line \<Rightarrow> SessionMessage option" where
  "line_message l = (case l of LMessage j \<Rightarrow> Some (FromJsonl j) | _ \<Rightarrow> None)"

definition GetHistory :: "string \<Rightarrow> int \<Rightarrow> sessions \<Rightarrow> SessionMessage list" where
  "GetHistory session_key max_messages sd = (case sd of (s, d) \<Rightarrow>
     (case map_of (sn_store s) (norm session_key) of
        None \<Rightarrow> []
      | Some info \<Rightarrow>
          (case map_of (sd_transcripts d) (transcript_path (si_session_id info)) of
             None \<Rightarrow> []
           | Some lines \<Rightarrow>
               let messages = List.map_filter line_message lines
               in if 0 < max_messages \<and> max_messages < int (length messages)
                  then drop (length messages - nat max_messages) messages else messages)))"

definition DeleteSession :: "string \<Rightarrow> sessions \<Rightarrow> sessions" where
  "DeleteSession session_key sd = (case sd of (s, d) \<Rightarrow>
     (case map_of (sn_store s) (norm session_key) of
        None \<Rightarrow> sd
      | Some info \<Rightarrow> SaveStore (s\<lparr>sn_store := AList.delete (norm session_key) (sn_store s)\<rparr>,
          d\<lparr>sd_transcripts := AList.delete (transcript_path (si_session_id info)) (sd_transcripts d)\<rparr>)))"

definition UpdateDisplayName :: "string \<Rightarrow> string \<Rightarrow> sessions \<Rightarrow> sessions" where
  "UpdateDisplayName session_key name sd = (case sd of (s, d) \<Rightarrow>
     (case map_of (sn_store s) (norm session_key) of
        None \<Rightarrow> sd
      | Some info \<Rightarrow> SaveStore (s\<lparr>sn_store := AList.update (norm session_key) (info\<lparr>si_display_name := name\<rparr>) (sn_store s)\<rparr>, d)))"

definition ResetSession :: "time \<Rightarrow> string \<Rightarrow> string \<Rightarrow> sessions \<Rightarrow> sessions" where
  "ResetSession now sid session_key sd = (case sd of (s, d) \<Rightarrow>
     (case map_of (sn_store s) (norm session_key) of
        None \<Rightarrow> sd
      | Some info \<Rightarrow>
          let old = transcript_path (si_session_id info);
              d1 = (case map_of (sd_transcripts d) old of
                  None \<Rightarrow> d
                | Some lines \<Rightarrow> d\<lparr>sd_transcripts :=
                    AList.update (old @ ''.reset.'' @ get_timestamp now) lines (AList.delete old (sd_transcripts d))\<rparr>)
          in SaveStore (s\<lparr>sn_store := AList.update (norm session_key)
               (info\<lparr>si_session_id := sid, si_updated_at := get_timestamp now\<rparr>) (sn_store s)\<rparr>, d1)))"

definition ListSessions :: "(SessionInfo list \<Rightarrow> SessionInfo list) \<Rightarrow> sessions \<Rightarrow> SessionInfo list" where
  "ListSessions sort_by_updated sd = sort_by_updated (map snd (sn_store (fst sd)))"

definition IncrementCompactionCount :: "string \<Rightarrow> sessions \<Rightarrow> sessions" where
  "IncrementCompactionCount session_key sd = (case sd of (s, d) \<Rightarrow>
     (case map_of (sn_store s) (norm session_key) of
        None \<Rightarrow> sd
      | Some info \<Rightarrow> SaveStore (s\<lparr>sn_store := AList.update (norm session_key)
          (info\<lparr>si_compaction_count := si_compaction_count info + 1\<rparr>) (sn_store s)\<rparr>, d)))"

definition GetCompactionCount :: "string \<Rightarrow> sessions \<Rightarrow> int" where
  "GetCompactionCount session_key sd =
     (case map_of (sn_store (fst sd)) (norm session_key) of Some info \<Rightarrow> si_compaction_count info | None \<Rightarrow> 0)"

section \<open>Policies and subscriptions\<close>

definition SetPolicy :: "time \<Rightarrow> string \<Rightarrow> SessionPolicy \<Rightarrow> SessionManager \<Rightarrow> SessionManager \<times> delivery list" where
  "SetPolicy now session_key policy s =
     (let key = norm session_key; s1 = s\<lparr>sn_policies := AList.update key policy (sn_policies s)\<rparr>
      in (s1, emit_event key \<lparr>te_event_type = ''policy_changed'', te_session_key = key, te_timestamp = get_timestamp now,
            te_data = PolicyData (SessionPolicy_ToJson policy)\<rparr> s1))"

definition GetPolicy :: "string \<Rightarrow> SessionManager \<Rightarrow> SessionPolicy" where
  "GetPolicy session_key s = um_at (sn_policies s) (norm session_key) SessionPolicy_default"

definition Subscribe :: "string \<Rightarrow> string \<Rightarrow> SessionManager \<Rightarrow> SessionManager \<times> string" where
  "Subscribe session_key callback s =
     (let key = norm session_key; n = sn_subscription_counter s + 1; sid = ''sub_'' @ nat_digits n;
          sub = \<lparr>ts_subscription_id = sid, ts_callback = callback\<rparr>
      in (s\<lparr>sn_subscription_counter := n,
            sn_subscribers := AList.update key (um_at (sn_subscribers s) key [] @ [sub]) (sn_subscribers s)\<rparr>, sid))"

definition Unsubscribe :: "string \<Rightarrow> string \<Rightarrow> SessionManager \<Rightarrow> SessionManager" where
  "Unsubscribe session_key subscription_id s =
     (case map_of (sn_subscribers s) (norm session_key) of
        None \<Rightarrow> s
      | Some subs \<Rightarrow> s\<lparr>sn_subscribers := AList.update (norm session_key)
          (List.filter (\<lambda>sub. ts_subscription_id sub \<noteq> subscription_id) subs) (sn_subscribers s)\<rparr>)"

end
