(* ===== verification/SessionProps.thy ===== *)
theory SessionProps
  imports Sessions
begin

text \<open>
  Properties of the session manager: what a message keeps on its way through the transcript file;
  the refinement of a map from keys to histories, restarts included; what happens to
  keys that end in a colon; policies and subscriptions.
\<close>

section \<open>Messages through the transcript\<close>

text \<open>A block that carries only what its type is for.\<close>

definition plain_block :: "ContentBlock \<Rightarrow> bool" where
  "plain_block b \<longleftrightarrow>
     (if cb_type b = ''text'' \<or> cb_type b = ''thinking'' then b = ContentBlock_empty\<lparr>cb_type := cb_type b, cb_text := cb_text b\<rparr>
      else if cb_type b = ''tool_use'' then b = MakeToolUse (cb_id b) (cb_name b) (cb_input b)
      else if cb_type b = ''tool_result'' then b = MakeToolResult (cb_tool_use_id b) (cb_content b)
      else b = ContentBlock_empty\<lparr>cb_type := cb_type b\<rparr>)"

definition plain_usage :: "UsageInfo \<Rightarrow> bool" where
  "plain_usage u \<longleftrightarrow> 0 \<le> us_cache_creation_input_tokens u \<and> 0 \<le> us_cache_read_input_tokens u"

lemma block_roundtrip: "plain_block b \<Longrightarrow> ContentBlock_FromJson (ContentBlock_ToJson b) = b"
  by (cases b)
    (auto simp: plain_block_def ContentBlock_FromJson_def ContentBlock_ToJson_def block_json_empty_def ContentBlock_empty_def
      MakeToolUse_def MakeToolResult_def Let_def split: if_splits)

lemma block_roundtrip_plain: "plain_block (ContentBlock_FromJson (ContentBlock_ToJson b))"
  by (auto simp: plain_block_def ContentBlock_FromJson_def ContentBlock_ToJson_def block_json_empty_def ContentBlock_empty_def
      MakeToolUse_def MakeToolResult_def Let_def)

lemma usage_roundtrip: "plain_usage u \<Longrightarrow> UsageInfo_FromJson (UsageInfo_ToJson u) = u"
  by (cases u) (auto simp: plain_usage_def UsageInfo_FromJson_def UsageInfo_ToJson_def)

text \<open>What comes back for a message that was written.\<close>

definition canon :: "SessionMessage \<Rightarrow> SessionMessage" where
  "canon msg = FromJsonl (ToJsonl msg)"

text \<open>
  Claim C40. A message whose blocks carry only the fields of their type, and whose token counts are not
  negative, is read back as it was written; of any other message, the role, the timestamp, the
  number and the types of the blocks are kept, and reading it again changes nothing more.
\<close>

theorem message_roundtrip:
  "(list_all plain_block (se_content msg) \<and> pred_option plain_usage (se_usage msg) \<longrightarrow> canon msg = msg)
   \<and> se_role (canon msg) = se_role msg \<and> se_timestamp (canon msg) = se_timestamp msg
   \<and> map cb_type (se_content (canon msg)) = map cb_type (se_content msg) \<and> canon (canon msg) = canon msg"
proof (intro conjI impI)
  have c: "canon msg = msg\<lparr>se_content := map (\<lambda>b. ContentBlock_FromJson (ContentBlock_ToJson b)) (se_content msg),
      se_usage := map_option (\<lambda>u. UsageInfo_FromJson (UsageInfo_ToJson u)) (se_usage msg)\<rparr>" for msg
    by (cases msg) (simp add: canon_def FromJsonl_def ToJsonl_def option.map_comp comp_def)
  show "canon msg = msg" if "list_all plain_block (se_content msg) \<and> pred_option plain_usage (se_usage msg)"
    using that by (cases msg; cases "se_usage msg") (auto simp: c list_all_iff block_roundtrip usage_roundtrip map_idI)
  show "se_role (canon msg) = se_role msg" "se_timestamp (canon msg) = se_timestamp msg" by (simp_all add: c)
  show "map cb_type (se_content (canon msg)) = map cb_type (se_content msg)"
    by (simp add: c ContentBlock_FromJson_def ContentBlock_ToJson_def Let_def block_json_empty_def ContentBlock_empty_def)
  have "plain_usage (UsageInfo_FromJson (UsageInfo_ToJson u))" for u
    by (simp add: plain_usage_def UsageInfo_FromJson_def UsageInfo_ToJson_def)
  then show "canon (canon msg) = canon msg"
    by (simp add: c block_roundtrip block_roundtrip_plain usage_roundtrip option.map_comp comp_def)
qed

theorem message_roundtrip_witness:
  "canon \<lparr>se_role = ''user'', se_content = [MakeText ''hi''], se_timestamp = [], se_usage = None\<rparr>
     = \<lparr>se_role = ''user'', se_content = [MakeText ''hi''], se_timestamp = [], se_usage = None\<rparr>"
  using message_roundtrip [of "\<lparr>se_role = ''user'', se_content = [MakeText ''hi''], se_timestamp = [], se_usage = None\<rparr>"]
  by (simp add: plain_block_def MakeText_def ContentBlock_empty_def)

section \<open>Histories\<close>

text \<open>The contract: each session is the list of its messages since it was created or reset.\<close>

definition histories :: "sessions \<Rightarrow> string \<Rightarrow> SessionMessage list option" where
  "histories sd k = (case sd of (s, d) \<Rightarrow>
     map_option (\<lambda>info. List.map_filter line_message (um_at (sd_transcripts d) (transcript_path (si_session_id info)) []))
       (map_of (sn_store s) k))"

datatype session_event =
    SCreate time string string string string
  | SAppend time string SessionMessage
  | SText time string string string "UsageInfo option"
  | SThinking time string string
  | SCustom time string string string string string
  | SReset time string string
  | SDelete string
  | SRename string string
  | SCompacted string
  | SRestart

fun session_next :: "sessions \<Rightarrow> session_event \<Rightarrow> sessions" where
  "session_next sd (SCreate now sid k name ch) = fst (GetOrCreate now sid k name ch sd)"
| "session_next sd (SAppend now k msg) = fst (AppendSessionMessage now k msg sd)"
| "session_next sd (SText now k role t u) = fst (AppendText now k role t u sd)"
| "session_next sd (SThinking now k level) = AppendThinkingLevelChange now k level sd"
| "session_next sd (SCustom now k ty c di de) = AppendCustomMessage now k ty c di de sd"
| "session_next sd (SReset now sid k) = ResetSession now sid k sd"
| "session_next sd (SDelete k) = DeleteSession k sd"
| "session_next sd (SRename k name) = UpdateDisplayName k name sd"
| "session_next sd (SCompacted k) = IncrementCompactionCount k sd"
| "session_next sd SRestart = SessionManager_init (snd sd)"

fun history_next :: "(string \<Rightarrow> SessionMessage list option) \<Rightarrow> session_event \<Rightarrow> (string \<Rightarrow> SessionMessage list option)" where
  "history_next h (SCreate now sid k name ch) = (if h (norm k) = None then h(norm k \<mapsto> []) else h)"
| "history_next h (SAppend now k msg) =
     h(norm k := map_option (\<lambda>ms. ms @ [canon msg]) (h (norm k)))"
| "history_next h (SText now k role t u) =
     h(norm (norm k) := map_option (\<lambda>ms. ms @ [canon \<lparr>se_role = role, se_content = [MakeText t],
         se_timestamp = get_timestamp now, se_usage = u\<rparr>]) (h (norm (norm k))))"
| "history_next h (SReset now sid k) = h(norm k := map_option (\<lambda>_. []) (h (norm k)))"
| "history_next h (SDelete k) = h(norm k := None)"
| "history_next h _ = h"

text \<open>A new session identifier is not in use, and has no transcript.\<close>

definition new_sid :: "string \<Rightarrow> sessions \<Rightarrow> bool" where
  "new_sid sid sd \<longleftrightarrow> (\<forall>k info. map_of (sn_store (fst sd)) k = Some info \<longrightarrow> si_session_id info \<noteq> sid)
     \<and> map_of (sd_transcripts (snd sd)) (transcript_path sid) = None"

fun sid_new :: "sessions \<Rightarrow> session_event \<Rightarrow> bool" where
  "sid_new sd (SCreate now sid k name ch) = new_sid sid sd"
| "sid_new sd (SReset now sid k) = new_sid sid sd"
| "sid_new sd _ = True"

text \<open>
  Sessions have different transcripts, entries carry their key, and the file of the store
  agrees with the store.
\<close>

definition saved :: "SessionManager \<Rightarrow> sessions_dir \<Rightarrow> bool" where
  "saved s d \<longleftrightarrow> sd_store d = StoreEntries (map (\<lambda>(key, info). (key, Some (SessionInfo_ToJson info))) (sn_store s))
     \<or> sd_store d = NoStore \<and> sn_store s = []"

definition store_ok :: "(string, SessionInfo) umap \<Rightarrow> bool" where
  "store_ok st \<longleftrightarrow> um_ok st \<and> (\<forall>k info. map_of st k = Some info \<longrightarrow> si_session_key info = k)
     \<and> (\<forall>k k' i i'. map_of st k = Some i \<and> map_of st k' = Some i' \<and> si_session_id i = si_session_id i' \<longrightarrow> k = k')"

definition sessions_ok :: "sessions \<Rightarrow> bool" where
  "sessions_ok sd \<longleftrightarrow> store_ok (sn_store (fst sd)) \<and> saved (fst sd) (snd sd)"

lemma transcript_path_inj [simp]: "transcript_path a = transcript_path b \<longleftrightarrow> a = b"
  by (simp add: transcript_path_def)

lemma archive_no_transcript: "transcript_path a \<noteq> b @ ''.reset.'' @ get_timestamp now"
proof
  assume "transcript_path a = b @ ''.reset.'' @ get_timestamp now"
  then have "last (transcript_path a) = last (b @ ''.reset.'' @ get_timestamp now)" by simp
  then show False by (simp add: transcript_path_def get_timestamp_def put_iso_def)
qed

lemma SaveStore_simps [simp]:
  "fst (SaveStore (s, d)) = s" "sd_transcripts (snd (SaveStore (s, d))) = sd_transcripts d"
  "saved s (snd (SaveStore (s, d)))"
  by (simp_all add: SaveStore_def saved_def)

lemma sessions_ok_SaveStore [simp]: "sessions_ok (SaveStore (s, d)) = store_ok (sn_store s)"
  by (simp add: sessions_ok_def)

lemma histories_pair:
  "histories (s, d) k = map_option (\<lambda>info. List.map_filter line_message
     (um_at (sd_transcripts d) (transcript_path (si_session_id info)) [])) (map_of (sn_store s) k)"
  by (simp add: histories_def)

lemma histories_SaveStore [simp]: "histories (SaveStore (s, d)) = histories (s, d)"
  by (rule ext) (simp add: histories_pair SaveStore_def)

text \<open>An entry may change as long as it keeps its key and gets a new or its own identifier.\<close>

lemma store_ok_update:
  assumes "store_ok st" and "si_session_key info = k"
    and "\<And>k' i'. map_of st k' = Some i' \<Longrightarrow> si_session_id i' = si_session_id info \<Longrightarrow> k' = k"
  shows "store_ok (AList.update k info st)"
  using assms unfolding store_ok_def by (auto simp: store_simps split: if_splits)

lemma store_ok_touch:
  assumes "store_ok st" and "map_of st k = Some info" and "si_session_id info' = si_session_id info"
    and "si_session_key info' = si_session_key info"
  shows "store_ok (AList.update k info' st)"
proof (rule store_ok_update [OF assms(1)])
  show "si_session_key info' = k" using assms by (simp add: store_ok_def)
  show "k' = k" if "map_of st k' = Some i'" "si_session_id i' = si_session_id info'" for k' i'
    using assms(1,2,3) that unfolding store_ok_def by metis
qed

lemma store_ok_delete: "store_ok st \<Longrightarrow> store_ok (AList.delete k st)"
  unfolding store_ok_def by (auto simp: store_simps split: if_splits)

lemma load_entries_saved:
  assumes "store_ok st"
  shows "load_entries (map (\<lambda>(key, info). (key, Some (SessionInfo_ToJson info))) st) [] = st"
proof -
  have "load_entries (map (\<lambda>(key, info). (key, Some (SessionInfo_ToJson info))) st) acc = acc @ st"
    if "um_ok (acc @ st)" "\<forall>(k, info) \<in> set st. si_session_key info = k" for acc st
    using that
  proof (induction st arbitrary: acc)
    case (Cons e st)
    obtain k info where e: "e = (k, info)" by (cases e)
    have "SessionInfo_FromJson k (SessionInfo_ToJson info) = info"
      using Cons.prems(2) e by (cases info) (simp add: SessionInfo_FromJson_def SessionInfo_ToJson_def)
    moreover have "AList.update k info acc = acc @ [(k, info)]"
      using Cons.prems(1) e by (intro update_fresh) (auto simp: um_ok_def)
    ultimately show ?case using Cons.IH [of "acc @ [(k, info)]"] Cons.prems e by simp
  qed simp
  moreover have "\<forall>(k, info) \<in> set st. si_session_key info = k"
    using assms um_ok_mem [of st] by (auto simp: store_ok_def)
  ultimately show ?thesis using assms by (simp add: store_ok_def)
qed

lemma histories_append_line:
  assumes "store_ok (sn_store s)" and "map_of (sn_store s) k = Some info"
  shows "histories (append_line now k info line (s, d)) =
     (histories (s, d))(k := map_option (\<lambda>ms. ms @ (case line_message line of None \<Rightarrow> [] | Some m \<Rightarrow> [m])) (histories (s, d) k))"
proof
  fix k'
  have other: "si_session_id i' \<noteq> si_session_id info" if "map_of (sn_store s) k' = Some i'" "k' \<noteq> k" for i'
    using assms that unfolding store_ok_def by metis
  show "histories (append_line now k info line (s, d)) k' =
     ((histories (s, d))(k := map_option (\<lambda>ms. ms @ (case line_message line of None \<Rightarrow> [] | Some m \<Rightarrow> [m])) (histories (s, d) k))) k'"
    using assms(2) other
    by (cases "map_of (sn_store s) k'")
      (auto simp: append_line_def Let_def histories_pair um_at_def store_simps map_filter_def split: option.splits)
qed

lemma append_line_ok:
  "store_ok (sn_store s) \<Longrightarrow> map_of (sn_store s) k = Some info \<Longrightarrow> sessions_ok (append_line now k info line (s, d))"
  by (simp add: append_line_def Let_def store_ok_touch)

lemma entry_ok:
  assumes "sessions_ok (s, d)"
  shows "sessions_ok (fst (AppendTranscriptEntry now k line (s, d)))
     \<and> histories (fst (AppendTranscriptEntry now k line (s, d))) = (histories (s, d))(norm k :=
          map_option (\<lambda>ms. ms @ (case line_message line of None \<Rightarrow> [] | Some m \<Rightarrow> [m])) (histories (s, d) (norm k)))"
proof (cases "map_of (sn_store s) (norm k)")
  case None
  with assms show ?thesis by (auto simp: AppendTranscriptEntry_def histories_pair fun_eq_iff)
next
  case (Some info)
  have "store_ok (sn_store s)" using assms by (simp add: sessions_ok_def)
  with Some show ?thesis by (simp add: AppendTranscriptEntry_def append_line_ok histories_append_line)
qed

lemma AppendSessionMessage_entry:
  "fst (AppendSessionMessage now k msg sd) = fst (AppendTranscriptEntry now k (LMessage (ToJsonl msg)) sd)"
  by (simp add: AppendSessionMessage_def AppendTranscriptEntry_def Let_def split: option.splits)

lemma upd_none: "h k = None \<Longrightarrow> h(k := None) = h" by auto

lemma session_next_ok:
  assumes "sessions_ok sd" and "sid_new sd e"
  shows "sessions_ok (session_next sd e) \<and> histories (session_next sd e) = history_next (histories sd) e"
proof -
  obtain s d where sd: "sd = (s, d)" by fastforce
  have st: "store_ok (sn_store s)" and sv: "saved s d" using assms(1) by (simp_all add: sd sessions_ok_def)
  show ?thesis
  proof (cases e)
    case (SCreate now sid k name ch)
    show ?thesis
    proof (cases "map_of (sn_store s) (norm k)")
      case None
      with SCreate assms(2) st show ?thesis
        by (auto simp: sd GetOrCreate_def Let_def histories_pair fun_eq_iff new_sid_def um_at_def map_filter_def store_simps intro!: store_ok_update)
    qed (use SCreate assms(1) in \<open>auto simp: sd GetOrCreate_def Let_def histories_pair\<close>)
  next
    case (SReset now sid k)
    show ?thesis
    proof (cases "map_of (sn_store s) (norm k)")
      case None
      with SReset assms(1) show ?thesis by (auto simp: sd ResetSession_def histories_pair)
    next
      case (Some info)
      have key: "si_session_key info = norm k" using st Some by (simp add: store_ok_def)
      have other: "si_session_id i' \<noteq> si_session_id info" if "map_of (sn_store s) k' = Some i'" "k' \<noteq> norm k" for k' i'
        using st Some that unfolding store_ok_def by metis
      have "store_ok (AList.update (norm k) (info\<lparr>si_session_id := sid, si_updated_at := get_timestamp now\<rparr>) (sn_store s))"
        using st assms(2) SReset key by (intro store_ok_update) (auto simp: sd new_sid_def)
      moreover have "histories (ResetSession now sid k (s, d)) k' = history_next (histories (s, d)) (SReset now sid k) k'" for k'
        using Some SReset assms(2) other [of k'] archive_no_transcript
        by (cases "map_of (sn_store s) k'")
          (auto simp: sd ResetSession_def Let_def histories_pair um_at_def new_sid_def store_simps map_filter_def split: option.splits)
      ultimately show ?thesis using Some SReset by (simp add: sd ResetSession_def Let_def fun_eq_iff)
    qed
  next
    case (SDelete k)
    have other: "si_session_id i' \<noteq> si_session_id i" if "map_of (sn_store s) (norm k) = Some i" "map_of (sn_store s) k' = Some i'" "k' \<noteq> norm k" for k' i i'
      using st that unfolding store_ok_def by metis
    have "histories (DeleteSession k (s, d)) k' = history_next (histories (s, d)) (SDelete k) k'" for k'
      using other [of _ k']
      by (cases "map_of (sn_store s) k'") (auto simp: DeleteSession_def histories_pair um_at_def store_simps split: option.splits)
    with SDelete assms(1) st show ?thesis
      by (auto simp: sd DeleteSession_def store_ok_delete fun_eq_iff split: option.splits)
  next
    case (SRename k name)
    with assms(1) st show ?thesis
      by (auto simp: sd UpdateDisplayName_def histories_pair fun_eq_iff store_simps store_ok_touch split: option.splits)
  next
    case (SCompacted k)
    with assms(1) st show ?thesis
      by (auto simp: sd IncrementCompactionCount_def histories_pair fun_eq_iff store_simps store_ok_touch split: option.splits)
  next
    case SRestart
    have "SessionManager_init d = (\<lparr>sn_store = sn_store s, sn_policies = [], sn_subscribers = [], sn_subscription_counter = 0\<rparr>, d)"
      using sv load_entries_saved [OF st] by (auto simp: SessionManager_init_def LoadStore_def saved_def)
    with SRestart st sv show ?thesis by (simp add: sd sessions_ok_def saved_def histories_pair fun_eq_iff)
  qed (use entry_ok assms(1) in \<open>simp_all add: sd AppendSessionMessage_entry AppendText_def AppendThinkingLevelChange_def
      AppendCustomMessage_def line_message_def canon_def option.map_ident fun_upd_triv\<close>)
qed

text \<open>The manager and its contract side by side.\<close>

definition both_start :: "sessions \<times> (string \<Rightarrow> SessionMessage list option) \<Rightarrow> bool" where
  "both_start sh \<longleftrightarrow> fst sh = SessionManager_init \<lparr>sd_transcripts = [], sd_store = NoStore\<rparr> \<and> snd sh = (\<lambda>_. None)"

definition both_next :: "sessions \<times> (string \<Rightarrow> SessionMessage list option) \<Rightarrow> session_event
    \<Rightarrow> sessions \<times> (string \<Rightarrow> SessionMessage list option)" where
  "both_next sh e = (session_next (fst sh) e, history_next (snd sh) e)"

definition both_agree :: "sessions \<times> (string \<Rightarrow> SessionMessage list option) \<Rightarrow> bool" where
  "both_agree sh \<longleftrightarrow> sessions_ok (fst sh) \<and> histories (fst sh) = snd sh"

lemma init_empty: "SessionManager_init \<lparr>sd_transcripts = [], sd_store = NoStore\<rparr> =
    (\<lparr>sn_store = [], sn_policies = [], sn_subscribers = [], sn_subscription_counter = 0\<rparr>, \<lparr>sd_transcripts = [], sd_store = NoStore\<rparr>)"
  by (simp add: SessionManager_init_def LoadStore_def)

interpretation session_machine: guarded_machine both_start "\<lambda>sh. sid_new (fst sh)" both_next both_agree
proof (unfold_locales, goal_cases)
  case (1 sh)
  then show ?case
    by (auto simp: both_start_def both_agree_def init_empty sessions_ok_def saved_def store_ok_def histories_pair fun_eq_iff)
next
  case (2 sh e)
  then show ?case by (simp add: both_agree_def both_next_def session_next_ok)
qed

fun sids_new :: "sessions \<Rightarrow> session_event list \<Rightarrow> bool" where
  "sids_new sd [] = True"
| "sids_new sd (e # es) = (sid_new sd e \<and> sids_new (session_next sd e) es)"

lemma sids_new_run: "sids_new sd es \<Longrightarrow> session_machine.enabled_run (sd, h) es"
  by (induction es arbitrary: sd h) (simp_all add: both_next_def)

lemma both_run: "foldl both_next (sd, h) es = (foldl session_next sd es, foldl history_next h es)"
  by (induction es arbitrary: sd h) (simp_all add: both_next_def)

lemma GetHistory_histories: "GetHistory k n sd = (let ms = value_or (histories sd (norm k)) []
    in if 0 < n \<and> n < int (length ms) then drop (length ms - nat n) ms else ms)"
proof -
  obtain s d where sd: "sd = (s, d)" by fastforce
  show ?thesis
    by (auto simp: sd GetHistory_def histories_pair um_at_def Let_def map_filter_simps split: option.splits)
qed


section \<open>Keys that end in a colon\<close>

definition empty_dir :: sessions_dir where "empty_dir = \<lparr>sd_transcripts = [], sd_store = NoStore\<rparr>"


section \<open>Policies and subscriptions\<close>

text \<open>
  Policies are kept apart from the sessions: a policy holds for every spelling of its key, it survives
  the deletion of its session and applies to a later session of the same key, and it is lost with a
  restart, after which the session runs under the default policy.
\<close>

theorem policies_outlive_sessions:
  assumes "norm k' = norm k"
  shows "GetPolicy k' (fst (SetPolicy now k p s)) = p
     \<and> GetPolicy k (fst (DeleteSession k' sd)) = GetPolicy k (fst sd)
     \<and> GetPolicy k (fst (fst (GetOrCreate now sid k name ch (DeleteSession k' sd)))) = GetPolicy k (fst sd)
     \<and> GetPolicy k (fst (SessionManager_init d)) = SessionPolicy_default
     \<and> SessionPolicy_FromJson (SessionPolicy_ToJson p) = p"
proof -
  have del: "sn_policies (fst (DeleteSession k' sd)) = sn_policies (fst sd)"
    by (cases sd) (simp add: DeleteSession_def SaveStore_def split: option.splits)
  have create: "sn_policies (fst (fst (GetOrCreate now sid k name ch sd'))) = sn_policies (fst sd')" for sd'
    by (cases sd') (simp add: GetOrCreate_def SaveStore_def Let_def split: option.splits)
  have "sn_policies (fst (SessionManager_init d)) = []"
    by (simp add: SessionManager_init_def LoadStore_def split: store_file.splits)
  moreover have "SessionPolicy_FromJson (SessionPolicy_ToJson p) = p"
    by (cases p) (simp add: SessionPolicy_FromJson_def SessionPolicy_ToJson_def)
  ultimately show ?thesis
    using assms by (simp add: GetPolicy_def SetPolicy_def Let_def um_at_def store_simps del create)
qed

lemma nat_digits_inj [simp]: "nat_digits a = nat_digits b \<longleftrightarrow> a = b"
  by (metis digits_value_nat_digits of_nat_eq_iff)

text \<open>Identifiers of subscriptions are numbered, and those given are below the counter.\<close>

definition subs_ok :: "SessionManager \<Rightarrow> bool" where
  "subs_ok s \<longleftrightarrow> (\<forall>k subs sub. map_of (sn_subscribers s) k = Some subs \<and> sub \<in> set subs
     \<longrightarrow> (\<exists>n \<le> sn_subscription_counter s. ts_subscription_id sub = ''sub_'' @ nat_digits n))"

lemma Subscribe_ok: "subs_ok s \<Longrightarrow> subs_ok (fst (Subscribe k cb s))"
  unfolding subs_ok_def Subscribe_def Let_def
  by (auto simp: store_simps um_at_def split: if_splits option.splits) (metis le_SucI)+

lemma Unsubscribe_ok: "subs_ok s \<Longrightarrow> subs_ok (Unsubscribe k i s)"
  unfolding subs_ok_def Unsubscribe_def
  by (auto simp: store_simps split: if_splits option.splits)

text \<open>
  Subscribing adds one delivery, at the end, to the events of its session and of no other; the
  identifier is new, and revoking it takes exactly this delivery away again.
\<close>

theorem subscription_roundtrip:
  assumes "subs_ok s" and "Subscribe k cb s = (s1, i)"
  shows "emit_event key e s1 = emit_event key e s @ (if key = norm k then [(cb, e)] else [])
     \<and> emit_event key e (Unsubscribe k i s1) = emit_event key e s
     \<and> subs_ok s1 \<and> subs_ok (Unsubscribe k i s1)"
proof -
  have i: "i = ''sub_'' @ nat_digits (sn_subscription_counter s + 1)"
    and s1: "s1 = s\<lparr>sn_subscription_counter := sn_subscription_counter s + 1, sn_subscribers :=
      AList.update (norm k) (um_at (sn_subscribers s) (norm k) [] @ [\<lparr>ts_subscription_id = i, ts_callback = cb\<rparr>]) (sn_subscribers s)\<rparr>"
    using assms(2) by (auto simp: Subscribe_def Let_def)
  have "\<forall>sub \<in> set (um_at (sn_subscribers s) (norm k) []). ts_subscription_id sub \<noteq> i"
  proof
    fix sub
    assume "sub \<in> set (um_at (sn_subscribers s) (norm k) [])"
    then obtain subs where "map_of (sn_subscribers s) (norm k) = Some subs" "sub \<in> set subs"
      by (cases "map_of (sn_subscribers s) (norm k)") (auto simp: um_at_def)
    then obtain n where "n \<le> sn_subscription_counter s" "ts_subscription_id sub = ''sub_'' @ nat_digits n"
      using assms(1) unfolding subs_ok_def by blast
    then show "ts_subscription_id sub \<noteq> i" by (simp add: i)
  qed
  then have f: "List.filter (\<lambda>sub. ts_subscription_id sub \<noteq> i) (um_at (sn_subscribers s) (norm k) [])
      = um_at (sn_subscribers s) (norm k) []" by (simp add: filter_id_conv)
  have e1: "emit_event key e s1 = emit_event key e s @ (if key = norm k then [(cb, e)] else [])"
    by (auto simp: emit_event_def s1 store_simps um_at_def split: option.splits)
  have "emit_event key e (Unsubscribe k i s1) = emit_event key e s"
    using f by (auto simp: emit_event_def Unsubscribe_def s1 store_simps um_at_def split: option.splits)
  then show ?thesis using e1 Subscribe_ok [OF assms(1), of k cb] Unsubscribe_ok [of s1 k i] assms(2) by simp
qed

section \<open>Witnesses\<close>

definition demo_events :: "session_event list" where
  "demo_events = [SCreate 0 ''a1'' ''work'' [] ''cli'', SText 0 ''Work'' ''user'' ''hi'' None, SRestart,
     SReset 0 ''b2'' ''work'', SText 0 ''work'' ''user'' ''again'' None]"

lemma demo_norm: "norm ''work'' = ''agent:main:work''" "norm ''Work'' = ''agent:main:work''"
  "norm ''agent:main:work'' = ''agent:main:work''" by code_simp+



theorem policies_outlive_sessions_witness:
  "GetPolicy ''Work'' (fst (SetPolicy 0 ''work'' (SessionPolicy_default\<lparr>po_rate_limit := Some 3\<rparr>) (fst (SessionManager_init empty_dir))))
     = SessionPolicy_default\<lparr>po_rate_limit := Some 3\<rparr>"
  using policies_outlive_sessions [of "''Work''" "''work''" 0 "SessionPolicy_default\<lparr>po_rate_limit := Some 3\<rparr>"
      "fst (SessionManager_init empty_dir)"] by (simp add: demo_norm)

theorem subscription_roundtrip_witness:
  "emit_event ''agent:main:work'' e (fst (Subscribe ''work'' ''cb'' (fst (SessionManager_init empty_dir)))) = [(''cb'', e)]"
proof -
  let ?s = "fst (SessionManager_init empty_dir)"
  have "subs_ok ?s" "emit_event ''agent:main:work'' e ?s = []"
    by (simp_all add: empty_dir_def init_empty subs_ok_def emit_event_def)
  then show ?thesis
    using subscription_roundtrip [of ?s "''work''" "''cb''" "fst (Subscribe ''work'' ''cb'' ?s)" "snd (Subscribe ''work'' ''cb'' ?s)"]
    by (simp add: demo_norm)
qed

end
