(* ===== verification/Maintenance.thy ===== *)
theory Maintenance
  imports Calendar "HOL-Library.Multiset"
begin

text \<open>
  The maintenance of the session directory (\<open>session/session_maintenance.cpp\<close>): durations
  and sizes, and a sweep over the files with its four steps. The directory is a list of
  files with different names; removing and renaming succeed. The sorting of the files by
  time is an argument, since \<open>std::sort\<close> does not fix the order of equal times. Local time is a
  constant offset from UTC.
\<close>

section \<open>Durations and sizes\<close>

text \<open>Reading a number: out of the range of the type, or overflow of the product (undefined).\<close>

datatype number_error = OutOfRange | Overflow

definition stoll :: "string \<Rightarrow> int option" where
  "stoll s =
     (let t = dropWhile is_space s;
          neg = (t \<noteq> [] \<and> hd t = CHR ''-'');
          u = (if t \<noteq> [] \<and> (hd t = CHR ''-'' \<or> hd t = CHR ''+'') then tl t else t);
          ds = takeWhile is_digit u;
          v = (if neg then - digits_value ds else digits_value ds)
      in if ds = [] \<or> v < - (2 ^ 63) \<or> 2 ^ 63 \<le> v then None else Some v)"

text \<open>The pattern of digits, white space and a unit: the digits and the unit.\<close>

definition match_quantity :: "string \<Rightarrow> (string \<times> string) option" where
  "match_quantity s =
     (let ds = takeWhile is_digit s; u = dropWhile is_space (dropWhile is_digit s)
      in if ds = [] then None else Some (ds, u))"

definition duration_units :: "(string \<times> int) list" where
  "duration_units = [(''s'', 1), (''m'', 60), (''h'', 3600), (''d'', 86400), (''w'', 604800)]"

definition ParseDurationSeconds :: "string \<Rightarrow> number_error + int" where
  "ParseDurationSeconds s =
     (if s = [] then Inr 0
      else case Option.bind (match_quantity s) (\<lambda>(ds, u). map_option (Pair ds) (map_of duration_units u)) of
        None \<Rightarrow> Inr (value_or (stoi s) 0)
      | Some (ds, factor) \<Rightarrow>
          (case stoi ds of
             None \<Rightarrow> Inl OutOfRange
           | Some v \<Rightarrow> if in_int32 (v * factor) then Inr (v * factor) else Inl Overflow))"

definition size_units :: "(string \<times> int) list" where
  "size_units = [([], 1), (''B'', 1), (''KB'', 1024), (''MB'', 1024 ^ 2), (''GB'', 1024 ^ 3), (''TB'', 1024 ^ 4)]"

definition ParseSizeBytes :: "string \<Rightarrow> number_error + int" where
  "ParseSizeBytes s =
     (if s = [] then Inr 0
      else case Option.bind (match_quantity s) (\<lambda>(ds, u). map_option (Pair ds) (map_of size_units (ToUpper u))) of
        None \<Rightarrow> Inr (value_or (stoll s) 0)
      | Some (ds, factor) \<Rightarrow>
          (case stoll ds of
             None \<Rightarrow> Inl OutOfRange
           | Some v \<Rightarrow> if v * factor < 2 ^ 63 then Inr (v * factor) else Inl Overflow))"

section \<open>Configuration\<close>

datatype MaintenanceMode = kEnforce | kWarn

definition MaintenanceModeFromString :: "string \<Rightarrow> MaintenanceMode" where
  "MaintenanceModeFromString s = (if s = ''warn'' then kWarn else kEnforce)"

record SessionMaintenanceConfig =
  mc_mode :: MaintenanceMode
  mc_prune_after_seconds :: int
  mc_max_entries :: int
  mc_rotate_bytes :: int
  mc_max_disk_bytes :: int
  mc_sweep_interval_seconds :: int

text \<open>A quantity in the JSON is a text or a number; a member of another type counts as absent.\<close>

datatype quantity_json = QText string | QNumber int

record maintenance_json =
  mj_mode :: "string option"
  mj_prune_after :: "quantity_json option"
  mj_max_entries :: "int option"
  mj_rotate_bytes :: "quantity_json option"
  mj_max_disk_bytes :: "quantity_json option"
  mj_sweep_interval :: "int option"

definition read_quantity :: "(string \<Rightarrow> number_error + int) \<Rightarrow> quantity_json option \<Rightarrow> number_error + int" where
  "read_quantity parse q = (case q of None \<Rightarrow> Inr 0 | Some (QText s) \<Rightarrow> parse s | Some (QNumber n) \<Rightarrow> Inr n)"

definition Maintenance_FromJson :: "maintenance_json \<Rightarrow> number_error + SessionMaintenanceConfig" where
  "Maintenance_FromJson j =
     (case read_quantity ParseDurationSeconds (mj_prune_after j) of
        Inl e \<Rightarrow> Inl e
      | Inr prune \<Rightarrow>
     (case read_quantity ParseSizeBytes (mj_rotate_bytes j) of
        Inl e \<Rightarrow> Inl e
      | Inr rot \<Rightarrow>
     (case read_quantity ParseSizeBytes (mj_max_disk_bytes j) of
        Inl e \<Rightarrow> Inl e
      | Inr disk \<Rightarrow> Inr \<lparr>mc_mode = (case mj_mode j of None \<Rightarrow> kEnforce | Some m \<Rightarrow> MaintenanceModeFromString m),
          mc_prune_after_seconds = prune, mc_max_entries = value_or (mj_max_entries j) 0, mc_rotate_bytes = rot,
          mc_max_disk_bytes = disk, mc_sweep_interval_seconds = value_or (mj_sweep_interval j) 300\<rparr>)))"

section \<open>The directory\<close>

record dir_file =
  df_name :: string
  df_regular :: bool
  df_mtime :: time
  df_size :: int

text \<open>The extension of a file name: from its last dot, unless that is its first character.\<close>

definition extension :: "string \<Rightarrow> string" where
  "extension name =
     (let r = takeWhile (\<lambda>c. c \<noteq> CHR ''.'') (rev name)
      in if Suc (length r) < length name then CHR ''.'' # rev r else [])"

definition stem :: "string \<Rightarrow> string" where
  "stem name = take (length name - length (extension name)) name"

record MaintenanceResult =
  mr_swept :: bool
  mr_pruned_count :: int
  mr_rotated_count :: int
  mr_bytes_freed :: int
  mr_warnings :: "string list"

definition MaintenanceResult_init :: MaintenanceResult where
  "MaintenanceResult_init = \<lparr>mr_swept = False, mr_pruned_count = 0, mr_rotated_count = 0, mr_bytes_freed = 0, mr_warnings = []\<rparr>"

type_synonym sweep_state = "dir_file list \<times> MaintenanceResult"

definition session_file :: "dir_file \<Rightarrow> bool" where
  "session_file f \<longleftrightarrow> df_regular f \<and> (extension (df_name f) = ''.jsonl'' \<or> extension (df_name f) = ''.json'')"

definition get_session_files :: "(dir_file list \<Rightarrow> dir_file list) \<Rightarrow> dir_file list \<Rightarrow> dir_file list" where
  "get_session_files by_mtime dir = by_mtime (List.filter session_file dir)"

definition total_session_size :: "dir_file list \<Rightarrow> int" where
  "total_session_size dir = sum_list (map df_size (List.filter df_regular dir))"

definition remove_file :: "string \<Rightarrow> dir_file list \<Rightarrow> dir_file list" where
  "remove_file name dir = List.filter (\<lambda>f. df_name f \<noteq> name) dir"

section \<open>The steps of a sweep\<close>

definition warn :: "string \<Rightarrow> MaintenanceResult \<Rightarrow> MaintenanceResult" where
  "warn w r = r\<lparr>mr_warnings := mr_warnings r @ [w]\<rparr>"

definition prune_file :: "dir_file \<Rightarrow> sweep_state \<Rightarrow> sweep_state" where
  "prune_file f st = (case st of (dir, r) \<Rightarrow> (remove_file (df_name f) dir,
     r\<lparr>mr_bytes_freed := mr_bytes_freed r + df_size f, mr_pruned_count := mr_pruned_count r + 1\<rparr>))"

definition prune_old_sessions :: "(dir_file list \<Rightarrow> dir_file list) \<Rightarrow> time \<Rightarrow> SessionMaintenanceConfig \<Rightarrow> sweep_state \<Rightarrow> sweep_state" where
  "prune_old_sessions by_mtime now cfg st =
     fold (\<lambda>f st.
         if df_mtime f < now - secs (mc_prune_after_seconds cfg) then
           (if mc_mode cfg = kWarn then (fst st, warn (''Would prune: '' @ df_name f) (snd st)) else prune_file f st)
         else st)
       (get_session_files by_mtime (fst st)) st"

definition enforce_max_entries :: "(dir_file list \<Rightarrow> dir_file list) \<Rightarrow> SessionMaintenanceConfig \<Rightarrow> sweep_state \<Rightarrow> sweep_state" where
  "enforce_max_entries by_mtime cfg st =
     (let files = get_session_files by_mtime (fst st); total = int (length files)
      in if total \<le> mc_max_entries cfg then st
         else fold (\<lambda>f st.
             if mc_mode cfg = kWarn then (fst st, warn (''Would prune (max entries): '' @ df_name f) (snd st))
             else prune_file f st)
           (take (nat (total - mc_max_entries cfg)) files) st)"

text \<open>The name of an archive: stem, local time to the second, and the extension of archives.\<close>

definition archive_stamp :: "int \<Rightarrow> time \<Rightarrow> string" where
  "archive_stamp off now =
     (let tm = gmtime (to_secs now + off)
      in four_digits (tm_year tm) @ two_digits (tm_mon tm + 1) @ two_digits (tm_mday tm) @ ''_''
         @ two_digits (tm_hour tm) @ two_digits (tm_min tm) @ two_digits (tm_sec tm))"

definition archive_name :: "int \<Rightarrow> time \<Rightarrow> string \<Rightarrow> string" where
  "archive_name off now name = stem name @ ''.'' @ archive_stamp off now @ ''.archived.jsonl''"

definition archive_file :: "int \<Rightarrow> time \<Rightarrow> string \<Rightarrow> dir_file list \<Rightarrow> dir_file list" where
  "archive_file off now name dir =
     map (\<lambda>f. if df_name f = name then f\<lparr>df_name := archive_name off now name\<rparr> else f)
       (remove_file (archive_name off now name) dir)"

definition large_transcript :: "SessionMaintenanceConfig \<Rightarrow> dir_file \<Rightarrow> bool" where
  "large_transcript cfg f \<longleftrightarrow> df_regular f \<and> extension (df_name f) = ''.jsonl'' \<and> mc_rotate_bytes cfg < df_size f"

text \<open>The old file is renamed, and an empty one is created under its name.\<close>

definition rotate_file :: "int \<Rightarrow> time \<Rightarrow> dir_file \<Rightarrow> sweep_state \<Rightarrow> sweep_state" where
  "rotate_file off now f st = (case st of (dir, r) \<Rightarrow>
     (archive_file off now (df_name f) dir @ [\<lparr>df_name = df_name f, df_regular = True, df_mtime = now, df_size = 0\<rparr>],
      r\<lparr>mr_bytes_freed := mr_bytes_freed r + df_size f, mr_rotated_count := mr_rotated_count r + 1\<rparr>))"

definition rotate_large_files :: "int \<Rightarrow> time \<Rightarrow> SessionMaintenanceConfig \<Rightarrow> sweep_state \<Rightarrow> sweep_state" where
  "rotate_large_files off now cfg st =
     fold (\<lambda>f st.
         if mc_mode cfg = kWarn then
           (fst st, warn (''Would rotate: '' @ df_name f @ '' ('' @ to_string (df_size f) @ '' bytes)'') (snd st))
         else rotate_file off now f st)
       (List.filter (large_transcript cfg) (fst st)) st"

fun disk_loop :: "SessionMaintenanceConfig \<Rightarrow> dir_file list \<Rightarrow> int \<Rightarrow> sweep_state \<Rightarrow> sweep_state" where
  "disk_loop cfg [] left st = st"
| "disk_loop cfg (f # fs) left st =
     (if left \<le> mc_max_disk_bytes cfg then st
      else if mc_mode cfg = kWarn then
        disk_loop cfg fs (left - df_size f) (fst st, warn (''Would prune (disk limit): '' @ df_name f) (snd st))
      else disk_loop cfg fs (left - df_size f) (prune_file f st))"

definition enforce_disk_limit :: "(dir_file list \<Rightarrow> dir_file list) \<Rightarrow> SessionMaintenanceConfig \<Rightarrow> sweep_state \<Rightarrow> sweep_state" where
  "enforce_disk_limit by_mtime cfg st =
     (let total = total_session_size (fst st)
      in if total \<le> mc_max_disk_bytes cfg then st else disk_loop cfg (get_session_files by_mtime (fst st)) total st)"

record SessionMaintenance =
  ma_config :: SessionMaintenanceConfig
  ma_last_sweep :: time

text \<open>A sweep; the directory is \<open>None\<close> when it does not exist.\<close>

definition Sweep :: "(dir_file list \<Rightarrow> dir_file list) \<Rightarrow> int \<Rightarrow> time \<Rightarrow> time \<Rightarrow> bool \<Rightarrow> SessionMaintenance \<Rightarrow> dir_file list option
    \<Rightarrow> SessionMaintenance \<times> dir_file list option \<times> MaintenanceResult" where
  "Sweep by_mtime off steady now force m dir =
     (let cfg = ma_config m in
      if \<not> force \<and> to_secs (steady - ma_last_sweep m) < mc_sweep_interval_seconds cfg then (m, dir, MaintenanceResult_init)
      else let m1 = m\<lparr>ma_last_sweep := steady\<rparr> in
        case dir of
          None \<Rightarrow> (m1, None, MaintenanceResult_init)
        | Some fs \<Rightarrow>
            let st = (fs, MaintenanceResult_init\<lparr>mr_swept := True\<rparr>);
                st = (if 0 < mc_prune_after_seconds cfg then prune_old_sessions by_mtime now cfg st else st);
                st = (if 0 < mc_max_entries cfg then enforce_max_entries by_mtime cfg st else st);
                st = (if 0 < mc_rotate_bytes cfg then rotate_large_files off now cfg st else st);
                st = (if 0 < mc_max_disk_bytes cfg then enforce_disk_limit by_mtime cfg st else st)
            in (m1, Some (fst st), snd st))"

section \<open>What the texts mean\<close>

lemma digits_span: "takeWhile is_digit (nat_digits n @ r) = nat_digits n @ takeWhile is_digit r"
  "dropWhile is_digit (nat_digits n @ r) = dropWhile is_digit r"
  using nat_digits_is_digit [of n] by (simp_all add: takeWhile_append2 dropWhile_append2)

lemma match_quantity_unit:
  assumes "list_all is_space sp" and "u = [] \<or> \<not> is_space (hd u) \<and> \<not> is_digit (hd u)"
  shows "match_quantity (nat_digits n @ sp @ u) = Some (nat_digits n, u)"
proof -
  have nd: "\<not> is_digit c" if "is_space c" for c using that is_digit_not_sign by blast
  have "takeWhile is_digit (sp @ u) = []" "dropWhile is_digit (sp @ u) = sp @ u"
    using assms nd by (cases sp; cases u; auto)+
  moreover have "dropWhile is_space (sp @ u) = u"
    using assms by (cases u) (auto simp: dropWhile_append2 list_all_iff)
  ultimately show ?thesis by (simp add: match_quantity_def digits_span Let_def)
qed

lemma stoll_nat_digits: "n < 2 ^ 63 \<Longrightarrow> stoll (nat_digits n) = Some (int n)"
proof -
  assume n: "n < 2 ^ 63"
  have h: "nat_digits n \<noteq> []" "is_digit (hd (nat_digits n))" using nat_digits_hd [of n] by auto
  have dw: "dropWhile is_space (nat_digits n) = nat_digits n"
    using h is_digit_not_sign by (cases "nat_digits n") auto
  have tw: "takeWhile is_digit (nat_digits n) = nat_digits n" using digits_span(1) [of n "[]"] by simp
  have "int n < 2 ^ 63" using n by (simp add: nat_less_iff flip: of_nat_less_iff)
  then show ?thesis
    using h(1) is_digit_not_sign [OF h(2)] by (simp add: stoll_def Let_def digits_value_nat_digits dw tw)
qed

text \<open>
  A number and a unit mean their product, if it fits; the units of durations are in lower case,
  those of sizes in any case. Any other text is read as a plain number, and what follows the digits is
  ignored: \<open>7D\<close> and \<open>7 days\<close> are seven seconds, and \<open>10GiB\<close> is ten bytes.
\<close>

theorem quantities:
  "(map_of duration_units u = Some k \<and> list_all is_space sp \<and> int n \<le> INT_MAX \<longrightarrow>
      ParseDurationSeconds (nat_digits n @ sp @ u) = (if int n * k \<le> INT_MAX then Inr (int n * k) else Inl Overflow))
   \<and> (map_of size_units (ToUpper v) = Some k \<and> list_all is_space sp \<and> n < 2 ^ 63 \<longrightarrow>
      ParseSizeBytes (nat_digits n @ sp @ v) = (if int n * k < 2 ^ 63 then Inr (int n * k) else Inl Overflow))
   \<and> ParseDurationSeconds ''7D'' = Inr 7 \<and> ParseDurationSeconds ''7 days'' = Inr 7
   \<and> ParseDurationSeconds ''7d'' = Inr 604800 \<and> ParseSizeBytes ''10GiB'' = Inr 10"
proof (intro conjI impI)
  assume a: "map_of duration_units u = Some k \<and> list_all is_space sp \<and> int n \<le> INT_MAX"
  then have u: "\<not> is_space (hd u) \<and> \<not> is_digit (hd u)" and k: "0 < k"
    by (auto simp: duration_units_def is_space_def is_digit_def byte_def split: if_splits)
  have "match_quantity (nat_digits n @ sp @ u) = Some (nat_digits n, u)" using a u match_quantity_unit by blast
  moreover have "in_int32 (int n * k) \<longleftrightarrow> int n * k \<le> INT_MAX"
  proof -
    have "0 \<le> int n * k" using k by simp
    then show ?thesis by (simp add: in_int32_def INT_MIN_def del: zero_le_mult_iff)
  qed
  ultimately show "ParseDurationSeconds (nat_digits n @ sp @ u) = (if int n * k \<le> INT_MAX then Inr (int n * k) else Inl Overflow)"
    using a stoi_nat_digits [of n "[]"] by (simp add: ParseDurationSeconds_def)
next
  assume a: "map_of size_units (ToUpper v) = Some k \<and> list_all is_space sp \<and> n < 2 ^ 63"
  have up: "to_upper c = c" if "is_space c \<or> is_digit c" for c
    using that by (auto simp: to_upper_def is_space_def is_digit_def)
  have "v = [] \<or> \<not> is_space (hd v) \<and> \<not> is_digit (hd v)"
  proof (cases v)
    case (Cons c cs)
    have "to_upper c \<in> set ''BKMGT''" using a Cons by (auto simp: size_units_def ToUpper_def split: if_splits)
    moreover have "\<not> is_space x \<and> \<not> is_digit x" if "x \<in> set ''BKMGT''" for x
      using that by (auto simp: is_space_def is_digit_def byte_def)
    ultimately show ?thesis using up [of c] Cons by (metis list.sel(1))
  qed simp
  then have "match_quantity (nat_digits n @ sp @ v) = Some (nat_digits n, v)" using a match_quantity_unit by blast
  then show "ParseSizeBytes (nat_digits n @ sp @ v) = (if int n * k < 2 ^ 63 then Inr (int n * k) else Inl Overflow)"
    using a stoll_nat_digits [of n] by (simp add: ParseSizeBytes_def)
next
  show "ParseDurationSeconds ''7D'' = Inr 7" "ParseDurationSeconds ''7 days'' = Inr 7" "ParseDurationSeconds ''7d'' = Inr 604800"
    "ParseSizeBytes ''10GiB'' = Inr 10" by code_simp+
qed

theorem quantities_witness:
  "ParseDurationSeconds ''2 w'' = Inr 1209600 \<and> ParseSizeBytes ''10mb'' = Inr 10485760"
proof -
  have d: "nat_digits 2 = ''2''" "nat_digits 10 = ''10''" by code_simp+
  have "ToUpper ''mb'' = ''MB''" by code_simp
  with quantities [of "''w''" 604800 "'' ''" 2 "''mb''"] quantities [of "''w''" 1048576 "[]" 10 "''mb''"]
  show ?thesis by (simp add: duration_units_def size_units_def d INT_MAX_def is_space_def byte_def)
qed

section \<open>What a sweep leaves\<close>

definition sorts_by_mtime :: "(dir_file list \<Rightarrow> dir_file list) \<Rightarrow> bool" where
  "sorts_by_mtime f \<longleftrightarrow> (\<forall>xs. mset (f xs) = mset xs \<and> sorted (map df_mtime (f xs)))"

lemma get_session_files_set: "sorts_by_mtime srt \<Longrightarrow> set (get_session_files srt dir) = {f \<in> set dir. session_file f}"
  unfolding sorts_by_mtime_def get_session_files_def by (metis set_filter set_mset_mset)

lemma fold_prune_dir:
  "fst (fold (\<lambda>f st. if P f then prune_file f st else st) fs (dir, r))
     = List.filter (\<lambda>f. df_name f \<notin> df_name ` set (List.filter P fs)) dir"
  by (induction fs arbitrary: dir r)
    (auto simp: prune_file_def remove_file_def conj_commute intro!: filter_cong)

lemma fold_warn_dir:
  "(\<And>f. P f = True) \<Longrightarrow> fst (fold (\<lambda>f st. (fst st, warn (w f) (snd st))) fs st) = fst st"
  by (induction fs arbitrary: st) simp_all

lemma filter_names:
  assumes "distinct (map df_name dir)" and "set xs \<subseteq> set dir"
  shows "List.filter (\<lambda>f. df_name f \<notin> df_name ` set xs) dir = List.filter (\<lambda>f. f \<notin> set xs) dir"
proof (rule filter_cong [OF refl])
  fix f
  assume "f \<in> set dir"
  then have "df_name f \<in> df_name ` set xs \<longleftrightarrow> f \<in> set xs"
    using assms unfolding distinct_map by (metis image_iff inj_on_def subset_iff)
  then show "(df_name f \<notin> df_name ` set xs) = (f \<notin> set xs)" by simp
qed

text \<open>Pruning by age removes exactly the session files that are too old.\<close>

lemma prune_old_dir:
  assumes "sorts_by_mtime srt" and "distinct (map df_name dir)" and "mc_mode cfg = kEnforce"
  shows "fst (prune_old_sessions srt now cfg (dir, r))
     = List.filter (\<lambda>f. \<not> (session_file f \<and> df_mtime f < now - secs (mc_prune_after_seconds cfg))) dir"
proof -
  let ?P = "\<lambda>f. df_mtime f < now - secs (mc_prune_after_seconds cfg)" and ?fs = "get_session_files srt dir"
  have "fst (prune_old_sessions srt now cfg (dir, r)) = List.filter (\<lambda>f. df_name f \<notin> df_name ` set (List.filter ?P ?fs)) dir"
    using assms(3) fold_prune_dir [of ?P ?fs dir r] by (simp add: prune_old_sessions_def if_distrib cong: if_cong)
  also have "\<dots> = List.filter (\<lambda>f. f \<notin> set (List.filter ?P ?fs)) dir"
    using get_session_files_set [OF assms(1)] by (intro filter_names [OF assms(2)]) auto
  also have "\<dots> = List.filter (\<lambda>f. \<not> (session_file f \<and> ?P f)) dir"
    using get_session_files_set [OF assms(1)] by (intro filter_cong) auto
  finally show ?thesis .
qed

text \<open>The limit on entries removes the oldest session files, as many as are too many.\<close>

lemma max_entries_dir:
  assumes "sorts_by_mtime srt" and "distinct (map df_name dir)" and "mc_mode cfg = kEnforce"
    and "n = length (List.filter session_file dir)"
  shows "fst (enforce_max_entries srt cfg (dir, r))
     = List.filter (\<lambda>f. f \<notin> set (take (n - nat (mc_max_entries cfg)) (get_session_files srt dir))) dir"
proof -
  let ?fs = "get_session_files srt dir"
  have len: "length ?fs = n" using assms(1,4) unfolding sorts_by_mtime_def get_session_files_def by (metis size_mset)
  show ?thesis
  proof (cases "int n \<le> mc_max_entries cfg")
    case False
    let ?k = "nat (int n - mc_max_entries cfg)"
    have "fst (fold prune_file (take ?k ?fs) (dir, r)) = List.filter (\<lambda>f. df_name f \<notin> df_name ` set (take ?k ?fs)) dir"
      using fold_prune_dir [of "\<lambda>_. True" "take ?k ?fs" dir r] by simp
    also have "\<dots> = List.filter (\<lambda>f. f \<notin> set (take ?k ?fs)) dir"
      using get_session_files_set [OF assms(1), of dir] by (intro filter_names [OF assms(2)]) (auto dest: in_set_takeD)
    also have "set (take ?k ?fs) = set (take (n - nat (mc_max_entries cfg)) ?fs)"
      using len False by (cases "0 \<le> mc_max_entries cfg") (simp_all add: nat_diff_distrib)
    finally show ?thesis using assms(3) False len by (simp add: enforce_max_entries_def Let_def)
  qed (simp add: enforce_max_entries_def len Let_def)
qed

lemma max_entries_outcome:
  assumes "sorts_by_mtime srt" and "distinct (map df_name dir)" and "mc_mode cfg = kEnforce" and "0 \<le> mc_max_entries cfg"
    and "dir' = fst (enforce_max_entries srt cfg (dir, r))"
  shows "int (length (List.filter session_file dir')) \<le> mc_max_entries cfg
     \<and> (\<forall>f \<in> set dir. \<forall>g \<in> set dir'. session_file g \<and> f \<notin> set dir' \<longrightarrow> session_file f \<and> df_mtime f \<le> df_mtime g)"
proof -
  let ?fs = "get_session_files srt dir" and ?n = "length (List.filter session_file dir)"
  let ?k = "?n - nat (mc_max_entries cfg)"
  have dir': "dir' = List.filter (\<lambda>f. f \<notin> set (take ?k ?fs)) dir"
    unfolding assms(5) by (rule max_entries_dir [OF assms(1-3) refl])
  have ms: "mset ?fs = mset (List.filter session_file dir)" and st: "sorted (map df_mtime ?fs)"
    using assms(1) by (auto simp: sorts_by_mtime_def get_session_files_def)
  have dist: "distinct dir" using assms(2) by (simp add: distinct_map)
  have distf: "distinct ?fs" using ms dist by (metis distinct_filter mset_eq_imp_distinct_iff)
  have set_fs: "set ?fs = {f \<in> set dir. session_file f}" by (rule get_session_files_set [OF assms(1)])
  have split: "set ?fs = set (take ?k ?fs) \<union> set (drop ?k ?fs)" "set (take ?k ?fs) \<inter> set (drop ?k ?fs) = {}"
    using distf by (metis append_take_drop_id set_append) (metis append_take_drop_id distf distinct_append)
  have kept: "set (List.filter session_file dir') = set (drop ?k ?fs)"
    using split set_fs by (auto simp: dir')
  have "length (List.filter session_file dir') = card (set (drop ?k ?fs))"
    using dist kept by (metis dir' distinct_card distinct_filter)
  also have "\<dots> \<le> length (drop ?k ?fs)" by (rule card_length)
  finally have "int (length (List.filter session_file dir')) \<le> mc_max_entries cfg"
    using mset_eq_length [OF ms] assms(4) by simp
  moreover have "session_file f \<and> df_mtime f \<le> df_mtime g"
    if "f \<in> set dir" "g \<in> set dir'" "session_file g" "f \<notin> set dir'" for f g
  proof -
    have "f \<in> set (take ?k ?fs)" using that(1,4) by (auto simp: dir')
    moreover have "g \<in> set (drop ?k ?fs)" using that(2,3) kept by auto
    moreover have "sorted (map df_mtime (take ?k ?fs) @ map df_mtime (drop ?k ?fs))"
      using st by (metis append_take_drop_id map_append)
    ultimately show ?thesis using set_fs split(1) by (auto simp: sorted_append)
  qed
  ultimately show ?thesis by blast
qed

text \<open>The limit on disk space removes the oldest session files until it is met, or none is left.\<close>

lemma total_remove:
  assumes "distinct (map df_name dir)" and "f \<in> set dir" and "df_regular f"
  shows "total_session_size (remove_file (df_name f) dir) = total_session_size dir - df_size f"
proof -
  have "remove_file (df_name f) dir = remove1 f dir"
    using assms(1,2)
  proof (induction dir)
    case (Cons g dir)
    then show ?case by (cases "f = g") (auto simp: remove_file_def filter_id_conv image_iff)
  qed simp
  moreover have "sum_list (map df_size (List.filter df_regular (remove1 f dir))) = sum_list (map df_size (List.filter df_regular dir)) - df_size f"
    using assms(2,3) by (induction dir) auto
  ultimately show ?thesis by (simp add: total_session_size_def)
qed

lemma disk_loop_outcome:
  assumes "distinct (map df_name dir)" and "distinct (map df_name fs)" and "\<forall>f \<in> set fs. f \<in> set dir \<and> df_regular f"
    and "mc_mode cfg = kEnforce" and "left = total_session_size dir" and "{f \<in> set dir. session_file f} \<subseteq> set fs"
    and "dir' = fst (disk_loop cfg fs left (dir, r))"
  shows "total_session_size dir' \<le> mc_max_disk_bytes cfg \<or> (\<forall>f \<in> set dir'. \<not> session_file f)"
  using assms
proof (induction fs arbitrary: dir r left)
  case (Cons f fs)
  show ?case
  proof (cases "left \<le> mc_max_disk_bytes cfg")
    case False
    let ?d = "remove_file (df_name f) dir"
    obtain r' where st: "prune_file f (dir, r) = (?d, r')" by (simp add: prune_file_def)
    have "dir' = fst (disk_loop cfg fs (left - df_size f) (?d, r'))" using Cons.prems(4,7) False st by simp
    moreover have "left - df_size f = total_session_size ?d"
      using total_remove [OF Cons.prems(1), of f] Cons.prems(3,5) by simp
    moreover have "distinct (map df_name ?d)" using Cons.prems(1) by (simp add: remove_file_def distinct_map_filter)
    moreover have "df_name g \<noteq> df_name f" if "g \<in> set fs" for g
      using that Cons.prems(2) by (metis distinct.simps(2) image_eqI list.set_map list.simps(9))
    then have "\<forall>g \<in> set fs. g \<in> set ?d \<and> df_regular g" using Cons.prems(3) by (simp add: remove_file_def)
    moreover have "{g \<in> set ?d. session_file g} \<subseteq> set fs" using Cons.prems(6) by (auto simp: remove_file_def)
    ultimately show ?thesis using Cons.IH [of ?d "left - df_size f" r'] Cons.prems(2,4) by simp
  qed (use Cons.prems in simp)
qed auto

lemma sorted_names:
  assumes "sorts_by_mtime srt" and "distinct (map df_name dir)"
  shows "distinct (map df_name (get_session_files srt dir))"
proof -
  have "mset (map df_name (get_session_files srt dir)) = mset (map df_name (List.filter session_file dir))"
    using assms(1) by (simp add: sorts_by_mtime_def get_session_files_def)
  moreover have "distinct (map df_name (List.filter session_file dir))" using assms(2) by (rule distinct_map_filter)
  ultimately show ?thesis by (metis mset_eq_imp_distinct_iff)
qed

lemma disk_limit_outcome:
  assumes "sorts_by_mtime srt" and "distinct (map df_name dir)" and "mc_mode cfg = kEnforce"
    and "dir' = fst (enforce_disk_limit srt cfg (dir, r))"
  shows "total_session_size dir' \<le> mc_max_disk_bytes cfg \<or> (\<forall>f \<in> set dir'. \<not> session_file f)"
proof (cases "total_session_size dir \<le> mc_max_disk_bytes cfg")
  case False
  with assms(4) have "dir' = fst (disk_loop cfg (get_session_files srt dir) (total_session_size dir) (dir, r))"
    by (simp add: enforce_disk_limit_def Let_def)
  then show ?thesis
    using get_session_files_set [OF assms(1), of dir]
    by (intro disk_loop_outcome [OF assms(2) sorted_names [OF assms(1,2)] _ assms(3) refl]) (auto simp: session_file_def)
qed (use assms(4) in \<open>simp add: enforce_disk_limit_def Let_def\<close>)


section \<open>Rotation\<close>

lemma extension_archive: "extension (archive_name off now name) = ''.jsonl''"
  by (simp add: extension_def archive_name_def)

lemma stem_extension: "stem name @ extension name = name"
proof -
  have "extension name = drop (length name - length (extension name)) name"
  proof (cases "Suc (length (takeWhile (\<lambda>c. c \<noteq> CHR ''.'') (rev name))) < length name")
    case True
    let ?r = "takeWhile (\<lambda>c. c \<noteq> CHR ''.'') (rev name)"
    have "rev name = ?r @ dropWhile (\<lambda>c. c \<noteq> CHR ''.'') (rev name)" by simp
    moreover have "dropWhile (\<lambda>c. c \<noteq> CHR ''.'') (rev name) \<noteq> []"
      using True by (metis append_Nil2 calculation length_rev less_not_refl2 less_Suc_eq)
    moreover from this have "hd (dropWhile (\<lambda>c. c \<noteq> CHR ''.'') (rev name)) = CHR ''.''"
      using hd_dropWhile by blast
    ultimately obtain t where "rev name = ?r @ CHR ''.'' # t" by (metis list.collapse)
    then have "name = rev t @ CHR ''.'' # rev ?r" by (metis append.assoc append_Cons append_Nil rev.simps(2) rev_append rev_rev_ident)
    moreover have "extension name = CHR ''.'' # rev ?r" using True by (simp add: extension_def Let_def)
    ultimately show ?thesis by (metis append_eq_conv_conj length_append diff_add_inverse2)
  qed (simp add: extension_def Let_def)
  then show ?thesis unfolding stem_def by (metis append_take_drop_id)
qed

lemma archive_name_inj:
  assumes "archive_name off now a = archive_name off now b" and "extension a = extension b"
  shows "a = b"
proof -
  have "stem a = stem b" using assms(1) by (simp add: archive_name_def)
  with assms(2) show ?thesis by (metis stem_extension)
qed

lemma rotate_file_dir:
  assumes "distinct (map df_name dir)" and "f \<in> set dir" and "large_transcript cfg f" and "0 \<le> mc_rotate_bytes cfg"
    and "archive_name off now (df_name f) \<notin> df_name ` set dir" and "dir' = fst (rotate_file off now f (dir, r))"
  shows "total_session_size dir' = total_session_size dir
     \<and> length (List.filter (large_transcript cfg) dir') = length (List.filter (large_transcript cfg) dir)
     \<and> length dir' = Suc (length dir) \<and> distinct (map df_name dir')
     \<and> df_name ` set dir' = insert (archive_name off now (df_name f)) (df_name ` set dir)
     \<and> (\<forall>g \<in> set dir. g \<noteq> f \<longrightarrow> g \<in> set dir')"
proof -
  let ?a = "archive_name off now (df_name f)" and ?new = "\<lparr>df_name = df_name f, df_regular = True, df_mtime = now, df_size = 0\<rparr>"
  let ?g = "\<lambda>x. if df_name x = df_name f then x\<lparr>df_name := ?a\<rparr> else x"
  have one: "x = f" if "x \<in> set dir" "df_name x = df_name f" for x
    using assms(1,2) that by (auto simp: distinct_map inj_on_def)
  have "remove_file ?a dir = dir" using assms(5) by (auto simp: remove_file_def filter_id_conv) (metis image_eqI)
  then have dir': "dir' = map ?g dir @ [?new]" using assms(6) by (simp add: rotate_file_def archive_file_def)
  have "sum_list (map df_size (List.filter df_regular (map ?g dir))) = sum_list (map df_size (List.filter df_regular dir))"
    by (induction dir) auto
  then have total: "total_session_size dir' = total_session_size dir" by (simp add: dir' total_session_size_def)
  have "large_transcript cfg (?g x) = large_transcript cfg x" if "x \<in> set dir" for x
    using one [OF that] assms(3) extension_archive by (auto simp: large_transcript_def)
  then have "length (List.filter (large_transcript cfg) (map ?g dir)) = length (List.filter (large_transcript cfg) dir)"
    by (simp add: filter_map comp_def cong: filter_cong)
  moreover have "\<not> large_transcript cfg ?new" using assms(4) by (simp add: large_transcript_def)
  ultimately have large: "length (List.filter (large_transcript cfg) dir') = length (List.filter (large_transcript cfg) dir)"
    by (simp add: dir')
  let ?h = "\<lambda>n. if n = df_name f then ?a else n"
  have names: "map df_name (map ?g dir) = map ?h (map df_name dir)" by (simp add: comp_def)
  have old: "df_name f \<in> df_name ` set dir" using assms(2) by (rule imageI)
  have "inj_on ?h (set (map df_name dir))" using assms(5) unfolding inj_on_def set_map by metis
  then have "distinct (map ?h (map df_name dir))" using assms(1) distinct_map by blast
  moreover have "df_name f \<notin> set (map ?h (map df_name dir))"
  proof
    assume "df_name f \<in> set (map ?h (map df_name dir))"
    then have "?a = df_name f" by (auto split: if_splits)
    with old assms(5) show False by metis
  qed
  ultimately have dist: "distinct (map df_name dir')" unfolding dir' map_append names by simp
  have "df_name ` set (map ?g dir) = ?h ` (df_name ` set dir)" by (metis names image_set)
  also have "\<dots> = insert ?a (df_name ` set dir - {df_name f})" using old by auto
  finally have "df_name ` set (map ?g dir) = insert ?a (df_name ` set dir - {df_name f})" .
  then have "df_name ` set dir' = insert ?a (df_name ` set dir)" using old unfolding dir' set_append image_Un by auto
  moreover have "\<forall>g \<in> set dir. g \<noteq> f \<longrightarrow> g \<in> set dir'"
  proof (intro ballI impI)
    fix g
    assume "g \<in> set dir" "g \<noteq> f"
    with one have "?g g = g" by auto
    moreover have "?g g \<in> ?g ` set dir" using \<open>g \<in> set dir\<close> by (rule imageI)
    ultimately have "g \<in> set (map ?g dir)" by (simp only: set_map)
    then show "g \<in> set dir'" unfolding dir' set_append by (rule UnI1)
  qed
  ultimately show ?thesis using total large dist by (simp add: dir')
qed

lemma rotate_fold:
  assumes "distinct (map df_name dir)" and "distinct fs" and "\<forall>f \<in> set fs. f \<in> set dir \<and> large_transcript cfg f"
    and "0 \<le> mc_rotate_bytes cfg" and "\<forall>f \<in> set fs. archive_name off now (df_name f) \<notin> df_name ` set dir"
    and "dir' = fst (fold (rotate_file off now) fs (dir, r))"
  shows "total_session_size dir' = total_session_size dir
     \<and> length (List.filter (large_transcript cfg) dir') = length (List.filter (large_transcript cfg) dir)
     \<and> length dir' = length dir + length fs
     \<and> mr_bytes_freed (snd (fold (rotate_file off now) fs (dir, r))) = mr_bytes_freed r + sum_list (map df_size fs)"
  using assms
proof (induction fs arbitrary: dir r)
  case (Cons f fs)
  obtain d1 r1 where st: "rotate_file off now f (dir, r) = (d1, r1)" by fastforce
  have f: "f \<in> set dir" "large_transcript cfg f" "archive_name off now (df_name f) \<notin> df_name ` set dir"
    using Cons.prems(3,5) by auto
  note step = rotate_file_dir [OF Cons.prems(1) f(1,2) Cons.prems(4) f(3), of d1 r]
  have step: "total_session_size d1 = total_session_size dir
     \<and> length (List.filter (large_transcript cfg) d1) = length (List.filter (large_transcript cfg) dir)
     \<and> length d1 = Suc (length dir) \<and> distinct (map df_name d1)
     \<and> df_name ` set d1 = insert (archive_name off now (df_name f)) (df_name ` set dir)
     \<and> (\<forall>g \<in> set dir. g \<noteq> f \<longrightarrow> g \<in> set d1)" using step st by simp
  have "\<forall>g \<in> set fs. g \<in> set d1 \<and> large_transcript cfg g" using Cons.prems(2,3) step by auto
  moreover have "\<forall>g \<in> set fs. archive_name off now (df_name g) \<notin> df_name ` set d1"
  proof
    fix g
    assume g: "g \<in> set fs"
    have "df_name g \<noteq> df_name f"
      using g Cons.prems(1,2,3) by (auto simp: distinct_map inj_on_def)
    then have "archive_name off now (df_name g) \<noteq> archive_name off now (df_name f)"
      using archive_name_inj g Cons.prems(3) by (auto simp: large_transcript_def)
    then show "archive_name off now (df_name g) \<notin> df_name ` set d1" using g step Cons.prems(5) by auto
  qed
  ultimately have "total_session_size dir' = total_session_size d1
     \<and> length (List.filter (large_transcript cfg) dir') = length (List.filter (large_transcript cfg) d1)
     \<and> length dir' = length d1 + length fs
     \<and> mr_bytes_freed (snd (fold (rotate_file off now) fs (d1, r1))) = mr_bytes_freed r1 + sum_list (map df_size fs)"
    using Cons.IH [of d1 r1] Cons.prems(2,4,6) step st by simp
  moreover have "mr_bytes_freed r1 = mr_bytes_freed r + df_size f" using st by (auto simp: rotate_file_def)
  ultimately show ?case using step st by simp
qed simp

text \<open>
  Rotating does not free anything, and does not end: the archive is again a transcript over the
  limit, in the same directory, so the next sweep rotates it again, under a longer name and
  leaving an empty file behind. The report claims all bytes of the rotated files as freed.
\<close>

theorem rotation_frees_nothing:
  assumes "distinct (map df_name dir)" and "mc_mode cfg = kEnforce" and "0 \<le> mc_rotate_bytes cfg"
    and "\<forall>f \<in> set dir. \<forall>g \<in> set dir. df_name f \<noteq> archive_name off now (df_name g)"
    and "rotate_large_files off now cfg (dir, r) = (dir', r')"
  shows "total_session_size dir' = total_session_size dir
     \<and> length (List.filter (large_transcript cfg) dir') = length (List.filter (large_transcript cfg) dir)
     \<and> length dir' = length dir + length (List.filter (large_transcript cfg) dir)
     \<and> mr_bytes_freed r' = mr_bytes_freed r + sum_list (map df_size (List.filter (large_transcript cfg) dir))"
proof -
  let ?fs = "List.filter (large_transcript cfg) dir"
  have run: "fold (rotate_file off now) ?fs (dir, r) = (dir', r')"
    using assms(2,5) by (simp add: rotate_large_files_def)
  have dist: "distinct ?fs" using assms(1) by (simp add: distinct_map)
  have new: "\<forall>f \<in> set ?fs. archive_name off now (df_name f) \<notin> df_name ` set dir"
  proof
    fix f
    assume "f \<in> set ?fs"
    then have "f \<in> set dir" by simp
    with assms(4) show "archive_name off now (df_name f) \<notin> df_name ` set dir" by (metis imageE)
  qed
  have "\<forall>f \<in> set ?fs. f \<in> set dir \<and> large_transcript cfg f" by simp
  from rotate_fold [OF assms(1) dist this assms(3) new, of dir' r] show ?thesis unfolding run by simp
qed

section \<open>Warnings only\<close>

definition quiet :: "sweep_state \<Rightarrow> sweep_state \<Rightarrow> bool" where
  "quiet st st' \<longleftrightarrow> fst st' = fst st \<and> mr_pruned_count (snd st') = mr_pruned_count (snd st)
     \<and> mr_rotated_count (snd st') = mr_rotated_count (snd st) \<and> mr_bytes_freed (snd st') = mr_bytes_freed (snd st)"

lemma quiet_refl [simp]: "quiet st st" by (simp add: quiet_def)

lemma quiet_trans: "quiet a b \<Longrightarrow> quiet b c \<Longrightarrow> quiet a c" by (simp add: quiet_def)

lemma quiet_warn [simp]: "quiet st (fst st, warn w (snd st))" by (simp add: quiet_def warn_def)

lemma quiet_fold: "(\<And>f st. quiet st (g f st)) \<Longrightarrow> quiet st (fold g fs st)"
proof (induction fs arbitrary: st)
  case (Cons f fs)
  from quiet_trans [OF Cons.prems Cons.IH [OF Cons.prems]] show ?case by simp
qed simp

lemma quiet_steps:
  assumes "mc_mode cfg = kWarn"
  shows "quiet st (prune_old_sessions srt now cfg st)" "quiet st (enforce_max_entries srt cfg st)"
    "quiet st (rotate_large_files off now cfg st)" "quiet st (enforce_disk_limit srt cfg st)"
proof -
  show "quiet st (prune_old_sessions srt now cfg st)" unfolding prune_old_sessions_def assms by (rule quiet_fold) simp
  show "quiet st (enforce_max_entries srt cfg st)"
    unfolding enforce_max_entries_def Let_def assms using quiet_fold [of "\<lambda>f st. (fst st, warn _ (snd st))"] by (simp add: quiet_fold)
  show "quiet st (rotate_large_files off now cfg st)" unfolding rotate_large_files_def assms by (rule quiet_fold) simp
  have "quiet st (disk_loop cfg fs left st)" for fs left st
    using assms by (induction fs arbitrary: left st) (auto intro: quiet_trans [OF quiet_warn])
  then show "quiet st (enforce_disk_limit srt cfg st)" by (simp add: enforce_disk_limit_def Let_def)
qed

text \<open>In the warning mode a sweep changes nothing in the directory and counts nothing.\<close>

theorem warnings_only:
  assumes "mc_mode (ma_config m) = kWarn" and "Sweep srt off steady now force m (Some dir) = (m1, dir1, r)"
  shows "dir1 = Some dir \<and> mr_pruned_count r = 0 \<and> mr_rotated_count r = 0 \<and> mr_bytes_freed r = 0"
proof -
  let ?c = "ma_config m" and ?s0 = "(dir, MaintenanceResult_init\<lparr>mr_swept := True\<rparr>)"
  define s1 where "s1 = (if 0 < mc_prune_after_seconds ?c then prune_old_sessions srt now ?c ?s0 else ?s0)"
  define s2 where "s2 = (if 0 < mc_max_entries ?c then enforce_max_entries srt ?c s1 else s1)"
  define s3 where "s3 = (if 0 < mc_rotate_bytes ?c then rotate_large_files off now ?c s2 else s2)"
  define s4 where "s4 = (if 0 < mc_max_disk_bytes ?c then enforce_disk_limit srt ?c s3 else s3)"
  have "quiet ?s0 s1" "quiet s1 s2" "quiet s2 s3" "quiet s3 s4"
    using quiet_steps [OF assms(1)] by (simp_all add: s1_def s2_def s3_def s4_def)
  then have "quiet ?s0 s4" by (blast intro: quiet_trans)
  moreover have "(m1, dir1, r) = (m, Some dir, MaintenanceResult_init) \<or> (m1, dir1, r) = (m\<lparr>ma_last_sweep := steady\<rparr>, Some (fst s4), snd s4)"
    using assms(2) unfolding s1_def s2_def s3_def s4_def by (auto simp: Sweep_def Let_def split: if_splits)
  ultimately show ?thesis by (auto simp: quiet_def MaintenanceResult_init_def)
qed

section \<open>Witnesses\<close>

definition demo_dir :: "dir_file list" where
  "demo_dir = [\<lparr>df_name = ''a.jsonl'', df_regular = True, df_mtime = 5, df_size = 100\<rparr>,
     \<lparr>df_name = ''sessions.json'', df_regular = True, df_mtime = 1, df_size = 10\<rparr>]"

definition demo_config :: SessionMaintenanceConfig where
  "demo_config = \<lparr>mc_mode = kEnforce, mc_prune_after_seconds = 0, mc_max_entries = 1, mc_rotate_bytes = 50,
     mc_max_disk_bytes = 0, mc_sweep_interval_seconds = 300\<rparr>"

lemma sort_key_sorts: "sorts_by_mtime (sort_key df_mtime)"
  by (simp add: sorts_by_mtime_def)


theorem rotation_frees_nothing_witness:
  "total_session_size (fst (rotate_large_files 0 0 demo_config (demo_dir, MaintenanceResult_init))) = 110
   \<and> mr_bytes_freed (snd (rotate_large_files 0 0 demo_config (demo_dir, MaintenanceResult_init))) = 100"
proof -
  have e: "extension ''sessions.json'' = ''.json''" "extension ''a.jsonl'' = ''.jsonl''" by code_simp+
  have "df_name f \<noteq> archive_name 0 0 n" if "f \<in> set demo_dir" for f n
  proof
    assume "df_name f = archive_name 0 0 n"
    have "16 \<le> length (archive_name 0 0 n)" by (simp add: archive_name_def)
    with \<open>df_name f = archive_name 0 0 n\<close> have "16 \<le> length (df_name f)" by simp
    with that show False by (auto simp: demo_dir_def)
  qed
  then have "\<forall>f \<in> set demo_dir. \<forall>g \<in> set demo_dir. df_name f \<noteq> archive_name 0 0 (df_name g)" by blast
  then show ?thesis
    using rotation_frees_nothing [of demo_dir demo_config 0 0 MaintenanceResult_init
        "fst (rotate_large_files 0 0 demo_config (demo_dir, MaintenanceResult_init))"
        "snd (rotate_large_files 0 0 demo_config (demo_dir, MaintenanceResult_init))"]
    by (simp add: demo_dir_def demo_config_def total_session_size_def large_transcript_def e MaintenanceResult_init_def)
qed

theorem warnings_only_witness:
  "fst (snd (Sweep (sort_key df_mtime) 0 0 0 True
     \<lparr>ma_config = demo_config\<lparr>mc_mode := kWarn\<rparr>, ma_last_sweep = 0\<rparr> (Some demo_dir))) = Some demo_dir"
proof -
  let ?s = "Sweep (sort_key df_mtime) 0 0 0 True \<lparr>ma_config = demo_config\<lparr>mc_mode := kWarn\<rparr>, ma_last_sweep = 0\<rparr> (Some demo_dir)"
  have "?s = (fst ?s, fst (snd ?s), snd (snd ?s))" by simp
  from warnings_only [OF _ this] show ?thesis by simp
qed

end
