(* ===== verification/AuditLog.thy ===== *)
theory AuditLog
  imports Maintenance
begin

text \<open>
  The security audit log (\<open>security/audit_logger.cpp\<close>): entries and their JSON form, one operation for
  each kind of event, the file of the day, and export and query over all files of the
  directory. Values of JSON that are only passed on are of a type \<open>'j\<close>; random numbers and clocks
  are arguments; opening and writing of a file succeed.
\<close>

section \<open>Entries\<close>

datatype AuditEventType =
    kContentWrapping
  | kMarkerSanitization
  | kDangerousToolCall
  | kAuthFailure
  | kPolicyChange
  | kAccessDenied
  | kSuspiciousActivity

fun AuditEventTypeToString :: "AuditEventType \<Rightarrow> string" where
  "AuditEventTypeToString kContentWrapping = ''content_wrapping''"
| "AuditEventTypeToString kMarkerSanitization = ''marker_sanitization''"
| "AuditEventTypeToString kDangerousToolCall = ''dangerous_tool_call''"
| "AuditEventTypeToString kAuthFailure = ''auth_failure''"
| "AuditEventTypeToString kPolicyChange = ''policy_change''"
| "AuditEventTypeToString kAccessDenied = ''access_denied''"
| "AuditEventTypeToString kSuspiciousActivity = ''suspicious_activity''"

definition StringToAuditEventType :: "string \<Rightarrow> AuditEventType" where
  "StringToAuditEventType str =
     (if str = ''content_wrapping'' then kContentWrapping
      else if str = ''marker_sanitization'' then kMarkerSanitization
      else if str = ''dangerous_tool_call'' then kDangerousToolCall
      else if str = ''auth_failure'' then kAuthFailure
      else if str = ''policy_change'' then kPolicyChange
      else if str = ''access_denied'' then kAccessDenied
      else if str = ''suspicious_activity'' then kSuspiciousActivity
      else kContentWrapping)"

interpretation audit_type: enum_codec AuditEventTypeToString StringToAuditEventType kContentWrapping
proof
  fix e s
  show "StringToAuditEventType (AuditEventTypeToString e) = e"
    by (cases e) (simp_all add: StringToAuditEventType_def)
  assume "\<forall>e. AuditEventTypeToString e \<noteq> s"
  then have "s \<noteq> AuditEventTypeToString e" for e by blast
  note this [of kMarkerSanitization] this [of kDangerousToolCall] this [of kAuthFailure] this [of kPolicyChange]
    this [of kAccessDenied] this [of kSuspiciousActivity]
  then show "StringToAuditEventType s = kContentWrapping" unfolding StringToAuditEventType_def by simp
qed

datatype 'j detail = DText string | DNumber int | DBool bool | DJson 'j

record 'j AuditEntry =
  ae_id :: string
  ae_event_type :: AuditEventType
  ae_timestamp :: time
  ae_user_id :: string
  ae_session_id :: string
  ae_source :: string
  ae_action :: string
  ae_details :: "(string \<times> 'j detail) list"
  ae_severity :: string

record 'j audit_json =
  aj_id :: "string option"
  aj_event_type :: "string option"
  aj_timestamp :: "string option"
  aj_user_id :: "string option"
  aj_session_id :: "string option"
  aj_source :: "string option"
  aj_action :: "string option"
  aj_details :: "(string \<times> 'j detail) list option"
  aj_severity :: "string option"

definition AuditEntry_ToJson :: "'j AuditEntry \<Rightarrow> 'j audit_json" where
  "AuditEntry_ToJson e =
     \<lparr>aj_id = Some (ae_id e), aj_event_type = Some (AuditEventTypeToString (ae_event_type e)),
      aj_timestamp = Some (put_iso (gmtime (to_secs (ae_timestamp e)))), aj_user_id = Some (ae_user_id e),
      aj_session_id = Some (ae_session_id e), aj_source = Some (ae_source e), aj_action = Some (ae_action e),
      aj_details = Some (ae_details e), aj_severity = Some (ae_severity e)\<rparr>"

definition AuditEntry_FromJson :: "time \<Rightarrow> 'j audit_json \<Rightarrow> 'j AuditEntry" where
  "AuditEntry_FromJson now j =
     \<lparr>ae_id = value_or (aj_id j) [], ae_event_type = StringToAuditEventType (value_or (aj_event_type j) []),
      ae_timestamp =
        (let timestamp_str = value_or (aj_timestamp j) [] in
         if timestamp_str \<noteq> [] then
           (case get_iso timestamp_str of Some tm \<Rightarrow> secs (timegm tm) | None \<Rightarrow> now)
         else now),
      ae_user_id = value_or (aj_user_id j) [], ae_session_id = value_or (aj_session_id j) [],
      ae_source = value_or (aj_source j) [], ae_action = value_or (aj_action j) [],
      ae_details = value_or (aj_details j) [], ae_severity = value_or (aj_severity j) ''info''\<rparr>"

section \<open>The logger\<close>

text \<open>A line of a file is empty, or does not parse, or holds an entry; a file is named by directory and name.\<close>

datatype 'j audit_line = BlankLine | BrokenLine | EntryLine "'j audit_json"

record 'j AuditLogger =
  al_directory :: string
  al_files :: "((string \<times> string) \<times> 'j audit_line list) list"

definition default_directory :: "string option \<Rightarrow> string" where
  "default_directory home =
     (case home of Some h \<Rightarrow> h @ ''/.ravbot/logs/audit'' | None \<Rightarrow> ''/tmp/ravbot/logs/audit'')"

definition SecurityAuditLogger_init :: "string option \<Rightarrow> ((string \<times> string) \<times> 'j audit_line list) list \<Rightarrow> 'j AuditLogger" where
  "SecurityAuditLogger_init home files = \<lparr>al_directory = default_directory home, al_files = files\<rparr>"

definition SetLogDirectory :: "string \<Rightarrow> 'j AuditLogger \<Rightarrow> 'j AuditLogger" where
  "SetLogDirectory directory lg = lg\<lparr>al_directory := directory\<rparr>"

definition GenerateId :: "nat \<Rightarrow> string" where
  "GenerateId r = pad_left (CHR ''0'') 16 (hex_digits r)"

definition GetLogFilePath :: "time \<Rightarrow> 'j AuditLogger \<Rightarrow> string \<times> string" where
  "GetLogFilePath now lg = (al_directory lg, put_date (gmtime (to_secs now)) @ ''.jsonl'')"

definition LogEntry :: "time \<Rightarrow> 'j AuditEntry \<Rightarrow> 'j AuditLogger \<Rightarrow> 'j AuditLogger" where
  "LogEntry now e lg =
     (let path = GetLogFilePath now lg
      in lg\<lparr>al_files := AList.update path (um_at (al_files lg) path [] @ [EntryLine (AuditEntry_ToJson e)]) (al_files lg)\<rparr>)"

text \<open>One operation for each kind of event; \<open>t\<close> is the time of the entry, \<open>now\<close> the one that names the file.\<close>

definition LogContentWrapping :: "nat \<Rightarrow> time \<Rightarrow> time \<Rightarrow> string \<Rightarrow> string \<Rightarrow> string \<Rightarrow> string \<Rightarrow> int \<Rightarrow> 'j AuditLogger \<Rightarrow> 'j AuditLogger" where
  "LogContentWrapping r t now user_id session_id tool_name url content_size =
     LogEntry now \<lparr>ae_id = GenerateId r, ae_event_type = kContentWrapping, ae_timestamp = t, ae_user_id = user_id,
       ae_session_id = session_id, ae_source = tool_name, ae_action = ''wrap_external_content'',
       ae_details = [(''tool_name'', DText tool_name), (''url'', DText url), (''content_size'', DNumber content_size)],
       ae_severity = ''info''\<rparr>"

definition LogMarkerSanitization :: "nat \<Rightarrow> time \<Rightarrow> time \<Rightarrow> string \<Rightarrow> string \<Rightarrow> string \<Rightarrow> int \<Rightarrow> 'j AuditLogger \<Rightarrow> 'j AuditLogger" where
  "LogMarkerSanitization r t now user_id session_id src markers_removed =
     LogEntry now \<lparr>ae_id = GenerateId r, ae_event_type = kMarkerSanitization, ae_timestamp = t, ae_user_id = user_id,
       ae_session_id = session_id, ae_source = src, ae_action = ''sanitize_boundary_markers'',
       ae_details = [(''markers_removed'', DNumber markers_removed)],
       ae_severity = (if 0 < markers_removed then ''warning'' else ''info'')\<rparr>"

definition LogDangerousToolCall :: "nat \<Rightarrow> time \<Rightarrow> time \<Rightarrow> string \<Rightarrow> string \<Rightarrow> string \<Rightarrow> 'j \<Rightarrow> bool \<Rightarrow> 'j AuditLogger \<Rightarrow> 'j AuditLogger" where
  "LogDangerousToolCall r t now user_id session_id tool_name parameters approved =
     LogEntry now \<lparr>ae_id = GenerateId r, ae_event_type = kDangerousToolCall, ae_timestamp = t, ae_user_id = user_id,
       ae_session_id = session_id, ae_source = ''tool_execution'', ae_action = ''call_dangerous_tool'',
       ae_details = [(''tool_name'', DText tool_name), (''parameters'', DJson parameters), (''approved'', DBool approved)],
       ae_severity = (if approved then ''warning'' else ''error'')\<rparr>"

definition LogAuthFailure :: "nat \<Rightarrow> time \<Rightarrow> time \<Rightarrow> string \<Rightarrow> string \<Rightarrow> string \<Rightarrow> 'j AuditLogger \<Rightarrow> 'j AuditLogger" where
  "LogAuthFailure r t now user_id src reason =
     LogEntry now \<lparr>ae_id = GenerateId r, ae_event_type = kAuthFailure, ae_timestamp = t, ae_user_id = user_id,
       ae_session_id = [], ae_source = src, ae_action = ''authentication_failed'',
       ae_details = [(''reason'', DText reason)], ae_severity = ''error''\<rparr>"

definition LogPolicyChange :: "nat \<Rightarrow> time \<Rightarrow> time \<Rightarrow> string \<Rightarrow> string \<Rightarrow> 'j \<Rightarrow> 'j \<Rightarrow> 'j AuditLogger \<Rightarrow> 'j AuditLogger" where
  "LogPolicyChange r t now user_id policy_name old_value new_value =
     LogEntry now \<lparr>ae_id = GenerateId r, ae_event_type = kPolicyChange, ae_timestamp = t, ae_user_id = user_id,
       ae_session_id = [], ae_source = ''policy_manager'', ae_action = ''change_policy'',
       ae_details = [(''policy_name'', DText policy_name), (''old_value'', DJson old_value), (''new_value'', DJson new_value)],
       ae_severity = ''warning''\<rparr>"

definition LogAccessDenied :: "nat \<Rightarrow> time \<Rightarrow> time \<Rightarrow> string \<Rightarrow> string \<Rightarrow> string \<Rightarrow> string \<Rightarrow> 'j AuditLogger \<Rightarrow> 'j AuditLogger" where
  "LogAccessDenied r t now user_id session_id resource reason =
     LogEntry now \<lparr>ae_id = GenerateId r, ae_event_type = kAccessDenied, ae_timestamp = t, ae_user_id = user_id,
       ae_session_id = session_id, ae_source = ''access_control'', ae_action = ''deny_access'',
       ae_details = [(''resource'', DText resource), (''reason'', DText reason)], ae_severity = ''warning''\<rparr>"

definition LogSuspiciousActivity :: "nat \<Rightarrow> time \<Rightarrow> time \<Rightarrow> string \<Rightarrow> string \<Rightarrow> string \<Rightarrow> 'j \<Rightarrow> 'j AuditLogger \<Rightarrow> 'j AuditLogger" where
  "LogSuspiciousActivity r t now user_id session_id description evidence =
     LogEntry now \<lparr>ae_id = GenerateId r, ae_event_type = kSuspiciousActivity, ae_timestamp = t, ae_user_id = user_id,
       ae_session_id = session_id, ae_source = ''security_monitor'', ae_action = ''detect_suspicious_activity'',
       ae_details = [(''description'', DText description), (''evidence'', DJson evidence)], ae_severity = ''critical''\<rparr>"

section \<open>Reading\<close>

definition ReadLogFile :: "time \<Rightarrow> 'j audit_line list \<Rightarrow> 'j AuditEntry list" where
  "ReadLogFile now = List.map_filter (\<lambda>l. case l of EntryLine j \<Rightarrow> Some (AuditEntry_FromJson now j) | _ \<Rightarrow> None)"

text \<open>The files of the directory with the extension of logs, in the order of the iterator.\<close>

definition log_files :: "'j AuditLogger \<Rightarrow> 'j audit_line list list" where
  "log_files lg = map snd (List.filter (\<lambda>((d, name), lines). d = al_directory lg \<and> extension name = ''.jsonl'') (al_files lg))"

definition Export :: "time \<Rightarrow> time \<Rightarrow> time \<Rightarrow> string \<Rightarrow> 'j AuditLogger \<Rightarrow> 'j AuditEntry list" where
  "Export now start_time end_time filter_user_id lg =
     List.filter (\<lambda>e. start_time \<le> ae_timestamp e \<and> ae_timestamp e \<le> end_time
         \<and> (filter_user_id = [] \<or> ae_user_id e = filter_user_id))
       (concat (map (ReadLogFile now) (log_files lg)))"

definition Query :: "time \<Rightarrow> AuditEventType \<Rightarrow> time \<Rightarrow> time \<Rightarrow> 'j AuditLogger \<Rightarrow> 'j AuditEntry list" where
  "Query now event_type start_time end_time lg =
     List.filter (\<lambda>e. ae_event_type e = event_type \<and> start_time \<le> ae_timestamp e \<and> ae_timestamp e \<le> end_time)
       (concat (map (ReadLogFile now) (log_files lg)))"

section \<open>Runs\<close>

text \<open>A call of one of the operations above, with its random number and its two readings of the clock.\<close>

datatype 'j audit_call =
    WrapCall string string string string int
  | SanitizeCall string string string int
  | DangerousCall string string string 'j bool
  | AuthCall string string string
  | PolicyCall string string 'j 'j
  | DeniedCall string string string string
  | SuspiciousCall string string string 'j

type_synonym 'j audit_event = "nat \<times> time \<times> time \<times> 'j audit_call"

fun audit_next :: "'j AuditLogger \<Rightarrow> 'j audit_event \<Rightarrow> 'j AuditLogger" where
  "audit_next lg (r, t, now, WrapCall u s tool url n) = LogContentWrapping r t now u s tool url n lg"
| "audit_next lg (r, t, now, SanitizeCall u s src n) = LogMarkerSanitization r t now u s src n lg"
| "audit_next lg (r, t, now, DangerousCall u s tool ps ok) = LogDangerousToolCall r t now u s tool ps ok lg"
| "audit_next lg (r, t, now, AuthCall u src reason) = LogAuthFailure r t now u src reason lg"
| "audit_next lg (r, t, now, PolicyCall u name old new) = LogPolicyChange r t now u name old new lg"
| "audit_next lg (r, t, now, DeniedCall u s res reason) = LogAccessDenied r t now u s res reason lg"
| "audit_next lg (r, t, now, SuspiciousCall u s desc ev) = LogSuspiciousActivity r t now u s desc ev lg"

text \<open>What a reader should find of a call: its kind, user, session and time in whole seconds.\<close>

fun call_kind :: "'j audit_call \<Rightarrow> AuditEventType" where
  "call_kind (WrapCall _ _ _ _ _) = kContentWrapping"
| "call_kind (SanitizeCall _ _ _ _) = kMarkerSanitization"
| "call_kind (DangerousCall _ _ _ _ _) = kDangerousToolCall"
| "call_kind (AuthCall _ _ _) = kAuthFailure"
| "call_kind (PolicyCall _ _ _ _) = kPolicyChange"
| "call_kind (DeniedCall _ _ _ _) = kAccessDenied"
| "call_kind (SuspiciousCall _ _ _ _) = kSuspiciousActivity"

fun call_user :: "'j audit_call \<Rightarrow> string" where
  "call_user (WrapCall u _ _ _ _) = u"
| "call_user (SanitizeCall u _ _ _) = u"
| "call_user (DangerousCall u _ _ _ _) = u"
| "call_user (AuthCall u _ _) = u"
| "call_user (PolicyCall u _ _ _) = u"
| "call_user (DeniedCall u _ _ _) = u"
| "call_user (SuspiciousCall u _ _ _) = u"

definition summary :: "'j AuditEntry \<Rightarrow> string \<times> AuditEventType \<times> time \<times> string" where
  "summary e = (ae_id e, ae_event_type e, ae_timestamp e, ae_user_id e)"

definition expected :: "'j audit_event \<Rightarrow> string \<times> AuditEventType \<times> time \<times> string" where
  "expected = (\<lambda>(r, t, now, c). (GenerateId r, call_kind c, secs (to_secs t), call_user c))"

definition datable :: "'j audit_event \<Rightarrow> bool" where
  "datable = (\<lambda>(r, t, now, c). 0 \<le> t \<and> tm_year (gmtime (to_secs t)) \<le> 9999)"

lemma put_iso_nonempty: "put_iso tm \<noteq> []"
  by (simp add: put_iso_def)

lemma entry_roundtrip:
  assumes "0 \<le> ae_timestamp e" and "tm_year (gmtime (to_secs (ae_timestamp e))) \<le> 9999"
  shows "AuditEntry_FromJson now (AuditEntry_ToJson e) = e\<lparr>ae_timestamp := secs (to_secs (ae_timestamp e))\<rparr>"
proof -
  have "0 \<le> to_secs (ae_timestamp e)" using assms(1) by (simp add: to_secs_def cdiv_nonneg)
  from iso_roundtrip [OF this assms(2)] obtain tm where
    "get_iso (put_iso (gmtime (to_secs (ae_timestamp e)))) = Some tm" "timegm tm = to_secs (ae_timestamp e)" by auto
  then show ?thesis
    by (simp add: AuditEntry_FromJson_def AuditEntry_ToJson_def put_iso_nonempty audit_type.of_to)
qed

lemma date_file_extension: "extension (d # ds @ ''.jsonl'') = ''.jsonl''"
  by (simp add: extension_def Let_def)

text \<open>All entries a reader sees, file by file.\<close>

definition visible :: "time \<Rightarrow> 'j AuditLogger \<Rightarrow> 'j AuditEntry list" where
  "visible now lg = concat (map (ReadLogFile now) (log_files lg))"

lemma ReadLogFile_append: "ReadLogFile now (a @ b) = ReadLogFile now a @ ReadLogFile now b"
  by (induction a) (auto simp: ReadLogFile_def List.map_filter_def split: audit_line.splits)

lemma visible_LogEntry:
  "mset (visible now (LogEntry at e lg)) = add_mset (AuditEntry_FromJson now (AuditEntry_ToJson e)) (mset (visible now lg))
   \<and> al_directory (LogEntry at e lg) = al_directory lg"
proof -
  obtain d ds where date: "put_date (gmtime (to_secs at)) = d # ds"
    by (cases "put_date (gmtime (to_secs at))") (auto simp: put_date_def)
  let ?p = "(al_directory lg, d # ds @ ''.jsonl'')" and ?j = "EntryLine (AuditEntry_ToJson e)"
  have files: "mset (concat (map (ReadLogFile now) (log_files \<lparr>al_directory = al_directory lg,
        al_files = AList.update ?p (um_at fs ?p [] @ [?j]) fs\<rparr>)))
      = add_mset (AuditEntry_FromJson now (AuditEntry_ToJson e))
          (mset (concat (map (ReadLogFile now) (log_files \<lparr>al_directory = al_directory lg, al_files = fs\<rparr>))))" for fs
  proof (induction fs)
    case Nil
    show ?case by (simp add: log_files_def date_file_extension um_at_def ReadLogFile_def List.map_filter_def)
  next
    case (Cons f fs)
    obtain q ls where f: "f = (q, ls)" by fastforce
    show ?case
    proof (cases "q = ?p")
      case True
      then show ?thesis
        by (simp add: f log_files_def date_file_extension um_at_def ReadLogFile_append)
          (simp add: ReadLogFile_def List.map_filter_def)
    next
      case False
      then have "um_at (f # fs) ?p [] = um_at fs ?p []" by (simp add: um_at_def f)
      with False Cons show ?thesis by (auto simp: f log_files_def)
    qed
  qed
  show ?thesis
    using files [of "al_files lg"]
    by (simp add: visible_def LogEntry_def GetLogFilePath_def date log_files_def Let_def)
qed

lemma audit_next_visible:
  "datable ev \<Longrightarrow> mset (map summary (visible now (audit_next lg ev))) = add_mset (expected ev) (mset (map summary (visible now lg)))"
proof -
  assume dat: "datable ev"
  have step: "mset (map summary (visible now (LogEntry at e lg))) = add_mset (ae_id e, ae_event_type e, secs (to_secs (ae_timestamp e)), ae_user_id e)
      (mset (map summary (visible now lg)))"
    if "0 \<le> ae_timestamp e" "tm_year (gmtime (to_secs (ae_timestamp e))) \<le> 9999" for e and at and lg :: "'a AuditLogger"
    using visible_LogEntry [of now at e lg] entry_roundtrip [OF that, of now] by (simp add: summary_def)
  obtain r t at c where ev: "ev = (r, t, at, c)" by (cases ev) auto
  show ?thesis
    using dat unfolding ev
    by (cases c) (simp_all add: step [unfolded mset_map] datable_def expected_def LogContentWrapping_def LogMarkerSanitization_def
      LogDangerousToolCall_def LogAuthFailure_def LogPolicyChange_def LogAccessDenied_def LogSuspiciousActivity_def)
qed

text \<open>
  Claim C25. The log is complete and exact: in every run of the operations on an empty directory, an export
  of a period, for one user or for all, contains each call of that period once, with its
  identifier, kind, user and time in whole seconds, and nothing else; and so does a query for a kind.
\<close>

theorem audit_complete:
  assumes "al_files lg = []" and "list_all datable evs"
  shows "mset (map summary (Export now a b u (foldl audit_next lg evs)))
       = filter_mset (\<lambda>(i, k, t, user). a \<le> t \<and> t \<le> b \<and> (u = [] \<or> user = u)) (mset (map expected evs))
     \<and> mset (map summary (Query now kind a b (foldl audit_next lg evs)))
       = filter_mset (\<lambda>(i, k, t, user). k = kind \<and> a \<le> t \<and> t \<le> b) (mset (map expected evs))"
proof -
  have "list_all datable evs \<Longrightarrow> mset (map summary (visible now (foldl audit_next lg evs)))
      = mset (map summary (visible now lg)) + mset (map expected evs)" for lg :: "'a AuditLogger"
    by (induction evs arbitrary: lg) (simp_all add: audit_next_visible [unfolded mset_map])
  from this [of lg] assms have all: "mset (map summary (visible now (foldl audit_next lg evs))) = mset (map expected evs)"
    by (simp add: visible_def log_files_def)
  have filtered: "mset (map summary (List.filter (\<lambda>e. P (summary e)) xs)) = filter_mset P (mset (map summary xs))"
    for P and xs :: "'a AuditEntry list" by (induction xs) simp_all
  show ?thesis
    using filtered [of "\<lambda>(i, k, t, user). a \<le> t \<and> t \<le> b \<and> (u = [] \<or> user = u)" "visible now (foldl audit_next lg evs)"]
      filtered [of "\<lambda>(i, k, t, user). k = kind \<and> a \<le> t \<and> t \<le> b" "visible now (foldl audit_next lg evs)"]
    unfolding all by (simp add: Export_def Query_def visible_def summary_def)
qed

text \<open>
  Entries are only ever added: every operation keeps the lines of all files, in the log directory and
  elsewhere, and appends one line to the file of the day.
\<close>

lemma LogEntry_appends:
  "um_at (al_files (LogEntry now e lg)) path [] = um_at (al_files lg) path []
     @ (if path = GetLogFilePath now lg then [EntryLine (AuditEntry_ToJson e)] else [])"
  by (simp add: LogEntry_def Let_def um_at_def map_of_update split: option.splits)

lemma audit_next_appends:
  "\<exists>e. audit_next lg (r, t, now, c) = LogEntry now e lg"
  by (cases c) (auto simp: LogContentWrapping_def LogMarkerSanitization_def
      LogDangerousToolCall_def LogAuthFailure_def LogPolicyChange_def LogAccessDenied_def LogSuspiciousActivity_def)

theorem audit_append_only:
  "take (length (um_at (al_files lg) path [])) (um_at (al_files (foldl audit_next lg evs)) path []) = um_at (al_files lg) path []
   \<and> (al_directory lg \<noteq> fst path \<longrightarrow> um_at (al_files (foldl audit_next lg evs)) path [] = um_at (al_files lg) path [])"
proof (induction evs rule: rev_induct)
  case (snoc ev evs)
  obtain r t now c where "ev = (r, t, now, c)" by (cases ev) auto
  then obtain e where e: "foldl audit_next lg (evs @ [ev]) = LogEntry now e (foldl audit_next lg evs)"
    using audit_next_appends by force
  have "al_directory (foldl audit_next lg evs) = al_directory lg"
  proof (induction evs rule: rev_induct)
    case (snoc ev evs)
    obtain r t now c where "ev = (r, t, now, c)" by (cases ev) auto
    with snoc audit_next_appends [of "foldl audit_next lg evs" r t now c] show ?case
      by (auto simp: LogEntry_def Let_def)
  qed simp
  with snoc show ?case unfolding e LogEntry_appends
    by (auto simp: GetLogFilePath_def)
qed simp

text \<open>
  What the file does to an entry: everything but the fraction of the second is kept. An entry whose
  kind is not known is read as a content wrapping, so a query for that kind returns it; and one whose timestamp
  does not parse counts as made now.
\<close>

theorem audit_entry_file:
  assumes "0 \<le> ae_timestamp e" and "tm_year (gmtime (to_secs (ae_timestamp e))) \<le> 9999"
    and "\<forall>k. aj_event_type j \<noteq> Some (AuditEventTypeToString k)"
    and "case aj_timestamp j of None \<Rightarrow> True | Some s \<Rightarrow> get_iso s = None"
  shows "AuditEntry_FromJson now (AuditEntry_ToJson e) = e\<lparr>ae_timestamp := secs (to_secs (ae_timestamp e))\<rparr>
     \<and> secs (to_secs (ae_timestamp e)) \<le> ae_timestamp e
     \<and> ae_event_type (AuditEntry_FromJson now j) = kContentWrapping \<and> ae_timestamp (AuditEntry_FromJson now j) = now"
proof -
  have "secs (to_secs (ae_timestamp e)) \<le> ae_timestamp e"
    using assms(1) by (simp add: secs_def to_secs_def cdiv_nonneg minus_mod_eq_div_mult [symmetric])
  moreover have "ae_event_type (AuditEntry_FromJson now j) = kContentWrapping"
  proof (cases "aj_event_type j")
    case None
    then show ?thesis by (simp add: AuditEntry_FromJson_def StringToAuditEventType_def)
  next
    case (Some s)
    with assms(3) have "\<forall>k. AuditEventTypeToString k \<noteq> s" by blast
    with Some audit_type.of_unknown show ?thesis by (simp add: AuditEntry_FromJson_def)
  qed
  moreover have "ae_timestamp (AuditEntry_FromJson now j) = now"
    using assms(4) by (auto simp: AuditEntry_FromJson_def Let_def value_or_def split: option.splits)
  ultimately show ?thesis using entry_roundtrip [OF assms(1,2)] by simp
qed

definition demo_log :: "unit AuditLogger" where
  "demo_log = SecurityAuditLogger_init (Some ''/root'') []"

definition demo_calls :: "unit audit_event list" where
  "demo_calls = [(1, secs 1700000000 + msecs 500, secs 1700000001, AuthCall ''eve'' ''gateway'' ''bad token''),
     (2, secs 1700000100, secs 1700000100, DeniedCall ''bob'' ''s1'' ''config.set'' ''viewer'')]"

theorem audit_complete_witness:
  "mset (map summary (Export 0 (secs 1700000000) (secs 1700000050) [] (foldl audit_next demo_log demo_calls)))
     = {#(GenerateId 1, kAuthFailure, secs 1700000000, ''eve'')#}"
proof -
  have secs: "to_secs (secs 1700000000 + msecs 500) = 1700000000"
    by (simp add: to_secs_def secs_def msecs_def cdiv_def)
  have "tm_year (gmtime 1700000000) = 2023" "tm_year (gmtime 1700000100) = 2023" by code_simp+
  then have "list_all datable demo_calls" by (simp add: demo_calls_def datable_def secs) (simp add: secs_def msecs_def)
  moreover have "al_files demo_log = []" by (simp add: demo_log_def SecurityAuditLogger_init_def)
  ultimately show ?thesis
    using audit_complete [of demo_log demo_calls 0 "secs 1700000000" "secs 1700000050" "[]" kAuthFailure]
    by (simp add: demo_calls_def expected_def secs)
qed

theorem audit_append_only_witness:
  "um_at (al_files (foldl audit_next demo_log demo_calls)) (''/tmp'', ''x.jsonl'') [] = []"
proof -
  have "um_at (al_files demo_log) (''/tmp'', ''x.jsonl'') [] = []" "al_directory demo_log \<noteq> ''/tmp''"
    by (simp_all add: demo_log_def SecurityAuditLogger_init_def default_directory_def um_at_def)
  with audit_append_only [of demo_log "(''/tmp'', ''x.jsonl'')" demo_calls] show ?thesis by simp
qed

definition demo_entry :: "unit AuditEntry" where
  "demo_entry = \<lparr>ae_id = ''a'', ae_event_type = kAuthFailure, ae_timestamp = secs 1700000000, ae_user_id = ''eve'',
     ae_session_id = [], ae_source = [], ae_action = [], ae_details = [], ae_severity = ''error''\<rparr>"

definition broken_json :: "unit audit_json" where
  "broken_json = (AuditEntry_ToJson demo_entry)\<lparr>aj_event_type := Some ''login'', aj_timestamp := None\<rparr>"

theorem audit_entry_file_witness:
  "AuditEntry_FromJson 7 (AuditEntry_ToJson demo_entry) = demo_entry
   \<and> ae_event_type (AuditEntry_FromJson 7 broken_json) = kContentWrapping \<and> ae_timestamp (AuditEntry_FromJson 7 broken_json) = 7"
proof -
  have "tm_year (gmtime 1700000000) = 2023" by code_simp
  moreover have "aj_event_type broken_json \<noteq> Some (AuditEventTypeToString k)" for k
    by (cases k) (simp_all add: broken_json_def)
  ultimately show ?thesis
    using audit_entry_file [of demo_entry broken_json 7]
    by (simp add: demo_entry_def broken_json_def) (simp add: secs_def)
qed

end
