(* ===== verification/Regex.thy ===== *)
theory Regex
  imports Patterns StringUtil
begin

text \<open>
  Regular expressions of \<open>std::regex\<close> (ECMAScript grammar), as far as the sources need them:
  classes of characters, sequence, alternatives, greedy repetition of a class, options and
  word boundaries. A matcher answers the ends of all matches in the order in which
  backtracking tries them, so the first one is the match; search and replacement go from the left.
  The main fact is that, without boundaries, this order apart, the ends are those of the
  language of the expression.
\<close>

section \<open>Expressions and their matches\<close>

datatype rx =
    Empty
  | One "char \<Rightarrow> bool"
  | Many "char \<Rightarrow> bool"
  | Upto nat "char \<Rightarrow> bool"
  | Seq rx rx
  | Alt rx rx
  | Opt rx
  | Boundary

text \<open>A place in a text: the character before it, if any, and the rest.\<close>

type_synonym place = "char option \<times> string"

text \<open>The ends of a greedy run of at most \<open>n\<close> characters of a class, longest first.\<close>

fun run_ends :: "(char \<Rightarrow> bool) \<Rightarrow> nat \<Rightarrow> place \<Rightarrow> place list" where
  "run_ends P n (p, []) = [(p, [])]"
| "run_ends P n (p, c # cs) =
     (if 0 < n \<and> P c then run_ends P (n - 1) (Some c, cs) @ [(p, c # cs)] else [(p, c # cs)])"

fun rx_match :: "rx \<Rightarrow> place \<Rightarrow> place list" where
  "rx_match Empty x = [x]"
| "rx_match (One P) x = (case snd x of [] \<Rightarrow> [] | c # cs \<Rightarrow> if P c then [(Some c, cs)] else [])"
| "rx_match (Many P) x = run_ends P (length (snd x)) x"
| "rx_match (Upto n P) x = run_ends P n x"
| "rx_match (Seq a b) x = concat (map (rx_match b) (rx_match a x))"
| "rx_match (Alt a b) x = rx_match a x @ rx_match b x"
| "rx_match (Opt a) x = rx_match a x @ [x]"
| "rx_match Boundary x = (if word_boundary (fst x) (snd x) then [x] else [])"

text \<open>
  \<open>regex_search\<close>: the number of characters before the leftmost match, and where it ends.
\<close>

fun rx_find :: "rx \<Rightarrow> char option \<Rightarrow> string \<Rightarrow> (nat \<times> string) option" where
  "rx_find r p [] = (case rx_match r (p, []) of [] \<Rightarrow> None | e # _ \<Rightarrow> Some (0, snd e))"
| "rx_find r p (c # cs) =
     (case rx_match r (p, c # cs) of
        [] \<Rightarrow> map_option (\<lambda>(i, e). (Suc i, e)) (rx_find r (Some c) cs)
      | e # _ \<Rightarrow> Some (0, snd e))"

definition rx_search :: "rx \<Rightarrow> string \<Rightarrow> bool" where
  "rx_search r s = (rx_find r None s \<noteq> None)"

text \<open>
  \<open>regex_replace\<close> with a fixed text, for expressions that do not match the empty text: the
  search goes on after each match.
\<close>

function rx_replace :: "rx \<Rightarrow> string \<Rightarrow> place \<Rightarrow> string" where
  "rx_replace r t (p, []) = []"
| "rx_replace r t (p, c # cs) =
     (case rx_match r (p, c # cs) of
        [] \<Rightarrow> c # rx_replace r t (Some c, cs)
      | e # _ \<Rightarrow> if length (snd e) \<le> length cs then t @ rx_replace r t e else c # rx_replace r t (Some c, cs))"
  by pat_completeness auto
termination
  by (relation "measure (\<lambda>(r, t, p, s). length s)") auto

section \<open>Common pieces\<close>

text \<open>Characters of a literal; with \<open>icase\<close> both sides are compared in lower case.\<close>

definition rx_seq :: "rx list \<Rightarrow> rx" where
  "rx_seq rs = foldr Seq rs Empty"

definition rx_alt :: "rx \<Rightarrow> rx list \<Rightarrow> rx" where
  "rx_alt r rs = foldl Alt r rs"

definition lit :: "string \<Rightarrow> rx" where
  "lit l = rx_seq (map (\<lambda>x. One (\<lambda>c. c = x)) l)"

definition ilit :: "string \<Rightarrow> rx" where
  "ilit l = rx_seq (map (\<lambda>x. One (\<lambda>c. to_lower c = to_lower x)) l)"

text \<open>\<open>\s+\<close>, \<open>\s*\<close>, and \<open>.*\<close>\<close>

definition rx_some :: "(char \<Rightarrow> bool) \<Rightarrow> rx" where
  "rx_some P = Seq (One P) (Many P)"

definition line_char :: "char \<Rightarrow> bool" where
  "line_char c \<longleftrightarrow> byte c \<noteq> 10 \<and> byte c \<noteq> 13"

section \<open>The language of an expression\<close>

fun plain :: "rx \<Rightarrow> bool" where
  "plain Boundary = False"
| "plain (Seq a b) = (plain a \<and> plain b)"
| "plain (Alt a b) = (plain a \<and> plain b)"
| "plain (Opt a) = plain a"
| "plain r = True"

fun rx_lang :: "rx \<Rightarrow> string set" where
  "rx_lang Empty = {[]}"
| "rx_lang (One P) = {s. \<exists>c. s = [c] \<and> P c}"
| "rx_lang (Many P) = {s. list_all P s}"
| "rx_lang (Upto n P) = {s. list_all P s \<and> length s \<le> n}"
| "rx_lang (Seq a b) = {s. \<exists>u v. s = u @ v \<and> u \<in> rx_lang a \<and> v \<in> rx_lang b}"
| "rx_lang (Alt a b) = rx_lang a \<union> rx_lang b"
| "rx_lang (Opt a) = insert [] (rx_lang a)"
| "rx_lang Boundary = {}"

text \<open>The place after reading a text.\<close>

definition after_text :: "char option \<Rightarrow> string \<Rightarrow> char option" where
  "after_text p m = (if m = [] then p else Some (last m))"

lemma after_text_append: "after_text (after_text p u) v = after_text p (u @ v)"
  by (simp add: after_text_def)

lemma run_ends_iff:
  "(q, e) \<in> set (run_ends P n (p, s)) \<longleftrightarrow>
     (\<exists>m. s = m @ e \<and> q = after_text p m \<and> list_all P m \<and> length m \<le> n)"
proof (induction s arbitrary: p n)
  case Nil
  show ?case by (auto simp: after_text_def)
next
  case (Cons c cs)
  show ?case
  proof (cases "0 < n \<and> P c")
    case True
    have "(\<exists>m. c # cs = m @ e \<and> q = after_text p m \<and> list_all P m \<and> length m \<le> n) \<longleftrightarrow>
        (q, e) = (p, c # cs) \<or> (\<exists>m. cs = m @ e \<and> q = after_text (Some c) m \<and> list_all P m \<and> length m \<le> n - 1)"
      (is "?L \<longleftrightarrow> ?R")
    proof
      assume ?L
      then obtain m where m: "c # cs = m @ e" "q = after_text p m" "list_all P m" "length m \<le> n" by blast
      show ?R
      proof (cases m)
        case Nil with m show ?thesis by (simp add: after_text_def)
      next
        case (Cons x xs)
        with m have "cs = xs @ e" "q = after_text (Some c) xs" "list_all P xs" "length xs \<le> n - 1"
          by (auto simp: after_text_def)
        then show ?thesis by blast
      qed
    next
      assume ?R
      then show ?L
      proof
        assume "(q, e) = (p, c # cs)"
        then show ?L by (intro exI [of _ "[]"]) (simp add: after_text_def)
      next
        assume "\<exists>m. cs = m @ e \<and> q = after_text (Some c) m \<and> list_all P m \<and> length m \<le> n - 1"
        then obtain m where "cs = m @ e" "q = after_text (Some c) m" "list_all P m" "length m \<le> n - 1" by blast
        with True show ?L by (intro exI [of _ "c # m"]) (auto simp: after_text_def)
      qed
    qed
    with True Cons show ?thesis by auto
  next
    case False
    then have "(\<exists>m. c # cs = m @ e \<and> q = after_text p m \<and> list_all P m \<and> length m \<le> n) \<longleftrightarrow> (q, e) = (p, c # cs)"
      by (auto simp: after_text_def append_eq_Cons_conv Cons_eq_append_conv)
    with False show ?thesis by auto
  qed
qed

text \<open>The ends of the matches are those of the language.\<close>

lemma rx_match_lang:
  "plain r \<Longrightarrow> (q, e) \<in> set (rx_match r (p, s)) \<longleftrightarrow> (\<exists>m \<in> rx_lang r. s = m @ e \<and> q = after_text p m)"
proof (induction r arbitrary: p s q e)
  case (Seq a b)
  show ?case
  proof
    assume "(q, e) \<in> set (rx_match (Seq a b) (p, s))"
    then obtain q1 e1 where 1: "(q1, e1) \<in> set (rx_match a (p, s))" and 2: "(q, e) \<in> set (rx_match b (q1, e1))"
      by auto
    from 1 Seq obtain u where u: "u \<in> rx_lang a" "s = u @ e1" "q1 = after_text p u" by auto
    from 2 Seq obtain v where v: "v \<in> rx_lang b" "e1 = v @ e" "q = after_text q1 v" by auto
    from u v have "u @ v \<in> rx_lang (Seq a b)" "s = (u @ v) @ e" "q = after_text p (u @ v)"
      by (auto simp: after_text_append)
    then show "\<exists>m \<in> rx_lang (Seq a b). s = m @ e \<and> q = after_text p m" by blast
  next
    assume "\<exists>m \<in> rx_lang (Seq a b). s = m @ e \<and> q = after_text p m"
    then obtain u v where uv: "u \<in> rx_lang a" "v \<in> rx_lang b" "s = u @ v @ e" "q = after_text p (u @ v)" by auto
    then have "(after_text p u, v @ e) \<in> set (rx_match a (p, s))" using Seq by auto
    moreover have "(q, e) \<in> set (rx_match b (after_text p u, v @ e))" using uv Seq by (auto simp: after_text_append)
    ultimately show "(q, e) \<in> set (rx_match (Seq a b) (p, s))" by auto
  qed
next
  case (Many P)
  show ?case by (auto simp: run_ends_iff)
next
  case (Upto n P)
  show ?case by (auto simp: run_ends_iff)
next
  case (One P)
  have "(\<exists>m \<in> rx_lang (One P). s = m @ e \<and> q = after_text p m) \<longleftrightarrow> (\<exists>c. P c \<and> s = c # e \<and> q = Some c)"
    unfolding rx_lang.simps after_text_def by force
  then show ?case by (cases s) auto
next
  case Empty
  show ?case by (auto simp: after_text_def)
next
  case (Alt a b)
  then show ?case by (simp only: rx_match.simps set_append Un_iff rx_lang.simps bex_Un plain.simps)
next
  case (Opt a)
  then have "(q, e) \<in> set (rx_match a (p, s)) \<longleftrightarrow> (\<exists>m \<in> rx_lang a. s = m @ e \<and> q = after_text p m)" by simp
  then show ?case by (auto simp: after_text_def)
next
  case Boundary
  then show ?case by simp
qed

text \<open>Boundaries or not, a match ends inside the text.\<close>

lemma rx_match_end: "(q, e) \<in> set (rx_match r (p, s)) \<Longrightarrow> \<exists>m. s = m @ e \<and> q = after_text p m"
proof (induction r arbitrary: p s q e)
  case (Seq a b)
  then obtain q1 e1 where 1: "(q1, e1) \<in> set (rx_match a (p, s))" and 2: "(q, e) \<in> set (rx_match b (q1, e1))"
    by auto
  from Seq.IH(1) [OF 1] obtain u where u: "s = u @ e1" "q1 = after_text p u" by blast
  from Seq.IH(2) [OF 2] obtain v where v: "e1 = v @ e" "q = after_text q1 v" by blast
  from u v show ?case by (intro exI [of _ "u @ v"]) (simp add: after_text_append)
next
  case (Alt a b)
  then show ?case by auto
next
  case (Opt a)
  then consider "(q, e) = (p, s)" | "(q, e) \<in> set (rx_match a (p, s))" by auto
  then show ?case
  proof cases
    case 1
    then show ?thesis by (intro exI [of _ "[]"]) (simp add: after_text_def)
  next
    case 2
    then show ?thesis by (rule Opt.IH)
  qed
next
  case (One P)
  then show ?case by (cases s) (auto simp: after_text_def split: if_splits)
next
  case (Many P)
  then show ?case by (auto simp: run_ends_iff)
next
  case (Upto n P)
  then show ?case by (auto simp: run_ends_iff)
qed (auto simp: after_text_def split: if_splits)

lemma rx_match_nonempty:
  "plain r \<Longrightarrow> rx_match r (p, s) \<noteq> [] \<longleftrightarrow> (\<exists>m \<in> rx_lang r. \<exists>e. s = m @ e)"
proof -
  assume "plain r"
  have "rx_match r (p, s) \<noteq> [] \<longleftrightarrow> (\<exists>q e. (q, e) \<in> set (rx_match r (p, s)))"
    by (cases "rx_match r (p, s)") auto
  with rx_match_lang [OF \<open>plain r\<close>] show ?thesis by blast
qed

lemma rx_find_None:
  "rx_find r p s = None \<longleftrightarrow> (\<forall>a b. s = a @ b \<longrightarrow> rx_match r (after_text p a, b) = [])"
proof (induction s arbitrary: p)
  case Nil
  show ?case by (auto simp: after_text_def split: list.splits)
next
  case (Cons c cs)
  have "(\<forall>a b. c # cs = a @ b \<longrightarrow> rx_match r (after_text p a, b) = []) \<longleftrightarrow>
      rx_match r (p, c # cs) = [] \<and> (\<forall>a b. cs = a @ b \<longrightarrow> rx_match r (after_text (Some c) a, b) = [])" (is "?L \<longleftrightarrow> ?R")
  proof
    assume L: ?L
    have "rx_match r (p, c # cs) = []" using L [rule_format, of "[]" "c # cs"] by (simp add: after_text_def)
    moreover have "rx_match r (after_text (Some c) a, b) = []" if "cs = a @ b" for a b
      using L [rule_format, of "c # a" b] that by (cases a) (simp_all add: after_text_def)
    ultimately show ?R by blast
  next
    assume R: ?R
    show ?L
    proof (intro allI impI)
      fix a b assume ab: "c # cs = a @ b"
      show "rx_match r (after_text p a, b) = []"
      proof (cases a)
        case Nil with ab R show ?thesis by (simp add: after_text_def)
      next
        case (Cons x xs)
        with ab have "cs = xs @ b" "x = c" by auto
        with R have "rx_match r (after_text (Some c) xs, b) = []" by blast
        with Cons \<open>x = c\<close> show ?thesis by (cases xs) (simp_all add: after_text_def)
      qed
    qed
  qed
  with Cons show ?case by (auto split: list.splits)
qed

text \<open>A search finds something exactly when the text contains a word of the language.\<close>

lemma rx_search_lang: "plain r \<Longrightarrow> rx_search r s \<longleftrightarrow> (\<exists>a m b. s = a @ m @ b \<and> m \<in> rx_lang r)"
proof -
  assume r: "plain r"
  have "rx_search r s \<longleftrightarrow> (\<exists>a b. s = a @ b \<and> rx_match r (after_text None a, b) \<noteq> [])"
    by (auto simp: rx_search_def rx_find_None)
  with rx_match_nonempty [OF r] show ?thesis by blast
qed

text \<open>The leftmost match: nothing is matched before it.\<close>

lemma rx_find_Some:
  "rx_match r (after_text p a, b) = e # es \<Longrightarrow> b \<noteq> [] \<or> True \<Longrightarrow>
   (\<And>u v. a = u @ v \<Longrightarrow> v \<noteq> [] \<Longrightarrow> rx_match r (after_text p u, v @ b) = []) \<Longrightarrow>
   rx_find r p (a @ b) = Some (length a, snd e)"
proof (induction a arbitrary: p)
  case Nil
  then show ?case by (cases b) (auto simp: after_text_def)
next
  case (Cons c a)
  have none: "rx_match r (p, c # a @ b) = []"
    using Cons.prems(3) [of "[]" "c # a"] by (simp add: after_text_def)
  have "rx_find r (Some c) (a @ b) = Some (length a, snd e)"
  proof (rule Cons.IH)
    show "rx_match r (after_text (Some c) a, b) = e # es"
      using Cons.prems(1) by (cases a) (simp_all add: after_text_def)
    fix u v assume "a = u @ v" "v \<noteq> []"
    then show "rx_match r (after_text (Some c) u, v @ b) = []"
      using Cons.prems(3) [of "c # u" v] by (cases u) (simp_all add: after_text_def)
  qed simp
  with none show ?case by simp
qed

lemma plain_pieces [simp]:
  "plain (rx_seq rs) = list_all plain rs" "plain (lit l)" "plain (ilit l)" "plain (rx_some P)"
proof -
  show seq: "plain (rx_seq rs) = list_all plain rs" for rs by (induction rs) (simp_all add: rx_seq_def)
  show "plain (lit l)" "plain (ilit l)" by (simp_all add: lit_def ilit_def seq list_all_iff)
qed (simp add: rx_some_def)

lemma one_seq: "(\<exists>u v. s = u @ v \<and> (\<exists>c. u = [c] \<and> P c) \<and> Q v) \<longleftrightarrow> (\<exists>c v. s = c # v \<and> P c \<and> Q v)"
  by (metis append_Cons append_Nil)

lemma rx_seq_lang:
  "rx_lang (rx_seq []) = {[]}" "rx_lang (rx_seq (r # rs)) = {s. \<exists>u v. s = u @ v \<and> u \<in> rx_lang r \<and> v \<in> rx_lang (rx_seq rs)}"
  by (simp_all add: rx_seq_def)

lemma lit_lang [simp]: "s \<in> rx_lang (lit l) \<longleftrightarrow> s = l"
proof (induction l arbitrary: s)
  case Nil
  show ?case by (simp add: lit_def rx_seq_lang)
next
  case (Cons x l)
  then show ?case by (auto simp: lit_def rx_seq_lang)
qed

lemma ilit_lang [simp]: "s \<in> rx_lang (ilit l) \<longleftrightarrow> ToLower s = ToLower l"
proof (induction l arbitrary: s)
  case Nil
  show ?case by (simp add: ilit_def rx_seq_lang ToLower_def)
next
  case (Cons x l)
  have "s \<in> rx_lang (ilit (x # l)) \<longleftrightarrow> (\<exists>c v. s = c # v \<and> to_lower c = to_lower x \<and> v \<in> rx_lang (ilit l))"
    by (simp add: ilit_def rx_seq_lang one_seq)
  with Cons.IH show ?case by (cases s) (auto simp: ToLower_def)
qed

lemma rx_some_lang [simp]: "s \<in> rx_lang (rx_some P) \<longleftrightarrow> s \<noteq> [] \<and> list_all P s"
  by (cases s) (simp_all add: rx_some_def one_seq)

section \<open>What a replacement leaves\<close>

text \<open>
  A text without the first character of the inserted one is found at the front of the result
  only if it was at the front of the original.
\<close>

lemma rx_replace_front:
  "rx_replace r t y = m @ x \<Longrightarrow> t \<noteq> [] \<Longrightarrow> hd t \<notin> set m \<Longrightarrow> \<exists>b. snd y = m @ b"
proof (induction r t y arbitrary: m rule: rx_replace.induct)
  case (2 r t p c cs)
  show ?case
  proof (cases m)
    case (Cons z zs)
    have out: "rx_replace r t (p, c # cs) = z # zs @ x" using "2.prems"(1) Cons by simp
    have t: "\<exists>ts. t = hd t # ts" "hd t \<noteq> z" using "2.prems"(2,3) Cons by (cases t; simp)+
    have "\<exists>b. cs = zs @ b \<and> z = c"
    proof (cases "rx_match r (p, c # cs)")
      case Nil
      then have "rx_replace r t (Some c, cs) = zs @ x" "z = c" using out by auto
      with "2.IH"(1) [OF Nil, of zs] "2.prems" Cons show ?thesis by auto
    next
      case c: (Cons e es)
      show ?thesis
      proof (cases "length (snd e) \<le> length cs")
        case True
        then have "t @ rx_replace r t e = z # zs @ x" using c out by simp
        with t show ?thesis by (cases t) auto
      next
        case False
        then have "rx_replace r t (Some c, cs) = zs @ x" "z = c" using c out by auto
        with "2.IH"(3) [OF c False, of zs] "2.prems" Cons show ?thesis by auto
      qed
    qed
    with Cons show ?thesis by auto
  qed simp
qed simp

text \<open>
  After the replacement, no text remains that the expression matches, that has the first character of the
  inserted text nowhere, and whose own first character is not in the inserted text.
\<close>

lemma rx_replace_gone:
  "rx_replace r t y = a @ m @ x \<Longrightarrow> t \<noteq> [] \<Longrightarrow> hd t \<notin> set m \<Longrightarrow> m \<noteq> [] \<Longrightarrow> hd m \<notin> set t \<Longrightarrow>
   \<exists>u b. snd y = u @ m @ b \<and> (case rx_match r (after_text (fst y) u, m @ b) of [] \<Rightarrow> True
      | e # _ \<Rightarrow> length m + length b \<le> length (snd e))"
proof (induction r t y arbitrary: a rule: rx_replace.induct)
  case (2 r t p c cs)
  note out = "2.prems"(1) and hyp = "2.prems"(2-5)
  have kept: ?case if step: "rx_replace r t (p, c # cs) = c # rx_replace r t (Some c, cs)"
      and none: "case rx_match r (p, c # cs) of [] \<Rightarrow> True | e # _ \<Rightarrow> length (c # cs) \<le> length (snd e)"
      and IH: "\<And>a. rx_replace r t (Some c, cs) = a @ m @ x \<Longrightarrow> \<exists>u b. cs = u @ m @ b \<and>
        (case rx_match r (after_text (Some c) u, m @ b) of [] \<Rightarrow> True | e # _ \<Rightarrow> length m + length b \<le> length (snd e))"
  proof (cases a)
    case Nil
    with out rx_replace_front [of r t "(p, c # cs)" m x] hyp obtain b where b: "c # cs = m @ b" by auto
    with none have "case rx_match r (p, m @ b) of [] \<Rightarrow> True | e # _ \<Rightarrow> length m + length b \<le> length (snd e)"
      by (auto split: list.splits)
    with b show ?thesis by (intro exI [of _ "[]"] exI [of _ b]) (simp add: after_text_def)
  next
    case (Cons z zs)
    with out step have "rx_replace r t (Some c, cs) = zs @ m @ x" by simp
    from IH [OF this] obtain u b where u: "cs = u @ m @ b" "case rx_match r (after_text (Some c) u, m @ b) of
        [] \<Rightarrow> True | e # _ \<Rightarrow> length m + length b \<le> length (snd e)" by blast
    have "after_text (Some c) u = after_text p (c # u)" by (cases u) (simp_all add: after_text_def)
    with u show ?thesis by (intro exI [of _ "c # u"] exI [of _ b]) simp
  qed
  show ?case
  proof (cases "rx_match r (p, c # cs)")
    case Nil
    then show ?thesis using hyp "2.IH"(1) [OF Nil] by (intro kept) simp_all
  next
    case c: (Cons e es)
    show ?thesis
    proof (cases "length (snd e) \<le> length cs")
      case False
      then show ?thesis using hyp c "2.IH"(3) [OF c False] by (intro kept) simp_all
    next
      case True
      have out': "t @ rx_replace r t e = a @ m @ x" using c True out by simp
      have "\<not> length a < length t"
      proof
        assume "length a < length t"
        then have "(a @ m @ x) ! length a \<in> set t" by (simp add: out' [symmetric] nth_append)
        moreover have "(a @ m @ x) ! length a = hd m" using hyp(3) by (cases m) (simp_all add: nth_append)
        ultimately show False using hyp(4) by simp
      qed
      with arg_cong [OF out', of "drop (length t)"]
      have "rx_replace r t e = drop (length t) a @ m @ x" by simp
      from "2.IH"(2) [OF c True this] hyp obtain u b where u: "snd e = u @ m @ b"
        "case rx_match r (after_text (fst e) u, m @ b) of [] \<Rightarrow> True | e # _ \<Rightarrow> length m + length b \<le> length (snd e)"
        by blast
      have "(fst e, snd e) \<in> set (rx_match r (p, c # cs))" using c by simp
      then obtain w where w: "c # cs = w @ snd e" "fst e = after_text p w"
        using rx_match_end by blast
      with u show ?thesis
        by (intro exI [of _ "w @ u"] exI [of _ b]) (simp add: after_text_append)
    qed
  qed
qed simp

end
