(* ===== verification/Json.thy ===== *)
theory Json
  imports StringUtil "HOL-Library.Monad_Syntax"
begin

text \<open>
  Values of JSON as the library \<open>nlohmann::json\<close> presents them: an object is an association list with one
  entry for a key (its order is not observed), a fractional number is kept as its text. The
  accessors that throw answer \<open>None\<close>. This is what the sources use of the library: \<open>contains\<close>,
  \<open>find\<close>, \<open>value\<close> with a default, \<open>get\<close>, and assignment to a member.
\<close>

datatype jval =
    JvNull
  | JvBool bool
  | JvInt int
  | JvReal string
  | JvText string
  | JvArray "jval list"
  | JvObject "(string \<times> jval) list"

fun as_text :: "jval \<Rightarrow> string option" where
  "as_text (JvText s) = Some s"
| "as_text _ = None"

fun as_bool :: "jval \<Rightarrow> bool option" where
  "as_bool (JvBool b) = Some b"
| "as_bool _ = None"

fun as_array :: "jval \<Rightarrow> jval list option" where
  "as_array (JvArray xs) = Some xs"
| "as_array _ = None"

fun as_object :: "jval \<Rightarrow> (string \<times> jval) list option" where
  "as_object (JvObject m) = Some m"
| "as_object _ = None"

fun members :: "jval \<Rightarrow> (string \<times> jval) list" where
  "members (JvObject m) = m"
| "members _ = []"

text \<open>\<open>contains(key)\<close> and \<open>find(key)\<close>: nothing is found in a value that is no object.\<close>

definition member_of :: "jval \<Rightarrow> string \<Rightarrow> jval option" where
  "member_of j k = map_of (members j) k"

definition has_member :: "jval \<Rightarrow> string \<Rightarrow> bool" where
  "has_member j k = (member_of j k \<noteq> None)"

text \<open>
  \<open>value(key, default)\<close>: throws when the value is no object, or the member is of another type.
\<close>

definition value_as :: "(jval \<Rightarrow> 'a option) \<Rightarrow> jval \<Rightarrow> string \<Rightarrow> 'a \<Rightarrow> 'a option" where
  "value_as conv j k d =
     (case as_object j of
        None \<Rightarrow> None
      | Some m \<Rightarrow> (case map_of m k of None \<Rightarrow> Some d | Some v \<Rightarrow> conv v))"

definition value_text :: "jval \<Rightarrow> string \<Rightarrow> string \<Rightarrow> string option" where
  "value_text = value_as as_text"

definition value_bool :: "jval \<Rightarrow> string \<Rightarrow> bool \<Rightarrow> bool option" where
  "value_bool = value_as as_bool"

text \<open>The texts of an array, when the member is one; other elements are skipped.\<close>

definition text_members :: "jval \<Rightarrow> string \<Rightarrow> string list" where
  "text_members j k =
     (case member_of j k of Some (JvArray xs) \<Rightarrow> List.map_filter as_text xs | _ \<Rightarrow> [])"

fun all_some_list :: "'a option list \<Rightarrow> 'a list option" where
  "all_some_list [] = Some []"
| "all_some_list (x # xs) = (case x of None \<Rightarrow> None | Some v \<Rightarrow> map_option ((#) v) (all_some_list xs))"

text \<open>A member that is written only under a condition.\<close>

definition put_if :: "bool \<Rightarrow> string \<Rightarrow> jval \<Rightarrow> (string \<times> jval) list" where
  "put_if b k v = (if b then [(k, v)] else [])"

text \<open>\<open>empty()\<close>: null and containers without elements.\<close>

fun json_empty :: "jval \<Rightarrow> bool" where
  "json_empty JvNull = True"
| "json_empty (JvArray xs) = (xs = [])"
| "json_empty (JvObject m) = (m = [])"
| "json_empty _ = False"

named_theorems json_simps \<open>facts about the accessors of JSON values\<close>

lemma as_text_iff [json_simps]: "as_text v = Some s \<longleftrightarrow> v = JvText s" by (cases v) auto

lemma as_bool_iff [json_simps]: "as_bool v = Some b \<longleftrightarrow> v = JvBool b" by (cases v) auto

lemma member_of_object [json_simps]: "member_of (JvObject m) k = map_of m k"
  by (simp add: member_of_def)

lemma has_member_object [json_simps]: "has_member (JvObject m) k \<longleftrightarrow> map_of m k \<noteq> None"
  by (simp add: has_member_def member_of_object)

lemma value_as_object [json_simps]:
  "value_as conv (JvObject m) k d = (case map_of m k of None \<Rightarrow> Some d | Some v \<Rightarrow> conv v)"
  by (simp add: value_as_def)

lemma map_of_put_if [json_simps]: "map_of (put_if b k v @ m) k' = (if b \<and> k' = k then Some v else map_of m k')"
  by (simp add: put_if_def)

lemma map_of_put_if_last [json_simps]: "map_of (put_if b k v) k' = (if b \<and> k' = k then Some v else None)"
  by (simp add: put_if_def)

lemma filter_texts [json_simps]: "List.map_filter as_text (map JvText xs) = xs"
  by (induction xs) (simp_all add: List.map_filter_def)

lemma all_some_list_map [json_simps]: "(\<And>x. x \<in> set xs \<Longrightarrow> f (g x) = Some x) \<Longrightarrow> all_some_list (map f (map g xs)) = Some xs"
  by (induction xs) auto

lemma all_some_list_iff: "all_some_list xs = Some ys \<longleftrightarrow> xs = map Some ys"
proof (induction xs arbitrary: ys)
  case (Cons x xs)
  then show ?case by (cases ys) (auto split: option.splits)
qed auto

lemma foldl_update_fresh:
  "distinct (map fst xs) \<Longrightarrow> fst ` set xs \<inter> fst ` set m = {} \<Longrightarrow>
   foldl (\<lambda>m (k, v). AList.update k v m) m xs = m @ xs"
proof (induction xs arbitrary: m)
  case (Cons x xs)
  obtain k v where x: "x = (k, v)" by fastforce
  have "AList.update k v m = m @ [(k, v)]" using Cons.prems x by (intro update_fresh) auto
  moreover have "foldl (\<lambda>m (k, v). AList.update k v m) (m @ [(k, v)]) xs = (m @ [(k, v)]) @ xs"
    using Cons.prems x by (intro Cons.IH) auto
  ultimately show ?case by (simp add: x)
qed simp

end
