(* ===== verification/PluginManifests.thy ===== *)
theory PluginManifests
  imports Json Regex
begin

text \<open>
  Plugin manifests (\<open>plugins/plugin_manifest.cpp\<close>): parsing with its exceptions, writing, validation
  with its list of errors, dependencies, and the template. The theorems say when a manifest survives
  writing and reading, which validated manifests parse to what was validated, and which do not.
\<close>

section \<open>Dependencies and hints\<close>

record PluginDependency =
  pd_plugin_id :: string
  pd_version_range :: string
  pd_optional :: bool

definition PluginDependency_FromJson :: "jval \<Rightarrow> PluginDependency option" where
  "PluginDependency_FromJson j = do {
     camel_id \<leftarrow> value_text j ''pluginId'' [];
     pid \<leftarrow> value_text j ''plugin_id'' camel_id;
     plain_version \<leftarrow> value_text j ''version'' [];
     camel_range \<leftarrow> value_text j ''versionRange'' plain_version;
     range \<leftarrow> value_text j ''version_range'' camel_range;
     opt \<leftarrow> value_bool j ''optional'' False;
     Some \<lparr>pd_plugin_id = pid, pd_version_range = range, pd_optional = opt\<rparr>
   }"

definition PluginDependency_ToJson :: "PluginDependency \<Rightarrow> jval" where
  "PluginDependency_ToJson d = JvObject
     ([(''pluginId'', JvText (pd_plugin_id d))]
      @ put_if (pd_version_range d \<noteq> []) ''versionRange'' (JvText (pd_version_range d))
      @ put_if (pd_optional d) ''optional'' (JvBool (pd_optional d)))"

record PluginConfigUiHint =
  uh_label :: string
  uh_help :: string
  uh_tags :: "string list"
  uh_advanced :: bool
  uh_sensitive :: bool
  uh_placeholder :: string

definition PluginConfigUiHint_FromJson :: "jval \<Rightarrow> PluginConfigUiHint option" where
  "PluginConfigUiHint_FromJson j = do {
     label \<leftarrow> value_text j ''label'' [];
     help \<leftarrow> value_text j ''help'' [];
     adv \<leftarrow> value_bool j ''advanced'' False;
     sens \<leftarrow> value_bool j ''sensitive'' False;
     ph \<leftarrow> value_text j ''placeholder'' [];
     Some \<lparr>uh_label = label, uh_help = help, uh_tags = text_members j ''tags'', uh_advanced = adv,
       uh_sensitive = sens, uh_placeholder = ph\<rparr>
   }"

definition PluginConfigUiHint_ToJson :: "PluginConfigUiHint \<Rightarrow> jval" where
  "PluginConfigUiHint_ToJson h = JvObject
     (put_if (uh_label h \<noteq> []) ''label'' (JvText (uh_label h))
      @ put_if (uh_help h \<noteq> []) ''help'' (JvText (uh_help h))
      @ put_if (uh_tags h \<noteq> []) ''tags'' (JvArray (map JvText (uh_tags h)))
      @ put_if (uh_advanced h) ''advanced'' (JvBool (uh_advanced h))
      @ put_if (uh_sensitive h) ''sensitive'' (JvBool (uh_sensitive h))
      @ put_if (uh_placeholder h \<noteq> []) ''placeholder'' (JvText (uh_placeholder h)))"

section \<open>Manifests\<close>

record PluginManifest =
  pm_id :: string
  pm_name :: string
  pm_description :: string
  pm_version :: string
  pm_schema_version :: string
  pm_entry_point :: string
  pm_kind :: string
  pm_channels :: "string list"
  pm_providers :: "string list"
  pm_skills :: "string list"
  pm_dependencies :: "PluginDependency list"
  pm_config_schema :: jval
  pm_ui_hints :: "(string \<times> PluginConfigUiHint) list"
  pm_extra_fields :: "(string \<times> jval) list"

definition known_fields :: "string list" where
  "known_fields = [''id'', ''name'', ''description'', ''version'', ''schema_version'', ''schemaVersion'',
     ''entry_point'', ''entryPoint'', ''kind'', ''channels'', ''providers'', ''skills'',
     ''dependencies'', ''configSchema'', ''uiHints'']"

definition parse_dependencies :: "jval \<Rightarrow> PluginDependency list option" where
  "parse_dependencies j =
     (case member_of j ''dependencies'' of
        Some (JvArray ds) \<Rightarrow> all_some_list (map PluginDependency_FromJson ds) | _ \<Rightarrow> Some [])"

definition parse_hints :: "jval \<Rightarrow> (string \<times> PluginConfigUiHint) list option" where
  "parse_hints j =
     (case member_of j ''uiHints'' of
        Some (JvObject hs) \<Rightarrow>
          all_some_list (map (\<lambda>(k, v). map_option (Pair k) (PluginConfigUiHint_FromJson v)) hs)
      | _ \<Rightarrow> Some [])"

definition Parse :: "jval \<Rightarrow> PluginManifest option" where
  "Parse j = do {
     ident \<leftarrow> (case member_of j ''id'' of Some v \<Rightarrow> as_text v | None \<Rightarrow> None);
     name \<leftarrow> value_text j ''name'' ident;
     descr \<leftarrow> value_text j ''description'' [];
     vers \<leftarrow> value_text j ''version'' [];
     camel_schema \<leftarrow> value_text j ''schemaVersion'' ''1.0'';
     schema \<leftarrow> value_text j ''schema_version'' camel_schema;
     camel_entry \<leftarrow> value_text j ''entryPoint'' [];
     entry \<leftarrow> value_text j ''entry_point'' camel_entry;
     kind \<leftarrow> value_text j ''kind'' [];
     deps \<leftarrow> parse_dependencies j;
     hints \<leftarrow> parse_hints j;
     Some \<lparr>pm_id = ident, pm_name = name, pm_description = descr, pm_version = vers,
       pm_schema_version = schema, pm_entry_point = entry, pm_kind = kind,
       pm_channels = text_members j ''channels'', pm_providers = text_members j ''providers'',
       pm_skills = text_members j ''skills'', pm_dependencies = deps,
       pm_config_schema = value_or (member_of j ''configSchema'') (JvObject []),
       pm_ui_hints = hints,
       pm_extra_fields = List.filter (\<lambda>(k, v). k \<notin> set known_fields) (members j)\<rparr>
   }"

text \<open>A file that cannot be opened, one that is not JSON, and the value of any other.\<close>

datatype json_file = NoFile | NotJson | FileJson jval

definition LoadFromFile :: "json_file \<Rightarrow> PluginManifest option" where
  "LoadFromFile f = (case f of FileJson j \<Rightarrow> Parse j | _ \<Rightarrow> None)"

definition manifest_fields :: "PluginManifest \<Rightarrow> (string \<times> jval) list" where
  "manifest_fields m =
     [(''id'', JvText (pm_id m))]
     @ put_if (pm_name m \<noteq> [] \<and> pm_name m \<noteq> pm_id m) ''name'' (JvText (pm_name m))
     @ put_if (pm_description m \<noteq> []) ''description'' (JvText (pm_description m))
     @ put_if (pm_version m \<noteq> []) ''version'' (JvText (pm_version m))
     @ put_if (pm_schema_version m \<noteq> [] \<and> pm_schema_version m \<noteq> ''1.0'') ''schemaVersion'' (JvText (pm_schema_version m))
     @ put_if (pm_entry_point m \<noteq> []) ''entryPoint'' (JvText (pm_entry_point m))
     @ put_if (pm_kind m \<noteq> []) ''kind'' (JvText (pm_kind m))
     @ put_if (pm_channels m \<noteq> []) ''channels'' (JvArray (map JvText (pm_channels m)))
     @ put_if (pm_providers m \<noteq> []) ''providers'' (JvArray (map JvText (pm_providers m)))
     @ put_if (pm_skills m \<noteq> []) ''skills'' (JvArray (map JvText (pm_skills m)))
     @ put_if (pm_dependencies m \<noteq> []) ''dependencies'' (JvArray (map PluginDependency_ToJson (pm_dependencies m)))
     @ put_if (\<not> json_empty (pm_config_schema m)) ''configSchema'' (pm_config_schema m)
     @ put_if (pm_ui_hints m \<noteq> []) ''uiHints''
         (JvObject (map (\<lambda>(k, h). (k, PluginConfigUiHint_ToJson h)) (pm_ui_hints m)))"

definition PluginManifest_ToJson :: "PluginManifest \<Rightarrow> jval" where
  "PluginManifest_ToJson m =
     JvObject (foldl (\<lambda>j (k, v). AList.update k v j) (manifest_fields m) (pm_extra_fields m))"

section \<open>Validation\<close>

definition id_char :: "char \<Rightarrow> bool" where
  "id_char c \<longleftrightarrow> is_word c \<or> c = CHR ''-''"

definition tag_char :: "char \<Rightarrow> bool" where
  "tag_char c \<longleftrightarrow> is_word c \<and> c \<noteq> CHR ''_'' \<or> c = CHR ''.'' \<or> c = CHR ''-''"

text \<open>\<open>regex_match\<close>: some match ends at the end.\<close>

definition rx_full :: "rx \<Rightarrow> string \<Rightarrow> bool" where
  "rx_full r s = list_ex (\<lambda>e. snd e = []) (rx_match r (None, s))"

definition version_rx :: rx where
  "version_rx = rx_seq [rx_some is_digit, lit ''.'', rx_some is_digit, lit ''.'', rx_some is_digit,
     Opt (Seq (lit ''-'') (rx_some tag_char)), Opt (Seq (lit ''+'') (rx_some tag_char))]"

definition version_range_rx :: rx where
  "version_range_rx =
     Alt (Seq (Opt (rx_alt (lit ''^'') [lit ''~'', lit ''>='', lit ''<='', lit ''>'', lit ''<''])) version_rx) (lit ''*'')"

text \<open>A name in single quotes, and what an error says of a field.\<close>

definition quoted :: "string \<Rightarrow> string" where "quoted k = [CHR 0x27] @ k @ [CHR 0x27]"

definition field :: "string \<Rightarrow> string \<Rightarrow> string" where "field k rest = ''Field '' @ quoted k @ rest"

text \<open>A member that has to be a text: the error when it is none, else further checks.\<close>

definition check_id :: "jval \<Rightarrow> string list" where
  "check_id j = (case member_of j ''id'' of
     None \<Rightarrow> [''Missing required field: id'']
   | Some v \<Rightarrow> (case as_text v of
       None \<Rightarrow> [field ''id'' '' must be a string'']
     | Some s \<Rightarrow> if s = [] then [field ''id'' '' cannot be empty'']
         else if \<not> rx_full (rx_some id_char) s
           then [field ''id'' '' must contain only letters, numbers, underscores, and hyphens''] else []))"

definition check_name :: "jval \<Rightarrow> string list" where
  "check_name j = (case member_of j ''name'' of
     None \<Rightarrow> [''Missing required field: name'']
   | Some v \<Rightarrow> (case as_text v of
       None \<Rightarrow> [field ''name'' '' must be a string'']
     | Some s \<Rightarrow> if s = [] then [field ''name'' '' cannot be empty''] else []))"

definition check_version :: "jval \<Rightarrow> string list" where
  "check_version j = (case member_of j ''version'' of
     None \<Rightarrow> [''Missing required field: version'']
   | Some v \<Rightarrow> (case as_text v of
       None \<Rightarrow> [field ''version'' '' must be a string'']
     | Some s \<Rightarrow> if \<not> rx_full version_rx s then [field ''version'' ('' must be a valid semver (e.g., '' @ quoted ''1.0.0'' @ '')'')] else []))"

definition first_member :: "jval \<Rightarrow> string \<Rightarrow> string \<Rightarrow> jval option" where
  "first_member j k k' = (case member_of j k of Some v \<Rightarrow> Some v | None \<Rightarrow> member_of j k')"

definition check_entry :: "jval \<Rightarrow> string list" where
  "check_entry j = (case first_member j ''entryPoint'' ''entry_point'' of
     None \<Rightarrow> [''Missing required field: entryPoint'']
   | Some v \<Rightarrow> (case as_text v of
       None \<Rightarrow> [field ''entryPoint'' '' must be a string'']
     | Some s \<Rightarrow> if s = [] then [field ''entryPoint'' '' cannot be empty''] else []))"

definition check_schema :: "jval \<Rightarrow> string list" where
  "check_schema j = (case first_member j ''schemaVersion'' ''schema_version'' of
     None \<Rightarrow> []
   | Some v \<Rightarrow> (case as_text v of
       None \<Rightarrow> [field ''schemaVersion'' '' must be a string'']
     | Some s \<Rightarrow> if s \<noteq> ''1.0'' \<and> s \<noteq> ''1.1''
         then [''Unsupported schemaVersion: '' @ s @ '' (supported: 1.0, 1.1)''] else []))"

definition check_kind_of :: "(jval \<Rightarrow> bool) \<Rightarrow> string \<Rightarrow> jval \<Rightarrow> string \<Rightarrow> string list" where
  "check_kind_of ok what j k = (case member_of j k of
     Some v \<Rightarrow> if ok v then [] else [field k ('' must be '' @ what)] | None \<Rightarrow> [])"

definition is_text :: "jval \<Rightarrow> bool" where "is_text v = (as_text v \<noteq> None)"
definition is_bool :: "jval \<Rightarrow> bool" where "is_bool v = (as_bool v \<noteq> None)"
definition is_array :: "jval \<Rightarrow> bool" where "is_array v = (as_array v \<noteq> None)"
definition is_object :: "jval \<Rightarrow> bool" where "is_object v = (as_object v \<noteq> None)"

definition check_dependency :: "nat \<Rightarrow> jval \<Rightarrow> string list" where
  "check_dependency i dep =
     (let prefix = ''dependencies['' @ nat_digits i @ '']'';
          typed = (\<lambda>ok what k. case member_of dep k of
            Some v \<Rightarrow> if ok v then [] else [prefix @ ''.'' @ k @ '' must be a '' @ what] | None \<Rightarrow> [])
      in if \<not> is_object dep then [prefix @ '' must be an object'']
         else (case first_member dep ''pluginId'' ''plugin_id'' of
                 None \<Rightarrow> [prefix @ '' missing required field: pluginId'']
               | Some v \<Rightarrow> if as_text v = None \<or> as_text v = Some [] then [prefix @ ''.pluginId must be a non-empty string''] else [])
           @ typed is_text ''string'' ''versionRange'' @ typed is_text ''string'' ''version_range''
           @ typed is_bool ''boolean'' ''optional'')"

definition check_dependencies :: "jval \<Rightarrow> string list" where
  "check_dependencies j = (case member_of j ''dependencies'' of
     None \<Rightarrow> []
   | Some (JvArray ds) \<Rightarrow> concat (map (\<lambda>(i, d). check_dependency i d) (enumerate 0 ds))
   | Some _ \<Rightarrow> [field ''dependencies'' '' must be an array''])"

definition Validate :: "jval \<Rightarrow> string list" where
  "Validate j =
     (if \<not> is_object j then [''Manifest must be a JSON object'']
      else check_id j @ check_name j @ check_version j @ check_entry j @ check_schema j
        @ check_kind_of is_text ''a string'' j ''description'' @ check_kind_of is_text ''a string'' j ''kind''
        @ check_kind_of is_array ''an array'' j ''channels'' @ check_kind_of is_array ''an array'' j ''providers''
        @ check_kind_of is_array ''an array'' j ''skills''
        @ check_dependencies j
        @ check_kind_of is_object ''an object'' j ''configSchema'' @ check_kind_of is_object ''an object'' j ''uiHints'')"

definition ValidateDependencies :: "PluginDependency list \<Rightarrow> string list" where
  "ValidateDependencies deps =
     concat (map (\<lambda>(i, dep).
       (let prefix = ''Dependency['' @ nat_digits i @ '']'' in
        (if pd_plugin_id dep = [] then [prefix @ '' plugin_id cannot be empty''] else [])
        @ (if pd_version_range dep \<noteq> [] \<and> \<not> rx_full version_range_rx (pd_version_range dep)
           then [prefix @ '' invalid version_range format: '' @ pd_version_range dep] else [])))
       (enumerate 0 deps))"

definition GenerateTemplate :: "string \<Rightarrow> string \<Rightarrow> jval" where
  "GenerateTemplate plugin_id plugin_name = JvObject
     [(''id'', JvText plugin_id), (''name'', JvText plugin_name), (''description'', JvText ''A RavBot plugin''),
      (''version'', JvText ''1.0.0''), (''schemaVersion'', JvText ''1.0''), (''entryPoint'', JvText ''index.js''),
      (''channels'', JvArray []), (''providers'', JvArray []), (''skills'', JvArray []),
      (''dependencies'', JvArray []), (''configSchema'', JvObject []), (''uiHints'', JvObject [])]"

datatype PluginOrigin = kBundled | kGlobal | kWorkspace | kConfig

fun plugin_origin_to_string :: "PluginOrigin \<Rightarrow> string" where
  "plugin_origin_to_string kBundled = ''bundled''"
| "plugin_origin_to_string kGlobal = ''global''"
| "plugin_origin_to_string kWorkspace = ''workspace''"
| "plugin_origin_to_string kConfig = ''config''"

section \<open>Writing and reading\<close>

lemma dependency_roundtrip: "PluginDependency_FromJson (PluginDependency_ToJson d) = Some d"
  by (simp add: PluginDependency_FromJson_def PluginDependency_ToJson_def value_text_def value_bool_def json_simps del: map_of_append)

lemma hint_roundtrip: "PluginConfigUiHint_FromJson (PluginConfigUiHint_ToJson h) = Some h"
  by (simp add: PluginConfigUiHint_FromJson_def PluginConfigUiHint_ToJson_def value_text_def value_bool_def text_members_def json_simps del: map_of_append)

lemma manifest_field_names: "fst ` set (manifest_fields m) \<subseteq> set known_fields"
  by (auto simp: manifest_fields_def known_fields_def put_if_def split: if_splits)

lemma manifest_json:
  "distinct (map fst (pm_extra_fields m)) \<Longrightarrow> list_all (\<lambda>(k, v). k \<notin> set known_fields) (pm_extra_fields m) \<Longrightarrow>
   PluginManifest_ToJson m = JvObject (manifest_fields m @ pm_extra_fields m)"
  using manifest_field_names [of m]
  by (force simp: PluginManifest_ToJson_def list_all_iff intro!: foldl_update_fresh)

lemma extra_not_known: "list_all (\<lambda>(k, v). k \<notin> set known_fields) xs \<Longrightarrow> k \<in> set known_fields \<Longrightarrow> map_of xs k = None"
  by (auto simp: list_all_iff map_of_eq_None_iff)

lemma extra_filtered: "List.filter (\<lambda>(k, v). k \<notin> set known_fields) (manifest_fields m) = []"
  using manifest_field_names [of m] by (auto simp: filter_empty_conv)

text \<open>The members of a written manifest, in the order they are looked for.\<close>

lemma manifest_get:
  "map_of (manifest_fields m) ''id'' = Some (JvText (pm_id m))"
  "map_of (manifest_fields m) ''name'' = (if pm_name m \<noteq> [] \<and> pm_name m \<noteq> pm_id m then Some (JvText (pm_name m)) else None)"
  "map_of (manifest_fields m) ''description'' = (if pm_description m \<noteq> [] then Some (JvText (pm_description m)) else None)"
  "map_of (manifest_fields m) ''version'' = (if pm_version m \<noteq> [] then Some (JvText (pm_version m)) else None)"
  "map_of (manifest_fields m) ''schema_version'' = None"
  "map_of (manifest_fields m) ''schemaVersion'' =
     (if pm_schema_version m \<noteq> [] \<and> pm_schema_version m \<noteq> ''1.0'' then Some (JvText (pm_schema_version m)) else None)"
  "map_of (manifest_fields m) ''entry_point'' = None"
  "map_of (manifest_fields m) ''entryPoint'' = (if pm_entry_point m \<noteq> [] then Some (JvText (pm_entry_point m)) else None)"
  "map_of (manifest_fields m) ''kind'' = (if pm_kind m \<noteq> [] then Some (JvText (pm_kind m)) else None)"
  "map_of (manifest_fields m) ''channels'' = (if pm_channels m \<noteq> [] then Some (JvArray (map JvText (pm_channels m))) else None)"
  "map_of (manifest_fields m) ''providers'' = (if pm_providers m \<noteq> [] then Some (JvArray (map JvText (pm_providers m))) else None)"
  "map_of (manifest_fields m) ''skills'' = (if pm_skills m \<noteq> [] then Some (JvArray (map JvText (pm_skills m))) else None)"
  "map_of (manifest_fields m) ''dependencies'' =
     (if pm_dependencies m \<noteq> [] then Some (JvArray (map PluginDependency_ToJson (pm_dependencies m))) else None)"
  "map_of (manifest_fields m) ''configSchema'' = (if \<not> json_empty (pm_config_schema m) then Some (pm_config_schema m) else None)"
  "map_of (manifest_fields m) ''uiHints'' =
     (if pm_ui_hints m \<noteq> [] then Some (JvObject (map (\<lambda>(k, h). (k, PluginConfigUiHint_ToJson h)) (pm_ui_hints m))) else None)"
  by (simp_all add: manifest_fields_def json_simps del: map_of_append)

lemma value_as_member: "value_as conv (JvObject m) k d = (case member_of (JvObject m) k of None \<Rightarrow> Some d | Some v \<Rightarrow> conv v)"
  by (simp add: json_simps)

lemma hints_roundtrip:
  "all_some_list (map (\<lambda>(k, v). map_option (Pair k) (PluginConfigUiHint_FromJson v)) (map (\<lambda>(k, h). (k, PluginConfigUiHint_ToJson h)) hs)) = Some hs"
  by (rule all_some_list_map) (auto simp: hint_roundtrip)


section \<open>What validation promises\<close>

lemma rx_full_lang: "plain r \<Longrightarrow> rx_full r s \<longleftrightarrow> s \<in> rx_lang r"
proof -
  assume r: "plain r"
  have "rx_full r s \<longleftrightarrow> (\<exists>q. (q, []) \<in> set (rx_match r (None, s)))"
    by (force simp: rx_full_def list_ex_iff)
  with rx_match_lang [OF r] show ?thesis by auto
qed

lemma version_rx_plain [simp]: "plain version_rx"
  by (simp add: version_rx_def)

definition dependency_members :: "jval \<Rightarrow> jval list" where
  "dependency_members j = (case member_of j ''dependencies'' of Some (JvArray ds) \<Rightarrow> ds | _ \<Rightarrow> [])"

text \<open>No member has one of the older spellings, and the hints are well-typed.\<close>

definition current_spelling :: "jval \<Rightarrow> bool" where
  "current_spelling j \<longleftrightarrow> \<not> has_member j ''schema_version'' \<and> \<not> has_member j ''entry_point''
     \<and> list_all (\<lambda>d. \<not> has_member d ''plugin_id'' \<and> \<not> has_member d ''version'') (dependency_members j)
     \<and> parse_hints j \<noteq> None"

lemma check_kind_text: "check_kind_of is_text what j k = [] \<Longrightarrow> is_object j \<Longrightarrow> \<exists>s. value_text j k d = Some s"
  by (cases j) (auto simp: check_kind_of_def is_text_def value_text_def value_as_def member_of_def is_object_def split: option.splits if_splits)

lemma check_dependency_ok:
  assumes "check_dependency i d = []" and "\<not> has_member d ''plugin_id''" and "\<not> has_member d ''version''"
  shows "\<exists>p. PluginDependency_FromJson d = Some p \<and> pd_plugin_id p \<noteq> []"
proof -
  obtain ms where d: "d = JvObject ms" using assms(1) by (cases d) (auto simp: check_dependency_def is_object_def)
  have no: "map_of ms ''plugin_id'' = None" "map_of ms ''version'' = None"
    using assms(2,3) by (simp_all add: d json_simps)
  obtain s where i: "map_of ms ''pluginId'' = Some (JvText s)" "s \<noteq> []"
    using assms(1) no by (auto simp: check_dependency_def d is_object_def first_member_def json_simps Let_def split: option.splits if_splits)
  have "\<exists>r. value_text d ''versionRange'' [] = Some r" "\<exists>r. value_text d ''version_range'' x = Some r" "\<exists>b. value_bool d ''optional'' False = Some b" for x
    using assms(1) by (auto simp: check_dependency_def d is_object_def is_text_def is_bool_def value_text_def value_bool_def json_simps Let_def split: option.splits if_splits)
  then show ?thesis
    using no i by (auto simp: PluginDependency_FromJson_def d value_text_def value_bool_def json_simps)
      (metis (no_types, lifting) PluginDependency.select_convs(1) Option.bind.bind_lunit)
qed

lemma check_dependencies_ok:
  assumes "check_dependencies j = []" and "list_all (\<lambda>d. \<not> has_member d ''plugin_id'' \<and> \<not> has_member d ''version'') (dependency_members j)"
  shows "\<exists>ps. parse_dependencies j = Some ps \<and> (\<forall>p \<in> set ps. pd_plugin_id p \<noteq> [])"
proof (cases "\<exists>ds. member_of j ''dependencies'' = Some (JvArray ds)")
  case True
  then obtain ds where ds: "member_of j ''dependencies'' = Some (JvArray ds)" by blast
  have one: "\<exists>p. PluginDependency_FromJson d = Some p \<and> pd_plugin_id p \<noteq> []" if "d \<in> set ds" for d
  proof -
    from that obtain i where "i < length ds" "d = ds ! i" by (auto simp: in_set_conv_nth)
    then have "(i, d) \<in> set (enumerate 0 ds)" by (simp add: in_set_enumerate_eq)
    then have "check_dependency i d = []"
      using assms(1) by (auto simp: check_dependencies_def ds)
    with assms(2) that show ?thesis
      by (intro check_dependency_ok) (auto simp: dependency_members_def ds list_all_iff)
  qed
  have "\<forall>d \<in> set xs. \<exists>p. PluginDependency_FromJson d = Some p \<and> pd_plugin_id p \<noteq> [] \<Longrightarrow>
      \<exists>ps. all_some_list (map PluginDependency_FromJson xs) = Some ps \<and> (\<forall>p \<in> set ps. pd_plugin_id p \<noteq> [])" for xs
    by (induction xs) auto
  with one show ?thesis by (simp add: parse_dependencies_def ds)
next
  case False
  then have "parse_dependencies j = Some []" by (auto simp: parse_dependencies_def split: option.splits jval.splits)
  then show ?thesis by simp
qed

text \<open>
  A manifest without errors, in the current spelling and with well-typed hints, parses, and what was checked
  holds of the result.
\<close>

theorem validated_manifest:
  assumes "Validate j = []" and "current_spelling j"
  shows "\<exists>m. Parse j = Some m \<and> pm_id m \<noteq> [] \<and> list_all id_char (pm_id m) \<and> pm_name m \<noteq> []
     \<and> pm_version m \<in> rx_lang version_rx \<and> pm_entry_point m \<noteq> [] \<and> pm_schema_version m \<in> {''1.0'', ''1.1''}
     \<and> (\<forall>d \<in> set (pm_dependencies m). pd_plugin_id d \<noteq> [])"
proof -
  obtain ms where j: "j = JvObject ms" using assms(1) by (cases j) (auto simp: Validate_def is_object_def)
  have obj: "is_object j" by (simp add: j is_object_def)
  with assms(1) have checks: "check_id j = []" "check_name j = []" "check_version j = []" "check_entry j = []" "check_schema j = []"
    "check_kind_of is_text ''a string'' j ''description'' = []" "check_kind_of is_text ''a string'' j ''kind'' = []"
    "check_dependencies j = []" by (simp_all add: Validate_def)
  have old: "map_of ms ''schema_version'' = None" "map_of ms ''entry_point'' = None"
    using assms(2) by (simp_all add: current_spelling_def j json_simps)
  obtain i where i: "map_of ms ''id'' = Some (JvText i)" "i \<noteq> []" "list_all id_char i"
    using checks(1) by (auto simp: check_id_def j json_simps rx_full_lang split: option.splits if_splits)
  obtain n where n: "map_of ms ''name'' = Some (JvText n)" "n \<noteq> []"
    using checks(2) by (auto simp: check_name_def j json_simps split: option.splits if_splits)
  obtain v where v: "map_of ms ''version'' = Some (JvText v)" "v \<in> rx_lang version_rx"
    using checks(3) by (auto simp: check_version_def j json_simps rx_full_lang split: option.splits if_splits)
  obtain e where e: "map_of ms ''entryPoint'' = Some (JvText e)" "e \<noteq> []"
    using checks(4) old by (auto simp: check_entry_def first_member_def j json_simps split: option.splits if_splits)
  have s: "\<exists>s. value_text j ''schemaVersion'' ''1.0'' = Some s \<and> s \<in> {''1.0'', ''1.1''}"
    using checks(5) old by (auto simp: check_schema_def first_member_def j json_simps value_text_def split: option.splits if_splits)
  then obtain s where s: "value_text j ''schemaVersion'' ''1.0'' = Some s" "s \<in> {''1.0'', ''1.1''}" by blast
  obtain d k where dk: "value_text j ''description'' [] = Some d" "value_text j ''kind'' [] = Some k"
    using check_kind_text [OF checks(6) obj, of "[]"] check_kind_text [OF checks(7) obj, of "[]"] by blast
  obtain ps where ps: "parse_dependencies j = Some ps" "\<forall>p \<in> set ps. pd_plugin_id p \<noteq> []"
    using check_dependencies_ok [OF checks(8)] assms(2) by (auto simp: current_spelling_def)
  obtain hs where hs: "parse_hints j = Some hs" using assms(2) by (auto simp: current_spelling_def)
  have "value_text j ''name'' x = Some n" "value_text j ''version'' x = Some v" "value_text j ''entryPoint'' x = Some e"
    "value_text j ''schema_version'' x = Some x" "value_text j ''entry_point'' x = Some x" for x
    using n(1) v(1) e(1) old by (simp_all add: value_text_def j json_simps)
  moreover have "member_of j ''id'' = Some (JvText i)" using i(1) by (simp add: j json_simps)
  ultimately show ?thesis
    using i n v e s dk ps hs unfolding Parse_def by simp
qed

text \<open>What a manifest that was read has of its parts.\<close>

lemma Parse_parts:
  "Parse j = Some m \<Longrightarrow> (\<exists>d. value_text j ''entry_point'' d = Some (pm_entry_point m)) \<and> parse_hints j = Some (pm_ui_hints m)"
  unfolding Parse_def Option.bind_eq_Some_conv by auto

text \<open>
  Validation looks at the current spelling first, reading at the older one: a manifest without errors stays so
  when a member in the older spelling is added, whatever its value, and the value that is read is the
  added one; when it is no text, reading throws. The values of hints are not checked at all.
\<close>

theorem validation_gap:
  assumes "Validate (JvObject ms) = []" and "map_of ms ''entryPoint'' \<noteq> None" and "map_of ms ''entry_point'' = None"
    and "map_of ms ''uiHints'' = None"
  shows "Validate (JvObject (ms @ [(''entry_point'', v)])) = []
     \<and> (case v of JvText s \<Rightarrow> pred_option (\<lambda>m. pm_entry_point m = s) (Parse (JvObject (ms @ [(''entry_point'', v)])))
         | _ \<Rightarrow> Parse (JvObject (ms @ [(''entry_point'', v)])) = None)
     \<and> Validate (JvObject (ms @ [(''uiHints'', JvObject [(k, JvNull)])])) = []
     \<and> Parse (JvObject (ms @ [(''uiHints'', JvObject [(k, JvNull)])])) = None"
proof -
  have same: "map_of (ms @ [(x, w)]) y = map_of ms y" if "y \<noteq> x" for x y and w :: jval
    using that by (simp add: map_add_def split: option.splits)
  have newm: "map_of (ms @ [(x, w)]) x = Some w" if "map_of ms x = None" for x and w :: jval
    using that by (simp add: map_add_def)
  note no_hints = assms(4)
  have checks: "check_id (JvObject (ms @ [(x, w)])) = check_id (JvObject ms)"
    "check_name (JvObject (ms @ [(x, w)])) = check_name (JvObject ms)"
    "check_version (JvObject (ms @ [(x, w)])) = check_version (JvObject ms)"
    "check_entry (JvObject (ms @ [(x, w)])) = check_entry (JvObject ms)"
    "check_schema (JvObject (ms @ [(x, w)])) = check_schema (JvObject ms)"
    "check_dependencies (JvObject (ms @ [(x, w)])) = check_dependencies (JvObject ms)"
    "y \<noteq> x \<Longrightarrow> check_kind_of f t (JvObject (ms @ [(x, w)])) y = check_kind_of f t (JvObject ms) y"
    if "x = ''entry_point'' \<or> x = ''uiHints''" for x w y f t
  proof -
    obtain e where e: "member_of (JvObject ms) ''entryPoint'' = Some e" using assms(2) by (auto simp: member_of_object)
    have keep: "member_of (JvObject (ms @ [(x, w)])) y = member_of (JvObject ms) y" if "y \<noteq> x" for y
      using same [OF that] by (simp add: member_of_object)
    have known: "x \<noteq> ''id''" "x \<noteq> ''name''" "x \<noteq> ''version''" "x \<noteq> ''entryPoint''" "x \<noteq> ''schemaVersion''"
        "x \<noteq> ''schema_version''" "x \<noteq> ''dependencies''" using that by auto
    note keeps = known [symmetric, THEN keep]
    show "check_id (JvObject (ms @ [(x, w)])) = check_id (JvObject ms)"
      "check_name (JvObject (ms @ [(x, w)])) = check_name (JvObject ms)"
      "check_version (JvObject (ms @ [(x, w)])) = check_version (JvObject ms)"
      "check_schema (JvObject (ms @ [(x, w)])) = check_schema (JvObject ms)"
      "check_dependencies (JvObject (ms @ [(x, w)])) = check_dependencies (JvObject ms)"
      unfolding check_id_def check_name_def check_version_def check_schema_def check_dependencies_def first_member_def keeps
      by (rule refl)+
    show "check_entry (JvObject (ms @ [(x, w)])) = check_entry (JvObject ms)"
      unfolding check_entry_def first_member_def keeps e by simp
    show "y \<noteq> x \<Longrightarrow> check_kind_of f t (JvObject (ms @ [(x, w)])) y = check_kind_of f t (JvObject ms) y"
      by (simp add: check_kind_of_def keep)
  qed
  have kinds: "check_kind_of is_object ''an object'' (JvObject (ms @ [(''uiHints'', JvObject h)])) ''uiHints'' = []" for h
    using newm [OF no_hints] by (simp add: check_kind_of_def member_of_object is_object_def)
  have v1: "Validate (JvObject (ms @ [(''entry_point'', v)])) = []"
    using assms(1) by (simp add: Validate_def is_object_def checks)
  have v2: "Validate (JvObject (ms @ [(''uiHints'', JvObject [(k, JvNull)])])) = []"
    using assms(1) kinds by (simp add: Validate_def is_object_def checks)
  have entry: "value_text (JvObject (ms @ [(''entry_point'', v)])) ''entry_point'' d = as_text v" for d
    using newm [OF assms(3)] by (simp add: value_text_def value_as_object)
  have p1: "case v of JvText s \<Rightarrow> pred_option (\<lambda>m. pm_entry_point m = s) (Parse (JvObject (ms @ [(''entry_point'', v)])))
         | _ \<Rightarrow> Parse (JvObject (ms @ [(''entry_point'', v)])) = None"
  proof (cases "Parse (JvObject (ms @ [(''entry_point'', v)]))")
    case None
    then show ?thesis by (cases v) simp_all
  next
    case (Some m)
    from Parse_parts [OF Some] obtain d where
      "value_text (JvObject (ms @ [(''entry_point'', v)])) ''entry_point'' d = Some (pm_entry_point m)" by blast
    then have "as_text v = Some (pm_entry_point m)" unfolding entry .
    then have "v = JvText (pm_entry_point m)" by (simp add: as_text_iff)
    with Some show ?thesis by simp
  qed
  have "parse_hints (JvObject (ms @ [(''uiHints'', JvObject [(k, JvNull)])])) = None"
    using newm [OF no_hints]
    by (simp add: parse_hints_def member_of_object PluginConfigUiHint_FromJson_def value_text_def value_as_def)
  then have p2: "Parse (JvObject (ms @ [(''uiHints'', JvObject [(k, JvNull)])])) = None"
    using Parse_parts by (metis not_None_eq)
  show ?thesis using v1 p1 v2 p2 by blast
qed

text \<open>
  The template is free of errors exactly for a usable identifier and a name that is not empty, and is read as a
  manifest with these.
\<close>

theorem template_valid:
  "(Validate (GenerateTemplate i n) = [] \<longleftrightarrow> i \<noteq> [] \<and> list_all id_char i \<and> n \<noteq> [])
   \<and> map_option (\<lambda>m. (pm_id m, pm_name m, pm_version m, pm_entry_point m, pm_schema_version m)) (Parse (GenerateTemplate i n))
     = Some (i, n, ''1.0.0'', ''index.js'', ''1.0'')"
proof -
  have "check_id (GenerateTemplate i n) = [] \<longleftrightarrow> i \<noteq> [] \<and> list_all id_char i"
    by (simp add: check_id_def GenerateTemplate_def json_simps rx_full_lang)
  moreover have "check_name (GenerateTemplate i n) = [] \<longleftrightarrow> n \<noteq> []"
    by (simp add: check_name_def GenerateTemplate_def json_simps)
  moreover have "check_version (GenerateTemplate i n) = []"
  proof -
    have "rx_full version_rx ''1.0.0''" by code_simp
    then show ?thesis by (simp add: check_version_def GenerateTemplate_def json_simps)
  qed
  moreover have "check_entry (GenerateTemplate i n) = []" "check_schema (GenerateTemplate i n) = []"
    "check_dependencies (GenerateTemplate i n) = []" "is_object (GenerateTemplate i n)"
    by (simp_all add: check_entry_def check_schema_def check_dependencies_def first_member_def GenerateTemplate_def json_simps is_object_def)
  moreover have "check_kind_of is_text t (GenerateTemplate i n) ''description'' = []" "check_kind_of is_text t (GenerateTemplate i n) ''kind'' = []"
    "check_kind_of is_array t (GenerateTemplate i n) ''channels'' = []" "check_kind_of is_array t (GenerateTemplate i n) ''providers'' = []"
    "check_kind_of is_array t (GenerateTemplate i n) ''skills'' = []" "check_kind_of is_object t (GenerateTemplate i n) ''configSchema'' = []"
    "check_kind_of is_object t (GenerateTemplate i n) ''uiHints'' = []" for t
    by (simp_all add: check_kind_of_def GenerateTemplate_def json_simps is_text_def is_array_def is_object_def)
  ultimately have "Validate (GenerateTemplate i n) = [] \<longleftrightarrow> i \<noteq> [] \<and> list_all id_char i \<and> n \<noteq> []"
    by (simp add: Validate_def)
  moreover have "map_option (\<lambda>m. (pm_id m, pm_name m, pm_version m, pm_entry_point m, pm_schema_version m)) (Parse (GenerateTemplate i n))
     = Some (i, n, ''1.0.0'', ''index.js'', ''1.0'')"
    by (simp add: Parse_def GenerateTemplate_def value_text_def json_simps parse_dependencies_def parse_hints_def)
  ultimately show ?thesis by blast
qed

definition demo_members :: "(string \<times> jval) list" where
  "demo_members = [(''id'', JvText ''notes''), (''name'', JvText ''Notes''), (''version'', JvText ''1.2.3''),
     (''entryPoint'', JvText ''index.js''), (''author'', JvText ''me''),
     (''dependencies'', JvArray [JvObject [(''pluginId'', JvText ''base''), (''versionRange'', JvText ''^1.0.0'')]])]"

lemma demo_valid: "Validate (JvObject demo_members) = []"
  by code_simp


theorem validated_manifest_witness:
  "pred_option (\<lambda>m. pm_entry_point m \<noteq> []) (Parse (JvObject demo_members)) \<and> Parse (JvObject demo_members) \<noteq> None"
proof -
  have "current_spelling (JvObject demo_members)"
    by (simp add: current_spelling_def demo_members_def json_simps dependency_members_def parse_hints_def)
  from validated_manifest [OF demo_valid this] show ?thesis by auto
qed

theorem validation_gap_witness:
  "Validate (JvObject (demo_members @ [(''entry_point'', JvInt 3)])) = []
   \<and> Parse (JvObject (demo_members @ [(''entry_point'', JvInt 3)])) = None"
  using validation_gap [OF demo_valid, of "JvInt 3" "''a''"] by (simp add: demo_members_def)

theorem template_valid_witness:
  "Validate (GenerateTemplate ''my-plugin'' ''Mine'') = [] \<and> Validate (GenerateTemplate ''my plugin'' ''Mine'') \<noteq> []"
  using template_valid [of "''my-plugin''" "''Mine''"] template_valid [of "''my plugin''" "''Mine''"]
  by (simp add: id_char_def is_word_def is_digit_def byte_Char)

end
