(* ===== verification/PluginRegistry.thy ===== *)
theory PluginRegistry
  imports PluginManifests "HOL-Library.List_Lexorder"
begin

text \<open>
  The plugin registry (\<open>plugins/plugin_registry.cpp\<close>): discovery over the directories in their order of
  precedence, the rules that enable a plugin, the update with what the sidecar reports, conflicts,
  names of tools, and diagnostics. A directory is the list of its entries in the order of the
  iterator; a file is read as \<open>json_file\<close>; paths are joined with a slash. \<open>std::map\<close> iterates in the order
  of its keys, which for texts is the order of \<open>List_Lexorder\<close>.
\<close>

section \<open>Records\<close>

datatype PluginStatus = kLoaded | kDisabled | kError

fun plugin_status_to_string :: "PluginStatus \<Rightarrow> string" where
  "plugin_status_to_string kLoaded = ''loaded''"
| "plugin_status_to_string kDisabled = ''disabled''"
| "plugin_status_to_string kError = ''error''"

record PluginCandidate =
  pc_id_hint :: string
  pc_source :: string
  pc_root_dir :: string
  pc_origin :: PluginOrigin
  pc_package_name :: string
  pc_package_version :: string
  pc_package_description :: string
  pc_manifest :: "PluginManifest option"

record PluginRecord =
  pr_id :: string
  pr_name :: string
  pr_version :: string
  pr_description :: string
  pr_kind :: string
  pr_source :: string
  pr_root_dir :: string
  pr_origin :: PluginOrigin
  pr_enabled :: bool
  pr_status :: PluginStatus
  pr_error :: string
  pr_tool_names :: "string list"
  pr_channel_ids :: "string list"
  pr_provider_ids :: "string list"
  pr_service_ids :: "string list"
  pr_skill_names :: "string list"
  pr_gateway_methods :: "string list"
  pr_cli_commands :: "string list"
  pr_command_names :: "string list"
  pr_hook_names :: "string list"
  pr_http_handler_count :: int
  pr_config_schema :: jval
  pr_plugin_config :: jval

definition PluginRecord_new :: "string \<Rightarrow> PluginOrigin \<Rightarrow> PluginRecord" where
  "PluginRecord_new i origin =
     \<lparr>pr_id = i, pr_name = [], pr_version = [], pr_description = [], pr_kind = [], pr_source = [], pr_root_dir = [],
      pr_origin = origin, pr_enabled = True, pr_status = kLoaded, pr_error = [], pr_tool_names = [], pr_channel_ids = [],
      pr_provider_ids = [], pr_service_ids = [], pr_skill_names = [], pr_gateway_methods = [], pr_cli_commands = [],
      pr_command_names = [], pr_hook_names = [], pr_http_handler_count = 0, pr_config_schema = JvNull, pr_plugin_config = JvNull\<rparr>"

record PluginRegistry =
  rg_plugins :: "PluginRecord list"
  rg_index :: "(string \<times> nat) list"

definition PluginRegistry_init :: PluginRegistry where
  "PluginRegistry_init = \<lparr>rg_plugins = [], rg_index = []\<rparr>"

section \<open>Discovery\<close>

text \<open>An entry of a directory; \<open>None\<close> is a file that does not exist.\<close>

record dir_item =
  di_name :: string
  di_is_directory :: bool
  di_openclaw :: "json_file option"
  di_ravbot :: "json_file option"
  di_package :: "json_file option"

type_synonym directories = "string \<Rightarrow> dir_item list option"

definition path_join :: "string \<Rightarrow> string \<Rightarrow> string" where "path_join a b = a @ ''/'' @ b"

text \<open>The metadata of \<open>package.json\<close>: the members before the first that is no text.\<close>

definition read_package :: "json_file option \<Rightarrow> string \<times> string \<times> string" where
  "read_package f = (case f of
     Some (FileJson pkg) \<Rightarrow>
       (case value_text pkg ''name'' [] of
          None \<Rightarrow> ([], [], [])
        | Some n \<Rightarrow> (case value_text pkg ''version'' [] of
            None \<Rightarrow> (n, [], [])
          | Some v \<Rightarrow> (n, v, value_or (value_text pkg ''description'' []) [])))
   | _ \<Rightarrow> ([], [], []))"

definition scan_item :: "string \<Rightarrow> PluginOrigin \<Rightarrow> dir_item \<Rightarrow> PluginCandidate option" where
  "scan_item dir origin item =
     (if \<not> di_is_directory item then None
      else (case (case di_openclaw item of
                    Some f \<Rightarrow> Some (f, ''openclaw.plugin.json'')
                  | None \<Rightarrow> map_option (\<lambda>f. (f, ''ravbot.plugin.json'')) (di_ravbot item)) of
         None \<Rightarrow> None
       | Some (f, file_name) \<Rightarrow>
           (case LoadFromFile f of
              None \<Rightarrow> None
            | Some m \<Rightarrow>
                (case read_package (di_package item) of (n, v, d) \<Rightarrow>
                  Some \<lparr>pc_id_hint = pm_id m, pc_source = path_join (path_join dir (di_name item)) file_name,
                    pc_root_dir = path_join dir (di_name item), pc_origin = origin, pc_package_name = n,
                    pc_package_version = v, pc_package_description = d, pc_manifest = Some m\<rparr>))))"

definition scan_directory :: "directories \<Rightarrow> string \<Rightarrow> PluginOrigin \<Rightarrow> PluginCandidate list" where
  "scan_directory fs dir origin =
     (case fs dir of None \<Rightarrow> [] | Some entries \<Rightarrow> List.map_filter (scan_item dir origin) entries)"

definition get_ravbot_home :: "string option \<Rightarrow> string" where
  "get_ravbot_home home = (case home of None \<Rightarrow> ''/tmp/.ravbot'' | Some h \<Rightarrow> path_join h ''.ravbot'')"

definition load_paths :: "jval \<Rightarrow> string list" where
  "load_paths pc = (case member_of pc ''load'' of Some l \<Rightarrow> text_members l ''paths'' | None \<Rightarrow> [])"

definition install_paths :: "jval \<Rightarrow> string list" where
  "install_paths pc = (case member_of pc ''installs'' of
     Some (JvObject ins) \<Rightarrow>
       List.map_filter (\<lambda>(k, v). case member_of v ''installPath'' of Some (JvText p) \<Rightarrow> Some p | _ \<Rightarrow> None) ins
   | _ \<Rightarrow> [])"

definition discover_candidates :: "directories \<Rightarrow> string option \<Rightarrow> jval \<Rightarrow> string \<Rightarrow> PluginCandidate list" where
  "discover_candidates fs home pc workspace_dir =
     (let qc_home = get_ravbot_home home in
      concat (map (\<lambda>p. scan_directory fs p PluginManifests.kConfig) (load_paths pc))
      @ concat (map (\<lambda>p. scan_directory fs p PluginManifests.kConfig) (install_paths pc))
      @ (if workspace_dir \<noteq> [] then
           scan_directory fs (path_join (path_join workspace_dir ''.openclaw'') ''plugins'') kWorkspace
           @ scan_directory fs (path_join (path_join workspace_dir ''.ravbot'') ''plugins'') kWorkspace
         else [])
      @ scan_directory fs (path_join qc_home ''plugins'') kGlobal
      @ scan_directory fs (path_join qc_home ''extensions'') kGlobal
      @ scan_directory fs (path_join qc_home ''bundled-plugins'') kBundled)"

definition kBundledEnabledByDefault :: "string list" where
  "kBundledEnabledByDefault = [''device-pair'', ''phone-control'', ''talk-voice'']"

definition text_in :: "string \<Rightarrow> jval \<Rightarrow> string \<Rightarrow> bool" where
  "text_in s j k = (s \<in> set (text_members j k))"

definition should_enable :: "string \<Rightarrow> PluginOrigin \<Rightarrow> jval \<Rightarrow> bool" where
  "should_enable plugin_id origin pc =
     (if member_of pc ''enabled'' = Some (JvBool False) then False
      else if text_in plugin_id pc ''deny'' then False
      else if (case member_of pc ''allow'' of Some (JvArray xs) \<Rightarrow> xs \<noteq> [] \<and> \<not> text_in plugin_id pc ''allow'' | _ \<Rightarrow> False) then False
      else if (case member_of pc ''slots'' of Some s \<Rightarrow> member_of s ''memory'' = Some (JvText plugin_id) | None \<Rightarrow> False) then True
      else (case (case member_of pc ''entries'' of None \<Rightarrow> None
                  | Some es \<Rightarrow> (case member_of es plugin_id of None \<Rightarrow> None | Some e \<Rightarrow> member_of e ''enabled'')) of
              Some (JvBool b) \<Rightarrow> b
            | _ \<Rightarrow> if origin = kBundled then plugin_id \<in> set kBundledEnabledByDefault else True))"

definition candidate_id :: "PluginCandidate \<Rightarrow> string" where
  "candidate_id c = (case pc_manifest c of Some m \<Rightarrow> pm_id m | None \<Rightarrow> pc_id_hint c)"

definition make_record :: "jval \<Rightarrow> string \<Rightarrow> PluginCandidate \<Rightarrow> PluginRecord" where
  "make_record pc i c =
     (let base = (PluginRecord_new i (pc_origin c))\<lparr>pr_source := pc_source c, pr_root_dir := pc_root_dir c\<rparr>;
          named = (case pc_manifest c of
            Some m \<Rightarrow> base\<lparr>pr_name := pm_name m, pr_version := pm_version m, pr_description := pm_description m,
              pr_kind := pm_kind m, pr_channel_ids := pm_channels m, pr_provider_ids := pm_providers m,
              pr_skill_names := pm_skills m, pr_config_schema := pm_config_schema m\<rparr>
          | None \<Rightarrow> base\<lparr>pr_name := (if pc_package_name c = [] then i else pc_package_name c),
              pr_version := pc_package_version c, pr_description := pc_package_description c\<rparr>);
          on = should_enable i (pc_origin c) pc;
          conf = (case member_of pc ''entries'' of None \<Rightarrow> None
            | Some es \<Rightarrow> (case member_of es i of None \<Rightarrow> None | Some e \<Rightarrow> member_of e ''config''))
      in named\<lparr>pr_enabled := on, pr_status := (if on then kLoaded else kDisabled),
           pr_plugin_config := value_or conf JvNull\<rparr>)"

text \<open>The first candidate with an identifier wins; the records are in the order of the identifiers.\<close>

definition Discover :: "directories \<Rightarrow> string option \<Rightarrow> jval \<Rightarrow> string \<Rightarrow> PluginRegistry" where
  "Discover fs home pc workspace_dir =
     (let candidates = discover_candidates fs home pc workspace_dir;
          ids = sort (remdups (map candidate_id candidates));
          records = List.map_filter (\<lambda>i. map_option (make_record pc i) (List.find (\<lambda>c. candidate_id c = i) candidates)) ids
      in \<lparr>rg_plugins = records, rg_index = map (\<lambda>(n, r). (pr_id r, n)) (enumerate 0 records)\<rparr>)"

section \<open>Looking up\<close>

definition Find :: "string \<Rightarrow> PluginRegistry \<Rightarrow> PluginRecord option" where
  "Find i rg = map_option (\<lambda>n. rg_plugins rg ! n) (map_of (rg_index rg) i)"

definition EnabledPluginIds :: "PluginRegistry \<Rightarrow> string list" where
  "EnabledPluginIds rg = map pr_id (List.filter pr_enabled (rg_plugins rg))"

definition IsEnabled :: "string \<Rightarrow> PluginRegistry \<Rightarrow> bool" where
  "IsEnabled i rg = (case Find i rg of None \<Rightarrow> False | Some r \<Rightarrow> pr_enabled r)"

definition SetPluginEnabled :: "string \<Rightarrow> bool \<Rightarrow> PluginRegistry \<Rightarrow> PluginRegistry" where
  "SetPluginEnabled i b rg =
     (case map_of (rg_index rg) i of
        None \<Rightarrow> rg
      | Some n \<Rightarrow> rg\<lparr>rg_plugins := (rg_plugins rg)[n := (rg_plugins rg ! n)\<lparr>pr_enabled := b\<rparr>]\<rparr>)"

definition IsPluginEnabled :: "string \<Rightarrow> PluginRegistry \<Rightarrow> bool" where
  "IsPluginEnabled i rg = (case map_of (rg_index rg) i of None \<Rightarrow> False | Some n \<Rightarrow> pr_enabled (rg_plugins rg ! n))"

section \<open>What the sidecar reports\<close>

definition merge_unique :: "string list \<Rightarrow> string list \<Rightarrow> string list" where
  "merge_unique dest src = foldl (\<lambda>d s. if s \<in> set d then d else d @ [s]) dest src"

text \<open>\<open>get<int>\<close> of a number: 64 bits are cut to 32; \<open>trunc\<close> converts a fraction.\<close>

definition wrap32 :: "int \<Rightarrow> int" where "wrap32 i = (i + 2147483648) mod 4294967296 - 2147483648"

definition merge_report :: "(string \<Rightarrow> int) \<Rightarrow> jval \<Rightarrow> PluginRecord \<Rightarrow> PluginRecord" where
  "merge_report trunc entry r =
     (let r1 = r\<lparr>pr_tool_names := merge_unique (pr_tool_names r) (text_members entry ''tools''),
            pr_hook_names := merge_unique (pr_hook_names r) (text_members entry ''hooks''),
            pr_service_ids := merge_unique (pr_service_ids r) (text_members entry ''services''),
            pr_provider_ids := merge_unique (pr_provider_ids r) (text_members entry ''providers''),
            pr_command_names := merge_unique (pr_command_names r) (text_members entry ''commands''),
            pr_gateway_methods := merge_unique (pr_gateway_methods r) (text_members entry ''gatewayMethods''),
            pr_channel_ids := merge_unique (pr_channel_ids r) (text_members entry ''channels''),
            pr_cli_commands := merge_unique (pr_cli_commands r) (text_members entry ''cliEntries'')\<rparr>
      in case member_of entry ''httpHandlers'' of
           Some (JvInt n) \<Rightarrow> r1\<lparr>pr_http_handler_count := wrap32 n\<rparr>
         | Some (JvReal t) \<Rightarrow> r1\<lparr>pr_http_handler_count := trunc t\<rparr>
         | _ \<Rightarrow> r1)"

text \<open>One entry of the report; the flag is false when reading it threw.\<close>

definition update_entry :: "(string \<Rightarrow> int) \<Rightarrow> jval \<Rightarrow> PluginRegistry \<Rightarrow> PluginRegistry \<times> bool" where
  "update_entry trunc entry rg =
     (if as_object entry = None then (rg, True)
      else (case value_text entry ''id'' [] of
        None \<Rightarrow> (rg, False)
      | Some i \<Rightarrow>
          if i = [] then (rg, True)
          else
            (let put = (\<lambda>rg n. rg\<lparr>rg_plugins := (rg_plugins rg)[n := merge_report trunc entry (rg_plugins rg ! n)]\<rparr>)
             in case map_of (rg_index rg) i of
                  Some n \<Rightarrow> (put rg n, True)
                | None \<Rightarrow>
                    (case (value_text entry ''name'' i, value_text entry ''version'' []) of
                       (Some nm, Some v) \<Rightarrow>
                         (let r = (PluginRecord_new i PluginManifests.kConfig)\<lparr>pr_name := nm, pr_version := v\<rparr>;
                              n = length (rg_plugins rg)
                          in (put (rg\<lparr>rg_plugins := rg_plugins rg @ [r], rg_index := AList.update i n (rg_index rg)\<rparr>) n, True))
                     | _ \<Rightarrow> (rg, False)))))"

fun update_entries :: "(string \<Rightarrow> int) \<Rightarrow> jval list \<Rightarrow> PluginRegistry \<Rightarrow> PluginRegistry \<times> bool" where
  "update_entries trunc [] rg = (rg, True)"
| "update_entries trunc (e # es) rg =
     (case update_entry trunc e rg of (rg1, ok) \<Rightarrow> if ok then update_entries trunc es rg1 else (rg1, False))"

definition UpdateFromSidecar :: "(string \<Rightarrow> int) \<Rightarrow> jval \<Rightarrow> PluginRegistry \<Rightarrow> PluginRegistry \<times> bool" where
  "UpdateFromSidecar trunc report rg =
     (case member_of report ''plugins'' of
        Some (JvArray es) \<Rightarrow> update_entries trunc es rg
      | _ \<Rightarrow> (rg, True))"

section \<open>Conflicts and names\<close>

record ConflictInfo =
  ci_type :: string
  ci_plugin_a :: string
  ci_plugin_b :: string
  ci_resource_name :: string
  ci_description :: string

fun pairs :: "'a list \<Rightarrow> ('a \<times> 'a) list" where
  "pairs [] = []"
| "pairs (x # xs) = map (Pair x) xs @ pairs xs"

text \<open>The map from a name to the enabled plugins that have it, a plugin once for each occurrence.\<close>

definition providers_of :: "(PluginRecord \<Rightarrow> string list) \<Rightarrow> string \<Rightarrow> PluginRegistry \<Rightarrow> string list" where
  "providers_of names t rg =
     concat (map (\<lambda>p. map (\<lambda>_. pr_id p) (List.filter (\<lambda>n. n = t) (names p))) (List.filter pr_enabled (rg_plugins rg)))"

definition all_names :: "(PluginRecord \<Rightarrow> string list) \<Rightarrow> PluginRegistry \<Rightarrow> string list" where
  "all_names names rg = sort (remdups (concat (map names (List.filter pr_enabled (rg_plugins rg)))))"

definition tool_conflicts :: "PluginRegistry \<Rightarrow> ConflictInfo list" where
  "tool_conflicts rg = concat (map (\<lambda>t.
     map (\<lambda>(a, b). \<lparr>ci_type = ''tool'', ci_plugin_a = a, ci_plugin_b = b, ci_resource_name = t,
         ci_description = ''Tool name '' @ quoted t @ '' is provided by multiple plugins''\<rparr>)
       (pairs (providers_of pr_tool_names t rg))) (all_names pr_tool_names rg))"

definition hook_conflicts :: "PluginRegistry \<Rightarrow> ConflictInfo list" where
  "hook_conflicts rg = concat (map (\<lambda>h.
     (case providers_of pr_hook_names h rg of
        a # b # _ \<Rightarrow> [\<lparr>ci_type = ''hook'', ci_plugin_a = a, ci_plugin_b = b, ci_resource_name = h,
          ci_description = ''Hook '' @ quoted h @ '' is registered by multiple plugins (this may be intentional)''\<rparr>]
      | _ \<Rightarrow> [])) (all_names pr_hook_names rg))"

definition DetectConflicts :: "PluginRegistry \<Rightarrow> ConflictInfo list" where
  "DetectConflicts rg = tool_conflicts rg @ hook_conflicts rg"

definition ResolveToolName :: "string \<Rightarrow> PluginRegistry \<Rightarrow> string" where
  "ResolveToolName tool_name rg =
     (if CHR ''.'' \<in> set tool_name then tool_name
      else (case map pr_id (List.filter (\<lambda>p. pr_enabled p \<and> tool_name \<in> set (pr_tool_names p)) (rg_plugins rg)) of
              [] \<Rightarrow> tool_name
            | [p] \<Rightarrow> tool_name
            | p # _ \<Rightarrow> p @ ''.'' @ tool_name))"

definition ValidateManifest :: "PluginManifest \<Rightarrow> string option" where
  "ValidateManifest m =
     (if pm_name m = [] then Some ''Missing required field: name''
      else if pm_version m = [] then Some ''Missing required field: version''
      else if pm_id m = [] then Some ''Missing required field: id''
      else if \<not> rx_full version_rx (pm_version m) then
        Some (''Invalid version format: '' @ pm_version m @ '' (expected semver: major.minor.patch)'')
      else if \<not> rx_full (rx_some id_char) (pm_id m) then
        Some (''Invalid id format: '' @ pm_id m @ '' (only alphanumeric, hyphens, and underscores allowed)'')
      else None)"

section \<open>Summaries\<close>

definition texts_json :: "string list \<Rightarrow> jval" where "texts_json xs = JvArray (map JvText xs)"

definition record_json :: "PluginRecord \<Rightarrow> jval" where
  "record_json p = JvObject
     ([(''id'', JvText (pr_id p)), (''name'', JvText (pr_name p))]
      @ put_if (pr_version p \<noteq> []) ''version'' (JvText (pr_version p))
      @ put_if (pr_description p \<noteq> []) ''description'' (JvText (pr_description p))
      @ put_if (pr_kind p \<noteq> []) ''kind'' (JvText (pr_kind p))
      @ [(''source'', JvText (pr_source p)), (''origin'', JvText (plugin_origin_to_string (pr_origin p))),
         (''enabled'', JvBool (pr_enabled p)), (''status'', JvText (plugin_status_to_string (pr_status p)))]
      @ put_if (pr_error p \<noteq> []) ''error'' (JvText (pr_error p))
      @ put_if (pr_tool_names p \<noteq> []) ''tools'' (texts_json (pr_tool_names p))
      @ put_if (pr_channel_ids p \<noteq> []) ''channels'' (texts_json (pr_channel_ids p))
      @ put_if (pr_provider_ids p \<noteq> []) ''providers'' (texts_json (pr_provider_ids p))
      @ put_if (pr_service_ids p \<noteq> []) ''services'' (texts_json (pr_service_ids p))
      @ put_if (pr_skill_names p \<noteq> []) ''skills'' (texts_json (pr_skill_names p))
      @ put_if (pr_gateway_methods p \<noteq> []) ''gatewayMethods'' (texts_json (pr_gateway_methods p))
      @ put_if (pr_cli_commands p \<noteq> []) ''cliCommands'' (texts_json (pr_cli_commands p))
      @ put_if (pr_command_names p \<noteq> []) ''commands'' (texts_json (pr_command_names p))
      @ put_if (pr_hook_names p \<noteq> []) ''hooks'' (texts_json (pr_hook_names p))
      @ put_if (0 < pr_http_handler_count p) ''httpHandlers'' (JvInt (pr_http_handler_count p)))"

definition PluginRegistry_ToJson :: "PluginRegistry \<Rightarrow> jval" where
  "PluginRegistry_ToJson rg = JvArray (map record_json (rg_plugins rg))"

definition conflict_json :: "ConflictInfo \<Rightarrow> jval" where
  "conflict_json c = JvObject [(''type'', JvText (ci_type c)), (''plugin_a'', JvText (ci_plugin_a c)),
     (''plugin_b'', JvText (ci_plugin_b c)), (''resource_name'', JvText (ci_resource_name c)),
     (''description'', JvText (ci_description c))]"

definition warnings_of :: "PluginRecord \<Rightarrow> jval list" where
  "warnings_of p =
     (if pr_status p = kError then [JvObject [(''plugin_id'', JvText (pr_id p)), (''type'', JvText ''error''), (''message'', JvText (pr_error p))]] else [])
     @ (if \<not> pr_enabled p then [JvObject [(''plugin_id'', JvText (pr_id p)), (''type'', JvText ''disabled''), (''message'', JvText ''Plugin is disabled'')]] else [])"

definition count :: "('a \<Rightarrow> bool) \<Rightarrow> 'a list \<Rightarrow> int" where "count P xs = int (length (List.filter P xs))"

definition GetDiagnostics :: "PluginRegistry \<Rightarrow> jval" where
  "GetDiagnostics rg = JvObject
     [(''conflicts'', JvArray (map conflict_json (DetectConflicts rg))),
      (''warnings'', JvArray (concat (map warnings_of (rg_plugins rg)))),
      (''stats'', JvObject [(''total'', JvInt (int (length (rg_plugins rg)))),
         (''enabled'', JvInt (count pr_enabled (rg_plugins rg))),
         (''disabled'', JvInt (count (\<lambda>p. \<not> pr_enabled p) (rg_plugins rg))),
         (''error'', JvInt (count (\<lambda>p. pr_status p = kError) (rg_plugins rg)))])]"

section \<open>Consistency in every run\<close>

definition registry_ok :: "PluginRegistry \<Rightarrow> bool" where
  "registry_ok rg \<longleftrightarrow> distinct (map pr_id (rg_plugins rg))
     \<and> (\<forall>i n. map_of (rg_index rg) i = Some n \<longleftrightarrow> n < length (rg_plugins rg) \<and> pr_id (rg_plugins rg ! n) = i)
     \<and> list_all (\<lambda>p. distinct (pr_tool_names p) \<and> distinct (pr_hook_names p)) (rg_plugins rg)"

datatype registry_event =
    DiscoverEvent directories "string option" jval string
  | ReportEvent "string \<Rightarrow> int" jval
  | EnableEvent string bool

fun registry_next :: "PluginRegistry \<Rightarrow> registry_event \<Rightarrow> PluginRegistry" where
  "registry_next rg (DiscoverEvent fs home pc ws) = Discover fs home pc ws"
| "registry_next rg (ReportEvent trunc report) = fst (UpdateFromSidecar trunc report rg)"
| "registry_next rg (EnableEvent i b) = SetPluginEnabled i b rg"

lemma index_zip: "map (\<lambda>(n, r). (f r, n)) (enumerate 0 rs) = zip (map f rs) [0..<length rs]"
  by (simp add: enumerate_eq_zip zip_map1 zip_commute [of rs] case_prod_beta comp_def)

lemma map_of_index: "distinct xs \<Longrightarrow> map_of (zip xs [0..<length xs]) i = Some n \<longleftrightarrow> n < length xs \<and> xs ! n = i"
  by (auto simp: map_of_zip_nth in_set_zip dest!: map_of_SomeD)

lemma make_record_fields [simp]:
  "pr_id (make_record pc i c) = i" "pr_origin (make_record pc i c) = pc_origin c" "pr_root_dir (make_record pc i c) = pc_root_dir c"
  "pr_enabled (make_record pc i c) = should_enable i (pc_origin c) pc"
  "pr_tool_names (make_record pc i c) = []" "pr_hook_names (make_record pc i c) = []"
  by (simp_all add: make_record_def PluginRecord_new_def Let_def split: option.splits)

text \<open>The records of a discovery: one for each identifier, in their order.\<close>

lemma discovered:
  assumes "\<And>i. i \<in> set is \<Longrightarrow> \<exists>c \<in> set cs. candidate_id c = i"
  shows "map pr_id (List.map_filter (\<lambda>i. map_option (make_record pc i) (List.find (\<lambda>c. candidate_id c = i) cs)) is) = is"
  using assms
proof (induction "is")
  case (Cons i "is")
  then have "\<exists>c \<in> set cs. candidate_id c = i" by simp
  then obtain c where "List.find (\<lambda>c. candidate_id c = i) cs = Some c"
    by (cases "List.find (\<lambda>c. candidate_id c = i) cs") (auto simp: find_None_iff)
  with Cons show ?case by (simp add: List.map_filter_def)
qed (simp add: List.map_filter_def)

lemma Discover_ok: "registry_ok (Discover fs home pc ws)"
proof -
  define cs where "cs = discover_candidates fs home pc ws"
  define ids where "ids = sort (remdups (map candidate_id cs))"
  define rs where "rs = List.map_filter (\<lambda>i. map_option (make_record pc i) (List.find (\<lambda>c. candidate_id c = i) cs)) ids"
  have rg: "Discover fs home pc ws = \<lparr>rg_plugins = rs, rg_index = zip (map pr_id rs) [0..<length rs]\<rparr>"
    by (simp add: Discover_def cs_def ids_def rs_def index_zip Let_def)
  have "map pr_id rs = ids" unfolding rs_def by (rule discovered) (auto simp: ids_def)
  moreover have "distinct ids" by (simp add: ids_def)
  ultimately have d: "distinct (map pr_id rs)" by simp
  have "list_all (\<lambda>p. distinct (pr_tool_names p) \<and> distinct (pr_hook_names p)) rs"
    by (auto simp: rs_def list_all_iff List.map_filter_def)
  with d map_of_index [OF d] show ?thesis unfolding rg registry_ok_def by auto
qed

lemma registry_update:
  assumes "registry_ok rg" and "map_of (rg_index rg) i = Some n" and "\<And>p. pr_id (f p) = pr_id p"
    and "\<And>p. distinct (pr_tool_names p) \<and> distinct (pr_hook_names p) \<Longrightarrow> distinct (pr_tool_names (f p)) \<and> distinct (pr_hook_names (f p))"
  shows "registry_ok (rg\<lparr>rg_plugins := (rg_plugins rg)[n := f (rg_plugins rg ! n)]\<rparr>)"
proof -
  let ?ps = "rg_plugins rg" and ?qs = "(rg_plugins rg)[n := f (rg_plugins rg ! n)]"
  have n: "n < length ?ps" using assms(1,2) by (auto simp: registry_ok_def)
  have ids: "map pr_id ?qs = map pr_id ?ps" using n assms(3) by (simp add: map_update list_update_same_conv)
  then have nth: "k < length ?ps \<Longrightarrow> pr_id (?qs ! k) = pr_id (?ps ! k)" for k by (metis length_list_update nth_map)
  have "list_all (\<lambda>p. distinct (pr_tool_names p) \<and> distinct (pr_hook_names p)) ?qs"
    using assms(1,4) n by (auto simp: registry_ok_def list_all_iff dest!: set_update_subset_insert [THEN subsetD])
  then show ?thesis using assms(1) nth by (auto simp: registry_ok_def ids)
qed

lemma merge_unique_distinct: "distinct d \<Longrightarrow> distinct (merge_unique d s)"
proof -
  have "distinct d \<Longrightarrow> distinct (foldl (\<lambda>d s. if s \<in> set d then d else d @ [s]) d s)" by (induction s arbitrary: d) auto
  then show "distinct d \<Longrightarrow> distinct (merge_unique d s)" by (simp add: merge_unique_def)
qed

lemma merge_report_keeps:
  "pr_id (merge_report trunc e r) = pr_id r" "pr_enabled (merge_report trunc e r) = pr_enabled r"
  "distinct (pr_tool_names r) \<and> distinct (pr_hook_names r) \<Longrightarrow>
     distinct (pr_tool_names (merge_report trunc e r)) \<and> distinct (pr_hook_names (merge_report trunc e r))"
  by (auto simp: merge_report_def Let_def merge_unique_distinct split: option.splits jval.splits)

lemma registry_add:
  assumes "registry_ok rg" and "map_of (rg_index rg) (pr_id r) = None" and "pr_tool_names r = []" and "pr_hook_names r = []"
  shows "registry_ok (rg\<lparr>rg_plugins := rg_plugins rg @ [r], rg_index := AList.update (pr_id r) (length (rg_plugins rg)) (rg_index rg)\<rparr>)"
proof -
  have "pr_id r \<notin> set (map pr_id (rg_plugins rg))"
  proof
    assume "pr_id r \<in> set (map pr_id (rg_plugins rg))"
    then obtain n where "n < length (rg_plugins rg)" "pr_id (rg_plugins rg ! n) = pr_id r" by (auto simp: in_set_conv_nth)
    with assms(1) have "map_of (rg_index rg) (pr_id r) = Some n" by (simp add: registry_ok_def)
    with assms(2) show False by simp
  qed
  then have fresh: "n < length (rg_plugins rg) \<Longrightarrow> pr_id (rg_plugins rg ! n) \<noteq> pr_id r" for n by (metis length_map nth_map nth_mem)
  with assms show ?thesis
    using \<open>pr_id r \<notin> set (map pr_id (rg_plugins rg))\<close>
    by (auto simp: registry_ok_def map_of_update nth_append less_Suc_eq)
qed

lemma update_entry_ok: "registry_ok rg \<Longrightarrow> registry_ok (fst (update_entry trunc e rg))"
proof -
  assume ok: "registry_ok rg"
  have put: "registry_ok (rg\<lparr>rg_plugins := (rg_plugins rg)[n := merge_report trunc e (rg_plugins rg ! n)]\<rparr>)"
    if "registry_ok rg" "map_of (rg_index rg) i = Some n" for rg i n
    using that by (intro registry_update [where f = "merge_report trunc e"]) (simp_all add: merge_report_keeps)
  show ?thesis
  proof (cases "as_object e = None \<or> value_text e ''id'' [] = None \<or> value_text e ''id'' [] = Some []")
    case True
    with ok show ?thesis by (auto simp: update_entry_def)
  next
    case False
    then obtain i where i: "as_object e \<noteq> None" "value_text e ''id'' [] = Some i" "i \<noteq> []" by auto
    show ?thesis
    proof (cases "map_of (rg_index rg) i")
      case (Some n)
      with i put [OF ok Some] ok show ?thesis by (simp add: update_entry_def Let_def)
    next
      case None
      show ?thesis
      proof (cases "value_text e ''name'' i = None \<or> value_text e ''version'' [] = None")
        case True
        with i None ok show ?thesis by (auto simp: update_entry_def Let_def split: option.splits)
      next
        case False
        then obtain nm v where nv: "value_text e ''name'' i = Some nm" "value_text e ''version'' [] = Some v" by auto
        define r where "r = (PluginRecord_new i PluginManifests.kConfig)\<lparr>pr_name := nm, pr_version := v\<rparr>"
        have "pr_id r = i" "pr_tool_names r = []" "pr_hook_names r = []" by (simp_all add: r_def PluginRecord_new_def)
        with registry_add [OF ok, of r] None
        have "registry_ok (rg\<lparr>rg_plugins := rg_plugins rg @ [r], rg_index := AList.update i (length (rg_plugins rg)) (rg_index rg)\<rparr>)"
          by simp
        from put [OF this, of i "length (rg_plugins rg)"] i None nv ok show ?thesis
          by (simp add: update_entry_def Let_def r_def map_of_update)
      qed
    qed
  qed
qed

lemma update_entries_ok: "registry_ok rg \<Longrightarrow> registry_ok (fst (update_entries trunc es rg))"
proof (induction es arbitrary: rg)
  case (Cons e es)
  then show ?case using update_entry_ok [OF Cons.prems, of trunc e]
    by (cases "update_entry trunc e rg") auto
qed simp

lemma registry_next_ok: "registry_ok rg \<Longrightarrow> registry_ok (registry_next rg ev)"
proof (cases ev)
  case (EnableEvent i b)
  assume "registry_ok rg"
  then show ?thesis
    using EnableEvent registry_update [of rg i _ "pr_enabled_update (\<lambda>_. b)"]
    by (auto simp: SetPluginEnabled_def split: option.splits)
qed (auto simp: Discover_ok update_entries_ok UpdateFromSidecar_def split: option.splits jval.splits)

interpretation registry: guarded_machine "\<lambda>rg. rg = PluginRegistry_init" "\<lambda>_ _. True" registry_next registry_ok
  by unfold_locales (auto simp: registry_next_ok, simp add: registry_ok_def PluginRegistry_init_def)

lemma registry_run: "registry_ok (foldl registry_next PluginRegistry_init es)"
proof -
  have "registry.enabled_run rg es" for rg by (induction es arbitrary: rg) auto
  then show ?thesis by (intro registry.inv_from_start) simp
qed

lemma Find_find: "registry_ok rg \<Longrightarrow> Find i rg = List.find (\<lambda>p. pr_id p = i) (rg_plugins rg)"
proof (cases "map_of (rg_index rg) i")
  case (Some n)
  assume ok: "registry_ok rg"
  then have n: "n < length (rg_plugins rg)" "pr_id (rg_plugins rg ! n) = i" using Some by (auto simp: registry_ok_def)
  have "pr_id (rg_plugins rg ! k) \<noteq> i" if "k < n" for k
    using ok n that by (auto simp: registry_ok_def distinct_conv_nth)
  with n have "List.find (\<lambda>p. pr_id p = i) (rg_plugins rg) = Some (rg_plugins rg ! n)"
    by (auto simp: find_Some_iff)
  then show ?thesis using Some by (simp add: Find_def)
next
  case None
  assume "registry_ok rg"
  then have "n < length (rg_plugins rg) \<Longrightarrow> pr_id (rg_plugins rg ! n) \<noteq> i" for n
    using None by (metis option.distinct(1) registry_ok_def)
  then have "\<forall>p \<in> set (rg_plugins rg). pr_id p \<noteq> i" by (metis in_set_conv_nth)
  then have "List.find (\<lambda>p. pr_id p = i) (rg_plugins rg) = None" by (auto simp: find_None_iff)
  with None show ?thesis by (simp add: Find_def)
qed

text \<open>
  Claim C28. In every run of discoveries, reports of the sidecar (those that throw half-way included) and switches, the index
  is exact: an identifier belongs to one record, looking up by it finds that record, and the two
  questions for its being enabled, and the list of all enabled ones, agree.
\<close>

theorem registry_consistent:
  assumes "rg = foldl registry_next PluginRegistry_init es"
  shows "distinct (map pr_id (rg_plugins rg)) \<and> Find i rg = List.find (\<lambda>p. pr_id p = i) (rg_plugins rg)
     \<and> IsPluginEnabled i rg = IsEnabled i rg \<and> (IsEnabled i rg \<longleftrightarrow> i \<in> set (EnabledPluginIds rg))"
proof -
  have ok: "registry_ok rg" using registry_run assms by simp
  then have d: "distinct (map pr_id (rg_plugins rg))" by (simp add: registry_ok_def)
  have "IsEnabled i rg \<longleftrightarrow> (\<exists>p \<in> set (rg_plugins rg). pr_id p = i \<and> pr_enabled p)"
  proof (cases "List.find (\<lambda>p. pr_id p = i) (rg_plugins rg)")
    case None
    then have "Find i rg = None" by (simp add: Find_find [OF ok])
    with None show ?thesis by (auto simp: IsEnabled_def find_None_iff)
  next
    case (Some r)
    then have r: "r \<in> set (rg_plugins rg)" "pr_id r = i" by (auto simp: find_Some_iff)
    have "inj_on pr_id (set (rg_plugins rg))" using d by (simp add: distinct_map)
    then have one: "p = r" if "p \<in> set (rg_plugins rg)" "pr_id p = i" for p
      using that r by (auto dest: inj_onD)
    have "Find i rg = Some r" using Some by (simp add: Find_find [OF ok])
    then have "IsEnabled i rg = pr_enabled r" by (simp add: IsEnabled_def)
    with r one show ?thesis by blast
  qed
  also have "\<dots> \<longleftrightarrow> i \<in> set (EnabledPluginIds rg)" by (auto simp: EnabledPluginIds_def)
  finally have "IsEnabled i rg \<longleftrightarrow> i \<in> set (EnabledPluginIds rg)" .
  moreover have "IsPluginEnabled i rg = IsEnabled i rg"
    by (simp add: IsPluginEnabled_def IsEnabled_def Find_def split: option.splits)
  ultimately show ?thesis using d Find_find [OF ok] by simp
qed

section \<open>Precedence\<close>

fun origin_rank :: "PluginOrigin \<Rightarrow> nat" where
  "origin_rank PluginManifests.kConfig = 0"
| "origin_rank kWorkspace = 1"
| "origin_rank kGlobal = 2"
| "origin_rank kBundled = 3"

lemma set_map_filter_Some: "c \<in> set (List.map_filter f xs) \<Longrightarrow> \<exists>x \<in> set xs. f x = Some c"
  by (fastforce simp: List.map_filter_def)

lemma scan_item_origin: "scan_item dir o1 x = Some c \<Longrightarrow> pc_origin c = o1"
  by (auto simp: scan_item_def split: option.splits if_splits prod.splits)

lemma scan_origin: "c \<in> set (scan_directory fs dir o1) \<Longrightarrow> pc_origin c = o1"
  using scan_item_origin by (auto simp: scan_directory_def split: option.splits dest!: set_map_filter_Some)

lemma candidates_sorted: "sorted (map (\<lambda>c. origin_rank (pc_origin c)) (discover_candidates fs home pc ws))"
proof -
  have part: "\<forall>c \<in> set (concat (map (\<lambda>p. scan_directory fs p o1) ps)). pc_origin c = o1" for o1 ps
    using scan_origin by fastforce
  have const: "(\<forall>c \<in> set cs. pc_origin c = o1) \<Longrightarrow> sorted (map (\<lambda>c. origin_rank (pc_origin c)) cs)" for cs o1
    by (induction cs) auto
  have one: "\<forall>c \<in> set (scan_directory fs d o1). pc_origin c = o1" for d o1 using scan_origin by blast
  show ?thesis
    unfolding discover_candidates_def Let_def
    using part const [OF part] const [OF one]
    by (auto simp: sorted_append dest!: scan_origin)
qed

lemma find_least:
  "sorted (map f xs) \<Longrightarrow> List.find P xs = Some x \<Longrightarrow> y \<in> set xs \<Longrightarrow> P y \<Longrightarrow> f x \<le> (f y :: nat)"
  by (induction xs) (auto split: if_splits)

text \<open>
  Every plugin that is found somewhere has a record, and the record is that of the place of highest
  precedence: the paths of the configuration, then the workspace, then the user's directory, then the bundled ones; it is
  enabled by the rules for that place.
\<close>

theorem discovery_precedence:
  assumes "cs = discover_candidates fs home pc ws"
  shows "case Find i (Discover fs home pc ws) of
      None \<Rightarrow> i \<notin> candidate_id ` set cs
    | Some r \<Rightarrow> (\<exists>c. List.find (\<lambda>c. candidate_id c = i) cs = Some c \<and> pr_origin r = pc_origin c \<and> pr_root_dir r = pc_root_dir c
        \<and> pr_enabled r = should_enable i (pc_origin c) pc
        \<and> (\<forall>c' \<in> set cs. candidate_id c' = i \<longrightarrow> origin_rank (pc_origin c) \<le> origin_rank (pc_origin c')))"
proof -
  define ids where "ids = sort (remdups (map candidate_id cs))"
  define rs where "rs = List.map_filter (\<lambda>i. map_option (make_record pc i) (List.find (\<lambda>c. candidate_id c = i) cs)) ids"
  have plugins: "rg_plugins (Discover fs home pc ws) = rs"
    by (simp add: Discover_def assms ids_def rs_def Let_def)
  have idsrs: "map pr_id rs = ids" unfolding rs_def by (rule discovered) (auto simp: ids_def)
  have found: "Find i (Discover fs home pc ws) = List.find (\<lambda>p. pr_id p = i) rs"
    using Find_find [OF Discover_ok] plugins by simp
  show ?thesis
  proof (cases "List.find (\<lambda>p. pr_id p = i) rs")
    case None
    then have "i \<notin> set (map pr_id rs)" by (auto simp: find_None_iff)
    then have "i \<notin> set ids" by (simp only: idsrs not_False_eq_True)
    then have "i \<notin> candidate_id ` set cs" by (simp add: ids_def)
    with None found show ?thesis by simp
  next
    case (Some r)
    then have r: "r \<in> set rs" "pr_id r = i" by (auto simp: find_Some_iff)
    then obtain j c where c: "List.find (\<lambda>c. candidate_id c = j) cs = Some c" "r = make_record pc j c"
      by (auto simp: rs_def List.map_filter_def)
    with r have j: "j = i" by simp
    have "\<forall>c' \<in> set cs. candidate_id c' = i \<longrightarrow> origin_rank (pc_origin c) \<le> origin_rank (pc_origin c')"
      using find_least [OF candidates_sorted, of "\<lambda>c. candidate_id c = i" fs home pc ws c] c(1) j assms by auto
    with c j Some found show ?thesis by auto
  qed
qed

section \<open>Names of tools\<close>

definition offers :: "string \<Rightarrow> PluginRecord \<Rightarrow> bool" where
  "offers t p \<longleftrightarrow> pr_enabled p \<and> t \<in> set (pr_tool_names p)"

lemma filter_one: "distinct xs \<Longrightarrow> map (\<lambda>_. a) (List.filter (\<lambda>n. n = t) xs) = (if t \<in> set xs then [a] else [])"
  by (induction xs) auto

lemma providers_once:
  "list_all (\<lambda>p. distinct (pr_tool_names p) \<and> distinct (pr_hook_names p)) (rg_plugins rg) \<Longrightarrow>
   providers_of pr_tool_names t rg = map pr_id (List.filter (offers t) (rg_plugins rg))"
proof -
  have "list_all (\<lambda>p. distinct (pr_tool_names p) \<and> distinct (pr_hook_names p)) ps \<Longrightarrow>
      concat (map (\<lambda>p. map (\<lambda>_. pr_id p) (List.filter (\<lambda>n. n = t) (pr_tool_names p))) (List.filter pr_enabled ps))
      = map pr_id (List.filter (offers t) ps)" for ps
    by (induction ps) (auto simp: offers_def filter_one)
  then show "list_all (\<lambda>p. distinct (pr_tool_names p) \<and> distinct (pr_hook_names p)) (rg_plugins rg) \<Longrightarrow> ?thesis"
    by (simp add: providers_of_def)
qed

lemma pairs_empty: "pairs xs = [] \<longleftrightarrow> length xs < 2"
  by (induction xs rule: pairs.induct) (auto simp: less_Suc_eq)

lemma two_offers: "2 \<le> length (List.filter P xs) \<Longrightarrow> distinct xs \<Longrightarrow> \<exists>p q. p \<in> set xs \<and> q \<in> set xs \<and> p \<noteq> q \<and> P p \<and> P q"
proof -
  assume two: "2 \<le> length (List.filter P xs)" and d: "distinct xs"
  then obtain p q r where f: "List.filter P xs = p # q # r"
    by (metis Suc_le_length_iff numeral_2_eq_2)
  then have "p \<in> set (List.filter P xs)" "q \<in> set (List.filter P xs)" by simp_all
  moreover have "p \<noteq> q" using f distinct_filter [OF d, of P] by simp
  ultimately show ?thesis by auto
qed

lemma offers_two: "p \<in> set xs \<Longrightarrow> q \<in> set xs \<Longrightarrow> p \<noteq> q \<Longrightarrow> P p \<Longrightarrow> P q \<Longrightarrow> 2 \<le> length (List.filter P xs)"
proof -
  assume "p \<in> set xs" "q \<in> set xs" "p \<noteq> q" "P p" "P q"
  then have "{p, q} \<subseteq> set (List.filter P xs)" "card {p, q} = 2" by auto
  then show ?thesis by (metis card_length card_mono List.finite_set le_trans)
qed

text \<open>
  In every run: a conflict about a tool is reported exactly when two enabled plugins offer it, and exactly then a
  plain name resolves to another one, that of the first of them.
\<close>

theorem tool_conflicts_reported:
  assumes "rg = foldl registry_next PluginRegistry_init es"
  shows "(list_ex (\<lambda>c. ci_type c = ''tool'' \<and> ci_resource_name c = t) (DetectConflicts rg) \<longleftrightarrow>
       (\<exists>p q. p \<in> set (rg_plugins rg) \<and> q \<in> set (rg_plugins rg) \<and> p \<noteq> q \<and> offers t p \<and> offers t q))
     \<and> ResolveToolName t rg = (if CHR ''.'' \<in> set t \<or> \<not> list_ex (\<lambda>c. ci_type c = ''tool'' \<and> ci_resource_name c = t) (DetectConflicts rg)
         then t else pr_id (hd (List.filter (offers t) (rg_plugins rg))) @ ''.'' @ t)"
proof -
  have ok: "registry_ok rg" using registry_run assms by simp
  let ?L = "List.filter (offers t) (rg_plugins rg)"
  have tools: "list_all (\<lambda>p. distinct (pr_tool_names p) \<and> distinct (pr_hook_names p)) (rg_plugins rg)"
    and d: "distinct (rg_plugins rg)" using ok by (auto simp: registry_ok_def distinct_map)
  note prov = providers_once [OF tools]
  have named: "t \<in> set (all_names pr_tool_names rg) \<longleftrightarrow> ?L \<noteq> []"
    by (auto simp: all_names_def offers_def filter_empty_conv)
  have "list_ex (\<lambda>c. ci_type c = ''tool'' \<and> ci_resource_name c = t) (DetectConflicts rg) \<longleftrightarrow>
      t \<in> set (all_names pr_tool_names rg) \<and> pairs (providers_of pr_tool_names t rg) \<noteq> []"
  proof -
    have "\<not> list_ex (\<lambda>c. ci_type c = ''tool'' \<and> ci_resource_name c = t) (hook_conflicts rg)"
      by (auto simp: hook_conflicts_def list_ex_iff split: list.splits)
    moreover have "list_ex (\<lambda>c. ci_type c = ''tool'' \<and> ci_resource_name c = t)
        (map (\<lambda>(a, b). \<lparr>ci_type = ''tool'', ci_plugin_a = a, ci_plugin_b = b, ci_resource_name = u, ci_description = dsc\<rparr>) ps)
        \<longleftrightarrow> u = t \<and> ps \<noteq> []" for u dsc ps
      by (induction ps) auto
    then have "list_ex (\<lambda>c. ci_type c = ''tool'' \<and> ci_resource_name c = t) (tool_conflicts rg) \<longleftrightarrow>
        (\<exists>u \<in> set (all_names pr_tool_names rg). u = t \<and> pairs (providers_of pr_tool_names u rg) \<noteq> [])"
      unfolding tool_conflicts_def list_ex_iff set_concat set_map by simp
    ultimately show ?thesis by (auto simp: DetectConflicts_def list_ex_append)
  qed
  also have "\<dots> \<longleftrightarrow> 2 \<le> length ?L" by (auto simp: named prov pairs_empty)
  finally have conflict: "list_ex (\<lambda>c. ci_type c = ''tool'' \<and> ci_resource_name c = t) (DetectConflicts rg) \<longleftrightarrow> 2 \<le> length ?L" .
  have "2 \<le> length ?L \<longleftrightarrow>
      (\<exists>p q. p \<in> set (rg_plugins rg) \<and> q \<in> set (rg_plugins rg) \<and> p \<noteq> q \<and> offers t p \<and> offers t q)"
    using two_offers [OF _ d, of "offers t"] offers_two [of _ "rg_plugins rg" _ "offers t"] by blast
  moreover have "ResolveToolName t rg = (if CHR ''.'' \<in> set t \<or> \<not> 2 \<le> length ?L then t else pr_id (hd ?L) @ ''.'' @ t)"
  proof -
    have "List.filter (\<lambda>p. pr_enabled p \<and> t \<in> set (pr_tool_names p)) (rg_plugins rg) = ?L"
      by (simp add: offers_def [abs_def])
    then show ?thesis by (auto simp: ResolveToolName_def split: list.splits)
  qed
  ultimately show ?thesis by (simp add: conflict)
qed

section \<open>Enabling\<close>

text \<open>
  The rules that enable a plugin, in their order: the global switch, the deny list and a non-empty allow list
  forbid; then the memory slot enables, whatever the plugin's own entry says; then that entry decides; without
  one, all but the bundled plugins are on, and of those the three defaults.
\<close>

definition forbidden :: "jval \<Rightarrow> string \<times> PluginOrigin \<Rightarrow> bool" where
  "forbidden pc x \<longleftrightarrow> member_of pc ''enabled'' = Some (JvBool False) \<or> text_in (fst x) pc ''deny''
     \<or> (\<exists>xs. member_of pc ''allow'' = Some (JvArray xs) \<and> xs \<noteq> [] \<and> JvText (fst x) \<notin> set xs)"

definition own_switch :: "jval \<Rightarrow> string \<Rightarrow> jval option" where
  "own_switch pc i = Option.bind (member_of pc ''entries'') (\<lambda>es. Option.bind (member_of es i) (\<lambda>e. member_of e ''enabled''))"

definition switched_on :: "jval \<Rightarrow> string \<times> PluginOrigin \<Rightarrow> bool" where
  "switched_on pc x \<longleftrightarrow> Option.bind (member_of pc ''slots'') (\<lambda>s. member_of s ''memory'') = Some (JvText (fst x))
     \<or> own_switch pc (fst x) = Some (JvBool True)
     \<or> (\<forall>b. own_switch pc (fst x) \<noteq> Some (JvBool b)) \<and> (snd x = kBundled \<longrightarrow> fst x \<in> set kBundledEnabledByDefault)"

lemma text_in_array: "member_of pc k = Some (JvArray xs) \<Longrightarrow> text_in s pc k \<longleftrightarrow> JvText s \<in> set xs"
  by (force simp: text_in_def text_members_def List.map_filter_def as_text_iff)

lemma should_enable_rules: "should_enable i o1 pc \<longleftrightarrow> \<not> forbidden pc (i, o1) \<and> switched_on pc (i, o1)"
proof -
  have allow: "(case member_of pc ''allow'' of Some (JvArray xs) \<Rightarrow> xs \<noteq> [] \<and> \<not> text_in i pc ''allow'' | _ \<Rightarrow> False)
      \<longleftrightarrow> (\<exists>xs. member_of pc ''allow'' = Some (JvArray xs) \<and> xs \<noteq> [] \<and> JvText i \<notin> set xs)"
    by (auto simp: text_in_array split: option.splits jval.splits)
  have own: "(case member_of pc ''entries'' of None \<Rightarrow> None
                  | Some es \<Rightarrow> (case member_of es i of None \<Rightarrow> None | Some e \<Rightarrow> member_of e ''enabled'')) = own_switch pc i"
    by (auto simp: own_switch_def split: option.splits)
  have slot: "(case member_of pc ''slots'' of Some s \<Rightarrow> member_of s ''memory'' = Some (JvText i) | None \<Rightarrow> False)
      \<longleftrightarrow> Option.bind (member_of pc ''slots'') (\<lambda>s. member_of s ''memory'') = Some (JvText i)"
    by (auto split: option.splits)
  show ?thesis
    unfolding should_enable_def allow own slot forbidden_def switched_on_def fst_conv snd_conv
    by (cases "own_switch pc i") (auto split: jval.splits)
qed

interpretation plugin_rules: deny_first forbidden switched_on "\<lambda>pc (i, o1). should_enable i o1 pc"
  by unfold_locales (auto simp: should_enable_rules)

definition demo_manifest :: "string \<Rightarrow> json_file" where
  "demo_manifest i = FileJson (JvObject [(''id'', JvText i), (''version'', JvText ''1.0.0'')])"

definition demo_dirs :: directories where
  "demo_dirs d = (if d = ''/w/.ravbot/plugins'' then
       Some [\<lparr>di_name = ''a'', di_is_directory = True, di_openclaw = None, di_ravbot = Some (demo_manifest ''notes''), di_package = None\<rparr>]
     else if d = ''/h/.ravbot/plugins'' then
       Some [\<lparr>di_name = ''b'', di_is_directory = True, di_openclaw = Some (demo_manifest ''notes''), di_ravbot = None, di_package = None\<rparr>,
         \<lparr>di_name = ''c'', di_is_directory = True, di_openclaw = Some (demo_manifest ''mail''), di_ravbot = None, di_package = None\<rparr>]
     else None)"

definition demo_report :: jval where
  "demo_report = JvObject [(''plugins'', JvArray [JvObject [(''id'', JvText ''notes''), (''tools'', JvArray [JvText ''find''])],
     JvObject [(''id'', JvText ''mail''), (''tools'', JvArray [JvText ''find'', JvText ''send''])]])]"

definition demo_registry :: PluginRegistry where
  "demo_registry = foldl registry_next PluginRegistry_init
     [DiscoverEvent demo_dirs (Some ''/h'') JvNull ''/w'', ReportEvent (\<lambda>_. 0) demo_report]"

theorem registry_consistent_witness:
  "Find ''mail'' demo_registry = List.find (\<lambda>p. pr_id p = ''mail'') (rg_plugins demo_registry)"
  using registry_consistent [OF demo_registry_def, of "''mail''"] by simp

theorem discovery_precedence_witness:
  "map_option pr_root_dir (Find ''notes'' (Discover demo_dirs (Some ''/h'') JvNull ''/w'')) = Some ''/w/.ravbot/plugins/a''"
proof -
  let ?cs = "discover_candidates demo_dirs (Some ''/h'') JvNull ''/w''"
  have "map_option pc_root_dir (List.find (\<lambda>c. candidate_id c = ''notes'') ?cs) = Some ''/w/.ravbot/plugins/a''" by code_simp
  then obtain c where c: "List.find (\<lambda>c. candidate_id c = ''notes'') ?cs = Some c" "pc_root_dir c = ''/w/.ravbot/plugins/a''" by auto
  then have "''notes'' \<in> candidate_id ` set ?cs" by (auto simp: find_Some_iff image_iff intro!: bexI [of _ c])
  with discovery_precedence [OF refl, of "''notes''" demo_dirs "Some ''/h''" JvNull "''/w''"] c
  show ?thesis by (auto split: option.splits)
qed

theorem tool_conflicts_reported_witness:
  "ResolveToolName ''find'' demo_registry = ''mail.find'' \<and> ResolveToolName ''send'' demo_registry = ''send''"
proof -
  have "list_ex (\<lambda>c. ci_type c = ''tool'' \<and> ci_resource_name c = ''find'') (DetectConflicts demo_registry)"
    "\<not> list_ex (\<lambda>c. ci_type c = ''tool'' \<and> ci_resource_name c = ''send'') (DetectConflicts demo_registry)"
    "pr_id (hd (List.filter (offers ''find'') (rg_plugins demo_registry))) = ''mail''" by code_simp+
  with tool_conflicts_reported [OF demo_registry_def, of "''find''"] tool_conflicts_reported [OF demo_registry_def, of "''send''"]
  show ?thesis by simp
qed

end
