(* ===== verification/McpServer.thy ===== *)
theory McpServer
  imports Json
begin

text \<open>
  The server of the model context protocol (\<open>mcp/mcp_server.cpp\<close>): registration of tools, resources
  and prompts, and the handling of a request. What a tool, a reader or a renderer does is part of its record:
  a value, or the text of an exception. \<open>lw\<close> is the text of an exception of the JSON library.
  An access that the library leaves undefined is the result \<open>None\<close>. The theorems give the form of every answer,
  when the behaviour is undefined, and what calls and lists answer after any registrations.
\<close>

section \<open>Tools, resources and prompts\<close>

record Parameter =
  pa_name :: string
  pa_type :: string
  pa_description :: string
  pa_required :: bool

record MCPTool =
  mt_name :: string
  mt_description :: string
  mt_parameters :: "Parameter list"
  mt_execute :: "jval \<Rightarrow> string + string"

definition MCPTool_new :: "string \<Rightarrow> string \<Rightarrow> (jval \<Rightarrow> string + string) \<Rightarrow> MCPTool" where
  "MCPTool_new name description execute =
     \<lparr>mt_name = name, mt_description = description, mt_parameters = [], mt_execute = execute\<rparr>"

definition AddParameter :: "string \<Rightarrow> string \<Rightarrow> string \<Rightarrow> bool \<Rightarrow> MCPTool \<Rightarrow> MCPTool" where
  "AddParameter name type description required t = t\<lparr>mt_parameters := mt_parameters t @
     [\<lparr>pa_name = name, pa_type = type, pa_description = description, pa_required = required\<rparr>]\<rparr>"

definition parameter_property :: "Parameter \<Rightarrow> jval" where
  "parameter_property p = JvObject [(''type'', JvText (pa_type p)), (''description'', JvText (pa_description p))]"

definition GetSchema :: "MCPTool \<Rightarrow> jval" where
  "GetSchema t = JvObject
     [(''name'', JvText (mt_name t)), (''description'', JvText (mt_description t)),
      (''inputSchema'', JvObject
         [(''type'', JvText ''object''),
          (''properties'', JvObject (foldl (\<lambda>ps p. AList.update (pa_name p) (parameter_property p) ps) [] (mt_parameters t))),
          (''required'', JvArray (map (\<lambda>p. JvText (pa_name p)) (List.filter pa_required (mt_parameters t))))])]"

record MCPResource =
  mr_uri :: string
  mr_name :: string
  mr_description :: string
  mr_mime_type :: string
  mr_reader :: "(string + string) option"

record PromptArgument =
  ra_name :: string
  ra_description :: string
  ra_required :: bool

record MCPPrompt =
  mp_name :: string
  mp_description :: string
  mp_arguments :: "PromptArgument list"
  mp_renderer :: "(jval \<Rightarrow> string + jval) option"

record MCPServer =
  sv_tools :: "(string, MCPTool) umap"
  sv_resources :: "(string, MCPResource) umap"
  sv_prompts :: "(string, MCPPrompt) umap"

definition MCPServer_init :: MCPServer where
  "MCPServer_init = \<lparr>sv_tools = [], sv_resources = [], sv_prompts = []\<rparr>"

definition RegisterTool :: "MCPTool \<Rightarrow> MCPServer \<Rightarrow> MCPServer" where
  "RegisterTool t s = s\<lparr>sv_tools := AList.update (mt_name t) t (sv_tools s)\<rparr>"

definition RegisterResource :: "MCPResource \<Rightarrow> MCPServer \<Rightarrow> MCPServer" where
  "RegisterResource r s = s\<lparr>sv_resources := AList.update (mr_uri r) r (sv_resources s)\<rparr>"

definition RegisterPrompt :: "MCPPrompt \<Rightarrow> MCPServer \<Rightarrow> MCPServer" where
  "RegisterPrompt p s = s\<lparr>sv_prompts := AList.update (mp_name p) p (sv_prompts s)\<rparr>"

section \<open>Requests\<close>

definition create_success_response :: "jval \<Rightarrow> jval \<Rightarrow> jval" where
  "create_success_response ident result =
     JvObject [(''jsonrpc'', JvText ''2.0''), (''id'', ident), (''result'', result)]"

definition create_error_response :: "jval \<Rightarrow> int \<Rightarrow> string \<Rightarrow> jval" where
  "create_error_response ident code message =
     JvObject [(''jsonrpc'', JvText ''2.0''), (''id'', ident),
       (''error'', JvObject [(''code'', JvInt code), (''message'', JvText message)])]"

definition handle_initialize :: "jval \<Rightarrow> jval" where
  "handle_initialize ident = create_success_response ident (JvObject
     [(''protocolVersion'', JvText ''2024-11-05''),
      (''capabilities'', JvObject [(''tools'', JvObject []), (''resources'', JvObject []), (''prompts'', JvObject [])]),
      (''serverInfo'', JvObject [(''name'', JvText ''ravbot''), (''version'', JvText ''0.3.0'')])])"

definition handle_list_tools :: "MCPServer \<Rightarrow> jval \<Rightarrow> jval" where
  "handle_list_tools s ident = create_success_response ident
     (JvObject [(''tools'', JvArray (map (GetSchema \<circ> snd) (sv_tools s)))])"

text \<open>
  The subscript of a constant value: it throws on what is no object, and is undefined when
  an object has no such member.
\<close>

datatype subscript = Found jval | Throws | Undefined

fun const_at :: "jval \<Rightarrow> string \<Rightarrow> subscript" where
  "const_at (JvObject m) k = (case map_of m k of Some v \<Rightarrow> Found v | None \<Rightarrow> Undefined)"
| "const_at _ k = Throws"

definition then_at :: "subscript \<Rightarrow> (jval \<Rightarrow> subscript) \<Rightarrow> subscript" where
  "then_at a f = (case a of Found v \<Rightarrow> f v | Throws \<Rightarrow> Throws | Undefined \<Rightarrow> Undefined)"

definition tool_failed :: "jval \<Rightarrow> string \<Rightarrow> jval" where
  "tool_failed ident what = create_error_response ident (- 32603) (''Tool execution failed: '' @ what)"

definition handle_call_tool :: "string \<Rightarrow> MCPServer \<Rightarrow> jval \<Rightarrow> jval \<Rightarrow> jval option" where
  "handle_call_tool lw s request ident =
     (case then_at (const_at request ''params'') (\<lambda>p. const_at p ''name'') of
        Undefined \<Rightarrow> None
      | Throws \<Rightarrow> Some (tool_failed ident lw)
      | Found n \<Rightarrow> (case as_text n of
          None \<Rightarrow> Some (tool_failed ident lw)
        | Some tool_name \<Rightarrow>
            (case then_at (const_at request ''params'') (\<lambda>p. const_at p ''arguments'') of
               Undefined \<Rightarrow> None
             | Throws \<Rightarrow> Some (tool_failed ident lw)
             | Found arguments \<Rightarrow> Some
                 (case map_of (sv_tools s) tool_name of
                    None \<Rightarrow> create_error_response ident (- 32602) (''Tool not found: '' @ tool_name)
                  | Some t \<Rightarrow> (case mt_execute t arguments of
                      Inl what \<Rightarrow> tool_failed ident what
                    | Inr result \<Rightarrow> create_success_response ident
                        (JvObject [(''content'', JvArray [JvObject [(''type'', JvText ''text''), (''text'', JvText result)]])]))))))"

definition resource_entry :: "MCPResource \<Rightarrow> jval" where
  "resource_entry r = JvObject ([(''uri'', JvText (mr_uri r)), (''name'', JvText (mr_name r))]
     @ put_if (mr_description r \<noteq> []) ''description'' (JvText (mr_description r))
     @ put_if (mr_mime_type r \<noteq> []) ''mimeType'' (JvText (mr_mime_type r)))"

definition handle_list_resources :: "MCPServer \<Rightarrow> jval \<Rightarrow> jval" where
  "handle_list_resources s ident = create_success_response ident
     (JvObject [(''resources'', JvArray (map (resource_entry \<circ> snd) (sv_resources s)))])"

text \<open>The text of a required parameter, if the request has it.\<close>

definition text_param :: "jval \<Rightarrow> string \<Rightarrow> string option" where
  "text_param request k =
     (case member_of request ''params'' of
        Some p \<Rightarrow> Option.bind (member_of p k) as_text | None \<Rightarrow> None)"

definition handle_read_resource :: "MCPServer \<Rightarrow> jval \<Rightarrow> jval \<Rightarrow> jval" where
  "handle_read_resource s request ident =
     (case text_param request ''uri'' of
        None \<Rightarrow> create_error_response ident (- 32602) ''Missing required param: uri''
      | Some uri \<Rightarrow> (case map_of (sv_resources s) uri of
          None \<Rightarrow> create_error_response ident (- 32602) (''Resource not found: '' @ uri)
        | Some r \<Rightarrow> (case value_or (mr_reader r) (Inr []) of
            Inl what \<Rightarrow> create_error_response ident (- 32603) (''Resource read failed: '' @ what)
          | Inr content \<Rightarrow> create_success_response ident (JvObject [(''contents'', JvArray [JvObject
              [(''uri'', JvText uri),
               (''mimeType'', JvText (if mr_mime_type r = [] then ''text/plain'' else mr_mime_type r)),
               (''text'', JvText content)]])]))))"

definition prompt_entry :: "MCPPrompt \<Rightarrow> jval" where
  "prompt_entry p = JvObject ([(''name'', JvText (mp_name p))]
     @ put_if (mp_description p \<noteq> []) ''description'' (JvText (mp_description p))
     @ [(''arguments'', JvArray (map (\<lambda>a. JvObject [(''name'', JvText (ra_name a)),
          (''description'', JvText (ra_description a)), (''required'', JvBool (ra_required a))]) (mp_arguments p)))])"

definition handle_list_prompts :: "MCPServer \<Rightarrow> jval \<Rightarrow> jval" where
  "handle_list_prompts s ident = create_success_response ident
     (JvObject [(''prompts'', JvArray (map (prompt_entry \<circ> snd) (sv_prompts s)))])"

definition handle_get_prompt :: "MCPServer \<Rightarrow> jval \<Rightarrow> jval \<Rightarrow> jval" where
  "handle_get_prompt s request ident =
     (case text_param request ''name'' of
        None \<Rightarrow> create_error_response ident (- 32602) ''Missing required param: name''
      | Some name \<Rightarrow> (case map_of (sv_prompts s) name of
          None \<Rightarrow> create_error_response ident (- 32602) (''Prompt not found: '' @ name)
        | Some p \<Rightarrow>
            (let args = value_or (Option.bind (member_of request ''params'') (\<lambda>ps. member_of ps ''arguments'')) (JvObject [])
             in case (case mp_renderer p of Some f \<Rightarrow> f args | None \<Rightarrow> Inr (JvArray [])) of
                  Inl what \<Rightarrow> create_error_response ident (- 32603) (''Prompt render failed: '' @ what)
                | Inr messages \<Rightarrow> create_success_response ident (JvObject
                    [(''description'', JvText (mp_description p)), (''messages'', messages)]))))"

definition HandleRequest :: "string \<Rightarrow> MCPServer \<Rightarrow> jval \<Rightarrow> jval option" where
  "HandleRequest lw s request =
     (case value_text request ''method'' [] of
        None \<Rightarrow> Some (create_error_response JvNull (- 32603) ''Internal error'')
      | Some m \<Rightarrow>
          (let ident = value_or (member_of request ''id'') JvNull
           in if m = ''initialize'' then Some (handle_initialize ident)
              else if m = ''tools/list'' \<or> m = ''list_tools'' then Some (handle_list_tools s ident)
              else if m = ''tools/call'' \<or> m = ''call_tool'' then handle_call_tool lw s request ident
              else if m = ''resources/list'' then Some (handle_list_resources s ident)
              else if m = ''resources/read'' then Some (handle_read_resource s request ident)
              else if m = ''prompts/list'' then Some (handle_list_prompts s ident)
              else if m = ''prompts/get'' then Some (handle_get_prompt s request ident)
              else Some (create_error_response ident (- 32601) ''Method not found'')))"

section \<open>The form of answers\<close>

definition is_answer :: "jval \<Rightarrow> jval \<Rightarrow> bool" where
  "is_answer ident r \<longleftrightarrow> member_of r ''jsonrpc'' = Some (JvText ''2.0'') \<and> member_of r ''id'' = Some ident
     \<and> has_member r ''result'' \<noteq> has_member r ''error''"

named_theorems mcp_defs \<open>the handlers of the server\<close>

lemmas [mcp_defs] = handle_initialize_def handle_list_tools_def handle_list_resources_def handle_list_prompts_def
  handle_read_resource_def handle_get_prompt_def handle_call_tool_def tool_failed_def

lemma answers: "is_answer ident (create_success_response ident v)" "is_answer ident (create_error_response ident c m)"
  by (simp_all add: is_answer_def create_success_response_def create_error_response_def member_of_def has_member_def)

lemma handlers_answer:
  shows "is_answer ident (handle_initialize ident)" "is_answer ident (handle_list_tools s ident)"
    and "is_answer ident (handle_list_resources s ident)" "is_answer ident (handle_list_prompts s ident)"
    and "is_answer ident (handle_read_resource s request ident)" "is_answer ident (handle_get_prompt s request ident)"
    and "handle_call_tool lw s request ident = Some r \<Longrightarrow> is_answer ident r"
  by (auto simp: mcp_defs answers Let_def split: option.splits sum.splits subscript.splits)

text \<open>
  Every answer is of version 2.0, has either a result or an error, and carries the identifier of the
  request, unless the request is no object or its method no text: then the identifier is lost.
\<close>

theorem answer_form:
  assumes "HandleRequest lw s request = Some r"
  shows "is_answer (if value_text request ''method'' [] = None then JvNull
    else value_or (member_of request ''id'') JvNull) r"
  using assms handlers_answer answers
  by (auto simp: HandleRequest_def Let_def split: option.splits if_splits)

theorem answer_form_witness:
  "is_answer (JvInt 7) (create_error_response (JvInt 7) (- 32601) ''Method not found'')"
  using answer_form [of "[]" MCPServer_init "JvObject [(''id'', JvInt 7), (''method'', JvText ''x'')]"
      "create_error_response (JvInt 7) (- 32601) ''Method not found''"]
  by (simp add: HandleRequest_def value_text_def value_as_def member_of_def)

text \<open>
  A call reads its parameters by subscripts of a constant value: without the parameters, without a
  name in them, or without arguments, which the protocol makes optional, the behaviour is undefined.
  No other request is.
\<close>

theorem undefined_requests:
  "HandleRequest lw s request = None \<longleftrightarrow>
     (value_text request ''method'' [] = Some ''tools/call'' \<or> value_text request ''method'' [] = Some ''call_tool'')
     \<and> (member_of request ''params'' = None
        \<or> (\<exists>ps. member_of request ''params'' = Some (JvObject ps)
            \<and> (map_of ps ''name'' = None \<or> (\<exists>n. map_of ps ''name'' = Some (JvText n)) \<and> map_of ps ''arguments'' = None)))"
proof -
  have call: "handle_call_tool lw s (JvObject m) ident = None \<longleftrightarrow>
      (map_of m ''params'' = None \<or> (\<exists>ps. map_of m ''params'' = Some (JvObject ps)
        \<and> (map_of ps ''name'' = None \<or> (\<exists>n. map_of ps ''name'' = Some (JvText n)) \<and> map_of ps ''arguments'' = None)))"
    for m ident
  proof (cases "map_of m ''params''")
    case (Some p)
    then show ?thesis
      by (cases p) (auto simp: handle_call_tool_def then_at_def as_text_iff split: option.splits)
  qed (simp add: handle_call_tool_def then_at_def)
  show ?thesis
  proof (cases request)
    case (JvObject m)
    then show ?thesis
      by (auto simp: HandleRequest_def Let_def call member_of_def split: option.splits)
  qed (simp_all add: HandleRequest_def value_text_def value_as_def)
qed

section \<open>Registrations\<close>

datatype registration = Tool MCPTool | Resource MCPResource | Prompt MCPPrompt

fun register_in :: "MCPServer \<Rightarrow> registration \<Rightarrow> MCPServer" where
  "register_in s (Tool t) = RegisterTool t s"
| "register_in s (Resource r) = RegisterResource r s"
| "register_in s (Prompt p) = RegisterPrompt p s"

fun tools_in :: "registration list \<Rightarrow> MCPTool list" where
  "tools_in [] = []"
| "tools_in (Tool t # rs) = t # tools_in rs"
| "tools_in (_ # rs) = tools_in rs"

definition latest_tool :: "registration list \<Rightarrow> string \<Rightarrow> MCPTool option" where
  "latest_tool rs n = find (\<lambda>t. mt_name t = n) (rev (tools_in rs))"

lemma tools_in_snoc: "tools_in (rs @ [r]) = tools_in rs @ tools_in [r]"
  by (induction rs rule: tools_in.induct) auto

definition tools_named :: "(string, MCPTool) umap \<Rightarrow> bool" where
  "tools_named m \<longleftrightarrow> um_ok m \<and> list_all (\<lambda>(n, t). n = mt_name t) m"

lemma tools_named_update: "tools_named m \<Longrightarrow> tools_named (AList.update (mt_name t) t m)"
proof -
  have "list_all (\<lambda>(n, t). n = mt_name t) m \<Longrightarrow> list_all (\<lambda>(n, t). n = mt_name t) (AList.update (mt_name t) t m)"
    by (induction m) auto
  then show "tools_named m \<Longrightarrow> ?thesis" by (simp add: tools_named_def)
qed

lemma registered:
  "map_of (sv_tools (foldl register_in MCPServer_init rs)) n = latest_tool rs n
   \<and> tools_named (sv_tools (foldl register_in MCPServer_init rs))"
proof (induction rs rule: rev_induct)
  case Nil
  show ?case by (simp add: MCPServer_init_def latest_tool_def tools_named_def)
next
  case (snoc r rs)
  then show ?case
    by (cases r) (auto simp: RegisterTool_def RegisterResource_def RegisterPrompt_def latest_tool_def tools_in_snoc
        map_of_update intro: tools_named_update)
qed

definition call_request :: "jval \<Rightarrow> string \<Rightarrow> jval \<Rightarrow> jval" where
  "call_request ident n args = JvObject [(''jsonrpc'', JvText ''2.0''), (''method'', JvText ''tools/call''),
     (''params'', JvObject [(''name'', JvText n), (''arguments'', args)]), (''id'', ident)]"

definition list_request :: "jval \<Rightarrow> jval" where
  "list_request ident = JvObject [(''jsonrpc'', JvText ''2.0''), (''method'', JvText ''tools/list''), (''id'', ident)]"

lemma server_calls:
  "HandleRequest lw (foldl register_in MCPServer_init rs) (call_request ident n args) = Some
     (case latest_tool rs n of
        None \<Rightarrow> create_error_response ident (- 32602) (''Tool not found: '' @ n)
      | Some t \<Rightarrow> (case mt_execute t args of
          Inl what \<Rightarrow> tool_failed ident what
        | Inr result \<Rightarrow> create_success_response ident
            (JvObject [(''content'', JvArray [JvObject [(''type'', JvText ''text''), (''text'', JvText result)]])])))"
  using registered [of rs n] by (simp add: HandleRequest_def call_request_def value_text_def value_as_def member_of_def
      handle_call_tool_def then_at_def)

lemma latest_tool_listed:
  "\<exists>ts. HandleRequest lw (foldl register_in MCPServer_init rs) (list_request ident)
      = Some (create_success_response ident (JvObject [(''tools'', JvArray (map GetSchema ts))]))
    \<and> distinct (map mt_name ts) \<and> set ts = {t. latest_tool rs (mt_name t) = Some t}"
proof -
  let ?s = "foldl register_in MCPServer_init rs"
  note reg = registered [of rs]
  have named: "\<And>k t. (k, t) \<in> set (sv_tools ?s) \<Longrightarrow> k = mt_name t" and ok: "um_ok (sv_tools ?s)"
    using reg by (auto simp: tools_named_def list_all_iff)
  have keys: "map mt_name (map snd (sv_tools ?s)) = map fst (sv_tools ?s)" unfolding map_map by (rule map_cong) (auto dest: named)
  show "\<exists>ts. HandleRequest lw ?s (list_request ident)
          = Some (create_success_response ident (JvObject [(''tools'', JvArray (map GetSchema ts))]))
        \<and> distinct (map mt_name ts) \<and> set ts = {t. latest_tool rs (mt_name t) = Some t}"
  proof (intro exI conjI)
    show "HandleRequest lw ?s (list_request ident)
        = Some (create_success_response ident (JvObject [(''tools'', JvArray (map GetSchema (map snd (sv_tools ?s))))]))"
      by (simp add: HandleRequest_def list_request_def value_text_def value_as_def member_of_def handle_list_tools_def)
    show "distinct (map mt_name (map snd (sv_tools ?s)))" using ok by (simp add: keys um_ok_def del: map_map)
    have "t \<in> snd ` set (sv_tools ?s) \<longleftrightarrow> (mt_name t, t) \<in> set (sv_tools ?s)" for t
    proof
      assume "t \<in> snd ` set (sv_tools ?s)"
      then obtain k where "(k, t) \<in> set (sv_tools ?s)" by auto
      then show "(mt_name t, t) \<in> set (sv_tools ?s)" using named by blast
    qed (auto intro: rev_image_eqI)
    then have "t \<in> snd ` set (sv_tools ?s) \<longleftrightarrow> latest_tool rs (mt_name t) = Some t" for t
      using um_ok_mem [OF ok] conjunct1 [OF reg] by metis
    then show "set (map snd (sv_tools ?s)) = {t. latest_tool rs (mt_name t) = Some t}" by auto
  qed
qed

text \<open>
  After any registrations a call runs the tool registered last under the name, and the list has the schema
  of exactly these tools, each once.
\<close>

theorem calls_latest_tool:
  "HandleRequest lw (foldl register_in MCPServer_init rs) (call_request ident n args) = Some
     (case latest_tool rs n of
        None \<Rightarrow> create_error_response ident (- 32602) (''Tool not found: '' @ n)
      | Some t \<Rightarrow> (case mt_execute t args of
          Inl what \<Rightarrow> tool_failed ident what
        | Inr result \<Rightarrow> create_success_response ident
            (JvObject [(''content'', JvArray [JvObject [(''type'', JvText ''text''), (''text'', JvText result)]])])))
   \<and> (\<exists>ts. HandleRequest lw (foldl register_in MCPServer_init rs) (list_request ident)
          = Some (create_success_response ident (JvObject [(''tools'', JvArray (map GetSchema ts))]))
        \<and> distinct (map mt_name ts) \<and> set ts = {t. latest_tool rs (mt_name t) = Some t})"
  using server_calls latest_tool_listed by blast

end
