(* ===== verification/ConfigFile.thy ===== *)
theory ConfigFile
  imports Json "HOL-Library.Sublist"
begin

text \<open>
  The configuration file (\<open>core/config.cpp\<close>): substitution of environment variables, removal of
  comments and trailing commas, and the operations that read, change and write the file.
  Parsing and printing of JSON are functions of the library and hence arguments. The theorems compare
  the preprocessing with its meaning on segments of a text and state what changing a value does.
\<close>

section \<open>Environment variables\<close>

text \<open>\<open>${VAR}\<close> at the beginning of a text: the name, not empty, and what follows the brace.\<close>

definition env_reference :: "string \<Rightarrow> (string \<times> string) option" where
  "env_reference s =
     (let name = takeWhile (\<lambda>c. c \<noteq> CHR ''}'') (drop 2 s);
          rest = dropWhile (\<lambda>c. c \<noteq> CHR ''}'') (drop 2 s)
      in if is_prefix ''${'' s \<and> name \<noteq> [] \<and> rest \<noteq> [] then Some (name, tl rest) else None)"

text \<open>\<open>getenv\<close> reads the name up to a zero byte; an unset variable counts as empty.\<close>

definition env_value :: "(string \<Rightarrow> string option) \<Rightarrow> string \<Rightarrow> string" where
  "env_value env name = value_or (env (takeWhile (\<lambda>c. c \<noteq> CHR 0x00) name)) []"

lemma env_reference_shorter: "env_reference s = Some (name, rest) \<Longrightarrow> length rest < length s"
  using length_dropWhile_le [of "\<lambda>c. c \<noteq> CHR ''}''" "drop 2 s"]
  by (auto simp: env_reference_def Let_def is_prefix_iff split: if_splits)

function substitute_env_vars :: "(string \<Rightarrow> string option) \<Rightarrow> string \<Rightarrow> string" where
  "substitute_env_vars env [] = []"
| "substitute_env_vars env (c # cs) =
     (case env_reference (c # cs) of
        None \<Rightarrow> c # substitute_env_vars env cs
      | Some (name, rest) \<Rightarrow> env_value env name @ substitute_env_vars env rest)"
  by pat_completeness auto
termination
  by (relation "measure (\<lambda>(env, s). length s)") (auto dest: env_reference_shorter)

fun expand_env_in_json :: "(string \<Rightarrow> string option) \<Rightarrow> jval \<Rightarrow> jval" where
  "expand_env_in_json env (JvText s) =
     JvText (if str_contains ''${'' s then substitute_env_vars env s else s)"
| "expand_env_in_json env (JvObject m) = JvObject (map (\<lambda>(k, v). (k, expand_env_in_json env v)) m)"
| "expand_env_in_json env (JvArray xs) = JvArray (map (expand_env_in_json env) xs)"
| "expand_env_in_json env j = j"

section \<open>Comments and trailing commas\<close>

text \<open>The first loop of \<open>strip_json5\<close>, one function for each place in which it can be.\<close>

fun strip_comments :: "string \<Rightarrow> string"
  and strip_literal :: "string \<Rightarrow> string"
  and strip_line_comment :: "string \<Rightarrow> string"
  and strip_block_comment :: "string \<Rightarrow> string" where
  "strip_comments [] = []"
| "strip_comments (c # cs) =
     (if c = CHR 0x22 then c # strip_literal cs
      else if c = CHR ''/'' \<and> cs \<noteq> [] \<and> hd cs = CHR ''/'' then strip_line_comment (tl cs)
      else if c = CHR ''/'' \<and> cs \<noteq> [] \<and> hd cs = CHR ''*'' then strip_block_comment (tl cs)
      else c # strip_comments cs)"
| "strip_literal [] = []"
| "strip_literal (c # cs) =
     (if c = CHR 0x22 then c # strip_comments cs
      else if c = CHR 0x5C \<and> cs \<noteq> [] then c # hd cs # strip_literal (tl cs)
      else c # strip_literal cs)"
| "strip_line_comment [] = []"
| "strip_line_comment (c # cs) =
     (if c = CHR 0x0A then c # strip_comments cs else strip_line_comment cs)"
| "strip_block_comment [] = []"
| "strip_block_comment (c # cs) =
     (if cs = [] then strip_comments [c]
      else if c = CHR ''*'' \<and> hd cs = CHR ''/'' then strip_comments (tl cs)
      else strip_block_comment cs)"

text \<open>The second loop: a comma before a closing bracket goes; it does not look at quotes.\<close>

definition json_blank :: "char \<Rightarrow> bool" where
  "json_blank c \<longleftrightarrow> c = CHR '' '' \<or> c = CHR 0x09 \<or> c = CHR 0x0A \<or> c = CHR 0x0D"

definition closer_next :: "string \<Rightarrow> bool" where
  "closer_next s = (case dropWhile json_blank s of [] \<Rightarrow> False | c # _ \<Rightarrow> c = CHR ''}'' \<or> c = CHR '']'')"

fun strip_trailing_commas :: "string \<Rightarrow> string" where
  "strip_trailing_commas [] = []"
| "strip_trailing_commas (c # cs) =
     (if c = CHR '','' \<and> closer_next cs then strip_trailing_commas cs else c # strip_trailing_commas cs)"

definition strip_json5 :: "string \<Rightarrow> string" where
  "strip_json5 s = strip_trailing_commas (strip_comments s)"

section \<open>Paths with dots\<close>

lemma dropWhile_tl_shorter: "length (dropWhile P s) - Suc 0 < Suc (length s)"
  using length_dropWhile_le [of P s] by linarith

function split_dot_path :: "string \<Rightarrow> string list" where
  "split_dot_path [] = []"
| "split_dot_path (c # cs) =
     (let part = takeWhile (\<lambda>x. x \<noteq> CHR ''.'') (c # cs); rest = dropWhile (\<lambda>x. x \<noteq> CHR ''.'') (c # cs)
      in if rest = [] then [part] else part # split_dot_path (tl rest))"
  by pat_completeness auto
termination
  by (relation "measure length") (auto simp: dropWhile_tl_shorter)

text \<open>Assignment to a member: null becomes an object, any other value throws.\<close>

fun assign_member :: "jval \<Rightarrow> string \<Rightarrow> jval \<Rightarrow> jval option" where
  "assign_member (JvObject m) k v = Some (JvObject (AList.update k v m))"
| "assign_member JvNull k v = Some (JvObject [(k, v)])"
| "assign_member _ k v = None"

fun is_object :: "jval \<Rightarrow> bool" where
  "is_object (JvObject m) = True"
| "is_object _ = False"

text \<open>The walk of \<open>SetValue\<close>: what is missing or no object on the way becomes an empty object.\<close>

definition object_at :: "jval \<Rightarrow> string \<Rightarrow> jval" where
  "object_at j k = (case member_of j k of Some (JvObject m) \<Rightarrow> JvObject m | _ \<Rightarrow> JvObject [])"

fun set_path :: "jval \<Rightarrow> string list \<Rightarrow> jval \<Rightarrow> jval option" where
  "set_path node [] v = None"
| "set_path node [k] v = assign_member node k v"
| "set_path node (k # k' # ks) v =
     Option.bind (set_path (object_at node k) (k' # ks) v) (assign_member node k)"

datatype unset_answer = Absent | Erased jval | EraseThrows

text \<open>The walk of \<open>UnsetValue\<close>; \<open>erase\<close> throws on what is no object.\<close>

fun unset_path :: "jval \<Rightarrow> string list \<Rightarrow> unset_answer" where
  "unset_path node [] = EraseThrows"
| "unset_path node [k] = (case node of JvObject m \<Rightarrow> Erased (JvObject (AList.delete k m)) | _ \<Rightarrow> EraseThrows)"
| "unset_path node (k # k' # ks) =
     (case member_of node k of
        Some (JvObject m) \<Rightarrow>
          (case unset_path (JvObject m) (k' # ks) of
             Erased c \<Rightarrow> Erased (JvObject (AList.update k c (members node))) | a \<Rightarrow> a)
      | _ \<Rightarrow> Absent)"

section \<open>The file\<close>

text \<open>The files, by path; opening, creating directories and copying succeed.\<close>

type_synonym config_files = "(string, string) umap"

definition ExpandHome :: "string option \<Rightarrow> string \<Rightarrow> string" where
  "ExpandHome home path =
     (if is_prefix ''~/'' path then (case home of Some h \<Rightarrow> h @ drop 1 path | None \<Rightarrow> path) else path)"

definition DefaultConfigPath :: "string option \<Rightarrow> string" where
  "DefaultConfigPath home = ExpandHome home ''~/.ravbot/ravbot.json''"

definition read_json_file :: "(string \<Rightarrow> jval option) \<Rightarrow> config_files \<Rightarrow> string \<Rightarrow> jval option" where
  "read_json_file parse files filepath =
     (case map_of files filepath of
        None \<Rightarrow> Some (JvObject [])
      | Some content \<Rightarrow> parse (strip_json5 content))"

text \<open>
  The file is opened, and so emptied, before the value is printed; printing throws on a text that
  is no UTF-8. The flag says that nothing was thrown.
\<close>

definition write_json_file :: "(jval \<Rightarrow> string option) \<Rightarrow> string \<Rightarrow> jval \<Rightarrow> config_files \<Rightarrow> config_files \<times> bool" where
  "write_json_file dump filepath j files =
     (let saved = (case map_of files filepath of
                     Some old \<Rightarrow> AList.update (filepath @ ''.bak'') old files | None \<Rightarrow> files)
      in case dump j of
           Some s \<Rightarrow> (AList.update filepath (s @ [CHR 0x0A]) saved, True)
         | None \<Rightarrow> (AList.update filepath [] saved, False))"

definition SetValue ::
  "(string \<Rightarrow> jval option) \<Rightarrow> (jval \<Rightarrow> string option) \<Rightarrow> string option \<Rightarrow> string \<Rightarrow> string \<Rightarrow> jval \<Rightarrow>
   config_files \<Rightarrow> config_files \<times> bool" where
  "SetValue parse dump home filepath dot_path v files =
     (let expanded = ExpandHome home filepath
      in case read_json_file parse files expanded of
           None \<Rightarrow> (files, False)
         | Some root \<Rightarrow> (case set_path root (split_dot_path dot_path) v of
             None \<Rightarrow> (files, False)
           | Some root' \<Rightarrow> write_json_file dump expanded root' files))"

definition UnsetValue ::
  "(string \<Rightarrow> jval option) \<Rightarrow> (jval \<Rightarrow> string option) \<Rightarrow> string option \<Rightarrow> string \<Rightarrow> string \<Rightarrow>
   config_files \<Rightarrow> config_files \<times> bool" where
  "UnsetValue parse dump home filepath dot_path files =
     (let expanded = ExpandHome home filepath
      in case read_json_file parse files expanded of
           None \<Rightarrow> (files, False)
         | Some root \<Rightarrow> (case unset_path root (split_dot_path dot_path) of
             EraseThrows \<Rightarrow> (files, False)
           | Absent \<Rightarrow> (files, True)
           | Erased root' \<Rightarrow> write_json_file dump expanded root' files))"

section \<open>What substitution does\<close>

datatype env_piece = Plain string | Reference string

fun piece_ok :: "env_piece \<Rightarrow> bool" where
  "piece_ok (Plain s) = (CHR ''$'' \<notin> set s)"
| "piece_ok (Reference name) = (name \<noteq> [] \<and> CHR ''}'' \<notin> set name)"

fun piece_text :: "env_piece \<Rightarrow> string" where
  "piece_text (Plain s) = s"
| "piece_text (Reference name) = ''${'' @ name @ ''}''"

fun piece_value :: "(string \<Rightarrow> string option) \<Rightarrow> env_piece \<Rightarrow> string" where
  "piece_value env (Plain s) = s"
| "piece_value env (Reference name) = env_value env name"

lemma substitute_plain:
  "CHR ''$'' \<notin> set s \<Longrightarrow> substitute_env_vars env (s @ r) = s @ substitute_env_vars env r"
proof (induction s)
  case (Cons c cs)
  then have "env_reference (c # cs @ r) = None" by (simp add: env_reference_def Let_def)
  with Cons show ?case by simp
qed simp

lemma takeWhile_name: "c \<notin> set name \<Longrightarrow> takeWhile (\<lambda>x. x \<noteq> c) (name @ c # r) = name"
  and dropWhile_name: "c \<notin> set name \<Longrightarrow> dropWhile (\<lambda>x. x \<noteq> c) (name @ c # r) = c # r"
  by (induction name) auto

lemma substitute_reference:
  assumes "name \<noteq> []" and "CHR ''}'' \<notin> set name"
  shows "substitute_env_vars env (''${'' @ name @ ''}'' @ r) = env_value env name @ substitute_env_vars env r"
proof -
  have "env_reference (''${'' @ name @ ''}'' @ r) = Some (name, r)"
    using assms by (simp add: env_reference_def Let_def takeWhile_name dropWhile_name)
  then show ?thesis by simp
qed

lemma substitute_pieces:
  "list_all piece_ok ps \<Longrightarrow>
   substitute_env_vars env (concat (map piece_text ps)) = concat (map (piece_value env) ps)"
proof (induction ps)
  case (Cons p ps)
  then show ?case
    by (cases p) (auto simp: substitute_plain dest: substitute_reference [where env = env and r = "concat (map piece_text ps)"])
qed simp

lemma substitute_no_dollar_brace: "\<not> str_contains ''${'' s \<Longrightarrow> substitute_env_vars env s = s"
proof (induction env s rule: substitute_env_vars.induct)
  case (2 env c cs)
  have "\<not> is_prefix ''${'' (c # cs)" using 2 by (auto simp: str_contains_iff is_prefix_iff) (metis append_Cons append_Nil)
  then have "env_reference (c # cs) = None" by (simp only: env_reference_def Let_def simp_thms if_False)
  moreover have "\<not> str_contains ''${'' cs" using 2 by (auto simp: str_contains_iff) (metis append_Cons)
  ultimately show ?case using 2 by simp
qed simp

lemma expand_text: "expand_env_in_json env (JvText s) = JvText (substitute_env_vars env s)"
  by (simp add: substitute_no_dollar_brace)

text \<open>The value at a path.\<close>

fun json_get :: "jval \<Rightarrow> string list \<Rightarrow> jval option" where
  "json_get j [] = Some j"
| "json_get j (k # ks) = (case member_of j k of None \<Rightarrow> None | Some c \<Rightarrow> json_get c ks)"

lemma map_of_map_snd: "map_of (map (\<lambda>(k, v). (k, f v)) m) k = map_option f (map_of m k)"
  by (induction m) auto

lemma expand_member: "member_of (expand_env_in_json env j) k = map_option (expand_env_in_json env) (member_of j k)"
  by (cases j) (auto simp: member_of_def map_of_map_snd split: if_splits)

lemma expand_get: "json_get (expand_env_in_json env j) ks = map_option (expand_env_in_json env) (json_get j ks)"
  by (induction ks arbitrary: j) (auto simp: expand_member split: option.splits)

text \<open>
  Every reference with a name becomes the value of the variable, the empty text when it is unset, the
  rest of the text stays as it is, and the values are not searched for references again; in a
  configuration this happens at every path and nowhere else.
\<close>

theorem references_substituted:
  assumes "list_all piece_ok ps" and "json_get j path = Some (JvText (concat (map piece_text ps)))"
  shows "json_get (expand_env_in_json env j) path = Some (JvText (concat (map (piece_value env) ps)))"
  using assms by (simp only: expand_get option.map expand_text substitute_pieces)

theorem references_substituted_witness:
  "json_get (expand_env_in_json (\<lambda>v. if v = ''KEY'' then Some ''a${KEY}'' else None)
      (JvObject [(''llm'', JvObject [(''apiKey'', JvText ''x${KEY}y${NO}'')])])) [''llm'', ''apiKey'']
   = Some (JvText ''xa${KEY}y'')"
  using references_substituted
    [of "[Plain ''x'', Reference ''KEY'', Plain ''y'', Reference ''NO'']"
        "JvObject [(''llm'', JvObject [(''apiKey'', JvText ''x${KEY}y${NO}'')])]" "[''llm'', ''apiKey'']"
        "\<lambda>v. if v = ''KEY'' then Some ''a${KEY}'' else None"]
  by (simp add: member_of_def env_value_def)

section \<open>What the removal of comments and commas does\<close>

datatype literal_unit = Raw char | Escape char

fun unit_text :: "literal_unit \<Rightarrow> string" where
  "unit_text (Raw c) = [c]"
| "unit_text (Escape c) = [CHR 0x5C, c]"

fun unit_ok :: "literal_unit \<Rightarrow> bool" where
  "unit_ok (Raw c) = (c \<noteq> CHR 0x22 \<and> c \<noteq> CHR 0x5C)"
| "unit_ok (Escape c) = True"

definition literal_text :: "literal_unit list \<Rightarrow> string" where
  "literal_text us = [CHR 0x22] @ concat (map unit_text us) @ [CHR 0x22]"

datatype segment = Literal "literal_unit list" | Line string | Block string | Sign char

fun segment_ok :: "segment \<Rightarrow> bool" where
  "segment_ok (Literal us) = list_all unit_ok us"
| "segment_ok (Line s) = (CHR 0x0A \<notin> set s)"
| "segment_ok (Block s) = (\<not> str_contains ''*/'' s)"
| "segment_ok (Sign c) = (c \<noteq> CHR 0x22 \<and> c \<noteq> CHR ''/'')"

fun segment_text :: "segment \<Rightarrow> string" where
  "segment_text (Literal us) = literal_text us"
| "segment_text (Line s) = ''//'' @ s @ [CHR 0x0A]"
| "segment_text (Block s) = ''/*'' @ s @ ''*/''"
| "segment_text (Sign c) = [c]"

fun segment_kept :: "segment \<Rightarrow> string" where
  "segment_kept (Literal us) = literal_text us"
| "segment_kept (Line s) = [CHR 0x0A]"
| "segment_kept (Block s) = []"
| "segment_kept (Sign c) = [c]"

text \<open>A bracket that closes follows, after white space and comments.\<close>

fun closing :: "segment list \<Rightarrow> bool" where
  "closing [] = False"
| "closing (Literal us # segs) = False"
| "closing (Line s # segs) = closing segs"
| "closing (Block s # segs) = closing segs"
| "closing (Sign c # segs) = (if json_blank c then closing segs else c = CHR ''}'' \<or> c = CHR '']'')"

text \<open>A text without its comments and trailing commas, with a function on its literals.\<close>

fun reading :: "(string \<Rightarrow> string) \<Rightarrow> segment list \<Rightarrow> string" where
  "reading f [] = []"
| "reading f (Literal us # segs) = f (literal_text us) @ reading f segs"
| "reading f (Line s # segs) = CHR 0x0A # reading f segs"
| "reading f (Block s # segs) = reading f segs"
| "reading f (Sign c # segs) = (if c = CHR '','' \<and> closing segs then reading f segs else c # reading f segs)"

lemma strip_literal_units:
  "list_all unit_ok us \<Longrightarrow> strip_literal (concat (map unit_text us) @ CHR 0x22 # r) = concat (map unit_text us) @ CHR 0x22 # strip_comments r"
proof (induction us)
  case (Cons u us)
  then show ?case by (cases u) auto
qed simp

lemma strip_line: "CHR 0x0A \<notin> set s \<Longrightarrow> strip_line_comment (s @ CHR 0x0A # r) = CHR 0x0A # strip_comments r"
  by (induction s) auto

lemma strip_block: "\<not> str_contains ''*/'' s \<Longrightarrow> strip_block_comment (s @ ''*/'' @ r) = strip_comments r"
proof (induction s)
  case (Cons c s)
  have "\<not> str_contains ''*/'' s" using Cons.prems by (auto simp: str_contains_iff) (metis append_Cons)
  moreover have "\<not> (c = CHR ''*'' \<and> hd (s @ ''*/'' @ r) = CHR ''/'')"
  proof
    assume c: "c = CHR ''*'' \<and> hd (s @ ''*/'' @ r) = CHR ''/''"
    then obtain s' where "s = CHR ''/'' # s'" by (cases s) auto
    with c have "c # s = [] @ ''*/'' @ s'" by simp
    with Cons.prems show False unfolding str_contains_iff by blast
  qed
  ultimately show ?case using Cons.IH by auto
qed simp

lemma strip_segments:
  "list_all segment_ok segs \<Longrightarrow> strip_comments (concat (map segment_text segs)) = concat (map segment_kept segs)"
proof (induction segs)
  case (Cons g segs)
  then show ?case
    by (cases g) (auto simp: literal_text_def strip_literal_units strip_line strip_block [simplified])
qed simp

text \<open>The comma loop works on the parts of a text one by one, where a part does not end in a comma or a blank.\<close>

lemma closer_next_append: "s \<noteq> [] \<Longrightarrow> \<not> json_blank (last s) \<Longrightarrow> closer_next (s @ r) = closer_next s"
proof (induction s)
  case (Cons c s)
  then show ?case by (cases "s = []") (auto simp: closer_next_def)
qed simp

lemma strip_append:
  "s \<noteq> [] \<Longrightarrow> \<not> json_blank (last s) \<Longrightarrow> last s \<noteq> CHR '','' \<Longrightarrow>
   strip_trailing_commas (s @ r) = strip_trailing_commas s @ strip_trailing_commas r"
proof (induction s)
  case (Cons c s)
  show ?case
  proof (cases "s = []")
    case False
    with Cons show ?thesis by (simp add: closer_next_append)
  qed (use Cons in \<open>auto simp: closer_next_def\<close>)
qed simp

lemma literal_text_ends: "literal_text us \<noteq> [] \<and> last (literal_text us) = CHR 0x22"
  by (simp add: literal_text_def)

lemma closer_next_quote: "closer_next (CHR 0x22 # r) = False"
  by (simp add: closer_next_def json_blank_def)

lemma closing_kept: "closer_next (concat (map segment_kept segs)) = closing segs"
proof (induction segs)
  case (Cons g segs)
  then show ?case
    by (cases g) (auto simp: literal_text_def closer_next_quote, auto simp: closer_next_def json_blank_def)
qed (simp add: closer_next_def)

lemma strip_kept: "strip_trailing_commas (concat (map segment_kept segs)) = reading strip_trailing_commas segs"
proof (induction segs)
  case (Cons g segs)
  then show ?case by (cases g) (simp_all add: strip_append literal_text_ends json_blank_def closing_kept)
qed simp

lemma strip_json5_segments:
  "list_all segment_ok segs \<Longrightarrow> strip_json5 (concat (map segment_text segs)) = reading strip_trailing_commas segs"
  by (simp add: strip_json5_def strip_segments strip_kept)

lemma strip_commas_shorter: "length (strip_trailing_commas s) \<le> length s"
  by (induction s) auto

text \<open>A comma with only blanks between it and a bracket.\<close>

fun comma_before_closer :: "string \<Rightarrow> bool" where
  "comma_before_closer [] = False"
| "comma_before_closer (c # cs) = (c = CHR '','' \<and> closer_next cs \<or> comma_before_closer cs)"

lemma strip_commas_id: "\<not> comma_before_closer s \<Longrightarrow> strip_trailing_commas s = s"
  by (induction s) auto

lemma strip_commas_less: "comma_before_closer s \<Longrightarrow> length (strip_trailing_commas s) < length s"
  by (induction s) (auto simp: strip_commas_shorter le_imp_less_Suc)

lemma reading_length: "length (reading strip_trailing_commas segs) \<le> length (reading id segs)"
proof (induction segs)
  case (Cons g segs)
  then show ?case by (cases g) (auto intro: add_mono simp: strip_commas_shorter)
qed simp

lemma reading_id:
  "reading strip_trailing_commas segs = reading id segs \<longleftrightarrow>
   (\<forall>us. Literal us \<in> set segs \<longrightarrow> \<not> comma_before_closer (literal_text us))"
proof (induction segs)
  case (Cons g segs)
  show ?case
  proof (cases "\<exists>us. g = Literal us \<and> comma_before_closer (literal_text us)")
    case True
    then obtain us where us: "g = Literal us" "comma_before_closer (literal_text us)" by blast
    then have "length (reading strip_trailing_commas (g # segs)) < length (reading id (g # segs))"
      using strip_commas_less [of "literal_text us"] reading_length [of segs] by simp
    with us show ?thesis by (metis less_irrefl list.set_intros(1))
  next
    case False
    then have g: "g = Literal us \<Longrightarrow> \<not> comma_before_closer (literal_text us)" for us by blast
    show ?thesis using Cons by (cases g) (simp_all add: g strip_commas_id)
  qed
qed simp

text \<open>
  Claim C32. Removing comments and trailing commas gives the text without them, as literals, comments and
  signs say, exactly when no literal contains a comma with a closing bracket after it. In such
  a literal the comma is lost.
\<close>

theorem json5_cleaned:
  assumes "list_all segment_ok segs"
  shows "strip_json5 (concat (map segment_text segs)) = reading id segs \<longleftrightarrow>
    (\<forall>us. Literal us \<in> set segs \<longrightarrow> \<not> comma_before_closer (literal_text us))"
  using assms by (simp add: strip_json5_segments reading_id)

theorem json5_cleaned_witness:
  "strip_json5 (concat (map segment_text [Sign CHR ''['', Literal (map Raw ''a,]''), Block ''b'', Sign CHR '']'']))
   \<noteq> reading id [Sign CHR ''['', Literal (map Raw ''a,]''), Block ''b'', Sign CHR '']'']"
proof -
  let ?segs = "[Sign CHR ''['', Literal (map Raw ''a,]''), Block ''b'', Sign CHR '']'']"
  have "list_all segment_ok ?segs" by (simp add: str_contains_def)
  moreover have "comma_before_closer (literal_text (map Raw ''a,]''))"
    by (simp add: literal_text_def closer_next_def json_blank_def)
  ultimately show ?thesis using json5_cleaned [of ?segs] by (meson list.set_intros)
qed

section \<open>Paths\<close>

lemma split_dot_path_parts: "part \<in> set (split_dot_path s) \<Longrightarrow> CHR ''.'' \<notin> set part"
proof (induction s rule: split_dot_path.induct)
  case (2 c cs)
  define a where "a = takeWhile (\<lambda>x. x \<noteq> CHR ''.'') (c # cs)"
  define r where "r = dropWhile (\<lambda>x. x \<noteq> CHR ''.'') (c # cs)"
  have "part \<in> set (if r = [] then [a] else a # split_dot_path (tl r))"
    using 2(2) unfolding split_dot_path.simps(2) Let_def a_def r_def .
  then have "part = a \<or> r \<noteq> [] \<and> part \<in> set (split_dot_path (tl r))" by (cases "r = []") auto
  then show ?case
  proof
    assume "part = a"
    then show ?thesis using set_takeWhileD unfolding a_def by fast
  qed (use 2(1) [OF refl refl] in \<open>simp only: a_def r_def simp_thms\<close>)
qed simp

lemma split_dot_path_empty: "split_dot_path s = [] \<longleftrightarrow> s = []"
  by (cases s) (auto simp: Let_def)

text \<open>A path is its parts joined with dots, but one dot at the end is ignored.\<close>

lemma split_dot_path_join:
  "str_join ''.'' (split_dot_path s) @ (if s \<noteq> [] \<and> last s = CHR ''.'' then ''.'' else []) = s"
proof (induction s rule: split_dot_path.induct)
  case (2 c cs)
  let ?part = "takeWhile (\<lambda>x. x \<noteq> CHR ''.'') (c # cs)" and ?rest = "dropWhile (\<lambda>x. x \<noteq> CHR ''.'') (c # cs)"
  show ?case
  proof (cases ?rest)
    case Nil
    then have all: "\<forall>x \<in> set (c # cs). x \<noteq> CHR ''.''" by (simp only: dropWhile_eq_Nil_conv)
    then have "?part = c # cs" by (simp only: takeWhile_eq_all_conv)
    moreover have "last (c # cs) \<noteq> CHR ''.''" using all last_in_set [of "c # cs"] by blast
    ultimately show ?thesis using Nil by (simp only: split_dot_path.simps Let_def) simp
  next
    case (Cons d r)
    have "\<not> hd ?rest \<noteq> CHR ''.''" by (rule hd_dropWhile) (simp only: Cons list.simps not_False_eq_True)
    then have d: "d = CHR ''.''" by (simp only: Cons list.sel simp_thms)
    have "c # cs = ?part @ d # r" using Cons takeWhile_dropWhile_id by metis
    moreover have "split_dot_path (c # cs) = ?part # split_dot_path r" using Cons by (simp only: split_dot_path.simps Let_def) simp
    ultimately obtain part where s: "c # cs = part @ d # r" and split: "split_dot_path (c # cs) = part # split_dot_path r" by metis
    have IH: "str_join ''.'' (split_dot_path r) @ (if r \<noteq> [] \<and> last r = CHR ''.'' then ''.'' else []) = r"
      using 2 Cons by simp
    have last: "last (c # cs) = (if r = [] then d else last r)" by (subst s) simp
    show ?thesis
    proof (cases "r = []")
      case True
      with s split last d show ?thesis by simp
    next
      case False
      then obtain p ps where "split_dot_path r = p # ps" using split_dot_path_empty [of r] by (cases "split_dot_path r") blast+
      with False IH s split last d show ?thesis by (simp del: split_dot_path.simps)
    qed
  qed
qed simp

lemma assign_member_of:
  "assign_member n k v = Some n' \<Longrightarrow> member_of n' k' = (if k' = k then Some v else member_of n k')"
  by (cases n) (auto simp: member_of_def map_of_update)

lemma set_path_get: "set_path r ps v = Some r' \<Longrightarrow> json_get r' ps = Some v"
  by (induction r ps v arbitrary: r' rule: set_path.induct) (auto simp: assign_member_of bind_eq_Some_conv)

lemma json_get_not_object: "\<not> is_object c \<Longrightarrow> qs \<noteq> [] \<Longrightarrow> json_get c qs = None"
  by (cases qs; cases c) (auto simp: member_of_def)

lemma object_at_get: "qs \<noteq> [] \<Longrightarrow> json_get (object_at r k) qs = json_get r (k # qs)"
  using json_get_not_object [of "the (member_of r k)" qs] json_get_not_object [of JvNull qs]
  by (cases qs) (auto simp: object_at_def member_of_def split: option.splits jval.splits)

lemma set_path_frame:
  "set_path r ps v = Some r' \<Longrightarrow> \<not> prefix ps qs \<Longrightarrow> \<not> prefix qs ps \<Longrightarrow> json_get r' qs = json_get r qs"
proof (induction r ps v arbitrary: r' qs rule: set_path.induct)
  case (2 node k v)
  then show ?case by (cases qs) (auto simp: assign_member_of)
next
  case (3 node k k' ks v)
  then obtain c where c: "set_path (object_at node k) (k' # ks) v = Some c" "assign_member node k c = Some r'"
    by (auto simp: bind_eq_Some_conv)
  obtain q qs' where qs: "qs = q # qs'" using 3 by (cases qs) auto
  show ?case
  proof (cases "q = k")
    case True
    then have "\<not> prefix (k' # ks) qs'" "\<not> prefix qs' (k' # ks)" using 3 qs by auto
    moreover from this have "qs' \<noteq> []" by auto
    ultimately show ?thesis using 3(1) [OF c(1), of qs'] c(2) qs True object_at_get [of qs' node k] by (simp add: assign_member_of)
  next
    case False
    with c(2) qs show ?thesis by (simp add: assign_member_of)
  qed
qed simp

lemma set_path_object: "is_object r \<Longrightarrow> ps \<noteq> [] \<Longrightarrow> \<exists>r'. set_path r ps v = Some r' \<and> is_object r'"
proof (induction r ps v rule: set_path.induct)
  case (2 node k v)
  then show ?case by (cases node) auto
next
  case (3 node k k' ks v)
  have "is_object (object_at node k)" by (simp add: object_at_def split: option.splits jval.splits)
  with 3 obtain c where "set_path (object_at node k) (k' # ks) v = Some c" by auto
  then show ?case using 3 by (cases node) auto
qed simp

lemma write_json_file_other:
  "map_of (fst (write_json_file dump f j files)) g =
     (if g = f then (case dump j of Some s \<Rightarrow> Some (s @ [CHR 0x0A]) | None \<Rightarrow> Some [])
      else if g = f @ ''.bak'' then (case map_of files f of Some old \<Rightarrow> Some old | None \<Rightarrow> map_of files g)
      else map_of files g)"
  by (auto simp: write_json_file_def Let_def map_of_update split: option.splits)



lemma unset_path_get: "unset_path r ps = Erased r' \<Longrightarrow> json_get r' ps = None"
proof (induction r ps arbitrary: r' rule: unset_path.induct)
  case (2 node k)
  then show ?case by (cases node) (auto simp: member_of_def map_of_delete)
next
  case (3 node k k' ks)
  then obtain m c where m: "member_of node k = Some (JvObject m)" and c: "unset_path (JvObject m) (k' # ks) = Erased c"
      and r': "r' = JvObject (AList.update k c (members node))"
    by (auto split: option.splits jval.splits unset_answer.splits)
  then show ?case using 3(1) [OF m refl c] by (simp add: member_of_def map_of_update)
qed simp

lemma unset_path_frame: "unset_path r ps = Erased r' \<Longrightarrow> \<not> prefix ps qs \<Longrightarrow> \<not> prefix qs ps \<Longrightarrow> json_get r' qs = json_get r qs"
proof (induction r ps arbitrary: r' qs rule: unset_path.induct)
  case (2 node k)
  then show ?case by (cases node; cases qs) (auto simp: member_of_def map_of_delete)
next
  case (3 node k k' ks)
  then obtain m c where m: "member_of node k = Some (JvObject m)" and c: "unset_path (JvObject m) (k' # ks) = Erased c"
      and r': "r' = JvObject (AList.update k c (members node))"
    by (auto split: option.splits jval.splits unset_answer.splits)
  obtain q qs' where qs: "qs = q # qs'" using 3 by (cases qs) auto
  show ?case
  proof (cases "q = k")
    case True
    then have "\<not> prefix (k' # ks) qs'" "\<not> prefix qs' (k' # ks)" using 3 qs by auto
    then show ?thesis using 3(1) [OF m refl c, of qs'] qs True m r' by (simp add: member_of_def map_of_update)
  qed (use qs r' in \<open>simp add: member_of_def map_of_update\<close>)
qed simp

lemma unset_absent: "unset_path r ps = Absent \<Longrightarrow> json_get r ps = None"
proof (induction r ps rule: unset_path.induct)
  case (2 node k)
  then show ?case by (cases node) auto
next
  case (3 node k k' ks)
  show ?case
  proof (cases "\<exists>m. member_of node k = Some (JvObject m)")
    case True
    with 3 show ?thesis by (auto split: unset_answer.splits)
  next
    case False
    then show ?thesis using json_get_not_object [of "the (member_of node k)" "k' # ks"]
      by (cases "the (member_of node k)") (auto split: option.splits)
  qed
qed simp

text \<open>
  A removal that goes through leaves nothing at the path and everything else as it was, or
  finds nothing there and does not touch the files.
\<close>

theorem unset_value_answer:
  assumes "UnsetValue parse dump home f p files = (files', True)"
    and "read_json_file parse files (ExpandHome home f) = Some r"
  shows "files' = files \<and> json_get r (split_dot_path p) = None
    \<or> (\<exists>r' s. dump r' = Some s \<and> map_of files' (ExpandHome home f) = Some (s @ [CHR 0x0A])
        \<and> json_get r' (split_dot_path p) = None
        \<and> (\<forall>qs. prefix (split_dot_path p) qs \<or> prefix qs (split_dot_path p) \<or> json_get r' qs = json_get r qs))"
proof (cases "unset_path r (split_dot_path p)")
  case Absent
  then show ?thesis using assms unset_absent by (simp add: UnsetValue_def Let_def)
next
  case (Erased r')
  then have "write_json_file dump (ExpandHome home f) r' files = (files', True)"
    using assms by (simp add: UnsetValue_def Let_def)
  then obtain s where "dump r' = Some s" "map_of files' (ExpandHome home f) = Some (s @ [CHR 0x0A])"
    by (auto simp: write_json_file_def Let_def map_of_update split: option.splits)
  then show ?thesis using unset_path_get [OF Erased] unset_path_frame [OF Erased] by blast
qed (use assms in \<open>simp add: UnsetValue_def Let_def\<close>)

theorem unset_value_answer_witness:
  "json_get (JvObject [(''a'', JvNull)]) [''b'', ''c''] = None"
proof -
  have path: "split_dot_path ''b.c'' = [''b'', ''c'']" by simp
  have u: "UnsetValue (\<lambda>s. Some (JvObject [(''a'', JvNull)])) (\<lambda>j. None) None ''c'' ''b.c'' [(''c'', [])] = ([(''c'', [])], True)"
    by (simp add: UnsetValue_def ExpandHome_def read_json_file_def member_of_def)
  have r: "read_json_file (\<lambda>s. Some (JvObject [(''a'', JvNull)])) [(''c'', [])] (ExpandHome None ''c'') = Some (JvObject [(''a'', JvNull)])"
    by (simp add: ExpandHome_def read_json_file_def)
  from unset_value_answer [OF u r] have "json_get (JvObject [(''a'', JvNull)]) (split_dot_path ''b.c'') = None" by auto
  then show ?thesis unfolding path .
qed

text \<open>
  The file is emptied before the new text is printed: when printing throws, the configuration
  is gone from the file, whatever was in it, and only the backup has it.
\<close>

theorem failed_print_empties:
  assumes "read_json_file parse files (ExpandHome home f) = Some (JvObject m)" and "p \<noteq> []"
    and "\<And>r'. json_get r' (split_dot_path p) = Some v \<Longrightarrow> dump r' = None"
  shows "\<not> snd (SetValue parse dump home f p v files)
    \<and> map_of (fst (SetValue parse dump home f p v files)) (ExpandHome home f) = Some []"
proof -
  obtain r' where r': "set_path (JvObject m) (split_dot_path p) v = Some r'"
    using set_path_object [of "JvObject m" "split_dot_path p" v] assms(2) split_dot_path_empty [of p] by auto
  then have "dump r' = None" using set_path_get assms(3) by blast
  with r' assms(1) show ?thesis
    by (auto simp: SetValue_def Let_def write_json_file_def map_of_update split: option.splits)
qed

theorem failed_print_empties_witness:
  "map_of (fst (SetValue (\<lambda>s. Some (JvObject [])) (\<lambda>j. None) None ''c'' ''a'' (JvText [CHR 0xFF]) [(''c'', ''x'')])) ''c'' = Some []"
  using failed_print_empties [of "\<lambda>s. Some (JvObject [])" "[(''c'', ''x'')]" None "''c''" "[]" "''a''" "JvText [CHR 0xFF]" "\<lambda>j. None"]
  by (simp add: read_json_file_def ExpandHome_def)

end
