(* ===== verification/Config.thy ===== *)
theory Config
  imports ConfigFile
begin

text \<open>
  The configuration (\<open>config.hpp\<close>, \<open>core/config.cpp\<close>): reading of each section from JSON, with the
  exceptions of the accessors as \<open>None\<close>, the composition of the sections, and validation.
  A number with a fraction is kept as the JSON value; its conversion to \<open>int\<close> is the argument \<open>tr\<close>.
  The theorems say which of two spellings of a member counts, how sections override each other, and
  what validation promises.
\<close>

section \<open>Accessors with conversion\<close>

text \<open>\<open>static_cast<int>\<close> of a 64-bit number.\<close>

definition wrap32 :: "int \<Rightarrow> int" where
  "wrap32 i = (i + 2147483648) mod 4294967296 - 2147483648"

text \<open>\<open>get<int>\<close> takes numbers and booleans, \<open>get<double>\<close> takes numbers.\<close>

fun get_int :: "(string \<Rightarrow> int) \<Rightarrow> jval \<Rightarrow> int option" where
  "get_int tr (JvInt i) = Some (wrap32 i)"
| "get_int tr (JvReal s) = Some (tr s)"
| "get_int tr (JvBool b) = Some (if b then 1 else 0)"
| "get_int tr _ = None"

fun get_double :: "jval \<Rightarrow> jval option" where
  "get_double (JvInt i) = Some (JvInt i)"
| "get_double (JvReal s) = Some (JvReal s)"
| "get_double _ = None"

fun get_texts :: "jval \<Rightarrow> string list option" where
  "get_texts (JvArray xs) = all_some_list (map as_text xs)"
| "get_texts _ = None"

text \<open>\<open>json.value(first, json.value(second, default))\<close>\<close>

definition either_value :: "(jval \<Rightarrow> 'a option) \<Rightarrow> jval \<Rightarrow> string \<Rightarrow> string \<Rightarrow> 'a \<Rightarrow> 'a option" where
  "either_value conv j first second d = Option.bind (value_as conv j second d) (value_as conv j first)"

text \<open>A member that is an object, and a member that is an array.\<close>

definition object_member :: "jval \<Rightarrow> string \<Rightarrow> jval option" where
  "object_member j k = (case member_of j k of Some (JvObject m) \<Rightarrow> Some (JvObject m) | _ \<Rightarrow> None)"

definition array_member :: "jval \<Rightarrow> string \<Rightarrow> jval list" where
  "array_member j k = (case member_of j k of Some (JvArray xs) \<Rightarrow> xs | _ \<Rightarrow> [])"

text \<open>\<open>target[key] = f(value)\<close> for all items of an object.\<close>

fun put_items :: "(jval \<Rightarrow> 'a option) \<Rightarrow> (string \<times> jval) list \<Rightarrow> (string, 'a) umap \<Rightarrow> (string, 'a) umap option" where
  "put_items f [] m = Some m"
| "put_items f ((k, v) # items) m = Option.bind (f v) (\<lambda>x. put_items f items (AList.update k x m))"

section \<open>Agent and models\<close>

record AgentConfig =
  ac_model :: string
  ac_max_iterations :: int
  ac_temperature :: jval
  ac_max_tokens :: int
  ac_context_window :: int
  ac_thinking :: string
  ac_fallbacks :: "string list"
  ac_auto_compact :: bool
  ac_compact_max_messages :: int
  ac_compact_keep_recent :: int
  ac_compact_max_tokens :: int
  ac_compact_timeout_seconds :: int

definition default_model :: string where "default_model = ''anthropic/claude-sonnet-4-6''"

definition AgentConfig_init :: AgentConfig where
  "AgentConfig_init = \<lparr>ac_model = default_model, ac_max_iterations = 32, ac_temperature = JvReal ''0.7'',
     ac_max_tokens = 8192, ac_context_window = 128000, ac_thinking = ''off'', ac_fallbacks = [],
     ac_auto_compact = True, ac_compact_max_messages = 100, ac_compact_keep_recent = 20,
     ac_compact_max_tokens = 100000, ac_compact_timeout_seconds = 900\<rparr>"

definition AgentConfig_FromJson :: "(string \<Rightarrow> int) \<Rightarrow> jval \<Rightarrow> AgentConfig option" where
  "AgentConfig_FromJson tr j = do {
     iterations \<leftarrow> either_value (get_int tr) j ''maxIterations'' ''max_iterations'' 32;
     temp \<leftarrow> value_as get_double j ''temperature'' (JvReal ''0.7'');
     tokens \<leftarrow> either_value (get_int tr) j ''maxTokens'' ''max_tokens'' 8192;
     window \<leftarrow> either_value (get_int tr) j ''contextWindow'' ''context_window'' 128000;
     thinking \<leftarrow> value_text j ''thinking'' ''off'';
     fallbacks \<leftarrow> value_as get_texts j ''fallbacks'' [];
     auto \<leftarrow> either_value as_bool j ''autoCompact'' ''auto_compact'' True;
     messages \<leftarrow> either_value (get_int tr) j ''compactMaxMessages'' ''compact_max_messages'' 100;
     recent \<leftarrow> either_value (get_int tr) j ''compactKeepRecent'' ''compact_keep_recent'' 20;
     ctokens \<leftarrow> either_value (get_int tr) j ''compactMaxTokens'' ''compact_max_tokens'' 100000;
     timeout \<leftarrow> either_value (get_int tr) j ''compactTimeoutSeconds'' ''compact_timeout_seconds'' 900;
     Some \<lparr>ac_model = (case member_of j ''model'' of Some (JvText s) \<Rightarrow> s | _ \<Rightarrow> default_model),
       ac_max_iterations = iterations, ac_temperature = temp, ac_max_tokens = tokens,
       ac_context_window = window, ac_thinking = thinking, ac_fallbacks = fallbacks,
       ac_auto_compact = auto, ac_compact_max_messages = messages, ac_compact_keep_recent = recent,
       ac_compact_max_tokens = ctokens, ac_compact_timeout_seconds = timeout\<rparr>
   }"

text \<open>
  The ratio is computed in doubles; as 128 is a power of two and the quotient is rounded
  monotonically, its integral part is that of the exact quotient.
\<close>

definition DynamicMaxIterations :: "int \<Rightarrow> int" where
  "DynamicMaxIterations context_window =
     (if context_window \<le> 32768 then 32
      else if 200000 \<le> context_window then 160
      else 32 + (context_window - 32768) * (160 - 32) div (200000 - 32768))"

record ModelCost =
  mc_input :: jval
  mc_output :: jval
  mc_cache_read :: jval
  mc_cache_write :: jval

definition ModelCost_FromJson :: "jval \<Rightarrow> ModelCost option" where
  "ModelCost_FromJson j = do {
     inp \<leftarrow> value_as get_double j ''input'' (JvReal ''0.0'');
     out \<leftarrow> value_as get_double j ''output'' (JvReal ''0.0'');
     rd \<leftarrow> either_value get_double j ''cacheRead'' ''cache_read'' (JvReal ''0.0'');
     wr \<leftarrow> either_value get_double j ''cacheWrite'' ''cache_write'' (JvReal ''0.0'');
     Some \<lparr>mc_input = inp, mc_output = out, mc_cache_read = rd, mc_cache_write = wr\<rparr>
   }"

record ModelDefinition =
  md_id :: string
  md_name :: string
  md_reasoning :: bool
  md_input :: "string list"
  md_cost :: ModelCost
  md_context_window :: int
  md_max_tokens :: int

definition ModelCost_init :: ModelCost where
  "ModelCost_init = \<lparr>mc_input = JvReal ''0.0'', mc_output = JvReal ''0.0'', mc_cache_read = JvReal ''0.0'',
     mc_cache_write = JvReal ''0.0''\<rparr>"

definition ModelDefinition_FromJson :: "(string \<Rightarrow> int) \<Rightarrow> jval \<Rightarrow> ModelDefinition option" where
  "ModelDefinition_FromJson tr j = do {
     ident \<leftarrow> value_text j ''id'' [];
     name \<leftarrow> value_text j ''name'' [];
     reasoning \<leftarrow> value_bool j ''reasoning'' False;
     inputs \<leftarrow> value_as get_texts j ''input'' [''text''];
     cost \<leftarrow> (case object_member j ''cost'' of Some c \<Rightarrow> ModelCost_FromJson c | None \<Rightarrow> Some ModelCost_init);
     window \<leftarrow> either_value (get_int tr) j ''contextWindow'' ''context_window'' 0;
     tokens \<leftarrow> either_value (get_int tr) j ''maxTokens'' ''max_tokens'' 0;
     Some \<lparr>md_id = ident, md_name = name, md_reasoning = reasoning, md_input = inputs, md_cost = cost,
       md_context_window = window, md_max_tokens = tokens\<rparr>
   }"

record ModelEntryConfig =
  me_alias :: string
  me_params :: jval

definition ModelEntryConfig_FromJson :: "jval \<Rightarrow> ModelEntryConfig option" where
  "ModelEntryConfig_FromJson j = do {
     al \<leftarrow> value_text j ''alias'' [];
     Some \<lparr>me_alias = al, me_params = value_or (object_member j ''params'') JvNull\<rparr>
   }"

record ProviderConfig =
  pc_api_key :: string
  pc_base_url :: string
  pc_api :: string
  pc_timeout :: int
  pc_models :: "ModelDefinition list"

definition ProviderConfig_FromJson :: "(string \<Rightarrow> int) \<Rightarrow> jval \<Rightarrow> ProviderConfig option" where
  "ProviderConfig_FromJson tr j = do {
     key \<leftarrow> either_value as_text j ''apiKey'' ''api_key'' [];
     url \<leftarrow> either_value as_text j ''baseUrl'' ''base_url'' [];
     api \<leftarrow> value_text j ''api'' [];
     timeout \<leftarrow> value_as (get_int tr) j ''timeout'' 30;
     models \<leftarrow> all_some_list (map (ModelDefinition_FromJson tr) (array_member j ''models''));
     Some \<lparr>pc_api_key = key, pc_base_url = url, pc_api = api, pc_timeout = timeout, pc_models = models\<rparr>
   }"

section \<open>Channels, tools, servers, skills\<close>

record ChannelConfig =
  hc_enabled :: bool
  hc_token :: string
  hc_allowed_ids :: "string list"
  hc_raw :: jval

definition ChannelConfig_FromJson :: "jval \<Rightarrow> ChannelConfig option" where
  "ChannelConfig_FromJson j = do {
     enabled \<leftarrow> value_bool j ''enabled'' False;
     token \<leftarrow> (case member_of j ''botToken'' of Some v \<Rightarrow> as_text v | None \<Rightarrow> value_text j ''token'' []);
     ids \<leftarrow> value_as get_texts j ''allowed_ids'' [];
     Some \<lparr>hc_enabled = enabled, hc_token = token, hc_allowed_ids = ids, hc_raw = j\<rparr>
   }"

record ToolConfig =
  tc_enabled :: bool
  tc_allowed_paths :: "string list"
  tc_denied_paths :: "string list"
  tc_allowed_cmds :: "string list"
  tc_denied_cmds :: "string list"
  tc_timeout :: int

definition ToolConfig_FromJson :: "(string \<Rightarrow> int) \<Rightarrow> jval \<Rightarrow> ToolConfig option" where
  "ToolConfig_FromJson tr j = do {
     enabled \<leftarrow> value_bool j ''enabled'' True;
     ap \<leftarrow> value_as get_texts j ''allowed_paths'' [];
     dp \<leftarrow> value_as get_texts j ''denied_paths'' [];
     ac \<leftarrow> value_as get_texts j ''allowed_cmds'' [];
     dc \<leftarrow> value_as get_texts j ''denied_cmds'' [];
     timeout \<leftarrow> value_as (get_int tr) j ''timeout'' 30;
     Some \<lparr>tc_enabled = enabled, tc_allowed_paths = ap, tc_denied_paths = dp, tc_allowed_cmds = ac,
       tc_denied_cmds = dc, tc_timeout = timeout\<rparr>
   }"

record ToolPermissionConfig =
  tp_allow :: "string list"
  tp_deny :: "string list"

definition ToolPermissionConfig_FromJson :: "jval \<Rightarrow> ToolPermissionConfig option" where
  "ToolPermissionConfig_FromJson j = do {
     allow \<leftarrow> value_as get_texts j ''allow'' [''group:fs'', ''group:runtime''];
     deny \<leftarrow> value_as get_texts j ''deny'' [];
     Some \<lparr>tp_allow = allow, tp_deny = deny\<rparr>
   }"

record MCPServerConfig =
  ms_name :: string
  ms_url :: string
  ms_timeout :: int

definition MCPServerConfig_FromJson :: "(string \<Rightarrow> int) \<Rightarrow> jval \<Rightarrow> MCPServerConfig option" where
  "MCPServerConfig_FromJson tr j = do {
     name \<leftarrow> value_text j ''name'' [];
     url \<leftarrow> value_text j ''url'' [];
     timeout \<leftarrow> value_as (get_int tr) j ''timeout'' 30;
     Some \<lparr>ms_name = name, ms_url = url, ms_timeout = timeout\<rparr>
   }"

definition MCPConfig_FromJson :: "(string \<Rightarrow> int) \<Rightarrow> jval \<Rightarrow> MCPServerConfig list option" where
  "MCPConfig_FromJson tr j = all_some_list (map (MCPServerConfig_FromJson tr) (array_member j ''servers''))"

definition SkillEntryConfig_FromJson :: "jval \<Rightarrow> bool option" where
  "SkillEntryConfig_FromJson j = value_bool j ''enabled'' True"

definition SkillsLoadConfig_FromJson :: "jval \<Rightarrow> string list option" where
  "SkillsLoadConfig_FromJson j = value_as get_texts j ''extraDirs'' []"

record SkillsConfig =
  sk_path :: string
  sk_auto_approve :: "string list"
  sk_extra_dirs :: "string list"
  sk_entries :: "(string, bool) umap"
  sk_configs :: jval

definition SkillsConfig_init :: SkillsConfig where
  "SkillsConfig_init = \<lparr>sk_path = [], sk_auto_approve = [], sk_extra_dirs = [], sk_entries = [], sk_configs = JvNull\<rparr>"

definition SkillsConfig_FromJson :: "jval \<Rightarrow> SkillsConfig option" where
  "SkillsConfig_FromJson j = do {
     path \<leftarrow> value_text j ''path'' [];
     auto \<leftarrow> value_as get_texts j ''autoApprove'' [];
     load \<leftarrow> (case object_member j ''load'' of Some l \<Rightarrow> SkillsLoadConfig_FromJson l | None \<Rightarrow> Some []);
     entries \<leftarrow> (case object_member j ''entries'' of
                  Some e \<Rightarrow> put_items SkillEntryConfig_FromJson (members e) [] | None \<Rightarrow> Some []);
     Some \<lparr>sk_path = path, sk_auto_approve = auto,
       sk_extra_dirs = (if path \<noteq> [] \<and> load = [] then [path] else load),
       sk_entries = entries, sk_configs = value_or (object_member j ''configs'') JvNull\<rparr>
   }"

section \<open>Gateway, system, security\<close>

record GatewayAuthConfig =
  ga_mode :: string
  ga_token :: string

definition GatewayAuthConfig_FromJson :: "jval \<Rightarrow> GatewayAuthConfig option" where
  "GatewayAuthConfig_FromJson j = do {
     mode \<leftarrow> value_text j ''mode'' ''token'';
     token \<leftarrow> value_text j ''token'' [];
     Some \<lparr>ga_mode = mode, ga_token = token\<rparr>
   }"

record GatewayControlUiConfig =
  gu_enabled :: bool
  gu_port :: int

definition GatewayControlUiConfig_FromJson :: "(string \<Rightarrow> int) \<Rightarrow> jval \<Rightarrow> GatewayControlUiConfig option" where
  "GatewayControlUiConfig_FromJson tr j = do {
     enabled \<leftarrow> value_bool j ''enabled'' True;
     port \<leftarrow> value_as (get_int tr) j ''port'' 18801;
     Some \<lparr>gu_enabled = enabled, gu_port = port\<rparr>
   }"

record GatewayConfig =
  gc_port :: int
  gc_bind :: string
  gc_auth :: GatewayAuthConfig
  gc_control_ui :: GatewayControlUiConfig
  gc_health_timeout_threshold_percent :: int
  gc_health_max_timeout_count :: int
  gc_health_degraded_check_count :: int
  gc_auth_max_attempts :: int
  gc_auth_lockout_duration_sec :: int

definition GatewayConfig_init :: GatewayConfig where
  "GatewayConfig_init = \<lparr>gc_port = 18800, gc_bind = ''loopback'',
     gc_auth = \<lparr>ga_mode = ''token'', ga_token = []\<rparr>, gc_control_ui = \<lparr>gu_enabled = True, gu_port = 18801\<rparr>,
     gc_health_timeout_threshold_percent = 80, gc_health_max_timeout_count = 5,
     gc_health_degraded_check_count = 3, gc_auth_max_attempts = 5, gc_auth_lockout_duration_sec = 300\<rparr>"

definition GatewayConfig_FromJson :: "(string \<Rightarrow> int) \<Rightarrow> jval \<Rightarrow> GatewayConfig option" where
  "GatewayConfig_FromJson tr j = do {
     port \<leftarrow> value_as (get_int tr) j ''port'' 18800;
     bind \<leftarrow> value_text j ''bind'' ''loopback'';
     auth \<leftarrow> (case member_of j ''auth'' of
               Some a \<Rightarrow> GatewayAuthConfig_FromJson a | None \<Rightarrow> Some (gc_auth GatewayConfig_init));
     ui \<leftarrow> (case member_of j ''controlUi'' of
             Some u \<Rightarrow> GatewayControlUiConfig_FromJson tr u | None \<Rightarrow> Some (gc_control_ui GatewayConfig_init));
     threshold \<leftarrow> either_value (get_int tr) j ''healthTimeoutThresholdPercent'' ''health_timeout_threshold_percent'' 80;
     timeouts \<leftarrow> either_value (get_int tr) j ''healthMaxTimeoutCount'' ''health_max_timeout_count'' 5;
     checks \<leftarrow> either_value (get_int tr) j ''healthDegradedCheckCount'' ''health_degraded_check_count'' 3;
     attempts \<leftarrow> either_value (get_int tr) j ''authMaxAttempts'' ''auth_max_attempts'' 5;
     lockout \<leftarrow> either_value (get_int tr) j ''authLockoutDurationSec'' ''auth_lockout_duration_sec'' 300;
     Some \<lparr>gc_port = port, gc_bind = bind, gc_auth = auth, gc_control_ui = ui,
       gc_health_timeout_threshold_percent = threshold, gc_health_max_timeout_count = timeouts,
       gc_health_degraded_check_count = checks, gc_auth_max_attempts = attempts,
       gc_auth_lockout_duration_sec = lockout\<rparr>
   }"

record SystemConfig =
  sy_name :: string
  sy_version :: string
  sy_log_level :: string
  sy_port :: int
  sy_log_retention_days :: int
  sy_log_max_size_mb :: int

definition SystemConfig_init :: SystemConfig where
  "SystemConfig_init = \<lparr>sy_name = ''RavBot'', sy_version = ''0.2.0'', sy_log_level = ''info'', sy_port = 0,
     sy_log_retention_days = 7, sy_log_max_size_mb = 50\<rparr>"

definition SystemConfig_FromJson :: "(string \<Rightarrow> int) \<Rightarrow> jval \<Rightarrow> SystemConfig option" where
  "SystemConfig_FromJson tr j = do {
     name \<leftarrow> value_text j ''name'' ''RavBot'';
     vers \<leftarrow> value_text j ''version'' ''0.2.0'';
     level \<leftarrow> value_text j ''logLevel'' ''info'';
     port \<leftarrow> value_as (get_int tr) j ''port'' 0;
     days \<leftarrow> value_as (get_int tr) j ''logRetentionDays'' 7;
     mb \<leftarrow> value_as (get_int tr) j ''logMaxSizeMb'' 50;
     Some \<lparr>sy_name = name, sy_version = vers, sy_log_level = level, sy_port = port,
       sy_log_retention_days = days, sy_log_max_size_mb = mb\<rparr>
   }"

record SecurityConfig =
  se_permission_level :: string
  se_allow_local_execute :: bool

definition SecurityConfig_FromJson :: "jval \<Rightarrow> SecurityConfig option" where
  "SecurityConfig_FromJson j = do {
     level \<leftarrow> value_text j ''permissionLevel'' ''auto'';
     exec \<leftarrow> value_bool j ''allowLocalExecute'' True;
     Some \<lparr>se_permission_level = level, se_allow_local_execute = exec\<rparr>
   }"

section \<open>The whole configuration\<close>

record RavBotConfig =
  rc_system :: SystemConfig
  rc_agent :: AgentConfig
  rc_gateway :: GatewayConfig
  rc_security :: SecurityConfig
  rc_providers :: "(string, ProviderConfig) umap"
  rc_channels :: "(string, ChannelConfig) umap"
  rc_tools_permission :: ToolPermissionConfig
  rc_mcp :: "MCPServerConfig list"
  rc_skills :: SkillsConfig
  rc_plugins_config :: jval
  rc_session_maintenance_config :: jval
  rc_subagent_config :: jval
  rc_browser_config :: jval
  rc_exec_approval_config :: jval
  rc_queue_config :: jval
  rc_model_providers :: "(string, ProviderConfig) umap"
  rc_model_entries :: "(string, ModelEntryConfig) umap"
  rc_tools :: "(string, ToolConfig) umap"

definition RavBotConfig_init :: RavBotConfig where
  "RavBotConfig_init = \<lparr>rc_system = SystemConfig_init, rc_agent = AgentConfig_init, rc_gateway = GatewayConfig_init,
     rc_security = \<lparr>se_permission_level = ''auto'', se_allow_local_execute = True\<rparr>, rc_providers = [],
     rc_channels = [], rc_tools_permission = \<lparr>tp_allow = [], tp_deny = []\<rparr>, rc_mcp = [],
     rc_skills = SkillsConfig_init, rc_plugins_config = JvNull, rc_session_maintenance_config = JvNull,
     rc_subagent_config = JvNull, rc_browser_config = JvNull, rc_exec_approval_config = JvNull,
     rc_queue_config = JvNull, rc_model_providers = [], rc_model_entries = [], rc_tools = []\<rparr>"

text \<open>The steps of \<open>FromJsonExpanded\<close>, in its order.\<close>

type_synonym config_step = "jval \<Rightarrow> RavBotConfig \<Rightarrow> RavBotConfig option"

definition set_ui_port :: "int \<Rightarrow> GatewayConfig \<Rightarrow> GatewayConfig" where
  "set_ui_port p g = g\<lparr>gc_control_ui := (gc_control_ui g)\<lparr>gu_port := p\<rparr>\<rparr>"

definition system_step :: "(string \<Rightarrow> int) \<Rightarrow> config_step" where
  "system_step tr j c = (case object_member j ''system'' of
     None \<Rightarrow> Some c
   | Some s \<Rightarrow> do {
       sys \<leftarrow> SystemConfig_FromJson tr s;
       Some (c\<lparr>rc_system := sys,
         rc_gateway := if 0 < sy_port sys then set_ui_port (sy_port sys) (rc_gateway c) else rc_gateway c\<rparr>)
     })"

definition llm_step :: "(string \<Rightarrow> int) \<Rightarrow> config_step" where
  "llm_step tr j c = (case object_member j ''llm'' of
     None \<Rightarrow> Some c
   | Some llm \<Rightarrow> do {
       provider \<leftarrow> value_text llm ''provider'' ''openai'';
       model \<leftarrow> value_text llm ''model'' default_model;
       temp \<leftarrow> value_as get_double llm ''temperature'' (JvReal ''0.7'');
       tokens \<leftarrow> value_as (get_int tr) llm ''maxTokens'' 8192;
       key \<leftarrow> value_text llm ''apiKey'' [];
       url \<leftarrow> value_text llm ''baseUrl'' [];
       timeout \<leftarrow> value_as (get_int tr) llm ''timeout'' 30;
       Some (c\<lparr>rc_agent := (rc_agent c)\<lparr>ac_model := model, ac_temperature := temp, ac_max_tokens := tokens\<rparr>,
         rc_providers := AList.update provider
           \<lparr>pc_api_key = key, pc_base_url = url, pc_api = [], pc_timeout = timeout, pc_models = []\<rparr> (rc_providers c)\<rparr>)
     })"

definition agent_defaults :: "jval \<Rightarrow> jval option" where
  "agent_defaults j = Option.bind (member_of j ''agents'') (\<lambda>a. member_of a ''defaults'')"

definition agent_step :: "(string \<Rightarrow> int) \<Rightarrow> config_step" where
  "agent_step tr j c =
     (case object_member j ''agent'' of
        Some a \<Rightarrow> map_option (\<lambda>x. c\<lparr>rc_agent := x\<rparr>) (AgentConfig_FromJson tr a)
      | None \<Rightarrow> (case agent_defaults j of
          Some d \<Rightarrow> map_option (\<lambda>x. c\<lparr>rc_agent := x\<rparr>) (AgentConfig_FromJson tr d)
        | None \<Rightarrow> Some c))"

definition gateway_step :: "(string \<Rightarrow> int) \<Rightarrow> config_step" where
  "gateway_step tr j c = (case object_member j ''gateway'' of
     None \<Rightarrow> Some c
   | Some g \<Rightarrow> map_option (\<lambda>x. c\<lparr>rc_gateway := x\<rparr>) (GatewayConfig_FromJson tr g))"

definition providers_step :: "(string \<Rightarrow> int) \<Rightarrow> config_step" where
  "providers_step tr j c = (case object_member j ''providers'' of
     None \<Rightarrow> Some c
   | Some p \<Rightarrow> map_option (\<lambda>x. c\<lparr>rc_providers := x\<rparr>)
       (put_items (ProviderConfig_FromJson tr) (members p) (rc_providers c)))"

definition model_providers_step :: "(string \<Rightarrow> int) \<Rightarrow> config_step" where
  "model_providers_step tr j c =
     (case Option.bind (object_member j ''models'') (\<lambda>m. object_member m ''providers'') of
        None \<Rightarrow> Some c
      | Some p \<Rightarrow> map_option (\<lambda>x. c\<lparr>rc_model_providers := x\<rparr>)
          (put_items (ProviderConfig_FromJson tr) (members p) (rc_model_providers c)))"

definition object_defaults :: "jval \<Rightarrow> jval option" where
  "object_defaults j = Option.bind (object_member j ''agents'') (\<lambda>a. object_member a ''defaults'')"

definition model_entries_step :: config_step where
  "model_entries_step j c =
     (case Option.bind (object_defaults j) (\<lambda>d. object_member d ''models'') of
        None \<Rightarrow> Some c
      | Some m \<Rightarrow> map_option (\<lambda>x. c\<lparr>rc_model_entries := x\<rparr>)
          (put_items ModelEntryConfig_FromJson (members m) (rc_model_entries c)))"

definition model_object_step :: config_step where
  "model_object_step j c =
     (case Option.bind (object_defaults j) (\<lambda>d. object_member d ''model'') of
        None \<Rightarrow> Some c
      | Some m \<Rightarrow> do {
          primary \<leftarrow> value_text m ''primary'' (ac_model (rc_agent c));
          fallbacks \<leftarrow> (case member_of m ''fallbacks'' of
                          Some (JvArray xs) \<Rightarrow> get_texts (JvArray xs)
                        | _ \<Rightarrow> Some (ac_fallbacks (rc_agent c)));
          Some (c\<lparr>rc_agent := (rc_agent c)\<lparr>ac_model := primary, ac_fallbacks := fallbacks\<rparr>\<rparr>)
        })"

definition channels_step :: config_step where
  "channels_step j c = (case object_member j ''channels'' of
     None \<Rightarrow> Some c
   | Some h \<Rightarrow> map_option (\<lambda>x. c\<lparr>rc_channels := x\<rparr>)
       (put_items ChannelConfig_FromJson (members h) (rc_channels c)))"

definition security_step :: config_step where
  "security_step j c = (case object_member j ''security'' of
     None \<Rightarrow> Some c | Some s \<Rightarrow> map_option (\<lambda>x. c\<lparr>rc_security := x\<rparr>) (SecurityConfig_FromJson s))"

definition mcp_step :: "(string \<Rightarrow> int) \<Rightarrow> config_step" where
  "mcp_step tr j c = (case object_member j ''mcp'' of
     None \<Rightarrow> Some c | Some m \<Rightarrow> map_option (\<lambda>x. c\<lparr>rc_mcp := x\<rparr>) (MCPConfig_FromJson tr m))"

definition skills_step :: config_step where
  "skills_step j c = (case object_member j ''skills'' of
     None \<Rightarrow> Some c | Some s \<Rightarrow> map_option (\<lambda>x. c\<lparr>rc_skills := x\<rparr>) (SkillsConfig_FromJson s))"

text \<open>The sections that are kept as they are; none of them throws.\<close>

definition raw_step :: "jval \<Rightarrow> RavBotConfig \<Rightarrow> RavBotConfig" where
  "raw_step j c = c\<lparr>
     rc_plugins_config := value_or (object_member j ''plugins'') (rc_plugins_config c),
     rc_session_maintenance_config :=
       value_or (Option.bind (object_member j ''session'') (\<lambda>s. member_of s ''maintenance'')) (rc_session_maintenance_config c),
     rc_subagent_config :=
       (case object_member j ''subagents'' of
          Some s \<Rightarrow> s
        | None \<Rightarrow> value_or (Option.bind (object_defaults j) (\<lambda>d. member_of d ''subagents'')) (rc_subagent_config c)),
     rc_browser_config := value_or (object_member j ''browser'') (rc_browser_config c),
     rc_queue_config := value_or (object_member j ''queue'') (rc_queue_config c)\<rparr>"

definition tools_step :: "(string \<Rightarrow> int) \<Rightarrow> config_step" where
  "tools_step tr j c = (case object_member j ''tools'' of
     None \<Rightarrow> Some c
   | Some t \<Rightarrow>
       (let c' = c\<lparr>rc_exec_approval_config := value_or (object_member t ''exec'') (rc_exec_approval_config c)\<rparr>
        in if has_member t ''allow'' \<or> has_member t ''deny''
           then map_option (\<lambda>x. c'\<lparr>rc_tools_permission := x\<rparr>) (ToolPermissionConfig_FromJson t)
           else map_option (\<lambda>x. c'\<lparr>rc_tools := x\<rparr>)
             (put_items (ToolConfig_FromJson tr)
                (List.filter (\<lambda>(k, v). k \<noteq> ''exec'' \<and> k \<noteq> ''profile'') (members t)) (rc_tools c'))))"

definition FromJsonExpanded :: "(string \<Rightarrow> int) \<Rightarrow> jval \<Rightarrow> RavBotConfig option" where
  "FromJsonExpanded tr j = do {
     c1 \<leftarrow> system_step tr j RavBotConfig_init;
     c2 \<leftarrow> llm_step tr j c1;
     c3 \<leftarrow> agent_step tr j c2;
     c4 \<leftarrow> gateway_step tr j c3;
     c5 \<leftarrow> providers_step tr j c4;
     c6 \<leftarrow> model_providers_step tr j c5;
     c7 \<leftarrow> model_entries_step j c6;
     c8 \<leftarrow> model_object_step j c7;
     c9 \<leftarrow> channels_step j c8;
     c10 \<leftarrow> security_step j c9;
     c11 \<leftarrow> mcp_step tr j c10;
     c12 \<leftarrow> skills_step j c11;
     tools_step tr j (raw_step j c12)
   }"

definition RavBotConfig_FromJson :: "(string \<Rightarrow> string option) \<Rightarrow> (string \<Rightarrow> int) \<Rightarrow> jval \<Rightarrow> RavBotConfig option" where
  "RavBotConfig_FromJson env tr j = FromJsonExpanded tr (expand_env_in_json env j)"

text \<open>\<open>HOME\<close> is a variable of the environment as any other.\<close>

definition RavBotConfig_LoadFromFile ::
  "(string \<Rightarrow> string option) \<Rightarrow> (string \<Rightarrow> int) \<Rightarrow> (string \<Rightarrow> jval option) \<Rightarrow> config_files \<Rightarrow> string \<Rightarrow> RavBotConfig option" where
  "RavBotConfig_LoadFromFile env tr parse files filepath =
     (case map_of files (ExpandHome (env ''HOME'') filepath) of
        None \<Rightarrow> None
      | Some content \<Rightarrow> Option.bind (parse (strip_json5 content)) (RavBotConfig_FromJson env tr))"

section \<open>Validation\<close>

fun is_text :: "jval \<Rightarrow> bool" where "is_text (JvText s) = True" | "is_text _ = False"

fun is_boolean :: "jval \<Rightarrow> bool" where "is_boolean (JvBool b) = True" | "is_boolean _ = False"

fun is_array :: "jval \<Rightarrow> bool" where "is_array (JvArray xs) = True" | "is_array _ = False"

fun is_integer :: "jval \<Rightarrow> bool" where "is_integer (JvInt i) = True" | "is_integer _ = False"

fun is_number :: "jval \<Rightarrow> bool" where
  "is_number (JvInt i) = True" | "is_number (JvReal s) = True" | "is_number _ = False"

text \<open>A member that is there has to satisfy a condition; a text has to be one of some words.\<close>

definition check_member :: "string \<Rightarrow> jval \<Rightarrow> string \<Rightarrow> (jval \<Rightarrow> bool) \<Rightarrow> string \<Rightarrow> string list" where
  "check_member path j k ok what =
     (case member_of j k of
        Some v \<Rightarrow> if ok v then [] else [path @ ''.'' @ k @ '': '' @ what] | None \<Rightarrow> [])"

fun one_of :: "string list \<Rightarrow> jval \<Rightarrow> bool" where
  "one_of ws (JvText s) = (s \<in> set ws)"
| "one_of ws _ = True"

definition quoted_words :: "string list \<Rightarrow> string" where
  "quoted_words ws = ''must be one of '' @ str_join '', '' (map (\<lambda>w. [CHR 0x27] @ w @ [CHR 0x27]) ws)"

definition check_words :: "string \<Rightarrow> jval \<Rightarrow> string \<Rightarrow> string list \<Rightarrow> string list" where
  "check_words path j k ws = check_member path j k (one_of ws) (quoted_words ws)"

text \<open>A section has to be an object, or is not there.\<close>

definition check_section :: "jval \<Rightarrow> string \<Rightarrow> (jval \<Rightarrow> string list) \<Rightarrow> string list" where
  "check_section j k check =
     (case member_of j k of
        None \<Rightarrow> []
      | Some s \<Rightarrow> if is_object s then check s else [k @ '': must be an object''])"

definition check_items :: "string \<Rightarrow> (string \<Rightarrow> jval \<Rightarrow> string list) \<Rightarrow> jval \<Rightarrow> string list" where
  "check_items section check j =
     concat (map (\<lambda>(k, v). if is_object v then check (section @ ''.'' @ k) v
                           else [section @ ''.'' @ k @ '': must be an object'']) (members j))"

definition check_agent :: "jval \<Rightarrow> string list" where
  "check_agent a =
     check_member ''agent'' a ''model'' (\<lambda>v. is_text v \<or> is_object v) ''must be a string or object''
     @ check_member ''agent'' a ''maxIterations'' is_integer ''must be an integer''
     @ check_member ''agent'' a ''max_iterations'' is_integer ''must be an integer''
     @ check_member ''agent'' a ''temperature'' is_number ''must be a number''
     @ check_member ''agent'' a ''maxTokens'' is_integer ''must be an integer''
     @ check_member ''agent'' a ''max_tokens'' is_integer ''must be an integer''
     @ check_member ''agent'' a ''contextWindow'' is_integer ''must be an integer''
     @ check_member ''agent'' a ''context_window'' is_integer ''must be an integer''
     @ check_words ''agent'' a ''thinking'' [''off'', ''low'', ''medium'', ''high'']
     @ check_member ''agent'' a ''fallbacks'' is_array ''must be an array''"

definition check_provider :: "string \<Rightarrow> jval \<Rightarrow> string list" where
  "check_provider path p =
     check_member path p ''apiKey'' is_text ''must be a string''
     @ check_member path p ''api_key'' is_text ''must be a string''
     @ check_member path p ''baseUrl'' is_text ''must be a string''
     @ check_member path p ''base_url'' is_text ''must be a string''
     @ check_member path p ''timeout'' is_integer ''must be an integer''"

definition check_gateway :: "jval \<Rightarrow> string list" where
  "check_gateway g =
     check_member ''gateway'' g ''port'' is_integer ''must be an integer''
     @ check_member ''gateway'' g ''bind'' is_text ''must be a string''"

definition check_channel :: "string \<Rightarrow> jval \<Rightarrow> string list" where
  "check_channel path h =
     check_member path h ''enabled'' is_boolean ''must be a boolean''
     @ check_member path h ''token'' is_text ''must be a string''
     @ check_member path h ''botToken'' is_text ''must be a string''"

definition check_system :: "jval \<Rightarrow> string list" where
  "check_system s =
     check_words ''system'' s ''logLevel'' [''trace'', ''debug'', ''info'', ''warn'', ''error'', ''critical'', ''off'']
     @ check_member ''system'' s ''port'' is_integer ''must be an integer''"

definition check_security :: "jval \<Rightarrow> string list" where
  "check_security s =
     check_words ''security'' s ''permissionLevel'' [''auto'', ''strict'', ''permissive'']
     @ check_member ''security'' s ''allowLocalExecute'' is_boolean ''must be a boolean''"

definition RavBotConfig_Validate :: "jval \<Rightarrow> string list" where
  "RavBotConfig_Validate j =
     (if \<not> is_object j then [''Root configuration must be a JSON object'']
      else check_section j ''agent'' check_agent
        @ check_section j ''providers'' (check_items ''providers'' check_provider)
        @ check_section j ''gateway'' check_gateway
        @ check_section j ''channels'' (check_items ''channels'' check_channel)
        @ check_section j ''system'' check_system
        @ check_section j ''security'' check_security)"

definition Merge :: "(jval \<Rightarrow> jval \<Rightarrow> jval) \<Rightarrow> jval \<Rightarrow> jval \<Rightarrow> jval" where
  "Merge merge_patch base overriding = merge_patch base overriding"

section \<open>Two spellings\<close>

lemma value_as_Some:
  "value_as conv j k d = Some x \<longleftrightarrow>
     is_object j \<and> (case member_of j k of None \<Rightarrow> x = d | Some v \<Rightarrow> conv v = Some x)"
  by (cases j) (auto simp: value_as_def member_of_def split: option.splits)

text \<open>The first spelling wins, but both are converted when they are there.\<close>

lemma either_value_Some:
  "either_value conv j a b d = Some x \<longleftrightarrow>
     is_object j \<and> (\<forall>v. member_of j b = Some v \<longrightarrow> conv v \<noteq> None) \<and>
     (case member_of j a of Some v \<Rightarrow> conv v = Some x
      | None \<Rightarrow> (case member_of j b of Some v \<Rightarrow> conv v = Some x | None \<Rightarrow> x = d))"
  by (auto simp: either_value_def bind_eq_Some_conv value_as_Some split: option.splits)

definition spelled :: "(jval \<Rightarrow> 'a option) \<Rightarrow> jval \<Rightarrow> string \<Rightarrow> string \<Rightarrow> 'a \<Rightarrow> 'a option" where
  "spelled conv j a b d =
     (case member_of j a of Some v \<Rightarrow> conv v
      | None \<Rightarrow> (case member_of j b of Some v \<Rightarrow> conv v | None \<Rightarrow> Some d))"

lemma either_spelled: "either_value conv j a b d = Some x \<Longrightarrow> spelled conv j a b d = Some x"
  and either_converts: "either_value conv j a b d = Some x \<Longrightarrow> member_of j b = Some v \<Longrightarrow> conv v \<noteq> None"
  by (auto simp: either_value_Some spelled_def split: option.splits)

lemma agent_reads:
  assumes "AgentConfig_FromJson tr j = Some c"
  shows "either_value (get_int tr) j ''maxIterations'' ''max_iterations'' 32 = Some (ac_max_iterations c)"
    and "either_value (get_int tr) j ''maxTokens'' ''max_tokens'' 8192 = Some (ac_max_tokens c)"
    and "either_value (get_int tr) j ''contextWindow'' ''context_window'' 128000 = Some (ac_context_window c)"
    and "either_value as_bool j ''autoCompact'' ''auto_compact'' True = Some (ac_auto_compact c)"
  using assms unfolding AgentConfig_FromJson_def bind_eq_Some_conv option.inject
  by (elim exE conjE; hypsubst; simp only: AgentConfig.select_convs)+

lemma gateway_reads_ui:
  assumes "GatewayConfig_FromJson tr j = Some g"
  shows "(case member_of j ''controlUi'' of Some u \<Rightarrow> GatewayControlUiConfig_FromJson tr u
    | None \<Rightarrow> Some (gc_control_ui GatewayConfig_init)) = Some (gc_control_ui g)"
  using assms unfolding GatewayConfig_FromJson_def bind_eq_Some_conv option.inject
  by (elim exE conjE; hypsubst; simp only: GatewayConfig.select_convs)

lemma control_ui_port: "GatewayControlUiConfig_FromJson tr u = Some x \<Longrightarrow> value_as (get_int tr) u ''port'' 18801 = Some (gu_port x)"
  by (auto simp: GatewayControlUiConfig_FromJson_def bind_eq_Some_conv)

text \<open>
  In the agent section the spelling with capitals wins over the one with underscores, which wins over the
  default; and for a result the value under the other spelling must have the type too, even
  where it does not count.
\<close>

theorem agent_spellings:
  assumes "AgentConfig_FromJson tr j = Some c"
  shows "spelled (get_int tr) j ''maxIterations'' ''max_iterations'' 32 = Some (ac_max_iterations c)
    \<and> spelled (get_int tr) j ''maxTokens'' ''max_tokens'' 8192 = Some (ac_max_tokens c)
    \<and> spelled (get_int tr) j ''contextWindow'' ''context_window'' 128000 = Some (ac_context_window c)
    \<and> spelled as_bool j ''autoCompact'' ''auto_compact'' True = Some (ac_auto_compact c)
    \<and> (\<forall>v. member_of j ''max_tokens'' = Some v \<longrightarrow> get_int tr v \<noteq> None)
    \<and> (\<forall>v. member_of j ''context_window'' = Some v \<longrightarrow> get_int tr v \<noteq> None)"
  using agent_reads [OF assms, THEN either_spelled] agent_reads(2,3) [OF assms, THEN either_converts] by blast

theorem agent_spellings_witness:
  "spelled (get_int (\<lambda>s. 0)) (JvObject [(''maxTokens'', JvInt 5), (''max_tokens'', JvBool True)]) ''maxTokens'' ''max_tokens'' 8192 = Some 5"
proof -
  let ?j = "JvObject [(''maxTokens'', JvInt 5), (''max_tokens'', JvBool True)]"
  have "AgentConfig_FromJson (\<lambda>s. 0) ?j = Some (AgentConfig_init\<lparr>ac_max_tokens := 5\<rparr>)"
    by (simp add: AgentConfig_FromJson_def AgentConfig_init_def default_model_def either_value_def value_as_def
        value_text_def member_of_def wrap32_def)
  from agent_spellings [OF this] show ?thesis by simp
qed

section \<open>Sections that override each other\<close>

lemma step_frames:
  shows "llm_step tr j c = Some c' \<Longrightarrow> rc_gateway c' = rc_gateway c"
    and "agent_step tr j c = Some c' \<Longrightarrow> rc_gateway c' = rc_gateway c"
    and "providers_step tr j c = Some c' \<Longrightarrow> rc_gateway c' = rc_gateway c"
    and "model_providers_step tr j c = Some c' \<Longrightarrow> rc_gateway c' = rc_gateway c"
    and "model_entries_step j c = Some c' \<Longrightarrow> rc_gateway c' = rc_gateway c"
    and "model_object_step j c = Some c' \<Longrightarrow> rc_gateway c' = rc_gateway c"
    and "channels_step j c = Some c' \<Longrightarrow> rc_gateway c' = rc_gateway c"
    and "security_step j c = Some c' \<Longrightarrow> rc_gateway c' = rc_gateway c"
    and "mcp_step tr j c = Some c' \<Longrightarrow> rc_gateway c' = rc_gateway c"
    and "skills_step j c = Some c' \<Longrightarrow> rc_gateway c' = rc_gateway c"
    and "tools_step tr j c = Some c' \<Longrightarrow> rc_gateway c' = rc_gateway c"
  by (auto simp: llm_step_def agent_step_def providers_step_def model_providers_step_def model_entries_step_def
      model_object_step_def channels_step_def security_step_def mcp_step_def skills_step_def tools_step_def Let_def
      bind_eq_Some_conv split: option.splits if_splits)

lemma raw_step_gateway: "rc_gateway (raw_step j c) = rc_gateway c"
  by (simp add: raw_step_def)

lemma FromJsonExpanded_gateway:
  assumes "FromJsonExpanded tr j = Some c"
  shows "\<exists>c1 c3. system_step tr j RavBotConfig_init = Some c1 \<and> rc_gateway c3 = rc_gateway c1
    \<and> map_option rc_gateway (gateway_step tr j c3) = Some (rc_gateway c)"
proof -
  obtain c1 c2 c3 c4 c5 c6 c7 c8 c9 c10 c11 c12 where s:
    "system_step tr j RavBotConfig_init = Some c1" "llm_step tr j c1 = Some c2" "agent_step tr j c2 = Some c3"
    "gateway_step tr j c3 = Some c4" "providers_step tr j c4 = Some c5" "model_providers_step tr j c5 = Some c6"
    "model_entries_step j c6 = Some c7" "model_object_step j c7 = Some c8" "channels_step j c8 = Some c9"
    "security_step j c9 = Some c10" "mcp_step tr j c10 = Some c11" "skills_step j c11 = Some c12"
    "tools_step tr j (raw_step j c12) = Some c"
    using assms unfolding FromJsonExpanded_def bind_eq_Some_conv by blast
  have "rc_gateway c3 = rc_gateway c1" using step_frames(1) [OF s(2)] step_frames(2) [OF s(3)] by simp
  moreover have "rc_gateway c = rc_gateway c4"
    using step_frames(3) [OF s(5)] step_frames(4) [OF s(6)] step_frames(5) [OF s(7)] step_frames(6) [OF s(8)]
      step_frames(7) [OF s(9)] step_frames(8) [OF s(10)] step_frames(9) [OF s(11)] step_frames(10) [OF s(12)]
      step_frames(11) [OF s(13)] raw_step_gateway by simp
  ultimately show ?thesis using s(1,4) by auto
qed

text \<open>
  The port of the system section reaches the web interface only when there is no gateway section:
  with one, its own \<open>controlUi\<close> or the default counts.
\<close>

theorem system_port_lost:
  assumes "FromJsonExpanded tr j = Some c" and "object_member j ''system'' = Some s"
    and "value_as (get_int tr) s ''port'' 0 = Some p" and "0 < p"
  shows "gu_port (gc_control_ui (rc_gateway c)) =
    (case object_member j ''gateway'' of
       None \<Rightarrow> p
     | Some g \<Rightarrow> (case member_of g ''controlUi'' of
         None \<Rightarrow> 18801 | Some u \<Rightarrow> the (value_as (get_int tr) u ''port'' 18801)))"
proof -
  obtain c1 c3 where c: "system_step tr j RavBotConfig_init = Some c1" "rc_gateway c3 = rc_gateway c1"
      "map_option rc_gateway (gateway_step tr j c3) = Some (rc_gateway c)"
    using FromJsonExpanded_gateway [OF assms(1)] by blast
  show ?thesis
  proof (cases "object_member j ''gateway''")
    case None
    have "gu_port (gc_control_ui (rc_gateway c1)) = p" using c(1) assms(2-4)
      by (auto simp: system_step_def bind_eq_Some_conv SystemConfig_FromJson_def set_ui_port_def)
    with None c(2,3) show ?thesis by (auto simp: gateway_step_def)
  next
    case (Some g)
    with c(3) have "GatewayConfig_FromJson tr g = Some (rc_gateway c)" by (auto simp: gateway_step_def)
    note ui = gateway_reads_ui [OF this]
    show ?thesis
    proof (cases "member_of g ''controlUi''")
      case None
      with ui have "gc_control_ui (rc_gateway c) = gc_control_ui GatewayConfig_init" by simp
      with Some None show ?thesis by (simp add: GatewayConfig_init_def)
    next
      case (Some u)
      with ui control_ui_port [of tr u] \<open>object_member j ''gateway'' = Some g\<close> show ?thesis by simp
    qed
  qed
qed

theorem system_port_lost_witness:
  "map_option (\<lambda>c. gu_port (gc_control_ui (rc_gateway c)))
     (FromJsonExpanded (\<lambda>s. 0) (JvObject [(''system'', JvObject [(''port'', JvInt 9000)]), (''gateway'', JvObject [])])) = Some 18801"
proof -
  let ?j = "JvObject [(''system'', JvObject [(''port'', JvInt 9000)]), (''gateway'', JvObject [])]"
  have s: "object_member ?j ''system'' = Some (JvObject [(''port'', JvInt 9000)])"
    by (simp add: object_member_def member_of_def)
  have p: "value_as (get_int (\<lambda>s. 0)) (JvObject [(''port'', JvInt 9000)]) ''port'' 0 = Some 9000"
    by (simp add: value_as_def wrap32_def)
  have "FromJsonExpanded (\<lambda>s. 0) ?j \<noteq> None"
    by (simp add: FromJsonExpanded_def system_step_def llm_step_def agent_step_def gateway_step_def providers_step_def
        model_providers_step_def model_entries_step_def model_object_step_def channels_step_def security_step_def
        mcp_step_def skills_step_def tools_step_def raw_step_def object_member_def agent_defaults_def object_defaults_def
        SystemConfig_FromJson_def GatewayConfig_FromJson_def either_value_def value_as_def value_text_def member_of_def)
  then obtain c where c: "FromJsonExpanded (\<lambda>s. 0) ?j = Some c" by blast
  from system_port_lost [OF c s p] show ?thesis
    by (simp add: c object_member_def member_of_def)
qed

section \<open>When reading throws, and what validation promises\<close>

definition readable :: "(jval \<Rightarrow> 'a option) \<Rightarrow> jval \<Rightarrow> string \<Rightarrow> bool" where
  "readable conv j k = (case member_of j k of None \<Rightarrow> True | Some v \<Rightarrow> conv v \<noteq> None)"

lemma reads_iff [json_simps]:
  shows "(\<exists>x. value_as conv j k d = Some x) \<longleftrightarrow> is_object j \<and> readable conv j k"
    and "(\<exists>x. either_value conv j a b d = Some x) \<longleftrightarrow> is_object j \<and> readable conv j a \<and> readable conv j b"
  by (auto simp: either_value_Some value_as_Some readable_def split: option.splits)

lemma bind_reads: "(\<exists>y. Option.bind e f = Some y) \<longleftrightarrow> (\<exists>x. e = Some x \<and> (\<exists>y. f x = Some y))"
  by (cases e) auto

lemma AgentConfig_reads:
  "AgentConfig_FromJson tr j \<noteq> None \<longleftrightarrow> is_object j
    \<and> list_all (readable (get_int tr) j) [''maxIterations'', ''max_iterations'', ''maxTokens'', ''max_tokens'',
        ''contextWindow'', ''context_window'', ''compactMaxMessages'', ''compact_max_messages'',
        ''compactKeepRecent'', ''compact_keep_recent'', ''compactMaxTokens'', ''compact_max_tokens'',
        ''compactTimeoutSeconds'', ''compact_timeout_seconds'']
    \<and> readable get_double j ''temperature'' \<and> readable as_text j ''thinking'' \<and> readable get_texts j ''fallbacks''
    \<and> readable as_bool j ''autoCompact'' \<and> readable as_bool j ''auto_compact''"
proof -
  have "(\<exists>c. AgentConfig_FromJson tr j = Some c) \<longleftrightarrow> (\<exists>x. either_value (get_int tr) j ''maxIterations'' ''max_iterations'' 32 = Some x)
     \<and> (\<exists>x. value_as get_double j ''temperature'' (JvReal ''0.7'') = Some x)
     \<and> (\<exists>x. either_value (get_int tr) j ''maxTokens'' ''max_tokens'' 8192 = Some x)
     \<and> (\<exists>x. either_value (get_int tr) j ''contextWindow'' ''context_window'' 128000 = Some x)
     \<and> (\<exists>x. value_as as_text j ''thinking'' ''off'' = Some x)
     \<and> (\<exists>x. value_as get_texts j ''fallbacks'' [] = Some x)
     \<and> (\<exists>x. either_value as_bool j ''autoCompact'' ''auto_compact'' True = Some x)
     \<and> (\<exists>x. either_value (get_int tr) j ''compactMaxMessages'' ''compact_max_messages'' 100 = Some x)
     \<and> (\<exists>x. either_value (get_int tr) j ''compactKeepRecent'' ''compact_keep_recent'' 20 = Some x)
     \<and> (\<exists>x. either_value (get_int tr) j ''compactMaxTokens'' ''compact_max_tokens'' 100000 = Some x)
     \<and> (\<exists>x. either_value (get_int tr) j ''compactTimeoutSeconds'' ''compact_timeout_seconds'' 900 = Some x)"
    unfolding AgentConfig_FromJson_def value_text_def bind_eq_Some_conv by blast
  then show ?thesis by (simp only: reads_iff not_None_eq list.pred_inject simp_thms) blast
qed

lemma simple_reads:
  shows "ProviderConfig_FromJson tr j \<noteq> None \<longleftrightarrow> is_object j \<and> readable as_text j ''apiKey'' \<and> readable as_text j ''api_key''
      \<and> readable as_text j ''baseUrl'' \<and> readable as_text j ''base_url'' \<and> readable as_text j ''api''
      \<and> readable (get_int tr) j ''timeout''
      \<and> all_some_list (map (ModelDefinition_FromJson tr) (array_member j ''models'')) \<noteq> None"
    and "SecurityConfig_FromJson j \<noteq> None \<longleftrightarrow> is_object j \<and> readable as_text j ''permissionLevel''
      \<and> readable as_bool j ''allowLocalExecute''"
    and "SystemConfig_FromJson tr j \<noteq> None \<longleftrightarrow> is_object j \<and> list_all (readable as_text j) [''name'', ''version'', ''logLevel'']
      \<and> list_all (readable (get_int tr) j) [''port'', ''logRetentionDays'', ''logMaxSizeMb'']"
  unfolding ProviderConfig_FromJson_def SecurityConfig_FromJson_def SystemConfig_FromJson_def value_text_def value_bool_def
    not_None_eq bind_reads option.inject
  by (auto simp: reads_iff)

lemma GatewayConfig_reads:
  "GatewayConfig_FromJson tr j \<noteq> None \<longleftrightarrow> is_object j \<and> readable (get_int tr) j ''port'' \<and> readable as_text j ''bind''
    \<and> readable GatewayAuthConfig_FromJson j ''auth'' \<and> readable (GatewayControlUiConfig_FromJson tr) j ''controlUi''
    \<and> list_all (readable (get_int tr) j) [''healthTimeoutThresholdPercent'', ''health_timeout_threshold_percent'',
        ''healthMaxTimeoutCount'', ''health_max_timeout_count'', ''healthDegradedCheckCount'', ''health_degraded_check_count'',
        ''authMaxAttempts'', ''auth_max_attempts'', ''authLockoutDurationSec'', ''auth_lockout_duration_sec'']"
proof -
  have 1: "readable f j k \<longleftrightarrow> (\<exists>x. (case member_of j k of Some a \<Rightarrow> f a | None \<Rightarrow> Some d) = Some x)" for f k d
    by (auto simp: readable_def split: option.splits)
  show ?thesis
    unfolding GatewayConfig_FromJson_def value_text_def not_None_eq bind_reads option.inject list.pred_inject simp_thms
      1 [of GatewayAuthConfig_FromJson "''auth''" "gc_auth GatewayConfig_init"]
      1 [of "GatewayControlUiConfig_FromJson tr" "''controlUi''" "gc_control_ui GatewayConfig_init"]
    using reads_iff by (auto simp: reads_iff)
qed

text \<open>Which types the checks let pass.\<close>

lemma check_member_ok: "check_member path j k ok what = [] \<longleftrightarrow> (case member_of j k of None \<Rightarrow> True | Some v \<Rightarrow> ok v)"
  by (simp add: check_member_def split: option.splits)

lemma checked_readable:
  shows "check_member path j k is_integer what = [] \<Longrightarrow> readable (get_int tr) j k"
    and "check_member path j k is_number what = [] \<Longrightarrow> readable get_double j k"
    and "check_member path j k is_text what = [] \<Longrightarrow> readable as_text j k"
    and "check_member path j k is_boolean what = [] \<Longrightarrow> readable as_bool j k"
  by (auto simp: check_member_ok readable_def elim!: is_integer.elims is_number.elims is_text.elims is_boolean.elims
      split: option.splits)

definition only_members :: "jval \<Rightarrow> string list \<Rightarrow> bool" where
  "only_members j ks = list_all (\<lambda>(k, v). k \<in> set ks) (members j)"

lemma absent_member: "only_members j ks \<Longrightarrow> k \<notin> set ks \<Longrightarrow> member_of j k = None"
  by (cases "member_of j k") (auto simp: only_members_def member_of_def list_all_iff dest!: map_of_SomeD)

lemma absent_readable: "only_members j ks \<Longrightarrow> k \<notin> set ks \<Longrightarrow> readable conv j k"
  by (simp add: readable_def absent_member)

text \<open>Configurations with those members only that validation looks at completely.\<close>

definition checked_only :: "jval \<Rightarrow> bool" where
  "checked_only j \<longleftrightarrow> only_members j [''agent'', ''providers'', ''gateway'', ''channels'', ''system'', ''security'']
     \<and> (\<forall>a. member_of j ''agent'' = Some a \<longrightarrow> only_members a [''model'', ''maxIterations'', ''max_iterations'',
          ''temperature'', ''maxTokens'', ''max_tokens'', ''contextWindow'', ''context_window''])
     \<and> (\<forall>p. member_of j ''providers'' = Some p \<longrightarrow> list_all (\<lambda>(k, v). only_members v [''apiKey'', ''api_key'',
          ''baseUrl'', ''base_url'', ''timeout'']) (members p))
     \<and> (\<forall>g. member_of j ''gateway'' = Some g \<longrightarrow> only_members g [''port'', ''bind''])
     \<and> (\<forall>h. member_of j ''channels'' = Some h \<longrightarrow> list_all (\<lambda>(k, v). only_members v [''enabled'', ''token'', ''botToken'']) (members h))
     \<and> (\<forall>s. member_of j ''system'' = Some s \<longrightarrow> only_members s [''port''])
     \<and> (\<forall>s. member_of j ''security'' = Some s \<longrightarrow> only_members s [''allowLocalExecute''])"

lemma agent_checked:
  assumes "is_object a" and "check_agent a = []"
    and "only_members a [''model'', ''maxIterations'', ''max_iterations'', ''temperature'', ''maxTokens'', ''max_tokens'',
      ''contextWindow'', ''context_window'']"
  shows "AgentConfig_FromJson tr a \<noteq> None"
  unfolding AgentConfig_reads list.pred_inject
  by (intro conjI TrueI assms(1)) (use assms(2) [unfolded check_agent_def append_is_Nil_conv] in \<open>blast intro: checked_readable\<close>
      | rule absent_readable [OF assms(3)], simp; fail | rule list.pred_inject(1))+

lemma provider_checked:
  assumes "is_object p" and "check_provider path p = []"
    and "only_members p [''apiKey'', ''api_key'', ''baseUrl'', ''base_url'', ''timeout'']"
  shows "ProviderConfig_FromJson tr p \<noteq> None"
proof -
  have "member_of p ''models'' = None"
    by (rule absent_member [OF assms(3)]) simp
  then have "array_member p ''models'' = []" by (simp add: array_member_def)
  then have models: "all_some_list (map (ModelDefinition_FromJson tr) (array_member p ''models'')) \<noteq> None" by simp
  show ?thesis unfolding simple_reads
    by (intro conjI assms(1) models) (use assms(2) [unfolded check_provider_def append_is_Nil_conv] in \<open>blast intro: checked_readable\<close>
      | rule absent_readable [OF assms(3)], simp; fail | rule list.pred_inject(1))+
qed

lemma gateway_checked:
  assumes "is_object g" and "check_gateway g = []" and "only_members g [''port'', ''bind'']"
  shows "GatewayConfig_FromJson tr g \<noteq> None"
  unfolding GatewayConfig_reads list.pred_inject
  by (intro conjI TrueI assms(1)) (use assms(2) [unfolded check_gateway_def append_is_Nil_conv] in \<open>blast intro: checked_readable\<close>
      | rule absent_readable [OF assms(3)], simp; fail | rule list.pred_inject(1))+

lemma channel_checked:
  assumes "is_object h" and "check_channel path h = []" and "only_members h [''enabled'', ''token'', ''botToken'']"
  shows "ChannelConfig_FromJson h \<noteq> None"
proof -
  have r: "readable as_bool h ''enabled''" "readable as_text h ''token''" "readable as_text h ''botToken''" "readable get_texts h ''allowed_ids''"

    by (use assms(2) [unfolded check_channel_def append_is_Nil_conv] in \<open>blast intro: checked_readable\<close>
      | rule absent_readable [OF assms(3)], simp; fail | rule list.pred_inject(1))+
  have "\<exists>x. value_as as_bool h ''enabled'' False = Some x" "\<exists>x. value_as get_texts h ''allowed_ids'' [] = Some x"
    using r assms(1) by (simp_all only: reads_iff simp_thms)
  moreover have "\<exists>x. (case member_of h ''botToken'' of Some v \<Rightarrow> as_text v | None \<Rightarrow> value_as as_text h ''token'' []) = Some x"
  proof (cases "member_of h ''botToken''")
    case None
    with r(2) assms(1) show ?thesis by (simp only: reads_iff option.case simp_thms)
  qed (use r(3) in \<open>simp add: readable_def\<close>)
  ultimately show ?thesis unfolding ChannelConfig_FromJson_def value_text_def value_bool_def not_None_eq bind_reads by simp
qed

lemma system_checked:
  assumes "is_object s" and "check_system s = []" and "only_members s [''port'']"
  shows "SystemConfig_FromJson tr s \<noteq> None"
  unfolding simple_reads list.pred_inject
  by (intro conjI TrueI assms(1)) (use assms(2) [unfolded check_system_def append_is_Nil_conv] in \<open>blast intro: checked_readable\<close>
      | rule absent_readable [OF assms(3)], simp; fail | rule list.pred_inject(1))+

lemma security_checked:
  assumes "is_object s" and "check_security s = []" and "only_members s [''allowLocalExecute'']"
  shows "SecurityConfig_FromJson s \<noteq> None"
  unfolding simple_reads list.pred_inject
  by (intro conjI TrueI assms(1)) (use assms(2) [unfolded check_security_def append_is_Nil_conv] in \<open>blast intro: checked_readable\<close>
      | rule absent_readable [OF assms(3)], simp; fail | rule list.pred_inject(1))+

lemma put_items_Some: "list_all (\<lambda>(k, v). f v \<noteq> None) items \<Longrightarrow> \<exists>m'. put_items f items m = Some m'"
  by (induction f items m rule: put_items.induct) auto

lemma check_items_ok:
  assumes "check_items section check p = []" and "list_all (\<lambda>(k, v). only_members v ks) (members p)"
    and "\<And>path v. is_object v \<Longrightarrow> check path v = [] \<Longrightarrow> only_members v ks \<Longrightarrow> f v \<noteq> None"
  shows "\<exists>m'. put_items f (members p) m = Some m'"
proof -
  have "f v \<noteq> None" if "(k, v) \<in> set (members p)" for k v
  proof -
    have "is_object v" "check (section @ ''.'' @ k) v = []" "only_members v ks"
      using assms(1,2) that by (auto simp: check_items_def list_all_iff split: if_splits)
    with assms(3) show ?thesis by blast
  qed
  then show ?thesis by (intro put_items_Some) (auto simp: list_all_iff)
qed



text \<open>
  Validation does not look at every type: whatever is no text passes as a level of thinking, any
  element as a fallback, and reading then throws; a number with a fraction is
  rejected where reading would take it.
\<close>

theorem validation_misses:
  assumes "as_text v = None"
  shows "RavBotConfig_Validate (JvObject [(''agent'', JvObject [(''thinking'', v)])]) = []
    \<and> FromJsonExpanded tr (JvObject [(''agent'', JvObject [(''thinking'', v)])]) = None
    \<and> RavBotConfig_Validate (JvObject [(''agent'', JvObject [(''fallbacks'', JvArray [v])])]) = []
    \<and> FromJsonExpanded tr (JvObject [(''agent'', JvObject [(''fallbacks'', JvArray [v])])]) = None
    \<and> RavBotConfig_Validate (JvObject [(''agent'', JvObject [(''maxTokens'', JvReal r)])]) \<noteq> []
    \<and> FromJsonExpanded tr (JvObject [(''agent'', JvObject [(''maxTokens'', JvReal r)])]) \<noteq> None"
proof -
  have words: "one_of ws v" for ws using assms by (cases v) auto
  have agent: "FromJsonExpanded tr (JvObject [(''agent'', a)]) \<noteq> None \<longleftrightarrow> AgentConfig_FromJson tr a \<noteq> None" if "is_object a" for a
    using that by (cases a)
      (simp_all add: FromJsonExpanded_def system_step_def llm_step_def agent_step_def gateway_step_def providers_step_def
        model_providers_step_def model_entries_step_def model_object_step_def channels_step_def security_step_def
        mcp_step_def skills_step_def tools_step_def raw_step_def object_member_def object_defaults_def member_of_def bind_reads)
  have "\<not> readable as_text (JvObject [(''thinking'', v)]) ''thinking''"
    and "\<not> readable get_texts (JvObject [(''fallbacks'', JvArray [v])]) ''fallbacks''"
    using assms by (simp_all add: readable_def member_of_def)
  then have "AgentConfig_FromJson tr (JvObject [(''thinking'', v)]) = None"
    and "AgentConfig_FromJson tr (JvObject [(''fallbacks'', JvArray [v])]) = None"
    using AgentConfig_reads by blast+
  moreover have "AgentConfig_FromJson tr (JvObject [(''maxTokens'', JvReal r)]) \<noteq> None"
    by (simp only: AgentConfig_reads) (simp add: readable_def member_of_def)
  ultimately show ?thesis
    using agent [of "JvObject [(''thinking'', v)]"] agent [of "JvObject [(''fallbacks'', JvArray [v])]"]
      agent [of "JvObject [(''maxTokens'', JvReal r)]"]
    by (simp add: RavBotConfig_Validate_def check_section_def check_agent_def check_member_def check_words_def words member_of_def)
qed

theorem validation_misses_witness:
  "FromJsonExpanded (\<lambda>s. 0) (JvObject [(''agent'', JvObject [(''thinking'', JvNull)])]) = None"
  using validation_misses [of JvNull "\<lambda>s. 0"] by simp

text \<open>
  The number of iterations grows with the context window between its two limits, and is the
  integral part of the linear interpolation between them.
\<close>

theorem dynamic_iterations:
  assumes "w \<le> w'"
  shows "DynamicMaxIterations w \<le> DynamicMaxIterations w' \<and> 32 \<le> DynamicMaxIterations w \<and> DynamicMaxIterations w' \<le> 160
    \<and> (w < 32768 \<or> 200000 < w \<or> (DynamicMaxIterations w - 32) * 167232 \<le> (w - 32768) * 128
        \<and> (w - 32768) * 128 < (DynamicMaxIterations w - 31) * 167232)"
proof -
  have bounds: "32 \<le> DynamicMaxIterations w \<and> DynamicMaxIterations w \<le> 160" for w
    unfolding DynamicMaxIterations_def by (simp; linarith?)
  then show ?thesis using assms unfolding DynamicMaxIterations_def by (auto intro: zdiv_mono1)
qed

theorem dynamic_iterations_witness: "DynamicMaxIterations 8192 \<le> DynamicMaxIterations 128000"
  using dynamic_iterations [of 8192 128000] by simp

end
