(* ===== verification/McpTools.thy ===== *)
theory McpTools
  imports McpServer Config
begin

text \<open>
  The client of the model context protocol (\<open>mcp/mcp_client.cpp\<close>) and the manager of the tools that it
  finds (\<open>mcp/mcp_tool_manager.cpp\<close>). The network is an argument: what posting a request to an address
  answers, or the text of an exception. The theorems join the client to the server of \<open>McpServer\<close>,
  give the invariant of the manager's maps and say when two tools get the same name.
\<close>

section \<open>The client\<close>

record Tool =
  tl_name :: string
  tl_description :: string
  tl_parameters :: jval

record MCPResponse =
  rp_result :: jval
  rp_error :: string

record MCPClient =
  cl_server_url :: string
  cl_request_id :: int

type_synonym network = "string \<Rightarrow> jval \<Rightarrow> string + jval"

definition MCPClient_new :: "string \<Rightarrow> MCPClient" where
  "MCPClient_new url = \<lparr>cl_server_url = url, cl_request_id = 0\<rparr>"

text \<open>The elements over which a loop over a JSON value goes.\<close>

fun elements :: "jval \<Rightarrow> jval list" where
  "elements (JvArray xs) = xs"
| "elements (JvObject m) = map snd m"
| "elements JvNull = []"
| "elements v = [v]"

definition read_tool :: "jval \<Rightarrow> Tool option" where
  "read_tool j = do {
     name \<leftarrow> value_text j ''name'' [];
     description \<leftarrow> value_text j ''description'' [];
     parameters \<leftarrow> (case member_of j ''inputSchema'' of Some v \<Rightarrow> Some v | None \<Rightarrow> value_as Some j ''parameters'' (JvObject []));
     Some \<lparr>tl_name = name, tl_description = description, tl_parameters = parameters\<rparr>
   }"

text \<open>\<open>None\<close> is an exception, of the network or of the JSON library.\<close>

definition ListTools :: "network \<Rightarrow> MCPClient \<Rightarrow> MCPClient \<times> Tool list option" where
  "ListTools net c =
     (let c' = c\<lparr>cl_request_id := cl_request_id c + 1\<rparr>;
          request = JvObject [(''jsonrpc'', JvText ''2.0''), (''method'', JvText ''tools/list''), (''id'', JvInt (cl_request_id c'))]
      in (c', case net (cl_server_url c) request of
                Inl what \<Rightarrow> None
              | Inr response \<Rightarrow>
                  (case Option.bind (member_of response ''result'') (\<lambda>r. member_of r ''tools'') of
                     None \<Rightarrow> Some []
                   | Some tools \<Rightarrow> all_some_list (map read_tool (elements tools)))))"

definition CallTool :: "string \<Rightarrow> network \<Rightarrow> string \<Rightarrow> jval \<Rightarrow> MCPClient \<Rightarrow> MCPClient \<times> MCPResponse" where
  "CallTool lw net tool_name arguments c =
     (let c' = c\<lparr>cl_request_id := cl_request_id c + 1\<rparr>;
          request = JvObject [(''jsonrpc'', JvText ''2.0''), (''method'', JvText ''tools/call''),
            (''params'', JvObject [(''name'', JvText tool_name), (''arguments'', arguments)]),
            (''id'', JvInt (cl_request_id c'))]
      in (c', case net (cl_server_url c) request of
                Inl what \<Rightarrow> \<lparr>rp_result = JvNull, rp_error = ''Request failed: '' @ what\<rparr>
              | Inr response \<Rightarrow>
                  (case member_of response ''result'' of
                     Some r \<Rightarrow> \<lparr>rp_result = r, rp_error = []\<rparr>
                   | None \<Rightarrow> (case member_of response ''error'' of
                       None \<Rightarrow> \<lparr>rp_result = JvNull, rp_error = []\<rparr>
                     | Some e \<Rightarrow> (case value_text e ''message'' ''Unknown error'' of
                         Some m \<Rightarrow> \<lparr>rp_result = JvNull, rp_error = m\<rparr>
                       | None \<Rightarrow> \<lparr>rp_result = JvNull, rp_error = ''Request failed: '' @ lw\<rparr>)))))"

section \<open>The manager\<close>

record MCPToolManager =
  tm_clients :: "(string, MCPClient) umap"
  tm_tool_to_server :: "(string, string) umap"
  tm_tool_to_original_name :: "(string, string) umap"
  tm_tool_meta :: "(string, string \<times> jval) umap"

definition MCPToolManager_init :: MCPToolManager where
  "MCPToolManager_init = \<lparr>tm_clients = [], tm_tool_to_server = [], tm_tool_to_original_name = [], tm_tool_meta = []\<rparr>"

definition MakeQualifiedName :: "string \<Rightarrow> string \<Rightarrow> string" where
  "MakeQualifiedName server_name tool_name = ''mcp__'' @ server_name @ ''__'' @ tool_name"

definition record_tool :: "string \<Rightarrow> MCPToolManager \<Rightarrow> Tool \<Rightarrow> MCPToolManager" where
  "record_tool server m t =
     (let qualified = MakeQualifiedName server (tl_name t)
      in m\<lparr>tm_tool_to_server := AList.update qualified server (tm_tool_to_server m),
           tm_tool_to_original_name := AList.update qualified (tl_name t) (tm_tool_to_original_name m),
           tm_tool_meta := AList.update qualified (tl_description t, tl_parameters t) (tm_tool_meta m)\<rparr>)"

definition discover_server :: "network \<Rightarrow> MCPToolManager \<Rightarrow> MCPServerConfig \<Rightarrow> MCPToolManager" where
  "discover_server net m cfg =
     (if ms_name cfg = [] \<or> ms_url cfg = [] then m
      else case ListTools net (MCPClient_new (ms_url cfg)) of
             (client, None) \<Rightarrow> m
           | (client, Some tools) \<Rightarrow>
               foldl (record_tool (ms_name cfg)) (m\<lparr>tm_clients := AList.update (ms_name cfg) client (tm_clients m)\<rparr>) tools)"

definition DiscoverTools :: "network \<Rightarrow> MCPServerConfig list \<Rightarrow> MCPToolManager \<Rightarrow> MCPToolManager" where
  "DiscoverTools net servers m = foldl (discover_server net) m servers"

text \<open>The answer of a tool: the text of an exception, or the printed result.\<close>

definition ExecuteTool ::
  "string \<Rightarrow> (jval \<Rightarrow> string) \<Rightarrow> network \<Rightarrow> string \<Rightarrow> jval \<Rightarrow> MCPToolManager \<Rightarrow> MCPToolManager \<times> (string + string)" where
  "ExecuteTool lw dump net qualified_name arguments m =
     (case map_of (tm_tool_to_server m) qualified_name of
        None \<Rightarrow> (m, Inl (''Unknown MCP tool: '' @ qualified_name))
      | Some server \<Rightarrow> (case map_of (tm_tool_to_original_name m) qualified_name of
          None \<Rightarrow> (m, Inl (''Missing original name for MCP tool: '' @ qualified_name))
        | Some original \<Rightarrow> (case map_of (tm_clients m) server of
            None \<Rightarrow> (m, Inl (''MCP client not found for server: '' @ server))
          | Some client \<Rightarrow>
              (let (client', response) = CallTool lw net original arguments client
               in (m\<lparr>tm_clients := AList.update server client' (tm_clients m)\<rparr>,
                   if rp_error response \<noteq> [] then Inl (''MCP tool error: '' @ rp_error response)
                   else Inr (dump (rp_result response)))))))"

definition IsExternalTool :: "MCPToolManager \<Rightarrow> string \<Rightarrow> bool" where
  "IsExternalTool m name = (map_of (tm_tool_to_server m) name \<noteq> None)"

definition GetServerName :: "MCPToolManager \<Rightarrow> string \<Rightarrow> string" where
  "GetServerName m q = value_or (map_of (tm_tool_to_server m) q) []"

definition GetOriginalToolName :: "MCPToolManager \<Rightarrow> string \<Rightarrow> string" where
  "GetOriginalToolName m q = value_or (map_of (tm_tool_to_original_name m) q) []"

definition ToolCount :: "MCPToolManager \<Rightarrow> nat" where
  "ToolCount m = length (tm_tool_to_server m)"

text \<open>What is registered with the table of tools: name, description and parameters.\<close>

definition RegisterInto :: "MCPToolManager \<Rightarrow> (string \<times> string \<times> jval) list" where
  "RegisterInto m = tm_tool_meta m"

section \<open>The invariant of the manager\<close>

definition entry_ok :: "MCPToolManager \<Rightarrow> string \<Rightarrow> bool" where
  "entry_ok m q =
     (case map_of (tm_tool_to_server m) q of
        None \<Rightarrow> map_of (tm_tool_to_original_name m) q = None \<and> map_of (tm_tool_meta m) q = None
      | Some s \<Rightarrow> (\<exists>t. map_of (tm_tool_to_original_name m) q = Some t \<and> q = MakeQualifiedName s t)
          \<and> map_of (tm_tool_meta m) q \<noteq> None \<and> map_of (tm_clients m) s \<noteq> None)"

definition manager_ok :: "MCPToolManager \<Rightarrow> bool" where
  "manager_ok m \<longleftrightarrow> um_ok (tm_tool_to_server m) \<and> (\<forall>q. entry_ok m q)"

lemma manager_ok_init: "manager_ok MCPToolManager_init"
  by (simp add: manager_ok_def entry_ok_def MCPToolManager_init_def)

lemma record_tool_ok:
  assumes "manager_ok m" and "map_of (tm_clients m) s \<noteq> None"
  shows "manager_ok (record_tool s m t)"
proof -
  have "entry_ok (record_tool s m t) q = (q = MakeQualifiedName s (tl_name t) \<or> entry_ok m q)" for q
    using assms(2) by (cases "q = MakeQualifiedName s (tl_name t)") (auto simp: entry_ok_def record_tool_def Let_def map_of_update cong: option.case_cong)
  then show ?thesis using assms(1) by (simp add: manager_ok_def) (simp add: record_tool_def Let_def)
qed

lemma record_tools_ok:
  "manager_ok m \<Longrightarrow> map_of (tm_clients m) s \<noteq> None \<Longrightarrow> manager_ok (foldl (record_tool s) m ts)"
proof (induction ts arbitrary: m)
  case (Cons t ts)
  have "tm_clients (record_tool s m t) = tm_clients m" by (simp add: record_tool_def Let_def)
  then show ?case using Cons by (simp add: record_tool_ok)
qed simp

lemma clients_update_ok:
  assumes "manager_ok m"
  shows "manager_ok (m\<lparr>tm_clients := AList.update s c (tm_clients m)\<rparr>)"
proof -
  have "entry_ok m q \<Longrightarrow> entry_ok (m\<lparr>tm_clients := AList.update s c (tm_clients m)\<rparr>) q" for q
    by (auto simp: entry_ok_def map_of_update split: option.splits)
  then show ?thesis using assms by (simp add: manager_ok_def)
qed

lemma discover_server_ok: "manager_ok m \<Longrightarrow> manager_ok (discover_server net m cfg)"
  by (auto simp: discover_server_def map_of_update split: option.splits prod.splits intro!: record_tools_ok clients_update_ok)

datatype manager_event = Discover network "MCPServerConfig list" | Execute network string jval

fun manager_next :: "string \<Rightarrow> (jval \<Rightarrow> string) \<Rightarrow> MCPToolManager \<Rightarrow> manager_event \<Rightarrow> MCPToolManager" where
  "manager_next lw dump m (Discover net servers) = DiscoverTools net servers m"
| "manager_next lw dump m (Execute net q args) = fst (ExecuteTool lw dump net q args m)"

lemma DiscoverTools_ok: "manager_ok m \<Longrightarrow> manager_ok (DiscoverTools net servers m)"
  unfolding DiscoverTools_def by (induction servers arbitrary: m) (auto intro: discover_server_ok)

lemma ExecuteTool_ok: "manager_ok m \<Longrightarrow> manager_ok (fst (ExecuteTool lw dump net q args m))"
  by (auto simp: ExecuteTool_def Let_def split: option.splits prod.splits intro: clients_update_ok)

interpretation tool_manager: guarded_machine "\<lambda>m. m = MCPToolManager_init" "\<lambda>_ _. True" "manager_next lw dump" manager_ok
  for lw dump
proof unfold_locales
  fix m e
  assume "manager_ok m"
  then show "manager_ok (manager_next lw dump m e)" by (cases e) (auto intro: DiscoverTools_ok ExecuteTool_ok)
qed (simp add: manager_ok_init)

lemma manager_run: "manager_ok (foldl (manager_next lw dump) MCPToolManager_init es)"
proof -
  have "tool_manager.enabled_run lw dump m es" for m by (induction es arbitrary: m) auto
  then show ?thesis using tool_manager.inv_from_start by blast
qed

section \<open>Names, calls and the server\<close>

text \<open>
  After any discoveries and calls a tool that the manager knows has the name that is made of its server and
  its original name, and calling it asks the client of that server for the original name; what
  it does not know is refused. The internal errors of the lookups never occur.
\<close>

theorem known_tools_run:
  fixes es lw dump
  defines "m \<equiv> foldl (manager_next lw dump) MCPToolManager_init es"
  shows "if IsExternalTool m q
    then q = MakeQualifiedName (GetServerName m q) (GetOriginalToolName m q) \<and>
      (\<exists>client. map_of (tm_clients m) (GetServerName m q) = Some client \<and>
        snd (ExecuteTool lw dump net q args m) =
          (let r = snd (CallTool lw net (GetOriginalToolName m q) args client)
           in if rp_error r \<noteq> [] then Inl (''MCP tool error: '' @ rp_error r) else Inr (dump (rp_result r))))
    else snd (ExecuteTool lw dump net q args m) = Inl (''Unknown MCP tool: '' @ q)"
proof -
  have ok: "entry_ok m q" using manager_run [of lw dump es] by (simp add: m_def manager_ok_def)
  show ?thesis
  proof (cases "map_of (tm_tool_to_server m) q")
    case (Some s)
    with ok obtain t c where "map_of (tm_tool_to_original_name m) q = Some t" "q = MakeQualifiedName s t"
        "map_of (tm_clients m) s = Some c" by (auto simp: entry_ok_def)
    with Some show ?thesis
      by (auto simp: IsExternalTool_def GetServerName_def GetOriginalToolName_def ExecuteTool_def Let_def split: prod.splits)
  qed (simp add: IsExternalTool_def ExecuteTool_def)
qed

lemma append_underscore_inject:
  "CHR ''_'' \<notin> set s \<Longrightarrow> CHR ''_'' \<notin> set s' \<Longrightarrow> s @ CHR ''_'' # t = s' @ CHR ''_'' # t' \<longleftrightarrow> s = s' \<and> t = t'"
proof (induction s arbitrary: s')
  case Nil
  then show ?case by (cases s') auto
next
  case (Cons c s)
  then show ?case by (cases s') auto
qed

text \<open>
  Names of tools are unambiguous when the names of servers have no underscore. With underscores two tools of
  different servers can have one name, and after the discovery of both only the later one can be called.
\<close>

theorem qualified_names:
  "(CHR ''_'' \<notin> set s \<and> CHR ''_'' \<notin> set s' \<longrightarrow>
      (MakeQualifiedName s t = MakeQualifiedName s' t' \<longleftrightarrow> s = s' \<and> t = t'))
   \<and> MakeQualifiedName (a @ ''__'' @ b) c = MakeQualifiedName a (b @ ''__'' @ c)
   \<and> (let q = MakeQualifiedName a (b @ ''__'' @ c);
          m' = record_tool a (record_tool (a @ ''__'' @ b) m \<lparr>tl_name = c, tl_description = d, tl_parameters = p\<rparr>)
                 \<lparr>tl_name = b @ ''__'' @ c, tl_description = d', tl_parameters = p'\<rparr>
      in GetServerName m' q = a \<and> GetOriginalToolName m' q = b @ ''__'' @ c)"
  using append_underscore_inject [of s s' "CHR ''_'' # t" "CHR ''_'' # t'"]
  by (auto simp: MakeQualifiedName_def record_tool_def Let_def GetServerName_def GetOriginalToolName_def map_of_update)

theorem qualified_names_witness: "MakeQualifiedName ''a'' ''b'' \<noteq> MakeQualifiedName ''c'' ''b''"
  using qualified_names [of "''a''" "''c''" "''b''" "''b''"] by simp

text \<open>A network in which one server answers.\<close>

definition post :: "string \<Rightarrow> MCPServer \<Rightarrow> network" where
  "post lw s url request =
     (case HandleRequest lw s request of Some r \<Rightarrow> Inr r | None \<Rightarrow> Inl ''the connection was closed'')"

definition listed :: "MCPTool \<Rightarrow> Tool" where
  "listed t = \<lparr>tl_name = mt_name t, tl_description = mt_description t,
     tl_parameters = the (member_of (GetSchema t) ''inputSchema'')\<rparr>"

lemma read_tool_schema: "read_tool (GetSchema t) = Some (listed t)"
  by (simp add: read_tool_def GetSchema_def listed_def value_text_def value_as_def member_of_def)

lemma server_lists:
  "\<exists>ts. HandleRequest lw (foldl register_in MCPServer_init rs) (list_request ident)
      = Some (create_success_response ident (JvObject [(''tools'', JvArray (map GetSchema ts))]))
    \<and> distinct (map mt_name ts) \<and> set ts = {t. latest_tool rs (mt_name t) = Some t}"
  using latest_tool_listed by blast

text \<open>
  Claim C27. A client of this server finds the tools registered last under each name, with their schemas, and a call
  gives what the tool returned, or its exception or the missing tool as the error.
\<close>

theorem client_of_server:
  fixes rs lw
  defines "net \<equiv> post lw (foldl register_in MCPServer_init rs)"
  shows "(\<exists>ts. snd (ListTools net c) = Some (map listed ts) \<and> distinct (map mt_name ts)
        \<and> set ts = {t. latest_tool rs (mt_name t) = Some t})
    \<and> snd (CallTool lw net n args c) =
      (case latest_tool rs n of
         None \<Rightarrow> \<lparr>rp_result = JvNull, rp_error = ''Tool not found: '' @ n\<rparr>
       | Some t \<Rightarrow> (case mt_execute t args of
           Inl what \<Rightarrow> \<lparr>rp_result = JvNull, rp_error = ''Tool execution failed: '' @ what\<rparr>
         | Inr result \<Rightarrow> \<lparr>rp_result = JvObject [(''content'', JvArray [JvObject [(''type'', JvText ''text''), (''text'', JvText result)]])],
             rp_error = []\<rparr>))"
proof
  let ?i = "JvInt (cl_request_id c + 1)"
  obtain ts where ts: "HandleRequest lw (foldl register_in MCPServer_init rs) (list_request ?i)
      = Some (create_success_response ?i (JvObject [(''tools'', JvArray (map GetSchema ts))]))"
    "distinct (map mt_name ts)" "set ts = {t. latest_tool rs (mt_name t) = Some t}"
    using server_lists by blast
  have "all_some_list (map read_tool (map GetSchema ts)) = Some (map listed ts)"
    by (simp add: all_some_list_iff read_tool_schema)
  then have "snd (ListTools net c) = Some (map listed ts)"
    using ts(1) by (simp add: ListTools_def net_def post_def list_request_def create_success_response_def member_of_def)
  with ts show "\<exists>ts. snd (ListTools net c) = Some (map listed ts) \<and> distinct (map mt_name ts)
      \<and> set ts = {t. latest_tool rs (mt_name t) = Some t}" by blast
  show "snd (CallTool lw net n args c) =
      (case latest_tool rs n of
         None \<Rightarrow> \<lparr>rp_result = JvNull, rp_error = ''Tool not found: '' @ n\<rparr>
       | Some t \<Rightarrow> (case mt_execute t args of
           Inl what \<Rightarrow> \<lparr>rp_result = JvNull, rp_error = ''Tool execution failed: '' @ what\<rparr>
         | Inr result \<Rightarrow> \<lparr>rp_result = JvObject [(''content'', JvArray [JvObject [(''type'', JvText ''text''), (''text'', JvText result)]])],
             rp_error = []\<rparr>))"
  proof (cases "latest_tool rs n")
    case None
    with server_calls [of lw rs ?i n args] show ?thesis
      by (simp add: CallTool_def net_def post_def call_request_def create_error_response_def member_of_def
          value_text_def value_as_def)
  next
    case (Some t)
    with server_calls [of lw rs ?i n args] show ?thesis
      by (cases "mt_execute t args") (simp_all add: CallTool_def net_def post_def call_request_def tool_failed_def
          create_success_response_def create_error_response_def member_of_def value_text_def value_as_def)
  qed
qed

text \<open>
  An error of a server whose message is empty, and an answer with neither a result nor an error, count as
  success: the caller gets the printed null.
\<close>

theorem silent_errors:
  assumes "map_of (tm_tool_to_server m) q = Some s" and "map_of (tm_tool_to_original_name m) q = Some t"
    and "map_of (tm_clients m) s = Some c"
    and "\<And>r. net (cl_server_url c) r = Inr (JvObject ms)"
    and "map_of ms ''result'' = None"
    and "map_of ms ''error'' = None \<or> map_of ms ''error'' = Some (JvObject [(''message'', JvText [])])"
  shows "snd (ExecuteTool lw dump net q args m) = Inr (dump JvNull)"
  using assms by (auto simp: ExecuteTool_def CallTool_def Let_def member_of_def value_text_def value_as_def)

theorem silent_errors_witness:
  "snd (ExecuteTool [] (\<lambda>j. ''null'') (\<lambda>u r. Inr (JvObject [])) ''mcp__a__b'' JvNull
     \<lparr>tm_clients = [(''a'', MCPClient_new ''u'')], tm_tool_to_server = [(''mcp__a__b'', ''a'')],
       tm_tool_to_original_name = [(''mcp__a__b'', ''b'')], tm_tool_meta = []\<rparr>) = Inr ''null''"
  by (rule silent_errors [where s = "''a''" and t = "''b''" and c = "MCPClient_new ''u''" and ms = "[]"]) simp_all

end
