(* ===== verification/AgentRequest.thy ===== *)
theory AgentRequest
  imports Pruner Json Compaction
begin

text \<open>
  What the agent does to the messages of a request before it is sent (\<open>core/agent_loop.cpp\<close>,
  \<open>providers/llm_provider.hpp\<close>): pairing of tool calls and results, collapsing of finished tool turns, merging, trimming to
  the current turn, the hint after a web search, and the truncation of results. The theorems say when a
  sequence has each call answered and each result asked for, which steps keep this, and which does not.
\<close>

section \<open>Requests\<close>

record ToolCall =
  tk_id :: string
  tk_name :: string
  tk_arguments :: "string option"

record ChatCompletionRequest =
  rq_messages :: "Message list"
  rq_model :: string
  rq_temperature :: jval
  rq_max_tokens :: int
  rq_tools :: "jval list"
  rq_tool_choice_type :: string
  rq_thinking :: string

record ChatCompletionResponse =
  re_content :: string
  re_tool_calls :: "ToolCall list"
  re_is_stream_end :: bool
  re_usage :: TokenUsage

definition text_message :: "string \<Rightarrow> string \<Rightarrow> Message" where
  "text_message role text =
     \<lparr>ms_role = role, ms_content = (if text \<noteq> [] then [MakeText text] else []), ms_timestamp = []\<rparr>"

definition message_text :: "Message \<Rightarrow> string" where
  "message_text m =
     concat (map cb_text (List.filter (\<lambda>b. cb_type b = ''text'' \<or> cb_type b = ''thinking'') (ms_content m)))"

definition estimate_tokens :: "Message list \<Rightarrow> int" where
  "estimate_tokens messages =
     cdiv (sum_list (map (\<lambda>m. int (length (ms_role m)) + sum_list (map block_chars (ms_content m))) messages)) 4"

definition estimate_tool_tokens :: "(jval \<Rightarrow> string) \<Rightarrow> jval list \<Rightarrow> int" where
  "estimate_tool_tokens dump tools = cdiv (sum_list (map (\<lambda>t. int (length (dump t))) tools)) 4"

text \<open>A schema of the table of tools: name, description, parameters.\<close>

definition build_request_tools :: "(string \<times> string \<times> jval) list \<Rightarrow> jval list" where
  "build_request_tools schemas = map (\<lambda>(name, description, parameters). JvObject
     [(''type'', JvText ''function''),
      (''function'', JvObject [(''name'', JvText name), (''description'', JvText description), (''parameters'', parameters)])]) schemas"

definition extract_tool_schema_name :: "jval \<Rightarrow> string" where
  "extract_tool_schema_name t =
     (case Option.bind (member_of t ''function'') (\<lambda>f. Option.bind (member_of f ''name'') as_text) of
        Some n \<Rightarrow> n
      | None \<Rightarrow> value_or (Option.bind (member_of t ''name'') as_text) [])"

section \<open>Pairing of calls and results\<close>

definition collect_tool_use_ids :: "Message \<Rightarrow> string list" where
  "collect_tool_use_ids m =
     map cb_id (List.filter (\<lambda>b. cb_type b = ''tool_use'' \<and> cb_id b \<noteq> []) (ms_content m))"

definition with_blocks :: "Message \<Rightarrow> ContentBlock list \<Rightarrow> Message" where
  "with_blocks m bs = \<lparr>ms_role = ms_role m, ms_content = bs, ms_timestamp = []\<rparr>"

text \<open>What is pushed when something is left.\<close>

definition unless_empty :: "Message \<Rightarrow> Message list" where
  "unless_empty m = (if ms_content m = [] then [] else [m])"

definition without_results :: "Message \<Rightarrow> Message" where
  "without_results m = with_blocks m (List.filter (\<lambda>b. cb_type b \<noteq> ''tool_result'') (ms_content m))"

text \<open>The results of the next user message that answer one of the calls, and its other blocks.\<close>

definition answering_blocks :: "string list \<Rightarrow> Message \<Rightarrow> ContentBlock list" where
  "answering_blocks ids m = List.filter (\<lambda>b. cb_type b = ''tool_result'' \<longrightarrow>
     cb_tool_use_id b \<noteq> [] \<and> cb_tool_use_id b \<in> set ids) (ms_content m)"

definition matched_ids :: "string list \<Rightarrow> Message \<Rightarrow> string list" where
  "matched_ids ids m =
     map cb_tool_use_id (List.filter (\<lambda>b. cb_type b = ''tool_result'') (answering_blocks ids m))"

definition answered_calls :: "string list \<Rightarrow> Message \<Rightarrow> Message" where
  "answered_calls matched m =
     (let blocks = List.filter (\<lambda>b. cb_type b \<noteq> ''tool_use'' \<or> cb_id b \<in> set matched) (ms_content m)
      in with_blocks m (if blocks = [] \<and> ms_content m \<noteq> [] then [MakeText ''[tool calls omitted]''] else blocks))"

fun repair_anthropic_tool_pairing :: "Message list \<Rightarrow> Message list" where
  "repair_anthropic_tool_pairing [] = []"
| "repair_anthropic_tool_pairing (m # rest) =
     (if ms_role m = ''user'' then unless_empty (without_results m) @ repair_anthropic_tool_pairing rest
      else if ms_role m \<noteq> ''assistant'' \<or> collect_tool_use_ids m = [] then m # repair_anthropic_tool_pairing rest
      else case rest of
             [] \<Rightarrow> [answered_calls [] m]
           | n # rest' \<Rightarrow>
               if ms_role n = ''user''
               then answered_calls (matched_ids (collect_tool_use_ids m) n) m
                 # unless_empty (with_blocks n (answering_blocks (collect_tool_use_ids m) n))
                 @ repair_anthropic_tool_pairing rest'
               else answered_calls [] m # repair_anthropic_tool_pairing rest)"

definition merge_user :: "Message list \<Rightarrow> Message \<Rightarrow> Message list" where
  "merge_user merged m =
     (if merged \<noteq> [] \<and> ms_role m = ''user'' \<and> ms_role (last merged) = ''user''
      then butlast merged @ [(last merged)\<lparr>ms_content := ms_content (last merged) @ ms_content m\<rparr>]
      else merged @ [m])"

definition merge_consecutive_user_messages :: "Message list \<Rightarrow> Message list" where
  "merge_consecutive_user_messages messages = foldl merge_user [] messages"

definition has_tool_use_blocks :: "Message \<Rightarrow> bool" where
  "has_tool_use_blocks m = list_ex is_tool_use (ms_content m)"

definition has_only_tool_result_blocks :: "Message \<Rightarrow> bool" where
  "has_only_tool_result_blocks m \<longleftrightarrow>
     ms_role m = ''user'' \<and> ms_content m \<noteq> [] \<and> list_all is_tool_result (ms_content m)"

definition has_non_tool_result_blocks :: "Message \<Rightarrow> bool" where
  "has_non_tool_result_blocks m \<longleftrightarrow> ms_role m = ''user'' \<and> list_ex (\<lambda>b. \<not> is_tool_result b) (ms_content m)"

fun collapse_completed_anthropic_tool_turns :: "Message list \<Rightarrow> Message list" where
  "collapse_completed_anthropic_tool_turns (m # r # a # u # rest) =
     (if ms_role m = ''assistant'' \<and> has_tool_use_blocks m \<and> has_only_tool_result_blocks r
         \<and> ms_role a = ''assistant'' \<and> \<not> has_tool_use_blocks a \<and> ms_role u = ''user''
      then a # collapse_completed_anthropic_tool_turns (u # rest)
      else m # collapse_completed_anthropic_tool_turns (r # a # u # rest))"
| "collapse_completed_anthropic_tool_turns messages = messages"

text \<open>The last index from \<open>lo\<close> on at which a condition holds.\<close>

definition last_index :: "(Message \<Rightarrow> bool) \<Rightarrow> nat \<Rightarrow> Message list \<Rightarrow> nat option" where
  "last_index P lo ms =
     (case List.filter (\<lambda>i. P (ms ! i)) [lo..<length ms] of [] \<Rightarrow> None | is \<Rightarrow> Some (last is))"

definition is_system :: "Message \<Rightarrow> bool" where "is_system m \<longleftrightarrow> ms_role m = ''system''"

definition trim_anthropic_replay_to_current_turn :: "Message list \<Rightarrow> Message list" where
  "trim_anthropic_replay_to_current_turn messages =
     (if messages = [] \<or> \<not> has_only_tool_result_blocks (last messages) then messages
      else
        (let systems = takeWhile is_system messages
         in case last_index has_non_tool_result_blocks (length systems) messages of
              None \<Rightarrow> messages
            | Some turn_start \<Rightarrow> systems @ drop turn_start messages))"

section \<open>Replays of tools\<close>

definition trailing_result_ids :: "Message list \<Rightarrow> string list" where
  "trailing_result_ids messages =
     (if length messages < 2 \<or> ms_role (last messages) \<noteq> ''user'' then []
      else map cb_tool_use_id (List.filter (\<lambda>b. cb_type b = ''tool_result'' \<and> cb_tool_use_id b \<noteq> []) (ms_content (last messages))))"

definition matched_names :: "string list \<Rightarrow> Message \<Rightarrow> string list" where
  "matched_names ids m = (if ms_role m \<noteq> ''assistant'' then []
     else map cb_name (List.filter (\<lambda>b. cb_type b = ''tool_use'' \<and> cb_id b \<noteq> [] \<and> cb_id b \<in> set ids \<and> cb_name b \<noteq> [])
       (ms_content m)))"

text \<open>The names in the latest message that has one of the calls.\<close>

definition collect_trailing_replay_tool_names :: "Message list \<Rightarrow> string list" where
  "collect_trailing_replay_tool_names messages =
     (let ids = trailing_result_ids messages
      in if ids = [] then []
         else case List.filter (\<lambda>ns. ns \<noteq> []) (map (matched_names ids) (tl (rev messages))) of
                [] \<Rightarrow> [] | ns # _ \<Rightarrow> ns)"

definition kReplayHint :: string where
  "kReplayHint = ''[web_search replay hint] Use the existing web_search tool results '' @
     ''already present in this conversation. Do not run another web search '' @
     ''or output a raw search-results dump. Synthesize the provided results '' @
     ''into a concise answer that focuses on the most relevant matches for '' @
     ''the user'' @ [CHR 0x27] @ ''s request.''"

definition maybe_add_web_search_replay_instruction :: "Message list \<Rightarrow> string list \<Rightarrow> Message list" where
  "maybe_add_web_search_replay_instruction messages names =
     (if ''web_search'' \<notin> set names then messages
      else if list_ex (\<lambda>m. is_system m \<and> str_contains kReplayHint (message_text m)) messages then messages
      else takeWhile is_system messages @ [text_message ''system'' kReplayHint] @ dropWhile is_system messages)"

definition sanitize_for_anthropic :: "Message list \<Rightarrow> Message list" where
  "sanitize_for_anthropic messages =
     (let ms = trim_anthropic_replay_to_current_turn (merge_consecutive_user_messages
                 (collapse_completed_anthropic_tool_turns (repair_anthropic_tool_pairing messages)))
      in maybe_add_web_search_replay_instruction ms (collect_trailing_replay_tool_names ms))"

text \<open>\<open>provider\<close> is the name of the provider, if there is one.\<close>

definition sanitize_request_messages_for_provider ::
  "string option \<Rightarrow> TurnValidator option \<Rightarrow> Message list \<Rightarrow> Message list" where
  "sanitize_request_messages_for_provider provider validator messages =
     (let ms = (if provider = Some ''anthropic'' then sanitize_for_anthropic messages else messages)
      in case (validator, provider) of (Some v, Some p) \<Rightarrow> ValidateAndFix v ms p | _ \<Rightarrow> ms)"

section \<open>Results and windows\<close>

definition truncate_tool_result :: "string \<Rightarrow> int \<Rightarrow> int \<Rightarrow> string" where
  "truncate_tool_result result max_chars keep_lines =
     (if int (length result) \<le> max_chars then result
      else
        (let lines = lines_of result; k = nat keep_lines
         in if int (length lines) \<le> keep_lines * 2 then result
            else concat (map (\<lambda>l. l @ [newline]) (take k lines))
              @ [newline] @ ''... ['' @ to_string (int (length lines) - keep_lines * 2) @ '' lines omitted] ...'' @ [newline, newline]
              @ concat (map (\<lambda>l. l @ [newline]) (drop (length lines - k) lines))))"

definition get_context_window :: "string \<Rightarrow> int" where
  "get_context_window model =
     (if str_contains ''claude'' model then 200000
      else if str_contains ''gpt-4o'' model then 131072
      else if str_contains ''gpt-4-turbo'' model then 131072
      else if str_contains ''gpt-4'' model then 8192
      else if str_contains ''gpt-3.5'' model then 16384
      else if str_contains ''qwen'' model then 131072
      else if str_contains ''deepseek'' model then 131072
      else 128000)"

section \<open>Paired sequences\<close>

text \<open>A result asked for by the message before, and a call answered by the message after.\<close>

definition asks :: "Message option \<Rightarrow> ContentBlock \<Rightarrow> bool" where
  "asks p b \<longleftrightarrow> (\<exists>m. p = Some m \<and> ms_role m = ''assistant'' \<and>
     (\<exists>c \<in> set (ms_content m). is_tool_use c \<and> cb_id c = cb_tool_use_id b))"

definition answers :: "Message option \<Rightarrow> ContentBlock \<Rightarrow> bool" where
  "answers n c \<longleftrightarrow> (\<exists>m. n = Some m \<and> ms_role m = ''user'' \<and>
     (\<exists>b \<in> set (ms_content m). is_tool_result b \<and> cb_tool_use_id b = cb_id c))"

definition first_of :: "Message list \<Rightarrow> Message option" where
  "first_of ms = (case ms of [] \<Rightarrow> None | m # _ \<Rightarrow> Some m)"

lemma first_of_simps [simp]: "first_of [] = None" "first_of (m # ms) = Some m"
  by (simp_all add: first_of_def)

definition asked_in :: "Message option \<Rightarrow> Message \<Rightarrow> bool" where
  "asked_in p m \<longleftrightarrow> (ms_role m = ''user'' \<longrightarrow> (\<forall>b \<in> set (ms_content m). is_tool_result b \<longrightarrow> asks p b))"

definition answered_in :: "Message \<Rightarrow> Message option \<Rightarrow> bool" where
  "answered_in m n \<longleftrightarrow>
     (ms_role m = ''assistant'' \<longrightarrow> (\<forall>c \<in> set (ms_content m). is_tool_use c \<and> cb_id c \<noteq> [] \<longrightarrow> answers n c))"

fun paired :: "Message option \<Rightarrow> Message list \<Rightarrow> bool" where
  "paired p [] = True"
| "paired p (m # ms) = (asked_in p m \<and> answered_in m (first_of ms) \<and> paired (Some m) ms)"

lemma asked_in_plain: "\<forall>b \<in> set (ms_content m). \<not> is_tool_result b \<Longrightarrow> asked_in p m"
  by (simp add: asked_in_def)

lemma answered_in_plain: "\<forall>c \<in> set (ms_content m). is_tool_use c \<longrightarrow> cb_id c = [] \<Longrightarrow> answered_in m n"
  by (auto simp: answered_in_def)

lemma other_role: "ms_role m \<noteq> ''user'' \<Longrightarrow> asked_in p m" "ms_role m \<noteq> ''assistant'' \<Longrightarrow> answered_in m n"
  by (simp_all add: asked_in_def answered_in_def)

text \<open>A sequence whose first message asks for no result may stand after anything.\<close>

definition starts_fresh :: "Message list \<Rightarrow> bool" where
  "starts_fresh ms \<longleftrightarrow> (case ms of [] \<Rightarrow> True | m # _ \<Rightarrow>
     ms_role m = ''user'' \<longrightarrow> (\<forall>b \<in> set (ms_content m). \<not> is_tool_result b))"

lemma paired_fresh: "paired p ms \<Longrightarrow> starts_fresh ms \<Longrightarrow> paired q ms"
  by (cases ms) (auto simp: starts_fresh_def asked_in_def)

lemma role_with_blocks [simp]: "ms_role (with_blocks m bs) = ms_role m" "ms_content (with_blocks m bs) = bs"
  by (simp_all add: with_blocks_def)

lemma role_answered_calls [simp]: "ms_role (answered_calls ids m) = ms_role m"
  by (simp add: answered_calls_def Let_def)

lemma answered_calls_uses:
  "c \<in> set (ms_content (answered_calls ids m)) \<Longrightarrow> is_tool_use c \<Longrightarrow> cb_id c \<in> set ids \<and> c \<in> set (ms_content m)"
  by (auto simp: answered_calls_def Let_def is_tool_use_def MakeText_def ContentBlock_empty_def split: if_splits)

lemma answered_calls_keeps:
  "c \<in> set (ms_content m) \<Longrightarrow> is_tool_use c \<Longrightarrow> cb_id c \<in> set ids \<Longrightarrow> c \<in> set (ms_content (answered_calls ids m))"
  by (auto simp: answered_calls_def Let_def filter_empty_conv)

lemma fresh_nil [simp]: "starts_fresh []"
  by (simp add: starts_fresh_def)

lemma repair_fresh: "starts_fresh (repair_anthropic_tool_pairing ms)"
proof (induction ms rule: repair_anthropic_tool_pairing.induct)
  case (2 m rest)
  show ?case
  proof (cases "ms_role m = ''user''")
    case True
    with 2(1) show ?thesis
      by (auto simp: starts_fresh_def unless_empty_def without_results_def is_tool_result_def)
  next
    case False
    then show ?thesis by (auto simp: starts_fresh_def split: list.splits)
  qed
qed simp

lemma repair_paired: "paired p (repair_anthropic_tool_pairing ms)"
proof (induction ms arbitrary: p rule: repair_anthropic_tool_pairing.induct)
  case (2 m rest)
  have fresh: "starts_fresh (repair_anthropic_tool_pairing ms)" for ms by (rule repair_fresh)
  consider (user) "ms_role m = ''user''"
    | (plain) "ms_role m \<noteq> ''user''" "ms_role m \<noteq> ''assistant'' \<or> collect_tool_use_ids m = []"
    | (last) "ms_role m = ''assistant''" "collect_tool_use_ids m \<noteq> []" "rest = []"
    | (alone) n rest' where "ms_role m = ''assistant''" "collect_tool_use_ids m \<noteq> []" "rest = n # rest'" "ms_role n \<noteq> ''user''"
    | (pair) n rest' where "ms_role m = ''assistant''" "collect_tool_use_ids m \<noteq> []" "rest = n # rest'" "ms_role n = ''user''"
    by (cases rest) auto
  then show ?case
  proof cases
    case user
    have "asked_in p (without_results m)" "answered_in (without_results m) n" for n
      using user by (auto simp: asked_in_def answered_in_def without_results_def is_tool_result_def)
    with user 2(1) show ?thesis by (simp add: unless_empty_def)
  next
    case plain
    have "answered_in m n" for n
      using plain(2) by (auto simp: answered_in_def collect_tool_use_ids_def filter_empty_conv is_tool_use_def)
    moreover have "repair_anthropic_tool_pairing (m # rest) = m # repair_anthropic_tool_pairing rest" using plain by simp
    ultimately show ?thesis using plain 2(2) [OF plain] other_role(1) by simp
  next
    case last
    have "answered_in (answered_calls [] m) n" for n
      using answered_calls_uses [of _ "[]" m] by (auto simp: answered_in_def)
    with last show ?thesis by (simp add: other_role)
  next
    case alone
    have "answered_in (answered_calls [] m) n" for n
      using answered_calls_uses [of _ "[]" m] by (auto simp: answered_in_def)
    with alone 2(4) show ?thesis by (simp add: other_role)
  next
    case pair
    let ?ids = "collect_tool_use_ids m"
    let ?a = "answered_calls (matched_ids ?ids n) m" and ?u = "with_blocks n (answering_blocks ?ids n)"
    let ?r = "repair_anthropic_tool_pairing rest'"
    have split: "repair_anthropic_tool_pairing (m # rest) = ?a # unless_empty ?u @ ?r" using pair by simp
    have r: "paired q ?r" for q using 2(3) [of n rest'] pair by simp
    have asked: "asked_in (Some ?a) ?u"
      unfolding asked_in_def asks_def
    proof (intro impI ballI exI conjI)
      fix b
      assume b: "b \<in> set (ms_content ?u)" "is_tool_result b"
      then have id: "cb_tool_use_id b \<in> set ?ids" and m: "cb_tool_use_id b \<in> set (matched_ids ?ids n)"
        by (auto simp: answering_blocks_def matched_ids_def is_tool_result_def)
      from id obtain c where "c \<in> set (ms_content m)" "is_tool_use c" "cb_id c = cb_tool_use_id b"
        by (auto simp: collect_tool_use_ids_def is_tool_use_def)
      then show "\<exists>c \<in> set (ms_content ?a). is_tool_use c \<and> cb_id c = cb_tool_use_id b"
        using m answered_calls_keeps by force
    qed (use pair in simp_all)
    have use: "\<exists>b \<in> set (ms_content ?u). is_tool_result b \<and> cb_tool_use_id b = cb_id c"
      if "c \<in> set (ms_content ?a)" "is_tool_use c" for c
      using answered_calls_uses [OF that] by (auto simp: matched_ids_def is_tool_result_def)
    show ?thesis
    proof (cases "ms_content ?u = []")
      case True
      then have "answered_in ?a k" for k using use by (fastforce simp: answered_in_def)
      with True r split pair show ?thesis by (simp add: unless_empty_def other_role)
    next
      case False
      have "answered_in ?a (Some ?u)" using use pair by (auto simp: answered_in_def answers_def)
      with False asked r split pair show ?thesis by (simp add: unless_empty_def other_role)
    qed
  qed
qed simp

section \<open>Steps that keep the pairing\<close>

lemma collapse_first: "ms_role r \<noteq> ''assistant'' \<Longrightarrow> first_of (collapse_completed_anthropic_tool_turns (r # ms)) = Some r"
  by (cases "r # ms" rule: collapse_completed_anthropic_tool_turns.cases) auto

lemma answered_in_calls:
  "answered_in m n \<Longrightarrow> answered_in m n' \<or> (\<exists>u. n = Some u \<and> ms_role u = ''user'')"
  by (auto simp: answered_in_def answers_def)

lemma collapse_paired: "paired p ms \<Longrightarrow> paired p (collapse_completed_anthropic_tool_turns ms)"
proof (induction ms arbitrary: p rule: collapse_completed_anthropic_tool_turns.induct)
  case (1 m r a u rest)
  let ?c = "ms_role m = ''assistant'' \<and> has_tool_use_blocks m \<and> has_only_tool_result_blocks r
         \<and> ms_role a = ''assistant'' \<and> \<not> has_tool_use_blocks a \<and> ms_role u = ''user''"
  show ?case
  proof (cases ?c)
    case True
    then have "answered_in a n" for n by (auto simp: answered_in_def has_tool_use_blocks_def list_ex_iff)
    with True 1(1) [OF True] 1(3) show ?thesis by (simp add: other_role)
  next
    case False
    let ?rest = "collapse_completed_anthropic_tool_turns (r # a # u # rest)"
    have "paired (Some m) ?rest" using False 1(2) 1(3) by simp
    moreover have "answered_in m (first_of ?rest)"
    proof (cases "ms_role r = ''user''")
      case True
      then show ?thesis using 1(3) collapse_first [of r "a # u # rest"] by simp
    next
      case r: False
      have "answered_in m (Some r)" using 1(3) by simp
      then show ?thesis using answered_in_calls r by blast
    qed
    moreover have "collapse_completed_anthropic_tool_turns (m # r # a # u # rest) = m # ?rest"
      using False by auto
    ultimately show ?thesis using 1(3) by simp
  qed
qed simp_all

fun merge_rest :: "Message \<Rightarrow> Message list \<Rightarrow> Message list" where
  "merge_rest m [] = [m]"
| "merge_rest m (n # ms) =
     (if ms_role n = ''user'' \<and> ms_role m = ''user''
      then merge_rest (m\<lparr>ms_content := ms_content m @ ms_content n\<rparr>) ms else m # merge_rest n ms)"

lemma merge_foldl_rest: "foldl merge_user (xs @ [m]) ms = xs @ merge_rest m ms"
proof (induction ms arbitrary: xs m)
  case (Cons n ms)
  show ?case
    using Cons.IH [of xs "m\<lparr>ms_content := ms_content m @ ms_content n\<rparr>"] Cons.IH [of "xs @ [m]" n]
    by (simp add: merge_user_def)
qed simp

lemma merge_consecutive: "merge_consecutive_user_messages (m # ms) = merge_rest m ms"
  using merge_foldl_rest [of "[]" m ms] by (simp add: merge_consecutive_user_messages_def merge_user_def)

lemma answers_more: "answers (Some m) c \<Longrightarrow> answers (Some (m\<lparr>ms_content := ms_content m @ bs\<rparr>)) c"
  by (auto simp: answers_def)

lemma merge_first: "answers (Some m) c \<Longrightarrow> answers (first_of (merge_rest m ms)) c"
  by (induction m ms rule: merge_rest.induct) (simp_all add: answers_more)

lemma not_asked_by_user: "ms_role m = ''user'' \<Longrightarrow> asked_in (Some m) n \<Longrightarrow> asked_in q n"
  by (auto simp: asked_in_def asks_def)

lemma merge_paired: "paired p (m # ms) \<Longrightarrow> paired p (merge_rest m ms)"
proof (induction m ms arbitrary: p rule: merge_rest.induct)
  case (2 m n ms)
  show ?case
  proof (cases "ms_role n = ''user'' \<and> ms_role m = ''user''")
    case True
    let ?mn = "m\<lparr>ms_content := ms_content m @ ms_content n\<rparr>"
    have "asked_in p n" using 2(3) True not_asked_by_user [of m n p] by simp
    then have "asked_in p ?mn" using 2(3) True by (auto simp: asked_in_def)
    moreover have "paired (Some ?mn) ms"
    proof (cases ms)
      case (Cons k ks)
      then show ?thesis using 2(3) True not_asked_by_user [of n k "Some ?mn"] by simp
    qed simp
    ultimately have "paired p (?mn # ms)" using True by (simp add: other_role)
    then show ?thesis using 2(1) [OF True] True by simp
  next
    case False
    have "answered_in m (first_of (merge_rest n ms))"
      using 2(3) merge_first [of n _ ms] by (simp add: answered_in_def)
    with False 2(2) 2(3) show ?thesis by auto
  qed
qed simp

text \<open>
  Claim C10. After the repair, the collapsing and the merging every result in a user message belongs to a call in the
  assistant message before it, and every call with an identifier has its result in the next message, whatever
  the history was.
\<close>

theorem request_paired:
  "paired None (repair_anthropic_tool_pairing messages)
   \<and> paired None (merge_consecutive_user_messages
       (collapse_completed_anthropic_tool_turns (repair_anthropic_tool_pairing messages)))"
proof -
  have "paired None (collapse_completed_anthropic_tool_turns (repair_anthropic_tool_pairing messages))"
    by (intro collapse_paired repair_paired)
  then show ?thesis
    by (cases "collapse_completed_anthropic_tool_turns (repair_anthropic_tool_pairing messages)")
      (simp_all add: repair_paired merge_consecutive merge_paired del: paired.simps(2),
       simp add: merge_consecutive_user_messages_def)
qed

text \<open>User messages with results only, or with none.\<close>

definition pure_users :: "Message list \<Rightarrow> bool" where
  "pure_users ms \<longleftrightarrow> list_all (\<lambda>m. ms_role m = ''user'' \<longrightarrow>
     list_all is_tool_result (ms_content m) \<or> \<not> list_ex is_tool_result (ms_content m)) ms"

lemma paired_drop: "paired p ms \<Longrightarrow> \<exists>q. paired q (drop k ms)"
proof (induction ms arbitrary: p k)
  case (Cons m ms)
  show ?case
  proof (cases k)
    case 0
    then show ?thesis using Cons.prems by (metis drop_0)
  next
    case (Suc j)
    then show ?thesis using Cons by auto
  qed
qed auto

lemma systems_paired: "list_all is_system ss \<Longrightarrow> (\<And>q. paired q ms) \<Longrightarrow> paired p (ss @ ms)"
  by (induction ss arbitrary: p) (auto simp: is_system_def other_role)

lemma last_index_Some: "last_index P lo ms = Some i \<Longrightarrow> lo \<le> i \<and> i < length ms \<and> P (ms ! i)"
proof -
  assume "last_index P lo ms = Some i"
  then have "List.filter (\<lambda>i. P (ms ! i)) [lo..<length ms] \<noteq> []" and "i = last (List.filter (\<lambda>i. P (ms ! i)) [lo..<length ms])"
    by (simp_all add: last_index_def split: list.splits)
  then have "i \<in> set (List.filter (\<lambda>i. P (ms ! i)) [lo..<length ms])" by (metis last_in_set)
  then show ?thesis by simp
qed

text \<open>
  Trimming to the current turn keeps the pairing when no user message has both results and other content;
  but where the question follows results in one message, as merging makes it, the calls are cut off
  and their results stay, which the provider rejects.
\<close>

theorem trim_pairing:
  "(paired None ms \<and> pure_users ms \<longrightarrow> paired None (trim_anthropic_replay_to_current_turn ms))
   \<and> (let call = (\<lambda>i. \<lparr>ms_role = ''assistant'', ms_content = [MakeToolUse i n arg], ms_timestamp = []\<rparr>);
          ms' = [call i, \<lparr>ms_role = ''user'', ms_content = [MakeToolResult i r, MakeText q], ms_timestamp = []\<rparr>,
                 call j, \<lparr>ms_role = ''user'', ms_content = [MakeToolResult j r'], ms_timestamp = []\<rparr>]
      in paired None ms' \<and> trim_anthropic_replay_to_current_turn ms' = tl ms' \<and> \<not> paired None (tl ms'))"
proof (intro conjI impI)
  assume ms: "paired None ms \<and> pure_users ms"
  show "paired None (trim_anthropic_replay_to_current_turn ms)"
  proof (cases "ms = [] \<or> \<not> has_only_tool_result_blocks (last ms)")
    case True
    with ms show ?thesis by (simp add: trim_anthropic_replay_to_current_turn_def)
  next
    case False
    show ?thesis
    proof (cases "last_index has_non_tool_result_blocks (length (takeWhile is_system ms)) ms")
      case None
      with ms False show ?thesis by (simp add: trim_anthropic_replay_to_current_turn_def)
    next
      case (Some i)
      then have i: "i < length ms" "has_non_tool_result_blocks (ms ! i)" using last_index_Some by blast+
      then have "\<not> list_ex is_tool_result (ms_content (ms ! i))"
        using ms by (auto simp: pure_users_def list_all_iff list_ex_iff has_non_tool_result_blocks_def)
      then have "starts_fresh (drop i ms)" using i by (simp add: starts_fresh_def Cons_nth_drop_Suc [symmetric] list_ex_iff)
      then have "paired q (drop i ms)" for q using paired_drop [of None ms i] ms paired_fresh by blast
      then have "paired None (takeWhile is_system ms @ drop i ms)"
        by (intro systems_paired) (auto simp: list_all_iff dest: set_takeWhileD)
      with False Some show ?thesis by (simp add: trim_anthropic_replay_to_current_turn_def Let_def)
    qed
  qed
next
  show "let call = (\<lambda>i. \<lparr>ms_role = ''assistant'', ms_content = [MakeToolUse i n arg], ms_timestamp = []\<rparr>);
          ms' = [call i, \<lparr>ms_role = ''user'', ms_content = [MakeToolResult i r, MakeText q], ms_timestamp = []\<rparr>,
                 call j, \<lparr>ms_role = ''user'', ms_content = [MakeToolResult j r'], ms_timestamp = []\<rparr>]
      in paired None ms' \<and> trim_anthropic_replay_to_current_turn ms' = tl ms' \<and> \<not> paired None (tl ms')"
    by (simp add: asked_in_def answered_in_def asks_def answers_def is_tool_result_def is_tool_use_def
        MakeToolUse_def MakeToolResult_def MakeText_def ContentBlock_empty_def trim_anthropic_replay_to_current_turn_def
        has_only_tool_result_blocks_def is_system_def last_index_def has_non_tool_result_blocks_def upt_rec)
qed

theorem trim_pairing_witness:
  "paired None (trim_anthropic_replay_to_current_turn [text_message ''user'' ''hello''])"
  using trim_pairing [of "[text_message ''user'' ''hello'']"]
  by (simp add: pure_users_def text_message_def asked_in_def answered_in_def is_tool_result_def MakeText_def)

text \<open>A result on one line is never truncated, however long it is.\<close>

lemma getlines_one: "newline \<notin> set s \<Longrightarrow> length (getlines acc s) \<le> 1"
  by (induction acc s rule: getlines.induct) auto

theorem long_line_kept:
  assumes "newline \<notin> set r" and "1 \<le> k"
  shows "truncate_tool_result r max_chars k = r"
  using getlines_one [OF assms(1), of "[]"] assms(2) by (simp add: truncate_tool_result_def lines_of_def)

theorem long_line_kept_witness: "truncate_tool_result (replicate 40000 CHR ''a'') 30000 20 = replicate 40000 CHR ''a''"
  by (rule long_line_kept) (simp_all add: newline_def)

end
