(* ===== verification/AgentRetry.thy ===== *)
theory AgentRetry
  imports AgentRequest Failover Config
begin

text \<open>
  How the agent calls a language model (\<open>core/agent_loop.cpp\<close>): the provider it resolves, the retries on
  one provider and the walk over the others, once for whole answers and once for streams. The world outside (the clock, the
  flag another thread sets, the network, the tools, the index of messages) is a record of functions over a state \<open>'w\<close>, so every course of events is
  a choice of these functions.
\<close>

section \<open>The agent and its world\<close>

text \<open>A shared pointer to a provider: which object it is, and the provider it points to.\<close>

datatype provider_object = Injected | Cached string | Fresh

record Provider =
  pv_object :: provider_object
  pv_impl :: LLMProvider

fun GetProviderName :: "LLMProvider \<Rightarrow> string" where
  "GetProviderName (OpenAIProvider _ _ _) = ''openai''"
| "GetProviderName (AnthropicProvider _ _ _) = ''anthropic''"
| "GetProviderName (GoogleProvider _ _ _) = ''google''"
| "GetProviderName (QwenProvider _ _ _) = ''qwen''"

text \<open>A fresh object is no other object.\<close>

definition same_object :: "Provider \<Rightarrow> Provider \<Rightarrow> bool" where
  "same_object p q \<longleftrightarrow> pv_object p = pv_object q \<and> pv_object p \<noteq> Fresh"

datatype exn = ProviderError ProviderErrorKind int string | StdError string

datatype 'a outcome = Done 'a | Throws exn | Hangs | Undefined

record ('c, 'j) AgentLoop =
  al_llm_provider :: "Provider option"
  al_registry :: "('c, 'j) ProviderRegistry option"
  al_resolver :: "('c, 'j) FailoverResolver option"
  al_validator :: "TurnValidator option"
  al_usage :: "UsageAccumulator option"
  al_session_key :: string
  al_config :: AgentConfig
  al_max_iterations :: int
  al_last_provider_id :: string
  al_last_profile_id :: string
  al_resolved_model_name :: string

record 'w World =
  wd_getenv :: "string \<Rightarrow> string option"
  wd_stopped :: "'w \<Rightarrow> bool \<times> 'w"
  wd_clear_stop :: "'w \<Rightarrow> 'w"
  wd_now :: "'w \<Rightarrow> time \<times> 'w"
  wd_sleep :: "int \<Rightarrow> 'w \<Rightarrow> bool \<times> 'w"
  wd_chat :: "Provider \<Rightarrow> ChatCompletionRequest \<Rightarrow> 'w \<Rightarrow> (exn + ChatCompletionResponse) \<times> 'w"
  wd_stream :: "Provider \<Rightarrow> ChatCompletionRequest \<Rightarrow> 'w \<Rightarrow> exn option \<times> 'w"
  wd_tool :: "string \<Rightarrow> string option \<Rightarrow> 'w \<Rightarrow> (string + string) \<times> 'w"
  wd_search :: "string \<Rightarrow> 'w \<Rightarrow> (string \<times> jval) list \<times> 'w"
  wd_index :: "string \<Rightarrow> string \<Rightarrow> jval \<Rightarrow> 'w \<Rightarrow> 'w"

text \<open>What a turn shares by reference with the calls it makes.\<close>

record ('c, 'j, 'w) Turn =
  tn_agent :: "('c, 'j) AgentLoop"
  tn_request :: ChatCompletionRequest
  tn_provider :: "Provider option"
  tn_world :: 'w

section \<open>Configuration and resolution\<close>

definition AgentLoop_init :: "Provider option \<Rightarrow> AgentConfig \<Rightarrow> ('c, 'j) AgentLoop" where
  "AgentLoop_init provider config =
     \<lparr>al_llm_provider = provider, al_registry = None, al_resolver = None, al_validator = None, al_usage = None,
      al_session_key = [], al_config = config, al_max_iterations = DynamicMaxIterations (ac_context_window config),
      al_last_provider_id = [], al_last_profile_id = [], al_resolved_model_name = ac_model config\<rparr>"

definition SetModel :: "string \<Rightarrow> ('c, 'j) AgentLoop \<Rightarrow> ('c, 'j) AgentLoop" where
  "SetModel model_ref a = a\<lparr>al_config := (al_config a)\<lparr>ac_model := model_ref\<rparr>, al_resolved_model_name := model_ref\<rparr>"

definition SetAgentConfig :: "AgentConfig \<Rightarrow> ('c, 'j) AgentLoop \<Rightarrow> ('c, 'j) AgentLoop" where
  "SetAgentConfig config a = a\<lparr>al_config := config, al_resolved_model_name := ac_model config,
     al_max_iterations := DynamicMaxIterations (ac_context_window config)\<rparr>"

definition resolved_request_model :: "('c, 'j) AgentLoop \<Rightarrow> string" where
  "resolved_request_model a =
     (if al_resolved_model_name a = [] then ac_model (al_config a) else al_resolved_model_name a)"

text \<open>The agent and its resolver hold pointers to one registry.\<close>

definition the_resolver :: "('c, 'j) AgentLoop \<Rightarrow> ('c, 'j) FailoverResolver \<Rightarrow> ('c, 'j) FailoverResolver" where
  "the_resolver a r = (case al_registry a of Some reg \<Rightarrow> r\<lparr>registry := reg\<rparr> | None \<Rightarrow> r)"

definition put_resolver :: "('c, 'j) FailoverResolver \<Rightarrow> ('c, 'j) AgentLoop \<Rightarrow> ('c, 'j) AgentLoop" where
  "put_resolver r a = a\<lparr>al_resolver := Some r, al_registry := map_option (\<lambda>_. registry r) (al_registry a)\<rparr>"

text \<open>With auth profiles the provider is a new object, else the cached one.\<close>

definition resolved_provider :: "('c, 'j) FailoverResolver \<Rightarrow> ResolvedProvider \<Rightarrow> Provider" where
  "resolved_provider r p =
     \<lparr>pv_object = (case map_of (profiles r) (rp_provider_id p) of Some (_ # _) \<Rightarrow> Fresh | _ \<Rightarrow> Cached (rp_provider_id p)),
      pv_impl = rp_provider p\<rparr>"

definition no_ids :: "('c, 'j) AgentLoop \<Rightarrow> ('c, 'j) AgentLoop" where
  "no_ids a = a\<lparr>al_last_provider_id := [], al_last_profile_id := []\<rparr>"

definition resolve_registry ::
  "(string \<Rightarrow> string option) \<Rightarrow> ('c, 'j) AgentLoop \<Rightarrow> Provider option \<times> ('c, 'j) AgentLoop" where
  "resolve_registry env a =
     (case al_registry a of
        None \<Rightarrow> (al_llm_provider a, no_ids a)
      | Some reg \<Rightarrow>
          (let ref = ResolveModel reg (ac_model (al_config a)) ''openai'';
               (reg', provider) = GetProvider env (ref_provider ref) reg;
               a' = a\<lparr>al_registry := Some reg'\<rparr>
           in case provider of
                Some p \<Rightarrow> (Some \<lparr>pv_object = Cached (ref_provider ref), pv_impl = p\<rparr>,
                  a'\<lparr>al_last_provider_id := ref_provider ref, al_last_profile_id := [],
                     al_resolved_model_name := ref_model ref\<rparr>)
              | None \<Rightarrow> (al_llm_provider a', no_ids a')))"

definition resolve_provider ::
  "(string \<Rightarrow> string option) \<Rightarrow> time \<Rightarrow> ('c, 'j) AgentLoop \<Rightarrow> (Provider option \<times> ('c, 'j) AgentLoop) call" where
  "resolve_provider env now agent =
     (let a = agent\<lparr>al_resolved_model_name := ac_model (al_config agent)\<rparr>
      in case al_resolver a of
           None \<Rightarrow> Returns (resolve_registry env a)
         | Some r \<Rightarrow>
             (case Resolve env now (ac_model (al_config a)) (al_session_key a) (the_resolver a r) of
                SelfDeadlock \<Rightarrow> SelfDeadlock
              | Returns (found, r') \<Rightarrow>
                  (case found of
                     None \<Rightarrow> Returns (resolve_registry env (put_resolver r' a))
                   | Some p \<Rightarrow> Returns (Some (resolved_provider r' p),
                       (put_resolver r' a)\<lparr>al_last_provider_id := rp_provider_id p,
                         al_last_profile_id := rp_profile_id p, al_resolved_model_name := rp_model p\<rparr>))))"

section \<open>One provider\<close>

fun should_retry_provider_error :: "ProviderErrorKind \<Rightarrow> bool" where
  "should_retry_provider_error kRateLimit = True"
| "should_retry_provider_error kTransient = True"
| "should_retry_provider_error kTimeout = True"
| "should_retry_provider_error _ = False"

definition retry_backoff :: "nat \<Rightarrow> int \<Rightarrow> int" where
  "retry_backoff retry retry_after =
     (let backoff = min (2 ^ retry) 60
      in if 0 < retry_after \<and> backoff < retry_after then min retry_after 60 else backoff)"

definition record_success :: "('c, 'j) AgentLoop \<Rightarrow> ('c, 'j) AgentLoop" where
  "record_success a =
     (case al_resolver a of
        Some r \<Rightarrow> if al_last_provider_id a = [] then a
          else put_resolver (ResolverRecordSuccess (al_last_provider_id a) (al_last_profile_id a) (al_session_key a) (the_resolver a r)) a
      | None \<Rightarrow> a)"

definition record_failure ::
  "'w World \<Rightarrow> ProviderErrorKind \<Rightarrow> int \<Rightarrow> ('c, 'j, 'w) Turn \<Rightarrow> ('c, 'j, 'w) Turn" where
  "record_failure W kind retry_after t =
     (let a = tn_agent t
      in case al_resolver a of
           Some r \<Rightarrow> if al_last_provider_id a = [] then t
             else (let (now, w) = wd_now W (tn_world t)
               in t\<lparr>tn_agent := put_resolver (ResolverRecordFailure now (al_last_provider_id a) (al_last_profile_id a)
                       kind retry_after (the_resolver a r)) a, tn_world := w\<rparr>)
         | None \<Rightarrow> t)"

definition provider_name :: "('c, 'j, 'w) Turn \<Rightarrow> string option" where
  "provider_name t = map_option (\<lambda>p. GetProviderName (pv_impl p)) (tn_provider t)"

definition sanitize_turn :: "('c, 'j, 'w) Turn \<Rightarrow> ('c, 'j, 'w) Turn" where
  "sanitize_turn t = t\<lparr>tn_request := (tn_request t)\<lparr>rq_messages :=
     sanitize_request_messages_for_provider (provider_name t) (al_validator (tn_agent t)) (rq_messages (tn_request t))\<rparr>\<rparr>"

definition stopped :: "'w World \<Rightarrow> ('c, 'j, 'w) Turn \<Rightarrow> bool \<times> ('c, 'j, 'w) Turn" where
  "stopped W t = (let (b, w) = wd_stopped W (tn_world t) in (b, t\<lparr>tn_world := w\<rparr>))"

definition stop_error :: exn where "stop_error = StdError ''Agent turn stopped by user''"

text \<open>
  The retry loop with \<open>n\<close> attempts left of \<open>max_retries + 1\<close>: the answer, or the error after which
  the next provider is tried.
\<close>

fun try_provider ::
  "'w World \<Rightarrow> int \<Rightarrow> nat \<Rightarrow> exn option \<Rightarrow> ('c, 'j, 'w) Turn
     \<Rightarrow> (ChatCompletionResponse + exn option) outcome \<times> ('c, 'j, 'w) Turn" where
  "try_provider W limit 0 previous t = (Done (Inr previous), t)"
| "try_provider W limit (Suc n) previous t =
     (let retry = nat limit - n; (stop, t1) = stopped W t
      in if stop then (Throws stop_error, t1)
         else
           (let t2 = sanitize_turn t1
            in case tn_provider t2 of
                 None \<Rightarrow> (Undefined, t2)
               | Some p \<Rightarrow>
                   (let (answer, w) = wd_chat W p (tn_request t2) (tn_world t2); t3 = t2\<lparr>tn_world := w\<rparr>
                    in case answer of
                         Inr response \<Rightarrow> (Done (Inl response), t3\<lparr>tn_agent := record_success (tn_agent t3)\<rparr>)
                       | Inl (StdError m) \<Rightarrow> (Throws (StdError m), t3)
                       | Inl (ProviderError kind retry_after m) \<Rightarrow>
                           if kind = kContextOverflow then (Throws (ProviderError kind retry_after m), t3)
                           else if should_retry_provider_error kind \<and> 0 < n
                           then (let (slept, w') = wd_sleep W (retry_backoff retry retry_after) (tn_world t3);
                                     t4 = t3\<lparr>tn_world := w'\<rparr>
                                 in if slept then try_provider W limit n (Some (ProviderError kind retry_after m)) t4
                                    else (Throws stop_error, t4))
                           else (Done (Inr (Some (ProviderError kind retry_after m))), record_failure W kind retry_after t3))))"

section \<open>All providers\<close>

definition quoted :: "string \<Rightarrow> string" where "quoted s = [CHR 0x27] @ s @ [CHR 0x27]"

definition no_failover_error :: "string \<Rightarrow> exn" where
  "no_failover_error provider_id = StdError (''All retries exhausted for provider '' @ provider_id
     @ '' and no failover resolver configured'')"

definition exhausted_error :: "nat \<Rightarrow> string \<Rightarrow> exn" where
  "exhausted_error attempts model = StdError (''All failover options exhausted. Tried '' @ to_string (int attempts + 1)
     @ '' provider(s) for model '' @ quoted model @ ''. All providers/profiles are in cooldown or unavailable.'')"

definition chain_error :: "nat \<Rightarrow> string \<Rightarrow> exn" where
  "chain_error attempts model = StdError (''Failover chain exhausted after '' @ to_string (int attempts + 1)
     @ '' attempt(s). No healthy provider available for model '' @ quoted model @ ''.'')"

definition kMaxFailoverAttempts :: nat where "kMaxFailoverAttempts = 20"

definition maximum_error :: "string \<Rightarrow> exn" where
  "maximum_error model = StdError (''Maximum failover attempts ('' @ to_string (int kMaxFailoverAttempts)
     @ '') reached for model '' @ quoted model)"

text \<open>Restore the model and resolve again.\<close>

definition resolve_again ::
  "'w World \<Rightarrow> string \<Rightarrow> ('c, 'j, 'w) Turn \<Rightarrow> Provider option call \<times> ('c, 'j, 'w) Turn" where
  "resolve_again W model t =
     (let a = tn_agent t; (now, w) = wd_now W (tn_world t);
          a1 = a\<lparr>al_config := (al_config a)\<lparr>ac_model := model\<rparr>\<rparr>
      in case resolve_provider (wd_getenv W) now a1 of
           SelfDeadlock \<Rightarrow> (SelfDeadlock, t\<lparr>tn_agent := a1, tn_world := w\<rparr>)
         | Returns (p, a2) \<Rightarrow> (Returns p, t\<lparr>tn_agent := a2, tn_world := w\<rparr>))"

definition switch_to :: "Provider \<Rightarrow> ('c, 'j, 'w) Turn \<Rightarrow> ('c, 'j, 'w) Turn" where
  "switch_to p t = t\<lparr>tn_provider := Some p,
     tn_request := (tn_request t)\<lparr>rq_model := resolved_request_model (tn_agent t)\<rparr>\<rparr>"

definition same_again :: "Provider option \<Rightarrow> Provider \<Rightarrow> bool" where
  "same_again current p = (case current of None \<Rightarrow> False | Some q \<Rightarrow> same_object p q)"

fun failover_loop ::
  "'w World \<Rightarrow> string \<Rightarrow> int \<Rightarrow> nat \<Rightarrow> exn option \<Rightarrow> ('c, 'j, 'w) Turn
     \<Rightarrow> ChatCompletionResponse outcome \<times> ('c, 'j, 'w) Turn" where
  "failover_loop W model limit 0 previous t = (Throws (maximum_error model), t)"
| "failover_loop W model limit (Suc n) previous t =
     (case try_provider W limit (nat (limit + 1)) previous t of
        (Throws e, t1) \<Rightarrow> (Throws e, t1)
      | (Hangs, t1) \<Rightarrow> (Hangs, t1)
      | (Undefined, t1) \<Rightarrow> (Undefined, t1)
      | (Done (Inl response), t1) \<Rightarrow> (Done response, t1)
      | (Done (Inr latest), t1) \<Rightarrow>
          (let (stop, t2) = stopped W t1; attempts = kMaxFailoverAttempts - Suc n
           in if stop then (Throws stop_error, t2)
              else if al_resolver (tn_agent t2) = None
              then (Throws (case latest of Some e \<Rightarrow> e | None \<Rightarrow> no_failover_error (al_last_provider_id (tn_agent t2))), t2)
              else (case resolve_again W model t2 of
                      (Returns None, t3) \<Rightarrow> (Throws (exhausted_error attempts model), t3)
                    | (Returns (Some p), t3) \<Rightarrow>
                        if same_again (tn_provider t3) p \<and> 0 < attempts then (Throws (chain_error attempts model), t3)
                        else failover_loop W model limit n latest (switch_to p t3)
                    | (SelfDeadlock, t3) \<Rightarrow> (Hangs, t3))))"

definition execute_with_retry ::
  "'w World \<Rightarrow> string \<Rightarrow> int \<Rightarrow> ('c, 'j, 'w) Turn \<Rightarrow> ChatCompletionResponse outcome \<times> ('c, 'j, 'w) Turn" where
  "execute_with_retry W model limit t = failover_loop W model limit kMaxFailoverAttempts None t"

section \<open>Streams\<close>

text \<open>
  The same for a stream, whose chunks go to a callback (an effect of \<open>wd_stream\<close>): the loop delivers
  whether it succeeded, or nothing when the next provider is to be tried.
\<close>

fun try_stream ::
  "'w World \<Rightarrow> int \<Rightarrow> nat \<Rightarrow> ('c, 'j, 'w) Turn \<Rightarrow> bool option outcome \<times> ('c, 'j, 'w) Turn" where
  "try_stream W limit 0 t = (Done None, t)"
| "try_stream W limit (Suc n) t =
     (let retry = nat limit - n; (stop, t1) = stopped W t
      in if stop then (Done (Some False), t1)
         else
           (let t2 = sanitize_turn t1
            in case tn_provider t2 of
                 None \<Rightarrow> (Undefined, t2)
               | Some p \<Rightarrow>
                   (let (failure, w) = wd_stream W p (tn_request t2) (tn_world t2); t3 = t2\<lparr>tn_world := w\<rparr>
                    in case failure of
                         None \<Rightarrow> (Done (Some True), t3\<lparr>tn_agent := record_success (tn_agent t3)\<rparr>)
                       | Some (StdError m) \<Rightarrow> (Throws (StdError m), t3)
                       | Some (ProviderError kind retry_after m) \<Rightarrow>
                           if kind = kContextOverflow then (Throws (ProviderError kind retry_after m), t3)
                           else if should_retry_provider_error kind \<and> 0 < n
                           then (let (slept, w') = wd_sleep W (retry_backoff retry retry_after) (tn_world t3);
                                     t4 = t3\<lparr>tn_world := w'\<rparr>
                                 in if slept then try_stream W limit n t4 else (Done (Some False), t4))
                           else (Done None, record_failure W kind retry_after t3))))"

fun stream_loop ::
  "'w World \<Rightarrow> string \<Rightarrow> int \<Rightarrow> nat \<Rightarrow> ('c, 'j, 'w) Turn \<Rightarrow> bool outcome \<times> ('c, 'j, 'w) Turn" where
  "stream_loop W model limit 0 t = (Done False, t)"
| "stream_loop W model limit (Suc n) t =
     (case try_stream W limit (nat (limit + 1)) t of
        (Throws e, t1) \<Rightarrow> (Throws e, t1)
      | (Hangs, t1) \<Rightarrow> (Hangs, t1)
      | (Undefined, t1) \<Rightarrow> (Undefined, t1)
      | (Done (Some b), t1) \<Rightarrow> (Done b, t1)
      | (Done None, t1) \<Rightarrow>
          (let (stop, t2) = stopped W t1; attempts = kMaxFailoverAttempts - Suc n
           in if stop then (Done False, t2)
              else if al_resolver (tn_agent t2) = None then (Done False, t2)
              else (case resolve_again W model t2 of
                      (Returns None, t3) \<Rightarrow> (Done False, t3)
                    | (Returns (Some p), t3) \<Rightarrow>
                        if same_again (tn_provider t3) p \<and> 0 < attempts then (Done False, t3)
                        else stream_loop W model limit n (switch_to p t3)
                    | (SelfDeadlock, t3) \<Rightarrow> (Hangs, t3))))"

definition execute_stream_with_retry ::
  "'w World \<Rightarrow> string \<Rightarrow> int \<Rightarrow> ('c, 'j, 'w) Turn \<Rightarrow> bool outcome \<times> ('c, 'j, 'w) Turn" where
  "execute_stream_with_retry W model limit t = stream_loop W model limit kMaxFailoverAttempts t"

section \<open>The two loops agree\<close>

text \<open>
  How the stream reports the end of the other loop: an overflow is thrown by both, the errors of the loop
  itself are a false, and of foreign exceptions either.
\<close>

fun mirrors :: "'a outcome \<Rightarrow> bool outcome \<Rightarrow> bool" where
  "mirrors (Done r) s \<longleftrightarrow> s = Done True"
| "mirrors (Throws (ProviderError kind ra m)) s \<longleftrightarrow>
     s = (if kind = kContextOverflow then Throws (ProviderError kind ra m) else Done False)"
| "mirrors (Throws (StdError m)) s \<longleftrightarrow> s = Done False \<or> s = Throws (StdError m)"
| "mirrors Hangs s \<longleftrightarrow> s = Hangs"
| "mirrors Undefined s \<longleftrightarrow> s = Undefined"

text \<open>The streams of a world, as calls that answer with a fixed response.\<close>

definition answering :: "ChatCompletionResponse \<Rightarrow> 'w World \<Rightarrow> 'w World" where
  "answering response W = W\<lparr>wd_chat := (\<lambda>p rq w. case wd_stream W p rq w of
     (None, w') \<Rightarrow> (Inr response, w') | (Some e, w') \<Rightarrow> (Inl e, w'))\<rparr>"

lemma answering_selectors [simp]:
  "wd_getenv (answering r W) = wd_getenv W" "wd_stopped (answering r W) = wd_stopped W"
  "wd_now (answering r W) = wd_now W" "wd_sleep (answering r W) = wd_sleep W"
  "wd_stream (answering r W) = wd_stream W"
  "wd_chat (answering r W) p rq w = (case wd_stream W p rq w of (None, w') \<Rightarrow> (Inr r, w') | (Some e, w') \<Rightarrow> (Inl e, w'))"
  by (simp_all add: answering_def)

lemma answering_steps [simp]:
  "stopped (answering r W) = stopped W" "record_failure (answering r W) = record_failure W"
  "resolve_again (answering r W) = resolve_again W"
  by (simp_all add: stopped_def record_failure_def resolve_again_def fun_eq_iff Let_def split: option.split)

definition not_overflow :: "exn option \<Rightarrow> bool" where
  "not_overflow e \<longleftrightarrow> (\<forall>ra m. e \<noteq> Some (ProviderError kContextOverflow ra m))"

fun try_mirrors :: "(ChatCompletionResponse + exn option) outcome \<Rightarrow> bool option outcome \<Rightarrow> bool" where
  "try_mirrors (Done (Inl r)) s \<longleftrightarrow> s = Done (Some True)"
| "try_mirrors (Done (Inr e)) s \<longleftrightarrow> s = Done None \<and> not_overflow e"
| "try_mirrors (Throws e) s \<longleftrightarrow> (\<exists>b. s = Done (Some b) \<and> mirrors (Throws e :: bool outcome) (Done b)) \<or>
     (s = Throws e \<and> mirrors (Throws e :: bool outcome) (Throws e))"
| "try_mirrors Hangs s \<longleftrightarrow> s = Hangs"
| "try_mirrors Undefined s \<longleftrightarrow> s = Undefined"

lemma try_alike:
  "not_overflow e \<Longrightarrow> snd (try_stream W l n t) = snd (try_provider (answering r W) l n e t)
   \<and> try_mirrors (fst (try_provider (answering r W) l n e t)) (fst (try_stream W l n t))"
proof (induction n arbitrary: e t)
  case (Suc n)
  obtain stop t1 where st: "stopped W t = (stop, t1)" by (cases "stopped W t")
  show ?case
  proof (cases "stop \<or> tn_provider (sanitize_turn t1) = None")
    case True
    then show ?thesis by (auto simp: st Let_def stop_error_def)
  next
    case False
    then obtain p where p: "tn_provider (sanitize_turn t1) = Some p" and ns: "\<not> stop" by blast
    let ?t2 = "sanitize_turn t1"
    obtain f w where s: "wd_stream W p (tn_request ?t2) (tn_world ?t2) = (f, w)" by (cases "wd_stream W p (tn_request ?t2) (tn_world ?t2)")
    show ?thesis
    proof (cases f)
      case None
      then show ?thesis by (simp add: st ns p s Let_def)
    next
      case (Some x)
      show ?thesis
      proof (cases x)
        case (StdError m)
        then show ?thesis by (simp add: st ns p s Let_def Some)
      next
        case (ProviderError k ra m)
        obtain sl w' where sw: "wd_sleep W (retry_backoff (nat l - n) ra) w = (sl, w')" by (cases "wd_sleep W (retry_backoff (nat l - n) ra) w")
        have "k \<noteq> kContextOverflow \<Longrightarrow> not_overflow (Some (ProviderError k ra m))" by (simp add: not_overflow_def)
        with Suc.IH [of "Some (ProviderError k ra m)" "?t2\<lparr>tn_world := w, tn_world := w'\<rparr>"] show ?thesis
          by (auto simp: st ns p s sw Let_def Some ProviderError stop_error_def)
      qed
    qed
  qed
qed simp

lemma loops_alike:
  "not_overflow e \<Longrightarrow> snd (stream_loop W m l n t) = snd (failover_loop (answering r W) m l n e t)
   \<and> mirrors (fst (failover_loop (answering r W) m l n e t)) (fst (stream_loop W m l n t))"
proof (induction n arbitrary: e t)
  case 0
  then show ?case by (simp add: maximum_error_def)
next
  case (Suc n)
  obtain o1 t1 where p: "try_provider (answering r W) l (nat (l + 1)) e t = (o1, t1)" by (cases "try_provider (answering r W) l (nat (l + 1)) e t")
  obtain o2 t2 where s: "try_stream W l (nat (l + 1)) t = (o2, t2)" by (cases "try_stream W l (nat (l + 1)) t")
  have t: "t2 = t1" and m: "try_mirrors o1 o2" using try_alike [OF Suc.prems, of W l "nat (l + 1)" t r] p s by simp_all
  show ?case
  proof (cases "\<exists>x. o1 = Done (Inr x)")
    case False
    show ?thesis
    proof (cases o1)
      case (Done a)
      with False obtain a1 where "a = Inl a1" by (cases a) auto
      with Done m show ?thesis by (simp add: p s t)
    next
      case (Throws x)
      with m show ?thesis by (cases x) (auto simp: p s t split: if_splits)
    qed (use m in \<open>simp_all add: p s t\<close>)
  next
    case True
    then obtain x where x: "o1 = Done (Inr x)" "o2 = Done None" and nx: "not_overflow x" using m by auto
    obtain stop t3 where st: "stopped W t1 = (stop, t3)" by (cases "stopped W t1")
    obtain o4 t4 where ra: "resolve_again W m t3 = (o4, t4)" by (cases "resolve_again W m t3")
    show ?thesis
    proof (cases "stop \<or> al_resolver (tn_agent t3) = None")
      case True
      have "mirrors (Throws (case x of None \<Rightarrow> no_failover_error q | Some e \<Rightarrow> e) :: ChatCompletionResponse outcome) (Done False)" for q
      proof (cases x)
        case (Some y)
        then show ?thesis using nx by (cases y) (auto simp: not_overflow_def)
      qed (simp add: no_failover_error_def)
      then show ?thesis using True by (auto simp: p s t x st Let_def stop_error_def)
    next
      case False
      then show ?thesis using Suc.IH [OF nx] ra
        by (cases o4) (auto simp: p s t x st Let_def exhausted_error_def chain_error_def split: option.splits)
    qed
  qed
qed

text \<open>
  Claim C8. The two copies of the loop are one algorithm: in the same world a stream leaves the agent, the request, the
  provider and the world as a whole call does, is a success exactly when that one returns an answer, hangs and crashes with it, and throws a context overflow when it does.
\<close>

theorem stream_retries_alike:
  "snd (execute_stream_with_retry W model limit t) = snd (execute_with_retry (answering r W) model limit t)
   \<and> mirrors (fst (execute_with_retry (answering r W) model limit t)) (fst (execute_stream_with_retry W model limit t))"
  using loops_alike [of None W model limit kMaxFailoverAttempts t r]
  by (simp add: execute_stream_with_retry_def execute_with_retry_def not_overflow_def)

section \<open>How often a provider is called\<close>

text \<open>A count of the calls: one more with each call, unchanged by everything else.\<close>

definition counts_calls :: "'w World \<Rightarrow> ('w \<Rightarrow> nat) \<Rightarrow> bool" where
  "counts_calls W calls \<longleftrightarrow> (\<forall>p rq w. calls (snd (wd_chat W p rq w)) = calls w + 1) \<and>
     (\<forall>w. calls (snd (wd_stopped W w)) = calls w \<and> calls (snd (wd_now W w)) = calls w \<and>
       (\<forall>d. calls (snd (wd_sleep W d w)) = calls w))"

definition turn_calls :: "('w \<Rightarrow> nat) \<Rightarrow> ('c, 'j, 'w) Turn \<Rightarrow> nat" where
  "turn_calls calls t = calls (tn_world t)"

lemma counts_steps:
  assumes "counts_calls W calls"
  shows "stopped W t = (b, t1) \<Longrightarrow> turn_calls calls t1 = turn_calls calls t"
    and "turn_calls calls (record_failure W k ra t) = turn_calls calls t"
    and "resolve_again W m t = (x, t1) \<Longrightarrow> turn_calls calls t1 = turn_calls calls t"
    and "turn_calls calls (sanitize_turn t) = turn_calls calls t"
    and "turn_calls calls (switch_to p t) = turn_calls calls t"
    and "wd_chat W p rq w = (y, w') \<Longrightarrow> calls w' = calls w + 1"
    and "wd_sleep W d w = (b, w') \<Longrightarrow> calls w' = calls w"
proof -
  have c: "calls (snd (wd_stopped W w)) = calls w" "calls (snd (wd_now W w)) = calls w"
    "calls (snd (wd_sleep W d w)) = calls w" "calls (snd (wd_chat W p rq w)) = calls w + 1" for w d p rq
    using assms by (simp_all add: counts_calls_def)
  have now: "wd_now W w = (now, w') \<Longrightarrow> calls w' = calls w" for w now w' using c(2) [of w] by simp
  show "stopped W t = (b, t1) \<Longrightarrow> turn_calls calls t1 = turn_calls calls t"
    using c(1) [of "tn_world t"] by (auto simp: stopped_def turn_calls_def split: prod.splits)
  show "turn_calls calls (record_failure W k ra t) = turn_calls calls t"
    by (auto simp: record_failure_def turn_calls_def Let_def now split: option.split prod.split)
  show "resolve_again W m t = (x, t1) \<Longrightarrow> turn_calls calls t1 = turn_calls calls t"
    by (auto simp: resolve_again_def turn_calls_def Let_def now split: call.splits prod.splits)
  show "wd_chat W p rq w = (y, w') \<Longrightarrow> calls w' = calls w + 1" using c(4) [of p rq w] by simp
  show "wd_sleep W d w = (b, w') \<Longrightarrow> calls w' = calls w" using c(3) [of d w] by simp
qed (simp_all add: turn_calls_def sanitize_turn_def switch_to_def)

lemma try_calls:
  assumes W: "counts_calls W calls"
  shows "turn_calls calls (snd (try_provider W l n e t)) \<le> turn_calls calls t + n"
proof (induction n arbitrary: e t)
  case (Suc n)
  obtain stop t1 where st: "stopped W t = (stop, t1)" by (cases "stopped W t")
  let ?t2 = "sanitize_turn t1"
  have t2: "turn_calls calls t1 = turn_calls calls t" "calls (tn_world ?t2) = turn_calls calls t"
    using counts_steps(1) [OF W st] by (simp_all add: counts_steps(4) [OF W] flip: turn_calls_def)
  show ?case
  proof (cases "stop \<or> tn_provider ?t2 = None")
    case True
    then show ?thesis using t2 by (auto simp: st Let_def turn_calls_def)
  next
    case False
    then obtain p where p: "tn_provider ?t2 = Some p" and ns: "\<not> stop" by blast
    obtain a w where a: "wd_chat W p (tn_request ?t2) (tn_world ?t2) = (a, w)" by (cases "wd_chat W p (tn_request ?t2) (tn_world ?t2)")
    have w: "calls w = turn_calls calls t + 1" using counts_steps(6) [OF W a] t2 by simp
    have rf: "turn_calls calls (record_failure W k ra (?t2\<lparr>tn_world := w\<rparr>)) = turn_calls calls t + 1" for k ra
      unfolding counts_steps(2) [OF W] using w by (simp add: turn_calls_def)
    have IH: "turn_calls calls (snd (try_provider W l n e (?t2\<lparr>tn_world := w'\<rparr>))) \<le> calls w' + n" for e w'
      using Suc.IH [of e "?t2\<lparr>tn_world := w'\<rparr>"] by (simp add: turn_calls_def)
    have slept: "wd_sleep W d w = (b, w') \<Longrightarrow> calls w' = turn_calls calls t + 1" for d b w'
      using counts_steps(7) [OF W] w by simp
    show ?thesis
    proof (cases a)
      case (Inr r)
      then show ?thesis using w by (simp add: st ns p a Let_def turn_calls_def)
    next
      case (Inl x)
      show ?thesis
      proof (cases x)
        case (StdError m)
        then show ?thesis using w by (simp add: st ns p a Inl Let_def turn_calls_def)
      next
        case (ProviderError k ra m)
        obtain b w' where s: "wd_sleep W (retry_backoff (nat l - n) ra) w = (b, w')" by (cases "wd_sleep W (retry_backoff (nat l - n) ra) w")
        show ?thesis using w rf [of k ra] IH [of "Some x" w'] slept [OF s]
          by (simp add: st ns p a Inl ProviderError s Let_def turn_calls_def)
      qed
    qed
  qed
qed simp

lemma loop_calls:
  assumes W: "counts_calls W calls"
  shows "turn_calls calls (snd (failover_loop W m l n e t)) \<le> turn_calls calls t + n * nat (l + 1)"
proof (induction n arbitrary: e t)
  case (Suc n)
  obtain o1 t1 where p: "try_provider W l (nat (l + 1)) e t = (o1, t1)" by (cases "try_provider W l (nat (l + 1)) e t")
  have t1: "turn_calls calls t1 \<le> turn_calls calls t + nat (l + 1)" using try_calls [OF W, of l "nat (l + 1)" e t] p by simp
  show ?case
  proof (cases "\<exists>x. o1 = Done (Inr x)")
    case False
    then have "snd (failover_loop W m l (Suc n) e t) = t1" by (auto simp: p split: outcome.split sum.split)
    with t1 show ?thesis by simp
  next
    case True
    then obtain x where x: "o1 = Done (Inr x)" by blast
    obtain stop t3 where st: "stopped W t1 = (stop, t3)" by (cases "stopped W t1")
    obtain o4 t4 where ra: "resolve_again W m t3 = (o4, t4)" by (cases "resolve_again W m t3")
    have t4: "turn_calls calls t3 = turn_calls calls t1" "turn_calls calls t4 = turn_calls calls t1"
      using counts_steps(1) [OF W st] counts_steps(3) [OF W ra] by simp_all
    have "turn_calls calls (snd (failover_loop W m l n x (switch_to q t4))) \<le> turn_calls calls t + (nat (l + 1) + n * nat (l + 1))" for q
      using Suc.IH [of x "switch_to q t4"] t1 t4 by (simp add: counts_steps(5) [OF W])
    with t1 t4 show ?thesis
      by (auto simp: p x st ra Let_def split: call.split option.split)
  qed
qed simp

text \<open>
  One request reaches the providers at most twenty times as often as one of them is tried, whatever they answer and whatever the
  resolver resolves to; with the default of one retry, at most forty times.
\<close>

theorem calls_bounded:
  assumes "counts_calls W calls"
  shows "turn_calls calls (snd (execute_with_retry W model limit t)) \<le> turn_calls calls t + 20 * nat (limit + 1)"
  using loop_calls [OF assms, of model limit kMaxFailoverAttempts None t]
  by (simp add: execute_with_retry_def kMaxFailoverAttempts_def)

text \<open>A world in which time stands still, nobody stops the turn and every call fails with one error.\<close>

definition failing_world :: "exn \<Rightarrow> nat World" where
  "failing_world e = \<lparr>wd_getenv = (\<lambda>_. None), wd_stopped = Pair False, wd_clear_stop = (\<lambda>w. w), wd_now = Pair 0, wd_sleep = (\<lambda>_. Pair True),
     wd_chat = (\<lambda>_ _ w. (Inl e, w + 1)), wd_stream = (\<lambda>_ _ w. (Some e, w + 1)),
     wd_tool = (\<lambda>_ _ w. (Inr [], w)), wd_search = (\<lambda>_. Pair []), wd_index = (\<lambda>_ _ _ w. w)\<rparr>"

definition demo_provider :: Provider where
  "demo_provider = \<lparr>pv_object = Injected, pv_impl = AnthropicProvider ''k'' ''u'' 30\<rparr>"

definition demo_turn :: "(nat, nat) AgentLoop \<Rightarrow> (nat, nat, nat) Turn" where
  "demo_turn a = \<lparr>tn_agent = a, tn_request = \<lparr>rq_messages = [text_message ''user'' ''hello''], rq_model = ''m'',
     rq_temperature = JvReal ''0.7'', rq_max_tokens = 8192, rq_tools = [], rq_tool_choice_type = ''auto'', rq_thinking = ''off''\<rparr>,
     tn_provider = Some demo_provider, tn_world = 0\<rparr>"

theorem calls_bounded_witness:
  "tn_world (snd (execute_with_retry (failing_world (ProviderError kTimeout 0 ''slow'')) ''m'' 1
     (demo_turn (AgentLoop_init (Some demo_provider) AgentConfig_init)))) \<le> 40"
  using calls_bounded [of "failing_world (ProviderError kTimeout 0 ''slow'')" "\<lambda>n. n" "''m''" 1
      "demo_turn (AgentLoop_init (Some demo_provider) AgentConfig_init)"]
  by (simp add: counts_calls_def failing_world_def turn_calls_def demo_turn_def)

section \<open>Cooldowns that do not hold\<close>

lemma check_pin_plain:
  "profiles r = [] \<Longrightarrow> check_pin now ref key r = (None, r)
     \<or> check_pin now ref key r = (None, r\<lparr>session_pins := AList.delete key (session_pins r)\<rparr>)"
  by (simp add: check_pin_def Let_def split: option.split)

lemma cooled_resolve:
  assumes "profiles r = []" and "fallback_chain r = []"
    and "ref_provider (ResolveModel (registry r) model ''openai'') = pid"
    and "IsInCooldown now (cooldown r) pid" and "\<not> snd (TryProbe now pid (cooldown r))"
  shows "\<exists>r'. Resolve env now model key r = Returns (None, r') \<and> registry r' = registry r"
proof -
  let ?ref = "ResolveModel (registry r) model ''openai''"
  obtain r1 where pin: "check_pin now ?ref key r = (None, r1)" and r1: "registry r1 = registry r" "profiles r1 = []"
      "fallback_chain r1 = []" "cooldown r1 = cooldown r"
    using check_pin_plain [OF assms(1), of now ?ref key] assms(1,2) by fastforce
  have "cooldown_key pid [] = pid" by (simp add: cooldown_key_def)
  then have d: "resolve_default env now ?ref r1 = (None, r1\<lparr>cooldown := fst (TryProbe now pid (cooldown r))\<rparr>)"
    using assms(3,4,5) r1 by (simp add: resolve_default_def Let_def)
  have "try_resolve_model env now model key r = (None, r1\<lparr>cooldown := fst (TryProbe now pid (cooldown r))\<rparr>)"
    using r1 by (simp add: try_resolve_model_def pin d)
  then show ?thesis using r1 by (simp add: Resolve_def)
qed

text \<open>
  A provider in cooldown whose probe was just refused is used all the same: the resolver finds nothing, and the agent
  falls back to the registry, which asks nobody.
\<close>

theorem cooldown_bypassed:
  assumes "al_resolver a = Some r" and "al_registry a = Some reg"
    and "profiles r = []" and "fallback_chain r = []"
    and "ref_provider (ResolveModel reg (ac_model (al_config a)) ''openai'') = pid"
    and "IsInCooldown now (cooldown r) pid" and "\<not> snd (TryProbe now pid (cooldown r))"
    and "GetProvider env pid reg = (reg', Some p)"
  shows "\<exists>a'. resolve_provider env now a = Returns (Some \<lparr>pv_object = Cached pid, pv_impl = p\<rparr>, a')
     \<and> al_last_provider_id a' = pid \<and> al_registry a' = Some reg'"
proof -
  let ?r = "r\<lparr>registry := reg\<rparr>"
  obtain r' where "Resolve env now (ac_model (al_config a)) (al_session_key a) ?r = Returns (None, r')" and "registry r' = reg"
    using cooled_resolve [of ?r "ac_model (al_config a)" pid now env "al_session_key a"] assms by auto
  then show ?thesis using assms
    by (simp add: resolve_provider_def the_resolver_def put_resolver_def resolve_registry_def Let_def)
qed

definition one_provider_registry :: "(nat, nat) ProviderRegistry" where
  "one_provider_registry = RegisterFactory ''p'' (url_factory OpenAIProvider ''u'') empty_registry"

text \<open>An agent whose only provider has just failed.\<close>

definition cooled_agent :: "(nat, nat) AgentLoop" where
  "cooled_agent = (AgentLoop_init None (AgentConfig_init\<lparr>ac_model := ''p/m''\<rparr>))
     \<lparr>al_registry := Some one_provider_registry,
      al_resolver := Some (ResolverRecordFailure 0 ''p'' [] kBillingError 0 (resolver_init one_provider_registry))\<rparr>"

theorem cooldown_bypassed_witness:
  "\<exists>p a'. resolve_provider (\<lambda>_. None) 0 cooled_agent = Returns (Some \<lparr>pv_object = Cached ''p'', pv_impl = p\<rparr>, a')"
proof -
  let ?r = "ResolverRecordFailure 0 ''p'' [] kBillingError 0 (resolver_init one_provider_registry)"
  obtain g where g: "GetProvider (\<lambda>_. None) ''p'' one_provider_registry = (g, Some (OpenAIProvider [] ''u'' (pe_timeout (ProviderEntry_init ''p'' :: (nat, nat) ProviderEntry))))"
    by (simp add: GetProvider_def one_provider_registry_def RegisterFactory_def empty_registry_def url_factory_def
        ProviderEntry_init_def resolve_api_key_def Let_def um_at_def)
  have r: "al_resolver cooled_agent = Some ?r" "al_registry cooled_agent = Some one_provider_registry"
    "profiles ?r = []" "fallback_chain ?r = []"
    by (simp_all add: cooled_agent_def ResolverRecordFailure_def resolver_init_def AgentLoop_init_def)
  have m: "ref_provider (ResolveModel one_provider_registry (ac_model (al_config cooled_agent)) ''openai'') = ''p''"
    by (simp add: cooled_agent_def AgentLoop_init_def ResolveModel_def one_provider_registry_def RegisterFactory_def
        empty_registry_def ModelRef_parse_def)
  have c: "IsInCooldown 0 (cooldown ?r) ''p''" "\<not> snd (TryProbe 0 ''p'' (cooldown ?r))"
    by (simp_all add: ResolverRecordFailure_def resolver_init_def RecordFailure_def IsInCooldown_def TryProbe_def
        cooldown_key_def cooldown_length_def ComputeCooldown_def next_failures_def CooldownState_init_def um_at_def
        backoff_loop.simps kProbeInterval_def secs_def)
  from cooldown_bypassed [OF r m c g] show ?thesis by blast
qed

end
