(* ===== verification/AgentText.thy ===== *)
theory AgentText
  imports AgentRequest
begin

text \<open>
  How the agent reads texts (\<open>core/agent_loop.cpp\<close>): whether a message asks for a lookup, whether an
  answer only announces one or dumps raw results, and which part of the history a new message is about.
  Chinese words are their bytes in UTF-8. Decoding to code points and encoding are functions of the standard library and
  hence arguments: \<open>decode\<close> answers no code points for a text that is not valid.
\<close>

section \<open>Words\<close>

definition latin_stopwords :: "string list" where
  "latin_stopwords = [
    ''a'', ''an'', ''and'', ''are'', ''be'', ''but'', ''can'', ''check'', ''find'', ''for'', ''from'',
    ''help'', ''how'', ''i'', ''in'', ''into'', ''is'', ''it'', ''look'', ''me'', ''more'', ''need'', ''of'',
    ''on'', ''or'', ''please'', ''read'', ''search'', ''show'', ''tell'', ''that'', ''the'', ''this'',
    ''to'', ''up'', ''want'', ''what'', ''with'', ''you'']"

definition cjk_stop_tokens :: "string list" where
  "cjk_stop_tokens = [
    [CHR 0xE4, CHR 0xB8, CHR 0x80, CHR 0xE4, CHR 0xB8, CHR 0xAA],
    [CHR 0xE4, CHR 0xB8, CHR 0x80, CHR 0xE4, CHR 0xB8, CHR 0x8B],
    [CHR 0xE4, CHR 0xBB, CHR 0x80, CHR 0xE4, CHR 0xB9, CHR 0x88],
    [CHR 0xE4, CHR 0xBB, CHR 0x8A, CHR 0xE5, CHR 0xA4, CHR 0xA9],
    [CHR 0xE5, CHR 0x8F, CHR 0xAF, CHR 0xE4, CHR 0xBB, CHR 0xA5],
    [CHR 0xE5, CHR 0xB8, CHR 0xAE, CHR 0xE6, CHR 0x88, CHR 0x91],
    [CHR 0xE5, CHR 0xB8, CHR 0xAE, CHR 0xE5, CHR 0xBF, CHR 0x99],
    [CHR 0xE7, CHR 0x8E, CHR 0xB0, CHR 0xE5, CHR 0x9C, CHR 0xA8],
    [CHR 0xE7, CHR 0x9B, CHR 0xB8, CHR 0xE5, CHR 0x85, CHR 0xB3],
    [CHR 0xE9, CHR 0x9C, CHR 0x80, CHR 0xE8, CHR 0xA6, CHR 0x81]]"

definition cjk_stop_chars :: "nat list" where
  "cjk_stop_chars = [
    30340, 20102, 21527, 21602, 21543, 21834, 25105, 20320, 20182, 22905, 23427, 20204,
    26159, 22312, 26377, 21644, 19982, 21450, 24182, 25110, 23601, 37117, 24456, 22826,
    20063, 20877, 36824, 25226, 34987, 35753, 32473, 20174, 21521, 21040, 23558, 20250,
    33021, 21487, 35201, 24819, 26469, 21435, 35828, 38382, 20570]"

definition follow_up_markers :: "string list" where
  "follow_up_markers = [
    ''based on that'', ''continue'', ''elaborate'', ''expand on'', ''go on'', ''more detail'',
    ''tell me more'', ''what else'', [CHR 0xE4, CHR 0xB8, CHR 0x8A, CHR 0xE9, CHR 0x9D, CHR 0xA2],
    [CHR 0xE5, CHR 0x89, CHR 0x8D, CHR 0xE9, CHR 0x9D, CHR 0xA2],
    [CHR 0xE5, CHR 0x88, CHR 0x9A, CHR 0xE6, CHR 0x89, CHR 0x8D],
    [CHR 0xE5, CHR 0x86, CHR 0x8D, CHR 0xE8, CHR 0xAF, CHR 0xA6, CHR 0xE7, CHR 0xBB, CHR 0x86],
    [CHR 0xE5, CHR 0xB1, CHR 0x95, CHR 0xE5, CHR 0xBC, CHR 0x80],
    [CHR 0xE6, CHR 0x8E, CHR 0xA5, CHR 0xE7, CHR 0x9D, CHR 0x80],
    [CHR 0xE6, CHR 0x8E, CHR 0xA5, CHR 0xE7, CHR 0x9D, CHR 0x80, CHR 0xE8, CHR 0xAF, CHR 0xB4],
    [CHR 0xE7, CHR 0xBB, CHR 0xA7, CHR 0xE7, CHR 0xBB, CHR 0xAD],
    [CHR 0xE7, CHR 0xBB, CHR 0xA7, CHR 0xE7, CHR 0xBB, CHR 0xAD, CHR 0xE8, CHR 0xAF, CHR 0xB4],
    [CHR 0xE8, CHR 0xAF, CHR 0xA6, CHR 0xE7, CHR 0xBB, CHR 0x86, CHR 0xE4, CHR 0xB8, CHR 0x80, CHR 0xE7, CHR 0x82, CHR 0xB9],
    [CHR 0xE8, CHR 0xAF, CHR 0xA6, CHR 0xE7, CHR 0xBB, CHR 0x86, CHR 0xE4, CHR 0xB8, CHR 0x80, CHR 0xE4, CHR 0xBA, CHR 0x9B],
    [CHR 0xE8, CHR 0xA1, CHR 0xA5, CHR 0xE5, CHR 0x85, CHR 0x85],
    [CHR 0xE8, CHR 0xBF, CHR 0x9B, CHR 0xE4, CHR 0xB8, CHR 0x80, CHR 0xE6, CHR 0xAD, CHR 0xA5]]"

definition lookup_ascii_markers :: "string list" where
  "lookup_ascii_markers = [
    ''search'', ''look up'', ''lookup'', ''find '', ''find on'', ''research'', ''browse'', ''github search'',
    ''search github'']"

definition lookup_cjk_markers :: "string list" where
  "lookup_cjk_markers = [
    [CHR 0xE6, CHR 0x90, CHR 0x9C, CHR 0xE7, CHR 0xB4, CHR 0xA2],
    [CHR 0xE6, CHR 0x9F, CHR 0xA5, CHR 0xE6, CHR 0x89, CHR 0xBE],
    [CHR 0xE5, CHR 0xB8, CHR 0xAE, CHR 0xE6, CHR 0x88, CHR 0x91, CHR 0xE6, CHR 0x89, CHR 0xBE],
    [CHR 0xE5, CHR 0xB8, CHR 0xAE, CHR 0xE6, CHR 0x88, CHR 0x91, CHR 0xE6, CHR 0x90, CHR 0x9C],
    [CHR 0xE6, CHR 0x9F, CHR 0xA5, CHR 0xE4, CHR 0xB8, CHR 0x80, CHR 0xE4, CHR 0xB8, CHR 0x8B],
    [CHR 0xE6, CHR 0x90, CHR 0x9C, CHR 0xE4, CHR 0xB8, CHR 0x80, CHR 0xE4, CHR 0xB8, CHR 0x8B],
    [CHR 0xE6, CHR 0xA3, CHR 0x80, CHR 0xE7, CHR 0xB4, CHR 0xA2],
    [CHR 0xE7, CHR 0xA0, CHR 0x94, CHR 0xE7, CHR 0xA9, CHR 0xB6, CHR 0xE4, CHR 0xB8, CHR 0x80, CHR 0xE4, CHR 0xB8, CHR 0x8B],
    [CHR 0xE6, CHR 0x9F, CHR 0xA5, CHR 0xE6, CHR 0x9F, CHR 0xA5],
    [CHR 0xE6, CHR 0x89, CHR 0xBE, CHR 0xE4, CHR 0xB8, CHR 0x80, CHR 0xE4, CHR 0xB8, CHR 0x8B]]"

definition preamble_ascii_markers :: "string list" where
  "preamble_ascii_markers = [
    ''let me search'', ''i'' @ [CHR 0x27] @ ''ll search'', ''i will search'', ''let me look that up'',
    ''i'' @ [CHR 0x27] @ ''ll look that up'', ''based on the search results'', ''let me get more detail'',
    ''let me gather more detail'']"

definition preamble_cjk_markers :: "string list" where
  "preamble_cjk_markers = [

    [CHR 0xE6, CHR 0xA0, CHR 0xB9, CHR 0xE6, CHR 0x8D, CHR 0xAE, CHR 0xE6, CHR 0x90, CHR 0x9C, CHR 0xE7, CHR 0xB4, CHR 0xA2, CHR 0xE7, CHR 0xBB, CHR 0x93, CHR 0xE6, CHR 0x9E, CHR 0x9C],
    [CHR 0xE8, CHR 0xAE, CHR 0xA9, CHR 0xE6, CHR 0x88, CHR 0x91, CHR 0xE4, CHR 0xB8, CHR 0xBA, CHR 0xE4, CHR 0xBD, CHR 0xA0, CHR 0xE8, CHR 0x8E, CHR 0xB7, CHR 0xE5, CHR 0x8F, CHR 0x96, CHR 0xE6, CHR 0x9B, CHR 0xB4, CHR 0xE8, CHR 0xAF, CHR 0xA6, CHR 0xE7, CHR 0xBB, CHR 0x86, CHR 0xE7, CHR 0x9A, CHR 0x84, CHR 0xE4, CHR 0xBF, CHR 0xA1, CHR 0xE6, CHR 0x81, CHR 0xAF],
    [CHR 0xE8, CHR 0xAE, CHR 0xA9, CHR 0xE6, CHR 0x88, CHR 0x91, CHR 0xE5, CHR 0xB8, CHR 0xAE, CHR 0xE4, CHR 0xBD, CHR 0xA0, CHR 0xE6, CHR 0x9F, CHR 0xA5, CHR 0xE6, CHR 0x89, CHR 0xBE],
    [CHR 0xE8, CHR 0xAE, CHR 0xA9, CHR 0xE6, CHR 0x88, CHR 0x91, CHR 0xE5, CHR 0xB8, CHR 0xAE, CHR 0xE4, CHR 0xBD, CHR 0xA0, CHR 0xE6, CHR 0x90, CHR 0x9C, CHR 0xE7, CHR 0xB4, CHR 0xA2],
    [CHR 0xE6, CHR 0x88, CHR 0x91, CHR 0xE6, CHR 0x9D, CHR 0xA5, CHR 0xE5, CHR 0xB8, CHR 0xAE, CHR 0xE4, CHR 0xBD, CHR 0xA0, CHR 0xE6, CHR 0x90, CHR 0x9C, CHR 0xE7, CHR 0xB4, CHR 0xA2],
    [CHR 0xE6, CHR 0x88, CHR 0x91, CHR 0xE6, CHR 0x9D, CHR 0xA5, CHR 0xE5, CHR 0xB8, CHR 0xAE, CHR 0xE4, CHR 0xBD, CHR 0xA0, CHR 0xE6, CHR 0x9F, CHR 0xA5, CHR 0xE6, CHR 0x89, CHR 0xBE],
    [CHR 0xE8, CHR 0xAE, CHR 0xA9, CHR 0xE6, CHR 0x88, CHR 0x91, CHR 0xE7, CHR 0xBB, CHR 0xA7, CHR 0xE7, CHR 0xBB, CHR 0xAD, CHR 0xE6, CHR 0x9F, CHR 0xA5],
    [CHR 0xE8, CHR 0xAE, CHR 0xA9, CHR 0xE6, CHR 0x88, CHR 0x91, CHR 0xE8, CHR 0x8E, CHR 0xB7, CHR 0xE5, CHR 0x8F, CHR 0x96, CHR 0xE6, CHR 0x9B, CHR 0xB4, CHR 0xE8, CHR 0xAF, CHR 0xA6, CHR 0xE7, CHR 0xBB, CHR 0x86, CHR 0xE7, CHR 0x9A, CHR 0x84, CHR 0xE4, CHR 0xBF, CHR 0xA1, CHR 0xE6, CHR 0x81, CHR 0xAF],
    [CHR 0xE6, CHR 0x88, CHR 0x91, CHR 0xE6, CHR 0x9D, CHR 0xA5, CHR 0xE6, CHR 0x90, CHR 0x9C, CHR 0xE7, CHR 0xB4, CHR 0xA2],
    [CHR 0xE8, CHR 0xAE, CHR 0xA9, CHR 0xE6, CHR 0x88, CHR 0x91, CHR 0xE6, CHR 0x90, CHR 0x9C, CHR 0xE7, CHR 0xB4, CHR 0xA2],
    [CHR 0xE6, CHR 0x88, CHR 0x91, CHR 0xE5, CHR 0xB0, CHR 0x86, CHR 0xE6, CHR 0x90, CHR 0x9C, CHR 0xE7, CHR 0xB4, CHR 0xA2],
    [CHR 0xE8, CHR 0xAE, CHR 0xA9, CHR 0xE6, CHR 0x88, CHR 0x91, CHR 0xE9, CHR 0x80, CHR 0x9A, CHR 0xE8, CHR 0xBF, CHR 0x87]]"

definition negative_markers :: "string list" where
  "negative_markers = [

    [CHR 0xE6, CHR 0xB2, CHR 0xA1, CHR 0xE6, CHR 0x9C, CHR 0x89, CHR 0xE6, CHR 0x89, CHR 0xBE, CHR 0xE5, CHR 0x88, CHR 0xB0],
    [CHR 0xE6, CHR 0xB2, CHR 0xA1, CHR 0xE6, CHR 0x89, CHR 0xBE, CHR 0xE5, CHR 0x88, CHR 0xB0],
    [CHR 0xE6, CHR 0x9C, CHR 0xAA, CHR 0xE6, CHR 0x89, CHR 0xBE, CHR 0xE5, CHR 0x88, CHR 0xB0],
    [CHR 0xE4, CHR 0xB8, CHR 0x8D, CHR 0xE5, CHR 0xAD, CHR 0x98, CHR 0xE5, CHR 0x9C, CHR 0xA8],
    [CHR 0xE6, CHR 0xB2, CHR 0xA1, CHR 0xE6, CHR 0x9C, CHR 0x89, CHR 0xE4, CHR 0xB8, CHR 0x93, CHR 0xE9, CHR 0x97, CHR 0xA8],
    [CHR 0xE6, CHR 0xB2, CHR 0xA1, CHR 0xE6, CHR 0x9C, CHR 0x89, CHR 0xE9, CHR 0x9B, CHR 0x86, CHR 0xE4, CHR 0xB8, CHR 0xAD],
    [CHR 0xE8, CHR 0xBF, CHR 0x98, CHR 0xE6, CHR 0xB2, CHR 0xA1, CHR 0xE6, CHR 0x9C, CHR 0x89, CHR 0xE5, CHR 0xBD, CHR 0xA2, CHR 0xE6, CHR 0x88, CHR 0x90],
    [CHR 0xE6, CHR 0xB2, CHR 0xA1, CHR 0xE6, CHR 0x9C, CHR 0x89, CHR 0xE5, CHR 0x85, CHR 0xAC, CHR 0xE5, CHR 0xBC, CHR 0x80],
    [CHR 0xE7, CHR 0x9B, CHR 0xAE, CHR 0xE5, CHR 0x89, CHR 0x8D, CHR 0xE6, CHR 0xB2, CHR 0xA1, CHR 0xE6, CHR 0x9C, CHR 0x89],
    [CHR 0xE6, CHR 0x9A, CHR 0x82, CHR 0xE6, CHR 0x97, CHR 0xB6, CHR 0xE6, CHR 0xB2, CHR 0xA1, CHR 0xE6, CHR 0x9C, CHR 0x89],
    ''not found'', ''no results'', ''doesn'' @ [CHR 0x27] @ ''t exist'', ''not available'', ''no public'',
    ''currently no'']"

definition has_word :: "string list \<Rightarrow> string \<Rightarrow> bool" where
  "has_word ws text = list_ex (\<lambda>w. str_contains w text) ws"

definition looks_like_follow_up_message :: "string \<Rightarrow> bool" where
  "looks_like_follow_up_message text = has_word follow_up_markers (ToLower text)"

definition has_lookup_intent :: "string \<Rightarrow> bool" where
  "has_lookup_intent text \<longleftrightarrow> has_word lookup_ascii_markers (ToLower text) \<or> has_word lookup_cjk_markers text"

definition response_looks_like_unfulfilled_lookup_preamble :: "string \<Rightarrow> bool" where
  "response_looks_like_unfulfilled_lookup_preamble text =
     (let lower = ToLower text;
          has_url = has_word [''http://'', ''https://'', ''github.com''] lower;
          has_list = has_word [[newline] @ ''1.'', [newline] @ ''- '', [CHR 0x0A, CHR 0xE2, CHR 0x80, CHR 0xA2]] text
      in if text = [] \<or> has_url \<or> has_list then False
         else has_word preamble_ascii_markers lower \<or> has_word preamble_cjk_markers text)"

definition response_contains_negative_conclusion :: "string \<Rightarrow> bool" where
  "response_contains_negative_conclusion text = has_word negative_markers text"

lemma str_find_advances:
  assumes "str_find needle text = Some i" "needle \<noteq> []"
  shows "length text - (i + length needle) < length text"
proof -
  have "i + length needle \<le> length text" using str_find_Some[OF assms(1)] by simp
  moreover have "0 < length needle" using assms(2) by simp
  ultimately show ?thesis by linarith
qed

function count_substring_occurrences :: "string \<Rightarrow> string \<Rightarrow> nat" where
  "count_substring_occurrences text needle =
     (if needle = [] then 0
      else case str_find needle text of
             None \<Rightarrow> 0
           | Some i \<Rightarrow> 1 + count_substring_occurrences (drop (i + length needle) text) needle)"
  by pat_completeness auto
termination
  by (relation "measure (length \<circ> fst)") (simp_all add: str_find_advances)

declare count_substring_occurrences.simps [simp del]

definition response_looks_like_raw_search_results_dump :: "string \<Rightarrow> bool" where
  "response_looks_like_raw_search_results_dump text =
     (let lower = ToLower text;
          has_preface = has_word [''here are the search results for'', ''search results for''] lower \<or>
            has_word [[CHR 0xE4, CHR 0xBB, CHR 0xA5, CHR 0xE4, CHR 0xB8, CHR 0x8B, CHR 0xE6, CHR 0x98, CHR 0xAF, CHR 0xE6, CHR 0x90, CHR 0x9C, CHR 0xE7, CHR 0xB4, CHR 0xA2, CHR 0xE7, CHR 0xBB, CHR 0x93, CHR 0xE6, CHR 0x9E, CHR 0x9C], [CHR 0xE4, CHR 0xBB, CHR 0xA5, CHR 0xE4, CHR 0xB8, CHR 0x8B, CHR 0xE6, CHR 0x98, CHR 0xAF] @ '' '' @ [CHR 0x22]] text;
          has_disclaimer = str_contains ''may not be fully accurate or up-to-date'' lower \<or>
            str_contains ([CHR 0xE5, CHR 0x8F, CHR 0xAF, CHR 0xE8, CHR 0x83, CHR 0xBD, CHR 0xE4, CHR 0xB8, CHR 0x8D, CHR 0xE5, CHR 0xAE, CHR 0x8C, CHR 0xE5, CHR 0x85, CHR 0xA8, CHR 0xE5, CHR 0x87, CHR 0x86, CHR 0xE7, CHR 0xA1, CHR 0xAE]) text;
          has_numbered_list = has_word [[newline] @ ''1.'', [newline] @ ''1. **''] text;
          source_count = count_substring_occurrences text ''Source: '' + count_substring_occurrences text ([CHR 0xE6, CHR 0x9D, CHR 0xA5, CHR 0xE6, CHR 0xBA, CHR 0x90, CHR 0xEF, CHR 0xBC, CHR 0x9A])
      in text \<noteq> [] \<and> (has_preface \<and> has_numbered_list \<and> 2 \<le> source_count \<or> has_disclaimer \<and> 2 \<le> source_count))"

section \<open>Salient tokens\<close>

record SalientTokenStats =
  ss_weights :: "(string, int) umap"
  ss_anchor_tokens :: "string list"
  ss_total_weight :: int

definition SalientTokenStats_init :: SalientTokenStats where
  "SalientTokenStats_init = \<lparr>ss_weights = [], ss_anchor_tokens = [], ss_total_weight = 0\<rparr>"

definition is_cjk_codepoint :: "nat \<Rightarrow> bool" where
  "is_cjk_codepoint cp \<longleftrightarrow> (13312 \<le> cp \<and> cp \<le> 19903) \<or> (19968 \<le> cp \<and> cp \<le> 40959) \<or> (63744 \<le> cp \<and> cp \<le> 64255)"

definition is_ascii_token_char :: "nat \<Rightarrow> bool" where
  "is_ascii_token_char cp \<longleftrightarrow> cp \<le> 127 \<and>
     ((48 \<le> cp \<and> cp \<le> 57) \<or> (65 \<le> cp \<and> cp \<le> 90) \<or> (97 \<le> cp \<and> cp \<le> 122) \<or> char_of cp \<in> set ''_-./:#'')"

definition is_ascii_text :: "string \<Rightarrow> bool" where
  "is_ascii_text text = list_all (\<lambda>c. byte c \<le> 127) text"

definition is_latin_stopword :: "string \<Rightarrow> bool" where
  "is_latin_stopword token = (token \<in> set latin_stopwords)"

definition is_generic_cjk_token :: "(nat list \<Rightarrow> string) \<Rightarrow> nat list \<Rightarrow> bool" where
  "is_generic_cjk_token encode token \<longleftrightarrow>
     token = [] \<or> encode token \<in> set cjk_stop_tokens \<or> list_ex (\<lambda>cp. cp \<in> set cjk_stop_chars) token"

definition add_salient_token :: "SalientTokenStats \<Rightarrow> string \<Rightarrow> int \<Rightarrow> bool \<Rightarrow> SalientTokenStats" where
  "add_salient_token stats token weight anchor =
     (if token = [] \<or> weight \<le> 0 then stats
      else
        (let fresh = map_of (ss_weights stats) token = None
         in stats\<lparr>ss_weights := (if fresh then ss_weights stats @ [(token, weight)] else ss_weights stats),
                 ss_total_weight := (if fresh then ss_total_weight stats + weight else ss_total_weight stats),
                 ss_anchor_tokens := (if anchor then List.insert token (ss_anchor_tokens stats) else ss_anchor_tokens stats)\<rparr>))"

definition flush_ascii :: "string \<Rightarrow> SalientTokenStats \<Rightarrow> SalientTokenStats" where
  "flush_ascii run stats =
     (if run = [] then stats
      else
        (let token = map to_lower run;
             has_symbol = list_ex (\<lambda>c. c \<in> set ''0123456789/._-:#'') token;
             long = has_symbol \<or> 5 \<le> length token
         in if (3 \<le> length token \<or> has_symbol) \<and> \<not> is_latin_stopword token
            then add_salient_token stats token (if long then 3 else 2) long else stats))"

definition windows :: "nat \<Rightarrow> 'a list \<Rightarrow> 'a list list" where
  "windows w xs = map (\<lambda>i. take w (drop i xs)) [0..<length xs + 1 - w]"

definition flush_cjk :: "(nat list \<Rightarrow> string) \<Rightarrow> nat list \<Rightarrow> SalientTokenStats \<Rightarrow> SalientTokenStats" where
  "flush_cjk encode run stats =
     (if length run < 2 then stats
      else foldl (\<lambda>st token. if is_generic_cjk_token encode token then st
                  else add_salient_token st (encode token) (if 3 \<le> length token then 2 else 1) (3 \<le> length token))
             stats (windows 2 run @ (if 3 \<le> length run then windows 3 run else [])))"

fun scan_codepoints :: "(nat list \<Rightarrow> string) \<Rightarrow> nat list \<Rightarrow> string \<Rightarrow> nat list \<Rightarrow> SalientTokenStats \<Rightarrow> SalientTokenStats" where
  "scan_codepoints encode [] ascii_run cjk_run stats = flush_cjk encode cjk_run (flush_ascii ascii_run stats)"
| "scan_codepoints encode (cp # cps) ascii_run cjk_run stats =
     (if is_ascii_token_char cp
      then scan_codepoints encode cps (ascii_run @ [char_of cp]) [] (flush_cjk encode cjk_run stats)
      else if is_cjk_codepoint cp
      then scan_codepoints encode cps [] (cjk_run @ [cp]) (flush_ascii ascii_run stats)
      else scan_codepoints encode cps [] [] (flush_cjk encode cjk_run (flush_ascii ascii_run stats)))"

definition extract_salient_tokens :: "(string \<Rightarrow> nat list) \<Rightarrow> (nat list \<Rightarrow> string) \<Rightarrow> string \<Rightarrow> SalientTokenStats" where
  "extract_salient_tokens decode encode text = scan_codepoints encode (decode text) [] [] SalientTokenStats_init"

section \<open>The part of the history that matters\<close>

definition collect_message_text :: "Message \<Rightarrow> string" where
  "collect_message_text m =
     foldl (\<lambda>text b. if cb_type b = ''tool_result'' \<and> cb_content b \<noteq> []
              then (if text \<noteq> [] then text @ [newline] else text) @ take 200 (cb_content b) else text)
       (message_text m) (ms_content m)"

definition collect_turn_text :: "Message list \<Rightarrow> string" where
  "collect_turn_text ms =
     foldl (\<lambda>combined m. let text = collect_message_text m
              in if text = [] then combined else (if combined \<noteq> [] then combined @ [newline] else combined) @ text) [] ms"

text \<open>The ratio of small integers is compared exactly.\<close>

definition latest_message_relates_to_recent_turn ::
  "(string \<Rightarrow> nat list) \<Rightarrow> (nat list \<Rightarrow> string) \<Rightarrow> string \<Rightarrow> string \<Rightarrow> bool" where
  "latest_message_relates_to_recent_turn decode encode latest recent =
     (let lt = extract_salient_tokens decode encode latest; rt = extract_salient_tokens decode encode recent;
          ascii_anchors = List.filter is_ascii_text (ss_anchor_tokens lt);
          common = List.filter (\<lambda>(token, w). map_of (ss_weights rt) token \<noteq> None) (ss_weights lt);
          matched_weight = sum_list (map snd common);
          matched_anchor = ss_anchor_tokens lt = [] \<or> list_ex (\<lambda>(token, w). token \<in> set (ss_anchor_tokens lt)) common
      in if ss_total_weight lt \<le> 0 \<or> ss_weights rt = [] then False
         else if ascii_anchors \<noteq> [] \<and> \<not> list_ex (\<lambda>token. str_contains token (ToLower recent)) ascii_anchors then False
         else matched_anchor \<and> 0 < matched_weight \<and> ss_total_weight lt \<le> 4 * matched_weight)"

definition focus_history_on_latest_turn ::
  "(string \<Rightarrow> nat list) \<Rightarrow> (nat list \<Rightarrow> string) \<Rightarrow> string \<Rightarrow> Message list \<Rightarrow> Message list" where
  "focus_history_on_latest_turn decode encode latest history =
     (case last_index has_non_tool_result_blocks 0 history of
        None \<Rightarrow> history
      | Some i \<Rightarrow>
          if \<not> (looks_like_follow_up_message latest
                \<or> latest_message_relates_to_recent_turn decode encode latest (collect_turn_text (drop i history)))
          then []
          else
            (let slice_start = (if i = length history - 1 \<and> 0 < i \<and> ms_role (history ! i) = ''user''
                                  \<and> ms_role (history ! (i - 1)) = ''assistant'' then i - 1 else i)
             in drop slice_start history))"

end
