(* ===== verification/AgentTurn.thy ===== *)
theory AgentTurn
  imports AgentRetry AgentText
begin

text \<open>
  One turn of the agent (\<open>AgentLoop::ProcessMessage\<close> in \<open>core/agent_loop.cpp\<close>): the context it builds,
  the rounds of calls and tools, the two guards, the recovery from an overflow, and the stop.
\<close>

section \<open>What a turn is given\<close>

record 'd TurnEnv =
  te_fp :: "'d FpOps"
  te_decode :: "string \<Rightarrow> nat list"
  te_encode :: "nat list \<Rightarrow> string"
  te_dump :: "jval \<Rightarrow> string"
  te_schemas :: "(string \<times> string \<times> jval) list"
  te_has_pruner :: bool
  te_has_embeddings :: bool

text \<open>The defaults of \<open>ContextPruner::Options\<close>; \<open>prune_target_ratio\<close> is 0.75.\<close>

definition default_prune_options :: "'d FpOps \<Rightarrow> 'd PruneOptions" where
  "default_prune_options fp = \<lparr>po_protect_recent = 3, po_soft_prune_lines = 5, po_hard_prune_after = 10,
     po_max_tool_result_chars = 2000, po_context_window = 0, po_max_tokens = 8192,
     po_prune_target_ratio = fp_div fp (fp_of_int fp 3) (fp_of_int fp 4)\<rparr>"

definition default_strategy :: CompressionStrategy where
  "default_strategy = \<lparr>cs_preserve_recent = True, cs_preserve_tool_calls = True, cs_preserve_system = True, cs_min_messages = 5\<rparr>"

text \<open>The elements from \<open>end() - keep\<close> on; outside of the list nothing is defined.\<close>

definition suffix_of :: "int \<Rightarrow> 'a list \<Rightarrow> 'a list option" where
  "suffix_of keep xs = (if 0 \<le> keep \<and> keep \<le> int (length xs) then Some (drop (length xs - nat keep) xs) else None)"

section \<open>The context\<close>

definition compaction_notice :: "int \<Rightarrow> string" where
  "compaction_notice removed = ''[Context compaction: '' @ to_string removed @ '' earlier messages were removed. ''
     @ ''Your system instructions remain active. '' @ ''Refer to the system prompt for your identity '' @ ''and capabilities.]''"

definition auto_compact :: "AgentConfig \<Rightarrow> Message list \<Rightarrow> Message list option" where
  "auto_compact c history =
     (let total = int (length history); keep = ac_compact_keep_recent c
      in if ac_auto_compact c \<and> ac_compact_max_messages c < total \<and> keep < total
         then map_option (\<lambda>recent. text_message ''system'' (compaction_notice (total - keep)) # recent) (suffix_of keep history)
         else Some history)"

definition compress_history_for_context_budget ::
  "'d TurnEnv \<Rightarrow> Message list \<Rightarrow> string \<Rightarrow> string \<Rightarrow> jval list \<Rightarrow> int \<Rightarrow> Message list" where
  "compress_history_for_context_budget E history system_prompt latest tools window =
     (if \<not> te_has_pruner E \<or> history = [] \<or> window \<le> 0 then history
      else
        (let fp = te_fp E;
             fixed = estimate_tool_tokens (te_dump E) tools
               + (if system_prompt = [] then 0 else EstimateTokens [text_message ''system'' system_prompt])
               + EstimateTokens [text_message ''user'' latest];
             threshold = fp_trunc fp (fp_mul fp (fp_of_int fp window) (fp_div fp (fp_of_int fp 9) (fp_of_int fp 10)))
         in if fixed + EstimateTokens history \<le> threshold then history
            else (case CompressWithStats fp default_strategy (max 0 (threshold - fixed)) history of
                    Some (compressed, st) \<Rightarrow> compressed | None \<Rightarrow> history)))"

definition context_window :: "('c, 'j) AgentLoop \<Rightarrow> int" where
  "context_window a = (if 0 < ac_context_window (al_config a) then ac_context_window (al_config a)
     else get_context_window (resolved_request_model a))"

definition recent_history :: "'d TurnEnv \<Rightarrow> AgentConfig \<Rightarrow> int \<Rightarrow> string \<Rightarrow> string \<Rightarrow> Message list \<Rightarrow> Message list option" where
  "recent_history E c window system_prompt message history =
     (case auto_compact c history of
        None \<Rightarrow> None
      | Some h0 \<Rightarrow>
          (case Prune (te_fp E) (default_prune_options (te_fp E)) h0 of
             None \<Rightarrow> None
           | Some h1 \<Rightarrow>
               Some (compress_history_for_context_budget E
                 (focus_history_on_latest_turn (te_decode E) (te_encode E) message h1)
                 system_prompt message (build_request_tools (te_schemas E)) window)))"

definition unless_no_text :: "string \<Rightarrow> string \<Rightarrow> Message list" where
  "unless_no_text role text = (if text = [] then [] else [text_message role text])"

definition build_context :: "string \<Rightarrow> string \<Rightarrow> Message list \<Rightarrow> string \<Rightarrow> Message list" where
  "build_context system_prompt notice history message =
     unless_no_text ''system'' system_prompt @ unless_no_text ''system'' notice @ history @ [text_message ''user'' message]"

definition forced_note :: string where
  "forced_note = ''[Context compaction forced: context window nearly full. '' @ ''Earlier messages removed.]''"

definition context_guard :: "string \<Rightarrow> AgentConfig \<Rightarrow> int \<Rightarrow> string \<Rightarrow> Message list \<Rightarrow> Message list option" where
  "context_guard note c window system_prompt context =
     (if estimate_tokens context + ac_max_tokens c > window - 16384
      then (let keep = min (ac_compact_keep_recent c) (int (length context))
            in if keep < int (length context)
               then map_option (\<lambda>recent. unless_no_text ''system'' system_prompt @ [text_message ''system'' note] @ recent)
                      (suffix_of keep context)
               else Some context)
      else Some context)"

text \<open>How often a similar message of the user was indexed for the session.\<close>

definition session_hits :: "string \<Rightarrow> (string \<times> jval) list \<Rightarrow> (string \<times> jval) list" where
  "session_hits key results = List.filter (\<lambda>(i, metadata).
     member_of metadata ''role'' = Some (JvText ''user'') \<and> member_of metadata ''session'' = Some (JvText key)) results"

definition duplicate_notice_text :: "nat \<Rightarrow> string" where
  "duplicate_notice_text hits =
     (if hits = 0 then []
      else ''[SYSTEM NOTICE: The user has sent a very similar message '' @ to_string (int hits + 1) @ '' times. ''
        @ ''Please acknowledge this repetition in your response and ask if ''
        @ ''there'' @ [CHR 0x27] @ ''s something unclear or if they need different information.]'')"

definition duplicate_notice :: "'d TurnEnv \<Rightarrow> 'w World \<Rightarrow> string \<Rightarrow> string \<Rightarrow> 'w \<Rightarrow> string \<times> 'w" where
  "duplicate_notice E W key message w =
     (if te_has_embeddings E \<and> key \<noteq> []
      then (let (results, w1) = wd_search W message w in (duplicate_notice_text (length (session_hits key results)), w1))
      else ([], w))"

section \<open>Tools and indexing\<close>

definition abort_text :: string where "abort_text = ''[Tool execution aborted by user]''"

fun handle_tool_calls :: "'w World \<Rightarrow> ToolCall list \<Rightarrow> 'w \<Rightarrow> string list \<times> 'w" where
  "handle_tool_calls W [] w = ([], w)"
| "handle_tool_calls W (c # cs) w =
     (let (stop, w1) = wd_stopped W w
      in if stop then (replicate (length (c # cs)) abort_text, w1)
         else
           (let (result, w2) = wd_tool W (tk_name c) (tk_arguments c) w1;
                text = (case result of Inr r \<Rightarrow> r | Inl what \<Rightarrow> ''Error executing tool: '' @ what);
                (rest, w3) = handle_tool_calls W cs w2
            in (text # rest, w3)))"

text \<open>Identifiers end in the clock's count, which the argument writes.\<close>

definition message_id :: "string \<Rightarrow> string \<Rightarrow> time \<Rightarrow> string" where
  "message_id key role now = key @ '':'' @ role @ '':'' @ to_string now"

definition role_metadata :: "string \<Rightarrow> string \<Rightarrow> time \<Rightarrow> (string \<times> jval) list" where
  "role_metadata key role now = [(''role'', JvText role), (''session'', JvText key), (''timestamp'', JvInt now)]"

definition index_user_message :: "'w World \<Rightarrow> string \<Rightarrow> string \<Rightarrow> 'w \<Rightarrow> 'w" where
  "index_user_message W message key w =
     (let (results, w1) = wd_search W message w; hits = session_hits key results; (now, w2) = wd_now W w1; (stamp, w3) = wd_now W w2;
          original = (case List.filter (\<lambda>(i, m). i \<noteq> []) hits of [] \<Rightarrow> [] | (i, m) # _ \<Rightarrow> [(''original_id'', JvText i)])
      in wd_index W (message_id key ''user'' now) message
           (JvObject (role_metadata key ''user'' stamp @ [(''hit_count'', JvInt (int (length hits) + 1))] @ original)) w3)"

definition block_texts :: "Message \<Rightarrow> string list" where
  "block_texts m = map cb_text (List.filter (\<lambda>b. cb_type b = ''text'' \<and> cb_text b \<noteq> []) (ms_content m))"

fun index_answers :: "'w World \<Rightarrow> string \<Rightarrow> Message list \<Rightarrow> 'w \<Rightarrow> 'w" where
  "index_answers W key [] w = w"
| "index_answers W key (m # ms) w =
     (let text = str_join [newline] (block_texts m)
      in if ms_role m \<noteq> ''assistant'' \<or> text = [] then index_answers W key ms w
         else (let (now, w1) = wd_now W w; (stamp, w2) = wd_now W w1
               in index_answers W key ms
                    (wd_index W (message_id key ''assistant'' now) text (JvObject (role_metadata key ''assistant'' stamp)) w2)))"

definition IndexConversationMessages ::
  "'d TurnEnv \<Rightarrow> 'w World \<Rightarrow> string \<Rightarrow> Message list \<Rightarrow> string \<Rightarrow> 'w \<Rightarrow> 'w" where
  "IndexConversationMessages E W message new_messages key w =
     (if \<not> te_has_embeddings E \<or> key = [] then w
      else index_answers W key new_messages (if message = [] then w else index_user_message W message key w))"

section \<open>Rounds\<close>

record ('c, 'j, 'w) Round =
  rd_turn :: "('c, 'j, 'w) Turn"
  rd_new :: "Message list"
  rd_iterations :: int
  rd_overflows :: nat
  rd_lookup :: bool
  rd_synthesis :: bool

text \<open>What does not change in the rounds of a turn.\<close>

record TurnText =
  tt_message :: string
  tt_system_prompt :: string
  tt_key :: string
  tt_model :: string
  tt_max_iterations :: int

definition put_world :: "'w \<Rightarrow> ('c, 'j, 'w) Round \<Rightarrow> ('c, 'j, 'w) Round" where
  "put_world w r = r\<lparr>rd_turn := (rd_turn r)\<lparr>tn_world := w\<rparr>\<rparr>"

definition rd_messages :: "('c, 'j, 'w) Round \<Rightarrow> Message list" where
  "rd_messages r = rq_messages (tn_request (rd_turn r))"

definition put_messages :: "Message list \<Rightarrow> ('c, 'j, 'w) Round \<Rightarrow> ('c, 'j, 'w) Round" where
  "put_messages ms r = r\<lparr>rd_turn := (rd_turn r)\<lparr>tn_request := (tn_request (rd_turn r))\<lparr>rq_messages := ms\<rparr>\<rparr>\<rparr>"

definition choose_tools :: "string \<Rightarrow> ('c, 'j, 'w) Round \<Rightarrow> ('c, 'j, 'w) Round" where
  "choose_tools kind r = r\<lparr>rd_turn := (rd_turn r)\<lparr>tn_request := (tn_request (rd_turn r))\<lparr>rq_tool_choice_type := kind\<rparr>\<rparr>\<rparr>"

definition record_usage :: "TurnText \<Rightarrow> TokenUsage \<Rightarrow> ('c, 'j, 'w) Round \<Rightarrow> ('c, 'j, 'w) Round" where
  "record_usage T usage r =
     (let t = rd_turn r; a = tn_agent t
      in case al_usage a of
           Some u \<Rightarrow> if tt_key T = [] then r
             else r\<lparr>rd_turn := t\<lparr>tn_agent := a\<lparr>al_usage := Some (RecordUsage (tt_key T) usage u)\<rparr>\<rparr>\<rparr>
         | None \<Rightarrow> r)"

definition assistant_message :: "ChatCompletionResponse \<Rightarrow> Message" where
  "assistant_message response =
     \<lparr>ms_role = ''assistant'',
      ms_content = (if re_content response = [] then [] else [MakeText (re_content response)])
        @ map (\<lambda>c. MakeToolUse (tk_id c) (tk_name c) (tk_arguments c)) (re_tool_calls response),
      ms_timestamp = []\<rparr>"

definition results_message :: "ToolCall list \<Rightarrow> string list \<Rightarrow> Message" where
  "results_message calls results =
     \<lparr>ms_role = ''user'', ms_content = map (\<lambda>(c, r). MakeToolResult (tk_id c) r) (zip calls results), ms_timestamp = []\<rparr>"

text \<open>A message of one text block, also when the text is empty.\<close>

definition block_message :: "string \<Rightarrow> string \<Rightarrow> Message" where
  "block_message role text = \<lparr>ms_role = role, ms_content = [MakeText text], ms_timestamp = []\<rparr>"

definition lookup_correction :: string where
  "lookup_correction =
     ''STOP. You MUST actually call the search tool. Here'' @ [CHR 0x27] @ ''s an example:'' @ [newline, newline]
     @ ''User: '' @ [CHR 0x22] @ ''Search GitHub for Python projects'' @ [CHR 0x22] @ [newline]
     @ ''WRONG: '' @ [CHR 0x22] @ ''Let me search... I didn'' @ [CHR 0x27] @ ''t find any results.'' @ [CHR 0x22] @ [newline]
     @ ''CORRECT: [calls github_search_repos tool with query='' @ [CHR 0x22] @ ''python'' @ [CHR 0x22] @ ''] ''
     @ [CHR 0xE2, CHR 0x86, CHR 0x92] @ '' returns actual results'' @ [newline, newline]
     @ ''Now YOU must call github_search_repos or web_search tool RIGHT NOW. ''
     @ ''DO NOT respond with text. ONLY call the tool.''"

definition synthesis_correction :: string where
  "synthesis_correction =
     ''Do not perform another web search and do not return a raw '' @ [CHR 0x22] @ ''search results'' @ [CHR 0x22]
     @ '' list. Use only the existing web_search '' @ ''tool results already in this conversation. Synthesize the ''
     @ ''most relevant matches, explain why they fit the user'' @ [CHR 0x27] @ ''s '' @ ''request, and keep the answer concise.''"

text \<open>An answer and the correction of it are appended to the request only.\<close>

definition corrected :: "string \<Rightarrow> string \<Rightarrow> ('c, 'j, 'w) Round \<Rightarrow> ('c, 'j, 'w) Round" where
  "corrected answer correction r =
     (put_messages (rd_messages r @ [block_message ''assistant'' answer, block_message ''user'' correction]) r)
       \<lparr>rd_iterations := rd_iterations r + 1\<rparr>"

text \<open>How a round ends: with another one, after the loop, or out of the function.\<close>

datatype ('c, 'j, 'w) ending = Again "('c, 'j, 'w) Round" | Leave "('c, 'j, 'w) Round" | Finish "Message list outcome" "('c, 'j, 'w) Round"

definition tool_round :: "'w World \<Rightarrow> ChatCompletionResponse \<Rightarrow> ('c, 'j, 'w) Round \<Rightarrow> ('c, 'j, 'w) ending" where
  "tool_round W response r =
     (let calls = re_tool_calls response;
          (results, w) = handle_tool_calls W calls (tn_world (rd_turn r));
          added = [assistant_message response, results_message calls (map (\<lambda>x. truncate_tool_result x 30000 20) results)];
          r1 = (put_messages (rd_messages r @ added) (put_world w r))\<lparr>rd_new := rd_new r @ added\<rparr>;
          (stop, t) = stopped W (rd_turn r1);
          r2 = r1\<lparr>rd_turn := t\<rparr>
      in if stop then Leave r2 else Again (r2\<lparr>rd_iterations := rd_iterations r2 + 1\<rparr>))"

definition text_round ::
  "'d TurnEnv \<Rightarrow> 'w World \<Rightarrow> TurnText \<Rightarrow> string \<Rightarrow> ('c, 'j, 'w) Round \<Rightarrow> ('c, 'j, 'w) ending" where
  "text_round E W T answer r =
     (if \<not> rd_lookup r \<and> has_lookup_intent (tt_message T)
         \<and> (response_looks_like_unfulfilled_lookup_preamble answer \<or> response_contains_negative_conclusion answer)
      then Again ((corrected answer lookup_correction r)\<lparr>rd_lookup := True\<rparr>)
      else if \<not> rd_synthesis r \<and> ''web_search'' \<in> set (collect_trailing_replay_tool_names (rd_messages r))
         \<and> response_looks_like_raw_search_results_dump answer
      then Again ((corrected answer synthesis_correction r)\<lparr>rd_synthesis := True\<rparr>)
      else
        (let new = rd_new r @ [block_message ''assistant'' answer];
             w = IndexConversationMessages E W (tt_message T) new (tt_key T) (tn_world (rd_turn r))
         in Finish (Done new) (put_world w r)))"

definition overflow_note :: string where
  "overflow_note = ''[Context overflow recovery: older messages removed.]''"

definition recovered_messages :: "string \<Rightarrow> Message list \<Rightarrow> Message list option" where
  "recovered_messages system_prompt ms =
     map_option (\<lambda>recent. unless_no_text ''system'' system_prompt @ [text_message ''system'' overflow_note] @ recent)
       (suffix_of (max 2 (int (length ms) div 2)) ms)"

definition is_overflow :: "exn \<Rightarrow> bool" where
  "is_overflow e = (case e of ProviderError kind _ _ \<Rightarrow> kind = kContextOverflow | StdError _ \<Rightarrow> False)"

definition failed_round :: "TurnText \<Rightarrow> exn \<Rightarrow> ('c, 'j, 'w) Round \<Rightarrow> ('c, 'j, 'w) ending" where
  "failed_round T e r =
     (if is_overflow e \<and> rd_overflows r < 3
      then (case recovered_messages (tt_system_prompt T) (rd_messages r) of
              None \<Rightarrow> Finish Undefined r
            | Some ms \<Rightarrow> Again ((put_messages ms r)\<lparr>rd_overflows := rd_overflows r + 1\<rparr>))
      else Finish (Throws e) r)"

definition answered_round ::
  "'d TurnEnv \<Rightarrow> 'w World \<Rightarrow> TurnText \<Rightarrow> ChatCompletionResponse \<Rightarrow> ('c, 'j, 'w) Round \<Rightarrow> ('c, 'j, 'w) ending" where
  "answered_round E W T response r =
     (let r1 = record_usage T (re_usage response) r
      in if re_tool_calls response \<noteq> [] then tool_round W response r1
         else if re_content response \<noteq> [] then text_round E W T (re_content response) r1
         else Leave r1)"

text \<open>Tools are up to the model after the first request, unless the lookup guard has fired.\<close>

definition with_choice :: "('c, 'j, 'w) Round \<Rightarrow> ('c, 'j, 'w) Round" where
  "with_choice r = (if 0 < rd_iterations r \<and> \<not> rd_lookup r then choose_tools ''auto'' r else r)"

text \<open>The head of the loop and its body.\<close>

definition one_round ::
  "'d TurnEnv \<Rightarrow> 'w World \<Rightarrow> TurnText \<Rightarrow> ('c, 'j, 'w) Round \<Rightarrow> ('c, 'j, 'w) ending" where
  "one_round E W T r =
     (if \<not> rd_iterations r < tt_max_iterations T then Leave r
      else
        (let (stop, t) = stopped W (rd_turn r); r1 = r\<lparr>rd_turn := t\<rparr>
         in if stop then Leave r1
            else
              (let r2 = with_choice r1;
                   (answer, t2) = execute_with_retry W (tt_model T) 1 (rd_turn r2);
                   r3 = r2\<lparr>rd_turn := t2\<rparr>
               in case answer of
                    Done response \<Rightarrow> answered_round E W T response r3
                  | Throws e \<Rightarrow> failed_round T e r3
                  | Hangs \<Rightarrow> Finish Hangs r3
                  | Undefined \<Rightarrow> Finish Undefined r3)))"

definition turn_measure :: "TurnText \<Rightarrow> ('c, 'j, 'w) Round \<Rightarrow> nat" where
  "turn_measure T r = nat (tt_max_iterations T - rd_iterations r) + (3 - rd_overflows r)"

lemma record_usage_fields [simp]:
  "rd_new (record_usage T u r) = rd_new r" "rd_iterations (record_usage T u r) = rd_iterations r"
  "rd_overflows (record_usage T u r) = rd_overflows r" "rd_lookup (record_usage T u r) = rd_lookup r"
  "rd_synthesis (record_usage T u r) = rd_synthesis r" "tn_request (rd_turn (record_usage T u r)) = tn_request (rd_turn r)"
  "tn_world (rd_turn (record_usage T u r)) = tn_world (rd_turn r)"
  by (simp_all add: record_usage_def Let_def split: option.split)

lemma Again_fields [simp]:
  "rd_iterations (put_messages ms r) = rd_iterations r" "rd_overflows (put_messages ms r) = rd_overflows r"
  "rd_iterations (put_world w r) = rd_iterations r" "rd_overflows (put_world w r) = rd_overflows r"
  "rd_iterations (choose_tools k r) = rd_iterations r" "rd_overflows (choose_tools k r) = rd_overflows r"
  "rd_iterations (corrected x y r) = rd_iterations r + 1" "rd_overflows (corrected x y r) = rd_overflows r"
  by (simp_all add: put_messages_def put_world_def choose_tools_def corrected_def)

text \<open>A further round has one iteration more, or one overflow more of three.\<close>

lemma one_round_Again:
  assumes "one_round E W T r = Again r'"
  shows "rd_iterations r < tt_max_iterations T" and
    "rd_iterations r' = rd_iterations r + 1 \<and> rd_overflows r' = rd_overflows r
     \<or> rd_iterations r' = rd_iterations r \<and> rd_overflows r' = rd_overflows r + 1 \<and> rd_overflows r < 3"
proof -
  show "rd_iterations r < tt_max_iterations T" using assms by (simp add: one_round_def split: if_splits)
  have a: "answered_round E W T response q = Again r' \<Longrightarrow> rd_iterations r' = rd_iterations q + 1 \<and> rd_overflows r' = rd_overflows q" for response q
    by (auto simp: answered_round_def tool_round_def text_round_def Let_def split: if_splits prod.splits)
  have f: "failed_round T e q = Again r' \<Longrightarrow> rd_iterations r' = rd_iterations q \<and> rd_overflows r' = rd_overflows q + 1 \<and> rd_overflows q < 3" for e q
    by (auto simp: failed_round_def split: if_splits option.splits)
  show "rd_iterations r' = rd_iterations r + 1 \<and> rd_overflows r' = rd_overflows r
     \<or> rd_iterations r' = rd_iterations r \<and> rd_overflows r' = rd_overflows r + 1 \<and> rd_overflows r < 3"
    using assms by (auto simp: one_round_def with_choice_def Let_def dest!: a f split: if_splits prod.splits outcome.splits)
qed

function process_rounds ::
  "'d TurnEnv \<Rightarrow> 'w World \<Rightarrow> TurnText \<Rightarrow> ('c, 'j, 'w) Round \<Rightarrow> ('c, 'j, 'w) ending" where
  "process_rounds E W T r = (case one_round E W T r of Again r' \<Rightarrow> process_rounds E W T r' | e \<Rightarrow> e)"
  by pat_completeness auto
termination
proof (relation "measure (\<lambda>(E, W, T, r). turn_measure T r)")
  show "((E, W, T, r'), (E, W, T, r)) \<in> measure (\<lambda>(E, W, T, r). turn_measure T r)"
    if "one_round E W T r = Again r'" for E W T r r'
    using one_round_Again [OF that] by (auto simp: turn_measure_def)
qed simp

declare process_rounds.simps [simp del]

definition stop_message :: Message where "stop_message = block_message ''assistant'' ''[Agent turn stopped by user]''"

definition iterations_error :: "int \<Rightarrow> exn" where
  "iterations_error n = StdError (''Failed to get valid response after '' @ to_string n @ '' iterations'')"

text \<open>What follows the loop.\<close>

definition after_rounds ::
  "'d TurnEnv \<Rightarrow> 'w World \<Rightarrow> TurnText \<Rightarrow> ('c, 'j, 'w) Round \<Rightarrow> Message list outcome \<times> ('c, 'j, 'w) Round" where
  "after_rounds E W T r =
     (let (stop, t) = stopped W (rd_turn r); r1 = r\<lparr>rd_turn := t\<rparr>
      in if stop
         then (let new = rd_new r1 @ [stop_message]
               in (Done new, put_world (IndexConversationMessages E W (tt_message T) new (tt_key T) (tn_world t)) r1))
         else (Throws (iterations_error (tt_max_iterations T)), r1))"

definition run_rounds ::
  "'d TurnEnv \<Rightarrow> 'w World \<Rightarrow> TurnText \<Rightarrow> ('c, 'j, 'w) Round \<Rightarrow> Message list outcome \<times> ('c, 'j, 'w) Round" where
  "run_rounds E W T r =
     (case process_rounds E W T r of
        Finish result r1 \<Rightarrow> (result, r1)
      | Leave r1 \<Rightarrow> after_rounds E W T r1
      | Again r1 \<Rightarrow> after_rounds E W T r1)"

section \<open>The whole turn\<close>

definition first_request :: "'d TurnEnv \<Rightarrow> ('c, 'j) AgentLoop \<Rightarrow> Message list \<Rightarrow> string \<Rightarrow> ChatCompletionRequest" where
  "first_request E a context kind =
     \<lparr>rq_messages = context, rq_model = resolved_request_model a, rq_temperature = ac_temperature (al_config a),
      rq_max_tokens = ac_max_tokens (al_config a), rq_tools = build_request_tools (te_schemas E),
      rq_tool_choice_type = kind, rq_thinking = ac_thinking (al_config a)\<rparr>"

text \<open>The messages of the first request: the notice, the history and the guard.\<close>

definition first_context ::
  "'d TurnEnv \<Rightarrow> ('c, 'j) AgentLoop \<Rightarrow> string \<Rightarrow> string \<Rightarrow> string \<Rightarrow> string \<Rightarrow> Message list \<Rightarrow> Message list option" where
  "first_context E a note system_prompt notice message history =
     (let c = al_config a; window = context_window a
      in Option.bind (recent_history E c window system_prompt message history)
           (\<lambda>recent. context_guard note c window system_prompt (build_context system_prompt notice recent message)))"

definition turn_key :: "('c, 'j) AgentLoop \<Rightarrow> string \<Rightarrow> string" where
  "turn_key a usage_session_key = (if usage_session_key = [] then al_session_key a else usage_session_key)"

text \<open>The state in which the rounds of a turn begin.\<close>

definition first_round :: "('c, 'j, 'w) Turn \<Rightarrow> ('c, 'j, 'w) Round" where
  "first_round t = \<lparr>rd_turn = t, rd_new = [], rd_iterations = 0, rd_overflows = 0, rd_lookup = False, rd_synthesis = False\<rparr>"

definition ProcessMessage ::
  "'d TurnEnv \<Rightarrow> 'w World \<Rightarrow> string \<Rightarrow> Message list \<Rightarrow> string \<Rightarrow> string \<Rightarrow> ('c, 'j) AgentLoop \<Rightarrow> 'w
     \<Rightarrow> Message list outcome \<times> ('c, 'j) AgentLoop \<times> 'w" where
  "ProcessMessage E W message history system_prompt usage_session_key a w =
     (let key = turn_key a usage_session_key;
          (notice, w1) = duplicate_notice E W key message (wd_clear_stop W w);
          (now, w2) = wd_now W w1
      in case resolve_provider (wd_getenv W) now a of
           SelfDeadlock \<Rightarrow> (Hangs, a, w2)
         | Returns (provider, a1) \<Rightarrow>
             (case first_context E a1 forced_note system_prompt notice message history of
                None \<Rightarrow> (Undefined, a1, w2)
              | Some context \<Rightarrow>
                  (let request = first_request E a1 context (if has_lookup_intent message then ''any'' else ''auto'');
                       T = \<lparr>tt_message = message, tt_system_prompt = system_prompt, tt_key = key,
                            tt_model = ac_model (al_config a1), tt_max_iterations = al_max_iterations a1\<rparr>;
                       (result, r) = run_rounds E W T
                         (first_round \<lparr>tn_agent = a1, tn_request = request, tn_provider = provider, tn_world = w2\<rparr>)
                   in (result, tn_agent (rd_turn r), tn_world (rd_turn r)))))"

section \<open>What a turn adds to the session\<close>

definition call_ids :: "Message \<Rightarrow> string list" where
  "call_ids m = map cb_id (List.filter is_tool_use (ms_content m))"

text \<open>Messages that come in twos: calls, and a message of just their results, in order.\<close>

fun tool_pairs :: "Message list \<Rightarrow> bool" where
  "tool_pairs [] = True"
| "tool_pairs [m] = False"
| "tool_pairs (a # u # ms) \<longleftrightarrow> ms_role a = ''assistant'' \<and> call_ids a \<noteq> [] \<and> has_only_tool_result_blocks u
     \<and> map cb_tool_use_id (ms_content u) = call_ids a \<and> list_all (\<lambda>b. \<not> is_tool_result b) (ms_content a) \<and> tool_pairs ms"

lemma tool_pairs_append: "tool_pairs xs \<Longrightarrow> tool_pairs (xs @ ys) = tool_pairs ys"
  by (induction xs rule: tool_pairs.induct) auto

lemma handle_tool_calls_length: "length (fst (handle_tool_calls W cs w)) = length cs"
  by (induction W cs w rule: handle_tool_calls.induct) (auto simp: Let_def split: prod.splits)

lemma block_kinds [simp]:
  "is_tool_use (MakeToolUse i n a)" "\<not> is_tool_use (MakeText t)" "is_tool_result (MakeToolResult i r)"
  "\<not> is_tool_result (MakeText t)" "\<not> is_tool_result (MakeToolUse i n a)" "cb_id (MakeToolUse i n a) = i"
  "cb_tool_use_id (MakeToolResult i r) = i"
  by (simp_all add: is_tool_use_def is_tool_result_def MakeToolUse_def MakeText_def MakeToolResult_def ContentBlock_empty_def)

lemma assistant_message_calls: "call_ids (assistant_message response) = map tk_id (re_tool_calls response)"
  by (simp add: call_ids_def assistant_message_def filter_map comp_def)

lemma results_pair:
  assumes "re_tool_calls response \<noteq> []" and "length results = length (re_tool_calls response)"
  shows "tool_pairs [assistant_message response, results_message (re_tool_calls response) results]"
proof -
  let ?cs = "re_tool_calls response"
  have z: "zip ?cs results \<noteq> []" using assms by (cases ?cs; cases results) auto
  have "map (\<lambda>(c, r). tk_id c) (zip ?cs results) = map tk_id ?cs"
    using assms(2) by (simp add: case_prod_unfold flip: map_map [of tk_id fst, unfolded comp_def])
  then show ?thesis using assms(1) z
    by (simp add: assistant_message_calls has_only_tool_result_blocks_def results_message_def list_all_iff
        case_prod_unfold comp_def) (simp add: assistant_message_def)
qed

lemma rd_new_fields [simp]:
  "rd_new (put_messages ms r) = rd_new r" "rd_new (put_world w r) = rd_new r" "rd_new (choose_tools k r) = rd_new r"
  "rd_new (corrected x y r) = rd_new r"
  by (simp_all add: put_messages_def put_world_def choose_tools_def corrected_def)

text \<open>The messages of a round's end: pairs, and after them an answer when the turn returns.\<close>

fun ends_well :: "('c, 'j, 'w) ending \<Rightarrow> bool" where
  "ends_well (Again r) = tool_pairs (rd_new r)"
| "ends_well (Leave r) = tool_pairs (rd_new r)"
| "ends_well (Finish (Done ms) r) = (\<exists>pairs text. ms = pairs @ [block_message ''assistant'' text] \<and> tool_pairs pairs)"
| "ends_well (Finish _ r) = True"

lemma tool_round_pairs:
  assumes "tool_pairs (rd_new r)" and "re_tool_calls response \<noteq> []"
  shows "ends_well (tool_round W response r)"
proof -
  obtain results w where h: "handle_tool_calls W (re_tool_calls response) (tn_world (rd_turn r)) = (results, w)"
    by (cases "handle_tool_calls W (re_tool_calls response) (tn_world (rd_turn r))")
  then have "length results = length (re_tool_calls response)" using handle_tool_calls_length by (metis fst_conv)
  then have "tool_pairs (rd_new r @ [assistant_message response,
      results_message (re_tool_calls response) (map (\<lambda>x. truncate_tool_result x 30000 20) results)])"
    using results_pair [OF assms(2)] tool_pairs_append [OF assms(1)] by simp
  then show ?thesis by (simp add: tool_round_def h Let_def split: prod.split)
qed

lemma one_round_pairs:
  assumes "tool_pairs (rd_new r)"
  shows "ends_well (one_round E W T r)"
proof -
  have a: "ends_well (answered_round E W T response q)" if "rd_new q = rd_new r" for response q
    using that assms tool_round_pairs [of "record_usage T (re_usage response) q" response W]
    by (auto simp: answered_round_def text_round_def Let_def)
  have f: "ends_well (failed_round T e q)" if "rd_new q = rd_new r" for e q
    using that assms by (auto simp: failed_round_def split: option.split)
  show ?thesis using assms by (auto simp: one_round_def with_choice_def Let_def a f split: prod.split outcome.split)
qed

lemma process_rounds_pairs: "tool_pairs (rd_new r) \<Longrightarrow> ends_well (process_rounds E W T r)"
proof (induction E W T r rule: process_rounds.induct)
  case (1 E W T r)
  show ?case
  proof (cases "one_round E W T r")
    case (Again r')
    then have "tool_pairs (rd_new r')" using one_round_pairs [OF 1(2), of E W T] by simp
    with 1(1) [OF Again] show ?thesis using Again by (simp add: process_rounds.simps [of E W T r])
  qed (use one_round_pairs [OF 1(2), of E W T] in \<open>simp_all add: process_rounds.simps [of E W T r]\<close>)
qed

lemma run_rounds_pairs:
  assumes "tool_pairs (rd_new r)" and "run_rounds E W T r = (Done ms, r')"
  shows "\<exists>pairs text. ms = pairs @ [block_message ''assistant'' text] \<and> tool_pairs pairs"
proof -
  have "after_rounds E W T q = (Done ms, r') \<Longrightarrow> tool_pairs (rd_new q) \<Longrightarrow> ?thesis" for q
    by (auto simp: after_rounds_def Let_def stop_message_def split: prod.splits if_splits)
  with process_rounds_pairs [OF assms(1), of E W T] assms(2) show ?thesis
    by (auto simp: run_rounds_def split: ending.splits)
qed

lemma pair_members:
  assumes "map cb_tool_use_id (ms_content u) = call_ids a" and "has_only_tool_result_blocks u" and "ms_role a = ''assistant''"
  shows "answered_in a (Some u)" and "asked_in (Some a) u"
proof -
  have c: "cb_id ` {c \<in> set (ms_content a). is_tool_use c} = cb_tool_use_id ` set (ms_content u)"
    using arg_cong [OF assms(1), of set] by (simp add: call_ids_def)
  have u: "\<forall>b \<in> set (ms_content u). is_tool_result b" "ms_role u = ''user''"
    using assms(2) by (auto simp: has_only_tool_result_blocks_def list_all_iff)
  show "answered_in a (Some u)"
    unfolding answered_in_def answers_def
  proof (intro impI ballI exI conjI)
    fix x assume "x \<in> set (ms_content a)" and "is_tool_use x \<and> cb_id x \<noteq> []"
    then have "cb_id x \<in> cb_tool_use_id ` set (ms_content u)" using c by blast
    then show "\<exists>b \<in> set (ms_content u). is_tool_result b \<and> cb_tool_use_id b = cb_id x" using u by force
  qed (use u in simp_all)
  show "asked_in (Some a) u"
    unfolding asked_in_def asks_def
  proof (intro impI ballI exI conjI)
    fix b assume "b \<in> set (ms_content u)"
    then have "cb_tool_use_id b \<in> cb_id ` {c \<in> set (ms_content a). is_tool_use c}" using c by blast
    then show "\<exists>c \<in> set (ms_content a). is_tool_use c \<and> cb_id c = cb_tool_use_id b" by force
  qed (use assms(3) in simp_all)
qed

lemma tool_pairs_paired: "tool_pairs xs \<Longrightarrow> paired p (xs @ [block_message ''assistant'' text])"
proof (induction xs arbitrary: p rule: tool_pairs.induct)
  case 1
  then show ?case by (simp add: block_message_def asked_in_def answered_in_def)
next
  case (3 a u ms)
  then have "answered_in a (Some u)" "asked_in (Some a) u" using pair_members by auto
  moreover have "asked_in p a" "answered_in u n" for n using 3(2)
    by (auto simp: asked_in_def answered_in_def has_only_tool_result_blocks_def)
  ultimately show ?case using 3 by simp
qed simp

lemma ProcessMessage_rounds:
  fixes a :: "('c, 'j) AgentLoop" and W :: "'w World"
  assumes "ProcessMessage E W message history system_prompt key a w = (Done ms, a', w')"
  shows "\<exists>T (t :: ('c, 'j, 'w) Turn) r. run_rounds E W T (first_round t) = (Done ms, r)"
  using assms unfolding ProcessMessage_def Let_def
  by (auto split: prod.splits call.splits option.splits)

text \<open>
  Claim C6. A turn that returns has added rounds of calls and results in twos, every call answered in order in the very next message whatever the
  tools, the stop or the recovery from overflows did, and one answer of the assistant at the end; so what is
  stored is paired.
\<close>

theorem turn_messages_paired:
  fixes a :: "('c, 'j) AgentLoop" and W :: "'w World"
  assumes "ProcessMessage E W message history system_prompt key a w = (Done ms, a', w')"
  shows "\<exists>pairs text. ms = pairs @ [block_message ''assistant'' text] \<and> tool_pairs pairs \<and> paired None ms"
proof -
  from ProcessMessage_rounds [OF assms] obtain T and t :: "('c, 'j, 'w) Turn" and r
    where "run_rounds E W T (first_round t) = (Done ms, r)" by blast
  from run_rounds_pairs [OF _ this] show ?thesis using tool_pairs_paired by (fastforce simp: first_round_def)
qed

section \<open>How long a turn can be\<close>

text \<open>Tools, the index and the clock call no provider.\<close>

definition counts_turn :: "'w World \<Rightarrow> ('w \<Rightarrow> nat) \<Rightarrow> bool" where
  "counts_turn W calls \<longleftrightarrow> counts_calls W calls \<and> (\<forall>w. calls (wd_clear_stop W w) = calls w \<and>
     (\<forall>n a. calls (snd (wd_tool W n a w)) = calls w) \<and> (\<forall>q. calls (snd (wd_search W q w)) = calls w) \<and>
     (\<forall>i t m. calls (wd_index W i t m w) = calls w))"

lemma counts_turnD:
  assumes "counts_turn W calls"
  shows "counts_calls W calls" and "calls (wd_clear_stop W w) = calls w" and "calls (wd_index W i x m w) = calls w"
    and "wd_tool W n y w = (p, w') \<Longrightarrow> calls w' = calls w" and "wd_search W q w = (b, w') \<Longrightarrow> calls w' = calls w"
    and "wd_now W w = (v, w') \<Longrightarrow> calls w' = calls w" and "wd_stopped W w = (c, w') \<Longrightarrow> calls w' = calls w"
proof -
  have d: "counts_calls W calls" "\<And>n y. calls (snd (wd_tool W n y w)) = calls w" "\<And>q. calls (snd (wd_search W q w)) = calls w"
    "calls (snd (wd_now W w)) = calls w" "calls (snd (wd_stopped W w)) = calls w"
    using assms by (simp_all add: counts_turn_def counts_calls_def)
  show "counts_calls W calls" by (fact d)
  show "calls (wd_clear_stop W w) = calls w" "calls (wd_index W i x m w) = calls w" using assms by (simp_all add: counts_turn_def)
  show "wd_tool W n y w = (p, w') \<Longrightarrow> calls w' = calls w" using d(2) by (metis snd_conv)
  show "wd_search W q w = (b, w') \<Longrightarrow> calls w' = calls w" using d(3) by (metis snd_conv)
  show "wd_now W w = (v, w') \<Longrightarrow> calls w' = calls w" using d(4) by simp
  show "wd_stopped W w = (c, w') \<Longrightarrow> calls w' = calls w" using d(5) by simp
qed

lemma tools_count:
  "counts_turn W calls \<Longrightarrow> handle_tool_calls W cs w = (rs, w') \<Longrightarrow> calls w' = calls w"
proof (induction cs arbitrary: w rs)
  case (Cons c cs)
  show ?case using Cons.prems(2) counts_turnD(4,7) [OF Cons.prems(1)] Cons.IH [OF Cons.prems(1)]
    by (auto simp: Let_def split: prod.splits if_splits)
qed simp

lemma index_count:
  assumes "counts_turn W calls"
  shows "calls (IndexConversationMessages E W message ms key w) = calls w"
proof -
  have "calls (index_answers W key ms v) = calls v" for v
    by (induction ms arbitrary: v)
      (use counts_turnD [OF assms] in \<open>auto simp: Let_def split: prod.splits\<close>)
  moreover have "calls (index_user_message W message key v) = calls v" for v
    using counts_turnD [OF assms] by (auto simp: index_user_message_def Let_def split: prod.splits)
  ultimately show ?thesis by (simp add: IndexConversationMessages_def)
qed

definition round_calls :: "('w \<Rightarrow> nat) \<Rightarrow> ('c, 'j, 'w) Round \<Rightarrow> nat" where
  "round_calls calls r = calls (tn_world (rd_turn r))"

lemma round_calls_fields [simp]:
  "round_calls calls (put_messages ms r) = round_calls calls r" "round_calls calls (put_world w r) = calls w"
  "round_calls calls (choose_tools k r) = round_calls calls r" "round_calls calls (corrected x y r) = round_calls calls r"
  "round_calls calls (record_usage T u r) = round_calls calls r" "round_calls calls (r\<lparr>rd_new := ms\<rparr>) = round_calls calls r"
  "round_calls calls (r\<lparr>rd_iterations := i\<rparr>) = round_calls calls r" "round_calls calls (r\<lparr>rd_overflows := n\<rparr>) = round_calls calls r"
  "round_calls calls (r\<lparr>rd_lookup := b\<rparr>) = round_calls calls r" "round_calls calls (r\<lparr>rd_synthesis := b\<rparr>) = round_calls calls r"
  "round_calls calls (r\<lparr>rd_turn := t\<rparr>) = calls (tn_world t)"
  by (simp_all add: round_calls_def put_messages_def put_world_def choose_tools_def corrected_def)

fun ending_round :: "('c, 'j, 'w) ending \<Rightarrow> ('c, 'j, 'w) Round" where
  "ending_round (Again r) = r"
| "ending_round (Leave r) = r"
| "ending_round (Finish x r) = r"

lemma stopped_count: "counts_turn W calls \<Longrightarrow> stopped W t = (b, t') \<Longrightarrow> calls (tn_world t') = calls (tn_world t)"
  using counts_steps(1) [OF counts_turnD(1)] by (simp add: turn_calls_def)

lemma answered_count:
  assumes W: "counts_turn W calls"
  shows "round_calls calls (ending_round (answered_round E W T response r)) = round_calls calls r"
proof -
  have tool: "round_calls calls (ending_round (tool_round W response q)) = round_calls calls q" for q
  proof -
    obtain results w where h: "handle_tool_calls W (re_tool_calls response) (tn_world (rd_turn q)) = (results, w)"
      by (cases "handle_tool_calls W (re_tool_calls response) (tn_world (rd_turn q))")
    have "calls w = round_calls calls q" using tools_count [OF W h] by (simp add: round_calls_def)
    then show ?thesis
      by (auto simp: tool_round_def h Let_def put_messages_def put_world_def dest!: stopped_count [OF W] split: prod.split)
  qed
  have answer: "round_calls calls (ending_round (text_round E W T x q)) = round_calls calls q" for x q
    by (auto simp: text_round_def Let_def index_count [OF W]) (simp_all add: round_calls_def)
  show ?thesis by (auto simp: answered_round_def Let_def tool answer)
qed

lemma one_round_count:
  assumes W: "counts_turn W calls" and "rd_iterations r < tt_max_iterations T"
  shows "round_calls calls (ending_round (one_round E W T r)) \<le> round_calls calls r + 40"
proof -
  obtain stop t where st: "stopped W (rd_turn r) = (stop, t)" by (cases "stopped W (rd_turn r)")
  have t: "calls (tn_world t) = round_calls calls r" using stopped_count [OF W st] by (simp add: round_calls_def)
  show ?thesis
  proof (cases stop)
    case True
    then show ?thesis using assms t by (simp add: one_round_def st Let_def)
  next
    case False
    define r2 where "r2 = with_choice (r\<lparr>rd_turn := t\<rparr>)"
    have r2: "round_calls calls r2 = round_calls calls r" using t by (simp add: r2_def with_choice_def)
    obtain answer t2 where e: "execute_with_retry W (tt_model T) 1 (rd_turn r2) = (answer, t2)"
      by (cases "execute_with_retry W (tt_model T) 1 (rd_turn r2)")
    have t2: "calls (tn_world t2) \<le> round_calls calls r + 40"
      using calls_bounded [OF counts_turnD(1) [OF W], of "tt_model T" 1 "rd_turn r2"] e r2
      by (simp add: turn_calls_def round_calls_def)
    have f: "round_calls calls (ending_round (failed_round T x q)) = round_calls calls q" for x q
      by (simp add: failed_round_def split: option.split)
    have "one_round E W T r = (case answer of Done response \<Rightarrow> answered_round E W T response (r2\<lparr>rd_turn := t2\<rparr>)
        | Throws x \<Rightarrow> failed_round T x (r2\<lparr>rd_turn := t2\<rparr>) | Hangs \<Rightarrow> Finish Hangs (r2\<lparr>rd_turn := t2\<rparr>)
        | Undefined \<Rightarrow> Finish Undefined (r2\<lparr>rd_turn := t2\<rparr>))"
      using assms(2) False by (cases answer) (simp_all add: one_round_def st Let_def r2_def e [unfolded r2_def])
    then show ?thesis using t2 by (cases answer) (simp_all add: answered_count [OF W] f)
  qed
qed

lemma process_count:
  assumes W: "counts_turn W calls"
  shows "round_calls calls (ending_round (process_rounds E W T r)) \<le> round_calls calls r + 40 * turn_measure T r"
  using W
proof (induction E W T r rule: process_rounds.induct)
  case (1 E W T r)
  show ?case
  proof (cases "rd_iterations r < tt_max_iterations T")
    case False
    then show ?thesis by (simp add: process_rounds.simps [of E W T r] one_round_def)
  next
    case True
    then have m: "1 \<le> turn_measure T r" by (simp add: turn_measure_def)
    have c: "round_calls calls (ending_round (one_round E W T r)) \<le> round_calls calls r + 40" by (rule one_round_count [OF 1(2) True])
    show ?thesis
    proof (cases "one_round E W T r")
      case (Again r')
      have "turn_measure T r' + 1 \<le> turn_measure T r" using one_round_Again [OF Again] by (auto simp: turn_measure_def)
      with 1(1) [OF Again 1(2)] c Again show ?thesis by (simp add: process_rounds.simps [of E W T r])
    qed (use c m in \<open>simp_all add: process_rounds.simps [of E W T r]\<close>)
  qed
qed

lemma resolve_keeps:
  assumes "resolve_provider env now a = Returns (p, a1)"
  shows "al_max_iterations a1 = al_max_iterations a"
proof -
  have r: "al_max_iterations (snd (resolve_registry env b)) = al_max_iterations b" for b :: "('a, 'b) AgentLoop"
    by (auto simp: resolve_registry_def no_ids_def Let_def split: option.split prod.split)
  have "resolve_registry env b = (p, a1) \<Longrightarrow> al_max_iterations a1 = al_max_iterations b" for b :: "('a, 'b) AgentLoop"
    using r [of b] by simp
  with assms show ?thesis
    by (auto simp: resolve_provider_def put_resolver_def Let_def split: option.splits call.splits prod.splits)
qed


definition demo_env :: "int TurnEnv" where
  "demo_env = \<lparr>te_fp = demo_fp, te_decode = (\<lambda>_. []), te_encode = (\<lambda>_. []), te_dump = (\<lambda>_. []), te_schemas = [],
     te_has_pruner = True, te_has_embeddings = False\<rparr>"

definition demo_agent :: "(nat, nat) AgentLoop" where
  "demo_agent = (AgentLoop_init (Some \<lparr>pv_object = Injected, pv_impl = OpenAIProvider ''k'' ''u'' 30\<rparr>) AgentConfig_init)
     \<lparr>al_max_iterations := 5\<rparr>"


section \<open>The recovery and the guard of the context\<close>

lemma suffix_of_None: "0 \<le> keep \<Longrightarrow> suffix_of keep xs = None \<longleftrightarrow> int (length xs) < keep"
  by (auto simp: suffix_of_def)

text \<open>
  The recovery from an overflow reads before the beginning of a request with fewer than two messages; otherwise
  it keeps the latter half, and at least two. A request of two messages, or of three with a system prompt, gets longer, since a note is added. Halving can cut a
  call from its result.
\<close>

theorem recovery_sizes:
  "(recovered_messages p ms = None) = (length ms < 2)
   \<and> (case recovered_messages p ms of None \<Rightarrow> True | Some ms' \<Rightarrow>
        length ms' = max 2 (length ms div 2) + (if p = [] then 1 else 2)
        \<and> (length ms < length ms') = (length ms \<le> (if p = [] then 2 else 3)))
   \<and> (let call = \<lparr>ms_role = ''assistant'', ms_content = [MakeToolUse i n x], ms_timestamp = []\<rparr>;
          result = \<lparr>ms_role = ''user'', ms_content = [MakeToolResult i r], ms_timestamp = []\<rparr>
      in paired None [text_message ''user'' q, call, result, block_message ''assistant'' y]
         \<and> recovered_messages [] [text_message ''user'' q, call, result, block_message ''assistant'' y]
             = Some [text_message ''system'' overflow_note, result, block_message ''assistant'' y]
         \<and> \<not> paired None [text_message ''system'' overflow_note, result, block_message ''assistant'' y])"
proof (intro conjI)
  show none: "(recovered_messages p ms = None) = (length ms < 2)" by (auto simp: recovered_messages_def suffix_of_None)
  show "case recovered_messages p ms of None \<Rightarrow> True | Some ms' \<Rightarrow>
        length ms' = max 2 (length ms div 2) + (if p = [] then 1 else 2)
        \<and> (length ms < length ms') = (length ms \<le> (if p = [] then 2 else 3))"
  proof (cases "length ms < 2")
    case True
    with none show ?thesis by simp
  next
    case False
    define k where "k = max 2 (length ms div 2)"
    have k: "max 2 (int (length ms) div 2) = int k" "k \<le> length ms" "2 \<le> k" using False by (auto simp: k_def zdiv_int)
    then have "recovered_messages p ms = Some (unless_no_text ''system'' p @ [text_message ''system'' overflow_note]
        @ drop (length ms - k) ms)" by (simp add: recovered_messages_def suffix_of_def)
    then show ?thesis using k False by (auto simp: unless_no_text_def k_def [symmetric])
  qed
qed (simp add: Let_def recovered_messages_def suffix_of_def unless_no_text_def asked_in_def answered_in_def asks_def answers_def
    text_message_def block_message_def overflow_note_def)

text \<open>
  The guard of the context window keeps the message of the user exactly when it keeps anything: with \<open>compact_keep_recent\<close>
  0 the request consists of system messages.
\<close>

theorem guard_keeps_question:
  assumes "context_guard note c window p (build_context p notice history message) = Some ms"
    and "estimate_tokens (build_context p notice history message) + ac_max_tokens c > window - 16384"
  shows "0 \<le> ac_compact_keep_recent c
   \<and> (if ac_compact_keep_recent c = 0 then list_all is_system ms
      else ms \<noteq> [] \<and> last ms = text_message ''user'' message)"
proof -
  let ?ctx = "build_context p notice history message" and ?keep = "ac_compact_keep_recent c"
  have last: "last ?ctx = text_message ''user'' message" "?ctx \<noteq> []" by (simp_all add: build_context_def)
  show ?thesis
  proof (cases "?keep < int (length ?ctx)")
    case False
    then have "ms = ?ctx" using assms by (simp add: context_guard_def Let_def min_def split: if_splits)
    then show ?thesis using last False by (auto simp: build_context_def)
  next
    case True
    then have k: "0 \<le> ?keep" and ms: "ms = unless_no_text ''system'' p @ [text_message ''system'' note]
        @ drop (length ?ctx - nat ?keep) ?ctx"
      using assms by (auto simp: context_guard_def Let_def suffix_of_def min_def split: if_splits)
    show ?thesis
    proof (cases "?keep = 0")
      case True
      then show ?thesis using ms by (simp add: unless_no_text_def is_system_def text_message_def)
    next
      case keep: False
      then have d: "length ?ctx - nat ?keep < length ?ctx" using k last(2) by (simp add: diff_less)
      then have "drop (length ?ctx - nat ?keep) ?ctx \<noteq> []" by simp
      then have "last ms = text_message ''user'' message" "ms \<noteq> []" using ms d last(1) by (simp_all add: last_append last_drop)
      then show ?thesis using keep k by simp
    qed
  qed
qed

theorem guard_keeps_question_witness:
  "\<exists>ms. context_guard forced_note (AgentConfig_init\<lparr>ac_compact_keep_recent := 0\<rparr>) 20000 [] (build_context [] [] [] ''hello'') = Some ms
     \<and> list_all is_system ms"
proof -
  have "context_guard forced_note (AgentConfig_init\<lparr>ac_compact_keep_recent := 0\<rparr>) 20000 [] (build_context [] [] [] ''hello'')
      = Some [text_message ''system'' forced_note]"
    by (simp add: context_guard_def build_context_def unless_no_text_def AgentConfig_init_def estimate_tokens_def
        text_message_def block_chars_def MakeText_def ContentBlock_empty_def cdiv_def suffix_of_def)
  from guard_keeps_question [OF this] this show ?thesis
    by (simp add: AgentConfig_init_def estimate_tokens_def build_context_def unless_no_text_def text_message_def
        block_chars_def MakeText_def ContentBlock_empty_def cdiv_def)
qed

section \<open>The lookup guard\<close>

definition tool_choice :: "('c, 'j, 'w) Turn \<Rightarrow> string" where
  "tool_choice t = rq_tool_choice_type (tn_request t)"

text \<open>The answer of a provider to some request with this choice of tools.\<close>

definition answer_to :: "'w World \<Rightarrow> string \<Rightarrow> ChatCompletionResponse \<Rightarrow> bool" where
  "answer_to W kind response \<longleftrightarrow> (\<exists>p rq w w'. rq_tool_choice_type rq = kind \<and> wd_chat W p rq w = (Inr response, w'))"

lemma tool_choice_steps [simp]:
  "tool_choice (sanitize_turn t) = tool_choice t" "tool_choice (switch_to p t) = tool_choice t"
  "tool_choice (record_failure W k ra t) = tool_choice t" "tool_choice (t\<lparr>tn_world := w\<rparr>) = tool_choice t"
  "tool_choice (t\<lparr>tn_agent := a\<rparr>) = tool_choice t" "stopped W t = (b, t1) \<Longrightarrow> tool_choice t1 = tool_choice t"
  "resolve_again W m t = (x, t2) \<Longrightarrow> tool_choice t2 = tool_choice t"
  by (auto simp: tool_choice_def sanitize_turn_def switch_to_def record_failure_def stopped_def resolve_again_def Let_def
      split: option.split prod.splits call.splits)

lemma try_choice:
  "tool_choice (snd (try_provider W l n e t)) = tool_choice t
   \<and> (\<forall>response. fst (try_provider W l n e t) = Done (Inl response) \<longrightarrow> answer_to W (tool_choice t) response)"
proof (induction n arbitrary: e t)
  case (Suc n)
  obtain stop t1 where st: "stopped W t = (stop, t1)" by (cases "stopped W t")
  have t1: "tool_choice t1 = tool_choice t" using st by simp
  let ?t2 = "sanitize_turn t1"
  show ?case
  proof (cases "stop \<or> tn_provider ?t2 = None")
    case True
    then show ?thesis using t1 by (auto simp: st Let_def)
  next
    case False
    then obtain p where p: "tn_provider ?t2 = Some p" and ns: "\<not> stop" by blast
    obtain a w where a: "wd_chat W p (tn_request ?t2) (tn_world ?t2) = (a, w)" by (cases "wd_chat W p (tn_request ?t2) (tn_world ?t2)")
    show ?thesis
    proof (cases a)
      case (Inr response)
      have "rq_tool_choice_type (tn_request ?t2) = tool_choice t" using t1 by (simp add: tool_choice_def sanitize_turn_def)
      then have "answer_to W (tool_choice t) response" using a Inr unfolding answer_to_def by blast
      then show ?thesis using t1 by (simp add: st ns p a Inr Let_def)
    next
      case (Inl x)
      show ?thesis
      proof (cases x)
        case (StdError m)
        then show ?thesis using t1 by (simp add: st ns p a Inl Let_def)
      next
        case (ProviderError k ra m)
        obtain b w' where s: "wd_sleep W (retry_backoff (nat l - n) ra) w = (b, w')" by (cases "wd_sleep W (retry_backoff (nat l - n) ra) w")
        show ?thesis using t1 Suc.IH [of "Some x" "?t2\<lparr>tn_world := w, tn_world := w'\<rparr>"]
          by (simp add: st ns p a Inl ProviderError s Let_def)
      qed
    qed
  qed
qed simp

lemma loop_choice:
  "tool_choice (snd (failover_loop W m l n e t)) = tool_choice t
   \<and> (\<forall>response. fst (failover_loop W m l n e t) = Done response \<longrightarrow> answer_to W (tool_choice t) response)"
proof (induction n arbitrary: e t)
  case (Suc n)
  obtain o1 t1 where p: "try_provider W l (nat (l + 1)) e t = (o1, t1)" by (cases "try_provider W l (nat (l + 1)) e t")
  have t1: "tool_choice t1 = tool_choice t" "\<And>response. o1 = Done (Inl response) \<Longrightarrow> answer_to W (tool_choice t) response"
    using try_choice [of W l "nat (l + 1)" e t] p by simp_all
  show ?case
  proof (cases "\<exists>x. o1 = Done (Inr x)")
    case False
    then show ?thesis using t1 by (auto simp: p split: outcome.split sum.split)
  next
    case True
    then obtain x where x: "o1 = Done (Inr x)" by blast
    obtain stop t3 where st: "stopped W t1 = (stop, t3)" by (cases "stopped W t1")
    obtain o4 t4 where ra: "resolve_again W m t3 = (o4, t4)" by (cases "resolve_again W m t3")
    have "tool_choice t3 = tool_choice t" "tool_choice t4 = tool_choice t" using t1 st ra by simp_all
    then show ?thesis using Suc.IH [of x "switch_to q t4" for q]
      by (auto simp: p x st ra Let_def split: call.split option.split)
  qed
qed simp

text \<open>A provider that calls a tool when it is told to.\<close>

definition obeys_any :: "'w World \<Rightarrow> bool" where
  "obeys_any W \<longleftrightarrow> (\<forall>response. answer_to W ''any'' response \<longrightarrow> re_tool_calls response \<noteq> [])"

text \<open>The rounds of a turn from its first.\<close>

inductive later_round :: "'d TurnEnv \<Rightarrow> 'w World \<Rightarrow> TurnText \<Rightarrow> ('c, 'j, 'w) Round \<Rightarrow> ('c, 'j, 'w) Round \<Rightarrow> bool"
  for E W T r0 where
  first: "later_round E W T r0 r0"
| again: "later_round E W T r0 r \<Longrightarrow> one_round E W T r = Again r' \<Longrightarrow> later_round E W T r0 r'"

lemma choice_fields [simp]:
  "tool_choice (rd_turn (put_messages ms r)) = tool_choice (rd_turn r)" "tool_choice (rd_turn (put_world w r)) = tool_choice (rd_turn r)"
  "tool_choice (rd_turn (corrected x y r)) = tool_choice (rd_turn r)" "tool_choice (rd_turn (record_usage T u r)) = tool_choice (rd_turn r)"
  "tool_choice (rd_turn (choose_tools k r)) = k"
  "rd_lookup (put_messages ms r) = rd_lookup r" "rd_lookup (put_world w r) = rd_lookup r" "rd_lookup (choose_tools k r) = rd_lookup r"
  "rd_lookup (corrected x y r) = rd_lookup r"
  by (simp_all add: tool_choice_def put_messages_def put_world_def choose_tools_def corrected_def record_usage_def Let_def
      split: option.split)

text \<open>What a further round does to the choice and to the guard's flag.\<close>

lemma one_round_choice:
  assumes again: "one_round E W T r = Again r'"
  defines "kind \<equiv> if 0 < rd_iterations r \<and> \<not> rd_lookup r then ''auto'' else tool_choice (rd_turn r)"
  shows "tool_choice (rd_turn r') = kind"
    and "rd_lookup r' = rd_lookup r \<or> (\<exists>response. answer_to W kind response \<and> re_tool_calls response = [])"
proof -
  obtain stop t where st: "stopped W (rd_turn r) = (stop, t)" by (cases "stopped W (rd_turn r)")
  define r2 where "r2 = with_choice (r\<lparr>rd_turn := t\<rparr>)"
  have r2: "tool_choice (rd_turn r2) = kind" "rd_lookup r2 = rd_lookup r"
    using st by (simp_all add: r2_def with_choice_def kind_def)
  obtain answer t2 where e: "execute_with_retry W (tt_model T) 1 (rd_turn r2) = (answer, t2)"
    by (cases "execute_with_retry W (tt_model T) 1 (rd_turn r2)")
  have t2: "tool_choice t2 = kind" "\<And>response. answer = Done response \<Longrightarrow> answer_to W kind response"
    using loop_choice [of W "tt_model T" 1 kMaxFailoverAttempts None "rd_turn r2"] e r2 by (simp_all add: execute_with_retry_def)
  have a: "tool_choice (rd_turn r') = tool_choice (rd_turn q) \<and> (rd_lookup r' = rd_lookup q \<or> re_tool_calls response = [])"
    if "answered_round E W T response q = Again r'" for response q
  proof -
    have t: "tool_choice (rd_turn r') = tool_choice (rd_turn q) \<and> rd_lookup r' = rd_lookup q"
      if "tool_round W response q = Again r'" for q
    proof -
      obtain results w where h: "handle_tool_calls W (re_tool_calls response) (tn_world (rd_turn q)) = (results, w)"
        by (cases "handle_tool_calls W (re_tool_calls response) (tn_world (rd_turn q))")
      show ?thesis using that
        by (auto simp: tool_round_def h Let_def split: if_splits prod.splits)
    qed
    from that show ?thesis
      using t [of "record_usage T (re_usage response) q"] by (auto simp: answered_round_def text_round_def Let_def split: if_splits)
  qed
  have f: "tool_choice (rd_turn r') = tool_choice (rd_turn q) \<and> rd_lookup r' = rd_lookup q"
    if "failed_round T x q = Again r'" for x q
    using that by (auto simp: failed_round_def split: if_splits option.splits)
  have "rd_iterations r < tt_max_iterations T" and "\<not> stop" using again st by (auto simp: one_round_def Let_def split: if_splits)
  then have "(case answer of Done response \<Rightarrow> answered_round E W T response (r2\<lparr>rd_turn := t2\<rparr>)
        | Throws x \<Rightarrow> failed_round T x (r2\<lparr>rd_turn := t2\<rparr>) | Hangs \<Rightarrow> Finish Hangs (r2\<lparr>rd_turn := t2\<rparr>)
        | Undefined \<Rightarrow> Finish Undefined (r2\<lparr>rd_turn := t2\<rparr>)) = Again r'"
    using again by (cases answer) (simp_all add: one_round_def st Let_def r2_def e [unfolded r2_def])
  then show "tool_choice (rd_turn r') = kind"
    and "rd_lookup r' = rd_lookup r \<or> (\<exists>response. answer_to W kind response \<and> re_tool_calls response = [])"
    using t2 r2 by (auto dest!: a f split: outcome.splits)
qed

text \<open>
  Claim C9. The guard that catches an answer which only announces a search is meant to force a call of a tool. With a provider that obeys, it never does: the
  guard can fire only in a later round, whose choice had been reset, and the repeated request, and every one after it, leaves the
  choice to the model.
\<close>

theorem lookup_guard_unforced:
  assumes "obeys_any W" and "tool_choice t = ''any''" and "later_round E W T (first_round t) r" and "rd_lookup r"
  shows "tool_choice (rd_turn r) = ''auto'' \<and> 0 < rd_iterations r"
proof -
  from assms(3) have "if rd_lookup r then tool_choice (rd_turn r) = ''auto'' \<and> 0 < rd_iterations r
      else 0 \<le> rd_iterations r \<and> (rd_iterations r = 0 \<longrightarrow> tool_choice (rd_turn r) = ''any'')"
  proof (induction rule: later_round.induct)
    case first
    then show ?case using assms(2) by (simp add: first_round_def)
  next
    case (again r r')
    note c = one_round_choice [OF again(2)] and i = one_round_Again(2) [OF again(2)]
    show ?case
    proof (cases "rd_lookup r")
      case True
      then have "tool_choice (rd_turn r') = ''auto''" "0 < rd_iterations r'" using c i again(3) by auto
      then show ?thesis by simp
    next
      case nl: False
      show ?thesis
      proof (cases "0 < rd_iterations r")
        case True
        then have "tool_choice (rd_turn r') = ''auto''" "0 < rd_iterations r'" using c(1) i nl by auto
        then show ?thesis by simp
      next
        case False
        then have any: "tool_choice (rd_turn r) = ''any''" "rd_iterations r = 0" using again(3) nl by simp_all
        then have "\<not> rd_lookup r'" using c(2) nl assms(1) by (auto simp: obeys_any_def)
        then show ?thesis using c(1) i any nl by auto
      qed
    qed
  qed
  with assms(4) show ?thesis by simp
qed

text \<open>A world with a provider that obeys, and otherwise reports that it found nothing.\<close>

definition demo_usage :: TokenUsage where
  "demo_usage = \<lparr>tu_prompt_tokens = 0, tu_completion_tokens = 0, tu_total_tokens = 0, tu_cache_read_input_tokens = 0,
     tu_cache_creation_input_tokens = 0\<rparr>"

definition obedient_answer :: "string \<Rightarrow> ChatCompletionResponse" where
  "obedient_answer kind =
     (if kind = ''any'' then \<lparr>re_content = [], re_tool_calls = [\<lparr>tk_id = ''c1'', tk_name = ''find'', tk_arguments = None\<rparr>],
        re_is_stream_end = False, re_usage = demo_usage\<rparr>
      else \<lparr>re_content = ''not found'', re_tool_calls = [], re_is_stream_end = False, re_usage = demo_usage\<rparr>)"

definition obedient_world :: "nat World" where
  "obedient_world = (failing_world stop_error)\<lparr>wd_chat := (\<lambda>p rq w. (Inr (obedient_answer (rq_tool_choice_type rq)), w + 1))\<rparr>"

definition plain_turn :: "string \<Rightarrow> Message list \<Rightarrow> nat \<Rightarrow> (nat, nat, nat) Turn" where
  "plain_turn kind ms w = \<lparr>tn_agent = demo_agent, tn_request = \<lparr>rq_messages = ms, rq_model = default_model, rq_temperature = JvReal ''0.7'',
     rq_max_tokens = 8192, rq_tools = [], rq_tool_choice_type = kind, rq_thinking = ''off''\<rparr>,
     tn_provider = Some \<lparr>pv_object = Injected, pv_impl = OpenAIProvider ''k'' ''u'' 30\<rparr>, tn_world = w\<rparr>"

lemma obedient_world_steps [simp]:
  "stopped obedient_world t = (False, t)" "wd_chat obedient_world p rq w = (Inr (obedient_answer (rq_tool_choice_type rq)), w + 1)"
  "wd_stopped obedient_world w = (False, w)" "wd_tool obedient_world n x w = (Inr [], w)"
  "wd_clear_stop obedient_world w = w" "wd_now obedient_world w = (0, w)" "wd_getenv obedient_world = (\<lambda>_. None)"
  by (simp_all add: obedient_world_def failing_world_def stopped_def)

lemma plain_turn_sanitized [simp]: "sanitize_turn (plain_turn kind ms w) = plain_turn kind ms w"
  by (simp add: sanitize_turn_def plain_turn_def sanitize_request_messages_for_provider_def provider_name_def demo_agent_def
      AgentLoop_init_def)

lemma plain_turn_success: "record_success demo_agent = demo_agent"
  by (simp add: record_success_def demo_agent_def AgentLoop_init_def)

lemma plain_execute:
  "execute_with_retry obedient_world m 1 (plain_turn kind ms w) = (Done (obedient_answer kind), plain_turn kind ms (w + 1))"
proof -
  have k: "kMaxFailoverAttempts = Suc 19" by (simp add: kMaxFailoverAttempts_def)
  have n: "nat (1 + 1) = Suc 1" by simp
  have p: "tn_provider (plain_turn kind ms w) = Some \<lparr>pv_object = Injected, pv_impl = OpenAIProvider ''k'' ''u'' 30\<rparr>"
    "rq_tool_choice_type (tn_request (plain_turn kind ms w)) = kind" "tn_world (plain_turn kind ms w) = w"
    "tn_agent (plain_turn kind ms w) = demo_agent"
    "plain_turn kind ms w\<lparr>tn_world := Suc w, tn_agent := demo_agent\<rparr> = plain_turn kind ms (Suc w)"
    by (simp_all add: plain_turn_def)
  show ?thesis unfolding execute_with_retry_def k failover_loop.simps n try_provider.simps
    by (simp add: Let_def p plain_turn_success)
qed

definition demo_text :: "int \<Rightarrow> TurnText" where
  "demo_text n = \<lparr>tt_message = ''search'', tt_system_prompt = [], tt_key = [], tt_model = default_model, tt_max_iterations = n\<rparr>"

definition demo_round :: "string \<Rightarrow> Message list \<Rightarrow> nat \<Rightarrow> Message list \<Rightarrow> int \<Rightarrow> bool \<Rightarrow> (nat, nat, nat) Round" where
  "demo_round kind ms w new i lookup = \<lparr>rd_turn = plain_turn kind ms w, rd_new = new, rd_iterations = i, rd_overflows = 0,
     rd_lookup = lookup, rd_synthesis = False\<rparr>"

definition demo_call :: "Message list" where
  "demo_call = [assistant_message (obedient_answer ''any''), results_message (re_tool_calls (obedient_answer ''any'')) [[]]]"

lemma demo_round_fields [simp]:
  "rd_turn (demo_round kind ms w new i l) = plain_turn kind ms w" "rd_iterations (demo_round kind ms w new i l) = i"
  "rd_lookup (demo_round kind ms w new i l) = l" "rd_new (demo_round kind ms w new i l) = new"
  "rd_messages (demo_round kind ms w new i l) = ms"
  "demo_round kind ms w new i l\<lparr>rd_turn := plain_turn kind' ms' w'\<rparr> = demo_round kind' ms' w' new i l"
  "demo_round kind ms w new i l\<lparr>rd_new := new'\<rparr> = demo_round kind ms w new' i l"
  "demo_round kind ms w new i l\<lparr>rd_iterations := i'\<rparr> = demo_round kind ms w new i' l"
  "demo_round kind ms w new i l\<lparr>rd_lookup := l'\<rparr> = demo_round kind ms w new i l'"
  "tn_world (plain_turn kind ms w) = w" "record_usage T u (demo_round kind ms w new i l) = demo_round kind ms w new i l"
  "put_messages ms' (demo_round kind ms w new i l) = demo_round kind ms' w new i l"
  "put_world w' (demo_round kind ms w new i l) = demo_round kind ms w' new i l"
  "choose_tools kind' (demo_round kind ms w new i l) = demo_round kind' ms w new i l"
  by (simp_all add: demo_round_def plain_turn_def rd_messages_def record_usage_def demo_agent_def AgentLoop_init_def
      put_messages_def put_world_def choose_tools_def)

lemma demo_one_round:
  fixes kind :: string and l :: bool
  assumes "i < n"
  defines "kind' \<equiv> if 0 < i \<and> \<not> l then ''auto'' else kind"
  shows "one_round demo_env obedient_world (demo_text n) (demo_round kind ms w new i l)
     = answered_round demo_env obedient_world (demo_text n) (obedient_answer kind') (demo_round kind' ms (w + 1) new i l)"
proof -
  have c: "with_choice (demo_round kind ms w new i l) = demo_round kind' ms w new i l" by (simp add: with_choice_def kind'_def)
  show ?thesis using assms(1) plain_execute [of default_model kind' ms w] by (simp add: one_round_def demo_text_def Let_def c)
qed

lemma demo_tool_round:
  "answered_round demo_env obedient_world T (obedient_answer ''any'') (demo_round kind ms w new i l)
     = Again (demo_round kind (ms @ demo_call) w (new @ demo_call) (i + 1) l)"
proof -
  have h: "handle_tool_calls obedient_world (re_tool_calls (obedient_answer ''any'')) w = ([[]], w)" by (simp add: obedient_answer_def)
  have ne: "re_tool_calls (obedient_answer ''any'') \<noteq> []" by (simp add: obedient_answer_def)
  have tr: "truncate_tool_result [] 30000 20 = []" by (simp add: truncate_tool_result_def)
  show ?thesis using ne by (simp add: answered_round_def tool_round_def h tr Let_def flip: demo_call_def)
qed

lemma demo_guard_round:
  "answered_round demo_env obedient_world (demo_text n) (obedient_answer ''auto'') (demo_round kind ms w new i False)
     = Again (demo_round kind (ms @ [block_message ''assistant'' ''not found'', block_message ''user'' lookup_correction]) w new (i + 1) True)"
proof -
  have i: "has_lookup_intent ''search''" 
    by (simp add: has_lookup_intent_def has_word_def lookup_ascii_markers_def str_contains_def ToLower_def to_lower_def byte_def)
  have neg: "response_contains_negative_conclusion ''not found''"
    by (simp add: response_contains_negative_conclusion_def has_word_def negative_markers_def str_contains_def)
  have a: "re_tool_calls (obedient_answer ''auto'') = []" "re_content (obedient_answer ''auto'') = ''not found''"
    by (simp_all add: obedient_answer_def)
  show ?thesis using i neg by (simp add: answered_round_def text_round_def a Let_def demo_text_def corrected_def)
qed

lemma obedient_obeys: "obeys_any obedient_world"
  by (auto simp: obeys_any_def answer_to_def obedient_answer_def)

theorem lookup_guard_unforced_witness:
  "\<exists>r. later_round demo_env obedient_world (demo_text 5) (first_round (plain_turn ''any'' [] 0)) r \<and> rd_lookup r
     \<and> tool_choice (rd_turn r) = ''auto''"
proof -
  have f: "first_round (plain_turn ''any'' [] 0) = demo_round ''any'' [] 0 [] 0 False" by (simp add: first_round_def demo_round_def)
  let ?r = "demo_round ''auto'' (demo_call @ [block_message ''assistant'' ''not found'', block_message ''user'' lookup_correction]) 2 demo_call 2 True"
  have 1: "one_round demo_env obedient_world (demo_text 5) (demo_round ''any'' [] 0 [] 0 False) = Again (demo_round ''any'' demo_call 1 demo_call 1 False)"
    using demo_one_round [of 0 5 "''any''" "[]" 0 "[]" False] demo_tool_round by simp
  have 2: "one_round demo_env obedient_world (demo_text 5) (demo_round ''any'' demo_call 1 demo_call 1 False) = Again ?r"
    using demo_one_round [of 1 5 "''any''" demo_call 1 demo_call False] demo_guard_round by (simp add: numeral_2_eq_2)
  have r: "later_round demo_env obedient_world (demo_text 5) (first_round (plain_turn ''any'' [] 0)) ?r"
    unfolding f by (rule later_round.again [OF later_round.again [OF later_round.first 1] 2])
  have "tool_choice (plain_turn ''any'' [] 0) = ''any''" by (simp add: tool_choice_def plain_turn_def)
  from lookup_guard_unforced [OF obedient_obeys this r] r show ?thesis by auto
qed

lemma demo_final_round:
  assumes "trailing_result_ids ms = []"
  shows "answered_round demo_env obedient_world (demo_text n) (obedient_answer ''auto'') (demo_round kind ms w new i True)
     = Finish (Done (new @ [block_message ''assistant'' ''not found''])) (demo_round kind ms w new i True)"
proof -
  have a: "re_tool_calls (obedient_answer ''auto'') = []" "re_content (obedient_answer ''auto'') = ''not found''"
    by (simp_all add: obedient_answer_def)
  show ?thesis using assms
    by (simp add: answered_round_def text_round_def a Let_def collect_trailing_replay_tool_names_def
        IndexConversationMessages_def demo_env_def)
qed

lemma demo_turn_rounds:
  "\<exists>r. run_rounds demo_env obedient_world (demo_text 5) (first_round (plain_turn ''any'' ms 0))
     = (Done (demo_call @ [block_message ''assistant'' ''not found'']), r)"
proof -
  let ?ms = "ms @ demo_call @ [block_message ''assistant'' ''not found'', block_message ''user'' lookup_correction]"
  have f: "first_round (plain_turn ''any'' ms 0) = demo_round ''any'' ms 0 [] 0 False" by (simp add: first_round_def demo_round_def)
  have 1: "one_round demo_env obedient_world (demo_text 5) (demo_round ''any'' ms 0 [] 0 False) = Again (demo_round ''any'' (ms @ demo_call) 1 demo_call 1 False)"
    using demo_one_round [of 0 5 "''any''" ms 0 "[]" False] demo_tool_round by simp
  have 2: "one_round demo_env obedient_world (demo_text 5) (demo_round ''any'' (ms @ demo_call) 1 demo_call 1 False) = Again (demo_round ''auto'' ?ms 2 demo_call 2 True)"
    using demo_one_round [of 1 5 "''any''" "ms @ demo_call" 1 demo_call False] demo_guard_round by (simp add: numeral_2_eq_2)
  have t: "trailing_result_ids ?ms = []"
    by (simp add: trailing_result_ids_def block_message_def MakeText_def ContentBlock_empty_def)
  have 3: "one_round demo_env obedient_world (demo_text 5) (demo_round ''auto'' ?ms 2 demo_call 2 True)
      = Finish (Done (demo_call @ [block_message ''assistant'' ''not found''])) (demo_round ''auto'' ?ms 3 demo_call 2 True)"
    using demo_one_round [of 2 5 "''auto''" ?ms 2 demo_call True] demo_final_round [OF t] by (simp add: numeral_3_eq_3)
  show ?thesis by (simp add: f run_rounds_def process_rounds.simps 1 2 [simplified] 3 [simplified])
qed

theorem turn_messages_paired_witness:
  "paired None (demo_call @ [block_message ''assistant'' ''not found''])"
proof -
  have k: "turn_key demo_agent [] = []" by (simp add: turn_key_def demo_agent_def AgentLoop_init_def)
  have i: "has_lookup_intent ''search''"
    by (simp add: has_lookup_intent_def has_word_def lookup_ascii_markers_def str_contains_def ToLower_def to_lower_def byte_def)
  have r: "resolve_provider (\<lambda>_. None) 0 demo_agent = Returns (Some \<lparr>pv_object = Injected, pv_impl = OpenAIProvider ''k'' ''u'' 30\<rparr>, demo_agent)"
    by (simp add: resolve_provider_def resolve_registry_def no_ids_def demo_agent_def AgentLoop_init_def Let_def)
  have c: "first_context demo_env demo_agent forced_note [] [] ''search'' [] = Some [text_message ''user'' ''search'']"
    by (simp add: first_context_def recent_history_def auto_compact_def Prune_def focus_history_on_latest_turn_def last_index_def
        compress_history_for_context_budget_def context_guard_def build_context_def unless_no_text_def context_window_def demo_agent_def
        AgentLoop_init_def AgentConfig_init_def estimate_tokens_def text_message_def block_chars_def MakeText_def
        ContentBlock_empty_def cdiv_def Let_def)
  have q: "\<lparr>tn_agent = demo_agent, tn_request = first_request demo_env demo_agent ms ''any'',
      tn_provider = Some \<lparr>pv_object = Injected, pv_impl = OpenAIProvider ''k'' ''u'' 30\<rparr>, tn_world = 0\<rparr> = plain_turn ''any'' ms 0" for ms
    by (simp add: plain_turn_def first_request_def demo_agent_def AgentLoop_init_def AgentConfig_init_def demo_env_def
        build_request_tools_def resolved_request_model_def default_model_def)
  have d: "\<lparr>tt_message = ''search'', tt_system_prompt = [], tt_key = [], tt_model = ac_model (al_config demo_agent),
      tt_max_iterations = al_max_iterations demo_agent\<rparr> = demo_text 5"
    by (simp add: demo_text_def demo_agent_def AgentLoop_init_def AgentConfig_init_def)
  obtain r' where "run_rounds demo_env obedient_world (demo_text 5) (first_round (plain_turn ''any'' [text_message ''user'' ''search''] 0))
      = (Done (demo_call @ [block_message ''assistant'' ''not found'']), r')" using demo_turn_rounds by blast
  then obtain a' w' where "ProcessMessage demo_env obedient_world ''search'' [] [] [] demo_agent 0
      = (Done (demo_call @ [block_message ''assistant'' ''not found'']), a', w')"
    using i by (simp add: ProcessMessage_def k duplicate_notice_def r c q d)
  from turn_messages_paired [OF this] show ?thesis by blast
qed

end
