(* ===== verification/Spec2Isabelle.thy ===== *)
theory Spec2Isabelle
  imports Failover CmdQueue RateLimit Rbac ToolPerms TrustModel SandboxPaths ExecApproval
    ChannelPolicy ChannelStores LaneProc Pruner Compaction DevicePairing GatewayChecks ToolChain
    CronJobs Hooks Subagents SessionProps AuditLog ExternalContent PluginRegistry
    McpTools AgentTurn
begin

text \<open>
  RavBot: a verification development of the C++ core of a personal AI assistant gateway.

  \<^bold>\<open>The program.\<close> A gateway process accepts connections of clients and messages of chat channels,
  checks who may do what, queues the work of each session, runs an agent (a language
  model that calls tools) on it, and keeps sessions, schedules and sub-agents between
  runs. Paths below are under \<open>src/src/\<close>, headers under \<open>src/include/ravbot/\<close>. Function names are
  those of the code; fields of a record carry a two-letter prefix of their class.

  \<^bold>\<open>Foundations.\<close> \<open>RavPrelude\<close>: byte strings and \<open>std::string::find\<close>, \<open>substr\<close>, \<open>stoi\<close> and
  \<open>to_string\<close>; times as integer ticks with \<open>duration_cast\<close>; unordered maps as association lists
  with one entry for a key; lemma collections. \<open>StringUtil\<close>: \<open>common/string_util.hpp\<close> and
  \<open>common/parse_util.hpp\<close>. \<open>Calendar\<close>: \<open>gmtime\<close>, \<open>timegm\<close> and ISO timestamps. \<open>Patterns\<close> and \<open>Regex\<close>: the
  fragment of ECMAScript regular expressions the sources use, as matchers and as languages. \<open>Json\<close>: values and
  the accessors of the JSON library.

  \<^bold>\<open>Language model providers.\<close> \<open>Cooldown\<close> (\<open>providers/provider_error.cpp\<close>,
  \<open>cooldown_tracker.cpp\<close>): classification, backoff, probes; probes of a key are spaced, backoff
  is bounded. \<open>Registry\<close> (\<open>provider_registry.cpp\<close>): model references and the cache of instances.
  \<open>Failover\<close> (\<open>failover_resolver.cpp\<close>): a resolution is safe and sticks to its session; with a
  fallback chain, \<open>Resolve\<close> locks a mutex it holds.

  \<^bold>\<open>Queues.\<close> \<open>Lanes\<close> and \<open>CmdQueue\<close> (\<open>gateway/command_queue.cpp\<close>): the queue of
  one session, and the queue that dispatches the lanes under a global limit. \<open>LaneProc\<close>
  (\<open>channels/lane_processor.cpp\<close>) is the worker of a chat as a step relation of its critical sections,
  so that every interleaving of its threads is a run. Lemmas: first-in first-out, one worker
  per session, the limit, the overflow policies, progress, and the runs that break them.

  \<^bold>\<open>Gateway.\<close> \<open>Gateway\<close> (\<open>gateway/gateway_server.cpp\<close>, \<open>rpc_types\<close> and protocol headers): the hello,
  authentication with lock-out, access control, rate limit, handlers, watchdog, health probes,
  as one state and one function per operation; a handler is a parameter, and what it
  returned or threw an argument of \<open>finish_request\<close>. \<open>gateway_next\<close> composes them, and
  \<open>authentication_required\<close> and \<open>gateway_rate_limited\<close> hold in every run of it.
  The second is obtained through \<open>RateLimit\<close> (\<open>security/rate_limiter.cpp\<close>) by simulation.
  \<open>GatewayChecks\<close>: scopes, lock-out, time-outs, health. \<open>Sanitizer\<close> (\<open>message_sanitizer.cpp\<close>) cleans
  messages. \<open>DevicePairing\<close> (\<open>device_pairing.cpp\<close>, \<open>route_manager.cpp\<close>): tokens and routes.

  \<^bold>\<open>Security.\<close> \<open>Rbac\<close>, \<open>ToolPerms\<close>, \<open>TrustModel\<close>, \<open>SandboxPaths\<close>, \<open>ExecApproval\<close>, \<open>RateLimit\<close>,
  \<open>ExternalContent\<close>, \<open>AuditLog\<close> (\<open>security/\<close>). Lemmas: who may call which method; the deny and allow lists as
  written; trust levels and policies through the file; paths that stay inside, and spellings that leave;
  the glob matcher against its declarative meaning; each approval resolved once; the window of the limiter;
  markers that sanitized content cannot contain; a log that holds each call once.

  \<^bold>\<open>Channels.\<close> \<open>ChannelPolicy\<close> (\<open>channels/channel_policy.cpp\<close>), \<open>ChannelStores\<close>
  (\<open>deduplication_store.cpp\<close>, \<open>thread_binder.cpp\<close>).

  \<^bold>\<open>Agent core.\<close> \<open>AgentRequest\<close>, \<open>AgentText\<close>, \<open>AgentRetry\<close> and \<open>AgentTurn\<close> (\<open>core/agent_loop.cpp\<close>): the repair of a
  request, the reading of texts, the retries and the failover over the resolver of \<open>Failover\<close>, and
  \<open>ProcessMessage\<close> with its rounds, guards, recovery and stop. The world outside is a record of functions over a state, so
  a theorem about every world is one about every course of events. Lemmas: what a turn adds is paired, a turn ends
  within forty calls for each iteration and overflow, both retry loops are one, what the guards do not do.
  \<open>Turns\<close> (\<open>turn_validator.cpp\<close>), \<open>Pruner\<close> (\<open>context_pruner.cpp\<close>), \<open>Compaction\<close> (\<open>session_compaction.cpp\<close>,
  \<open>usage_accumulator.cpp\<close>, \<open>message_commands.cpp\<close>), \<open>ToolChain\<close> (\<open>tools/tool_chain.cpp\<close>),
  \<open>Subagents\<close> (\<open>subagent.cpp\<close>), \<open>Cron\<close> and \<open>CronJobs\<close> (\<open>cron_scheduler.cpp\<close>).

  \<^bold>\<open>Plugins.\<close> \<open>Hooks\<close>, \<open>PluginManifests\<close>, \<open>PluginRegistry\<close> (\<open>plugins/hook_manager.cpp\<close>,
  \<open>plugin_manifest.cpp\<close>, \<open>plugin_registry.cpp\<close>): handlers by priority, manifests that survive writing and
  reading, an index that is exact in every run.

  \<^bold>\<open>Configuration.\<close> \<open>ConfigFile\<close> and \<open>Config\<close> (\<open>core/config.cpp\<close>): cleaning of the text, substitution of the
  environment, values by path, reading of every section, validation and what it misses.

  \<^bold>\<open>Model context protocol.\<close> \<open>McpServer\<close>, \<open>McpTools\<close> (\<open>mcp/\<close>): the server, the client and the manager of
  external tools; composed, a client runs the tools that were registered last.

  \<^bold>\<open>Sessions.\<close> \<open>SessionKeys\<close>, \<open>Sessions\<close>, \<open>SessionProps\<close> (\<open>session/session_manager.cpp\<close>): the store
  in memory together with the files it writes; the whole refines a map from keys to histories.
  \<open>Maintenance\<close> (\<open>session/session_maintenance.cpp\<close>): pruning, rotation and limits over a directory.

  \<^bold>\<open>Interfaces.\<close> Where several components share a contract its laws are a locale, interpreted on
  each of them: \<open>keyed_store\<close> and \<open>defaulted_store\<close> (what a lookup returns after an insertion or
  removal), \<open>enum_codec\<close> (texts of an enumeration), \<open>guarded_machine\<close> (an invariant kept by the enabled
  steps of a run), \<open>deny_first\<close> (lists of denied and allowed names), \<open>key_gate\<close>, \<open>fifo_lane\<close>.

  \<^bold>\<open>Bounds.\<close> Integers are \<open>int\<close> with the range of the C++ type stated where it matters, words where
  they wrap (\<open>TrustModel\<close>, \<open>DevicePairing\<close>). Loops are structural or have a measure; no fuel
  is used but in \<open>Cron\<close>, whose search has the bound of the code itself, 525960 minutes.

  \<^bold>\<open>Parameters.\<close> Not under \<open>src/\<close>, or not decidable from it, and hence arguments: the clock, random
  identifiers, the order of an unordered map where it is seen, \<open>std::sort\<close> where the order of equal
  elements is not determined, \<open>merge_patch\<close> of the JSON library (with the law it documents), the
  executor of tools, the sidecar process, the runner of agents, the hook handlers of plugins, parsing and
  printing of JSON, conversion of fractional numbers, decoding of UTF-8, the transfer of a request. The
  offset of local time is constant, and writing of files succeeds unless the model says otherwise.

  \<^bold>\<open>Not modelled.\<close> Network clients (model providers, chat services, embeddings, web), process and
  system calls (\<open>platform/\<close>, daemon, browser, sidecar), terminal dialogue and argument parsing
  (\<open>cli/\<close>, \<open>main.cpp\<close>), floating-point search (\<open>hnsw_index.cpp\<close>, \<open>vector_database.cpp\<close>): what they
  compute is decided outside the sources. \<open>ProcessMessageStream\<close>, whose callbacks interleave with the chunks of
  a provider, the remote procedure handlers and the tool registry, mostly calls of these, and the prompts, skills and memory
  files of the agent are left out.
\<close>

end
